(* ===== verification/Prelude.thy ===== *)
theory Prelude
  imports Main "HOL-Library.Sublist"
begin

text \<open>
  Shared vocabulary of the development: Rust strings and the part of \<^verbatim>\<open>std::str\<close> the
  modelled crates use, results, and generic lemmas on lists.

  A Rust \<^verbatim>\<open>char\<close> is a Unicode scalar value, here its code point (\<open>uchar\<close>); a \<^verbatim>\<open>str\<close> or
  \<^verbatim>\<open>String\<close> is the list of its chars (\<open>rstr\<close>). Byte lengths, where the source
  measures them, are computed from the code points (\<open>utf8_len\<close>). A position that the source
  holds as a byte offset on a char boundary is a number of chars here, unless a definition
  says otherwise. \<^verbatim>\<open>Result<T, E>\<close> is \<open>'e + 'a\<close>, with \<open>Inl\<close> for \<^verbatim>\<open>Err\<close>.
\<close>

section \<open>Collections of facts\<close>

named_theorems str_simps \<open>equations of the string operations, for rewriting\<close>
named_theorems stream_laws \<open>laws of the streaming parsers\<close>

section \<open>Strings\<close>

type_synonym uchar = nat
type_synonym rstr = "uchar list"
type_synonym ('a, 'e) result = "'e + 'a"

text \<open>A literal of the source.\<close>

definition lit :: "string \<Rightarrow> rstr" where
  "lit s = map of_char s"

abbreviation NL :: uchar where "NL \<equiv> 10"
abbreviation CR :: uchar where "CR \<equiv> 13"
abbreviation SPC :: uchar where "SPC \<equiv> 32"

text \<open>\<^verbatim>\<open>char::is_whitespace\<close>: the code points with the Unicode property White_Space.\<close>

definition is_whitespace :: "uchar \<Rightarrow> bool" where
  "is_whitespace c \<longleftrightarrow>
     (9 \<le> c \<and> c \<le> 13) \<or> c = 32 \<or> c = 133 \<or> c = 160 \<or> c = 5760 \<or>
     (8192 \<le> c \<and> c \<le> 8202) \<or> c = 8232 \<or> c = 8233 \<or> c = 8239 \<or> c = 8287 \<or> c = 12288"

definition is_ascii_digit :: "uchar \<Rightarrow> bool" where
  "is_ascii_digit c \<longleftrightarrow> 48 \<le> c \<and> c \<le> 57"

definition to_ascii_lower :: "uchar \<Rightarrow> uchar" where
  "to_ascii_lower c = (if 65 \<le> c \<and> c \<le> 90 then c + 32 else c)"

definition to_ascii_lowercase :: "rstr \<Rightarrow> rstr" where
  "to_ascii_lowercase s = map to_ascii_lower s"

definition eq_ignore_ascii_case :: "rstr \<Rightarrow> rstr \<Rightarrow> bool" where
  "eq_ignore_ascii_case s t \<longleftrightarrow> to_ascii_lowercase s = to_ascii_lowercase t"

text \<open>Bytes of a char and of a string in UTF-8 (\<^verbatim>\<open>char::len_utf8\<close>, \<^verbatim>\<open>str::len\<close>).\<close>

definition len_utf8 :: "uchar \<Rightarrow> nat" where
  "len_utf8 c = (if c < 128 then 1 else if c < 2048 then 2 else if c < 65536 then 3 else 4)"

definition utf8_len :: "rstr \<Rightarrow> nat" where
  "utf8_len s = sum_list (map len_utf8 s)"

definition trim_start :: "rstr \<Rightarrow> rstr" where
  "trim_start s = dropWhile is_whitespace s"

definition trim_end :: "rstr \<Rightarrow> rstr" where
  "trim_end s = rev (dropWhile is_whitespace (rev s))"

definition trim :: "rstr \<Rightarrow> rstr" where
  "trim s = trim_end (trim_start s)"

text \<open>\<^verbatim>\<open>trim_end_matches(c)\<close> for one char.\<close>

definition trim_end_matches :: "uchar \<Rightarrow> rstr \<Rightarrow> rstr" where
  "trim_end_matches c s = rev (dropWhile (\<lambda>x. x = c) (rev s))"

fun strip_prefix :: "'a list \<Rightarrow> 'a list \<Rightarrow> 'a list option" where
  "strip_prefix [] s = Some s"
| "strip_prefix (p # ps) [] = None"
| "strip_prefix (p # ps) (c # cs) = (if p = c then strip_prefix ps cs else None)"

definition strip_suffix :: "'a list \<Rightarrow> 'a list \<Rightarrow> 'a list option" where
  "strip_suffix p s = map_option rev (strip_prefix (rev p) (rev s))"

definition starts_with :: "'a list \<Rightarrow> 'a list \<Rightarrow> bool" where
  "starts_with s p \<longleftrightarrow> strip_prefix p s \<noteq> None"

definition ends_with :: "'a list \<Rightarrow> 'a list \<Rightarrow> bool" where
  "ends_with s p \<longleftrightarrow> strip_suffix p s \<noteq> None"

text \<open>\<^verbatim>\<open>str::find\<close> of a string: the first position where the needle starts.\<close>

fun find_str :: "'a list \<Rightarrow> 'a list \<Rightarrow> nat option" where
  "find_str needle [] = (if needle = [] then Some 0 else None)"
| "find_str needle (c # cs) =
     (if starts_with (c # cs) needle then Some 0 else map_option Suc (find_str needle cs))"

definition contains_str :: "'a list \<Rightarrow> 'a list \<Rightarrow> bool" where
  "contains_str s needle \<longleftrightarrow> find_str needle s \<noteq> None"

text \<open>\<^verbatim>\<open>str::split(c)\<close>: always at least one piece.\<close>

fun split_on :: "'a \<Rightarrow> 'a list \<Rightarrow> 'a list list" where
  "split_on d [] = [[]]"
| "split_on d (c # cs) =
     (if c = d then [] # split_on d cs
      else (case split_on d cs of [] \<Rightarrow> [[c]] | p # ps \<Rightarrow> (c # p) # ps))"

text \<open>\<^verbatim>\<open>str::split_once(c)\<close> and \<^verbatim>\<open>str::rsplit_once(c)\<close>.\<close>

fun split_once :: "'a \<Rightarrow> 'a list \<Rightarrow> ('a list \<times> 'a list) option" where
  "split_once d [] = None"
| "split_once d (c # cs) =
     (if c = d then Some ([], cs) else map_option (\<lambda>(a, b). (c # a, b)) (split_once d cs))"

definition rsplit_once :: "'a \<Rightarrow> 'a list \<Rightarrow> ('a list \<times> 'a list) option" where
  "rsplit_once d s = map_option (\<lambda>(a, b). (rev b, rev a)) (split_once d (rev s))"

text \<open>\<^verbatim>\<open>str::split_inclusive('\n')\<close>: each piece keeps its newline; no empty last piece.\<close>

fun split_inclusive :: "'a \<Rightarrow> 'a list \<Rightarrow> 'a list list" where
  "split_inclusive d [] = []"
| "split_inclusive d (c # cs) =
     (if c = d then [c] # split_inclusive d cs
      else (case split_inclusive d cs of [] \<Rightarrow> [[c]] | p # ps \<Rightarrow> (c # p) # ps))"

text \<open>\<^verbatim>\<open>str::lines\<close>: the newline goes, and with it a carriage return right before it.\<close>

definition strip_line_ending :: "rstr \<Rightarrow> rstr" where
  "strip_line_ending l =
     (case strip_suffix [NL] l of None \<Rightarrow> l
      | Some l' \<Rightarrow> (case strip_suffix [CR] l' of None \<Rightarrow> l' | Some l'' \<Rightarrow> l''))"

definition str_lines :: "rstr \<Rightarrow> rstr list" where
  "str_lines s = map strip_line_ending (split_inclusive NL s)"

fun str_join :: "'a list \<Rightarrow> 'a list list \<Rightarrow> 'a list" where
  "str_join sep [] = []"
| "str_join sep [x] = x"
| "str_join sep (x # y # ys) = x @ sep @ str_join sep (y # ys)"

text \<open>Decimal rendering of a number (\<^verbatim>\<open>Display\<close> of the unsigned integers).\<close>

fun show_nat :: "nat \<Rightarrow> rstr" where
  "show_nat n = (if n < 10 then [48 + n] else show_nat (n div 10) @ [48 + n mod 10])"

declare show_nat.simps [simp del]

text \<open>\<^verbatim>\<open>Option::is_some_and\<close> on the last element of a vector.\<close>

definition last_is :: "('a \<Rightarrow> bool) \<Rightarrow> 'a list \<Rightarrow> bool" where
  "last_is P xs \<longleftrightarrow> xs \<noteq> [] \<and> P (last xs)"

text \<open>Unsigned 64-bit numbers (\<^verbatim>\<open>usize\<close>, \<^verbatim>\<open>u64\<close>): \<^verbatim>\<open>saturating_add\<close> and \<^verbatim>\<open>saturating_mul\<close>.
  \<^verbatim>\<open>saturating_sub\<close> is the subtraction of natural numbers.\<close>

definition USIZE_MAX :: nat where
  "USIZE_MAX = 2 ^ 64 - 1"

definition sat_add :: "nat \<Rightarrow> nat \<Rightarrow> nat" where
  "sat_add a b = min (a + b) USIZE_MAX"

definition sat_mul :: "nat \<Rightarrow> nat \<Rightarrow> nat" where
  "sat_mul a b = min (a * b) USIZE_MAX"

section \<open>Lemmas\<close>

lemma lit_Nil [simp]: "lit [] = []"
  by (simp add: lit_def)

lemma lit_Cons [simp]: "lit (c # cs) = of_char c # lit cs"
  by (simp add: lit_def)

lemma length_lit [simp]: "length (lit s) = length s"
  by (simp add: lit_def)

lemma sat_add_small: "a + b \<le> USIZE_MAX \<Longrightarrow> sat_add a b = a + b"
  by (simp add: sat_add_def)

lemma utf8_len_Nil [simp]: "utf8_len [] = 0"
  by (simp add: utf8_len_def)

lemma utf8_len_Cons [simp]: "utf8_len (c # s) = len_utf8 c + utf8_len s"
  by (simp add: utf8_len_def)

lemma utf8_len_append [simp]: "utf8_len (s @ t) = utf8_len s + utf8_len t"
  by (simp add: utf8_len_def)

lemma len_utf8_bounds: "0 < len_utf8 c \<and> len_utf8 c \<le> 4"
  by (simp add: len_utf8_def)

lemma length_le_utf8_len: "length s \<le> utf8_len s"
proof (induction s)
  case (Cons c s)
  then show ?case using len_utf8_bounds [of c] by simp
qed simp

subsection \<open>Prefixes and suffixes\<close>

lemma strip_prefix_Some_iff [str_simps]: "strip_prefix p s = Some t \<longleftrightarrow> s = p @ t"
  by (induction p s rule: strip_prefix.induct) auto

lemma strip_prefix_append [simp]: "strip_prefix p (p @ t) = Some t"
  by (simp add: strip_prefix_Some_iff)

lemma strip_prefix_self [simp]: "strip_prefix p p = Some []"
  by (simp add: strip_prefix_Some_iff)

lemma strip_prefix_None_iff: "strip_prefix p s = None \<longleftrightarrow> \<not> prefix p s"
  using strip_prefix_Some_iff [of p s] by (cases "strip_prefix p s") (auto simp: prefix_def)

lemma strip_suffix_Some_iff [str_simps]: "strip_suffix p s = Some t \<longleftrightarrow> s = t @ p"
proof -
  have "strip_suffix p s = Some t \<longleftrightarrow> strip_prefix (rev p) (rev s) = Some (rev t)"
    by (auto simp: strip_suffix_def)
  also have "\<dots> \<longleftrightarrow> rev s = rev (t @ p)" by (simp add: strip_prefix_Some_iff)
  finally show ?thesis by (simp only: rev_is_rev_conv)
qed

lemma starts_with_iff_prefix: "starts_with s p \<longleftrightarrow> prefix p s"
  by (simp add: starts_with_def strip_prefix_None_iff)

lemma ends_with_iff_suffix: "ends_with s p \<longleftrightarrow> suffix p s"
proof
  assume "ends_with s p"
  then obtain t where "strip_suffix p s = Some t" by (auto simp: ends_with_def)
  then show "suffix p s" by (simp add: strip_suffix_Some_iff suffixI)
next
  assume "suffix p s"
  then obtain t where "s = t @ p" by (rule suffixE)
  then have "strip_suffix p s = Some t" by (simp add: strip_suffix_Some_iff)
  then show "ends_with s p" by (simp add: ends_with_def)
qed

lemma strip_suffix_single_snoc [simp]: "strip_suffix [c] (s @ [c]) = Some s"
  by (simp add: strip_suffix_Some_iff)

lemma strip_suffix_single_None:
  "s = [] \<or> last s \<noteq> c \<Longrightarrow> strip_suffix [c] s = None"
proof (cases "strip_suffix [c] s")
  case (Some t)
  then have "s = t @ [c]" by (simp add: strip_suffix_Some_iff)
  moreover assume "s = [] \<or> last s \<noteq> c"
  ultimately show ?thesis by simp
qed

subsection \<open>Trimming\<close>

lemma trim_end_Nil [simp]: "trim_end [] = []"
  by (simp add: trim_end_def)

lemma trim_Nil [simp]: "trim [] = []"
  by (simp add: trim_def trim_start_def)

lemma dropWhile_ident: "(xs = [] \<or> \<not> P (hd xs)) \<Longrightarrow> dropWhile P xs = xs"
  by (cases xs) auto

lemma trim_end_ident: "(s = [] \<or> \<not> is_whitespace (last s)) \<Longrightarrow> trim_end s = s"
  by (auto simp: trim_end_def dropWhile_ident hd_rev)

lemma trim_start_ident: "(s = [] \<or> \<not> is_whitespace (hd s)) \<Longrightarrow> trim_start s = s"
  by (simp add: trim_start_def dropWhile_ident)

lemma trim_ident:
  "(s = [] \<or> \<not> is_whitespace (hd s) \<and> \<not> is_whitespace (last s)) \<Longrightarrow> trim s = s"
  by (auto simp: trim_def trim_start_ident trim_end_ident)

lemma trim_end_prefix: "prefix (trim_end s) s"
proof -
  have "suffix (dropWhile is_whitespace (rev s)) (rev s)"
    by (rule suffix_dropWhile)
  then show ?thesis by (simp add: trim_end_def suffix_to_prefix)
qed

lemma trim_end_idem [simp]: "trim_end (trim_end s) = trim_end s"
  by (simp add: trim_end_def)

lemma trim_start_idem [simp]: "trim_start (trim_start s) = trim_start s"
  by (simp add: trim_start_def)

lemma trim_end_hd: "trim_end s \<noteq> [] \<Longrightarrow> hd (trim_end s) = hd s"
proof -
  assume ne: "trim_end s \<noteq> []"
  obtain w where "s = trim_end s @ w"
    using trim_end_prefix [of s] by (auto simp only: prefix_def)
  then have "hd s = hd (trim_end s @ w)" by simp
  with ne show ?thesis by simp
qed

lemma last_trim_end: "trim_end s \<noteq> [] \<Longrightarrow> \<not> is_whitespace (last (trim_end s))"
proof -
  assume "trim_end s \<noteq> []"
  then have "dropWhile is_whitespace (rev s) \<noteq> []" by (simp add: trim_end_def)
  then have "\<not> is_whitespace (hd (dropWhile is_whitespace (rev s)))" by (rule hd_dropWhile)
  then show ?thesis by (simp add: trim_end_def last_rev)
qed

lemma hd_trim_start: "trim_start s \<noteq> [] \<Longrightarrow> \<not> is_whitespace (hd (trim_start s))"
  by (simp add: trim_start_def hd_dropWhile)

lemma trim_ends: "trim s \<noteq> [] \<Longrightarrow> \<not> is_whitespace (hd (trim s)) \<and> \<not> is_whitespace (last (trim s))"
  using last_trim_end [of "trim_start s"] trim_end_hd [of "trim_start s"] hd_trim_start [of s]
  by (cases "trim_start s = []") (auto simp: trim_def)

lemma trim_idem [simp]: "trim (trim s) = trim s"
  using trim_ends [of s] by (cases "trim s = []") (auto simp: trim_ident)

lemma trim_end_eq_Nil_iff: "trim_end s = [] \<longleftrightarrow> (\<forall>c\<in>set s. is_whitespace c)"
  by (auto simp: trim_end_def)

lemma trim_eq_Nil_iff: "trim s = [] \<longleftrightarrow> (\<forall>c\<in>set s. is_whitespace c)"
proof -
  have "(\<forall>c\<in>set (dropWhile is_whitespace s). is_whitespace c) \<longleftrightarrow> (\<forall>c\<in>set s. is_whitespace c)"
    by (induction s) auto
  then show ?thesis by (simp add: trim_def trim_start_def trim_end_eq_Nil_iff)
qed

lemma trim_end_append_ws [simp]:
  "\<forall>c\<in>set w. is_whitespace c \<Longrightarrow> trim_end (s @ w) = trim_end s"
  by (simp add: trim_end_def) (metis dropWhile_append2 set_rev)

lemma trim_end_decomp:
  obtains w where "s = trim_end s @ w" and "\<forall>c\<in>set w. is_whitespace c"
proof
  show "s = trim_end s @ rev (takeWhile is_whitespace (rev s))"
    unfolding trim_end_def rev_append [symmetric] by simp
  show "\<forall>c\<in>set (rev (takeWhile is_whitespace (rev s))). is_whitespace c"
    by (auto dest: set_takeWhileD)
qed

text \<open>The two ends can be trimmed in either order.\<close>

lemma trim_swap: "trim s = trim_start (trim_end s)"
proof -
  obtain w where s: "s = trim_end s @ w" and w: "\<forall>c\<in>set w. is_whitespace c"
    by (rule trim_end_decomp)
  show ?thesis
  proof (cases "trim_end s = []")
    case True
    with s w have "trim_start s = []" by (simp add: trim_start_def)
    with True show ?thesis by (simp only: trim_def) (simp add: trim_start_def)
  next
    case False
    have l: "last (trim_end s) \<in> set (trim_end s)" "\<not> is_whitespace (last (trim_end s))"
      using False by (simp_all add: last_trim_end)
    have "trim_start s = dropWhile is_whitespace (trim_end s @ w)"
      using s by (simp add: trim_start_def)
    also have "\<dots> = dropWhile is_whitespace (trim_end s) @ w"
      using l by (rule dropWhile_append1)
    finally have "trim s = trim_end (trim_start (trim_end s))"
      using w by (simp add: trim_def trim_start_def)
    moreover have "dropWhile is_whitespace (trim_end s) \<noteq> []" using l by auto
    then have "last (trim_start (trim_end s)) = last (trim_end s)"
      unfolding trim_start_def by (metis last_append takeWhile_dropWhile_id)
    ultimately show ?thesis using l by (simp add: trim_end_ident)
  qed
qed

subsection \<open>Splitting and joining\<close>

lemma split_on_ne [simp]: "split_on d s \<noteq> []"
  by (induction s) (auto split: list.splits)

lemma str_join_Cons: "ys \<noteq> [] \<Longrightarrow> str_join sep (x # ys) = x @ sep @ str_join sep ys"
  by (cases ys) auto

lemma str_join_snoc: "str_join sep (xs @ [x]) = (if xs = [] then x else str_join sep xs @ sep @ x)"
  by (induction sep xs rule: str_join.induct) (auto simp: str_join_Cons)

lemma join_split_on [simp]: "str_join [d] (split_on d s) = s"
proof (induction s)
  case Nil
  show ?case by simp
next
  case (Cons c cs)
  obtain p ps where ps: "split_on d cs = p # ps"
    by (cases "split_on d cs") auto
  show ?case
    using Cons ps by (cases ps) auto
qed

lemma split_on_no_sep: "d \<notin> set s \<Longrightarrow> split_on d s = [s]"
  by (induction s) auto

lemma split_on_append_sep: "d \<notin> set x \<Longrightarrow> split_on d (x @ d # s) = x # split_on d s"
  by (induction x) auto

lemma split_on_join:
  "xs \<noteq> [] \<Longrightarrow> \<forall>x\<in>set xs. d \<notin> set x \<Longrightarrow> split_on d (str_join [d] xs) = xs"
  by (induction "[d]" xs rule: str_join.induct) (auto simp: split_on_append_sep split_on_no_sep)

lemma split_on_pieces: "p \<in> set (split_on d s) \<Longrightarrow> d \<notin> set p"
  by (induction s arbitrary: p) (auto split: if_splits list.splits)

lemma concat_split_inclusive [simp]: "concat (split_inclusive d s) = s"
  by (induction s) (auto split: list.splits)

lemma split_inclusive_line:
  "d \<notin> set x \<Longrightarrow> split_inclusive d (x @ d # s) = (x @ [d]) # split_inclusive d s"
  by (induction x) auto

lemma split_inclusive_last: "d \<notin> set x \<Longrightarrow> x \<noteq> [] \<Longrightarrow> split_inclusive d x = [x]"
proof (induction x)
  case (Cons c cs)
  then show ?case by (cases "cs = []") auto
qed simp

text \<open>Lines without a line ending survive being joined and split again.\<close>

definition plain_line :: "rstr \<Rightarrow> bool" where
  "plain_line l \<longleftrightarrow> NL \<notin> set l \<and> (l = [] \<or> last l \<noteq> CR)"

lemma strip_line_ending_nl: "plain_line l \<Longrightarrow> strip_line_ending (l @ [NL]) = l"
  by (auto simp: strip_line_ending_def plain_line_def strip_suffix_single_None split: option.splits)

lemma strip_line_ending_plain: "NL \<notin> set l \<Longrightarrow> strip_line_ending l = l"
proof -
  assume "NL \<notin> set l"
  then have "strip_suffix [NL] l = None"
    by (intro strip_suffix_single_None) (auto dest: last_in_set)
  then show ?thesis by (simp add: strip_line_ending_def)
qed

lemma str_lines_join:
  "\<forall>x\<in>set xs. plain_line x \<Longrightarrow> xs \<noteq> [] \<Longrightarrow> last xs \<noteq> [] \<Longrightarrow>
   str_lines (str_join [NL] xs) = xs"
proof (induction "[NL]" xs rule: str_join.induct)
  case (2 x)
  then show ?case
    by (simp add: str_lines_def split_inclusive_last plain_line_def strip_line_ending_plain)
next
  case (3 x y ys)
  then have IH: "str_lines (str_join [NL] (y # ys)) = y # ys" by simp
  from 3 have "NL \<notin> set x" and "plain_line x" by (auto simp: plain_line_def)
  then show ?case
    using IH by (simp add: str_lines_def split_inclusive_line strip_line_ending_nl)
qed simp

subsection \<open>Searching\<close>

lemma find_str_Some: "find_str n s = Some i \<Longrightarrow> i + length n \<le> length s \<and> prefix n (drop i s)"
proof (induction s arbitrary: i)
  case Nil
  then show ?case by (auto split: if_splits)
next
  case (Cons c cs)
  show ?case
  proof (cases "starts_with (c # cs) n")
    case True
    with Cons.prems show ?thesis
      by (auto simp: starts_with_iff_prefix dest: prefix_length_le)
  next
    case False
    with Cons.prems obtain j where "find_str n cs = Some j" and "i = Suc j"
      by auto
    with Cons.IH [of j] show ?thesis by simp
  qed
qed

lemmas find_str_bound = find_str_Some [THEN conjunct1]
  and find_str_prefix = find_str_Some [THEN conjunct2]

lemma find_str_least: "find_str n s = Some i \<Longrightarrow> j < i \<Longrightarrow> \<not> prefix n (drop j s)"
proof (induction s arbitrary: i j)
  case Nil
  then show ?case by (auto split: if_splits)
next
  case (Cons c cs)
  show ?case
  proof (cases j)
    case 0
    with Cons.prems show ?thesis
      by (auto simp: starts_with_iff_prefix split: if_splits)
  next
    case (Suc k)
    with Cons.prems obtain i' where "find_str n cs = Some i'" and "k < i'"
      by (auto split: if_splits)
    with Cons.IH Suc show ?thesis by simp
  qed
qed

lemma find_str_None: "find_str n s = None \<Longrightarrow> j \<le> length s \<Longrightarrow> \<not> prefix n (drop j s)"
proof (induction s arbitrary: j)
  case Nil
  then show ?case by (auto split: if_splits)
next
  case (Cons c cs)
  then show ?case
    by (cases j) (auto simp: starts_with_iff_prefix split: if_splits)
qed

lemma find_str_eqI:
  assumes "i \<le> length s" and "prefix n (drop i s)" and "\<And>j. j < i \<Longrightarrow> \<not> prefix n (drop j s)"
  shows "find_str n s = Some i"
proof (cases "find_str n s")
  case None
  then show ?thesis using assms(1,2) find_str_None by blast
next
  case (Some k)
  have "\<not> k < i" using assms(3) find_str_Some [OF Some] by blast
  moreover have "\<not> i < k" using assms(2) find_str_least [OF Some] by blast
  ultimately show ?thesis using Some by simp
qed

lemma find_str_None_iff: "find_str n s = None \<longleftrightarrow> (\<forall>j\<le>length s. \<not> prefix n (drop j s))"
  using find_str_None find_str_Some [of n s] by (cases "find_str n s") (auto dest: add_leD1)

lemma find_str_drop_parts: "drop i s = n @ b \<Longrightarrow> s = take i s @ n @ b"
  by (metis append_take_drop_id)

lemma find_str_None_iff_sublist: "find_str n s = None \<longleftrightarrow> \<not> sublist n s"
proof
  assume none: "find_str n s = None"
  show "\<not> sublist n s"
  proof
    assume "sublist n s"
    then obtain a b where "s = a @ n @ b" by (auto simp: sublist_def)
    then have "prefix n (drop (length a) s)" "length a \<le> length s" by auto
    with none show False by (simp add: find_str_None)
  qed
next
  assume "\<not> sublist n s"
  then show "find_str n s = None"
    using find_str_Some [of n s]
    by (cases "find_str n s") (auto simp: sublist_def prefix_def dest: find_str_drop_parts)
qed

lemma contains_str_iff: "contains_str s n \<longleftrightarrow> sublist n s"
  by (auto simp: contains_str_def find_str_None_iff_sublist)

section \<open>Filtering maps\<close>

lemma in_map_filter: "y \<in> set (List.map_filter f xs) \<longleftrightarrow> (\<exists>x\<in>set xs. f x = Some y)"
  by (force simp: map_filter_def)

lemma map_filter_append: "List.map_filter f (xs @ ys) = List.map_filter f xs @ List.map_filter f ys"
  by (simp add: map_filter_def)

lemma map_filter_map: "List.map_filter f (map g xs) = List.map_filter (\<lambda>x. f (g x)) xs"
  by (simp add: map_filter_def filter_map comp_def)

lemma map_sum_eq_Inr: "map_sum f g z = Inr y \<longleftrightarrow> (\<exists>x. z = Inr x \<and> y = g x)"
  by (cases z) auto

lemma map_filter_same: "(\<And>x. x \<in> set xs \<Longrightarrow> f x = g x) \<Longrightarrow> List.map_filter f xs = List.map_filter g xs"
  by (induction xs) (auto simp: map_filter_simps split: option.splits)

end
