(* ===== verification/Seek_Sequence.thy ===== *)
theory Seek_Sequence
  imports Prelude
begin

text \<open>
  \<^verbatim>\<open>codex-rs/apply-patch/src/seek_sequence.rs\<close>: locating a block of lines in a file. Four
  passes of decreasing strictness run over the same range of start positions; the first
  position of the first pass that matches wins. The loops \<^verbatim>\<open>for i in a..=b\<close> are
  \<open>List.find\<close> over the list of positions, and the inner loop over the pattern is
  \<open>list_all2\<close> on the slice of lines it reads.
\<close>

section \<open>Model\<close>

text \<open>The punctuation table of \<^verbatim>\<open>normalise\<close>: typographic dashes, quotes and spaces to ASCII.\<close>

definition normalise_char :: "uchar \<Rightarrow> uchar" where
  "normalise_char c =
     (if c \<in> {0x2010, 0x2011, 0x2012, 0x2013, 0x2014, 0x2015, 0x2212} then 45
      else if c \<in> {0x2018, 0x2019, 0x201A, 0x201B} then 39
      else if c \<in> {0x201C, 0x201D, 0x201E, 0x201F} then 34
      else if c \<in> {0x00A0, 0x2002, 0x2003, 0x2004, 0x2005, 0x2006, 0x2007, 0x2008, 0x2009,
                   0x200A, 0x202F, 0x205F, 0x3000} then 32
      else c)"

definition normalise :: "rstr \<Rightarrow> rstr" where
  "normalise s = map normalise_char (trim s)"

definition slice :: "'a list \<Rightarrow> nat \<Rightarrow> nat \<Rightarrow> 'a list" where
  "slice xs i n = take n (drop i xs)"

definition seek_pass ::
  "(rstr \<Rightarrow> rstr \<Rightarrow> bool) \<Rightarrow> rstr list \<Rightarrow> rstr list \<Rightarrow> nat \<Rightarrow> nat option" where
  "seek_pass eq lines pattern search_start =
     find (\<lambda>i. list_all2 eq (slice lines i (length pattern)) pattern)
       [search_start..<Suc (length lines - length pattern)]"

definition seek_sequence :: "rstr list \<Rightarrow> rstr list \<Rightarrow> nat \<Rightarrow> bool \<Rightarrow> nat option" where
  "seek_sequence lines pattern start eof =
     (if pattern = [] then Some start
      else if length pattern > length lines then None
      else let search_start =
                 (if eof \<and> length lines \<ge> length pattern
                  then length lines - length pattern else start)
           in case seek_pass (=) lines pattern search_start of
                Some i \<Rightarrow> Some i
              | None \<Rightarrow>
           (case seek_pass (\<lambda>l p. trim_end l = trim_end p) lines pattern search_start of
                Some i \<Rightarrow> Some i
              | None \<Rightarrow>
           (case seek_pass (\<lambda>l p. trim l = trim p) lines pattern search_start of
                Some i \<Rightarrow> Some i
              | None \<Rightarrow>
            seek_pass (\<lambda>l p. normalise l = normalise p) lines pattern search_start)))"

section \<open>Specification\<close>

text \<open>
  The four line equivalences as levels, strictest first, and the positions a search may
  return. The specification of the search: the strictest level at which any position
  matches, and the first such position.
\<close>

fun line_eq :: "nat \<Rightarrow> rstr \<Rightarrow> rstr \<Rightarrow> bool" where
  "line_eq 0 l p = (l = p)"
| "line_eq (Suc 0) l p = (trim_end l = trim_end p)"
| "line_eq (Suc (Suc 0)) l p = (trim l = trim p)"
| "line_eq _ l p = (normalise l = normalise p)"

definition block_at :: "nat \<Rightarrow> rstr list \<Rightarrow> rstr list \<Rightarrow> nat \<Rightarrow> bool" where
  "block_at k lines pattern i \<longleftrightarrow> list_all2 (line_eq k) (slice lines i (length pattern)) pattern"

definition search_range :: "rstr list \<Rightarrow> rstr list \<Rightarrow> nat \<Rightarrow> bool \<Rightarrow> nat set" where
  "search_range lines pattern start eof =
     (if eof then {length lines - length pattern}
      else {start..length lines - length pattern})"

section \<open>Lemmas\<close>

lemma find_upt_Some:
  "find P [a..<b] = Some i \<longleftrightarrow> a \<le> i \<and> i < b \<and> P i \<and> (\<forall>j. a \<le> j \<and> j < i \<longrightarrow> \<not> P j)"
proof
  assume "find P [a..<b] = Some i"
  then obtain n where n: "n < b - a" "P (a + n)" "i = a + n"
      and least: "\<forall>m<n. \<not> P (a + m)"
    by (auto simp: find_Some_iff)
  have "\<not> P j" if "a \<le> j" "j < i" for j
    using least [rule_format, of "j - a"] that n by simp
  with n show "a \<le> i \<and> i < b \<and> P i \<and> (\<forall>j. a \<le> j \<and> j < i \<longrightarrow> \<not> P j)" by auto
next
  assume *: "a \<le> i \<and> i < b \<and> P i \<and> (\<forall>j. a \<le> j \<and> j < i \<longrightarrow> \<not> P j)"
  then have "i - a < length [a..<b]" "P ([a..<b] ! (i - a))" "[a..<b] ! (i - a) = i"
    and "\<forall>m<i - a. \<not> P ([a..<b] ! m)" by auto
  then show "find P [a..<b] = Some i" by (metis find_Some_iff)
qed

lemma find_upt_None: "find P [a..<b] = None \<longleftrightarrow> (\<forall>j. a \<le> j \<and> j < b \<longrightarrow> \<not> P j)"
  by (auto simp: find_None_iff)

text \<open>The equivalences are nested: a stricter pass never matches where a looser one fails.\<close>

lemma line_eq_Suc: "line_eq k l p \<Longrightarrow> line_eq (Suc k) l p"
  by (induction k l p rule: line_eq.induct) (auto simp: trim_swap normalise_def)

lemma line_eq_mono: "k \<le> k' \<Longrightarrow> line_eq k l p \<Longrightarrow> line_eq k' l p"
  by (induction rule: dec_induct) (auto intro: line_eq_Suc)

lemma block_at_mono: "k \<le> k' \<Longrightarrow> block_at k lines pattern i \<Longrightarrow> block_at k' lines pattern i"
  unfolding block_at_def by (erule list_all2_mono) (rule line_eq_mono)

lemma block_at_le: "block_at k lines pattern i \<Longrightarrow> pattern \<noteq> [] \<Longrightarrow> i + length pattern \<le> length lines"
  by (cases pattern) (auto simp: block_at_def slice_def min_def split: if_splits dest!: list_all2_lengthD)

lemma block_at_exact: "block_at 0 lines pattern i \<longleftrightarrow> slice lines i (length pattern) = pattern"
proof -
  have "line_eq 0 = (=)" by (simp add: fun_eq_iff)
  then show ?thesis by (simp add: block_at_def list.rel_eq)
qed

lemma seek_pass_block:
  "seek_pass (line_eq k) lines pattern s =
     find (block_at k lines pattern) [s..<Suc (length lines - length pattern)]"
  by (simp add: seek_pass_def block_at_def [abs_def])

lemma option_chain_Some:
  fixes F :: "nat \<Rightarrow> 'a option"
  shows "(case F 0 of Some i \<Rightarrow> Some i | None \<Rightarrow>
          (case F 1 of Some i \<Rightarrow> Some i | None \<Rightarrow>
          (case F 2 of Some i \<Rightarrow> Some i | None \<Rightarrow> F 3))) = Some i \<longleftrightarrow>
         (\<exists>k\<le>3. F k = Some i \<and> (\<forall>k'<k. F k' = None))"
proof -
  have le: "(\<exists>k\<le>3. P k) \<longleftrightarrow> P 0 \<or> P 1 \<or> P 2 \<or> P (3::nat)" for P
    by (auto simp: le_Suc_eq numeral_3_eq_3 numeral_2_eq_2)
  have lt: "(\<forall>k'<1. P k') \<longleftrightarrow> P 0" "(\<forall>k'<2. P k') \<longleftrightarrow> P 0 \<and> P 1"
    "(\<forall>k'<3. P k') \<longleftrightarrow> P 0 \<and> P 1 \<and> P (2::nat)" for P
    by (auto simp: less_Suc_eq numeral_3_eq_3 numeral_2_eq_2)
  show ?thesis
    unfolding le lt by (cases "F 0"; cases "F 1"; cases "F 2") simp_all
qed

text \<open>The search, written over the levels and the range.\<close>

definition find_level :: "rstr list \<Rightarrow> rstr list \<Rightarrow> nat \<Rightarrow> bool \<Rightarrow> nat \<Rightarrow> nat option" where
  "find_level lines pattern start eof k =
     find (block_at k lines pattern)
       [(if eof then length lines - length pattern else start)..<
        Suc (length lines - length pattern)]"

lemma seek_sequence_levels:
  assumes "pattern \<noteq> []" and "length pattern \<le> length lines"
  shows "seek_sequence lines pattern start eof =
    (case find_level lines pattern start eof 0 of Some i \<Rightarrow> Some i | None \<Rightarrow>
    (case find_level lines pattern start eof 1 of Some i \<Rightarrow> Some i | None \<Rightarrow>
    (case find_level lines pattern start eof 2 of Some i \<Rightarrow> Some i | None \<Rightarrow>
     find_level lines pattern start eof 3)))"
proof -
  have "(=) = line_eq 0" "(\<lambda>l p. trim_end l = trim_end p) = line_eq 1"
    "(\<lambda>l p. trim l = trim p) = line_eq 2" "(\<lambda>l p. normalise l = normalise p) = line_eq 3"
    by (auto simp: fun_eq_iff eval_nat_numeral)
  then have "seek_pass (=) lines pattern s = seek_pass (line_eq 0) lines pattern s"
    "seek_pass (\<lambda>l p. trim_end l = trim_end p) lines pattern s = seek_pass (line_eq 1) lines pattern s"
    "seek_pass (\<lambda>l p. trim l = trim p) lines pattern s = seek_pass (line_eq 2) lines pattern s"
    "seek_pass (\<lambda>l p. normalise l = normalise p) lines pattern s = seek_pass (line_eq 3) lines pattern s"
    for s by metis+
  then show ?thesis
    using assms by (simp only: seek_sequence_def seek_pass_block Let_def find_level_def if_False
        not_less simp_thms cong: if_cong) (simp only: leD if_False)
qed

lemma search_range_iff:
  "i \<in> search_range lines pattern start eof \<longleftrightarrow>
     (if eof then length lines - length pattern else start) \<le> i \<and>
     i < Suc (length lines - length pattern)"
  by (auto simp: search_range_def)

lemma find_level_Some:
  "find_level lines pattern start eof k = Some i \<longleftrightarrow>
   i \<in> search_range lines pattern start eof \<and> block_at k lines pattern i \<and>
   (\<forall>j\<in>search_range lines pattern start eof. j < i \<longrightarrow> \<not> block_at k lines pattern j)"
  unfolding find_level_def find_upt_Some Ball_def search_range_iff by auto

lemma find_level_None:
  "find_level lines pattern start eof k = None \<longleftrightarrow>
   (\<forall>j\<in>search_range lines pattern start eof. \<not> block_at k lines pattern j)"
  unfolding find_level_def find_upt_None Ball_def search_range_iff by auto

lemma seek_sequence_Some_iff:
  assumes "pattern \<noteq> []"
  shows "seek_sequence lines pattern start eof = Some i \<longleftrightarrow>
    length pattern \<le> length lines \<and>
    (\<exists>k\<le>3. find_level lines pattern start eof k = Some i \<and>
            (\<forall>k'<k. find_level lines pattern start eof k' = None))"
proof (cases "length pattern \<le> length lines")
  case True
  then show ?thesis
    unfolding seek_sequence_levels [OF assms True] option_chain_Some by simp
next
  case False
  with assms show ?thesis by (simp add: seek_sequence_def)
qed

lemma seek_sequence_block:
  assumes "seek_sequence lines pattern start eof = Some i" and "pattern \<noteq> []"
  shows "i \<in> search_range lines pattern start eof" and "block_at 3 lines pattern i"
    and "i + length pattern \<le> length lines"
proof -
  from assms obtain k where "k \<le> 3" and k: "find_level lines pattern start eof k = Some i"
    by (auto simp: seek_sequence_Some_iff)
  then have b: "block_at k lines pattern i" by (simp add: find_level_Some)
  show "i \<in> search_range lines pattern start eof" using k by (simp add: find_level_Some)
  show "block_at 3 lines pattern i" using \<open>k \<le> 3\<close> b by (rule block_at_mono)
  show "i + length pattern \<le> length lines" using b assms(2) by (rule block_at_le)
qed

lemma seek_sequence_None_iff:
  assumes "pattern \<noteq> []"
  shows "seek_sequence lines pattern start eof = None \<longleftrightarrow>
    length lines < length pattern \<or>
    (\<forall>j\<in>search_range lines pattern start eof. \<not> block_at 3 lines pattern j)"
proof (cases "length pattern \<le> length lines")
  case True
  have "find_level lines pattern start eof 3 = None \<Longrightarrow> k \<le> 3 \<Longrightarrow>
        find_level lines pattern start eof k = None" for k
    using block_at_mono [of k 3] by (auto simp: find_level_None)
  from this [of 0] this [of 1] this [of 2] show ?thesis
    unfolding seek_sequence_levels [OF assms True] find_level_None [symmetric]
    using True by (cases "find_level lines pattern start eof 3") (auto split: option.splits)
next
  case False
  with assms show ?thesis by (simp add: seek_sequence_def)
qed

section \<open>Properties\<close>

text \<open>
  C35 (functional): a search from \<open>start\<close> that is not bound to the end of the file (\<open>eof\<close> is false) returns a position
  for a non-empty pattern exactly when the position is the leftmost one, from \<open>start\<close> on and with room for the whole pattern, at
  the strictest of the four comparison levels at which any such position matches. The position is \<open>i\<close>, the level \<open>k\<close>.
\<close>

theorem seek_sequence_strictest_leftmost:
  assumes "pattern \<noteq> []"
  shows "seek_sequence lines pattern start False = Some i \<longleftrightarrow>
    (\<exists>k\<le>3. start \<le> i \<and> i + length pattern \<le> length lines \<and> block_at k lines pattern i \<and>
      (\<forall>j. start \<le> j \<and> j < i \<longrightarrow> \<not> block_at k lines pattern j) \<and>
      (\<forall>k'<k. \<forall>j\<ge>start. \<not> block_at k' lines pattern j))"
proof -
  have range: "length pattern \<le> length lines \<Longrightarrow>
      j \<in> search_range lines pattern start False \<longleftrightarrow> start \<le> j \<and> j + length pattern \<le> length lines" for j
    by (auto simp: search_range_def)
  have room: "j + length pattern \<le> length lines" if "block_at k lines pattern j" for k j using that assms by (rule block_at_le)
  show ?thesis
  proof (cases "length pattern \<le> length lines")
    case True
    then show ?thesis
      unfolding seek_sequence_Some_iff [OF assms] find_level_Some find_level_None Ball_def range [OF True]
      using room by (meson less_imp_le_nat)
  next
    case False
    then show ?thesis unfolding seek_sequence_Some_iff [OF assms] by (meson add_leD2)
  qed
qed

theorem seek_sequence_strictest_leftmost_witness:
  "seek_sequence [lit ''a '', lit ''b'', lit ''a''] [lit ''a''] 0 False = Some 2 \<and>
   (\<exists>k\<le>3. block_at k [lit ''a '', lit ''b'', lit ''a''] [lit ''a''] 2)"
proof -
  have "seek_sequence [lit ''a '', lit ''b'', lit ''a''] [lit ''a''] 0 False = Some 2"
    by code_simp
  moreover from this have "\<exists>k\<le>3. block_at k [lit ''a '', lit ''b'', lit ''a''] [lit ''a''] 2"
    unfolding seek_sequence_strictest_leftmost [OF list.simps(3)] by blast
  ultimately show ?thesis ..
qed

text \<open>
  With \<open>eof\<close> the block is looked for at the very end of the file and nowhere
  else: the start position plays no part, and there is no second search from it, although the comment of
  \<^verbatim>\<open>seek_sequence\<close> says that the search falls back to \<open>start\<close>.
\<close>

theorem seek_sequence_eof_only_at_end:
  assumes "pattern \<noteq> []" and "length pattern \<le> length lines"
  shows "seek_sequence lines pattern start True =
    (if block_at 3 lines pattern (length lines - length pattern)
     then Some (length lines - length pattern) else None)"
proof (cases "seek_sequence lines pattern start True")
  case None
  then have "\<not> block_at 3 lines pattern (length lines - length pattern)"
    using assms(2) seek_sequence_None_iff [OF assms(1)] by (auto simp: search_range_def)
  with None show ?thesis by simp
next
  case (Some i)
  then show ?thesis
    using seek_sequence_block [OF Some assms(1)] by (auto simp: search_range_def)
qed

theorem seek_sequence_eof_only_at_end_witness:
  "seek_sequence [lit ''a'', lit ''b''] [lit ''a''] 0 True = None \<and>
   seek_sequence [lit ''a'', lit ''b''] [lit ''a''] 0 False = Some 0"
proof
  have "\<not> block_at 3 [lit ''a'', lit ''b''] [lit ''a''] 1"
    by (simp add: block_at_def slice_def normalise_def normalise_char_def trim_ident
        is_whitespace_def numeral_3_eq_3)
  then show "seek_sequence [lit ''a'', lit ''b''] [lit ''a''] 0 True = None"
    using seek_sequence_eof_only_at_end [of "[lit ''a'']" "[lit ''a'', lit ''b'']" 0] by simp
  show "seek_sequence [lit ''a'', lit ''b''] [lit ''a''] 0 False = Some 0" by code_simp
qed

end
