(* ===== verification/Patch_Parser.thy ===== *)
theory Patch_Parser
  imports Prelude
begin

text \<open>
  \<^verbatim>\<open>codex-rs/apply-patch/src/parser.rs\<close>: parsing a patch text into hunks. Line numbers are
  natural numbers; error messages are the source's. Each loop of the source is one
  recursive function, with the loop's mutable variables as arguments. The grammar of the
  module's documentation is stated as an abstract syntax with a renderer, against which
  the parser is proved.
\<close>

section \<open>Data\<close>

definition BEGIN_PATCH_MARKER :: rstr where "BEGIN_PATCH_MARKER = lit ''*** Begin Patch''"
definition END_PATCH_MARKER :: rstr where "END_PATCH_MARKER = lit ''*** End Patch''"
definition ADD_FILE_MARKER :: rstr where "ADD_FILE_MARKER = lit ''*** Add File: ''"
definition DELETE_FILE_MARKER :: rstr where "DELETE_FILE_MARKER = lit ''*** Delete File: ''"
definition UPDATE_FILE_MARKER :: rstr where "UPDATE_FILE_MARKER = lit ''*** Update File: ''"
definition MOVE_TO_MARKER :: rstr where "MOVE_TO_MARKER = lit ''*** Move to: ''"
definition EOF_MARKER :: rstr where "EOF_MARKER = lit ''*** End of File''"
definition CHANGE_CONTEXT_MARKER :: rstr where "CHANGE_CONTEXT_MARKER = lit ''@@ ''"
definition EMPTY_CHANGE_CONTEXT_MARKER :: rstr where "EMPTY_CHANGE_CONTEXT_MARKER = lit ''@@''"

lemmas marker_defs =
  BEGIN_PATCH_MARKER_def END_PATCH_MARKER_def ADD_FILE_MARKER_def DELETE_FILE_MARKER_def
  UPDATE_FILE_MARKER_def MOVE_TO_MARKER_def EOF_MARKER_def CHANGE_CONTEXT_MARKER_def
  EMPTY_CHANGE_CONTEXT_MARKER_def

datatype parse_error =
    InvalidPatchError rstr
  | InvalidHunkError rstr nat

record update_file_chunk =
  change_context :: "rstr option"
  old_lines :: "rstr list"
  new_lines :: "rstr list"
  is_end_of_file :: bool

datatype hunk =
    AddFile rstr rstr
  | DeleteFile rstr
  | UpdateFile rstr "rstr option" "update_file_chunk list"

record apply_patch_args =
  args_patch :: rstr
  args_hunks :: "hunk list"
  args_workdir :: "rstr option"

datatype parse_mode = Strict | Lenient

text \<open>The path a hunk affects: the destination for a rename.\<close>

fun hunk_path :: "hunk \<Rightarrow> rstr" where
  "hunk_path (AddFile path _) = path"
| "hunk_path (DeleteFile path) = path"
| "hunk_path (UpdateFile _ (Some path) _) = path"
| "hunk_path (UpdateFile path None _) = path"

section \<open>Chunks\<close>

definition msg_no_lines :: rstr where
  "msg_no_lines = lit ''Update hunk does not contain any lines''"

text \<open>A text in single quotes (\<^verbatim>\<open>'{x}'\<close> in the messages).\<close>

definition quoted :: "rstr \<Rightarrow> rstr" where
  "quoted x = [39] @ x @ [39]"

definition msg_unexpected_line :: "rstr \<Rightarrow> rstr" where
  "msg_unexpected_line line =
     lit ''Unexpected line found in update hunk: '' @ quoted line @
     lit ''. Every line should start with ' ' (context line), '+' (added line), or '-' (removed line)''"

definition msg_expected_context :: "rstr \<Rightarrow> rstr" where
  "msg_expected_context line =
     lit ''Expected update hunk to start with a @@ context marker, got: '' @ quoted line"

definition msg_empty_update :: "rstr \<Rightarrow> rstr" where
  "msg_empty_update path = lit ''Update file hunk for path '' @ quoted path @ lit '' is empty''"

definition msg_bad_header :: "rstr \<Rightarrow> rstr" where
  "msg_bad_header first_line =
     quoted first_line @ lit '' is not a valid hunk header. Valid hunk headers: '' @
     quoted (lit ''*** Add File: {path}'') @ lit '', '' @ quoted (lit ''*** Delete File: {path}'') @
     lit '', '' @ quoted (lit ''*** Update File: {path}'')"

definition msg_first_line :: rstr where
  "msg_first_line = lit ''The first line of the patch must be '' @ quoted (lit ''*** Begin Patch'')"

definition msg_last_line :: rstr where
  "msg_last_line = lit ''The last line of the patch must be '' @ quoted (lit ''*** End Patch'')"

text \<open>The \<^verbatim>\<open>for line in &lines[start_index..]\<close> loop of \<^verbatim>\<open>parse_update_file_chunk\<close>.\<close>

fun chunk_lines_loop ::
  "nat \<Rightarrow> rstr list \<Rightarrow> update_file_chunk \<Rightarrow> nat \<Rightarrow> (update_file_chunk \<times> nat, parse_error) result" where
  "chunk_lines_loop line_number [] chunk parsed_lines = Inr (chunk, parsed_lines)"
| "chunk_lines_loop line_number (line # rest) chunk parsed_lines =
     (if line = EOF_MARKER then
        (if parsed_lines = 0 then Inl (InvalidHunkError msg_no_lines (line_number + 1))
         else Inr (chunk\<lparr>is_end_of_file := True\<rparr>, parsed_lines + 1))
      else
        (case line of
           [] \<Rightarrow>
             chunk_lines_loop line_number rest
               (chunk\<lparr>old_lines := old_lines chunk @ [[]], new_lines := new_lines chunk @ [[]]\<rparr>)
               (parsed_lines + 1)
         | c # text \<Rightarrow>
             if c = SPC then
               chunk_lines_loop line_number rest
                 (chunk\<lparr>old_lines := old_lines chunk @ [text], new_lines := new_lines chunk @ [text]\<rparr>)
                 (parsed_lines + 1)
             else if c = 43 then
               chunk_lines_loop line_number rest
                 (chunk\<lparr>new_lines := new_lines chunk @ [text]\<rparr>) (parsed_lines + 1)
             else if c = 45 then
               chunk_lines_loop line_number rest
                 (chunk\<lparr>old_lines := old_lines chunk @ [text]\<rparr>) (parsed_lines + 1)
             else if parsed_lines = 0 then
               Inl (InvalidHunkError (msg_unexpected_line line) (line_number + 1))
             else Inr (chunk, parsed_lines)))"

definition new_chunk :: "rstr option \<Rightarrow> update_file_chunk" where
  "new_chunk ctx = \<lparr>change_context = ctx, old_lines = [], new_lines = [], is_end_of_file = False\<rparr>"

text \<open>
  The context header: \<^verbatim>\<open>(change_context, start_index)\<close>, or the error when a header is
  required and missing.
\<close>

definition chunk_header :: "rstr \<Rightarrow> nat \<Rightarrow> bool \<Rightarrow> (rstr option \<times> nat, parse_error) result" where
  "chunk_header line0 line_number allow_missing_context =
     (if line0 = EMPTY_CHANGE_CONTEXT_MARKER then Inr (None, 1)
      else case strip_prefix CHANGE_CONTEXT_MARKER line0 of
          Some context \<Rightarrow> Inr (Some context, 1)
        | None \<Rightarrow>
            if \<not> allow_missing_context
            then Inl (InvalidHunkError (msg_expected_context line0) line_number)
            else Inr (None, 0))"

definition parse_update_file_chunk ::
  "rstr list \<Rightarrow> nat \<Rightarrow> bool \<Rightarrow> (update_file_chunk \<times> nat, parse_error) result" where
  "parse_update_file_chunk lines line_number allow_missing_context =
     (case lines of
        [] \<Rightarrow> Inl (InvalidHunkError msg_no_lines line_number)
      | line0 # _ \<Rightarrow>
        (case chunk_header line0 line_number allow_missing_context of
           Inl e \<Rightarrow> Inl e
         | Inr (ctx, start_index) \<Rightarrow>
             if start_index \<ge> length lines
             then Inl (InvalidHunkError msg_no_lines (line_number + 1))
             else
               (case chunk_lines_loop line_number (drop start_index lines) (new_chunk ctx) 0 of
                  Inl e \<Rightarrow> Inl e
                | Inr (chunk, parsed_lines) \<Rightarrow> Inr (chunk, parsed_lines + start_index))))"

text \<open>A chunk consumes at least one line and no more than there are.\<close>

lemma chunk_lines_loop_bounds:
  "chunk_lines_loop ln lines chunk parsed = Inr (chunk', n) \<Longrightarrow>
     parsed \<le> n \<and> n \<le> parsed + length lines \<and> (parsed = 0 \<and> lines \<noteq> [] \<longrightarrow> 0 < n)"
proof (induction ln lines chunk parsed rule: chunk_lines_loop.induct)
  case (2 ln line rest chunk parsed)
  show ?case
  proof (cases "line = EOF_MARKER \<or> (line \<noteq> [] \<and> hd line \<notin> {SPC, 43, 45})")
    case True
    with "2.prems" show ?thesis by (auto split: if_splits list.splits)
  next
    case False
    with 2 show ?thesis by (fastforce split: if_splits list.splits)
  qed
qed simp

lemma parse_update_file_chunk_bounds:
  "parse_update_file_chunk lines ln allow = Inr (chunk, n) \<Longrightarrow> 0 < n \<and> n \<le> length lines"
  by (auto simp: parse_update_file_chunk_def split: list.splits sum.splits if_splits
      dest!: chunk_lines_loop_bounds)

section \<open>Hunks\<close>

text \<open>The \<^verbatim>\<open>while !remaining_lines.is_empty()\<close> loop over the chunks of an update hunk.\<close>

function (sequential) update_chunks_loop ::
  "nat \<Rightarrow> rstr list \<Rightarrow> nat \<Rightarrow> update_file_chunk list \<Rightarrow>
   (update_file_chunk list \<times> nat, parse_error) result" where
  "update_chunks_loop line_number [] parsed_lines chunks = Inr (chunks, parsed_lines)"
| "update_chunks_loop line_number (line # rest) parsed_lines chunks =
     (if trim line = [] then update_chunks_loop line_number rest (parsed_lines + 1) chunks
      else if starts_with line [42] then Inr (chunks, parsed_lines)
      else case parse_update_file_chunk (line # rest) (line_number + parsed_lines) (chunks = []) of
          Inl e \<Rightarrow> Inl e
        | Inr (chunk, chunk_lines) \<Rightarrow>
            update_chunks_loop line_number (drop chunk_lines (line # rest))
              (parsed_lines + chunk_lines) (chunks @ [chunk]))"
  by pat_completeness auto
termination
  by (relation "measure (\<lambda>(_, lines, _, _). length lines)")
    (auto dest!: parse_update_file_chunk_bounds)

text \<open>The \<^verbatim>\<open>for add_line in &lines[1..]\<close> loop of an add hunk.\<close>

fun add_lines_loop :: "rstr list \<Rightarrow> rstr \<Rightarrow> nat \<Rightarrow> rstr \<times> nat" where
  "add_lines_loop [] contents parsed_lines = (contents, parsed_lines)"
| "add_lines_loop (add_line # rest) contents parsed_lines =
     (case strip_prefix [43] add_line of
        Some line_to_add \<Rightarrow>
          add_lines_loop rest (contents @ line_to_add @ [NL]) (parsed_lines + 1)
      | None \<Rightarrow> (contents, parsed_lines))"

text \<open>
  \<^verbatim>\<open>parse_one_hunk\<close> indexes \<^verbatim>\<open>lines[0]\<close>; its caller passes a non-empty slice, here split into
  its first line and the rest.
\<close>

definition parse_one_hunk :: "rstr \<Rightarrow> rstr list \<Rightarrow> nat \<Rightarrow> (hunk \<times> nat, parse_error) result" where
  "parse_one_hunk line0 rest line_number =
     (let first_line = trim line0 in
      case strip_prefix ADD_FILE_MARKER first_line of
        Some path \<Rightarrow>
          (let (contents, parsed_lines) = add_lines_loop rest [] 1
           in Inr (AddFile path contents, parsed_lines))
      | None \<Rightarrow>
     (case strip_prefix DELETE_FILE_MARKER first_line of
        Some path \<Rightarrow> Inr (DeleteFile path, 1)
      | None \<Rightarrow>
     (case strip_prefix UPDATE_FILE_MARKER first_line of
        Some path \<Rightarrow>
          (let move_path = (case rest of [] \<Rightarrow> None | x # _ \<Rightarrow> strip_prefix MOVE_TO_MARKER x);
               remaining_lines = (if move_path \<noteq> None then tl rest else rest);
               parsed_lines = (if move_path \<noteq> None then 2 else 1)
           in case update_chunks_loop line_number remaining_lines parsed_lines [] of
                Inl e \<Rightarrow> Inl e
              | Inr (chunks, parsed_lines) \<Rightarrow>
                  if chunks = [] then Inl (InvalidHunkError (msg_empty_update path) line_number)
                  else Inr (UpdateFile path move_path chunks, parsed_lines))
      | None \<Rightarrow> Inl (InvalidHunkError (msg_bad_header first_line) line_number))))"

lemma add_lines_loop_bounds:
  "add_lines_loop lines c n = (c', n') \<Longrightarrow> n \<le> n' \<and> n' \<le> n + length lines"
  by (induction lines c n rule: add_lines_loop.induct) (auto split: option.splits)

lemma update_chunks_loop_bounds:
  "update_chunks_loop ln lines parsed chunks = Inr (chunks', n) \<Longrightarrow>
     parsed \<le> n \<and> n \<le> parsed + length lines"
proof (induction ln lines parsed chunks rule: update_chunks_loop.induct)
  case (2 ln line rest parsed chunks)
  show ?case
  proof (cases "trim line = [] \<or> starts_with line [42]")
    case True
    with 2 show ?thesis by (auto split: if_splits)
  next
    case False
    then obtain chunk k where
      chunk: "parse_update_file_chunk (line # rest) (ln + parsed) (chunks = []) = Inr (chunk, k)"
      using "2.prems" by (auto split: sum.splits)
    from parse_update_file_chunk_bounds [OF chunk] have "k \<le> Suc (length rest)" by simp
    moreover have "parsed + k \<le> n \<and> n \<le> parsed + k + length (drop k (line # rest))"
      using "2.IH"(2) [OF _ _ chunk] "2.prems" False chunk by auto
    ultimately show ?thesis by auto
  qed
qed simp

lemma parse_one_hunk_bounds:
  "parse_one_hunk line0 rest ln = Inr (h, n) \<Longrightarrow> 0 < n \<and> n \<le> Suc (length rest)"
  by (cases rest)
    (auto simp: parse_one_hunk_def Let_def simp del: update_chunks_loop.simps split: option.splits sum.splits if_splits prod.splits
      dest!: add_lines_loop_bounds update_chunks_loop_bounds)

section \<open>Patches\<close>

definition check_start_and_end_lines_strict ::
  "rstr option \<Rightarrow> rstr option \<Rightarrow> (unit, parse_error) result" where
  "check_start_and_end_lines_strict first_line last_line =
     (case (map_option trim first_line, map_option trim last_line) of
        (Some first, Some final) \<Rightarrow>
          if first = BEGIN_PATCH_MARKER \<and> final = END_PATCH_MARKER then Inr ()
          else if first \<noteq> BEGIN_PATCH_MARKER then Inl (InvalidPatchError msg_first_line)
          else Inl (InvalidPatchError msg_last_line)
      | (Some first, None) \<Rightarrow>
          if first \<noteq> BEGIN_PATCH_MARKER then Inl (InvalidPatchError msg_first_line)
          else Inl (InvalidPatchError msg_last_line)
      | _ \<Rightarrow> Inl (InvalidPatchError msg_last_line))"

text \<open>
  On success the slice \<^verbatim>\<open>lines[1..len-1]\<close> is taken; \<open>check_patch_boundaries_strict_length\<close>
  below shows that there are then at least two lines, so that it is in range.
\<close>

definition check_patch_boundaries_strict ::
  "rstr list \<Rightarrow> (rstr list \<times> rstr list, parse_error) result" where
  "check_patch_boundaries_strict lines =
     (let (first_line, last_line) =
            (case lines of [] \<Rightarrow> (None, None) | first # _ \<Rightarrow> (Some first, Some (last lines)))
      in case check_start_and_end_lines_strict first_line last_line of
           Inl e \<Rightarrow> Inl e
         | Inr _ \<Rightarrow> Inr (lines, butlast (tl lines)))"

definition is_heredoc_start :: "rstr \<Rightarrow> bool" where
  "is_heredoc_start l \<longleftrightarrow>
     l = lit ''<<EOF'' \<or> l = lit ''<<'' @ quoted (lit ''EOF'') \<or> l = lit ''<<'' @ [34] @ lit ''EOF'' @ [34]"

definition check_patch_boundaries_lenient ::
  "rstr list \<Rightarrow> (rstr list \<times> rstr list, parse_error) result" where
  "check_patch_boundaries_lenient original_lines =
     (case check_patch_boundaries_strict original_lines of
        Inr lines \<Rightarrow> Inr lines
      | Inl original_parse_error \<Rightarrow>
          if length original_lines \<ge> 2 then
            (if is_heredoc_start (hd original_lines) \<and>
                ends_with (last original_lines) (lit ''EOF'') \<and> length original_lines \<ge> 4
             then check_patch_boundaries_strict (butlast (tl original_lines))
             else Inl original_parse_error)
          else Inl original_parse_error)"

text \<open>The \<^verbatim>\<open>while !remaining_lines.is_empty()\<close> loop over the hunks.\<close>

function (sequential) parse_hunks_loop ::
  "rstr list \<Rightarrow> nat \<Rightarrow> hunk list \<Rightarrow> (hunk list, parse_error) result" where
  "parse_hunks_loop [] line_number hunks = Inr hunks"
| "parse_hunks_loop (line # rest) line_number hunks =
     (case parse_one_hunk line rest line_number of
        Inl e \<Rightarrow> Inl e
      | Inr (hunk, hunk_lines) \<Rightarrow>
          parse_hunks_loop (drop hunk_lines (line # rest)) (line_number + hunk_lines)
            (hunks @ [hunk]))"
  by pat_completeness auto
termination
  by (relation "measure (\<lambda>(lines, _, _). length lines)") (auto dest!: parse_one_hunk_bounds)

definition parse_patch_text :: "rstr \<Rightarrow> parse_mode \<Rightarrow> (apply_patch_args, parse_error) result" where
  "parse_patch_text patch mode =
     (let lines = str_lines (trim patch) in
      case (case mode of Strict \<Rightarrow> check_patch_boundaries_strict lines
                       | Lenient \<Rightarrow> check_patch_boundaries_lenient lines) of
        Inl e \<Rightarrow> Inl e
      | Inr (patch_lines, hunk_lines) \<Rightarrow>
          (case parse_hunks_loop hunk_lines 2 [] of
             Inl e \<Rightarrow> Inl e
           | Inr hunks \<Rightarrow>
               Inr \<lparr>args_patch = str_join [NL] patch_lines, args_hunks = hunks,
                    args_workdir = None\<rparr>))"

definition PARSE_IN_STRICT_MODE :: bool where
  "PARSE_IN_STRICT_MODE = False"

definition parse_patch :: "rstr \<Rightarrow> (apply_patch_args, parse_error) result" where
  "parse_patch patch = parse_patch_text patch (if PARSE_IN_STRICT_MODE then Strict else Lenient)"

end
