(* ===== verification/Patch_Grammar.thy ===== *)
theory Patch_Grammar
  imports Patch_Parser
begin

text \<open>
  The grammar that the documentation of \<^verbatim>\<open>parser.rs\<close> gives for patches, as an abstract
  syntax with a renderer (\<open>patch_text\<close>) and a meaning (\<open>hunk_of\<close>), and the proof that the
  parser maps every rendered patch to its meaning. The abstract syntax keeps what a
  \<^verbatim>\<open>Hunk\<close> forgets: the order of context, added and removed lines, and whether a chunk
  starts with \<^verbatim>\<open>@@\<close>.
\<close>

section \<open>Abstract syntax\<close>

datatype change_line = Context rstr | Added rstr | Removed rstr

datatype chunk_start = NoHeader | EmptyHeader | Header rstr

record patch_chunk =
  pc_start :: chunk_start
  pc_lines :: "change_line list"
  pc_eof :: bool

datatype patch_hunk =
    PAdd rstr "rstr list"
  | PDelete rstr
  | PUpdate rstr "rstr option" "patch_chunk list"

section \<open>Rendering\<close>

fun change_text :: "change_line \<Rightarrow> rstr" where
  "change_text (Context t) = SPC # t"
| "change_text (Added t) = 43 # t"
| "change_text (Removed t) = 45 # t"

fun start_text :: "chunk_start \<Rightarrow> rstr list" where
  "start_text NoHeader = []"
| "start_text EmptyHeader = [EMPTY_CHANGE_CONTEXT_MARKER]"
| "start_text (Header c) = [CHANGE_CONTEXT_MARKER @ c]"

definition chunk_text :: "patch_chunk \<Rightarrow> rstr list" where
  "chunk_text c = start_text (pc_start c) @ map change_text (pc_lines c) @
     (if pc_eof c then [EOF_MARKER] else [])"

fun hunk_text :: "patch_hunk \<Rightarrow> rstr list" where
  "hunk_text (PAdd path ls) = (ADD_FILE_MARKER @ path) # map (\<lambda>l. 43 # l) ls"
| "hunk_text (PDelete path) = [DELETE_FILE_MARKER @ path]"
| "hunk_text (PUpdate path mv cs) =
     (UPDATE_FILE_MARKER @ path) #
     (case mv of None \<Rightarrow> [] | Some p \<Rightarrow> [MOVE_TO_MARKER @ p]) @ concat (map chunk_text cs)"

definition patch_lines :: "patch_hunk list \<Rightarrow> rstr list" where
  "patch_lines hs = BEGIN_PATCH_MARKER # concat (map hunk_text hs) @ [END_PATCH_MARKER]"

definition patch_text :: "patch_hunk list \<Rightarrow> rstr" where
  "patch_text hs = str_join [NL] (patch_lines hs)"

section \<open>Meaning\<close>

fun old_of :: "change_line \<Rightarrow> rstr list" where
  "old_of (Context t) = [t]" | "old_of (Added t) = []" | "old_of (Removed t) = [t]"

fun new_of :: "change_line \<Rightarrow> rstr list" where
  "new_of (Context t) = [t]" | "new_of (Added t) = [t]" | "new_of (Removed t) = []"

fun start_context :: "chunk_start \<Rightarrow> rstr option" where
  "start_context (Header c) = Some c"
| "start_context _ = None"

definition chunk_of :: "patch_chunk \<Rightarrow> update_file_chunk" where
  "chunk_of c =
     \<lparr>change_context = start_context (pc_start c),
      old_lines = concat (map old_of (pc_lines c)),
      new_lines = concat (map new_of (pc_lines c)),
      is_end_of_file = pc_eof c\<rparr>"

fun hunk_of :: "patch_hunk \<Rightarrow> hunk" where
  "hunk_of (PAdd path ls) = AddFile path (concat (map (\<lambda>l. l @ [NL]) ls))"
| "hunk_of (PDelete path) = DeleteFile path"
| "hunk_of (PUpdate path mv cs) = UpdateFile path mv (map chunk_of cs)"

section \<open>Well-formed patches\<close>

text \<open>
  What the format can express: lines without line breaks, header paths that are not empty
  and do not end in white space (headers are trimmed), at least one line in every chunk
  and one chunk in every update, \<^verbatim>\<open>@@\<close> before every chunk but the first, and a first
  chunk without \<^verbatim>\<open>@@\<close> that does not start with a blank context line (which the parser
  would skip).
\<close>

fun line_body :: "change_line \<Rightarrow> rstr" where
  "line_body (Context t) = t" | "line_body (Added t) = t" | "line_body (Removed t) = t"

definition wf_path :: "rstr \<Rightarrow> bool" where
  "wf_path p \<longleftrightarrow> p \<noteq> [] \<and> \<not> is_whitespace (last p) \<and> NL \<notin> set p"

definition wf_chunk :: "patch_chunk \<Rightarrow> bool" where
  "wf_chunk c \<longleftrightarrow> pc_lines c \<noteq> [] \<and> (\<forall>l\<in>set (pc_lines c). plain_line (line_body l)) \<and>
     (case pc_start c of
        NoHeader \<Rightarrow> trim (change_text (hd (pc_lines c))) \<noteq> []
      | EmptyHeader \<Rightarrow> True | Header ctx \<Rightarrow> plain_line ctx)"

fun wf_chunks :: "patch_chunk list \<Rightarrow> bool" where
  "wf_chunks [] = False"
| "wf_chunks (c # cs) \<longleftrightarrow> wf_chunk c \<and> (\<forall>d\<in>set cs. wf_chunk d \<and> pc_start d \<noteq> NoHeader)"

fun wf_hunk :: "patch_hunk \<Rightarrow> bool" where
  "wf_hunk (PAdd path ls) \<longleftrightarrow> wf_path path \<and> (\<forall>l\<in>set ls. plain_line l)"
| "wf_hunk (PDelete path) \<longleftrightarrow> wf_path path"
| "wf_hunk (PUpdate path mv cs) \<longleftrightarrow>
     wf_path path \<and> (case mv of None \<Rightarrow> True | Some p \<Rightarrow> plain_line p) \<and> wf_chunks cs"

section \<open>The parser on rendered patches\<close>

text \<open>What may follow a rendered chunk: the end, an \<^verbatim>\<open>@@\<close> line, or a \<^verbatim>\<open>*\<close> line that is not the EOF marker.\<close>

definition stops_chunk :: "rstr list \<Rightarrow> bool" where
  "stops_chunk rest \<longleftrightarrow>
     (case rest of [] \<Rightarrow> True
      | l # _ \<Rightarrow> l \<noteq> EOF_MARKER \<and> (case l of [] \<Rightarrow> False | c # _ \<Rightarrow> c = 64 \<or> c = 42))"

lemma EOF_MARKER_hd: "EOF_MARKER = 42 # lit ''** End of File''"
  by (simp add: EOF_MARKER_def)

lemma change_text_ne_EOF [simp]: "change_text l \<noteq> EOF_MARKER"
  by (cases l) (simp_all add: EOF_MARKER_hd)

lemma chunk_lines_loop_rendered:
  assumes "stops_chunk rest" and "0 < k + length ls"
  shows "chunk_lines_loop ln (map change_text ls @ (if eof then [EOF_MARKER] else []) @ rest) ch k =
    Inr (ch\<lparr>old_lines := old_lines ch @ concat (map old_of ls),
            new_lines := new_lines ch @ concat (map new_of ls),
            is_end_of_file := is_end_of_file ch \<or> eof\<rparr>,
         k + length ls + (if eof then 1 else 0))"
  using assms
proof (induction ls arbitrary: ch k)
  case Nil
  then show ?case
    by (cases rest) (auto simp: stops_chunk_def split: list.splits)
next
  case (Cons l ls)
  show ?case
    using Cons.IH [of "Suc k"] Cons.prems change_text_ne_EOF [of l]
    by (cases l) (simp_all del: change_text_ne_EOF)
qed

lemma ws_facts [simp]:
  "is_whitespace SPC" "\<not> is_whitespace 42" "\<not> is_whitespace 43" "\<not> is_whitespace 45"
  "\<not> is_whitespace 64" "\<not> is_whitespace 104"
  by (simp_all add: is_whitespace_def)

lemma strip_context_other: "c \<noteq> 64 \<Longrightarrow> strip_prefix CHANGE_CONTEXT_MARKER (c # t) = None"
  by (simp add: CHANGE_CONTEXT_MARKER_def)

lemma EMPTY_CONTEXT_hd: "EMPTY_CHANGE_CONTEXT_MARKER = [64, 64]"
  by (simp add: EMPTY_CHANGE_CONTEXT_MARKER_def)

lemma CONTEXT_hd: "CHANGE_CONTEXT_MARKER = [64, 64, SPC]"
  by (simp add: CHANGE_CONTEXT_MARKER_def)

lemma chunk_header_rendered:
  "chunk_header EMPTY_CHANGE_CONTEXT_MARKER ln allow = Inr (None, 1)"
  "chunk_header (CHANGE_CONTEXT_MARKER @ ctx) ln allow = Inr (Some ctx, 1)"
  "chunk_header (change_text l) ln True = Inr (None, 0)"
  subgoal by (simp add: chunk_header_def)
  subgoal by (simp add: chunk_header_def EMPTY_CONTEXT_hd CONTEXT_hd)
  subgoal by (cases l) (simp_all add: chunk_header_def EMPTY_CONTEXT_hd strip_context_other)
  done

lemma new_chunk_parsed:
  "new_chunk (start_context (pc_start c))
     \<lparr>old_lines := old_lines (new_chunk ctx) @ concat (map old_of (pc_lines c)),
      new_lines := new_lines (new_chunk ctx) @ concat (map new_of (pc_lines c)),
      is_end_of_file := is_end_of_file (new_chunk ctx) \<or> pc_eof c\<rparr> = chunk_of c"
  by (simp add: new_chunk_def chunk_of_def)

lemma parse_update_file_chunk_rendered:
  assumes "wf_chunk c" and "stops_chunk rest" and "pc_start c = NoHeader \<Longrightarrow> allow"
  shows "parse_update_file_chunk (chunk_text c @ rest) ln allow = Inr (chunk_of c, length (chunk_text c))"
proof -
  have ne: "pc_lines c \<noteq> []" using assms(1) by (simp add: wf_chunk_def)
  note loop = chunk_lines_loop_rendered [OF assms(2), of 0 "pc_lines c" ln "pc_eof c"]
  show ?thesis
  proof (cases "pc_start c")
    case NoHeader
    from ne obtain l ls where ls: "pc_lines c = l # ls" by (cases "pc_lines c") auto
    have "chunk_text c @ rest = change_text l # map change_text ls @
        (if pc_eof c then [EOF_MARKER] else []) @ rest"
      using NoHeader ls by (simp add: chunk_text_def)
    then show ?thesis
      using NoHeader assms(3) ls loop [of "new_chunk None"] new_chunk_parsed [where c = c and ctx = None]
      by (simp add: parse_update_file_chunk_def chunk_header_rendered chunk_text_def)
  next
    case EmptyHeader
    then show ?thesis
      using ne loop [of "new_chunk None"] new_chunk_parsed [where c = c and ctx = None]
      by (simp add: parse_update_file_chunk_def chunk_header_rendered chunk_text_def)
  next
    case (Header ctx)
    then show ?thesis
      using ne loop [of "new_chunk (Some ctx)"] new_chunk_parsed [where c = c and ctx = "Some ctx"]
      by (simp add: parse_update_file_chunk_def chunk_header_rendered chunk_text_def)
  qed
qed

text \<open>What follows a rendered hunk: the end or a line that starts with \<^verbatim>\<open>*\<close>.\<close>

definition stops_hunk :: "rstr list \<Rightarrow> bool" where
  "stops_hunk rest \<longleftrightarrow>
     (case rest of [] \<Rightarrow> True
      | l # _ \<Rightarrow> l \<noteq> EOF_MARKER \<and> (case l of [] \<Rightarrow> False | c # _ \<Rightarrow> c = 42))"

lemma stops_hunk_chunk: "stops_hunk rest \<Longrightarrow> stops_chunk rest"
  by (auto simp: stops_hunk_def stops_chunk_def split: list.splits)

lemma stops_chunk_header: "pc_start c \<noteq> NoHeader \<Longrightarrow> stops_chunk (chunk_text c @ rest)"
  by (cases "pc_start c") (auto simp: stops_chunk_def chunk_text_def EMPTY_CONTEXT_hd CONTEXT_hd EOF_MARKER_hd)

lemma chunk_text_first:
  assumes "wf_chunk c"
  obtains l rest where "chunk_text c = l # rest" and "trim l \<noteq> []" and "\<not> starts_with l [42]"
proof (cases "pc_start c")
  case NoHeader
  with assms obtain x xs where xs: "pc_lines c = x # xs" and "trim (change_text x) \<noteq> []"
    by (cases "pc_lines c") (auto simp: wf_chunk_def)
  moreover have "\<not> starts_with (change_text x) [42]"
    by (cases x) (simp_all add: starts_with_def)
  ultimately show thesis
    using NoHeader that by (simp add: chunk_text_def)
next
  case EmptyHeader
  then show thesis using that
    by (simp add: chunk_text_def EMPTY_CONTEXT_hd trim_eq_Nil_iff starts_with_def)
next
  case (Header ctx)
  then show thesis using that
    by (simp add: chunk_text_def CONTEXT_hd trim_eq_Nil_iff starts_with_def)
qed

declare update_chunks_loop.simps [simp del]

lemma update_chunks_loop_chunk:
  assumes "wf_chunk c" and "stops_chunk rest" and "pc_start c = NoHeader \<Longrightarrow> acc = []"
  shows "update_chunks_loop ln (chunk_text c @ rest) k acc =
    update_chunks_loop ln rest (k + length (chunk_text c)) (acc @ [chunk_of c])"
proof -
  obtain l ls where l: "chunk_text c = l # ls" "trim l \<noteq> []" "\<not> starts_with l [42]"
    using assms(1) by (rule chunk_text_first)
  have "parse_update_file_chunk (l # ls @ rest) (ln + k) (acc = []) =
        Inr (chunk_of c, length (chunk_text c))"
    using parse_update_file_chunk_rendered [OF assms(1,2), of "acc = []" "ln + k"] assms(3) l(1) by simp
  then show ?thesis
    using l by (simp add: update_chunks_loop.simps)
qed

lemma update_chunks_loop_stop:
  assumes "stops_hunk rest"
  shows "update_chunks_loop ln rest k acc = Inr (acc, k)"
  using assms
  by (cases rest) (auto simp: stops_hunk_def update_chunks_loop.simps trim_eq_Nil_iff starts_with_def
      split: list.splits)

lemma update_chunks_loop_headers:
  assumes "\<forall>d\<in>set cs. wf_chunk d \<and> pc_start d \<noteq> NoHeader" and "stops_hunk rest"
  shows "update_chunks_loop ln (concat (map chunk_text cs) @ rest) k acc =
    Inr (acc @ map chunk_of cs, k + length (concat (map chunk_text cs)))"
  using assms(1)
proof (induction cs arbitrary: k acc)
  case Nil
  then show ?case using assms(2) by (simp add: update_chunks_loop_stop)
next
  case (Cons c cs)
  have "stops_chunk (concat (map chunk_text cs) @ rest)"
    using Cons.prems assms(2) by (cases cs) (auto simp: stops_hunk_chunk stops_chunk_header)
  then have "update_chunks_loop ln (chunk_text c @ concat (map chunk_text cs) @ rest) k acc =
      update_chunks_loop ln (concat (map chunk_text cs) @ rest) (k + length (chunk_text c))
        (acc @ [chunk_of c])"
    using Cons.prems by (intro update_chunks_loop_chunk) auto
  then show ?case
    using Cons by (simp add: add.assoc)
qed

lemma update_chunks_loop_rendered:
  assumes "wf_chunks cs" and "stops_hunk rest"
  shows "update_chunks_loop ln (concat (map chunk_text cs) @ rest) k [] =
    Inr (map chunk_of cs, k + length (concat (map chunk_text cs)))"
proof -
  from assms(1) obtain c ds where cs: "cs = c # ds" "wf_chunk c"
      "\<forall>d\<in>set ds. wf_chunk d \<and> pc_start d \<noteq> NoHeader"
    by (cases cs) auto
  have "stops_chunk (concat (map chunk_text ds) @ rest)"
    using cs(3) assms(2) by (cases ds) (auto simp: stops_hunk_chunk stops_chunk_header)
  then show ?thesis
    using cs assms(2) by (simp add: update_chunks_loop_chunk update_chunks_loop_headers add.assoc)
qed

lemma add_lines_loop_rendered:
  assumes "stops_hunk rest"
  shows "add_lines_loop (map (\<lambda>l. 43 # l) ls @ rest) contents k =
    (contents @ concat (map (\<lambda>l. l @ [NL]) ls), k + length ls)"
proof (induction ls arbitrary: contents k)
  case Nil
  then show ?case using assms by (cases rest) (auto simp: stops_hunk_def split: list.splits)
qed simp

lemma trim_header:
  assumes "wf_path p"
  shows "trim (ADD_FILE_MARKER @ p) = ADD_FILE_MARKER @ p"
    "trim (DELETE_FILE_MARKER @ p) = DELETE_FILE_MARKER @ p"
    "trim (UPDATE_FILE_MARKER @ p) = UPDATE_FILE_MARKER @ p"
  using assms by (auto intro!: trim_ident simp: wf_path_def marker_defs)

lemma strip_header_other:
  "strip_prefix ADD_FILE_MARKER (DELETE_FILE_MARKER @ p) = None"
  "strip_prefix ADD_FILE_MARKER (UPDATE_FILE_MARKER @ p) = None"
  "strip_prefix DELETE_FILE_MARKER (UPDATE_FILE_MARKER @ p) = None"
  by (simp_all add: marker_defs)

lemma strip_move_other: "\<not> starts_with l [42] \<Longrightarrow> strip_prefix MOVE_TO_MARKER l = None"
  by (cases l) (auto simp: starts_with_def MOVE_TO_MARKER_def split: if_splits)

lemma chunks_text_first:
  assumes "wf_chunks cs"
  obtains l rest where "concat (map chunk_text cs) = l # rest" and "\<not> starts_with l [42]"
proof -
  from assms obtain c ds where cs: "cs = c # ds" "wf_chunk c" by (cases cs) auto
  obtain l ls where "chunk_text c = l # ls" "\<not> starts_with l [42]"
    using cs(2) by (rule chunk_text_first)
  then show thesis using that cs(1) by simp
qed

lemma parse_one_hunk_rendered:
  assumes "wf_hunk h" and "stops_hunk rest" and "hunk_text h = l # ls"
  shows "parse_one_hunk l (ls @ rest) ln = Inr (hunk_of h, length (hunk_text h))"
proof (cases h)
  case (PAdd p as)
  with assms show ?thesis
    by (auto simp: parse_one_hunk_def trim_header add_lines_loop_rendered)
next
  case (PDelete p)
  with assms show ?thesis
    by (auto simp: parse_one_hunk_def trim_header strip_header_other)
next
  case (PUpdate p mv cs)
  with assms have wf: "wf_path p" "wf_chunks cs" and l: "l = UPDATE_FILE_MARKER @ p" by auto
  have ne: "cs \<noteq> []" using wf(2) by auto
  note loop = update_chunks_loop_rendered [OF wf(2) assms(2)]
  show ?thesis
  proof (cases mv)
    case None
    obtain x xs where xs: "concat (map chunk_text cs) = x # xs" "strip_prefix MOVE_TO_MARKER x = None"
      using chunks_text_first [OF wf(2)] strip_move_other by metis
    then have "ls = x # xs" using assms(3) PUpdate None by simp
    then show ?thesis
      using PUpdate None wf l loop [of ln 1] xs ne
      by (simp add: parse_one_hunk_def trim_header strip_header_other)
  next
    case (Some d)
    then have "ls = (MOVE_TO_MARKER @ d) # concat (map chunk_text cs)"
      using assms(3) PUpdate by simp
    then show ?thesis
      using PUpdate Some wf l loop [of ln 2] ne
      by (simp add: parse_one_hunk_def trim_header strip_header_other)
  qed
qed

lemma hunk_text_ne: "\<exists>l ls. hunk_text h = l # ls"
  by (cases h) auto

lemma stops_hunk_text: "stops_hunk (hunk_text h @ rest)"
  by (cases h) (simp_all add: stops_hunk_def marker_defs)

lemma parse_hunks_loop_rendered:
  assumes "\<forall>h\<in>set hs. wf_hunk h"
  shows "parse_hunks_loop (concat (map hunk_text hs)) ln acc = Inr (acc @ map hunk_of hs)"
  using assms
proof (induction hs arbitrary: ln acc)
  case (Cons h hs)
  obtain l ls where h: "hunk_text h = l # ls" using hunk_text_ne by blast
  have "stops_hunk (concat (map hunk_text hs))"
    using stops_hunk_text by (cases hs) (auto simp: stops_hunk_def)
  then have "parse_one_hunk l (ls @ concat (map hunk_text hs)) ln =
      Inr (hunk_of h, length (hunk_text h))"
    using Cons.prems h by (intro parse_one_hunk_rendered) auto
  then show ?case using Cons h by simp
qed simp

lemma plain_line_append: "plain_line m \<Longrightarrow> m \<noteq> [] \<Longrightarrow> plain_line p \<Longrightarrow> plain_line (m @ p)"
  by (cases "p = []") (auto simp: plain_line_def)

lemma wf_path_plain: "wf_path p \<Longrightarrow> plain_line p"
  by (auto simp: wf_path_def plain_line_def is_whitespace_def)

lemma plain_markers:
  "plain_line BEGIN_PATCH_MARKER" "plain_line END_PATCH_MARKER" "plain_line ADD_FILE_MARKER"
  "plain_line DELETE_FILE_MARKER" "plain_line UPDATE_FILE_MARKER" "plain_line MOVE_TO_MARKER"
  "plain_line EOF_MARKER" "plain_line CHANGE_CONTEXT_MARKER" "plain_line EMPTY_CHANGE_CONTEXT_MARKER"
  by (simp_all add: plain_line_def marker_defs)

lemma marker_ne:
  "ADD_FILE_MARKER \<noteq> []" "DELETE_FILE_MARKER \<noteq> []" "UPDATE_FILE_MARKER \<noteq> []"
  "MOVE_TO_MARKER \<noteq> []" "CHANGE_CONTEXT_MARKER \<noteq> []"
  by (simp_all add: marker_defs)

lemma plain_change_text: "plain_line (line_body l) \<Longrightarrow> plain_line (change_text l)"
  by (cases l) (auto simp: plain_line_def)

lemma plain_chunk_text: "wf_chunk c \<Longrightarrow> x \<in> set (chunk_text c) \<Longrightarrow> plain_line x"
  by (cases "pc_start c")
    (auto simp: wf_chunk_def chunk_text_def plain_change_text plain_markers plain_line_append marker_ne
      split: if_splits)

lemma wf_chunks_all: "wf_chunks cs \<Longrightarrow> c \<in> set cs \<Longrightarrow> wf_chunk c"
  by (cases cs) auto

lemma plain_line_plus: "plain_line l \<Longrightarrow> plain_line (43 # l)"
  by (auto simp: plain_line_def)

lemma plain_hunk_text: "wf_hunk h \<Longrightarrow> x \<in> set (hunk_text h) \<Longrightarrow> plain_line x"
  by (cases h)
    (auto simp: plain_markers plain_line_append marker_ne wf_path_plain plain_line_plus
      split: option.splits dest: wf_chunks_all intro: plain_chunk_text)

lemma str_lines_patch_text:
  assumes "\<forall>h\<in>set hs. wf_hunk h"
  shows "str_lines (trim (patch_text hs)) = patch_lines hs"
proof -
  have plain: "\<forall>x\<in>set (patch_lines hs). plain_line x"
    using assms plain_hunk_text by (auto simp: patch_lines_def plain_markers)
  have "patch_text hs = BEGIN_PATCH_MARKER @ [NL] @
      str_join [NL] (concat (map hunk_text hs) @ [END_PATCH_MARKER])"
    by (simp add: patch_text_def patch_lines_def str_join_Cons)
  moreover have "\<exists>t. str_join [NL] (ls @ [END_PATCH_MARKER]) = t @ END_PATCH_MARKER" for ls
    by (simp add: str_join_snoc)
  ultimately obtain t where "patch_text hs = BEGIN_PATCH_MARKER @ t @ END_PATCH_MARKER"
    by (metis append.assoc)
  then have "trim (patch_text hs) = patch_text hs"
    by (intro trim_ident) (auto simp: marker_defs)
  then show ?thesis
    using plain by (simp add: patch_text_def str_lines_join) (simp add: patch_lines_def marker_defs str_lines_join)
qed

lemma check_patch_boundaries_patch_lines:
  "check_patch_boundaries_strict (patch_lines hs) = Inr (patch_lines hs, concat (map hunk_text hs))"
proof -
  have "trim BEGIN_PATCH_MARKER = BEGIN_PATCH_MARKER" "trim END_PATCH_MARKER = END_PATCH_MARKER"
    by (auto intro!: trim_ident simp: marker_defs)
  then show ?thesis
    by (simp add: check_patch_boundaries_strict_def check_start_and_end_lines_strict_def patch_lines_def)
qed

lemma parse_patch_rendered:
  assumes "\<forall>h\<in>set hs. wf_hunk h"
  shows "parse_patch_text (patch_text hs) mode =
    Inr \<lparr>args_patch = patch_text hs, args_hunks = map hunk_of hs, args_workdir = None\<rparr>"
  using parse_hunks_loop_rendered [OF assms, of 2 "[]"]
  by (simp add: parse_patch_text_def Let_def str_lines_patch_text [OF assms] check_patch_boundaries_lenient_def
      check_patch_boundaries_patch_lines patch_text_def [symmetric] split: parse_mode.splits)

section \<open>Properties\<close>

definition example_patch :: "patch_hunk list" where
  "example_patch =
     [PAdd (lit ''a.txt'') [lit ''x''],
      PUpdate (lit ''b.txt'') (Some (lit ''c.txt''))
        [\<lparr>pc_start = Header (lit ''f''), pc_lines = [Context (lit ''k''), Removed (lit ''o''), Added (lit ''n'')],
          pc_eof = True\<rparr>]]"

lemma example_patch_wf: "\<forall>h\<in>set example_patch. wf_hunk h"
  by (simp add: example_patch_def wf_path_def wf_chunk_def plain_line_def is_whitespace_def)

text \<open>
  C22 (roundtrip): c8 (round trip): every well-formed patch, written out in the documented format, is parsed
  back by \<^verbatim>\<open>parse_patch\<close> to exactly the hunks it denotes, and the stored patch text is the
  input.
\<close>

theorem parse_patch_round_trip:
  assumes "\<forall>h\<in>set hs. wf_hunk h"
  shows "parse_patch (patch_text hs) =
    Inr \<lparr>args_patch = patch_text hs, args_hunks = map hunk_of hs, args_workdir = None\<rparr>"
  using parse_patch_rendered [OF assms] by (simp add: parse_patch_def)

theorem parse_patch_round_trip_witness:
  "parse_patch (patch_text example_patch) =
    Inr \<lparr>args_patch = patch_text example_patch, args_hunks = map hunk_of example_patch,
         args_workdir = None\<rparr>"
  by (rule parse_patch_round_trip [OF example_patch_wf])

text \<open>A patch between heredoc markers, as \<^verbatim>\<open>ParseMode::Lenient\<close> documents.\<close>

definition heredoc_text :: "rstr \<Rightarrow> rstr \<Rightarrow> rstr \<Rightarrow> rstr" where
  "heredoc_text start body final = start @ [NL] @ body @ [NL] @ final"

lemma heredoc_text_lines:
  "heredoc_text start (patch_text hs) final = str_join [NL] (start # patch_lines hs @ [final])"
proof -
  have "patch_lines hs \<noteq> []" by (simp add: patch_lines_def)
  then show ?thesis
    by (simp add: heredoc_text_def patch_text_def str_join_Cons str_join_snoc)
qed

lemma heredoc_start_facts:
  assumes "is_heredoc_start m"
  shows "plain_line m" "hd m = 60" "m \<noteq> []" "trim m \<noteq> BEGIN_PATCH_MARKER"
proof -
  have m: "m \<in> {lit ''<<EOF'', lit ''<<'' @ quoted (lit ''EOF''), lit ''<<'' @ [34] @ lit ''EOF'' @ [34]}"
    using assms by (auto simp: is_heredoc_start_def)
  then show "plain_line m" "hd m = 60" "m \<noteq> []" by (auto simp: plain_line_def quoted_def)
  have "trim m = m" using m by (intro trim_ident) (auto simp: quoted_def is_whitespace_def)
  then show "trim m \<noteq> BEGIN_PATCH_MARKER" using m by (auto simp: BEGIN_PATCH_MARKER_def quoted_def)
qed

lemma check_lenient_heredoc:
  assumes "is_heredoc_start m" and "ends_with e (lit ''EOF'')"
  shows "check_patch_boundaries_lenient (m # patch_lines hs @ [e]) =
    Inr (patch_lines hs, concat (map hunk_text hs))"
proof -
  have "check_patch_boundaries_strict (m # patch_lines hs @ [e]) = Inl (InvalidPatchError msg_first_line)"
    using heredoc_start_facts(4) [OF assms(1)]
    by (simp add: check_patch_boundaries_strict_def check_start_and_end_lines_strict_def)
  then show ?thesis
    using assms check_patch_boundaries_patch_lines [of hs]
    by (simp add: check_patch_boundaries_lenient_def) (simp add: patch_lines_def)
qed

text \<open>
  In the lenient mode that \<^verbatim>\<open>parse_patch\<close> uses, a patch wrapped in one of the
  three heredoc openings and closed by a line that ends in \<^verbatim>\<open>EOF\<close> is parsed like the bare
  patch, and the heredoc lines are not part of the stored patch text.
\<close>

theorem parse_patch_heredoc:
  assumes "\<forall>h\<in>set hs. wf_hunk h" and "is_heredoc_start m"
    and "ends_with e (lit ''EOF'')" and "NL \<notin> set e"
  shows "parse_patch (heredoc_text m (patch_text hs) e) = parse_patch (patch_text hs)"
proof -
  obtain e' where e: "e = e' @ lit ''EOF''"
    using assms(3) by (auto simp: ends_with_iff_suffix suffix_def)
  have "trim (heredoc_text m (patch_text hs) e) = heredoc_text m (patch_text hs) e"
    using heredoc_start_facts [OF assms(2)]
    by (intro trim_ident) (auto simp: heredoc_text_def e hd_append is_whitespace_def)
  moreover have "plain_line e" using assms(4) by (auto simp: plain_line_def e)
  then have "\<forall>l\<in>set (m # patch_lines hs @ [e]). plain_line l"
    using assms(1) heredoc_start_facts(1) [OF assms(2)] plain_hunk_text
    by (auto simp: patch_lines_def plain_markers)
  ultimately have "str_lines (trim (heredoc_text m (patch_text hs) e)) = m # patch_lines hs @ [e]"
    using e by (simp add: heredoc_text_lines str_lines_join)
  then have "parse_patch (heredoc_text m (patch_text hs) e) =
      Inr \<lparr>args_patch = patch_text hs, args_hunks = map hunk_of hs, args_workdir = None\<rparr>"
    using check_lenient_heredoc [OF assms(2,3), of hs] parse_hunks_loop_rendered [OF assms(1), of 2 "[]"]
    by (simp add: parse_patch_def parse_patch_text_def PARSE_IN_STRICT_MODE_def patch_text_def)
  then show ?thesis
    using parse_patch_rendered [OF assms(1)] by (simp add: parse_patch_def)
qed

theorem parse_patch_heredoc_witness:
  "parse_patch (heredoc_text (lit ''<<EOF'') (patch_text example_patch) (lit ''EOF'')) =
   parse_patch (patch_text example_patch)"
  by (rule parse_patch_heredoc [OF example_patch_wf])
    (simp_all add: is_heredoc_start_def ends_with_def strip_suffix_def)

text \<open>
  No slice of the parser is out of range. A chunk, and a hunk, consumes at least
  one of the lines it is given and no more than there are; and when the boundary check
  succeeds there are at least two lines, so that \<^verbatim>\<open>lines[1..len-1]\<close> exists.
\<close>

theorem parser_slices_in_range:
  "(parse_update_file_chunk ls ln allow = Inr (chunk, n) \<longrightarrow> 0 < n \<and> n \<le> length ls) \<and>
   (parse_one_hunk l rest ln = Inr (h, m) \<longrightarrow> 0 < m \<and> m \<le> length (l # rest)) \<and>
   (check_patch_boundaries_strict ls = Inr r \<longrightarrow> 2 \<le> length ls)"
proof -
  have "2 \<le> length ls" if "check_patch_boundaries_strict ls = Inr r"
  proof (rule ccontr)
    assume "\<not> 2 \<le> length ls"
    then consider "ls = []" | x where "ls = [x]" by (cases ls rule: remdups_adj.cases) auto
    then show False
    proof cases
      case 1
      with that show False
        by (simp add: check_patch_boundaries_strict_def check_start_and_end_lines_strict_def)
    next
      case 2
      moreover have "BEGIN_PATCH_MARKER \<noteq> END_PATCH_MARKER" by (simp add: marker_defs)
      ultimately show False
        using that by (auto simp: check_patch_boundaries_strict_def check_start_and_end_lines_strict_def
            split: if_splits)
    qed
  qed
  then show ?thesis
    using parse_update_file_chunk_bounds parse_one_hunk_bounds by fastforce
qed

theorem parser_slices_in_range_witness:
  "parse_update_file_chunk [lit ''+a''] 1 True =
     Inr (\<lparr>change_context = None, old_lines = [], new_lines = [lit ''a''], is_end_of_file = False\<rparr>, 1) \<and>
   parse_one_hunk (lit ''*** Delete File: f'') [] 2 = Inr (DeleteFile (lit ''f''), 1) \<and>
   check_patch_boundaries_strict [BEGIN_PATCH_MARKER, END_PATCH_MARKER] =
     Inr ([BEGIN_PATCH_MARKER, END_PATCH_MARKER], []) \<and>
   (1::nat) \<le> length [lit ''+a''] \<and> 2 \<le> length [BEGIN_PATCH_MARKER, END_PATCH_MARKER]"
proof -
  have a: "parse_update_file_chunk [lit ''+a''] 1 True =
     Inr (\<lparr>change_context = None, old_lines = [], new_lines = [lit ''a''], is_end_of_file = False\<rparr>, 1)"
    by (simp add: parse_update_file_chunk_def chunk_header_def marker_defs new_chunk_def)
  have b: "parse_one_hunk (lit ''*** Delete File: f'') [] 2 = Inr (DeleteFile (lit ''f''), 1)"
    by (simp add: parse_one_hunk_def trim_def trim_start_def trim_end_def is_whitespace_def marker_defs)
  have c: "check_patch_boundaries_strict [BEGIN_PATCH_MARKER, END_PATCH_MARKER] =
     Inr ([BEGIN_PATCH_MARKER, END_PATCH_MARKER], [])"
    using check_patch_boundaries_patch_lines [of "[]"] by (simp add: patch_lines_def)
  show ?thesis
    using a b c parser_slices_in_range by blast
qed

end
