(* ===== verification/Streaming_Patch.thy ===== *)
theory Streaming_Patch
  imports Patch_Parser
begin

text \<open>
  \<^verbatim>\<open>codex-rs/apply-patch/src/streaming_parser.rs\<close>: the line-by-line parser that follows a patch
  while a model is still writing it. Methods take \<^verbatim>\<open>&mut self\<close> and return a \<^verbatim>\<open>Result\<close>; here
  they return the result together with the state they leave, on errors too.
\<close>

section \<open>State\<close>

datatype streaming_mode =
    NotStarted
  | StartedPatch
  | InAddFile
  | InDeleteFile
  | InUpdateFile nat
  | EndedPatch

record streaming_parser =
  line_buffer :: rstr
  sp_mode :: streaming_mode
  sp_hunks :: "hunk list"
  line_number :: nat

type_synonym 'a sp_result = "('a, parse_error) result \<times> streaming_parser"

definition sp_default :: streaming_parser where
  "sp_default = \<lparr>line_buffer = [], sp_mode = NotStarted, sp_hunks = [], line_number = 0\<rparr>"

section \<open>Operations\<close>

definition chunk_is_empty :: "update_file_chunk \<Rightarrow> bool" where
  "chunk_is_empty chunk \<longleftrightarrow> old_lines chunk = [] \<and> new_lines chunk = []"

definition ensure_update_hunk_is_not_empty ::
  "streaming_parser \<Rightarrow> rstr \<Rightarrow> (unit, parse_error) result" where
  "ensure_update_hunk_is_not_empty s line =
     (if sp_hunks s = [] then Inr () else
      (case last (sp_hunks s) of
         UpdateFile path _ chunks \<Rightarrow>
           (case (chunks = [], sp_mode s) of
              (True, InUpdateFile hunk_line_number) \<Rightarrow>
                Inl (InvalidHunkError (msg_empty_update path) hunk_line_number)
            | _ \<Rightarrow>
                if last_is chunk_is_empty chunks then
                  (if line = END_PATCH_MARKER
                   then Inl (InvalidHunkError msg_no_lines (line_number s))
                   else Inl (InvalidHunkError (msg_unexpected_line line) (line_number s)))
                else Inr ())
       | _ \<Rightarrow> Inr ()))"

text \<open>A header that passes the check pushes its hunk and switches the mode.\<close>

definition start_hunk ::
  "streaming_parser \<Rightarrow> rstr \<Rightarrow> hunk list \<Rightarrow> streaming_mode \<Rightarrow> bool sp_result" where
  "start_hunk s trimmed new_hunks mode =
     (case ensure_update_hunk_is_not_empty s trimmed of
        Inl e \<Rightarrow> (Inl e, s)
      | Inr _ \<Rightarrow> (Inr True, s\<lparr>sp_hunks := sp_hunks s @ new_hunks, sp_mode := mode\<rparr>))"

definition handle_hunk_headers_and_end_patch ::
  "streaming_parser \<Rightarrow> rstr \<Rightarrow> bool sp_result" where
  "handle_hunk_headers_and_end_patch s trimmed =
     (if trimmed = END_PATCH_MARKER then start_hunk s trimmed [] EndedPatch
      else case strip_prefix ADD_FILE_MARKER trimmed of
          Some path \<Rightarrow> start_hunk s trimmed [AddFile path []] InAddFile
        | None \<Rightarrow>
       (case strip_prefix DELETE_FILE_MARKER trimmed of
          Some path \<Rightarrow> start_hunk s trimmed [DeleteFile path] InDeleteFile
        | None \<Rightarrow>
       (case strip_prefix UPDATE_FILE_MARKER trimmed of
          Some path \<Rightarrow>
            start_hunk s trimmed [UpdateFile path None []] (InUpdateFile (line_number s))
        | None \<Rightarrow> (Inr False, s))))"

definition bad_header :: "streaming_parser \<Rightarrow> rstr \<Rightarrow> unit sp_result" where
  "bad_header s trimmed = (Inl (InvalidHunkError (msg_bad_header trimmed) (line_number s)), s)"

definition set_last_hunk :: "streaming_parser \<Rightarrow> hunk \<Rightarrow> streaming_parser" where
  "set_last_hunk s h = s\<lparr>sp_hunks := butlast (sp_hunks s) @ [h]\<rparr>"

text \<open>
  A change line goes to the last chunk, which is created when there is none.
\<close>

definition push_to_last_chunk ::
  "update_file_chunk list \<Rightarrow> rstr list \<Rightarrow> rstr list \<Rightarrow> update_file_chunk list" where
  "push_to_last_chunk chunks olds news =
     (let chunks' = (if chunks = [] then [new_chunk None] else chunks); c = last chunks'
      in butlast chunks' @
         [c\<lparr>old_lines := old_lines c @ olds, new_lines := new_lines c @ news\<rparr>])"

text \<open>
  The body of the \<^verbatim>\<open>UpdateFile\<close> arm for a last hunk \<^verbatim>\<open>UpdateFile { path, move_path, chunks }\<close>,
  after the headers were ruled out; \<open>None\<close> when control falls through to the final error.
\<close>

definition update_line_step ::
  "streaming_parser \<Rightarrow> rstr \<Rightarrow> rstr \<Rightarrow> rstr option \<Rightarrow> update_file_chunk list \<Rightarrow> unit sp_result option" where
  "update_line_step s line path move_path chunks =
     (let update_line = trim_end line;
          put = (\<lambda>mv cs. Some (Inr (), set_last_hunk s (UpdateFile path mv cs)));
          err = (\<lambda>msg. Some (Inl (InvalidHunkError msg (line_number s)), s))
      in
      if chunks = [] \<and> move_path = None \<and> strip_prefix MOVE_TO_MARKER update_line \<noteq> None
      then put (strip_prefix MOVE_TO_MARKER update_line) chunks
      else if (update_line = EMPTY_CHANGE_CONTEXT_MARKER \<or> starts_with update_line CHANGE_CONTEXT_MARKER) \<and>
              last_is chunk_is_empty chunks
      then err (msg_unexpected_line line)
      else if update_line = EMPTY_CHANGE_CONTEXT_MARKER
      then put move_path (chunks @ [new_chunk None])
      else (case strip_prefix CHANGE_CONTEXT_MARKER update_line of
        Some ctx \<Rightarrow> put move_path (chunks @ [new_chunk (Some ctx)])
      | None \<Rightarrow>
      if update_line = EOF_MARKER then
        (if last_is chunk_is_empty chunks then err msg_no_lines
         else if chunks = [] then put move_path chunks
         else put move_path (butlast chunks @ [(last chunks)\<lparr>is_end_of_file := True\<rparr>]))
      else if line = [] then put move_path (push_to_last_chunk chunks [[]] [[]])
      else (case strip_prefix [SPC] line of
        Some t \<Rightarrow> put move_path (push_to_last_chunk chunks [t] [t])
      | None \<Rightarrow>
      (case strip_prefix [43] line of
        Some t \<Rightarrow> put move_path (push_to_last_chunk chunks [] [t])
      | None \<Rightarrow>
      (case strip_prefix [45] line of
        Some t \<Rightarrow> put move_path (push_to_last_chunk chunks [t] [])
      | None \<Rightarrow>
      if last_is (\<lambda>c. \<not> chunk_is_empty c) chunks then err (msg_expected_context line)
      else None)))))"

text \<open>The match on the mode, one equation per arm.\<close>

definition process_line_started :: "streaming_parser \<Rightarrow> rstr \<Rightarrow> unit sp_result" where
  "process_line_started s line =
     (case handle_hunk_headers_and_end_patch s (trim line) of
        (Inl e, s') \<Rightarrow> (Inl e, s')
      | (Inr True, s') \<Rightarrow> (Inr (), s')
      | (Inr False, s') \<Rightarrow> bad_header s' (trim line))"

definition process_line_add :: "streaming_parser \<Rightarrow> rstr \<Rightarrow> unit sp_result" where
  "process_line_add s line =
     (case handle_hunk_headers_and_end_patch s (trim line) of
        (Inl e, s') \<Rightarrow> (Inl e, s')
      | (Inr True, s') \<Rightarrow> (Inr (), s')
      | (Inr False, s') \<Rightarrow>
          (case (strip_prefix [43] line, sp_hunks s') of
             (Some line_to_add, h # hs) \<Rightarrow>
               (case last (h # hs) of
                  AddFile path contents \<Rightarrow>
                    (Inr (), set_last_hunk s' (AddFile path (contents @ line_to_add @ [NL])))
                | _ \<Rightarrow> bad_header s' (trim line))
           | _ \<Rightarrow> bad_header s' (trim line)))"

definition process_line_update :: "streaming_parser \<Rightarrow> rstr \<Rightarrow> unit sp_result" where
  "process_line_update s line =
     (case handle_hunk_headers_and_end_patch s (trim_end line) of
        (Inl e, s') \<Rightarrow> (Inl e, s')
      | (Inr True, s') \<Rightarrow> (Inr (), s')
      | (Inr False, s') \<Rightarrow>
          (case (if sp_hunks s' = [] then None
                 else case last (sp_hunks s') of
                        UpdateFile path mv chunks \<Rightarrow> update_line_step s' line path mv chunks
                      | _ \<Rightarrow> None) of
             Some r \<Rightarrow> r
           | None \<Rightarrow>
               (Inl (InvalidHunkError (msg_unexpected_line line) (line_number s')), s')))"

fun process_line_in :: "streaming_mode \<Rightarrow> streaming_parser \<Rightarrow> rstr \<Rightarrow> unit sp_result" where
  "process_line_in NotStarted s line =
     (if trim line = BEGIN_PATCH_MARKER then (Inr (), s\<lparr>sp_mode := StartedPatch\<rparr>)
      else (Inl (InvalidPatchError msg_first_line), s))"
| "process_line_in StartedPatch s line = process_line_started s line"
| "process_line_in InAddFile s line = process_line_add s line"
| "process_line_in InDeleteFile s line = process_line_started s line"
| "process_line_in (InUpdateFile _) s line = process_line_update s line"
| "process_line_in EndedPatch s line = (Inr (), s)"

definition process_line :: "streaming_parser \<Rightarrow> rstr \<Rightarrow> unit sp_result" where
  "process_line s line = process_line_in (sp_mode s) s line"

text \<open>\<^verbatim>\<open>line.truncate(line.strip_suffix('\r').map_or(line.len(), str::len))\<close>.\<close>

definition strip_cr :: "rstr \<Rightarrow> rstr" where
  "strip_cr line = (case strip_suffix [CR] line of None \<Rightarrow> line | Some l \<Rightarrow> l)"

definition push_char :: "streaming_parser \<Rightarrow> uchar \<Rightarrow> unit sp_result" where
  "push_char s ch =
     (if ch = NL then
        process_line (s\<lparr>line_buffer := [], line_number := line_number s + 1\<rparr>)
          (strip_cr (line_buffer s))
      else (Inr (), s\<lparr>line_buffer := line_buffer s @ [ch]\<rparr>))"

fun push_chars :: "streaming_parser \<Rightarrow> rstr \<Rightarrow> unit sp_result" where
  "push_chars s [] = (Inr (), s)"
| "push_chars s (ch # cs) =
     (case push_char s ch of (Inl e, s') \<Rightarrow> (Inl e, s') | (Inr _, s') \<Rightarrow> push_chars s' cs)"

definition push_delta :: "streaming_parser \<Rightarrow> rstr \<Rightarrow> hunk list sp_result" where
  "push_delta s delta =
     (case push_chars s delta of
        (Inl e, s') \<Rightarrow> (Inl e, s')
      | (Inr _, s') \<Rightarrow> (Inr (sp_hunks s'), s'))"

definition sp_finish :: "streaming_parser \<Rightarrow> hunk list sp_result" where
  "sp_finish s =
     (let line = line_buffer s;
          s1 = s\<lparr>line_buffer := [], line_number := line_number s + 1\<rparr>;
          flushed =
            (if line = [] then (Inr (), s)
             else if trim line = END_PATCH_MARKER then
               (case ensure_update_hunk_is_not_empty s1 (trim line) of
                  Inl e \<Rightarrow> (Inl e, s1)
                | Inr _ \<Rightarrow> (Inr (), s1\<lparr>sp_mode := EndedPatch\<rparr>))
             else process_line s1 line)
      in case flushed of
           (Inl e, s') \<Rightarrow> (Inl e, s')
         | (Inr _, s') \<Rightarrow>
             if sp_mode s' \<noteq> EndedPatch then (Inl (InvalidPatchError msg_last_line), s')
             else (Inr (sp_hunks s'), s'))"

end
