(* ===== verification/Stream_Interface.thy ===== *)
theory Stream_Interface
  imports Prelude
begin

text \<open>
  What the streaming parsers of the repository promise: how the text is cut into chunks does
  not matter. \<open>chunked_parser\<close> states it for a parser that may fail, \<open>text_stream\<close> for the
  trait \<^verbatim>\<open>StreamTextParser\<close> of \<^verbatim>\<open>utils/stream-parser/src/stream_text.rs\<close>, whose operations do
  not fail. Outputs are combined by \<open>app_out\<close>, with \<open>nil_out\<close> for no output.
\<close>

section \<open>Chunks of text\<close>

text \<open>\<^verbatim>\<open>StreamTextChunk<T>\<close>: what one push or the final flush emits.\<close>

record 'e stream_chunk =
  visible_text :: rstr
  extracted :: "'e list"

definition chunk_default :: "'e stream_chunk" where
  "chunk_default = \<lparr>visible_text = [], extracted = []\<rparr>"

definition chunk_empty :: "'e stream_chunk \<Rightarrow> bool" where
  "chunk_empty c \<longleftrightarrow> visible_text c = [] \<and> extracted c = []"

definition chunk_append :: "'e stream_chunk \<Rightarrow> 'e stream_chunk \<Rightarrow> 'e stream_chunk" where
  "chunk_append c d =
     \<lparr>visible_text = visible_text c @ visible_text d, extracted = extracted c @ extracted d\<rparr>"

lemma chunk_append_sel [simp]:
  "visible_text (chunk_append c d) = visible_text c @ visible_text d"
  "extracted (chunk_append c d) = extracted c @ extracted d"
  by (simp_all add: chunk_append_def)

lemma chunk_default_sel [simp]:
  "visible_text chunk_default = []" "extracted chunk_default = []"
  by (simp_all add: chunk_default_def)

lemma chunk_append_monoid [simp]:
  "chunk_append chunk_default c = c" "chunk_append c chunk_default = c"
  "chunk_append (chunk_append c d) e = chunk_append c (chunk_append d e)"
  by (simp_all add: chunk_append_def chunk_default_def)

section \<open>Parsers that may fail\<close>

text \<open>Feeding a list of chunks one after the other, stopping at the first error.\<close>

fun push_seq ::
  "('s \<Rightarrow> 'i list \<Rightarrow> ('o, 'e) result \<times> 's) \<Rightarrow> 'o \<Rightarrow> ('o \<Rightarrow> 'o \<Rightarrow> 'o) \<Rightarrow> 's \<Rightarrow> 'i list list \<Rightarrow>
   ('o, 'e) result \<times> 's" where
  "push_seq push nil_out app_out s [] = (Inr nil_out, s)"
| "push_seq push nil_out app_out s (c # cs) =
     (case push s c of
        (Inl e, s') \<Rightarrow> (Inl e, s')
      | (Inr x, s') \<Rightarrow>
          (case push_seq push nil_out app_out s' cs of
             (Inl e, s'') \<Rightarrow> (Inl e, s'')
           | (Inr y, s'') \<Rightarrow> (Inr (app_out x y), s'')))"

locale chunked_parser =
  fixes inv :: "'s \<Rightarrow> bool"
    and push :: "'s \<Rightarrow> 'i list \<Rightarrow> ('o, 'e) result \<times> 's"
    and nil_out :: 'o
    and app_out :: "'o \<Rightarrow> 'o \<Rightarrow> 'o"
  assumes push_Nil: "inv s \<Longrightarrow> push s [] = (Inr nil_out, s)"
    and push_append: "inv s \<Longrightarrow> push s (a @ b) = (Inr z, s2) \<longleftrightarrow>
      (\<exists>x s1 y. push s a = (Inr x, s1) \<and> push s1 b = (Inr y, s2) \<and> z = app_out x y)"
    and inv_push: "inv s \<Longrightarrow> push s a = (Inr x, s1) \<Longrightarrow> inv s1"
begin

text \<open>A stream of chunks succeeds exactly when the whole text does, with the same output and state.\<close>

lemma push_seq_concat:
  "inv s \<Longrightarrow> push_seq push nil_out app_out s cs = (Inr z, s2) \<longleftrightarrow> push s (concat cs) = (Inr z, s2)"
proof (induction cs arbitrary: s z)
  case Nil
  then show ?case by (auto simp: push_Nil)
next
  case (Cons c cs)
  have "push_seq push nil_out app_out s (c # cs) = (Inr z, s2) \<longleftrightarrow>
      (\<exists>x s1 y. push s c = (Inr x, s1) \<and> push_seq push nil_out app_out s1 cs = (Inr y, s2) \<and> z = app_out x y)"
    by (auto split: prod.splits sum.splits)
  also have "\<dots> \<longleftrightarrow>
      (\<exists>x s1 y. push s c = (Inr x, s1) \<and> push s1 (concat cs) = (Inr y, s2) \<and> z = app_out x y)"
    using Cons.IH inv_push [OF Cons.prems] by blast
  also have "\<dots> \<longleftrightarrow> push s (concat (c # cs)) = (Inr z, s2)"
    using push_append [OF Cons.prems] by simp
  finally show ?case .
qed

lemma push_seq_same_text:
  assumes "inv s" and "concat cs = concat ds"
  shows "push_seq push nil_out app_out s cs = (Inr z, s2) \<longleftrightarrow> push_seq push nil_out app_out s ds = (Inr z, s2)"
  using assms by (simp add: push_seq_concat)

end

section \<open>Text parsers\<close>

text \<open>
  \<^verbatim>\<open>StreamTextParser\<close>: \<^verbatim>\<open>push_str\<close> returns what it emits and leaves a state; \<^verbatim>\<open>finish\<close> flushes.
\<close>

fun stream_all ::
  "('s \<Rightarrow> rstr \<Rightarrow> 'o \<times> 's) \<Rightarrow> 'o \<Rightarrow> ('o \<Rightarrow> 'o \<Rightarrow> 'o) \<Rightarrow> 's \<Rightarrow> rstr list \<Rightarrow> 'o \<times> 's" where
  "stream_all push nil_out app_out s [] = (nil_out, s)"
| "stream_all push nil_out app_out s (c # cs) =
     (let (x, s1) = push s c; (y, s2) = stream_all push nil_out app_out s1 cs in (app_out x y, s2))"

locale text_stream =
  fixes inv :: "'s \<Rightarrow> bool"
    and push_str :: "'s \<Rightarrow> rstr \<Rightarrow> 'o \<times> 's"
    and nil_out :: 'o
    and app_out :: "'o \<Rightarrow> 'o \<Rightarrow> 'o"
  assumes push_str_Nil: "inv s \<Longrightarrow> push_str s [] = (nil_out, s)"
    and push_str_append: "inv s \<Longrightarrow> push_str s (a @ b) =
      (let (x, s1) = push_str s a; (y, s2) = push_str s1 b in (app_out x y, s2))"
    and inv_push_str: "inv s \<Longrightarrow> inv (snd (push_str s a))"
begin

text \<open>An infallible parser is a fallible one that never fails.\<close>

lemma chunked: "chunked_parser inv (\<lambda>s a. apfst Inr (push_str s a)) nil_out app_out"
proof
  fix s a b z s2
  assume "inv s"
  then show "(apfst Inr (push_str s (a @ b)) = (Inr z, s2)) =
      (\<exists>x s1 y. apfst Inr (push_str s a) = (Inr x, s1) \<and>
                apfst Inr (push_str s1 b) = (Inr y, s2) \<and> z = app_out x y)"
    by (auto simp: push_str_append split: prod.splits)
next
  fix s a x s1
  assume "inv s" and "apfst Inr (push_str s a) = (Inr x, s1)"
  then show "inv s1" using inv_push_str [of s a] by (cases "push_str s a") auto
qed (simp add: push_str_Nil)

lemma stream_all_concat: "inv s \<Longrightarrow> stream_all push_str nil_out app_out s cs = push_str s (concat cs)"
proof (induction cs arbitrary: s)
  case (Cons c cs)
  then show ?case
    using inv_push_str [OF Cons.prems, of c]
    by (auto simp: push_str_append split: prod.splits)
qed (simp add: push_str_Nil)

end

sublocale text_stream \<subseteq> chunk: chunked_parser inv "\<lambda>s a. apfst Inr (push_str s a)" nil_out app_out
  by (rule chunked)

end
