(* ===== verification/Streaming_Grammar.thy ===== *)
theory Streaming_Grammar
  imports Patch_Grammar Streaming_Patch Stream_Interface
begin

text \<open>
  The streaming patch parser: independence of the chunking, as an instance of
  \<open>chunked_parser\<close>, and agreement with the batch parser of \<^verbatim>\<open>parser.rs\<close> on the patches the
  grammar renders, where context headers and move targets do not end in white space.
\<close>

section \<open>Chunking\<close>

lemma push_chars_append:
  "push_chars s (a @ b) =
     (case push_chars s a of (Inl e, s') \<Rightarrow> (Inl e, s') | (Inr _, s') \<Rightarrow> push_chars s' b)"
  by (induction a arbitrary: s) (auto split: prod.splits sum.splits)

interpretation patch_stream: chunked_parser "\<lambda>_. True" push_chars "()" "\<lambda>_ _. ()"
proof
  fix s a b z s2
  show "(push_chars s (a @ b) = (Inr z, s2)) =
      (\<exists>x s1 y. push_chars s a = (Inr x, s1) \<and> push_chars s1 b = (Inr y, s2) \<and> z = ())"
    by (auto simp: push_chars_append split: prod.splits sum.splits)
qed simp_all

section \<open>Lines\<close>

text \<open>Processing whole lines, as pushing their characters and a newline does.\<close>

fun process_lines :: "streaming_parser \<Rightarrow> rstr list \<Rightarrow> unit sp_result" where
  "process_lines s [] = (Inr (), s)"
| "process_lines s (l # ls) =
     (case process_line (s\<lparr>line_buffer := [], line_number := line_number s + 1\<rparr>) l of
        (Inl e, s') \<Rightarrow> (Inl e, s')
      | (Inr _, s') \<Rightarrow> process_lines s' ls)"

lemma process_lines_append:
  "process_lines s (a @ b) =
     (case process_lines s a of (Inl e, s') \<Rightarrow> (Inl e, s') | (Inr _, s') \<Rightarrow> process_lines s' b)"
  by (induction a arbitrary: s) (auto split: prod.splits sum.splits)

lemma push_chars_buffer:
  "NL \<notin> set l \<Longrightarrow> push_chars s l = (Inr (), s\<lparr>line_buffer := line_buffer s @ l\<rparr>)"
  by (induction l arbitrary: s) (auto simp: push_char_def)

lemma strip_cr_plain: "plain_line l \<Longrightarrow> strip_cr l = l"
  by (simp add: strip_cr_def plain_line_def strip_suffix_single_None)

lemma push_chars_line:
  assumes "plain_line l" and "line_buffer s = []"
  shows "push_chars s (l @ NL # t) =
    (case process_line (s\<lparr>line_buffer := [], line_number := line_number s + 1\<rparr>) l of
       (Inl e, s') \<Rightarrow> (Inl e, s') | (Inr _, s') \<Rightarrow> push_chars s' t)"
proof -
  have "NL \<notin> set l" using assms(1) by (simp add: plain_line_def)
  then show ?thesis
    using assms by (simp add: push_chars_append push_chars_buffer push_char_def strip_cr_plain)
qed

text \<open>The buffer is empty after a processed line: no operation but \<open>push_char\<close> fills it.\<close>

lemma line_buffer_frame:
  "line_buffer (snd (start_hunk s t hs m)) = line_buffer s"
  "line_buffer (snd (handle_hunk_headers_and_end_patch s t)) = line_buffer s"
  "line_buffer (set_last_hunk s h) = line_buffer s"
  by (auto simp: start_hunk_def handle_hunk_headers_and_end_patch_def set_last_hunk_def
      split: sum.splits option.splits)

lemma update_line_step_frame:
  "update_line_step s line path mv cs = Some r \<Longrightarrow> line_buffer (snd r) = line_buffer s"
  by (auto simp: update_line_step_def Let_def line_buffer_frame split: if_splits option.splits)

lemma process_line_buffer: "line_buffer (snd (process_line s line)) = line_buffer s"
proof -
  have h: "handle_hunk_headers_and_end_patch s t = (r, s') \<Longrightarrow> line_buffer s' = line_buffer s" for t r s'
    using line_buffer_frame(2) [of s t] by simp
  show ?thesis
    by (cases "sp_mode s")
      (auto simp: process_line_def process_line_started_def process_line_add_def
        process_line_update_def bad_header_def line_buffer_frame
        split: prod.splits sum.splits bool.splits option.splits list.splits hunk.splits
        dest!: h update_line_step_frame)
qed

lemma push_chars_lines:
  assumes "\<forall>l\<in>set ls. plain_line l" and "NL \<notin> set final" and "line_buffer s = []"
  shows "push_chars s (str_join [NL] (ls @ [final])) =
    (case process_lines s ls of
       (Inl e, s') \<Rightarrow> (Inl e, s') | (Inr _, s') \<Rightarrow> (Inr (), s'\<lparr>line_buffer := final\<rparr>))"
  using assms
proof (induction ls arbitrary: s)
  case Nil
  then show ?case by (simp add: push_chars_buffer)
next
  case (Cons l ls)
  let ?s = "s\<lparr>line_buffer := [], line_number := line_number s + 1\<rparr>"
  obtain r s' where r: "process_line ?s l = (r, s')" by fastforce
  have "line_buffer s' = []" using process_line_buffer [of ?s l] r by simp
  moreover have "push_chars s (str_join [NL] ((l # ls) @ [final])) =
      (case process_line ?s l of
         (Inl e, s') \<Rightarrow> (Inl e, s') | (Inr _, s') \<Rightarrow> push_chars s' (str_join [NL] (ls @ [final])))"
    using Cons.prems push_chars_line [of l s] by (simp add: str_join_Cons)
  ultimately show ?case
    using Cons r by (simp split: sum.splits)
qed

section \<open>The parser on rendered hunks\<close>

text \<open>States in which the next line may start a hunk or end the patch.\<close>

definition sp_ready :: "streaming_parser \<Rightarrow> bool" where
  "sp_ready s \<longleftrightarrow> sp_mode s \<noteq> NotStarted \<and> sp_mode s \<noteq> EndedPatch \<and>
     (sp_hunks s = [] \<or>
      (case last (sp_hunks s) of
         UpdateFile _ _ cs \<Rightarrow> cs \<noteq> [] \<and> \<not> chunk_is_empty (last cs) | _ \<Rightarrow> True))"

lemma ensure_ready: "sp_ready s \<Longrightarrow> ensure_update_hunk_is_not_empty s line = Inr ()"
  by (auto simp: sp_ready_def ensure_update_hunk_is_not_empty_def last_is_def
      split: hunk.splits streaming_mode.splits bool.splits)

lemma start_hunk_ready:
  "sp_ready s \<Longrightarrow> start_hunk s t hs m = (Inr True, s\<lparr>sp_hunks := sp_hunks s @ hs, sp_mode := m\<rparr>)"
  by (simp add: start_hunk_def ensure_ready)

lemma handle_other: "t = [] \<or> hd t \<noteq> 42 \<Longrightarrow> handle_hunk_headers_and_end_patch s t = (Inr False, s)"
  by (cases t) (auto simp: handle_hunk_headers_and_end_patch_def marker_defs)

lemma handle_headers:
  assumes "sp_ready s" 
  shows "handle_hunk_headers_and_end_patch s (ADD_FILE_MARKER @ p) =
      (Inr True, s\<lparr>sp_hunks := sp_hunks s @ [AddFile p []], sp_mode := InAddFile\<rparr>)"
    "handle_hunk_headers_and_end_patch s (DELETE_FILE_MARKER @ p) =
      (Inr True, s\<lparr>sp_hunks := sp_hunks s @ [DeleteFile p], sp_mode := InDeleteFile\<rparr>)"
    "handle_hunk_headers_and_end_patch s (UPDATE_FILE_MARKER @ p) =
      (Inr True, s\<lparr>sp_hunks := sp_hunks s @ [UpdateFile p None []],
                   sp_mode := InUpdateFile (line_number s)\<rparr>)"
proof -
  have "ADD_FILE_MARKER @ p \<noteq> END_PATCH_MARKER" "DELETE_FILE_MARKER @ p \<noteq> END_PATCH_MARKER"
    "UPDATE_FILE_MARKER @ p \<noteq> END_PATCH_MARKER" by (simp_all add: marker_defs)
  then show "handle_hunk_headers_and_end_patch s (ADD_FILE_MARKER @ p) =
      (Inr True, s\<lparr>sp_hunks := sp_hunks s @ [AddFile p []], sp_mode := InAddFile\<rparr>)"
    "handle_hunk_headers_and_end_patch s (DELETE_FILE_MARKER @ p) =
      (Inr True, s\<lparr>sp_hunks := sp_hunks s @ [DeleteFile p], sp_mode := InDeleteFile\<rparr>)"
    "handle_hunk_headers_and_end_patch s (UPDATE_FILE_MARKER @ p) =
      (Inr True, s\<lparr>sp_hunks := sp_hunks s @ [UpdateFile p None []],
                   sp_mode := InUpdateFile (line_number s)\<rparr>)"
    using assms by (simp_all add: handle_hunk_headers_and_end_patch_def start_hunk_ready strip_header_other)
qed

lemma process_line_header:
  assumes "sp_ready s" and "trim l = l" and "trim_end l = l"
    and "handle_hunk_headers_and_end_patch s l = (Inr True, s')"
  shows "process_line s l = (Inr (), s')"
  using assms
  by (cases "sp_mode s")
    (auto simp: process_line_def process_line_started_def process_line_add_def
      process_line_update_def sp_ready_def)

lemma trim_end_header:
  assumes "wf_path p"
  shows "trim_end (ADD_FILE_MARKER @ p) = ADD_FILE_MARKER @ p"
    "trim_end (DELETE_FILE_MARKER @ p) = DELETE_FILE_MARKER @ p"
    "trim_end (UPDATE_FILE_MARKER @ p) = UPDATE_FILE_MARKER @ p"
    "trim_end (MOVE_TO_MARKER @ p) = MOVE_TO_MARKER @ p"
    "trim_end (CHANGE_CONTEXT_MARKER @ p) = CHANGE_CONTEXT_MARKER @ p"
  using assms by (auto intro!: trim_end_ident simp: wf_path_def)

subsection \<open>Added files\<close>

lemma trim_plus_hd: "trim (43 # l) = [] \<or> hd (trim (43 # l)) \<noteq> 42"
  using trim_end_hd [of "43 # l"] by (cases "trim_end (43 # l) = []") (simp_all add: trim_def trim_start_def)

lemma process_line_plus:
  assumes "sp_mode s = InAddFile" and "sp_hunks s = hs @ [AddFile p c]"
  shows "process_line s (43 # l) = (Inr (), s\<lparr>sp_hunks := hs @ [AddFile p (c @ l @ [NL])]\<rparr>)"
  using assms handle_other [OF trim_plus_hd]
  by (cases hs) (auto simp: process_line_def process_line_add_def set_last_hunk_def)

lemma process_lines_plus:
  assumes "sp_mode s = InAddFile" and "sp_hunks s = hs @ [AddFile p c]"
  shows "\<exists>s'. process_lines s (map (\<lambda>l. 43 # l) ls) = (Inr (), s') \<and> sp_mode s' = InAddFile \<and>
    sp_hunks s' = hs @ [AddFile p (c @ concat (map (\<lambda>l. l @ [NL]) ls))]"
  using assms
proof (induction ls arbitrary: s c)
  case (Cons l ls)
  let ?s = "s\<lparr>line_buffer := [], line_number := line_number s + 1\<rparr>"
  have "process_line ?s (43 # l) = (Inr (), ?s\<lparr>sp_hunks := hs @ [AddFile p (c @ l @ [NL])]\<rparr>)"
    using Cons.prems by (intro process_line_plus) auto
  then show ?case
    using Cons.IH [of "?s\<lparr>sp_hunks := hs @ [AddFile p (c @ l @ [NL])]\<rparr>" "c @ l @ [NL]"] Cons.prems
    by simp
qed simp

subsection \<open>Updates\<close>

definition in_update ::
  "streaming_parser \<Rightarrow> hunk list \<Rightarrow> rstr \<Rightarrow> rstr option \<Rightarrow> update_file_chunk list \<Rightarrow> bool" where
  "in_update s hs p mv cs \<longleftrightarrow>
     (\<exists>n. sp_mode s = InUpdateFile n) \<and> sp_hunks s = hs @ [UpdateFile p mv cs]"

lemma in_update_simps [simp]:
  "in_update (s\<lparr>line_buffer := b, line_number := k\<rparr>) hs p mv cs = in_update s hs p mv cs"
  by (simp add: in_update_def)

lemma process_line_in_update:
  assumes "in_update s hs p mv cs" and "trim_end l = [] \<or> hd (trim_end l) \<noteq> 42 \<or>
      handle_hunk_headers_and_end_patch s (trim_end l) = (Inr False, s)"
    and "update_line_step s l p mv cs = Some (Inr (), set_last_hunk s (UpdateFile p mv' cs'))"
  shows "\<exists>s'. process_line s l = (Inr (), s') \<and> in_update s' hs p mv' cs'"
proof -
  have "handle_hunk_headers_and_end_patch s (trim_end l) = (Inr False, s)"
    using assms(2) handle_other by blast
  then show ?thesis
    using assms(1,3)
    by (auto simp: process_line_def process_line_update_def in_update_def set_last_hunk_def)
qed

lemma trim_end_change:
  assumes "t = trim_end (change_text l)"
  shows "t = [] \<or> hd t \<noteq> 42" and "strip_prefix MOVE_TO_MARKER t = None"
    and "t \<noteq> EMPTY_CHANGE_CONTEXT_MARKER" and "strip_prefix CHANGE_CONTEXT_MARKER t = None"
    and "t \<noteq> EOF_MARKER"
proof -
  have t: "t = [] \<or> hd t = SPC \<or> hd t = 43 \<or> hd t = 45"
    using trim_end_hd [of "change_text l"] assms by (cases "t = []"; cases l) simp_all
  show "t = [] \<or> hd t \<noteq> 42" using t by auto
  show "strip_prefix MOVE_TO_MARKER t = None" using t by (cases t) (auto simp: marker_defs)
  show "t \<noteq> EMPTY_CHANGE_CONTEXT_MARKER" using t by (auto simp: marker_defs)
  show "strip_prefix CHANGE_CONTEXT_MARKER t = None" using t by (cases t) (auto simp: marker_defs)
  show "t \<noteq> EOF_MARKER" using t by (auto simp: marker_defs)
qed

lemma process_line_change:
  assumes "in_update s hs p mv cs"
  shows "\<exists>s'. process_line s (change_text l) = (Inr (), s') \<and>
    in_update s' hs p mv (push_to_last_chunk cs (old_of l) (new_of l))"
proof (rule process_line_in_update [OF assms])
  note t = trim_end_change [OF refl, of l]
  show "trim_end (change_text l) = [] \<or> hd (trim_end (change_text l)) \<noteq> 42 \<or>
      handle_hunk_headers_and_end_patch s (trim_end (change_text l)) = (Inr False, s)"
    using t(1) by blast
  show "update_line_step s (change_text l) p mv cs =
      Some (Inr (), set_last_hunk s (UpdateFile p mv (push_to_last_chunk cs (old_of l) (new_of l))))"
    using t(2-5) by (cases l) (simp_all add: update_line_step_def Let_def starts_with_def)
qed

lemma process_line_empty_header:
  assumes "in_update s hs p mv cs" and "\<not> last_is chunk_is_empty cs"
  shows "\<exists>s'. process_line s EMPTY_CHANGE_CONTEXT_MARKER = (Inr (), s') \<and>
    in_update s' hs p mv (cs @ [new_chunk None])"
proof (rule process_line_in_update [OF assms(1)])
  have t: "trim_end EMPTY_CHANGE_CONTEXT_MARKER = EMPTY_CHANGE_CONTEXT_MARKER"
    by (rule trim_end_ident) (simp add: EMPTY_CONTEXT_hd)
  show "trim_end EMPTY_CHANGE_CONTEXT_MARKER = [] \<or> hd (trim_end EMPTY_CHANGE_CONTEXT_MARKER) \<noteq> 42 \<or>
      handle_hunk_headers_and_end_patch s (trim_end EMPTY_CHANGE_CONTEXT_MARKER) = (Inr False, s)"
    unfolding t by (simp add: EMPTY_CONTEXT_hd)
  have "strip_prefix MOVE_TO_MARKER EMPTY_CHANGE_CONTEXT_MARKER = None"
    by (simp add: marker_defs)
  then show "update_line_step s EMPTY_CHANGE_CONTEXT_MARKER p mv cs =
      Some (Inr (), set_last_hunk s (UpdateFile p mv (cs @ [new_chunk None])))"
    using assms(2) t by (simp add: update_line_step_def Let_def)
qed

lemma process_line_header_context:
  assumes "in_update s hs p mv cs" and "\<not> last_is chunk_is_empty cs" and "wf_path ctx"
  shows "\<exists>s'. process_line s (CHANGE_CONTEXT_MARKER @ ctx) = (Inr (), s') \<and>
    in_update s' hs p mv (cs @ [new_chunk (Some ctx)])"
proof (rule process_line_in_update [OF assms(1)])
  note t = trim_end_header(5) [OF assms(3)]
  show "trim_end (CHANGE_CONTEXT_MARKER @ ctx) = [] \<or> hd (trim_end (CHANGE_CONTEXT_MARKER @ ctx)) \<noteq> 42 \<or>
      handle_hunk_headers_and_end_patch s (trim_end (CHANGE_CONTEXT_MARKER @ ctx)) = (Inr False, s)"
    unfolding t by (simp add: CONTEXT_hd)
  have "strip_prefix MOVE_TO_MARKER (CHANGE_CONTEXT_MARKER @ ctx) = None"
    "CHANGE_CONTEXT_MARKER @ ctx \<noteq> EMPTY_CHANGE_CONTEXT_MARKER"
    by (simp_all add: marker_defs)
  then show "update_line_step s (CHANGE_CONTEXT_MARKER @ ctx) p mv cs =
      Some (Inr (), set_last_hunk s (UpdateFile p mv (cs @ [new_chunk (Some ctx)])))"
    using assms(2) t by (simp add: update_line_step_def Let_def)
qed

lemma process_line_eof:
  assumes "in_update s hs p mv (ds @ [d])" and "\<not> chunk_is_empty d"
  shows "\<exists>s'. process_line s EOF_MARKER = (Inr (), s') \<and>
    in_update s' hs p mv (ds @ [d\<lparr>is_end_of_file := True\<rparr>])"
proof (rule process_line_in_update [OF assms(1)])
  have t: "trim_end EOF_MARKER = EOF_MARKER"
    by (rule trim_end_ident) (simp add: EOF_MARKER_def is_whitespace_def)
  show "trim_end EOF_MARKER = [] \<or> hd (trim_end EOF_MARKER) \<noteq> 42 \<or>
      handle_hunk_headers_and_end_patch s (trim_end EOF_MARKER) = (Inr False, s)"
    unfolding t by (simp add: handle_hunk_headers_and_end_patch_def marker_defs)
  have "strip_prefix CHANGE_CONTEXT_MARKER EOF_MARKER = None"
    "EOF_MARKER \<noteq> EMPTY_CHANGE_CONTEXT_MARKER"
    by (simp_all add: marker_defs)
  then show "update_line_step s EOF_MARKER p mv (ds @ [d]) =
      Some (Inr (), set_last_hunk s (UpdateFile p mv (ds @ [d\<lparr>is_end_of_file := True\<rparr>])))"
    using assms(2) t by (simp add: update_line_step_def Let_def last_is_def starts_with_def)
qed

lemma process_line_move:
  assumes "in_update s hs p None []" and "wf_path d"
  shows "\<exists>s'. process_line s (MOVE_TO_MARKER @ d) = (Inr (), s') \<and> in_update s' hs p (Some d) []"
proof (rule process_line_in_update [OF assms(1)])
  note t = trim_end_header(4) [OF assms(2)]
  show "trim_end (MOVE_TO_MARKER @ d) = [] \<or> hd (trim_end (MOVE_TO_MARKER @ d)) \<noteq> 42 \<or>
      handle_hunk_headers_and_end_patch s (trim_end (MOVE_TO_MARKER @ d)) = (Inr False, s)"
    unfolding t by (simp add: handle_hunk_headers_and_end_patch_def marker_defs)
  show "update_line_step s (MOVE_TO_MARKER @ d) p None [] =
      Some (Inr (), set_last_hunk s (UpdateFile p (Some d) []))"
    using t by (simp add: update_line_step_def Let_def)
qed

text \<open>One line after another: the state after the first line runs the rest.\<close>

lemma process_lines_step:
  assumes "\<exists>s1. process_line (s\<lparr>line_buffer := [], line_number := line_number s + 1\<rparr>) l = (Inr (), s1) \<and> P s1"
    and "\<And>s1. P s1 \<Longrightarrow> \<exists>s2. process_lines s1 ls = (Inr (), s2) \<and> Q s2"
  shows "\<exists>s2. process_lines s (l # ls) = (Inr (), s2) \<and> Q s2"
  using assms by fastforce

lemma process_lines_chain:
  assumes "\<exists>s1. process_lines s a = (Inr (), s1) \<and> P s1"
    and "\<And>s1. P s1 \<Longrightarrow> \<exists>s2. process_lines s1 b = (Inr (), s2) \<and> Q s2"
  shows "\<exists>s2. process_lines s (a @ b) = (Inr (), s2) \<and> Q s2"
  using assms by (fastforce simp: process_lines_append)

definition add_changes :: "update_file_chunk \<Rightarrow> change_line list \<Rightarrow> update_file_chunk" where
  "add_changes d ls = d\<lparr>old_lines := old_lines d @ concat (map old_of ls),
                        new_lines := new_lines d @ concat (map new_of ls)\<rparr>"

lemma push_to_last_chunk_snoc:
  "push_to_last_chunk (ds @ [d]) (old_of l) (new_of l) = ds @ [add_changes d [l]]"
  by (simp add: push_to_last_chunk_def add_changes_def)

lemma push_to_last_chunk_Nil:
  "push_to_last_chunk [] (old_of l) (new_of l) = [add_changes (new_chunk None) [l]]"
  by (simp add: push_to_last_chunk_def add_changes_def Let_def)

lemma add_changes_Cons: "add_changes (add_changes d [l]) ls = add_changes d (l # ls)"
  by (simp add: add_changes_def)

lemma process_lines_changes:
  assumes "in_update s hs p mv (ds @ [d])"
  shows "\<exists>s'. process_lines s (map change_text ls) = (Inr (), s') \<and>
    in_update s' hs p mv (ds @ [add_changes d ls])"
  using assms
proof (induction ls arbitrary: s d)
  case Nil
  then show ?case by (simp add: add_changes_def)
next
  case (Cons l ls)
  have "\<exists>s1. process_line (s\<lparr>line_buffer := [], line_number := line_number s + 1\<rparr>) (change_text l) =
      (Inr (), s1) \<and> in_update s1 hs p mv (ds @ [add_changes d [l]])"
    using process_line_change [of "s\<lparr>line_buffer := [], line_number := line_number s + 1\<rparr>"] Cons.prems
    by (simp add: push_to_last_chunk_snoc [symmetric])
  then show ?case
    unfolding list.map
    by (rule process_lines_step) (use Cons.IH add_changes_Cons in metis)
qed

text \<open>The streaming parser trims the ends of context headers and move targets.\<close>

definition wf_stream_chunk :: "patch_chunk \<Rightarrow> bool" where
  "wf_stream_chunk c \<longleftrightarrow> wf_chunk c \<and> (case pc_start c of Header ctx \<Rightarrow> wf_path ctx | _ \<Rightarrow> True)"

fun wf_stream_hunk :: "patch_hunk \<Rightarrow> bool" where
  "wf_stream_hunk (PUpdate p mv cs) \<longleftrightarrow> wf_hunk (PUpdate p mv cs) \<and>
     (case mv of None \<Rightarrow> True | Some d \<Rightarrow> wf_path d) \<and> (\<forall>c\<in>set cs. wf_stream_chunk c)"
| "wf_stream_hunk h \<longleftrightarrow> wf_hunk h"

lemma process_lines_start:
  assumes "wf_stream_chunk c" and "in_update s hs p mv cs" and "\<not> last_is chunk_is_empty cs"
    and "pc_start c \<noteq> NoHeader"
  shows "\<exists>s'. process_lines s (start_text (pc_start c)) = (Inr (), s') \<and>
    in_update s' hs p mv (cs @ [new_chunk (start_context (pc_start c))])"
proof (cases "pc_start c")
  case EmptyHeader
  have "\<exists>s1. process_line (s\<lparr>line_buffer := [], line_number := line_number s + 1\<rparr>)
      EMPTY_CHANGE_CONTEXT_MARKER = (Inr (), s1) \<and> in_update s1 hs p mv (cs @ [new_chunk None])"
    using assms by (intro process_line_empty_header) auto
  then show ?thesis using EmptyHeader by fastforce
next
  case (Header ctx)
  then have "wf_path ctx" using assms(1) by (simp add: wf_stream_chunk_def)
  then have "\<exists>s1. process_line (s\<lparr>line_buffer := [], line_number := line_number s + 1\<rparr>)
      (CHANGE_CONTEXT_MARKER @ ctx) = (Inr (), s1) \<and> in_update s1 hs p mv (cs @ [new_chunk (Some ctx)])"
    using assms by (intro process_line_header_context) auto
  then show ?thesis using Header by fastforce
qed (use assms in simp)

lemma add_changes_nonempty: "ls \<noteq> [] \<Longrightarrow> \<not> chunk_is_empty (add_changes d ls)"
  by (cases ls; cases "hd ls") (auto simp: add_changes_def chunk_is_empty_def)

lemma process_lines_body:
  assumes "in_update s hs p mv (ds @ [d])" and "\<not> chunk_is_empty (add_changes d ls)"
    and "\<not> is_end_of_file d"
  shows "\<exists>s'. process_lines s (map change_text ls @ (if eof then [EOF_MARKER] else [])) = (Inr (), s') \<and>
    in_update s' hs p mv (ds @ [add_changes d ls\<lparr>is_end_of_file := eof\<rparr>])"
proof (rule process_lines_chain [OF process_lines_changes [OF assms(1), of ls]])
  fix s1
  assume s1: "in_update s1 hs p mv (ds @ [add_changes d ls])"
  show "\<exists>s2. process_lines s1 (if eof then [EOF_MARKER] else []) = (Inr (), s2) \<and>
      in_update s2 hs p mv (ds @ [add_changes d ls\<lparr>is_end_of_file := eof\<rparr>])"
  proof (cases eof)
    case True
    have "\<exists>s2. process_line (s1\<lparr>line_buffer := [], line_number := line_number s1 + 1\<rparr>) EOF_MARKER =
        (Inr (), s2) \<and> in_update s2 hs p mv (ds @ [add_changes d ls\<lparr>is_end_of_file := True\<rparr>])"
      using s1 assms(2) by (intro process_line_eof) auto
    then show ?thesis using True by fastforce
  next
    case False
    moreover have "add_changes d ls\<lparr>is_end_of_file := False\<rparr> = add_changes d ls"
      using assms(3) by (cases d) (simp add: add_changes_def)
    ultimately show ?thesis using s1 by simp
  qed
qed

lemma chunk_of_changes:
  "add_changes (new_chunk (start_context (pc_start c))) (pc_lines c)\<lparr>is_end_of_file := pc_eof c\<rparr> = chunk_of c"
  by (simp add: add_changes_def new_chunk_def chunk_of_def)

lemma chunk_of_nonempty: "wf_chunk c \<Longrightarrow> \<not> chunk_is_empty (chunk_of c)"
  unfolding chunk_of_changes [symmetric]
  using add_changes_nonempty [of "pc_lines c"] by (auto simp: wf_chunk_def chunk_is_empty_def)

lemma process_lines_chunk:
  assumes "wf_stream_chunk c" and "in_update s hs p mv cs" and "\<not> last_is chunk_is_empty cs"
    and "pc_start c = NoHeader \<Longrightarrow> cs = []"
  shows "\<exists>s'. process_lines s (chunk_text c) = (Inr (), s') \<and> in_update s' hs p mv (cs @ [chunk_of c])"
proof -
  have ne: "pc_lines c \<noteq> []" using assms(1) by (simp add: wf_stream_chunk_def wf_chunk_def)
  have body: "\<exists>s'. process_lines s1 (map change_text (pc_lines c) @ (if pc_eof c then [EOF_MARKER] else [])) =
      (Inr (), s') \<and> in_update s' hs p mv (cs @ [chunk_of c])"
    if "in_update s1 hs p mv (cs @ [new_chunk (start_context (pc_start c))])" for s1
    using process_lines_body [OF that add_changes_nonempty [OF ne], of "pc_eof c"]
    unfolding chunk_of_changes by (simp add: new_chunk_def)
  show ?thesis
  proof (cases "pc_start c = NoHeader")
    case False
    show ?thesis
      unfolding chunk_text_def
      by (rule process_lines_chain [OF process_lines_start [OF assms(1-3) False]]) (rule body)
  next
    case True
    then have cs: "cs = []" using assms(4) by simp
    obtain l ls where ls: "pc_lines c = l # ls" using ne by (cases "pc_lines c") auto
    have first: "\<exists>s1. process_line (s\<lparr>line_buffer := [], line_number := line_number s + 1\<rparr>) (change_text l) =
        (Inr (), s1) \<and> in_update s1 hs p mv [add_changes (new_chunk None) [l]]"
      using process_line_change [of "s\<lparr>line_buffer := [], line_number := line_number s + 1\<rparr>"] assms(2) cs
      by (simp add: push_to_last_chunk_Nil [symmetric])
    have rest: "\<exists>s2. process_lines s1 (map change_text ls @ (if pc_eof c then [EOF_MARKER] else [])) =
        (Inr (), s2) \<and> in_update s2 hs p mv [chunk_of c]"
      if "in_update s1 hs p mv [add_changes (new_chunk None) [l]]" for s1
      using process_lines_body [of s1 hs p mv "[]" "add_changes (new_chunk None) [l]" ls "pc_eof c"]
        that chunk_of_changes [of c] add_changes_nonempty [of "l # ls" "new_chunk None"] True ls
      by (simp only: add_changes_Cons append_Nil start_context.simps) (simp add: add_changes_def new_chunk_def)
    show ?thesis
      using process_lines_step [OF first rest] True cs ls by (simp add: chunk_text_def)
  qed
qed

lemma process_lines_chunks:
  assumes "\<forall>c\<in>set ds. wf_stream_chunk c" and "in_update s hs p mv cs" and "\<not> last_is chunk_is_empty cs"
    and "ds \<noteq> [] \<Longrightarrow> pc_start (hd ds) = NoHeader \<Longrightarrow> cs = []"
    and "\<forall>c\<in>set (tl ds). pc_start c \<noteq> NoHeader"
  shows "\<exists>s'. process_lines s (concat (map chunk_text ds)) = (Inr (), s') \<and>
    in_update s' hs p mv (cs @ map chunk_of ds)"
  using assms
proof (induction ds arbitrary: s cs)
  case (Cons c ds)
  have "\<exists>s'. process_lines s (chunk_text c) = (Inr (), s') \<and> in_update s' hs p mv (cs @ [chunk_of c])"
    using Cons.prems by (intro process_lines_chunk) auto
  moreover have "\<exists>s'. process_lines s1 (concat (map chunk_text ds)) = (Inr (), s') \<and>
      in_update s' hs p mv ((cs @ [chunk_of c]) @ map chunk_of ds)"
    if "in_update s1 hs p mv (cs @ [chunk_of c])" for s1
    using that Cons.prems chunk_of_nonempty [of c]
    by (intro Cons.IH) (cases ds; auto simp: last_is_def wf_stream_chunk_def)+
  ultimately show ?case
    using process_lines_chain by simp
qed simp

lemma in_update_ready:
  "in_update s hs p mv (map chunk_of cs) \<Longrightarrow> cs \<noteq> [] \<Longrightarrow> \<forall>c\<in>set cs. wf_chunk c \<Longrightarrow> sp_ready s"
  by (auto simp: in_update_def sp_ready_def last_map chunk_of_nonempty)

text \<open>A rendered hunk appends its meaning and leaves the parser ready for the next one.\<close>

lemma process_lines_update:
  assumes wf: "wf_stream_hunk (PUpdate p mv cs)" and ready: "sp_ready s"
  shows "\<exists>s'. process_lines s (hunk_text (PUpdate p mv cs)) = (Inr (), s') \<and> sp_ready s' \<and>
    sp_hunks s' = sp_hunks s @ [UpdateFile p mv (map chunk_of cs)]"
proof -
  have wfp: "wf_path p" and wfc: "\<forall>c\<in>set cs. wf_stream_chunk c" and cs: "wf_chunks cs"
    using wf by auto
  have header: "\<exists>s1. process_line (s\<lparr>line_buffer := [], line_number := line_number s + 1\<rparr>)
      (UPDATE_FILE_MARKER @ p) = (Inr (), s1) \<and> in_update s1 (sp_hunks s) p None []"
    using process_line_header [OF _ trim_header(3) [OF wfp] trim_end_header(3) [OF wfp] handle_headers(3)] ready
    by (fastforce simp: sp_ready_def in_update_def)
  have chunks: "\<exists>s'. process_lines s1 (concat (map chunk_text cs)) = (Inr (), s') \<and>
      in_update s' (sp_hunks s) p mv (map chunk_of cs)"
    if "in_update s1 (sp_hunks s) p mv []" for s1
    using process_lines_chunks [OF wfc that] cs by (cases cs) (auto simp: last_is_def)
  have body: "\<exists>s'. process_lines s1 ((case mv of None \<Rightarrow> [] | Some d \<Rightarrow> [MOVE_TO_MARKER @ d]) @
      concat (map chunk_text cs)) = (Inr (), s') \<and> in_update s' (sp_hunks s) p mv (map chunk_of cs)"
    if s1: "in_update s1 (sp_hunks s) p None []" for s1
  proof (cases mv)
    case None
    then show ?thesis using chunks s1 by simp
  next
    case (Some d)
    have "\<exists>s2. process_line (s1\<lparr>line_buffer := [], line_number := line_number s1 + 1\<rparr>) (MOVE_TO_MARKER @ d) =
        (Inr (), s2) \<and> in_update s2 (sp_hunks s) p (Some d) []"
      using s1 wf Some by (intro process_line_move) auto
    then show ?thesis
      using process_lines_step [OF _ chunks] Some by simp
  qed
  show ?thesis
    using process_lines_step [OF header body] in_update_ready wfc cs
    by (fastforce simp: wf_stream_chunk_def in_update_def)
qed

lemma process_lines_hunk:
  assumes "wf_stream_hunk h" and "sp_ready s"
  shows "\<exists>s'. process_lines s (hunk_text h) = (Inr (), s') \<and> sp_ready s' \<and>
    sp_hunks s' = sp_hunks s @ [hunk_of h]"
proof -
  let ?s = "s\<lparr>line_buffer := [], line_number := line_number s + 1\<rparr>"
  have r: "sp_ready ?s" using assms(2) by (simp add: sp_ready_def)
  show ?thesis
  proof (cases h)
    case (PAdd p ls)
    then have p: "wf_path p" using assms by simp
    have "\<exists>s1. process_line ?s (ADD_FILE_MARKER @ p) = (Inr (), s1) \<and> sp_mode s1 = InAddFile \<and>
        sp_hunks s1 = sp_hunks s @ [AddFile p []]"
      using process_line_header [OF r trim_header(1) [OF p] trim_end_header(1) [OF p] handle_headers(1) [OF r]]
      by simp
    then show ?thesis
      unfolding PAdd hunk_text.simps hunk_of.simps
    proof (rule process_lines_step)
      fix s1 :: streaming_parser
      assume "sp_mode s1 = InAddFile \<and> sp_hunks s1 = sp_hunks s @ [AddFile p []]"
      then show "\<exists>s'. process_lines s1 (map (\<lambda>l. 43 # l) ls) = (Inr (), s') \<and> sp_ready s' \<and>
          sp_hunks s' = sp_hunks s @ [AddFile p (concat (map (\<lambda>l. l @ [NL]) ls))]"
        using process_lines_plus [of s1 "sp_hunks s" p "[]" ls] by (auto simp: sp_ready_def)
    qed
  next
    case (PDelete p)
    then have p: "wf_path p" using assms by simp
    show ?thesis
      using process_line_header [OF r trim_header(2) [OF p] trim_end_header(2) [OF p] handle_headers(2) [OF r]]
        PDelete by (simp add: sp_ready_def)
  next
    case (PUpdate p mv cs)
    then show ?thesis using process_lines_update assms by simp
  qed
qed

lemma process_lines_hunks:
  assumes "\<forall>h\<in>set ps. wf_stream_hunk h" and "sp_ready s"
  shows "\<exists>s'. process_lines s (concat (map hunk_text ps)) = (Inr (), s') \<and> sp_ready s' \<and>
    sp_hunks s' = sp_hunks s @ map hunk_of ps"
  using assms
proof (induction ps arbitrary: s)
  case (Cons h ps)
  have "\<exists>s1. process_lines s (hunk_text h) = (Inr (), s1) \<and> (sp_ready s1 \<and>
      sp_hunks s1 = sp_hunks s @ [hunk_of h])"
    using Cons.prems process_lines_hunk by simp
  then show ?case
    unfolding list.map concat.simps
    by (rule process_lines_chain) (use Cons in \<open>fastforce\<close>)
qed simp

section \<open>The streaming parser on rendered patches\<close>

lemma process_lines_patch:
  assumes "\<forall>h\<in>set ps. wf_stream_hunk h"
  shows "\<exists>s'. process_lines sp_default (BEGIN_PATCH_MARKER # concat (map hunk_text ps)) = (Inr (), s') \<and>
    sp_ready s' \<and> sp_hunks s' = map hunk_of ps"
proof -
  have "trim BEGIN_PATCH_MARKER = BEGIN_PATCH_MARKER"
    by (rule trim_ident) (simp add: BEGIN_PATCH_MARKER_def)
  then have "\<exists>s1. process_line (sp_default\<lparr>line_buffer := [], line_number := line_number sp_default + 1\<rparr>)
      BEGIN_PATCH_MARKER = (Inr (), s1) \<and> (sp_ready s1 \<and> sp_hunks s1 = [])"
    by (simp add: sp_default_def process_line_def sp_ready_def)
  then show ?thesis
    by (rule process_lines_step) (use process_lines_hunks [OF assms] in fastforce)
qed

lemma wf_stream_hunk_wf: "wf_stream_hunk h \<Longrightarrow> wf_hunk h"
  by (cases h) auto

lemma push_chars_patch_text:
  assumes "\<forall>h\<in>set ps. wf_stream_hunk h"
  shows "\<exists>s'. push_chars sp_default (patch_text ps) = (Inr (), s') \<and> sp_ready s' \<and>
    sp_hunks s' = map hunk_of ps \<and> line_buffer s' = END_PATCH_MARKER"
proof -
  obtain s1 where s1: "process_lines sp_default (BEGIN_PATCH_MARKER # concat (map hunk_text ps)) = (Inr (), s1)"
      "sp_ready s1" "sp_hunks s1 = map hunk_of ps"
    using process_lines_patch [OF assms] by blast
  have plain: "\<forall>l\<in>set (BEGIN_PATCH_MARKER # concat (map hunk_text ps)). plain_line l"
    using assms plain_hunk_text wf_stream_hunk_wf by (auto simp: plain_markers)
  have "NL \<notin> set END_PATCH_MARKER" by (simp add: END_PATCH_MARKER_def)
  from push_chars_lines [OF plain this, of sp_default] s1
  have "push_chars sp_default (patch_text ps) = (Inr (), s1\<lparr>line_buffer := END_PATCH_MARKER\<rparr>)"
    by (simp add: patch_text_def patch_lines_def sp_default_def)
  then show ?thesis using s1 by (auto simp: sp_ready_def)
qed

lemma sp_finish_end_marker:
  assumes "sp_ready s" and "line_buffer s = END_PATCH_MARKER"
  shows "fst (sp_finish s) = Inr (sp_hunks s)"
proof -
  have "trim END_PATCH_MARKER = END_PATCH_MARKER"
    by (rule trim_ident) (simp add: END_PATCH_MARKER_def)
  moreover have "END_PATCH_MARKER \<noteq> []" by (simp add: END_PATCH_MARKER_def)
  moreover have "sp_ready (s\<lparr>line_buffer := [], line_number := Suc (line_number s)\<rparr>)"
    using assms(1) by (simp add: sp_ready_def)
  ultimately show ?thesis
    using assms by (simp add: sp_finish_def Let_def ensure_ready)
qed

text \<open>Feeding deltas one after the other and finishing: what a client of the parser sees.\<close>

fun push_deltas :: "streaming_parser \<Rightarrow> rstr list \<Rightarrow> unit sp_result" where
  "push_deltas s [] = (Inr (), s)"
| "push_deltas s (d # ds) =
     (case push_delta s d of (Inl e, s') \<Rightarrow> (Inl e, s') | (Inr _, s') \<Rightarrow> push_deltas s' ds)"

definition stream_patch :: "rstr list \<Rightarrow> (hunk list, parse_error) result" where
  "stream_patch deltas =
     (case push_deltas sp_default deltas of (Inl e, s) \<Rightarrow> Inl e | (Inr _, s) \<Rightarrow> fst (sp_finish s))"

lemma push_deltas_seq:
  "push_deltas s ds = push_seq push_chars () (\<lambda>_ _. ()) s ds"
  by (induction ds arbitrary: s) (auto simp: push_delta_def split: prod.splits sum.splits)

lemma push_deltas_concat: "push_deltas s ds = (Inr (), s') \<longleftrightarrow> push_chars s (concat ds) = (Inr (), s')"
  unfolding push_deltas_seq by (rule patch_stream.push_seq_concat) simp

lemma stream_patch_rendered:
  assumes "\<forall>h\<in>set ps. wf_stream_hunk h" and "concat deltas = patch_text ps"
  shows "stream_patch deltas = Inr (map hunk_of ps)"
proof -
  obtain s where s: "push_chars sp_default (patch_text ps) = (Inr (), s)" "sp_ready s"
      "sp_hunks s = map hunk_of ps" "line_buffer s = END_PATCH_MARKER"
    using push_chars_patch_text [OF assms(1)] by blast
  then have "push_deltas sp_default deltas = (Inr (), s)"
    using assms(2) by (simp add: push_deltas_concat)
  then show ?thesis
    using s sp_finish_end_marker by (simp add: stream_patch_def)
qed

section \<open>Properties\<close>

lemma example_patch_stream_wf: "\<forall>h\<in>set example_patch. wf_stream_hunk h"
  using example_patch_wf
  by (simp add: example_patch_def wf_stream_chunk_def wf_path_def wf_chunk_def plain_line_def
      is_whitespace_def)

text \<open>
  C20 (equivalence): on every patch of the format whose context headers and move targets do not end in white
  space and are not blank, the streaming parser, fed any split of the text into deltas, ends with the hunks that the batch
  parser returns for the whole text. With such white space the two differ (\<open>stream_trims_context\<close>).
\<close>

theorem stream_patch_agrees_with_batch:
  assumes "\<forall>h\<in>set ps. wf_stream_hunk h" and "concat deltas = patch_text ps"
  shows "stream_patch deltas = map_sum id args_hunks (parse_patch (patch_text ps))"
proof -
  have "\<forall>h\<in>set ps. wf_hunk h" using assms(1) wf_stream_hunk_wf by blast
  then show ?thesis
    using stream_patch_rendered [OF assms] parse_patch_rendered by (simp add: parse_patch_def)
qed

theorem stream_patch_agrees_with_batch_witness:
  "stream_patch [take 20 (patch_text example_patch), drop 20 (patch_text example_patch)] =
   map_sum id args_hunks (parse_patch (patch_text example_patch))"
  by (rule stream_patch_agrees_with_batch [OF example_patch_stream_wf]) simp

text \<open>
  White space at the end of a context header: the batch parser keeps it, and will look for a line with it, the streaming parser
  drops it.
\<close>

definition spaced_hunk :: patch_hunk where
  "spaced_hunk = PUpdate (lit ''a'') None
     [\<lparr>pc_start = Header (lit ''foo ''), pc_lines = [Removed (lit ''x''), Added (lit ''y'')], pc_eof = False\<rparr>]"

lemma stream_trims_context:
  "in_update s hs p mv [] \<Longrightarrow> \<exists>s'. process_line s (CHANGE_CONTEXT_MARKER @ lit ''foo '') = (Inr (), s') \<and>
     in_update s' hs p mv [new_chunk (Some (lit ''foo''))]"
  "map_sum id args_hunks (parse_patch (patch_text [spaced_hunk])) =
     Inr [UpdateFile (lit ''a'') None [\<lparr>change_context = Some (lit ''foo ''), old_lines = [lit ''x''], new_lines = [lit ''y''], is_end_of_file = False\<rparr>]]"
proof -
  have "wf_hunk spaced_hunk"
    by (simp add: spaced_hunk_def wf_path_def wf_chunk_def plain_line_def is_whitespace_def)
  then have "\<forall>h\<in>set [spaced_hunk]. wf_hunk h" by simp
  from parse_patch_rendered [OF this]
  show "map_sum id args_hunks (parse_patch (patch_text [spaced_hunk])) =
     Inr [UpdateFile (lit ''a'') None [\<lparr>change_context = Some (lit ''foo ''), old_lines = [lit ''x''], new_lines = [lit ''y''], is_end_of_file = False\<rparr>]]"
    unfolding parse_patch_def by (simp add: spaced_hunk_def chunk_of_def)
next
  assume u: "in_update s hs p mv []"
  have t: "trim_end (CHANGE_CONTEXT_MARKER @ lit ''foo '') = CHANGE_CONTEXT_MARKER @ lit ''foo''"
    by (simp add: marker_defs trim_end_def is_whitespace_def)
  show "\<exists>s'. process_line s (CHANGE_CONTEXT_MARKER @ lit ''foo '') = (Inr (), s') \<and>
     in_update s' hs p mv [new_chunk (Some (lit ''foo''))]"
  proof (rule process_line_in_update [OF u])
    show "trim_end (CHANGE_CONTEXT_MARKER @ lit ''foo '') = [] \<or> hd (trim_end (CHANGE_CONTEXT_MARKER @ lit ''foo '')) \<noteq> 42 \<or>
        handle_hunk_headers_and_end_patch s (trim_end (CHANGE_CONTEXT_MARKER @ lit ''foo '')) = (Inr False, s)"
      unfolding t by (simp add: CONTEXT_hd)
    have "strip_prefix MOVE_TO_MARKER (CHANGE_CONTEXT_MARKER @ lit ''foo'') = None"
      "CHANGE_CONTEXT_MARKER @ lit ''foo'' \<noteq> EMPTY_CHANGE_CONTEXT_MARKER" by (simp_all add: marker_defs)
    then show "update_line_step s (CHANGE_CONTEXT_MARKER @ lit ''foo '') p mv [] =
        Some (Inr (), set_last_hunk s (UpdateFile p mv [new_chunk (Some (lit ''foo''))]))"
      unfolding update_line_step_def Let_def t by (simp add: last_is_def)
  qed
qed

lemma push_deltas_single: "push_deltas s ds = push_deltas s [concat ds]"
proof -
  have "push_deltas s ds = push_chars s (concat ds)"
    by (induction ds arbitrary: s)
      (auto simp: push_delta_def push_chars_append split: prod.splits sum.splits)
  then show ?thesis by (auto simp: push_delta_def split: prod.splits sum.splits)
qed

text \<open>
  How a patch is cut into deltas never matters, for malformed patches and
  error reports too: two streams with the same text give the same hunks or the same error.
\<close>

theorem stream_patch_chunking:
  assumes "concat ds = concat es"
  shows "stream_patch ds = stream_patch es"
  using assms push_deltas_single [of sp_default ds] push_deltas_single [of sp_default es]
  by (simp only: stream_patch_def)

theorem stream_patch_chunking_witness:
  "stream_patch [lit ''*** Be'', lit ''gin Patch''] = stream_patch [lit ''*** Begin Patch'']"
  by (rule stream_patch_chunking) simp

end
