(* ===== verification/Paths.thy ===== *)
theory Paths
  imports Prelude
begin

text \<open>
  \<^verbatim>\<open>codex-rs/utils/absolute-path/src/absolutize.rs\<close> and \<^verbatim>\<open>lib.rs\<close>: turning a path into an
  absolute, normalised one. The model is of the build for Unix: a path is its text, \<open>/\<close>
  separates, and there is no prefix component. The operations of \<^verbatim>\<open>std::path\<close> the source
  uses (\<^verbatim>\<open>components\<close>, \<^verbatim>\<open>push\<close>, \<^verbatim>\<open>join\<close>, \<^verbatim>\<open>parent\<close>, \<^verbatim>\<open>pop\<close>) come first. The home directory and
  the current directory of the process are arguments.
\<close>

section \<open>Paths of the standard library\<close>

type_synonym path = rstr

abbreviation SLASH :: uchar where "SLASH \<equiv> 47"
abbreviation DOT :: uchar where "DOT \<equiv> 46"

datatype component = RootDir | CurDir | ParentDir | Normal rstr

definition is_absolute :: "path \<Rightarrow> bool" where
  "is_absolute p \<longleftrightarrow> starts_with p [SLASH]"

definition piece_component :: "rstr \<Rightarrow> component" where
  "piece_component q = (if q = [DOT, DOT] then ParentDir else Normal q)"

text \<open>A piece between separators that gives no component.\<close>

definition trivial_piece :: "rstr \<Rightarrow> bool" where
  "trivial_piece q \<longleftrightarrow> q = [] \<or> q = [DOT]"

text \<open>\<^verbatim>\<open>Path::components\<close>: a leading \<open>.\<close> of a relative path counts, every other one is skipped.\<close>

definition body_components :: "rstr list \<Rightarrow> component list" where
  "body_components ps = map piece_component (filter (\<lambda>q. \<not> trivial_piece q) ps)"

definition components :: "path \<Rightarrow> component list" where
  "components p =
     (if is_absolute p then RootDir # body_components (split_on SLASH p)
      else (case split_on SLASH p of
              [] \<Rightarrow> []
            | q # qs \<Rightarrow> (if q = [DOT] then CurDir # body_components qs
                         else body_components (q # qs))))"

text \<open>\<^verbatim>\<open>PathBuf::push\<close> (and \<^verbatim>\<open>Path::join\<close>): an absolute argument replaces the path.\<close>

definition path_push :: "path \<Rightarrow> path \<Rightarrow> path" where
  "path_push p q =
     (if is_absolute q then q
      else if p = [] \<or> last p = SLASH then p @ q
      else p @ [SLASH] @ q)"

text \<open>
  \<^verbatim>\<open>Path::parent\<close>: the path without its last component and without what then trails; none
  for the root and for the empty path.
\<close>

definition drop_trivial_end :: "rstr list \<Rightarrow> rstr list" where
  "drop_trivial_end ps = rev (dropWhile trivial_piece (rev ps))"

definition strip_trivial :: "bool \<Rightarrow> rstr list \<Rightarrow> rstr list" where
  "strip_trivial rooted ps =
     (if rooted then drop_trivial_end ps
      else (case ps of [] \<Rightarrow> []
            | q # qs \<Rightarrow> (let r = drop_trivial_end qs in if r = [] \<and> q = [] then [] else q # r)))"

definition path_parent :: "path \<Rightarrow> path option" where
  "path_parent p =
     (let rooted = is_absolute p;
          pieces = strip_trivial rooted (split_on SLASH (if rooted then tl p else p))
      in if pieces = [] then None
         else Some ((if rooted then [SLASH] else []) @
                    str_join [SLASH] (strip_trivial rooted (butlast pieces))))"

definition path_pop :: "path \<Rightarrow> path" where
  "path_pop p = (case path_parent p of None \<Rightarrow> p | Some q \<Rightarrow> q)"

section \<open>Normalisation\<close>

definition normalize_step :: "path \<Rightarrow> component \<Rightarrow> path" where
  "normalize_step normalized c =
     (case c of
        CurDir \<Rightarrow> normalized
      | ParentDir \<Rightarrow> path_pop normalized
      | RootDir \<Rightarrow> path_push normalized [SLASH]
      | Normal q \<Rightarrow> path_push normalized q)"

definition normalize_path :: "path \<Rightarrow> path" where
  "normalize_path p =
     (let normalized = foldl normalize_step [] (components p)
      in if normalized = [] then [DOT] else normalized)"

definition path_with_base :: "path \<Rightarrow> path \<Rightarrow> path" where
  "path_with_base p base_path = (if is_absolute p then p else path_push base_path p)"

definition absolutize_from :: "path \<Rightarrow> path \<Rightarrow> path" where
  "absolutize_from p base_path = normalize_path (path_with_base p base_path)"

text \<open>\<open>cwd\<close> is what \<^verbatim>\<open>std::env::current_dir\<close> returns.\<close>

definition absolutize :: "(path, 'e) result \<Rightarrow> path \<Rightarrow> (path, 'e) result" where
  "absolutize cwd p =
     (if is_absolute p then Inr (normalize_path p)
      else (case cwd of Inl e \<Rightarrow> Inl e | Inr d \<Rightarrow> Inr (absolutize_from p d)))"

section \<open>AbsolutePathBuf\<close>

text \<open>\<open>home\<close> is what \<^verbatim>\<open>dirs::home_dir\<close> returns.\<close>

definition maybe_expand_home_directory :: "path option \<Rightarrow> path \<Rightarrow> path" where
  "maybe_expand_home_directory home p =
     (case home of
        None \<Rightarrow> p
      | Some h \<Rightarrow>
          (case strip_prefix (lit ''~'') p of
             None \<Rightarrow> p
           | Some rest \<Rightarrow>
               (if rest = [] then h
                else (case strip_prefix [SLASH] rest of
                        Some r \<Rightarrow> path_push h (dropWhile (\<lambda>c. c = SLASH) r)
                      | None \<Rightarrow> p))))"

definition resolve_path_against_base :: "path option \<Rightarrow> path \<Rightarrow> path \<Rightarrow> path" where
  "resolve_path_against_base home p base_path =
     absolutize_from (maybe_expand_home_directory home p) base_path"

definition from_absolute_path :: "path option \<Rightarrow> (path, 'e) result \<Rightarrow> path \<Rightarrow> (path, 'e) result" where
  "from_absolute_path home cwd p = absolutize cwd (maybe_expand_home_directory home p)"

text \<open>The error of the checked constructor carries the path it was given.\<close>

datatype path_error = NotAbsolute path

definition from_absolute_path_checked :: "path option \<Rightarrow> path \<Rightarrow> (path, path_error) result" where
  "from_absolute_path_checked home p =
     (let expanded = maybe_expand_home_directory home p
      in if \<not> is_absolute expanded then Inl (NotAbsolute p)
         else Inr (absolutize_from expanded [SLASH]))"

definition abs_current_dir :: "path option \<Rightarrow> (path, 'e) result \<Rightarrow> (path, 'e) result" where
  "abs_current_dir home cwd =
     (case cwd of Inl e \<Rightarrow> Inl e | Inr d \<Rightarrow> from_absolute_path home cwd d)"

definition relative_to_current_dir ::
  "path option \<Rightarrow> (path, 'e) result \<Rightarrow> path \<Rightarrow> (path, 'e) result" where
  "relative_to_current_dir home cwd p =
     (case cwd of Inl e \<Rightarrow> Inl e | Inr d \<Rightarrow> Inr (resolve_path_against_base home p d))"

definition abs_join :: "path option \<Rightarrow> path \<Rightarrow> path \<Rightarrow> path" where
  "abs_join home self p = resolve_path_against_base home p self"

definition abs_parent :: "path \<Rightarrow> path option" where
  "abs_parent self = path_parent self"

section \<open>Specification\<close>

text \<open>
  An absolute, normalised path is \<open>/\<close> followed by names, none of them empty, \<open>.\<close>, \<open>..\<close> or
  with a separator in it. Resolving a list of components keeps a stack of names; \<open>..\<close> drops
  the top one and stays at the root when there is none.
\<close>

definition plain_name :: "rstr \<Rightarrow> bool" where
  "plain_name q \<longleftrightarrow> q \<noteq> [] \<and> q \<noteq> [DOT] \<and> q \<noteq> [DOT, DOT] \<and> SLASH \<notin> set q"

definition abs_path :: "rstr list \<Rightarrow> path" where
  "abs_path names = SLASH # str_join [SLASH] names"

definition abs_normal :: "path \<Rightarrow> bool" where
  "abs_normal p \<longleftrightarrow> is_absolute p \<and>
     (p = [SLASH] \<or> (\<forall>q\<in>set (split_on SLASH (tl p)). plain_name q))"

fun resolve_step :: "rstr list \<Rightarrow> component \<Rightarrow> rstr list" where
  "resolve_step names RootDir = []"
| "resolve_step names CurDir = names"
| "resolve_step names ParentDir = butlast names"
| "resolve_step names (Normal q) = names @ [q]"

definition resolve :: "component list \<Rightarrow> rstr list" where
  "resolve cs = foldl resolve_step [] cs"

section \<open>Lemmas\<close>

definition plain_component :: "component \<Rightarrow> bool" where
  "plain_component c \<longleftrightarrow> (case c of Normal q \<Rightarrow> plain_name q | _ \<Rightarrow> True)"

lemma is_absolute_iff: "is_absolute p \<longleftrightarrow> (\<exists>r. p = SLASH # r)"
  by (auto simp: is_absolute_def starts_with_iff_prefix prefix_def)

lemma is_absolute_Cons [simp]: "is_absolute (c # p) \<longleftrightarrow> c = SLASH"
  by (auto simp: is_absolute_iff)

lemma is_absolute_Nil [simp]: "\<not> is_absolute []"
  by (auto simp: is_absolute_iff)

lemma body_components_plain:
  "\<forall>q\<in>set ps. SLASH \<notin> set q \<Longrightarrow> c \<in> set (body_components ps) \<Longrightarrow>
   plain_component c \<and> c \<noteq> RootDir \<and> c \<noteq> CurDir"
  by (auto simp: body_components_def piece_component_def plain_component_def plain_name_def
      trivial_piece_def split: if_splits)

lemma components_plain: "c \<in> set (components p) \<Longrightarrow> plain_component c"
proof -
  assume c: "c \<in> set (components p)"
  have s: "\<forall>q\<in>set (split_on SLASH p). SLASH \<notin> set q" by (auto dest: split_on_pieces)
  obtain q qs where qs: "split_on SLASH p = q # qs" by (cases "split_on SLASH p") auto
  have sc: "c \<in> set (body_components ps) \<Longrightarrow> plain_component c"
    if "ps \<in> {q # qs, qs}" for ps
    using body_components_plain [of ps c] that s qs by auto
  show ?thesis
    using c sc [of qs] sc [of "q # qs"] unfolding components_def qs
    by (auto simp: plain_component_def split: if_splits)
qed

lemma components_absolute: "is_absolute p \<Longrightarrow> \<exists>cs. components p = RootDir # cs \<and> RootDir \<notin> set cs"
  using body_components_plain [of "split_on SLASH p" RootDir]
  by (auto simp: components_def dest: split_on_pieces)

lemma components_relative: "\<not> is_absolute p \<Longrightarrow> RootDir \<notin> set (components p)"
proof -
  assume "\<not> is_absolute p"
  obtain q qs where qs: "split_on SLASH p = q # qs" by (cases "split_on SLASH p") auto
  have "\<forall>q\<in>set (split_on SLASH p). SLASH \<notin> set q" by (auto dest: split_on_pieces)
  then have "RootDir \<notin> set (body_components (q # qs))" "RootDir \<notin> set (body_components qs)"
    using body_components_plain [of "q # qs" RootDir] body_components_plain [of qs RootDir] qs by auto
  then show ?thesis using \<open>\<not> is_absolute p\<close> by (simp add: components_def qs)
qed

text \<open>The text of a normalised path under the operations of the loop.\<close>

lemma last_str_join: "names \<noteq> [] \<Longrightarrow> last names \<noteq> [] \<Longrightarrow> last (str_join sep names) = last (last names)"
  by (cases names rule: rev_cases) (auto simp: str_join_snoc)

lemma str_join_eq_Nil: "\<forall>q\<in>set names. q \<noteq> [] \<Longrightarrow> str_join sep names = [] \<longleftrightarrow> names = []"
  by (induction sep names rule: str_join.induct) auto

lemma split_on_abs_path:
  assumes "\<forall>q\<in>set names. plain_name q" and "names \<noteq> []"
  shows "split_on SLASH (str_join [SLASH] names) = names"
  using assms by (intro split_on_join) (auto simp: plain_name_def)

lemma last_abs_path:
  assumes "\<forall>q\<in>set names. plain_name q" and "names \<noteq> []"
  shows "last (abs_path names) \<noteq> SLASH"
proof -
  have p: "plain_name (last names)" using assms by simp
  then have "last (last names) \<in> set (last names)" by (simp add: plain_name_def)
  then have "last (last names) \<noteq> SLASH" using p by (metis plain_name_def)
  moreover have "str_join [SLASH] names \<noteq> []"
    using assms by (subst str_join_eq_Nil) (auto simp: plain_name_def)
  ultimately show ?thesis
    using assms p last_str_join [of names "[SLASH]"] by (simp add: abs_path_def plain_name_def)
qed

lemma push_abs_path:
  assumes "\<forall>q\<in>set names. plain_name q" and "plain_name q"
  shows "path_push (abs_path names) q = abs_path (names @ [q])"
proof -
  have "\<not> is_absolute q" using assms(2) by (auto simp: plain_name_def is_absolute_iff)
  then show ?thesis
    using last_abs_path [OF assms(1)]
    by (auto simp: path_push_def abs_path_def str_join_snoc)
qed

lemma drop_trivial_end_plain: "\<forall>q\<in>set names. plain_name q \<Longrightarrow> drop_trivial_end names = names"
proof -
  assume *: "\<forall>q\<in>set names. plain_name q"
  have "plain_name q \<Longrightarrow> \<not> trivial_piece q" for q
    by (auto simp: plain_name_def trivial_piece_def)
  with * have "names = [] \<or> \<not> trivial_piece (last names)" by (meson last_in_set)
  then have "dropWhile trivial_piece (rev names) = rev names"
    by (intro dropWhile_ident) (simp add: hd_rev)
  then show ?thesis by (simp add: drop_trivial_end_def)
qed

lemma parent_abs_path:
  assumes "\<forall>q\<in>set names. plain_name q"
  shows "path_parent (abs_path names) = (if names = [] then None else Some (abs_path (butlast names)))"
proof (cases "names = []")
  case True
  then show ?thesis
    by (simp add: path_parent_def abs_path_def strip_trivial_def drop_trivial_end_def trivial_piece_def Let_def)
next
  case False
  have "\<forall>q\<in>set (butlast names). plain_name q" using assms by (auto dest: in_set_butlastD)
  then show ?thesis
    using False assms
    by (simp add: path_parent_def abs_path_def strip_trivial_def split_on_abs_path
        drop_trivial_end_plain)
qed

lemma pop_abs_path:
  "\<forall>q\<in>set names. plain_name q \<Longrightarrow> path_pop (abs_path names) = abs_path (butlast names)"
  by (simp add: path_pop_def parent_abs_path)

lemma resolve_step_plain:
  "\<forall>q\<in>set names. plain_name q \<Longrightarrow> plain_component c \<Longrightarrow> \<forall>q\<in>set (resolve_step names c). plain_name q"
  by (cases c) (auto simp: plain_component_def dest: in_set_butlastD)

lemma foldl_normalize_abs:
  assumes "\<forall>c\<in>set cs. plain_component c" and "\<forall>q\<in>set names. plain_name q"
  shows "foldl normalize_step (abs_path names) cs = abs_path (foldl resolve_step names cs) \<and>
         (\<forall>q\<in>set (foldl resolve_step names cs). plain_name q)"
  using assms
proof (induction cs arbitrary: names)
  case (Cons c cs)
  have "path_push (abs_path names) [SLASH] = abs_path []" by (simp add: path_push_def abs_path_def)
  then have "normalize_step (abs_path names) c = abs_path (resolve_step names c)"
    using pop_abs_path [OF Cons.prems(2)] push_abs_path [OF Cons.prems(2)] Cons.prems(1)
    by (cases c) (simp_all add: normalize_step_def plain_component_def)
  moreover have "\<forall>q\<in>set (resolve_step names c). plain_name q"
    using Cons.prems by (intro resolve_step_plain) simp_all
  then have "foldl normalize_step (abs_path (resolve_step names c)) cs =
      abs_path (foldl resolve_step (resolve_step names c) cs) \<and>
      (\<forall>q\<in>set (foldl resolve_step (resolve_step names c) cs). plain_name q)"
    using Cons.prems(1) by (intro Cons.IH) simp_all
  ultimately show ?case by simp
qed simp

lemma normalize_absolute:
  assumes "is_absolute p"
  shows "normalize_path p = abs_path (resolve (components p))"
    and "\<forall>q\<in>set (resolve (components p)). plain_name q"
proof -
  obtain cs where cs: "components p = RootDir # cs" using components_absolute [OF assms] by blast
  have "normalize_step [] RootDir = abs_path []" by (simp add: normalize_step_def path_push_def abs_path_def)
  moreover have "\<forall>c\<in>set cs. plain_component c" using components_plain [of _ p] cs by auto
  ultimately have *: "foldl normalize_step [] (components p) = abs_path (resolve (components p))"
    "\<forall>q\<in>set (resolve (components p)). plain_name q"
    using foldl_normalize_abs [of cs "[]"] by (simp_all add: resolve_def cs)
  show "normalize_path p = abs_path (resolve (components p))"
    unfolding normalize_path_def Let_def * by (simp add: abs_path_def)
  show "\<forall>q\<in>set (resolve (components p)). plain_name q" by (rule *)
qed

lemma abs_normal_iff: "abs_normal p \<longleftrightarrow> (\<exists>names. p = abs_path names \<and> (\<forall>q\<in>set names. plain_name q))"
proof
  assume n: "abs_normal p"
  then obtain r where p: "p = SLASH # r" by (auto simp: abs_normal_def is_absolute_iff)
  show "\<exists>names. p = abs_path names \<and> (\<forall>q\<in>set names. plain_name q)"
  proof (cases "r = []")
    case True
    then show ?thesis using p by (intro exI [of _ "[]"]) (simp add: abs_path_def)
  next
    case False
    then show ?thesis
      using p n by (intro exI [of _ "split_on SLASH r"]) (auto simp: abs_path_def abs_normal_def)
  qed
next
  assume "\<exists>names. p = abs_path names \<and> (\<forall>q\<in>set names. plain_name q)"
  then obtain names where n: "p = abs_path names" "\<forall>q\<in>set names. plain_name q" by blast
  then show "abs_normal p"
    by (cases "names = []") (auto simp: abs_normal_def abs_path_def split_on_abs_path)
qed

lemma components_abs_path:
  assumes "\<forall>q\<in>set names. plain_name q"
  shows "components (abs_path names) = RootDir # map Normal names"
proof (cases "names = []")
  case True
  then show ?thesis
    by (simp add: components_def abs_path_def body_components_def trivial_piece_def)
next
  case False
  have "filter (\<lambda>q. \<not> trivial_piece q) names = names"
    using assms by (auto simp: filter_id_conv plain_name_def trivial_piece_def)
  moreover have "map piece_component names = map Normal names"
    using assms by (auto simp: piece_component_def plain_name_def)
  ultimately show ?thesis
    using False assms
    by (simp add: components_def abs_path_def split_on_abs_path body_components_def trivial_piece_def)
qed

lemma foldl_resolve_names: "foldl resolve_step acc (map Normal names) = acc @ names"
  by (induction names arbitrary: acc) auto

lemma normalize_normal: "abs_normal p \<Longrightarrow> normalize_path p = p"
  using normalize_absolute(1) [of p]
  by (auto simp: abs_normal_iff components_abs_path resolve_def foldl_resolve_names)
    (auto simp: abs_path_def components_abs_path resolve_def foldl_resolve_names)

lemma abs_normal_normalize: "is_absolute p \<Longrightarrow> abs_normal (normalize_path p)"
  using normalize_absolute [of p] abs_normal_iff by blast

lemma absolute_push: "is_absolute b \<Longrightarrow> is_absolute (path_push b p)"
  by (auto simp: path_push_def is_absolute_iff)

lemma abs_normal_absolute: "abs_normal p \<Longrightarrow> is_absolute p"
  by (simp add: abs_normal_def)

lemma absolutize_from_normal: "is_absolute base \<Longrightarrow> abs_normal (absolutize_from p base)"
  unfolding absolutize_from_def path_with_base_def
  by (cases "is_absolute p") (auto intro: abs_normal_normalize absolute_push)

lemma resolve_path_normal: "is_absolute base \<Longrightarrow> abs_normal (resolve_path_against_base home p base)"
  by (simp add: resolve_path_against_base_def absolutize_from_normal)

text \<open>Joining on a base is resolving the components of both, one list after the other.\<close>

lemma split_on_append: "split_on d (x @ d # s) = split_on d x @ split_on d s"
  by (induction x) (auto split: list.splits)

lemma body_components_append: "body_components (a @ b) = body_components a @ body_components b"
  by (simp add: body_components_def)

lemma resolve_body:
  assumes "\<not> is_absolute p"
  shows "foldl resolve_step names (components p) = foldl resolve_step names (body_components (split_on SLASH p))"
proof -
  obtain q qs where qs: "split_on SLASH p = q # qs" by (cases "split_on SLASH p") auto
  have "body_components ([DOT] # qs) = body_components qs"
    by (simp add: body_components_def trivial_piece_def)
  then show ?thesis using assms by (simp add: components_def qs)
qed

lemma components_push:
  assumes "is_absolute base" and "\<not> is_absolute p"
  shows "components (path_push base p) = components base @ body_components (split_on SLASH p)"
proof -
  have t: "body_components [[]] = []" by (simp add: body_components_def trivial_piece_def)
  obtain r where r: "base = SLASH # r" using assms(1) by (auto simp: is_absolute_iff)
  have abs: "is_absolute (path_push base p)" using assms(1) by (rule absolute_push)
  show ?thesis
  proof (cases "last base = SLASH")
    case True
    then obtain x where x: "base = x @ [SLASH]" using r by (metis append_butlast_last_id list.distinct(1))
    have "path_push base p = x @ SLASH # p" using assms(2) True by (simp add: path_push_def x)
    moreover have "body_components (split_on SLASH base) = body_components (split_on SLASH x)"
      using x t by (simp add: split_on_append body_components_append)
    ultimately show ?thesis
      using abs assms(1) by (simp add: components_def split_on_append body_components_append)
  next
    case False
    then have "path_push base p = base @ SLASH # p" using assms(2) r by (simp add: path_push_def)
    then show ?thesis
      using abs assms(1) by (simp add: components_def split_on_append body_components_append)
  qed
qed

lemma absolutize_from_resolve:
  assumes "is_absolute base"
  shows "absolutize_from p base =
    abs_path (resolve (if is_absolute p then components p else components base @ components p))"
proof (cases "is_absolute p")
  case True
  then show ?thesis by (simp add: absolutize_from_def path_with_base_def normalize_absolute)
next
  case False
  then have "is_absolute (path_push base p)" using assms by (simp add: absolute_push)
  then show ?thesis
    using False assms
    by (simp add: absolutize_from_def path_with_base_def normalize_absolute components_push
        resolve_def resolve_body)
qed

lemma expand_home_absolute: "is_absolute p \<Longrightarrow> maybe_expand_home_directory home p = p"
  by (auto simp: maybe_expand_home_directory_def is_absolute_iff split: option.splits)

section \<open>Properties\<close>

text \<open>
  Resolving a path against an absolute base gives an absolute path with no
  empty, \<open>.\<close> or \<open>..\<close> piece, the one reached by walking the components of the base and then
  those of the path (after expanding the home directory) and staying at the root on \<open>..\<close>
  there; resolving the result again, against any base, changes nothing.
\<close>

theorem resolve_path_against_base_correct:
  assumes "is_absolute base"
  shows "abs_normal (resolve_path_against_base home p base) \<and>
    resolve_path_against_base home p base =
      (let e = maybe_expand_home_directory home p
       in abs_path (resolve (if is_absolute e then components e else components base @ components e))) \<and>
    resolve_path_against_base home (resolve_path_against_base home p base) base' =
      resolve_path_against_base home p base"
proof (intro conjI)
  let ?r = "resolve_path_against_base home p base"
  show n: "abs_normal ?r" using assms by (rule resolve_path_normal)
  show "?r = (let e = maybe_expand_home_directory home p
       in abs_path (resolve (if is_absolute e then components e else components base @ components e)))"
    using assms by (simp add: resolve_path_against_base_def absolutize_from_resolve Let_def)
  have "is_absolute ?r" using n by (rule abs_normal_absolute)
  then show "resolve_path_against_base home ?r base' = ?r"
    unfolding resolve_path_against_base_def [of home ?r] expand_home_absolute [OF \<open>is_absolute ?r\<close>]
    by (simp add: absolutize_from_def path_with_base_def normalize_normal n)
qed

theorem resolve_path_against_base_correct_witness:
  "resolve_path_against_base None (lit ''../b/./c'') (lit ''/x/y'') = lit ''/x/b/c'' \<and>
   abs_normal (lit ''/x/b/c'')"
proof -
  have "is_absolute (lit ''/x/y'')" by simp
  from resolve_path_against_base_correct [OF this, of None "lit ''../b/./c''"]
  have "abs_normal (resolve_path_against_base None (lit ''../b/./c'') (lit ''/x/y''))" by blast
  moreover have "resolve_path_against_base None (lit ''../b/./c'') (lit ''/x/y'') = lit ''/x/b/c''"
    by code_simp
  ultimately show ?thesis by simp
qed

text \<open>
  The parent of an absolute normalised path is absolute and normalised, so the
  debug assertion of \<^verbatim>\<open>AbsolutePathBuf::parent\<close> holds, and pushing the last name on it gives
  the path back; only the root has no parent.
\<close>

theorem abs_parent_absolute:
  assumes "abs_normal p"
  shows "(p = [SLASH] \<and> abs_parent p = None) \<or>
    (\<exists>q name. abs_parent p = Some q \<and> abs_normal q \<and> plain_name name \<and> p = path_push q name)"
proof -
  obtain names where p: "p = abs_path names" and n: "\<forall>q\<in>set names. plain_name q"
    using assms by (auto simp: abs_normal_iff)
  show ?thesis
  proof (cases names rule: rev_cases)
    case Nil
    then show ?thesis using n p parent_abs_path [OF n] by (simp add: abs_parent_def abs_path_def)
  next
    case (snoc ns name)
    then have "abs_parent p = Some (abs_path ns)"
      using p parent_abs_path [OF n] by (simp add: abs_parent_def)
    moreover have "abs_normal (abs_path ns)" using n snoc by (auto simp: abs_normal_iff)
    moreover have "plain_name name" "p = path_push (abs_path ns) name"
      using n snoc p by (simp_all add: push_abs_path)
    ultimately show ?thesis by blast
  qed
qed

theorem abs_parent_absolute_witness:
  "abs_parent (lit ''/a/b'') = Some (lit ''/a'') \<and> abs_normal (lit ''/a'')"
proof -
  have "abs_normal (lit ''/a/b'')" by code_simp
  moreover have "abs_parent (lit ''/a/b'') = Some (lit ''/a'')" by code_simp
  ultimately show ?thesis using abs_parent_absolute [of "lit ''/a/b''"] by auto
qed

end
