(* ===== verification/Apply_Patch.thy ===== *)
theory Apply_Patch
  imports Seek_Sequence Patch_Parser Paths
begin

text \<open>
  The text side of \<^verbatim>\<open>codex-rs/apply-patch/src/lib.rs\<close>: from the contents of a file and the
  chunks of an update hunk to the new contents. \<open>compute_replacements\<close> locates every chunk,
  \<open>apply_replacements\<close> edits the lines from the back. \<^verbatim>\<open>Vec::insert\<close> panics past the end, so
  the editing loop returns an option, with \<open>None\<close> for a panic.
\<close>

section \<open>Errors\<close>

text \<open>\<^verbatim>\<open>std::io::Error\<close>: a kind, of which the source tells two apart, and a message.\<close>

datatype io_kind = NotFound | InvalidInput | OtherKind

record io_error =
  io_error_kind :: io_kind
  io_error_message :: rstr

datatype apply_patch_error =
    ParseError parse_error
  | IoError rstr io_error
  | ComputeReplacements rstr
  | ImplicitInvocation

definition msg_context_not_found :: "rstr \<Rightarrow> path \<Rightarrow> rstr" where
  "msg_context_not_found ctx_line p =
     lit ''Failed to find context '' @ quoted ctx_line @ lit '' in '' @ p"

definition msg_lines_not_found :: "path \<Rightarrow> rstr list \<Rightarrow> rstr" where
  "msg_lines_not_found p old =
     lit ''Failed to find expected lines in '' @ p @ lit '':'' @ [NL] @ str_join [NL] old"

section \<open>Locating the chunks\<close>

text \<open>Start index, number of lines to remove, lines to insert.\<close>

type_synonym replacement = "nat \<times> nat \<times> rstr list"

definition insertion_idx :: "rstr list \<Rightarrow> nat" where
  "insertion_idx original_lines =
     (if last_is (\<lambda>l. l = []) original_lines then length original_lines - 1
      else length original_lines)"

text \<open>The position after the context line of a chunk, if it has one.\<close>

definition seek_context ::
  "rstr list \<Rightarrow> path \<Rightarrow> nat \<Rightarrow> rstr option \<Rightarrow> (nat, apply_patch_error) result" where
  "seek_context original_lines p line_index ctx =
     (case ctx of
        None \<Rightarrow> Inr line_index
      | Some ctx_line \<Rightarrow>
          (case seek_sequence original_lines [ctx_line] line_index False of
             Some idx \<Rightarrow> Inr (idx + 1)
           | None \<Rightarrow> Inl (ComputeReplacements (msg_context_not_found ctx_line p))))"

text \<open>
  The search for the old lines, with its retry without a final empty line: what was found,
  the pattern it was found with and the lines to put there.
\<close>

definition locate_old_lines ::
  "rstr list \<Rightarrow> nat \<Rightarrow> update_file_chunk \<Rightarrow> nat option \<times> rstr list \<times> rstr list" where
  "locate_old_lines original_lines line_index chunk =
     (let pattern = old_lines chunk;
          found = seek_sequence original_lines pattern line_index (is_end_of_file chunk);
          new_slice = new_lines chunk
      in if found = None \<and> last_is (\<lambda>l. l = []) pattern then
           (let pattern' = butlast pattern;
                new_slice' = (if last_is (\<lambda>l. l = []) new_slice then butlast new_slice else new_slice)
            in (seek_sequence original_lines pattern' line_index (is_end_of_file chunk),
                pattern', new_slice'))
         else (found, pattern, new_slice))"

fun compute_replacements_loop ::
  "rstr list \<Rightarrow> path \<Rightarrow> nat \<Rightarrow> replacement list \<Rightarrow> update_file_chunk list \<Rightarrow>
   (replacement list, apply_patch_error) result" where
  "compute_replacements_loop original_lines p line_index replacements [] = Inr replacements"
| "compute_replacements_loop original_lines p line_index replacements (chunk # chunks) =
     (case seek_context original_lines p line_index (change_context chunk) of
        Inl e \<Rightarrow> Inl e
      | Inr line_index' \<Rightarrow>
          if old_lines chunk = [] then
            compute_replacements_loop original_lines p line_index'
              (replacements @ [(insertion_idx original_lines, 0, new_lines chunk)]) chunks
          else
            (case locate_old_lines original_lines line_index' chunk of
               (Some start_idx, pattern, new_slice) \<Rightarrow>
                 compute_replacements_loop original_lines p (start_idx + length pattern)
                   (replacements @ [(start_idx, length pattern, new_slice)]) chunks
             | (None, _, _) \<Rightarrow>
                 Inl (ComputeReplacements (msg_lines_not_found p (old_lines chunk)))))"

text \<open>\<^verbatim>\<open>sort_by\<close> is stable, as \<open>sort_key\<close> is.\<close>

definition compute_replacements ::
  "rstr list \<Rightarrow> path \<Rightarrow> update_file_chunk list \<Rightarrow> (replacement list, apply_patch_error) result" where
  "compute_replacements original_lines p chunks =
     map_sum id (sort_key fst) (compute_replacements_loop original_lines p 0 [] chunks)"

section \<open>Editing the lines\<close>

definition vec_remove :: "nat \<Rightarrow> 'a list \<Rightarrow> 'a list" where
  "vec_remove i xs = take i xs @ drop (Suc i) xs"

definition vec_insert :: "nat \<Rightarrow> 'a \<Rightarrow> 'a list \<Rightarrow> 'a list option" where
  "vec_insert i x xs = (if i \<le> length xs then Some (take i xs @ x # drop i xs) else None)"

fun remove_old_loop :: "nat \<Rightarrow> nat \<Rightarrow> 'a list \<Rightarrow> 'a list" where
  "remove_old_loop start_idx 0 lines = lines"
| "remove_old_loop start_idx (Suc n) lines =
     remove_old_loop start_idx n
       (if start_idx < length lines then vec_remove start_idx lines else lines)"

fun insert_new_loop :: "nat \<Rightarrow> nat \<Rightarrow> 'a list \<Rightarrow> 'a list \<Rightarrow> 'a list option" where
  "insert_new_loop start_idx offset [] lines = Some lines"
| "insert_new_loop start_idx offset (x # xs) lines =
     Option.bind (vec_insert (start_idx + offset) x lines) (insert_new_loop start_idx (Suc offset) xs)"

definition apply_one_replacement :: "replacement \<Rightarrow> rstr list \<Rightarrow> rstr list option" where
  "apply_one_replacement r lines =
     (case r of (start_idx, old_len, new_segment) \<Rightarrow>
        insert_new_loop start_idx 0 new_segment (remove_old_loop start_idx old_len lines))"

text \<open>The loop runs over the replacements in reverse.\<close>

definition apply_replacements :: "rstr list \<Rightarrow> replacement list \<Rightarrow> rstr list option" where
  "apply_replacements lines replacements =
     foldr (\<lambda>r acc. Option.bind acc (apply_one_replacement r)) replacements (Some lines)"

section \<open>New contents of a file\<close>

record applied_patch =
  original_contents :: rstr
  new_contents :: rstr

definition original_lines_of :: "rstr \<Rightarrow> rstr list" where
  "original_lines_of contents =
     (let lines = split_on NL contents
      in if last_is (\<lambda>l. l = []) lines then butlast lines else lines)"

definition end_with_newline :: "rstr list \<Rightarrow> rstr list" where
  "end_with_newline lines = (if last_is (\<lambda>l. l = []) lines then lines else lines @ [[]])"

definition derive_new_contents_from_text ::
  "rstr \<Rightarrow> path \<Rightarrow> update_file_chunk list \<Rightarrow> (applied_patch, apply_patch_error) result option" where
  "derive_new_contents_from_text contents p chunks =
     (let original_lines = original_lines_of contents
      in case compute_replacements original_lines p chunks of
           Inl e \<Rightarrow> Some (Inl e)
         | Inr replacements \<Rightarrow>
             map_option (\<lambda>lines. Inr
               \<lparr>original_contents = contents,
                new_contents = str_join [NL] (end_with_newline lines)\<rparr>)
               (apply_replacements original_lines replacements))"

definition derive_new_contents_from_chunks ::
  "(rstr, io_error) result \<Rightarrow> path \<Rightarrow> update_file_chunk list \<Rightarrow>
   (applied_patch, apply_patch_error) result option" where
  "derive_new_contents_from_chunks read_text path_abs chunks =
     (case read_text of
        Inl err \<Rightarrow> Some (Inl (IoError (lit ''Failed to read file to update '' @ path_abs) err))
      | Inr contents \<Rightarrow> derive_new_contents_from_text contents path_abs chunks)"

text \<open>\<^verbatim>\<open>unified_diff_from_chunks\<close>: the diff comes from the crate \<^verbatim>\<open>similar\<close> (\<open>diff\<close>).\<close>

record apply_patch_file_update =
  unified_diff :: rstr
  update_original_content :: rstr
  update_content :: rstr

definition unified_diff_from_chunks_with_context ::
  "(nat \<Rightarrow> rstr \<Rightarrow> rstr \<Rightarrow> rstr) \<Rightarrow> (rstr, io_error) result \<Rightarrow> path \<Rightarrow> update_file_chunk list \<Rightarrow> nat \<Rightarrow>
   (apply_patch_file_update, apply_patch_error) result option" where
  "unified_diff_from_chunks_with_context diff read_text path_abs chunks context =
     map_option (map_sum id (\<lambda>a.
        \<lparr>unified_diff = diff context (original_contents a) (new_contents a),
         update_original_content = original_contents a,
         update_content = new_contents a\<rparr>))
       (derive_new_contents_from_chunks read_text path_abs chunks)"

definition unified_diff_from_chunks ::
  "(nat \<Rightarrow> rstr \<Rightarrow> rstr \<Rightarrow> rstr) \<Rightarrow> (rstr, io_error) result \<Rightarrow> path \<Rightarrow> update_file_chunk list \<Rightarrow>
   (apply_patch_file_update, apply_patch_error) result option" where
  "unified_diff_from_chunks diff read_text path_abs chunks =
     unified_diff_from_chunks_with_context diff read_text path_abs chunks 1"

end
