(* ===== verification/Apply_Patch_Correct.thy ===== *)
theory Apply_Patch_Correct
  imports Apply_Patch
begin

text \<open>
  Correctness of the text edits of \<open>Apply_Patch\<close>: the edit never panics, and where the
  located regions do not overlap the result is the file with every region replaced, written
  as one pass from the front (\<open>splice\<close>).
\<close>

section \<open>Specification\<close>

text \<open>\<open>before r s\<close>: the region of \<open>r\<close> ends where \<open>s\<close> starts or earlier.\<close>

definition before :: "replacement \<Rightarrow> replacement \<Rightarrow> bool" where
  "before r s \<longleftrightarrow> fst r + fst (snd r) \<le> fst s"

fun splice :: "rstr list \<Rightarrow> nat \<Rightarrow> replacement list \<Rightarrow> rstr list" where
  "splice lines pos [] = drop pos lines"
| "splice lines pos ((start, n, new_segment) # rs) =
     slice lines pos (start - pos) @ new_segment @ splice lines (start + n) rs"

text \<open>
  What a chunk may turn into: an insertion at the end of the file when it has no old lines,
  else the replacement of a block that matches the old lines, or the old lines without a
  final empty one.
\<close>

definition drop_final_blank :: "rstr list \<Rightarrow> rstr list" where
  "drop_final_blank ls = (if last_is (\<lambda>l. l = []) ls then butlast ls else ls)"

definition chunk_replacement :: "rstr list \<Rightarrow> update_file_chunk \<Rightarrow> replacement \<Rightarrow> bool" where
  "chunk_replacement lines chunk r \<longleftrightarrow>
     (if old_lines chunk = [] then r = (insertion_idx lines, 0, new_lines chunk)
      else (\<exists>start pattern new_segment. r = (start, length pattern, new_segment) \<and>
              start + length pattern \<le> length lines \<and> block_at 3 lines pattern start \<and>
              (pattern = old_lines chunk \<and> new_segment = new_lines chunk \<or>
               old_lines chunk = pattern @ [[]] \<and> new_segment = drop_final_blank (new_lines chunk))))"

section \<open>Editing\<close>

lemma remove_old_loop_eq: "remove_old_loop s n lines = take s lines @ drop (s + n) lines"
proof (induction n arbitrary: lines)
  case (Suc n)
  show ?case
  proof (cases "s < length lines")
    case True
    then show ?thesis by (simp add: Suc vec_remove_def min_def add.commute)
  next
    case False
    then show ?thesis by (simp add: Suc)
  qed
qed simp

lemma insert_new_loop_eq:
  "s + k \<le> length lines \<Longrightarrow>
   insert_new_loop s k xs lines = Some (take (s + k) lines @ xs @ drop (s + k) lines)"
proof (induction xs arbitrary: k lines)
  case (Cons x xs)
  let ?l = "take (s + k) lines @ x # drop (s + k) lines"
  have "insert_new_loop s (Suc k) xs ?l = Some (take (s + Suc k) ?l @ xs @ drop (s + Suc k) ?l)"
    using Cons.prems by (intro Cons.IH) simp
  moreover have "take (s + Suc k) ?l = take (s + k) lines @ [x]"
    "drop (s + Suc k) ?l = drop (s + k) lines"
    using Cons.prems by (simp_all add: min_def)
  ultimately show ?case using Cons.prems by (simp add: vec_insert_def)
qed simp

lemma apply_one_replacement_eq:
  "s \<le> length lines \<Longrightarrow>
   apply_one_replacement (s, n, new) lines = Some (take s lines @ new @ drop (s + n) lines)"
proof -
  assume s: "s \<le> length lines"
  let ?r = "take s lines @ drop (s + n) lines"
  have "insert_new_loop s 0 new ?r = Some (take s ?r @ new @ drop s ?r)"
    using s insert_new_loop_eq [of s 0 ?r new] by simp
  moreover have "take s ?r = take s lines" "drop s ?r = drop (s + n) lines"
    using s by (simp_all add: min_def)
  ultimately show ?thesis by (simp add: apply_one_replacement_def remove_old_loop_eq)
qed

lemma apply_replacements_Cons:
  "apply_replacements lines (r # rs) = Option.bind (apply_replacements lines rs) (apply_one_replacement r)"
  by (simp add: apply_replacements_def)

lemma apply_replacements_Nil: "apply_replacements lines [] = Some lines"
  by (simp add: apply_replacements_def)

text \<open>Starts in ascending order and within the file are enough for no insertion to panic.\<close>

lemma apply_replacements_total:
  assumes "sorted (map fst rs)" and "\<forall>r\<in>set rs. fst r \<le> length lines"
  shows "\<exists>out. apply_replacements lines rs = Some out \<and>
    (\<forall>k. k \<le> length lines \<and> (\<forall>r\<in>set rs. k \<le> fst r) \<longrightarrow> k \<le> length out)"
  using assms
proof (induction rs)
  case Nil
  then show ?case by (simp add: apply_replacements_Nil)
next
  case (Cons r rs)
  obtain s n new where r: "r = (s, n, new)" by (cases r)
  from Cons obtain out where out: "apply_replacements lines rs = Some out"
    and len: "\<And>k. k \<le> length lines \<Longrightarrow> \<forall>r\<in>set rs. k \<le> fst r \<Longrightarrow> k \<le> length out" by auto
  have "s \<le> length out" using Cons.prems r by (intro len) auto
  then have "apply_replacements lines (r # rs) = Some (take s out @ new @ drop (s + n) out)"
    using out by (simp add: apply_replacements_Cons r apply_one_replacement_eq)
  moreover have "k \<le> length (take s out @ new @ drop (s + n) out)" if "k \<le> s" for k
    using that \<open>s \<le> length out\<close> by simp
  ultimately show ?case using r by auto
qed

text \<open>On regions that do not overlap, editing from the back is one pass from the front.\<close>

lemma apply_replacements_splice:
  assumes "sorted_wrt before rs" and "\<forall>r\<in>set rs. fst r + fst (snd r) \<le> length lines"
    and "\<forall>r\<in>set rs. pos \<le> fst r" and "pos \<le> length lines"
  shows "apply_replacements lines rs = Some (take pos lines @ splice lines pos rs)"
  using assms
proof (induction rs arbitrary: pos)
  case Nil
  then show ?case by (simp add: apply_replacements_Nil)
next
  case (Cons r rs)
  obtain s n new where r: "r = (s, n, new)" by (cases r)
  have sn: "s + n \<le> length lines" "pos \<le> s" using Cons.prems r by auto
  let ?out = "take (s + n) lines @ splice lines (s + n) rs"
  have "apply_replacements lines rs = Some ?out"
    using Cons.prems r by (intro Cons.IH) (auto simp: before_def)
  moreover have "take s ?out = take s lines" "drop (s + n) ?out = splice lines (s + n) rs"
    using sn by (simp_all add: min_def)
  moreover have "s \<le> length ?out" using sn by simp
  moreover have "take pos lines @ slice lines pos (s - pos) = take s lines"
    using sn(2) by (simp add: slice_def take_add [symmetric])
  ultimately show ?case
    by (simp add: apply_replacements_Cons r apply_one_replacement_eq flip: append_assoc)
qed

section \<open>Locating\<close>

lemma block_at_Nil [simp]: "block_at k lines [] i"
  by (simp add: block_at_def slice_def)

text \<open>A search from within the file stays within the file.\<close>

lemma seek_sequence_bounds:
  assumes "seek_sequence lines pattern start eof = Some i" and "start \<le> length lines"
  shows "i + length pattern \<le> length lines" and "block_at 3 lines pattern i"
    and "\<not> eof \<Longrightarrow> start \<le> i"
  using assms seek_sequence_block [OF assms(1)]
  by (cases "pattern = []"; auto simp: seek_sequence_def search_range_def)+

lemma seek_context_bounds:
  assumes "seek_context lines p li ctx = Inr li'" and "li \<le> length lines"
  shows "li \<le> li'" and "li' \<le> length lines"
  using assms seek_sequence_bounds [of lines "[the ctx]" li False]
  by (force simp: seek_context_def split: option.splits)+

lemma last_is_blank: "last_is (\<lambda>l. l = []) xs \<Longrightarrow> xs = butlast xs @ [[]]"
  by (auto simp: last_is_def) (metis append_butlast_last_id)

lemma locate_old_lines_bounds:
  assumes "locate_old_lines lines li chunk = (Some s, pattern, new)" and "li \<le> length lines"
    and "old_lines chunk \<noteq> []"
  shows "s + length pattern \<le> length lines" and "\<not> is_end_of_file chunk \<Longrightarrow> li \<le> s"
    and "chunk_replacement lines chunk (s, length pattern, new)"
proof -
  have found: "seek_sequence lines pattern li (is_end_of_file chunk) = Some s"
    and pat: "pattern = old_lines chunk \<and> new = new_lines chunk \<or>
      last_is (\<lambda>l. l = []) (old_lines chunk) \<and> pattern = butlast (old_lines chunk) \<and>
      new = drop_final_blank (new_lines chunk)"
    using assms(1) by (auto simp: locate_old_lines_def drop_final_blank_def Let_def split: if_splits)
  note b = seek_sequence_bounds [OF found assms(2)]
  show "s + length pattern \<le> length lines" by (rule b(1))
  show "\<not> is_end_of_file chunk \<Longrightarrow> li \<le> s" by (rule b(3))
  have "pattern = old_lines chunk \<and> new = new_lines chunk \<or>
      old_lines chunk = pattern @ [[]] \<and> new = drop_final_blank (new_lines chunk)"
    using pat last_is_blank by metis
  then show "chunk_replacement lines chunk (s, length pattern, new)"
    using b(1,2) assms(3) unfolding chunk_replacement_def by (simp only: if_False) blast
qed

lemma insertion_idx_le: "insertion_idx lines \<le> length lines"
  by (simp add: insertion_idx_def)

text \<open>One step of the loop.\<close>

lemma compute_loop_Cons:
  assumes "compute_replacements_loop lines p li reps (chunk # chunks) = Inr out" and "li \<le> length lines"
  obtains li' r where "compute_replacements_loop lines p li' (reps @ [r]) chunks = Inr out"
    and "chunk_replacement lines chunk r" and "li' \<le> length lines"
    and "\<not> is_end_of_file chunk \<Longrightarrow> li \<le> li'"
    and "fst r + fst (snd r) \<le> length lines"
    and "r = (insertion_idx lines, 0, new_lines chunk) \<or>
         fst r + fst (snd r) \<le> li' \<and> (\<not> is_end_of_file chunk \<longrightarrow> li \<le> fst r)"
proof -
  obtain li1 where li1: "seek_context lines p li (change_context chunk) = Inr li1"
    using assms(1) by (auto split: sum.splits)
  note b = seek_context_bounds [OF li1 assms(2)]
  show thesis
  proof (cases "old_lines chunk = []")
    case True
    show thesis
    proof (rule that [of li1 "(insertion_idx lines, 0, new_lines chunk)"])
      show "compute_replacements_loop lines p li1 (reps @ [(insertion_idx lines, 0, new_lines chunk)]) chunks
          = Inr out"
        using assms(1) True li1 by simp
    qed (use b True insertion_idx_le in \<open>auto simp: chunk_replacement_def\<close>)
  next
    case False
    obtain s pattern new where loc: "locate_old_lines lines li1 chunk = (Some s, pattern, new)"
      and rest: "compute_replacements_loop lines p (s + length pattern)
        (reps @ [(s, length pattern, new)]) chunks = Inr out"
      using assms(1) False li1 by (auto split: option.splits prod.splits)
    note l = locate_old_lines_bounds [OF loc b(2) False]
    show thesis by (rule that [OF rest l(3) l(1)]) (use l b in auto)
  qed
qed

lemma compute_loop_result:
  assumes "compute_replacements_loop lines p li reps chunks = Inr out" and "li \<le> length lines"
    and "\<forall>r\<in>set reps. fst r + fst (snd r) \<le> length lines"
  shows "\<exists>rs. out = reps @ rs \<and> list_all2 (chunk_replacement lines) chunks rs \<and>
    (\<forall>r\<in>set out. fst r + fst (snd r) \<le> length lines)"
  using assms
proof (induction chunks arbitrary: li reps)
  case Nil
  then show ?case by simp
next
  case (Cons chunk chunks)
  obtain li' r where *: "compute_replacements_loop lines p li' (reps @ [r]) chunks = Inr out"
    and r: "chunk_replacement lines chunk r" and "li' \<le> length lines"
    and "fst r + fst (snd r) \<le> length lines"
    by (rule compute_loop_Cons [OF Cons.prems(1,2)])
  then obtain rs where "out = (reps @ [r]) @ rs" "list_all2 (chunk_replacement lines) chunks rs"
    "\<forall>r\<in>set out. fst r + fst (snd r) \<le> length lines"
    using Cons.IH [OF *] Cons.prems(3) by auto
  then show ?case using r by (intro exI [of _ "r # rs"]) auto
qed

text \<open>
  The order of the regions: \<open>compat r s\<close> for \<open>r\<close> scheduled before \<open>s\<close> is what the stable sort
  turns into \<open>before\<close>.
\<close>

definition compat :: "replacement \<Rightarrow> replacement \<Rightarrow> bool" where
  "compat r s \<longleftrightarrow> (if fst r \<le> fst s then before r s else before s r)"

lemma insort_before:
  assumes "sorted_wrt before ys" and "\<forall>y\<in>set ys. compat x y"
  shows "sorted_wrt before (insort_key fst x ys)"
  using assms
proof (induction ys)
  case (Cons y ys)
  show ?case
  proof (cases "fst x \<le> fst y")
    case True
    have "fst x \<le> fst z" if "z \<in> set ys" for z
      using Cons.prems(1) that True by (auto simp: before_def)
    then have "\<forall>z\<in>set (y # ys). before x z"
      using Cons.prems(2) True by (auto simp: compat_def)
    then show ?thesis using Cons.prems(1) True by simp
  next
    case False
    then have "before y x" using Cons.prems(2) by (auto simp: compat_def)
    then show ?thesis
      using Cons False by (auto simp: set_insort_key)
  qed
qed simp

lemma sort_before: "sorted_wrt compat rs \<Longrightarrow> sorted_wrt before (sort_key fst rs)"
  by (induction rs) (auto simp: insort_before)

lemma compute_loop_compat:
  assumes "compute_replacements_loop lines p li reps chunks = Inr out" and "li \<le> length lines"
    and "\<forall>c\<in>set chunks. \<not> is_end_of_file c" and "insertion_idx lines = length lines"
    and "sorted_wrt compat reps"
    and "\<forall>r\<in>set reps. fst r + fst (snd r) \<le> li \<or> fst r = length lines \<and> fst (snd r) = 0"
  shows "sorted_wrt compat out"
  using assms
proof (induction chunks arbitrary: li reps)
  case Nil
  then show ?case by simp
next
  case (Cons chunk chunks)
  from Cons.prems(3) have eof: "\<not> is_end_of_file chunk" by simp
  obtain li' r where *: "compute_replacements_loop lines p li' (reps @ [r]) chunks = Inr out"
    and li': "li' \<le> length lines" "li \<le> li'" and len: "fst r + fst (snd r) \<le> length lines"
    and r: "r = (length lines, 0, new_lines chunk) \<or> fst r + fst (snd r) \<le> li' \<and> li \<le> fst r"
    using eof Cons.prems(4) by (auto intro: compute_loop_Cons [OF Cons.prems(1,2)])
  have "compat q r" if "q \<in> set reps" for q
    using Cons.prems(2,6) that r len by (fastforce simp: compat_def before_def)
  then have "sorted_wrt compat (reps @ [r])"
    using Cons.prems(5) by (simp add: sorted_wrt_append)
  moreover have "\<forall>q\<in>set (reps @ [r]). fst q + fst (snd q) \<le> li' \<or> fst q = length lines \<and> fst (snd q) = 0"
    using Cons.prems(6) r li' by fastforce
  ultimately show ?case
    using Cons.IH [OF * li'(1)] Cons.prems(3,4) by simp
qed

lemma compute_replacements_result:
  assumes "compute_replacements lines p chunks = Inr rs"
  obtains rs0 where "rs = sort_key fst rs0" and "list_all2 (chunk_replacement lines) chunks rs0"
    and "\<forall>r\<in>set rs. fst r + fst (snd r) \<le> length lines"
    and "\<forall>c\<in>set chunks. \<not> is_end_of_file c \<Longrightarrow> \<not> last_is (\<lambda>l. l = []) lines \<Longrightarrow> sorted_wrt before rs"
proof -
  obtain rs0 where l: "compute_replacements_loop lines p 0 [] chunks = Inr rs0"
    and rs: "rs = sort_key fst rs0"
    using assms by (cases "compute_replacements_loop lines p 0 [] chunks") (auto simp: compute_replacements_def)
  have 1: "list_all2 (chunk_replacement lines) chunks rs0"
    and 2: "\<forall>r\<in>set rs0. fst r + fst (snd r) \<le> length lines"
    using compute_loop_result [OF l] by auto
  have 3: "sorted_wrt before rs"
    if "\<forall>c\<in>set chunks. \<not> is_end_of_file c" "\<not> last_is (\<lambda>l. l = []) lines"
    unfolding rs using compute_loop_compat [OF l] that by (intro sort_before) (simp add: insertion_idx_def)
  show thesis by (rule that [OF rs 1 _ 3]) (use 2 rs in auto)
qed

lemma apply_computed_total:
  assumes "compute_replacements lines p chunks = Inr rs"
  shows "\<exists>out. apply_replacements lines rs = Some out"
proof -
  obtain rs0 where rs: "rs = sort_key fst rs0"
    and le: "\<forall>r\<in>set rs. fst r + fst (snd r) \<le> length lines"
    by (rule compute_replacements_result [OF assms])
  have "sorted (map fst rs)" unfolding rs by simp
  then show ?thesis using apply_replacements_total [of rs lines] le by force
qed

section \<open>The end of the new contents\<close>

lemma end_with_newline_text:
  "str_join [NL] (end_with_newline lines) = [] \<or> last (str_join [NL] (end_with_newline lines)) = NL"
proof -
  have "\<exists>ls. end_with_newline lines = ls @ [[]]"
    using last_is_blank [of lines] by (cases "last_is (\<lambda>l. l = []) lines") (auto simp: end_with_newline_def)
  then obtain ls where "end_with_newline lines = ls @ [[]]" by blast
  then show ?thesis by (simp add: str_join_snoc)
qed

lemma compute_loop_error:
  "compute_replacements_loop lines p li reps chunks = Inl e \<Longrightarrow> \<exists>m. e = ComputeReplacements m"
  by (induction chunks arbitrary: li reps)
    (auto simp: seek_context_def split: sum.splits if_splits prod.splits option.splits)

lemma compute_replacements_error:
  "compute_replacements lines p chunks = Inl e \<Longrightarrow> \<exists>m. e = ComputeReplacements m"
  using compute_loop_error [of lines p 0 "[]" chunks]
  by (cases "compute_replacements_loop lines p 0 [] chunks") (auto simp: compute_replacements_def)

lemma derive_new_contents_cases:
  obtains (error) m where "compute_replacements (original_lines_of contents) p chunks = Inl (ComputeReplacements m)"
      and "derive_new_contents_from_text contents p chunks = Some (Inl (ComputeReplacements m))"
  | (ok) rs out where "compute_replacements (original_lines_of contents) p chunks = Inr rs"
      and "apply_replacements (original_lines_of contents) rs = Some out"
      and "derive_new_contents_from_text contents p chunks =
        Some (Inr \<lparr>original_contents = contents, new_contents = str_join [NL] (end_with_newline out)\<rparr>)"
proof (cases "compute_replacements (original_lines_of contents) p chunks")
  case (Inl e)
  then show ?thesis
    using compute_replacements_error [OF Inl] error by (auto simp: derive_new_contents_from_text_def)
next
  case (Inr rs)
  then show ?thesis
    using apply_computed_total [OF Inr] ok by (auto simp: derive_new_contents_from_text_def)
qed

text \<open>Searching for a block that is there, and nowhere earlier, finds it.\<close>

lemma seek_first_exact:
  assumes "old \<noteq> []" and "\<forall>j<length pre. slice (pre @ old @ post) j (length old) \<noteq> old"
  shows "seek_sequence (pre @ old @ post) old 0 False = Some (length pre)"
proof -
  let ?lines = "pre @ old @ post"
  have "length pre \<in> search_range ?lines old 0 False" by (simp add: search_range_def)
  moreover have "block_at 0 ?lines old (length pre)" by (simp add: block_at_exact slice_def)
  ultimately have "find_level ?lines old 0 False 0 = Some (length pre)"
    using assms(2) by (auto simp: find_level_Some block_at_exact)
  then show ?thesis
    unfolding seek_sequence_Some_iff [OF assms(1)] by auto
qed

section \<open>Properties\<close>

text \<open>
  Deriving the new contents never panics, whatever the file and the chunks. The
  only error is a block or a context line that was not found; otherwise the original is
  reported unchanged and the new contents are empty or end with a newline.
\<close>

theorem derive_new_contents_never_panics:
  "case derive_new_contents_from_text contents p chunks of
     None \<Rightarrow> False
   | Some (Inl e) \<Rightarrow> \<exists>m. e = ComputeReplacements m
   | Some (Inr a) \<Rightarrow> original_contents a = contents \<and>
       (new_contents a = [] \<or> last (new_contents a) = NL)"
  by (cases rule: derive_new_contents_cases [of contents p chunks])
    (simp_all add: end_with_newline_text)

text \<open>
  C11 (equivalence): when no chunk is tied to the end of the file and the file does not end
  with an empty line, the regions the chunks are located at do not overlap, each matches the
  old lines of its chunk, and editing from the back gives the file with every region replaced
  in one pass from the front. \<open>rs\<close> lists the replacements in the order of the chunks.
\<close>

theorem derive_new_contents_splice:
  assumes "derive_new_contents_from_text contents p chunks = Some (Inr a)"
    and "\<forall>c\<in>set chunks. \<not> is_end_of_file c"
    and "\<not> last_is (\<lambda>l. l = []) (original_lines_of contents)"
  shows "\<exists>rs. list_all2 (chunk_replacement (original_lines_of contents)) chunks rs \<and>
    sorted_wrt before (sort_key fst rs) \<and>
    new_contents a =
      str_join [NL] (end_with_newline (splice (original_lines_of contents) 0 (sort_key fst rs)))"
proof (cases rule: derive_new_contents_cases [of contents p chunks])
  case (error m)
  with assms(1) show ?thesis by simp
next
  case (ok rs out)
  obtain rs0 where rs: "rs = sort_key fst rs0"
    and all: "list_all2 (chunk_replacement (original_lines_of contents)) chunks rs0"
    and le: "\<forall>r\<in>set rs. fst r + fst (snd r) \<le> length (original_lines_of contents)"
    and before: "sorted_wrt before rs"
    using assms(2,3) by (auto intro: compute_replacements_result [OF ok(1)])
  have "out = splice (original_lines_of contents) 0 rs"
    using apply_replacements_splice [OF before le, of 0] ok(2) by simp
  then show ?thesis using all before rs ok(3) assms(1) by auto
qed

definition example_chunk :: "string \<Rightarrow> string \<Rightarrow> update_file_chunk" where
  "example_chunk old new = \<lparr>change_context = None,
     old_lines = (if old = [] then [] else [lit old]), new_lines = [lit new], is_end_of_file = False\<rparr>"

theorem derive_new_contents_splice_witness:
  "\<exists>a rs. derive_new_contents_from_text (lit ''a'' @ [NL] @ lit ''b'' @ [NL]) (lit ''f'')
        [example_chunk ''a'' ''x'', example_chunk [] ''y''] = Some (Inr a) \<and>
      new_contents a = lit ''x'' @ [NL] @ lit ''b'' @ [NL] @ lit ''y'' @ [NL] \<and>
      sorted_wrt before (sort_key fst rs)"
proof -
  let ?c = "lit ''a'' @ [NL] @ lit ''b'' @ [NL]"
  let ?cs = "[example_chunk ''a'' ''x'', example_chunk [] ''y'']"
  let ?a = "\<lparr>original_contents = ?c,
    new_contents = lit ''x'' @ [NL] @ lit ''b'' @ [NL] @ lit ''y'' @ [NL]\<rparr>"
  have 1: "derive_new_contents_from_text ?c (lit ''f'') ?cs = Some (Inr ?a)" by code_simp
  have 2: "\<forall>c\<in>set ?cs. \<not> is_end_of_file c" by (simp add: example_chunk_def)
  have 3: "\<not> last_is (\<lambda>l. l = []) (original_lines_of ?c)"
    by (simp add: original_lines_of_def last_is_def)
  show ?thesis using 1 derive_new_contents_splice [OF 1 2 3] by auto
qed

text \<open>
  A chunk without a context line whose old lines are in the file is applied
  at their first occurrence: the lines before and after it stay, the new lines take its place.
\<close>

theorem derive_new_contents_first_occurrence:
  assumes "original_lines_of contents = pre @ old @ post" and "old \<noteq> []"
    and "\<forall>j<length pre. slice (pre @ old @ post) j (length old) \<noteq> old"
  shows "derive_new_contents_from_text contents p
      [\<lparr>change_context = None, old_lines = old, new_lines = new, is_end_of_file = False\<rparr>] =
    Some (Inr \<lparr>original_contents = contents,
               new_contents = str_join [NL] (end_with_newline (pre @ new @ post))\<rparr>)"
proof -
  let ?chunk = "\<lparr>change_context = None, old_lines = old, new_lines = new, is_end_of_file = False\<rparr>"
  let ?lines = "pre @ old @ post"
  have "locate_old_lines ?lines 0 ?chunk = (Some (length pre), old, new)"
    using seek_first_exact [OF assms(2,3)] by (simp add: locate_old_lines_def)
  then have "compute_replacements ?lines p [?chunk] = Inr [(length pre, length old, new)]"
    using assms(2) by (simp add: compute_replacements_def seek_context_def)
  moreover have "apply_replacements ?lines [(length pre, length old, new)] = Some (pre @ new @ post)"
    by (simp add: apply_replacements_Cons apply_replacements_Nil apply_one_replacement_eq)
  ultimately show ?thesis by (simp add: derive_new_contents_from_text_def assms(1))
qed

theorem derive_new_contents_first_occurrence_witness:
  "derive_new_contents_from_text (lit ''a'' @ [NL] @ lit ''b'' @ [NL]) (lit ''f'')
      [\<lparr>change_context = None, old_lines = [lit ''b''], new_lines = [lit ''c''], is_end_of_file = False\<rparr>] =
    Some (Inr \<lparr>original_contents = lit ''a'' @ [NL] @ lit ''b'' @ [NL],
               new_contents = str_join [NL] (end_with_newline ([lit ''a''] @ [lit ''c''] @ []))\<rparr>)"
  by (rule derive_new_contents_first_occurrence)
    (simp_all add: original_lines_of_def last_is_def slice_def)

text \<open>
  When the file ends with an empty line, a pure addition after a chunk that
  rewrites the end of the file is lost: it is scheduled before the final empty line, inside
  the region the other chunk removes. Here the line \<open>c\<close> is added by the second chunk and
  absent from the result, which has the empty line of the original at its place.
\<close>

lemma pure_addition_lost_at_blank_end:
  "derive_new_contents_from_text (lit ''a'' @ [NL, NL]) (lit ''f'')
      [\<lparr>change_context = None, old_lines = [lit ''a'', []], new_lines = [lit ''b'', []],
         is_end_of_file = False\<rparr>, example_chunk [] ''c''] =
    Some (Inr \<lparr>original_contents = lit ''a'' @ [NL, NL],
               new_contents = lit ''b'' @ [NL, NL]\<rparr>)"
  by code_simp

end
