(* ===== verification/Apply_Hunks.thy ===== *)
theory Apply_Hunks
  imports Apply_Patch_Correct
begin

text \<open>
  The file side of \<^verbatim>\<open>codex-rs/apply-patch/src/lib.rs\<close>: applying parsed hunks to a file system,
  with the record of what was committed (\<^verbatim>\<open>AppliedPatchDelta\<close>). The file system is the trait
  \<^verbatim>\<open>ExecutorFileSystem\<close>, here a record of functions over a world of any type; the sandbox
  context goes unchanged to every call and is part of the record. Reads leave the world as it
  is. The outer option is a panic of the text edit.
\<close>

section \<open>The file system\<close>

record file_metadata =
  is_directory :: bool
  is_file :: bool
  is_symlink :: bool

text \<open>\<^verbatim>\<open>remove\<close> is called with \<^verbatim>\<open>recursive: false, force: false\<close>, \<^verbatim>\<open>create_directory\<close> with \<^verbatim>\<open>recursive: true\<close>.\<close>

record 'w file_system =
  read_file_text :: "path \<Rightarrow> 'w \<Rightarrow> (rstr, io_error) result"
  get_metadata :: "path \<Rightarrow> 'w \<Rightarrow> (file_metadata, io_error) result"
  write_file :: "path \<Rightarrow> rstr \<Rightarrow> 'w \<Rightarrow> (unit, io_error) result \<times> 'w"
  remove_file :: "path \<Rightarrow> 'w \<Rightarrow> (unit, io_error) result \<times> 'w"
  create_directory :: "path \<Rightarrow> 'w \<Rightarrow> (unit, io_error) result \<times> 'w"

section \<open>Errors and the delta\<close>

text \<open>\<^verbatim>\<open>anyhow::Error\<close>: a message, a wrapped error, or an error with a context in front.\<close>

datatype any_error =
    AnyMsg rstr
  | AnyIo io_error
  | AnyApply apply_patch_error
  | AnyContext rstr any_error

datatype applied_file_change =
    Change_Add (add_content: rstr) (overwritten_content: "rstr option")
  | Change_Delete (delete_content: rstr)
  | Change_Update (update_move_path: "path option") (old_content: rstr)
      (overwritten_move_content: "rstr option") (new_content: rstr)

record applied_patch_change =
  change_path :: path
  change :: applied_file_change

record applied_patch_delta =
  delta_changes :: "applied_patch_change list"
  delta_exact :: bool

definition delta_empty :: applied_patch_delta where
  "delta_empty = \<lparr>delta_changes = [], delta_exact = True\<rparr>"

definition delta_append :: "applied_patch_delta \<Rightarrow> applied_patch_delta \<Rightarrow> applied_patch_delta" where
  "delta_append d other =
     \<lparr>delta_changes = delta_changes d @ delta_changes other,
      delta_exact = (delta_exact d \<and> delta_exact other)\<rparr>"

definition push_change :: "path \<Rightarrow> applied_file_change \<Rightarrow> applied_patch_delta \<Rightarrow> applied_patch_delta" where
  "push_change p c d = d\<lparr>delta_changes := delta_changes d @ [\<lparr>change_path = p, change = c\<rparr>]\<rparr>"

definition and_exact :: "bool \<Rightarrow> applied_patch_delta \<Rightarrow> applied_patch_delta" where
  "and_exact b d = d\<lparr>delta_exact := (delta_exact d \<and> b)\<rparr>"

record affected_paths =
  added :: "path list"
  modified :: "path list"
  deleted :: "path list"

section \<open>Helpers\<close>

definition ensure_not_directory :: "'w file_system \<Rightarrow> path \<Rightarrow> 'w \<Rightarrow> (unit, io_error) result" where
  "ensure_not_directory fs p w =
     (case get_metadata fs p w of
        Inl e \<Rightarrow> Inl e
      | Inr m \<Rightarrow>
          if is_directory m
          then Inl \<lparr>io_error_kind = InvalidInput, io_error_message = lit ''path is a directory''\<rparr>
          else Inr ())"

definition remove_failure_was_side_effect_free ::
  "'w file_system \<Rightarrow> path \<Rightarrow> rstr option \<Rightarrow> 'w \<Rightarrow> bool" where
  "remove_failure_was_side_effect_free fs p expected w =
     (case expected of
        Some c \<Rightarrow> (case read_file_text fs p w of Inr content \<Rightarrow> content = c | Inl _ \<Rightarrow> False)
      | None \<Rightarrow> False)"

text \<open>Whether the path keeps the delta exact; the source clears the flag where this is false.\<close>

definition note_existing_path_delta_support :: "'w file_system \<Rightarrow> path \<Rightarrow> 'w \<Rightarrow> bool" where
  "note_existing_path_delta_support fs p w =
     (case get_metadata fs p w of
        Inr m \<Rightarrow> is_file m \<and> \<not> is_symlink m
      | Inl e \<Rightarrow> io_error_kind e = NotFound)"

definition read_optional_file_text_for_delta ::
  "'w file_system \<Rightarrow> path \<Rightarrow> 'w \<Rightarrow> rstr option \<times> bool" where
  "read_optional_file_text_for_delta fs p w =
     (let ok = note_existing_path_delta_support fs p w
      in case read_file_text fs p w of
           Inr content \<Rightarrow> (Some content, ok)
         | Inl e \<Rightarrow> if io_error_kind e = NotFound then (None, ok) else (None, False))"

definition msg_write :: "path \<Rightarrow> rstr" where
  "msg_write p = lit ''Failed to write file '' @ p"

definition msg_delete :: "path \<Rightarrow> rstr" where
  "msg_delete p = lit ''Failed to delete file '' @ p"

definition msg_remove_original :: "path \<Rightarrow> rstr" where
  "msg_remove_original p = lit ''Failed to remove original '' @ p"

definition msg_create_parents :: "path \<Rightarrow> rstr" where
  "msg_create_parents p = lit ''Failed to create parent directories for '' @ p"

text \<open>\<^verbatim>\<open>with_context\<close> on an I/O result.\<close>

definition with_context :: "rstr \<Rightarrow> ('a, io_error) result \<Rightarrow> ('a, any_error) result" where
  "with_context msg r = map_sum (\<lambda>e. AnyContext msg (AnyIo e)) id r"

definition write_file_with_missing_parent_retry ::
  "'w file_system \<Rightarrow> path \<Rightarrow> rstr \<Rightarrow> 'w \<Rightarrow> (unit, any_error) result \<times> 'w" where
  "write_file_with_missing_parent_retry fs p contents w =
     (case write_file fs p contents w of
        (Inr _, w1) \<Rightarrow> (Inr (), w1)
      | (Inl err, w1) \<Rightarrow>
          if io_error_kind err = NotFound then
            (case (case abs_parent p of
                     Some parent_abs \<Rightarrow> create_directory fs parent_abs w1
                   | None \<Rightarrow> (Inr (), w1)) of
               (Inl e, w2) \<Rightarrow> (with_context (msg_create_parents p) (Inl e), w2)
             | (Inr _, w2) \<Rightarrow>
                 (case write_file fs p contents w2 of
                    (r, w3) \<Rightarrow> (with_context (msg_write p) r, w3)))
          else (with_context (msg_write p) (Inl err), w1))"

section \<open>One hunk\<close>

text \<open>The variables the loop over the hunks updates.\<close>

record 'w apply_state =
  st_world :: 'w
  st_delta :: applied_patch_delta
  st_affected :: affected_paths

type_synonym 'w step_result = "(unit, any_error) result \<times> 'w apply_state"

definition resolve_path :: "path option \<Rightarrow> hunk \<Rightarrow> path \<Rightarrow> path" where
  "resolve_path home h cwd =
     resolve_path_against_base home
       (case h of UpdateFile p _ _ \<Rightarrow> p | AddFile _ _ \<Rightarrow> hunk_path h | DeleteFile _ \<Rightarrow> hunk_path h) cwd"

text \<open>\<^verbatim>\<open>try_write!\<close>: a failed write makes the delta inexact.\<close>

definition try_write ::
  "(unit, any_error) result \<times> 'w \<Rightarrow> 'w apply_state \<Rightarrow> ('w apply_state \<Rightarrow> 'w step_result) \<Rightarrow> 'w step_result" where
  "try_write r st cont =
     (case r of
        (Inr _, w) \<Rightarrow> cont (st\<lparr>st_world := w\<rparr>)
      | (Inl e, w) \<Rightarrow> (Inl e, st\<lparr>st_world := w, st_delta := (st_delta st)\<lparr>delta_exact := False\<rparr>\<rparr>))"

definition apply_add :: "'w file_system \<Rightarrow> path \<Rightarrow> path \<Rightarrow> rstr \<Rightarrow> 'w apply_state \<Rightarrow> 'w step_result" where
  "apply_add fs affected path_abs contents st =
     (case read_optional_file_text_for_delta fs path_abs (st_world st) of
        (overwritten, ok) \<Rightarrow>
          try_write (write_file_with_missing_parent_retry fs path_abs contents (st_world st))
            (st\<lparr>st_delta := and_exact ok (st_delta st)\<rparr>)
            (\<lambda>st1. (Inr (), st1\<lparr>
               st_delta := push_change path_abs (Change_Add contents overwritten) (st_delta st1),
               st_affected := (st_affected st1)\<lparr>added := added (st_affected st1) @ [affected]\<rparr>\<rparr>)))"

definition apply_delete :: "'w file_system \<Rightarrow> path \<Rightarrow> path \<Rightarrow> 'w apply_state \<Rightarrow> 'w step_result" where
  "apply_delete fs affected path_abs st =
     (let w = st_world st;
          deleted_content = (case read_file_text fs path_abs w of Inr c \<Rightarrow> Some c | Inl _ \<Rightarrow> None);
          st1 = st\<lparr>st_delta := and_exact
            (note_existing_path_delta_support fs path_abs w \<and> deleted_content \<noteq> None) (st_delta st)\<rparr>
      in case ensure_not_directory fs path_abs w of
           Inl e \<Rightarrow> (Inl (AnyContext (msg_delete path_abs) (AnyIo e)), st1)
         | Inr _ \<Rightarrow>
             (case remove_file fs path_abs w of
                (Inl e, w2) \<Rightarrow>
                  (Inl (AnyContext (msg_delete path_abs) (AnyIo e)),
                   st1\<lparr>st_world := w2, st_delta := and_exact
                     (remove_failure_was_side_effect_free fs path_abs deleted_content w2) (st_delta st1)\<rparr>)
              | (Inr _, w2) \<Rightarrow>
                  (Inr (), st1\<lparr>st_world := w2,
                     st_delta := (case deleted_content of
                        Some c \<Rightarrow> push_change path_abs (Change_Delete c) (st_delta st1)
                      | None \<Rightarrow> st_delta st1),
                     st_affected := (st_affected st1)\<lparr>deleted := deleted (st_affected st1) @ [affected]\<rparr>\<rparr>)))"

text \<open>The move branch of an update: write the destination, then remove the original.\<close>

definition remove_original ::
  "'w file_system \<Rightarrow> path \<Rightarrow> path \<Rightarrow> path \<Rightarrow> applied_patch \<Rightarrow> rstr option \<Rightarrow> nat \<Rightarrow>
   'w apply_state \<Rightarrow> 'w step_result" where
  "remove_original fs affected path_abs dest_abs ap overwritten idx st =
     (let w = st_world st
      in case ensure_not_directory fs path_abs w of
           Inl e \<Rightarrow> (Inl (AnyContext (msg_remove_original path_abs) (AnyIo e)), st)
         | Inr _ \<Rightarrow>
             (case remove_file fs path_abs w of
                (Inl e, w2) \<Rightarrow>
                  (Inl (AnyContext (msg_remove_original path_abs) (AnyIo e)),
                   st\<lparr>st_world := w2, st_delta := and_exact
                     (remove_failure_was_side_effect_free fs path_abs (Some (original_contents ap)) w2)
                     (st_delta st)\<rparr>)
              | (Inr _, w2) \<Rightarrow>
                  (Inr (), st\<lparr>st_world := w2,
                     st_delta := (st_delta st)\<lparr>delta_changes := (delta_changes (st_delta st))[idx :=
                        \<lparr>change_path = path_abs,
                         change = Change_Update (Some dest_abs) (original_contents ap) overwritten
                           (new_contents ap)\<rparr>]\<rparr>,
                     st_affected := (st_affected st)\<lparr>modified := modified (st_affected st) @ [affected]\<rparr>\<rparr>)))"

definition apply_move ::
  "'w file_system \<Rightarrow> path \<Rightarrow> path \<Rightarrow> path \<Rightarrow> applied_patch \<Rightarrow> 'w apply_state \<Rightarrow> 'w step_result" where
  "apply_move fs affected path_abs dest_abs ap st =
     (case read_optional_file_text_for_delta fs dest_abs (st_world st) of
        (overwritten, ok) \<Rightarrow>
          try_write (write_file_with_missing_parent_retry fs dest_abs (new_contents ap) (st_world st))
            (st\<lparr>st_delta := and_exact ok (st_delta st)\<rparr>)
            (\<lambda>st1. remove_original fs affected path_abs dest_abs ap overwritten
               (length (delta_changes (st_delta st1)))
               (st1\<lparr>st_delta := push_change dest_abs (Change_Add (new_contents ap) overwritten) (st_delta st1)\<rparr>)))"

definition apply_in_place ::
  "'w file_system \<Rightarrow> path \<Rightarrow> path \<Rightarrow> applied_patch \<Rightarrow> 'w apply_state \<Rightarrow> 'w step_result" where
  "apply_in_place fs affected path_abs ap st =
     try_write
       (case write_file fs path_abs (new_contents ap) (st_world st) of
          (r, w) \<Rightarrow> (with_context (msg_write path_abs) r, w))
       st
       (\<lambda>st1. (Inr (), st1\<lparr>
          st_delta := push_change path_abs
            (Change_Update None (original_contents ap) None (new_contents ap)) (st_delta st1),
          st_affected := (st_affected st1)\<lparr>modified := modified (st_affected st1) @ [affected]\<rparr>\<rparr>))"

definition apply_update ::
  "'w file_system \<Rightarrow> path \<Rightarrow> path \<Rightarrow> path option \<Rightarrow> update_file_chunk list \<Rightarrow> 'w apply_state \<Rightarrow>
   'w step_result option" where
  "apply_update fs affected path_abs dest_abs chunks st =
     (let st1 = st\<lparr>st_delta := and_exact
            (note_existing_path_delta_support fs path_abs (st_world st)) (st_delta st)\<rparr>
      in case derive_new_contents_from_chunks (read_file_text fs path_abs (st_world st)) path_abs chunks of
           None \<Rightarrow> None
         | Some (Inl e) \<Rightarrow> Some (Inl (AnyApply e), st1)
         | Some (Inr ap) \<Rightarrow>
             Some (case dest_abs of
                     Some d \<Rightarrow> apply_move fs affected path_abs d ap st1
                   | None \<Rightarrow> apply_in_place fs affected path_abs ap st1))"

definition apply_hunk ::
  "'w file_system \<Rightarrow> path option \<Rightarrow> path \<Rightarrow> hunk \<Rightarrow> 'w apply_state \<Rightarrow> 'w step_result option" where
  "apply_hunk fs home cwd h st =
     (let affected = hunk_path h; path_abs = resolve_path home h cwd
      in case h of
           AddFile _ contents \<Rightarrow> Some (apply_add fs affected path_abs contents st)
         | DeleteFile _ \<Rightarrow> Some (apply_delete fs affected path_abs st)
         | UpdateFile _ move_path chunks \<Rightarrow>
             apply_update fs affected path_abs
               (map_option (\<lambda>dest. resolve_path_against_base home dest cwd) move_path) chunks st)"

section \<open>All hunks\<close>

fun apply_hunks_loop ::
  "'w file_system \<Rightarrow> path option \<Rightarrow> path \<Rightarrow> hunk list \<Rightarrow> 'w apply_state \<Rightarrow> 'w step_result option" where
  "apply_hunks_loop fs home cwd [] st = Some (Inr (), st)"
| "apply_hunks_loop fs home cwd (h # hs) st =
     (case apply_hunk fs home cwd h st of
        None \<Rightarrow> None
      | Some (Inl e, st1) \<Rightarrow> Some (Inl e, st1)
      | Some (Inr _, st1) \<Rightarrow> apply_hunks_loop fs home cwd hs st1)"

definition init_state :: "'w \<Rightarrow> applied_patch_delta \<Rightarrow> 'w apply_state" where
  "init_state w delta = \<lparr>st_world = w, st_delta = delta,
     st_affected = \<lparr>added = [], modified = [], deleted = []\<rparr>\<rparr>"

definition apply_hunks_to_files ::
  "'w file_system \<Rightarrow> path option \<Rightarrow> path \<Rightarrow> hunk list \<Rightarrow> applied_patch_delta \<Rightarrow> 'w \<Rightarrow>
   ((affected_paths, any_error) result \<times> applied_patch_delta \<times> 'w) option" where
  "apply_hunks_to_files fs home cwd hunks delta w =
     (if hunks = [] then Some (Inl (AnyMsg (lit ''No files were modified.'')), delta, w)
      else map_option (\<lambda>(r, st). (map_sum id (\<lambda>_. st_affected st) r, st_delta st, st_world st))
             (apply_hunks_loop fs home cwd hunks (init_state w delta)))"

section \<open>Reporting\<close>

text \<open>
  A writer prints one line and may fail; the two streams have states of their own. An error
  is rendered by its outermost context.
\<close>

type_synonym 'o writer = "rstr \<Rightarrow> 'o \<Rightarrow> (unit, io_error) result \<times> 'o"

fun show_parse_error :: "parse_error \<Rightarrow> rstr" where
  "show_parse_error (InvalidPatchError m) = lit ''invalid patch: '' @ m"
| "show_parse_error (InvalidHunkError m n) = lit ''invalid hunk at line '' @ show_nat n @ lit '', '' @ m"

fun show_apply_error :: "apply_patch_error \<Rightarrow> rstr" where
  "show_apply_error (ParseError e) = show_parse_error e"
| "show_apply_error (IoError ctx e) = ctx @ lit '': '' @ io_error_message e"
| "show_apply_error (ComputeReplacements m) = m"
| "show_apply_error ImplicitInvocation =
     lit ''patch detected without explicit call to apply_patch. Rerun as '' @
     lit ''['' @ [34] @ lit ''apply_patch'' @ [34] @ lit '', '' @ [34] @ lit ''<patch>'' @ [34] @ lit '']''"

fun show_any_error :: "any_error \<Rightarrow> rstr" where
  "show_any_error (AnyMsg m) = m"
| "show_any_error (AnyIo e) = io_error_message e"
| "show_any_error (AnyApply e) = show_apply_error e"
| "show_any_error (AnyContext c e) = c"

text \<open>\<^verbatim>\<open>downcast_ref::<std::io::Error>\<close> looks through the contexts.\<close>

fun downcast_io :: "any_error \<Rightarrow> io_error option" where
  "downcast_io (AnyIo e) = Some e"
| "downcast_io (AnyContext c e) = downcast_io e"
| "downcast_io _ = None"

definition from_io_error :: "io_error \<Rightarrow> apply_patch_error" where
  "from_io_error e = IoError (lit ''I/O error'') e"

fun write_lines :: "'o writer \<Rightarrow> rstr list \<Rightarrow> 'o \<Rightarrow> (unit, io_error) result \<times> 'o" where
  "write_lines out [] s = (Inr (), s)"
| "write_lines out (l # ls) s =
     (case out l s of (Inl e, s1) \<Rightarrow> (Inl e, s1) | (Inr _, s1) \<Rightarrow> write_lines out ls s1)"

definition print_summary :: "'o writer \<Rightarrow> affected_paths \<Rightarrow> 'o \<Rightarrow> (unit, io_error) result \<times> 'o" where
  "print_summary out affected s =
     write_lines out
       (lit ''Success. Updated the following files:'' #
        map (\<lambda>p. lit ''A '' @ p) (added affected) @
        map (\<lambda>p. lit ''M '' @ p) (modified affected) @
        map (\<lambda>p. lit ''D '' @ p) (deleted affected)) s"

record apply_patch_failure =
  failure_error :: apply_patch_error
  failure_delta :: applied_patch_delta

text \<open>The two streams and the file system after a run, with its result.\<close>

record ('o, 'e, 'w) run_result =
  run_out :: 'o
  run_err :: 'e
  run_world :: 'w
  run_value :: "(applied_patch_delta, apply_patch_failure) result"

definition failure_of :: "any_error \<Rightarrow> apply_patch_error" where
  "failure_of error =
     (case downcast_io error of
        Some io \<Rightarrow> from_io_error io
      | None \<Rightarrow> IoError (show_any_error error)
          \<lparr>io_error_kind = OtherKind, io_error_message = show_any_error error\<rparr>)"

definition apply_hunks ::
  "'w file_system \<Rightarrow> path option \<Rightarrow> 'o writer \<Rightarrow> 'e writer \<Rightarrow> hunk list \<Rightarrow> path \<Rightarrow> 'o \<Rightarrow> 'e \<Rightarrow> 'w \<Rightarrow>
   ('o, 'e, 'w) run_result option" where
  "apply_hunks fs home out err hunks cwd so se w =
     (case apply_hunks_to_files fs home cwd hunks delta_empty w of
        None \<Rightarrow> None
      | Some (Inr affected, delta, w') \<Rightarrow>
          (case print_summary out affected so of
             (Inl e, so') \<Rightarrow> Some \<lparr>run_out = so', run_err = se, run_world = w',
                run_value = Inl \<lparr>failure_error = from_io_error e, failure_delta = delta\<rparr>\<rparr>
           | (Inr _, so') \<Rightarrow> Some \<lparr>run_out = so', run_err = se, run_world = w', run_value = Inr delta\<rparr>)
      | Some (Inl error, delta, w') \<Rightarrow>
          (case err (show_any_error error) se of
             (Inl e, se') \<Rightarrow> Some \<lparr>run_out = so, run_err = se', run_world = w',
                run_value = Inl \<lparr>failure_error = from_io_error e, failure_delta = delta\<rparr>\<rparr>
           | (Inr _, se') \<Rightarrow> Some \<lparr>run_out = so, run_err = se', run_world = w',
                run_value = Inl \<lparr>failure_error = failure_of error, failure_delta = delta\<rparr>\<rparr>))"

definition parse_error_report :: "parse_error \<Rightarrow> rstr" where
  "parse_error_report e =
     (case e of
        InvalidPatchError m \<Rightarrow> lit ''Invalid patch: '' @ m
      | InvalidHunkError m n \<Rightarrow> lit ''Invalid patch hunk on line '' @ show_nat n @ lit '': '' @ m)"

definition apply_patch ::
  "'w file_system \<Rightarrow> path option \<Rightarrow> 'o writer \<Rightarrow> 'e writer \<Rightarrow> rstr \<Rightarrow> path \<Rightarrow> 'o \<Rightarrow> 'e \<Rightarrow> 'w \<Rightarrow>
   ('o, 'e, 'w) run_result option" where
  "apply_patch fs home out err patch cwd so se w =
     (case parse_patch patch of
        Inr source \<Rightarrow> apply_hunks fs home out err (args_hunks source) cwd so se w
      | Inl e \<Rightarrow>
          (case err (parse_error_report e) se of
             (Inl io, se') \<Rightarrow> Some \<lparr>run_out = so, run_err = se', run_world = w,
                run_value = Inl \<lparr>failure_error = from_io_error io, failure_delta = delta_empty\<rparr>\<rparr>
           | (Inr _, se') \<Rightarrow> Some \<lparr>run_out = so, run_err = se', run_world = w,
                run_value = Inl \<lparr>failure_error = ParseError e, failure_delta = delta_empty\<rparr>\<rparr>))"

end
