(* ===== verification/Apply_Delta.thy ===== *)
theory Apply_Delta
  imports Apply_Hunks Patch_Grammar
begin

text \<open>
  What the delta of \<open>Apply_Hunks\<close> promises: while it is exact, replaying its changes on the
  initial files gives the files after the run, and undoing them from the last to the first
  gives the initial files back, also after a failure. The laws of the file system that this
  needs are the hypothesis \<open>fs_laws\<close>.
\<close>

section \<open>Specification\<close>

text \<open>The text files of a world, as reading shows them.\<close>

type_synonym files = "path \<Rightarrow> rstr option"

definition view :: "'w file_system \<Rightarrow> 'w \<Rightarrow> files" where
  "view fs w p = (case read_file_text fs p w of Inr c \<Rightarrow> Some c | Inl _ \<Rightarrow> None)"

text \<open>
  Documented behaviour of the file system, on paths that are no aliases of each other: a
  write that succeeds stores the text at its path and nothing else; one that fails because a
  directory is missing, and creating directories, leave the files alone; a removal that
  succeeds drops its file, one that fails leaves it as it was or drops it, and touches no
  other file.
\<close>

definition fs_laws :: "'w file_system \<Rightarrow> bool" where
  "fs_laws fs \<longleftrightarrow>
     (\<forall>p c w u w'. write_file fs p c w = (Inr u, w') \<longrightarrow> view fs w' = (view fs w)(p \<mapsto> c)) \<and>
     (\<forall>p c w e w'. write_file fs p c w = (Inl e, w') \<and> io_error_kind e = NotFound \<longrightarrow>
        view fs w' = view fs w) \<and>
     (\<forall>p w r w'. create_directory fs p w = (r, w') \<longrightarrow> view fs w' = view fs w) \<and>
     (\<forall>p w u w'. remove_file fs p w = (Inr u, w') \<longrightarrow> view fs w' = (view fs w)(p := None)) \<and>
     (\<forall>p w e w'. remove_file fs p w = (Inl e, w') \<longrightarrow>
        view fs w' = view fs w \<or> view fs w' = (view fs w)(p := None))"

fun replay_change :: "files \<Rightarrow> applied_patch_change \<Rightarrow> files" where
  "replay_change m c =
     (case change c of
        Change_Add content _ \<Rightarrow> m(change_path c \<mapsto> content)
      | Change_Delete _ \<Rightarrow> m(change_path c := None)
      | Change_Update None _ _ content \<Rightarrow> m(change_path c \<mapsto> content)
      | Change_Update (Some dest) _ _ content \<Rightarrow> (m(dest \<mapsto> content))(change_path c := None))"

fun undo_change :: "applied_patch_change \<Rightarrow> files \<Rightarrow> files" where
  "undo_change c m =
     (case change c of
        Change_Add _ overwritten \<Rightarrow> m(change_path c := overwritten)
      | Change_Delete content \<Rightarrow> m(change_path c \<mapsto> content)
      | Change_Update None old _ _ \<Rightarrow> m(change_path c \<mapsto> old)
      | Change_Update (Some dest) old overwritten _ \<Rightarrow> (m(change_path c \<mapsto> old))(dest := overwritten))"

declare replay_change.simps [simp del] undo_change.simps [simp del]

definition replay :: "applied_patch_change list \<Rightarrow> files \<Rightarrow> files" where
  "replay cs m = foldl replay_change m cs"

definition undo :: "applied_patch_change list \<Rightarrow> files \<Rightarrow> files" where
  "undo cs m = foldr undo_change cs m"

text \<open>The invariant of the loop, from the files \<open>m0\<close> at its start.\<close>

definition delta_ok :: "files \<Rightarrow> applied_patch_delta \<Rightarrow> files \<Rightarrow> bool" where
  "delta_ok m0 d m \<longleftrightarrow>
     (delta_exact d \<longrightarrow> replay (delta_changes d) m0 = m \<and> undo (delta_changes d) m = m0)"

section \<open>Lemmas\<close>

lemma fs_laws_write: "fs_laws fs \<Longrightarrow> write_file fs p c w = (Inr u, w') \<Longrightarrow> view fs w' = (view fs w)(p \<mapsto> c)"
  by (simp add: fs_laws_def)

lemma fs_laws_write_NotFound:
  "fs_laws fs \<Longrightarrow> write_file fs p c w = (Inl e, w') \<Longrightarrow> io_error_kind e = NotFound \<Longrightarrow> view fs w' = view fs w"
  unfolding fs_laws_def by blast

lemma fs_laws_create: "fs_laws fs \<Longrightarrow> create_directory fs p w = (r, w') \<Longrightarrow> view fs w' = view fs w"
  unfolding fs_laws_def by blast

lemma fs_laws_remove: "fs_laws fs \<Longrightarrow> remove_file fs p w = (Inr u, w') \<Longrightarrow> view fs w' = (view fs w)(p := None)"
  by (simp add: fs_laws_def)

lemma fs_laws_remove_failed:
  "fs_laws fs \<Longrightarrow> remove_file fs p w = (Inl e, w') \<Longrightarrow> view fs w' p \<noteq> None \<Longrightarrow> view fs w' = view fs w"
  unfolding fs_laws_def by (metis fun_upd_same)

lemma write_retry_view:
  assumes "fs_laws fs" and "write_file_with_missing_parent_retry fs p c w = (Inr u, w')"
  shows "view fs w' = (view fs w)(p \<mapsto> c)"
proof (cases "write_file fs p c w")
  case (Pair r w1)
  show ?thesis
  proof (cases r)
    case (Inr x)
    with Pair assms show ?thesis
      by (auto simp: write_file_with_missing_parent_retry_def intro: fs_laws_write)
  next
    case (Inl err)
    with Pair assms(2) have nf: "io_error_kind err = NotFound"
      by (auto simp: write_file_with_missing_parent_retry_def with_context_def split: if_splits)
    obtain r2 w2 where mk: "(case abs_parent p of Some q \<Rightarrow> create_directory fs q w1 | None \<Rightarrow> (Inr (), w1)) = (r2, w2)"
      by fastforce
    then have "view fs w2 = view fs w1"
      using fs_laws_create [OF assms(1)] by (cases "abs_parent p") auto
    moreover have "view fs w1 = view fs w"
      using fs_laws_write_NotFound [OF assms(1)] Pair Inl nf by blast
    moreover obtain r3 w3 where wr: "write_file fs p c w2 = (r3, w3)" by fastforce
    have "write_file_with_missing_parent_retry fs p c w =
        (case r2 of Inl e \<Rightarrow> (with_context (msg_create_parents p) (Inl e), w2)
         | Inr _ \<Rightarrow> (with_context (msg_write p) r3, w3))"
      unfolding write_file_with_missing_parent_retry_def Pair Inl
      by (simp add: nf mk wr split: sum.splits)
    with assms(2) have "\<exists>x. r3 = Inr x" "w3 = w'"
      by (cases r2; cases r3; auto simp: with_context_def)+
    ultimately show ?thesis using fs_laws_write [OF assms(1)] wr by metis
  qed
qed

lemma read_optional_view:
  "read_optional_file_text_for_delta fs p w = (ov, True) \<Longrightarrow> ov = view fs w p"
  by (auto simp: read_optional_file_text_for_delta_def view_def split: sum.splits if_splits)

lemma remove_failed_view:
  assumes "fs_laws fs" and "remove_file fs p w = (Inl e, w')"
    and "remove_failure_was_side_effect_free fs p expected w'"
  shows "view fs w' = view fs w"
  using assms(3) fs_laws_remove_failed [OF assms(1,2)]
  by (auto simp: remove_failure_was_side_effect_free_def view_def split: option.splits sum.splits)

lemma delta_ok_push:
  assumes "delta_ok m0 d m" and "delta_exact d \<Longrightarrow> replay_change m \<lparr>change_path = p, change = c\<rparr> = m'"
    and "delta_exact d \<Longrightarrow> undo_change \<lparr>change_path = p, change = c\<rparr> m' = m"
  shows "delta_ok m0 (push_change p c d) m'"
  using assms by (auto simp: delta_ok_def push_change_def replay_def undo_def)

lemma delta_ok_inexact [simp]: "delta_ok m0 (d\<lparr>delta_exact := False\<rparr>) m"
  by (simp add: delta_ok_def)

lemma delta_ok_and_exact:
  assumes "b \<Longrightarrow> delta_ok m0 d m"
  shows "delta_ok m0 (and_exact b d) m"
  using assms by (auto simp: delta_ok_def and_exact_def)

lemma and_exact_sel [simp]: "delta_exact (and_exact b d) \<longleftrightarrow> delta_exact d \<and> b"
  "delta_changes (and_exact b d) = delta_changes d"
  by (simp_all add: and_exact_def)

section \<open>The steps keep the invariant\<close>

definition state_ok :: "'w file_system \<Rightarrow> files \<Rightarrow> 'w apply_state \<Rightarrow> bool" where
  "state_ok fs m0 st \<longleftrightarrow> delta_ok m0 (st_delta st) (view fs (st_world st))"

lemma state_ok_and_exact:
  "state_ok fs m0 st \<Longrightarrow> state_ok fs m0 (st\<lparr>st_delta := and_exact b (st_delta st)\<rparr>)"
  by (simp add: state_ok_def delta_ok_and_exact)

lemma apply_add_ok:
  assumes "fs_laws fs" and "state_ok fs m0 st" and "apply_add fs aff p c st = (res, st')"
  shows "state_ok fs m0 st'"
proof -
  obtain ov ok where ov: "read_optional_file_text_for_delta fs p (st_world st) = (ov, ok)" by fastforce
  obtain r w where wr: "write_file_with_missing_parent_retry fs p c (st_world st) = (r, w)" by fastforce
  show ?thesis
  proof (cases r)
    case (Inl e)
    then show ?thesis using assms(3) by (auto simp: apply_add_def ov wr try_write_def state_ok_def)
  next
    case (Inr u)
    have v: "view fs w = (view fs (st_world st))(p \<mapsto> c)"
      using write_retry_view [OF assms(1)] wr Inr by simp
    have "delta_ok m0 (push_change p (Change_Add c ov) (and_exact ok (st_delta st))) (view fs w)"
    proof (rule delta_ok_push)
      show "delta_ok m0 (and_exact ok (st_delta st)) (view fs (st_world st))"
        using state_ok_and_exact [OF assms(2), of ok] by (simp add: state_ok_def)
    qed (use ov read_optional_view [of fs p "st_world st"] in
          \<open>auto simp: v replay_change.simps undo_change.simps\<close>)
    then show ?thesis
      using assms(3) Inr by (auto simp: apply_add_def ov wr try_write_def state_ok_def)
  qed
qed

lemma apply_delete_ok:
  assumes "fs_laws fs" and "state_ok fs m0 st" and "apply_delete fs aff p st = (res, st')"
  shows "state_ok fs m0 st'"
proof -
  let ?w = "st_world st"
  define dc where "dc = view fs ?w p"
  define d1 where "d1 = and_exact (note_existing_path_delta_support fs p ?w \<and> dc \<noteq> None) (st_delta st)"
  have d1: "delta_ok m0 d1 (view fs ?w)"
    using state_ok_and_exact [OF assms(2)] by (simp add: state_ok_def d1_def)
  have dc: "(case read_file_text fs p ?w of Inr c \<Rightarrow> Some c | Inl _ \<Rightarrow> None) = dc"
    by (simp add: dc_def view_def)
  note run = assms(3) [unfolded apply_delete_def Let_def dc, folded d1_def]
  show ?thesis
  proof (cases "ensure_not_directory fs p ?w")
    case (Inl e)
    then show ?thesis using run d1 by (auto simp: state_ok_def)
  next
    case (Inr u)
    obtain r w2 where rm: "remove_file fs p ?w = (r, w2)" by fastforce
    show ?thesis
    proof (cases r)
      case (Inl e)
      have "delta_ok m0 (and_exact (remove_failure_was_side_effect_free fs p dc w2) d1) (view fs w2)"
        using d1 rm Inl remove_failed_view [OF assms(1), of p ?w e w2 dc]
        by (intro delta_ok_and_exact) simp
      then show ?thesis
        using run Inr Inl rm by (auto simp: state_ok_def)
    next
      case (Inr v)
      have w2: "view fs w2 = (view fs ?w)(p := None)" using fs_laws_remove [OF assms(1)] rm Inr by blast
      have "delta_ok m0 (case dc of Some c \<Rightarrow> push_change p (Change_Delete c) d1 | None \<Rightarrow> d1) (view fs w2)"
      proof (cases dc)
        case None
        then show ?thesis by (simp add: d1_def delta_ok_def)
      next
        case (Some c)
        have "delta_ok m0 (push_change p (Change_Delete c) d1) (view fs w2)"
          using Some by (intro delta_ok_push [OF d1])
            (auto simp: w2 dc_def replay_change.simps undo_change.simps)
        with Some show ?thesis by simp
      qed
      then show ?thesis
        using run \<open>ensure_not_directory fs p ?w = Inr u\<close> Inr rm
        by (cases dc) (auto simp: state_ok_def)
    qed
  qed
qed

text \<open>The update branches start from a file that reads as \<open>original_contents ap\<close>.\<close>

lemma apply_in_place_ok:
  assumes "fs_laws fs" and "state_ok fs m0 st" and "apply_in_place fs aff p ap st = (res, st')"
    and "view fs (st_world st) p = Some (original_contents ap)"
  shows "state_ok fs m0 st'"
proof -
  obtain r w where wr: "write_file fs p (new_contents ap) (st_world st) = (r, w)" by fastforce
  show ?thesis
  proof (cases r)
    case (Inl e)
    then show ?thesis
      using assms(3) by (auto simp: apply_in_place_def wr with_context_def try_write_def state_ok_def)
  next
    case (Inr u)
    have v: "view fs w = (view fs (st_world st))(p \<mapsto> new_contents ap)"
      using fs_laws_write [OF assms(1)] wr Inr by blast
    have "delta_ok m0 (push_change p (Change_Update None (original_contents ap) None (new_contents ap)) (st_delta st))
        (view fs w)"
      using assms(2,4) unfolding state_ok_def
      by (elim delta_ok_push) (auto simp: v replay_change.simps undo_change.simps)
    then show ?thesis
      using assms(3) Inr by (auto simp: apply_in_place_def wr try_write_def with_context_def state_ok_def)
  qed
qed

lemma list_update_push_change:
  "(delta_changes (push_change p c d))[length (delta_changes d) := x] = delta_changes d @ [x]"
  by (simp add: push_change_def list_update_append)

lemma apply_move_ok:
  assumes "fs_laws fs" and "state_ok fs m0 st" and "apply_move fs aff p dest ap st = (res, st')"
    and orig: "view fs (st_world st) p = Some (original_contents ap)"
  shows "state_ok fs m0 st'"
proof -
  let ?new = "new_contents ap" and ?old = "original_contents ap"
  obtain ov ok where ov: "read_optional_file_text_for_delta fs dest (st_world st) = (ov, ok)" by fastforce
  obtain r w where wr: "write_file_with_missing_parent_retry fs dest ?new (st_world st) = (r, w)" by fastforce
  show ?thesis
  proof (cases r)
    case (Inl e)
    then show ?thesis using assms(3) by (auto simp: apply_move_def ov wr try_write_def state_ok_def)
  next
    case (Inr u)
    define d where "d = and_exact ok (st_delta st)"
    define d1 where "d1 = push_change dest (Change_Add ?new ov) d"
    have d: "delta_ok m0 d (view fs (st_world st))"
      using state_ok_and_exact [OF assms(2), of ok] by (simp add: state_ok_def d_def)
    have ov': "delta_exact d \<Longrightarrow> ov = view fs (st_world st) dest"
      using ov read_optional_view [of fs dest "st_world st"] by (auto simp: d_def)
    have v: "view fs w = (view fs (st_world st))(dest \<mapsto> ?new)"
      using write_retry_view [OF assms(1)] wr Inr by simp
    have d1: "delta_ok m0 d1 (view fs w)"
      unfolding d1_def by (rule delta_ok_push [OF d]) (use ov' in \<open>auto simp: v replay_change.simps undo_change.simps\<close>)
    have run: "remove_original fs aff p dest ap ov (length (delta_changes d))
        (st\<lparr>st_world := w, st_delta := d1\<rparr>) = (res, st')"
      using assms(3) Inr by (simp add: apply_move_def ov wr try_write_def d1_def d_def)
    show ?thesis
    proof (cases "ensure_not_directory fs p w")
      case (Inl e)
      then show ?thesis using run d1 by (auto simp: remove_original_def state_ok_def)
    next
      case (Inr v')
      obtain r2 w2 where rm: "remove_file fs p w = (r2, w2)" by fastforce
      show ?thesis
      proof (cases r2)
        case (Inl e)
        have "delta_ok m0 (and_exact (remove_failure_was_side_effect_free fs p (Some ?old) w2) d1) (view fs w2)"
          using d1 rm Inl remove_failed_view [OF assms(1), of p w e w2 "Some ?old"]
          by (intro delta_ok_and_exact) simp
        then show ?thesis using run Inr Inl rm by (auto simp: remove_original_def state_ok_def)
      next
        case (Inr z)
        have w2: "view fs w2 = (view fs w)(p := None)" using fs_laws_remove [OF assms(1)] rm Inr by blast
        have "delta_ok m0 (push_change p (Change_Update (Some dest) ?old ov ?new) d) (view fs w2)"
          by (rule delta_ok_push [OF d])
            (use ov' orig in \<open>auto simp: w2 v replay_change.simps undo_change.simps\<close>)
        then have "delta_ok m0 (d1\<lparr>delta_changes := delta_changes d @ [\<lparr>change_path = p,
            change = Change_Update (Some dest) ?old ov ?new\<rparr>]\<rparr>) (view fs w2)"
          by (simp add: d1_def push_change_def)
        then show ?thesis
          using run Inr rm \<open>ensure_not_directory fs p w = Inr v'\<close>
          by (auto simp: remove_original_def state_ok_def d1_def list_update_push_change)
      qed
    qed
  qed
qed

lemma derive_from_chunks_Inr:
  assumes "derive_new_contents_from_chunks (read_file_text fs p w) q chunks = Some (Inr ap)"
  shows "view fs w p = Some (original_contents ap)"
proof (cases "read_file_text fs p w")
  case (Inl e)
  with assms show ?thesis by (simp add: derive_new_contents_from_chunks_def)
next
  case (Inr c)
  with assms have "derive_new_contents_from_text c q chunks = Some (Inr ap)"
    by (simp add: derive_new_contents_from_chunks_def)
  then have "original_contents ap = c"
    by (cases rule: derive_new_contents_cases [of c q chunks]) auto
  with Inr show ?thesis by (simp add: view_def)
qed

lemma derive_from_chunks_total: "\<exists>r. derive_new_contents_from_chunks rd p chunks = Some r"
proof (cases rd)
  case (Inr c)
  then show ?thesis
    by (cases rule: derive_new_contents_cases [of c p chunks])
      (auto simp: derive_new_contents_from_chunks_def)
qed (simp add: derive_new_contents_from_chunks_def)

lemma apply_hunk_total: "\<exists>r. apply_hunk fs home cwd h st = Some r"
proof (cases h)
  case (UpdateFile p mp chunks)
  obtain r where "derive_new_contents_from_chunks
      (read_file_text fs (resolve_path home h cwd) (st_world st)) (resolve_path home h cwd) chunks = Some r"
    using derive_from_chunks_total by blast
  then show ?thesis
    by (cases r) (auto simp: apply_hunk_def UpdateFile apply_update_def Let_def)
qed (auto simp: apply_hunk_def)

lemma apply_hunks_loop_total: "\<exists>r. apply_hunks_loop fs home cwd hs st = Some r"
proof (induction hs arbitrary: st)
  case (Cons h hs)
  obtain res st1 where "apply_hunk fs home cwd h st = Some (res, st1)"
    using apply_hunk_total [of fs home cwd h st] by auto
  then show ?case using Cons.IH by (cases res) auto
qed simp

lemma apply_update_ok:
  assumes "fs_laws fs" and "state_ok fs m0 st"
    and "apply_update fs aff p dest chunks st = Some (res, st')"
  shows "state_ok fs m0 st'"
proof -
  let ?st1 = "st\<lparr>st_delta := and_exact (note_existing_path_delta_support fs p (st_world st)) (st_delta st)\<rparr>"
  have st1: "state_ok fs m0 ?st1" using assms(2) by (rule state_ok_and_exact)
  obtain r where r: "derive_new_contents_from_chunks (read_file_text fs p (st_world st)) p chunks = Some r"
    using derive_from_chunks_total by blast
  show ?thesis
  proof (cases r)
    case (Inl e)
    then show ?thesis using assms(3) r st1 by (auto simp: apply_update_def Let_def)
  next
    case (Inr ap)
    then have orig: "view fs (st_world ?st1) p = Some (original_contents ap)"
      using derive_from_chunks_Inr r by simp
    show ?thesis
    proof (cases dest)
      case None
      then have "apply_in_place fs aff p ap ?st1 = (res, st')"
        using assms(3) r Inr by (simp add: apply_update_def Let_def)
      then show ?thesis using apply_in_place_ok [OF assms(1) st1 _ orig] by blast
    next
      case (Some d)
      then have "apply_move fs aff p d ap ?st1 = (res, st')"
        using assms(3) r Inr by (simp add: apply_update_def Let_def)
      then show ?thesis using apply_move_ok [OF assms(1) st1 _ orig] by blast
    qed
  qed
qed

lemma apply_hunk_ok:
  assumes "fs_laws fs" and "state_ok fs m0 st" and "apply_hunk fs home cwd h st = Some (res, st')"
  shows "state_ok fs m0 st'"
  using assms(3) apply_add_ok [OF assms(1,2)] apply_delete_ok [OF assms(1,2)] apply_update_ok [OF assms(1,2)]
  by (cases h) (auto simp: apply_hunk_def Let_def)

lemma apply_hunks_loop_ok:
  assumes "fs_laws fs" and "state_ok fs m0 st" and "apply_hunks_loop fs home cwd hs st = Some (res, st')"
  shows "state_ok fs m0 st'"
  using assms(2,3)
proof (induction hs arbitrary: st)
  case (Cons h hs)
  obtain r st1 where h: "apply_hunk fs home cwd h st = Some (r, st1)"
    using apply_hunk_total [of fs home cwd h st] by auto
  have "state_ok fs m0 st1" using apply_hunk_ok [OF assms(1) Cons.prems(1) h] .
  then show ?case using Cons.IH Cons.prems(2) h by (cases r) auto
qed simp

section \<open>A file system in memory\<close>

text \<open>Files and directories as lists; a write needs the directory of its path.\<close>

record mem_world =
  mem_files :: "(path \<times> rstr) list"
  mem_dirs :: "path list"

definition mem_not_found :: io_error where
  "mem_not_found = \<lparr>io_error_kind = NotFound, io_error_message = lit ''not found''\<rparr>"

definition mem_fs :: "mem_world file_system" where
  "mem_fs = \<lparr>
     read_file_text = (\<lambda>p w. case map_of (mem_files w) p of Some c \<Rightarrow> Inr c | None \<Rightarrow> Inl mem_not_found),
     get_metadata = (\<lambda>p w.
       if p \<in> fst ` set (mem_files w) then Inr \<lparr>is_directory = False, is_file = True, is_symlink = False\<rparr>
       else if p \<in> set (mem_dirs w) then Inr \<lparr>is_directory = True, is_file = False, is_symlink = False\<rparr>
       else Inl mem_not_found),
     write_file = (\<lambda>p c w.
       if \<forall>d\<in>set_option (path_parent p). d \<in> set (mem_dirs w)
       then (Inr (), w\<lparr>mem_files := (p, c) # mem_files w\<rparr>) else (Inl mem_not_found, w)),
     remove_file = (\<lambda>p w.
       if p \<in> fst ` set (mem_files w)
       then (Inr (), w\<lparr>mem_files := filter (\<lambda>(q, _). q \<noteq> p) (mem_files w)\<rparr>)
       else (Inl mem_not_found, w)),
     create_directory = (\<lambda>p w. (Inr (), w\<lparr>mem_dirs := p # mem_dirs w\<rparr>))\<rparr>"

lemma map_of_filter_key: "map_of (filter (\<lambda>(q, _). q \<noteq> p) xs) = (map_of xs)(p := None)"
  by (induction xs) auto

lemma mem_view: "view mem_fs w = map_of (mem_files w)"
  by (auto simp: fun_eq_iff view_def mem_fs_def split: option.splits)

lemma mem_fs_laws: "fs_laws mem_fs"
  unfolding fs_laws_def mem_view
  by (auto simp: mem_fs_def map_of_filter_key split: if_splits)

section \<open>Runs\<close>

text \<open>The delta a run reports, on success or with its failure.\<close>

definition run_delta :: "('o, 'e, 'w) run_result \<Rightarrow> applied_patch_delta" where
  "run_delta r = (case run_value r of Inr d \<Rightarrow> d | Inl f \<Rightarrow> failure_delta f)"

lemma apply_hunks_to_files_total:
  "\<exists>r d w'. apply_hunks_to_files fs home cwd hunks delta w = Some (r, d, w')"
  using apply_hunks_loop_total [of fs home cwd hunks "init_state w delta"]
  by (auto simp: apply_hunks_to_files_def)

lemma delta_ok_empty: "delta_ok m delta_empty m"
  by (simp add: delta_ok_def delta_empty_def replay_def undo_def)

lemma apply_hunks_to_files_ok:
  assumes "fs_laws fs" and "apply_hunks_to_files fs home cwd hunks delta_empty w = Some (r, d, w')"
  shows "delta_ok (view fs w) d (view fs w')"
proof -
  have i: "state_ok fs (view fs w) (init_state w delta_empty)"
    by (simp add: state_ok_def init_state_def delta_ok_empty)
  then show ?thesis
    using assms(2) apply_hunks_loop_ok [OF assms(1) i, of home cwd hunks] delta_ok_empty
    by (fastforce simp: apply_hunks_to_files_def state_ok_def split: if_splits)
qed

lemma apply_hunks_cases:
  obtains r d w' x where "apply_hunks_to_files fs home cwd hunks delta_empty w = Some (r, d, w')"
    and "apply_hunks fs home out err hunks cwd so se w = Some x"
    and "run_world x = w'" and "run_delta x = d"
proof -
  obtain r d w' where *: "apply_hunks_to_files fs home cwd hunks delta_empty w = Some (r, d, w')"
    using apply_hunks_to_files_total [of fs home cwd hunks delta_empty w] by blast
  show thesis
  proof (cases r)
    case (Inl e)
    obtain r1 se' where "err (show_any_error e) se = (r1, se')" by fastforce
    then show ?thesis using that [OF *] * Inl by (cases r1) (auto simp: apply_hunks_def run_delta_def)
  next
    case (Inr a)
    obtain r1 so' where "print_summary out a so = (r1, so')" by fastforce
    then show ?thesis using that [OF *] * Inr by (cases r1) (auto simp: apply_hunks_def run_delta_def)
  qed
qed

lemma apply_patch_parse_error:
  assumes "parse_patch patch = Inl e"
  shows "\<exists>x. apply_patch fs home out err patch cwd so se w = Some x \<and> run_world x = w \<and> run_delta x = delta_empty"
proof -
  obtain r1 se' where "err (parse_error_report e) se = (r1, se')" by fastforce
  then show ?thesis using assms by (cases r1) (auto simp: apply_patch_def run_delta_def)
qed

lemma apply_patch_parsed:
  "parse_patch patch = Inr a \<Longrightarrow>
   apply_patch fs home out err patch cwd so se w = apply_hunks fs home out err (args_hunks a) cwd so se w"
  by (simp add: apply_patch_def)

lemma apply_patch_delta_ok:
  assumes "fs_laws fs" and "apply_patch fs home out err patch cwd so se w = Some x"
  shows "delta_ok (view fs w) (run_delta x) (view fs (run_world x))"
proof (cases "parse_patch patch")
  case (Inl e)
  then show ?thesis
    using apply_patch_parse_error [OF Inl, of fs home out err cwd so se w] assms(2) delta_ok_empty by auto
next
  case (Inr a)
  obtain r d w' x' where "apply_hunks_to_files fs home cwd (args_hunks a) delta_empty w = Some (r, d, w')"
    and "apply_hunks fs home out err (args_hunks a) cwd so se w = Some x'"
    and "run_world x' = w'" and "run_delta x' = d"
    by (rule apply_hunks_cases)
  moreover from this have "x' = x" using assms(2) apply_patch_parsed [OF Inr, of fs home out err cwd so se w] by simp
  ultimately show ?thesis using apply_hunks_to_files_ok [OF assms(1)] by blast
qed

section \<open>Properties\<close>

text \<open>
  C6 (invariant): whatever happens while a patch is applied, an error half-way included, if the
  reported delta is exact then it describes the files: replaying its changes on the files
  before the run gives the files after it, and undoing them in reverse order restores the
  files before it.
\<close>

theorem apply_patch_exact_delta:
  assumes "fs_laws fs" and "apply_patch fs home out err patch cwd so se w = Some x"
    and "delta_exact (run_delta x)"
  shows "view fs (run_world x) = replay (delta_changes (run_delta x)) (view fs w) \<and>
         undo (delta_changes (run_delta x)) (view fs (run_world x)) = view fs w"
  using apply_patch_delta_ok [OF assms(1,2)] assms(3) by (auto simp: delta_ok_def)

text \<open>A run in memory: an update with a move into a new directory, then a failing deletion.\<close>

definition mem_writer :: "rstr list writer" where
  "mem_writer l s = (Inr (), s @ [l])"

definition example_run_world :: mem_world where
  "example_run_world = \<lparr>mem_files = [(lit ''/r/a'', lit ''x'' @ [NL])], mem_dirs = [lit ''/'', lit ''/r'']\<rparr>"

definition example_run_hunks :: "patch_hunk list" where
  "example_run_hunks =
     [PUpdate (lit ''a'') (Some (lit ''d/b''))
        [\<lparr>pc_start = EmptyHeader, pc_lines = [Removed (lit ''x''), Added (lit ''y'')], pc_eof = False\<rparr>],
      PUpdate (lit ''n'') None
        [\<lparr>pc_start = EmptyHeader, pc_lines = [Removed (lit ''x'')], pc_eof = False\<rparr>]]"

lemma example_run_parse: "parse_patch (patch_text example_run_hunks) =
    Inr \<lparr>args_patch = patch_text example_run_hunks, args_hunks = map hunk_of example_run_hunks,
         args_workdir = None\<rparr>"
  unfolding parse_patch_def
  by (rule parse_patch_rendered)
    (simp add: example_run_hunks_def wf_path_def wf_chunk_def plain_line_def is_whitespace_def)

definition example_run :: "(rstr list, rstr list, mem_world) run_result option" where
  "example_run = apply_hunks mem_fs None mem_writer mem_writer (map hunk_of example_run_hunks)
     (lit ''/r'') [] [] example_run_world"

lemma example_run_eq:
  "map_option (\<lambda>x. (mem_files (run_world x), run_delta x)) example_run =
   Some ([(lit ''/r/d/b'', lit ''y'' @ [NL])],
         \<lparr>delta_changes = [\<lparr>change_path = lit ''/r/a'',
            change = Change_Update (Some (lit ''/r/d/b'')) (lit ''x'' @ [NL]) None (lit ''y'' @ [NL])\<rparr>],
          delta_exact = True\<rparr>)"
  by code_simp

theorem apply_patch_exact_delta_witness:
  "\<exists>x. apply_patch mem_fs None mem_writer mem_writer (patch_text example_run_hunks) (lit ''/r'') [] []
       example_run_world = Some x \<and> delta_exact (run_delta x) \<and>
     view mem_fs (run_world x) = replay (delta_changes (run_delta x)) (view mem_fs example_run_world) \<and>
     undo (delta_changes (run_delta x)) (view mem_fs (run_world x)) = view mem_fs example_run_world"
proof -
  obtain x where x: "example_run = Some x" "delta_exact (run_delta x)"
    using example_run_eq by (cases example_run) auto
  have run: "apply_patch mem_fs None mem_writer mem_writer (patch_text example_run_hunks) (lit ''/r'') [] []
       example_run_world = Some x"
    using x by (simp add: apply_patch_parsed [OF example_run_parse] example_run_def)
  show ?thesis using apply_patch_exact_delta [OF mem_fs_laws run x(2)] run x(2) by blast
qed

text \<open>
  C40 (termination): applying a patch always returns, on every file system and every text; a
  patch that does not parse changes no file and reports an empty delta.
\<close>

theorem apply_patch_returns:
  "case apply_patch fs home out err patch cwd so se w of
     None \<Rightarrow> False
   | Some x \<Rightarrow> (case parse_patch patch of
        Inl e \<Rightarrow> run_world x = w \<and> run_delta x = delta_empty
      | Inr a \<Rightarrow> True)"
proof (cases "parse_patch patch")
  case (Inl e)
  then show ?thesis using apply_patch_parse_error [OF Inl, of fs home out err cwd so se w] by auto
next
  case (Inr a)
  obtain r d w' x where "apply_hunks_to_files fs home cwd (args_hunks a) delta_empty w = Some (r, d, w')"
    and "apply_hunks fs home out err (args_hunks a) cwd so se w = Some x"
    by (rule apply_hunks_cases)
  then show ?thesis using Inr by (simp add: apply_patch_parsed)
qed

text \<open>The paths of the hunks of each kind, in the order of the patch.\<close>

definition affected_of :: "hunk list \<Rightarrow> affected_paths" where
  "affected_of hs = \<lparr>
     added = map hunk_path (filter (\<lambda>h. case h of AddFile _ _ \<Rightarrow> True | _ \<Rightarrow> False) hs),
     modified = map hunk_path (filter (\<lambda>h. case h of UpdateFile _ _ _ \<Rightarrow> True | _ \<Rightarrow> False) hs),
     deleted = map hunk_path (filter (\<lambda>h. case h of DeleteFile _ \<Rightarrow> True | _ \<Rightarrow> False) hs)\<rparr>"

definition affected_append :: "affected_paths \<Rightarrow> affected_paths \<Rightarrow> affected_paths" where
  "affected_append a b = \<lparr>added = added a @ added b, modified = modified a @ modified b,
     deleted = deleted a @ deleted b\<rparr>"

lemma apply_hunk_affected:
  assumes "apply_hunk fs home cwd h st = Some (Inr u, st')"
  shows "st_affected st' = affected_append (st_affected st) (affected_of [h])"
  using assms
  by (cases h)
    (auto simp: apply_hunk_def apply_add_def apply_delete_def apply_update_def apply_in_place_def
      apply_move_def remove_original_def try_write_def with_context_def affected_append_def affected_of_def
      Let_def split: prod.splits sum.splits option.splits)

lemma affected_append_of:
  "affected_append (affected_append a (affected_of [h])) (affected_of hs) = affected_append a (affected_of (h # hs))"
  by (auto simp: affected_append_def affected_of_def)

lemma affected_append_Nil: "affected_append a (affected_of []) = a"
  by (simp add: affected_append_def affected_of_def)

lemma apply_hunks_loop_affected:
  "apply_hunks_loop fs home cwd hs st = Some (Inr u, st') \<Longrightarrow>
   st_affected st' = affected_append (st_affected st) (affected_of hs)"
proof (induction hs arbitrary: st)
  case (Cons h hs)
  obtain r st1 where h: "apply_hunk fs home cwd h st = Some (r, st1)"
    using apply_hunk_total [of fs home cwd h st] by auto
  with Cons.prems obtain v where r: "r = Inr v" and rest: "apply_hunks_loop fs home cwd hs st1 = Some (Inr u, st')"
    by (cases r) auto
  have "st_affected st1 = affected_append (st_affected st) (affected_of [h])"
    using apply_hunk_affected h r by blast
  then show ?case using Cons.IH [OF rest] by (simp add: affected_append_of)
qed (simp add: affected_append_Nil)

text \<open>
  A run that succeeds had a hunk to apply and reports exactly the paths of
  its hunks, each once, by kind and in the order of the patch (a moved file under its new
  path).
\<close>

theorem apply_hunks_to_files_affected:
  assumes "apply_hunks_to_files fs home cwd hunks delta w = Some (Inr affected, d, w')"
  shows "hunks \<noteq> [] \<and> affected = affected_of hunks"
proof
  show ne: "hunks \<noteq> []" using assms by (auto simp: apply_hunks_to_files_def)
  obtain r st' where l: "apply_hunks_loop fs home cwd hunks (init_state w delta) = Some (r, st')"
    using apply_hunks_loop_total [of fs home cwd hunks "init_state w delta"] by auto
  with assms ne obtain u where "r = Inr u" and a: "affected = st_affected st'"
    by (cases r) (auto simp: apply_hunks_to_files_def)
  then have "affected = affected_append (st_affected (init_state w delta)) (affected_of hunks)"
    using l apply_hunks_loop_affected by blast
  then show "affected = affected_of hunks"
    by (simp add: affected_append_def init_state_def)
qed

theorem apply_hunks_to_files_affected_witness:
  "\<exists>d w'. apply_hunks_to_files mem_fs None (lit ''/r'') [AddFile (lit ''b'') (lit ''t'')] delta_empty
     example_run_world = Some (Inr (affected_of [AddFile (lit ''b'') (lit ''t'')]), d, w')"
proof -
  let ?run = "apply_hunks_to_files mem_fs None (lit ''/r'') [AddFile (lit ''b'') (lit ''t'')] delta_empty
    example_run_world"
  have "map_option (\<lambda>(r, _). isl r) ?run = Some False" by code_simp
  then obtain r d w' where "?run = Some (r, d, w')" and "\<not> isl r" by auto
  moreover from this(2) obtain a where "r = Inr a" by (cases r) auto
  ultimately have *: "?run = Some (Inr a, d, w')" by simp
  then show ?thesis using apply_hunks_to_files_affected [OF *] by blast
qed

text \<open>
  A move whose destination resolves to the file itself writes the new contents and then
  removes the file: after a successful step the file is gone.
\<close>

lemma move_to_same_path_deletes:
  assumes "fs_laws fs"
    and "apply_hunk fs home cwd (UpdateFile p (Some dest) chunks) st = Some (Inr u, st')"
    and "resolve_path_against_base home dest cwd = resolve_path_against_base home p cwd"
  shows "view fs (st_world st') (resolve_path_against_base home p cwd) = None"
proof -
  let ?p = "resolve_path_against_base home p cwd"
  have rm: "view fs w' ?p = None" if "remove_file fs ?p w = (Inr v, w')" for w v w'
    using fs_laws_remove [OF assms(1) that] by simp
  show ?thesis
    using assms(2)
    by (auto simp: apply_hunk_def resolve_path_def assms(3) apply_update_def apply_move_def
        remove_original_def try_write_def Let_def rm
        split: option.splits sum.splits prod.splits)
qed

lemma move_to_same_path_example:
  "map_option (\<lambda>(r, d, w). (case r of Inr _ \<Rightarrow> True | Inl _ \<Rightarrow> False, mem_files w))
     (apply_hunks_to_files mem_fs None (lit ''/r'')
       [UpdateFile (lit ''a'') (Some (lit ''./a'')) [example_chunk ''x'' ''y'']] delta_empty example_run_world) =
   Some (True, [])"
  by code_simp

end
