(* ===== verification/Inline_Hidden_Tag.thy ===== *)
theory Inline_Hidden_Tag
  imports Stream_Interface "HOL-Library.Product_Lexorder"
begin

text \<open>
  \<^verbatim>\<open>codex-rs/utils/stream-parser/src/inline_hidden_tag.rs\<close> and \<^verbatim>\<open>citation.rs\<close>: hiding inline tags
  in streamed text and extracting their contents. The state keeps the text that may still
  become a delimiter (\<open>pending\<close>) and the open tag (\<open>active\<close>). Byte offsets of the source are
  on char boundaries and appear as numbers of chars; a suffix or prefix is longer in bytes
  exactly when it is longer in chars.
\<close>

section \<open>Model\<close>

record 't extracted_inline_tag =
  ext_tag :: 't
  ext_content :: rstr

record 't inline_tag_spec =
  spec_tag :: 't
  spec_open :: rstr
  spec_close :: rstr

record 't active_tag =
  active_tag_tag :: 't
  active_close :: rstr
  active_content :: rstr

record 't inline_parser =
  specs :: "'t inline_tag_spec list"
  pending :: rstr
  active :: "'t active_tag option"

text \<open>\<^verbatim>\<open>new\<close>, with \<open>None\<close> where it panics.\<close>

definition inline_new :: "'t inline_tag_spec list \<Rightarrow> 't inline_parser option" where
  "inline_new ss =
     (if ss \<noteq> [] \<and> (\<forall>s\<in>set ss. spec_open s \<noteq> [] \<and> spec_close s \<noteq> [])
      then Some \<lparr>specs = ss, pending = [], active = None\<rparr> else None)"

text \<open>
  The candidates of \<^verbatim>\<open>find_next_open\<close>: position, length and index. The comparison prefers the
  smaller position, then the greater length, then the smaller index, so the length is
  negated and the minimum is lexicographic.
\<close>

definition open_candidates :: "'t inline_tag_spec list \<Rightarrow> rstr \<Rightarrow> (nat \<times> int \<times> nat) list" where
  "open_candidates ss p =
     List.map_filter (\<lambda>(idx, s). map_option (\<lambda>pos. (pos, - int (utf8_len (spec_open s)), idx))
       (find_str (spec_open s) p)) (enumerate 0 ss)"

definition find_next_open :: "'t inline_tag_spec list \<Rightarrow> rstr \<Rightarrow> (nat \<times> nat) option" where
  "find_next_open ss p =
     (case open_candidates ss p of
        [] \<Rightarrow> None
      | c # cs \<Rightarrow> (case min_list (c # cs) of (pos, _, idx) \<Rightarrow> Some (pos, idx)))"

text \<open>The loop tries the lengths from the greatest possible down to one.\<close>

definition longest_suffix_prefix_len :: "'a list \<Rightarrow> 'a list \<Rightarrow> nat" where
  "longest_suffix_prefix_len s needle =
     (case find (\<lambda>k. ends_with s (take k needle)) (rev [1..<Suc (min (length s) (length needle - 1))]) of
        Some k \<Rightarrow> k | None \<Rightarrow> 0)"

definition max_open_prefix_suffix_len :: "'t inline_tag_spec list \<Rightarrow> rstr \<Rightarrow> nat" where
  "max_open_prefix_suffix_len ss p =
     foldr max (map (\<lambda>s. longest_suffix_prefix_len p (spec_open s)) ss) 0"

definition visible_chunk :: "rstr \<Rightarrow> 'e stream_chunk" where
  "visible_chunk t = \<lparr>visible_text = t, extracted = []\<rparr>"

definition extracted_chunk :: "'e \<Rightarrow> 'e stream_chunk" where
  "extracted_chunk e = \<lparr>visible_text = [], extracted = [e]\<rparr>"

text \<open>
  The loop of \<^verbatim>\<open>push_str\<close> on the open tag and the pending text; it returns what it appends to
  the output. \<^verbatim>\<open>new\<close> has excluded an empty open delimiter, the only one that would not consume
  text, so the branch for it is never taken; it makes the function total.
\<close>

function inline_loop ::
  "'t inline_tag_spec list \<Rightarrow> 't active_tag option \<Rightarrow> rstr \<Rightarrow>
   't extracted_inline_tag stream_chunk \<times> 't active_tag option \<times> rstr" where
  "inline_loop ss (Some a) p =
     (case find_str (active_close a) p of
        Some close_idx \<Rightarrow>
          (case inline_loop ss None (drop (close_idx + length (active_close a)) p) of
             (out, rest) \<Rightarrow>
               (chunk_append (extracted_chunk \<lparr>ext_tag = active_tag_tag a,
                  ext_content = active_content a @ take close_idx p\<rparr>) out, rest))
      | None \<Rightarrow>
          (let keep = longest_suffix_prefix_len p (active_close a); n = length p - keep
           in (chunk_default, Some (a\<lparr>active_content := active_content a @ take n p\<rparr>), drop n p)))"
| "inline_loop ss None p =
     (case find_next_open ss p of
        Some (open_idx, spec_idx) \<Rightarrow>
          (let s = ss ! spec_idx in
           if spec_open s = [] then (visible_chunk p, None, [])
           else
             (case inline_loop ss
                 (Some \<lparr>active_tag_tag = spec_tag s, active_close = spec_close s, active_content = []\<rparr>)
                 (drop (open_idx + length (spec_open s)) p) of
                (out, rest) \<Rightarrow> (chunk_append (visible_chunk (take open_idx p)) out, rest)))
      | None \<Rightarrow>
          (let n = length p - max_open_prefix_suffix_len ss p
           in (visible_chunk (take n p), None, drop n p)))"
  by pat_completeness auto

definition inline_push_str ::
  "'t inline_parser \<Rightarrow> rstr \<Rightarrow> 't extracted_inline_tag stream_chunk \<times> 't inline_parser" where
  "inline_push_str s chunk =
     (case inline_loop (specs s) (active s) (pending s @ chunk) of
        (out, a, p) \<Rightarrow> (out, s\<lparr>active := a, pending := p\<rparr>))"

definition inline_finish ::
  "'t inline_parser \<Rightarrow> 't extracted_inline_tag stream_chunk \<times> 't inline_parser" where
  "inline_finish s =
     (case active s of
        Some a \<Rightarrow>
          (extracted_chunk \<lparr>ext_tag = active_tag_tag a, ext_content = active_content a @ pending s\<rparr>,
           s\<lparr>active := None, pending := []\<rparr>)
      | None \<Rightarrow> (visible_chunk (pending s), s\<lparr>pending := []\<rparr>))"

section \<open>Termination\<close>

lemma open_candidates_iff:
  "(pos, l, idx) \<in> set (open_candidates ss p) \<longleftrightarrow>
     idx < length ss \<and> find_str (spec_open (ss ! idx)) p = Some pos \<and>
     l = - int (utf8_len (spec_open (ss ! idx)))"
  by (auto simp: open_candidates_def map_filter_def in_set_enumerate_eq image_iff split: prod.splits)

lemma find_next_open_Some:
  assumes "find_next_open ss p = Some (pos, idx)"
  shows "idx < length ss" and "find_str (spec_open (ss ! idx)) p = Some pos"
    and "(pos, - int (utf8_len (spec_open (ss ! idx))), idx) = Min (set (open_candidates ss p))"
    and "open_candidates ss p \<noteq> []"
proof -
  obtain c cs where c: "open_candidates ss p = c # cs"
    using assms by (cases "open_candidates ss p") (auto simp: find_next_open_def)
  obtain pos' l idx' where m: "min_list (c # cs) = (pos', l, idx')" by (cases "min_list (c # cs)")
  then have e: "pos' = pos" "idx' = idx" using assms c by (simp_all add: find_next_open_def)
  have M: "Min (set (open_candidates ss p)) = (pos, l, idx)"
    using m e c min_list_Min [of "c # cs"] by simp
  moreover have "Min (set (open_candidates ss p)) \<in> set (open_candidates ss p)"
    using c by (intro Min_in) simp_all
  ultimately have "(pos, l, idx) \<in> set (open_candidates ss p)" by simp
  then show "idx < length ss" "find_str (spec_open (ss ! idx)) p = Some pos"
    and "(pos, - int (utf8_len (spec_open (ss ! idx))), idx) = Min (set (open_candidates ss p))"
    using M by (auto simp: open_candidates_iff)
  show "open_candidates ss p \<noteq> []" using c by simp
qed

termination inline_loop
proof (relation "measure (\<lambda>(ss, a, p). 2 * length p + (if a = None then 0 else 1))")
  fix ss :: "'t inline_tag_spec list" and p :: rstr and x open_idx spec_idx s
  assume "find_next_open ss p = Some x" and "(open_idx, spec_idx) = x" and s: "s = ss ! spec_idx"
    and ne: "spec_open s \<noteq> []"
  then have "find_str (spec_open s) p = Some open_idx" by (metis find_next_open_Some(2))
  then have "open_idx + length (spec_open s) \<le> length p" using find_str_Some by blast
  moreover obtain m where "length (spec_open s) = Suc m" using ne by (cases "spec_open s") auto
  ultimately show "((ss, Some \<lparr>active_tag_tag = spec_tag s, active_close = spec_close s, active_content = []\<rparr>,
      drop (open_idx + length (spec_open s)) p), ss, None, p)
    \<in> measure (\<lambda>(ss, a, p). 2 * length p + (if a = None then 0 else 1))"
    by simp
qed (auto split: if_splits)

declare inline_loop.simps [simp del]

section \<open>Text that may become a delimiter\<close>

lemma find_rev_upt:
  "find P (rev [Suc 0..<Suc m]) = Some k \<longleftrightarrow> 1 \<le> k \<and> k \<le> m \<and> P k \<and> (\<forall>j. k < j \<and> j \<le> m \<longrightarrow> \<not> P j)"
  by (induction m) (auto simp: le_Suc_eq)

lemma longest_suffix_prefix_len_bounds:
  "longest_suffix_prefix_len s n \<le> length s \<and> (n \<noteq> [] \<longrightarrow> longest_suffix_prefix_len s n < length n)"
  by (cases n) (auto simp: longest_suffix_prefix_len_def find_rev_upt simp del: upt_Suc split: option.splits)

lemma longest_suffix_prefix_len_suffix: "suffix (take (longest_suffix_prefix_len s n) n) s"
  by (auto simp: longest_suffix_prefix_len_def find_rev_upt ends_with_iff_suffix simp del: upt_Suc split: option.splits)

lemma longest_suffix_prefix_len_max:
  assumes "suffix (take k n) s" and "k < length n"
  shows "k \<le> longest_suffix_prefix_len s n"
proof (cases "k = 0")
  case False
  have len: "k \<le> length s" using assms suffix_length_le [of "take k n" s] by simp
  let ?m = "min (length s) (length n - 1)" and ?P = "\<lambda>k. ends_with s (take k n)"
  have k: "1 \<le> k" "k \<le> ?m" "?P k" using assms len False by (simp_all add: ends_with_iff_suffix)
  then have "k \<in> set (rev [Suc 0..<Suc ?m])" by auto
  then have "find ?P (rev [Suc 0..<Suc ?m]) \<noteq> None" using k(3) unfolding find_None_iff by blast
  then obtain k' where k': "find ?P (rev [Suc 0..<Suc ?m]) = Some k'" by blast
  then have "\<not> k' < k" using k by (simp only: find_rev_upt) blast
  then show ?thesis using k' by (simp add: longest_suffix_prefix_len_def del: upt_Suc)
qed simp

lemma longest_suffix_prefix_len_eqI:
  assumes "suffix (take k n) s" and "k < length n"
    and "\<And>k'. suffix (take k' n) s \<Longrightarrow> k' < length n \<Longrightarrow> k' \<le> k"
  shows "longest_suffix_prefix_len s n = k"
proof (rule antisym)
  have "n \<noteq> []" using assms(2) by auto
  then show "longest_suffix_prefix_len s n \<le> k"
    using longest_suffix_prefix_len_bounds [of s n] longest_suffix_prefix_len_suffix by (intro assms(3)) auto
  show "k \<le> longest_suffix_prefix_len s n" using assms(1,2) by (rule longest_suffix_prefix_len_max)
qed

text \<open>
  The part \<open>q\<close> of the pending text in front of a possible delimiter start plays no part in any
  later match.
\<close>

lemma no_start_before:
  assumes "longest_suffix_prefix_len (q @ r) c \<le> length r" and "j < length q"
    and "prefix (drop j q @ r) c"
  shows "drop j q @ r = c"
proof (rule ccontr)
  assume "drop j q @ r \<noteq> c"
  then obtain t where t: "c = (drop j q @ r) @ t" "t \<noteq> []" using assms(3) by (auto simp: prefix_def)
  let ?k = "length (drop j q @ r)"
  have "take ?k c = drop j q @ r" using t by simp
  moreover have "suffix (drop j q @ r) (q @ r)" using suffix_drop [of j q] by (simp add: suffix_appendI)
  ultimately have "?k \<le> longest_suffix_prefix_len (q @ r) c"
    using t by (intro longest_suffix_prefix_len_max) (simp_all only:, simp)
  then show False using assms(1,2) by simp
qed

lemma find_str_shift:
  assumes "find_str c (q @ r) = None" and "longest_suffix_prefix_len (q @ r) c \<le> length r"
  shows "find_str c (q @ r @ b) = map_option (\<lambda>i. length q + i) (find_str c (r @ b))"
proof -
  have early: "\<not> prefix c (drop j (q @ r @ b))" if j: "j < length q" for j
  proof
    assume "prefix c (drop j (q @ r @ b))"
    then have pre: "prefix c ((drop j q @ r) @ b)" using j by simp
    then consider "prefix c (drop j q @ r)" | "prefix (drop j q @ r) c"
      using prefix_same_cases [OF pre prefixI [OF refl]] by blast
    then have "prefix c (drop j q @ r)"
      using no_start_before [OF assms(2) j] by cases auto
    then have "prefix c (drop j (q @ r))" using j by simp
    then show False using find_str_None [OF assms(1), of j] j by simp
  qed
  show ?thesis
  proof (cases "find_str c (r @ b)")
    case None
    have "\<not> prefix c (drop j (q @ r @ b))" if "j \<le> length (q @ r @ b)" for j
      using early [of j] find_str_None [OF None, of "j - length q"] that
      by (cases "j < length q") auto
    then have "find_str c (q @ r @ b) = None" by (simp only: find_str_None_iff) blast
    then show ?thesis using None by simp
  next
    case (Some i)
    have "find_str c (q @ r @ b) = Some (length q + i)"
    proof (rule find_str_eqI)
      show "length q + i \<le> length (q @ r @ b)" using find_str_Some [OF Some] by simp
      show "prefix c (drop (length q + i) (q @ r @ b))" using find_str_Some [OF Some] by simp
      show "\<not> prefix c (drop j (q @ r @ b))" if "j < length q + i" for j
        using early [of j] find_str_least [OF Some, of "j - length q"] that by (cases "j < length q") auto
    qed
    then show ?thesis using Some by simp
  qed
qed

lemma longest_suffix_prefix_len_shift:
  assumes "c \<noteq> []" and "longest_suffix_prefix_len (q @ r) c \<le> length r"
  shows "longest_suffix_prefix_len (q @ r @ b) c = longest_suffix_prefix_len (r @ b) c"
proof (rule longest_suffix_prefix_len_eqI)
  let ?k = "longest_suffix_prefix_len (r @ b) c"
  show "suffix (take ?k c) (q @ r @ b)" by (rule suffix_appendI) (rule longest_suffix_prefix_len_suffix)
  show "?k < length c" using longest_suffix_prefix_len_bounds [of "r @ b" c] assms(1) by simp
  fix k assume k: "suffix (take k c) (q @ r @ b)" "k < length c"
  show "k \<le> ?k"
  proof (cases "k \<le> length (r @ b)")
    case True
    have "suffix (take k c) (r @ b)"
      using k(1) True by (intro suffix_length_suffix [OF k(1)]) (simp_all add: suffix_def)
    then show ?thesis using k(2) by (rule longest_suffix_prefix_len_max)
  next
    case False
    obtain u where u: "q @ r @ b = u @ take k c" using k(1) by (auto simp: suffix_def)
    have "length (q @ r @ b) = length (u @ take k c)" using u by (simp only:)
    then have lu: "length u < length q" using False k(2) by simp
    have "take k c = drop (length u) (q @ r @ b)" using u by simp
    also have "\<dots> = (drop (length u) q @ r) @ b" using lu by simp
    finally have "prefix (drop (length u) q @ r) (take k c)" by (simp add: prefix_def)
    moreover have "prefix (take k c) c" by (rule take_is_prefix)
    ultimately have "prefix (drop (length u) q @ r) c" "length (drop (length u) q @ r) \<le> k"
      using prefix_order.trans prefix_length_le [of "drop (length u) q @ r" "take k c"] k(2) by auto
    then show ?thesis using no_start_before [OF assms(2) lu] k(2) by auto
  qed
qed

section \<open>Chunk independence\<close>

text \<open>
  What chunk independence needs of the tags: delimiters are not empty (\<^verbatim>\<open>new\<close> checks it) and no
  open delimiter occurs inside another. Otherwise the shorter one may be taken before the
  rest of the longer one has arrived.
\<close>

definition specs_ok :: "'t inline_tag_spec list \<Rightarrow> bool" where
  "specs_ok ss \<longleftrightarrow> (\<forall>s\<in>set ss. spec_open s \<noteq> [] \<and> spec_close s \<noteq> []) \<and>
     (\<forall>s\<in>set ss. \<forall>s'\<in>set ss. sublist (spec_open s) (spec_open s') \<longrightarrow> spec_open s = spec_open s')"

definition active_ok :: "'t active_tag option \<Rightarrow> bool" where
  "active_ok a \<longleftrightarrow> (\<forall>x\<in>set_option a. active_close x \<noteq> [])"

lemma find_str_append: "find_str c p = Some i \<Longrightarrow> find_str c (p @ b) = Some i"
proof (rule find_str_eqI)
  assume f: "find_str c p = Some i"
  note i = find_str_bound [OF f] find_str_prefix [OF f]
  show "i \<le> length (p @ b)" using i by simp
  show "prefix c (drop i (p @ b))" using i by simp
  show "\<not> prefix c (drop j (p @ b))" if j: "j < i" for j
  proof
    assume "prefix c (drop j (p @ b))"
    then have "prefix c (drop j p @ b)" using i j by simp
    moreover have "length c \<le> length (drop j p)" using i(1) j by simp
    ultimately have "prefix c (drop j p)" using prefix_length_prefix by (metis prefixI)
    then show False using find_str_least [OF f j] by simp
  qed
qed

lemma find_next_open_None_iff:
  "find_next_open ss p = None \<longleftrightarrow> (\<forall>s\<in>set ss. find_str (spec_open s) p = None)"
proof -
  have "find_next_open ss p = None \<longleftrightarrow> open_candidates ss p = []"
    by (cases "open_candidates ss p"; cases "min_list (open_candidates ss p)") (simp_all add: find_next_open_def)
  also have "\<dots> \<longleftrightarrow> (\<forall>pos l idx. (pos, l, idx) \<notin> set (open_candidates ss p))"
    by (cases "open_candidates ss p") auto
  also have "\<dots> \<longleftrightarrow> (\<forall>i<length ss. \<forall>pos. find_str (spec_open (ss ! i)) p \<noteq> Some pos)"
    unfolding open_candidates_iff by (metis (lifting))
  also have "\<dots> \<longleftrightarrow> (\<forall>s\<in>set ss. find_str (spec_open s) p = None)"
    by (simp add: all_set_conv_all_nth)
  finally show ?thesis .
qed

lemma find_next_open_eqI:
  assumes "(pos, l, idx) \<in> set (open_candidates ss p)"
    and "\<And>c. c \<in> set (open_candidates ss p) \<Longrightarrow> (pos, l, idx) \<le> c"
  shows "find_next_open ss p = Some (pos, idx)"
proof -
  have "Min (set (open_candidates ss p)) = (pos, l, idx)"
    using assms by (intro Min_eqI) simp_all
  moreover obtain c cs where "open_candidates ss p = c # cs"
    using assms(1) by (cases "open_candidates ss p") auto
  ultimately show ?thesis using min_list_Min [of "c # cs"] by (simp add: find_next_open_def)
qed

text \<open>A delimiter that is found stays the next one when more text arrives.\<close>

lemma find_next_open_append:
  assumes "specs_ok ss" and "find_next_open ss p = Some (pos, idx)"
  shows "find_next_open ss (p @ b) = Some (pos, idx)"
proof (rule find_next_open_eqI)
  note f = find_next_open_Some [OF assms(2)]
  let ?o = "spec_open (ss ! idx)"
  show "(pos, - int (utf8_len ?o), idx) \<in> set (open_candidates ss (p @ b))"
    using f(1,2) by (simp add: open_candidates_iff find_str_append)
  fix c assume c: "c \<in> set (open_candidates ss (p @ b))"
  obtain pos' l' idx' where c': "c = (pos', l', idx')" by (cases c)
  let ?o' = "spec_open (ss ! idx')"
  have i': "idx' < length ss" "find_str ?o' (p @ b) = Some pos'" "l' = - int (utf8_len ?o')"
    using c by (simp_all add: c' open_candidates_iff)
  show "(pos, - int (utf8_len ?o), idx) \<le> c"
  proof (cases "find_str ?o' p")
    case (Some q)
    then have "q = pos'" using i'(2) find_str_append [OF Some, of b] by simp
    then have "c \<in> set (open_candidates ss p)" using Some i' by (simp add: c' open_candidates_iff)
    then show ?thesis unfolding f(3) by simp
  next
    case None
    have "pos < pos'"
    proof (rule ccontr)
      assume "\<not> pos < pos'"
      note w = find_str_bound [OF f(2)] find_str_prefix [OF f(2)] and
        w' = find_str_bound [OF i'(2)] find_str_prefix [OF i'(2)]
      have beyond: "length p < pos' + length ?o'"
      proof (rule ccontr)
        assume "\<not> length p < pos' + length ?o'"
        then have "prefix ?o' (drop pos' p)"
          using w' by (auto intro: prefix_length_prefix [of _ "drop pos' (p @ b)"])
        then show False using find_str_None [OF None, of pos'] \<open>\<not> length p < pos' + length ?o'\<close> by simp
      qed
      have "prefix ?o (drop (pos - pos') ?o')"
      proof (rule prefix_length_prefix)
        show "prefix ?o (drop pos (p @ b))" using w by simp
        show "prefix (drop (pos - pos') ?o') (drop pos (p @ b))"
          using w' \<open>\<not> pos < pos'\<close> by (auto simp: prefix_def drop_drop)
            (metis add.commute append_eq_conv_conj drop_drop drop_append le_add_diff_inverse2 not_less)
        show "length ?o \<le> length (drop (pos - pos') ?o')" using beyond w(1) \<open>\<not> pos < pos'\<close> by simp
      qed
      then have "sublist ?o ?o'" by (meson prefix_imp_sublist sublist_drop sublist_order.order.trans)
      then have "?o = ?o'" using assms(1) f(1) i'(1) by (simp add: specs_ok_def)
      then show False using None f(2) by simp
    qed
    then show ?thesis by (simp add: c' less_eq_prod_def)
  qed
qed

text \<open>Text in front of any possible open delimiter does not matter later.\<close>

lemma max_open_le: "s \<in> set ss \<Longrightarrow> longest_suffix_prefix_len p (spec_open s) \<le> max_open_prefix_suffix_len ss p"
  unfolding max_open_prefix_suffix_len_def by (induction ss) auto

lemma max_open_le_length: "max_open_prefix_suffix_len ss p \<le> length p"
  unfolding max_open_prefix_suffix_len_def
  using longest_suffix_prefix_len_bounds by (induction ss) auto

lemma map_filter_map_option:
  "\<forall>x\<in>set xs. f x = map_option g (h x) \<Longrightarrow> List.map_filter f xs = map g (List.map_filter h xs)"
  by (induction xs) (auto simp: map_filter_simps split: option.splits)

lemma open_candidates_shift:
  assumes "find_next_open ss (q @ r) = None" and "max_open_prefix_suffix_len ss (q @ r) \<le> length r"
  shows "open_candidates ss (q @ r @ b) = map (apfst ((+) (length q))) (open_candidates ss (r @ b))"
  unfolding open_candidates_def
proof (rule map_filter_map_option, rule ballI)
  fix x assume "x \<in> set (enumerate 0 ss)"
  then have "x = (fst x, ss ! fst x)" and "fst x < length ss"
    by (auto simp: in_set_enumerate_eq intro: prod_eqI)
  then obtain idx where x: "x = (idx, ss ! idx)" and s: "ss ! idx \<in> set ss" by (metis nth_mem)
  have "find_str (spec_open (ss ! idx)) (q @ r @ b) =
      map_option ((+) (length q)) (find_str (spec_open (ss ! idx)) (r @ b))"
    using assms s max_open_le [OF s, of "q @ r"]
    by (intro find_str_shift) (auto simp: find_next_open_None_iff)
  then show "(case x of (idx, s) \<Rightarrow> map_option (\<lambda>pos. (pos, - int (utf8_len (spec_open s)), idx))
        (find_str (spec_open s) (q @ r @ b))) =
      map_option (apfst ((+) (length q))) (case x of (idx, s) \<Rightarrow>
        map_option (\<lambda>pos. (pos, - int (utf8_len (spec_open s)), idx)) (find_str (spec_open s) (r @ b)))"
    by (simp add: x option.map_comp comp_def)
qed

lemma find_next_open_shift:
  assumes "find_next_open ss (q @ r) = None" and "max_open_prefix_suffix_len ss (q @ r) \<le> length r"
  shows "find_next_open ss (q @ r @ b) = map_option (apfst ((+) (length q))) (find_next_open ss (r @ b))"
proof (cases "open_candidates ss (r @ b)")
  case Nil
  then show ?thesis by (simp add: find_next_open_def open_candidates_shift [OF assms])
next
  case (Cons c cs)
  let ?f = "apfst ((+) (length q)) :: nat \<times> int \<times> nat \<Rightarrow> nat \<times> int \<times> nat"
  have "mono ?f" by (auto simp: mono_def less_eq_prod_def apfst_def)
  then have "?f (Min (set (c # cs))) = Min (?f ` set (c # cs))" by (rule mono_Min_commute) simp_all
  then have "min_list (map ?f (c # cs)) = ?f (min_list (c # cs))"
    using min_list_Min [of "c # cs"] min_list_Min [of "map ?f (c # cs)"] by simp
  then show ?thesis
    unfolding find_next_open_def open_candidates_shift [OF assms] Cons
    by (cases "min_list (c # cs)") simp
qed

lemma max_open_shift:
  assumes "specs_ok ss" and "max_open_prefix_suffix_len ss (q @ r) \<le> length r"
  shows "max_open_prefix_suffix_len ss (q @ r @ b) = max_open_prefix_suffix_len ss (r @ b)"
proof -
  have "longest_suffix_prefix_len (q @ r @ b) (spec_open s) = longest_suffix_prefix_len (r @ b) (spec_open s)"
    if s: "s \<in> set ss" for s
    using assms max_open_le [OF s, of "q @ r"] s
    by (intro longest_suffix_prefix_len_shift) (auto simp: specs_ok_def)
  then have "map (\<lambda>s. longest_suffix_prefix_len (q @ r @ b) (spec_open s)) ss =
      map (\<lambda>s. longest_suffix_prefix_len (r @ b) (spec_open s)) ss" by simp
  then show ?thesis by (simp only: max_open_prefix_suffix_len_def)
qed

text \<open>The loop on a longer text goes through the state it has after the shorter one.\<close>

lemma inline_loop_skip_active:
  fixes a :: "'t active_tag"
  assumes "active_close a \<noteq> []" and "find_str (active_close a) (q @ r) = None"
    and "longest_suffix_prefix_len (q @ r) (active_close a) \<le> length r"
  shows "inline_loop ss (Some a) (q @ r @ b) =
    inline_loop ss (Some (a\<lparr>active_content := active_content a @ q\<rparr>)) (r @ b)"
proof -
  note sh = find_str_shift [OF assms(2,3)] longest_suffix_prefix_len_shift [OF assms(1,3)]
  have "length (r @ b) - k + length q = length (q @ r @ b) - k" if "k \<le> length (r @ b)" for k
    using that by simp
  note len = this [of "longest_suffix_prefix_len (r @ b) (active_close a)"]
  have k: "longest_suffix_prefix_len (r @ b) (active_close a) \<le> length (r @ b)"
    using longest_suffix_prefix_len_bounds [of "r @ b"] by simp
  show ?thesis
  proof (cases "find_str (active_close a) (r @ b)")
    case None
    then show ?thesis using k by (simp add: inline_loop.simps(1) sh Let_def flip: len)
  next
    case (Some i)
    then show ?thesis by (simp add: inline_loop.simps(1) sh add.assoc)
  qed
qed

lemma inline_loop_skip_visible:
  assumes "specs_ok ss" and "find_next_open ss (q @ r) = None"
    and "max_open_prefix_suffix_len ss (q @ r) \<le> length r"
  shows "inline_loop ss None (q @ r @ b) =
    (case inline_loop ss None (r @ b) of (out, rest) \<Rightarrow> (chunk_append (visible_chunk q) out, rest))"
proof (cases "find_next_open ss (r @ b)")
  case None
  have k: "max_open_prefix_suffix_len ss (r @ b) \<le> length (r @ b)" by (rule max_open_le_length)
  then have "length (q @ r @ b) - max_open_prefix_suffix_len ss (r @ b) =
      length q + (length (r @ b) - max_open_prefix_suffix_len ss (r @ b))" by simp
  then show ?thesis
    using None by (simp add: inline_loop.simps(2) find_next_open_shift [OF assms(2,3)]
        max_open_shift [OF assms(1,3)] Let_def visible_chunk_def chunk_append_def del: length_append)
next
  case (Some x)
  obtain i idx where x: "x = (i, idx)" by (cases x)
  have "idx < length ss" using Some x find_next_open_Some by blast
  then have "spec_open (ss ! idx) \<noteq> []" using assms(1) by (simp add: specs_ok_def)
  then show ?thesis
    using Some x by (simp add: inline_loop.simps(2) find_next_open_shift [OF assms(2,3)] add.assoc Let_def
        visible_chunk_def chunk_append_def split: prod.splits)
qed

lemma inline_loop_append:
  assumes "specs_ok ss" and "active_ok a"
  shows "inline_loop ss a (p @ b) =
    (case inline_loop ss a p of (out1, a1, p1) \<Rightarrow>
      (case inline_loop ss a1 (p1 @ b) of (out2, rest) \<Rightarrow> (chunk_append out1 out2, rest)))"
  using assms
proof (induction ss a p rule: inline_loop.induct)
  case (1 ss a p)
  show ?case
  proof (cases "find_str (active_close a) p")
    case (Some i)
    note IH = "1.IH" [OF Some "1.prems"(1)]
    have i: "i \<le> length p" "i + length (active_close a) \<le> length p" using find_str_bound [OF Some] by simp_all
    show ?thesis
      using IH i by (simp add: inline_loop.simps(1) Some find_str_append [OF Some] active_ok_def
          split: prod.splits)
  next
    case None
    let ?n = "length p - longest_suffix_prefix_len p (active_close a)"
    have k: "longest_suffix_prefix_len p (active_close a) \<le> length p"
      using longest_suffix_prefix_len_bounds [of p] by simp
    have "inline_loop ss (Some a) (take ?n p @ drop ?n p @ b) =
        inline_loop ss (Some (a\<lparr>active_content := active_content a @ take ?n p\<rparr>)) (drop ?n p @ b)"
      using "1.prems"(2) None k by (intro inline_loop_skip_active) (simp_all add: active_ok_def)
    then show ?thesis
      by (simp add: inline_loop.simps(1) [of ss a p] None Let_def split: prod.splits flip: append_assoc)
  qed
next
  case (2 ss p)
  show ?case
  proof (cases "find_next_open ss p")
    case (Some x)
    obtain i idx where x: "x = (i, idx)" by (cases x)
    note f = find_next_open_Some [OF Some [unfolded x]]
    have ne: "spec_open (ss ! idx) \<noteq> []" "spec_close (ss ! idx) \<noteq> []"
      using "2.prems"(1) f(1) by (simp_all add: specs_ok_def)
    note IH = "2.IH" [OF Some x [symmetric] refl ne(1) "2.prems"(1)]
    have i: "i \<le> length p" "i + length (spec_open (ss ! idx)) \<le> length p"
      using find_str_bound [OF f(2)] by simp_all
    show ?thesis
      using IH i ne find_next_open_append [OF "2.prems"(1) Some [unfolded x], of b]
      by (simp add: inline_loop.simps(2) Some x Let_def active_ok_def split: prod.splits)
  next
    case None
    let ?n = "length p - max_open_prefix_suffix_len ss p"
    have k: "max_open_prefix_suffix_len ss p \<le> length p" by (rule max_open_le_length)
    have "inline_loop ss None (take ?n p @ drop ?n p @ b) =
        (case inline_loop ss None (drop ?n p @ b) of (out, rest) \<Rightarrow>
          (chunk_append (visible_chunk (take ?n p)) out, rest))"
      using "2.prems"(1) None k by (intro inline_loop_skip_visible) simp_all
    then show ?thesis
      by (simp add: inline_loop.simps(2) [of ss p] None Let_def split: prod.splits flip: append_assoc)
  qed
qed

text \<open>A state the parser can be in: nothing of the pending text is ready to be emitted.\<close>

definition settled :: "'t inline_parser \<Rightarrow> bool" where
  "settled s \<longleftrightarrow> specs_ok (specs s) \<and> active_ok (active s) \<and>
     inline_loop (specs s) (active s) (pending s) = (chunk_default, active s, pending s)"

lemma inline_loop_active_ok:
  "specs_ok ss \<Longrightarrow> active_ok a \<Longrightarrow> inline_loop ss a p = (out, a', p') \<Longrightarrow> active_ok a'"
proof (induction ss a p arbitrary: out a' p' rule: inline_loop.induct)
  case (1 ss a p)
  then show ?case
    by (cases "find_str (active_close a) p")
      (auto simp: inline_loop.simps(1) Let_def active_ok_def split: prod.splits)
next
  case (2 ss p)
  show ?case
  proof (cases "find_next_open ss p")
    case None
    with "2.prems" show ?thesis by (auto simp: inline_loop.simps(2) Let_def)
  next
    case (Some x)
    obtain i idx where x: "x = (i, idx)" by (cases x)
    have ne: "spec_open (ss ! idx) \<noteq> []" "spec_close (ss ! idx) \<noteq> []"
      using "2.prems"(1) find_next_open_Some(1) [OF Some [unfolded x]] by (simp_all add: specs_ok_def)
    show ?thesis
      using "2.IH" [OF Some x [symmetric] refl ne(1) "2.prems"(1)] "2.prems"(3) ne
      by (auto simp: inline_loop.simps(2) Some x Let_def active_ok_def split: prod.splits)
  qed
qed

lemma chunk_append_default_iff: "chunk_append c d = chunk_append c e \<longleftrightarrow> d = e"
  by (cases d; cases e) (auto simp: chunk_append_def)

text \<open>What is left after the loop is settled.\<close>

lemma inline_loop_settled:
  assumes "specs_ok ss" and "active_ok a" and "inline_loop ss a p = (out, a', p')"
  shows "inline_loop ss a' p' = (chunk_default, a', p')"
proof -
  obtain o2 a2 p2 where r: "inline_loop ss a' p' = (o2, a2, p2)" by (cases "inline_loop ss a' p'")
  have "(out, a', p') = (chunk_append out o2, a2, p2)"
    using inline_loop_append [OF assms(1,2), of p "[]"] assms(3) r by simp
  then have "chunk_append out chunk_default = chunk_append out o2" "a2 = a'" "p2 = p'" by simp_all
  then show ?thesis using r by (simp only: chunk_append_default_iff)
qed

interpretation inline: text_stream settled inline_push_str chunk_default chunk_append
proof
  fix s :: "'t inline_parser" and a b :: rstr
  assume s: "settled s"
  then have ok: "specs_ok (specs s)" "active_ok (active s)" by (simp_all add: settled_def)
  show "inline_push_str s [] = (chunk_default, s)"
    using s by (simp add: settled_def inline_push_str_def)
  show "settled (snd (inline_push_str s a))"
    using ok inline_loop_settled [OF ok] inline_loop_active_ok [OF ok]
    by (auto simp: settled_def inline_push_str_def split: prod.splits)
  show "inline_push_str s (a @ b) =
      (let (x, s1) = inline_push_str s a; (y, s2) = inline_push_str s1 b in (chunk_append x y, s2))"
    using inline_loop_append [OF ok, of "pending s @ a" b]
    by (simp add: inline_push_str_def split: prod.splits)
qed

lemma inline_new_settled:
  assumes "inline_new ss = Some s" and "specs_ok ss"
  shows "settled s"
proof -
  have s: "s = \<lparr>specs = ss, pending = [], active = None\<rparr>" using assms(1) by (auto simp: inline_new_def split: if_splits)
  have "find_next_open ss [] = None"
    using assms(2) by (simp add: find_next_open_None_iff specs_ok_def)
  then show ?thesis
    using assms(2) by (simp add: s settled_def active_ok_def inline_loop.simps(2) visible_chunk_def chunk_default_def)
qed

section \<open>Properties\<close>

text \<open>
  For any set of tags in which no open delimiter occurs inside another, what
  the parser emits in all and the state it ends in depend on the text only, not on how it is
  cut into chunks.
\<close>

theorem inline_stream_chunking:
  assumes "inline_new ss = Some s" and "specs_ok ss" and "concat chunks = concat chunks'"
  shows "stream_all inline_push_str chunk_default chunk_append s chunks =
    stream_all inline_push_str chunk_default chunk_append s chunks'"
  using inline.stream_all_concat [OF inline_new_settled [OF assms(1,2)]] assms(3) by simp

definition example_specs :: "string list \<Rightarrow> nat inline_tag_spec list" where
  "example_specs opens = map (\<lambda>(i, x). \<lparr>spec_tag = i, spec_open = lit x, spec_close = lit ''>''\<rparr>) (enumerate 0 opens)"

theorem inline_stream_chunking_witness:
  "\<exists>s. inline_new (example_specs [''<a'', ''[b'']) = Some s \<and>
     stream_all inline_push_str chunk_default chunk_append s [lit ''x<'', lit ''ay>z''] =
     stream_all inline_push_str chunk_default chunk_append s [lit ''x<ay>z'']"
proof -
  have ok: "specs_ok (example_specs [''<a'', ''[b''])"
    by (auto simp: specs_ok_def example_specs_def sublist_def Cons_eq_append_conv)
  obtain s where "inline_new (example_specs [''<a'', ''[b'']) = Some s"
    by (simp add: inline_new_def example_specs_def)
  then show ?thesis
    using inline_stream_chunking [OF _ ok, of s "[lit ''x<'', lit ''ay>z'']" "[lit ''x<ay>z'']"] by simp
qed

text \<open>
  With one open delimiter at the start of another the chunks do matter: the longer tag wins in
  a whole text, the shorter one when the chunk ends right after it.
\<close>

lemma inline_chunking_prefix_tags:
  "let s = \<lparr>specs = example_specs [''<a'', ''<ab''], pending = [], active = None\<rparr>
   in extracted (fst (stream_all inline_push_str chunk_default chunk_append s [lit ''<abx>''])) =
        [\<lparr>ext_tag = 1, ext_content = lit ''x''\<rparr>] \<and>
      extracted (fst (stream_all inline_push_str chunk_default chunk_append s [lit ''<a'', lit ''bx>''])) =
        [\<lparr>ext_tag = 0, ext_content = lit ''bx''\<rparr>]"
  by code_simp

end
