(* ===== verification/Citations.thy ===== *)
theory Citations
  imports Inline_Hidden_Tag
begin

text \<open>
  \<^verbatim>\<open>codex-rs/utils/stream-parser/src/citation.rs\<close>: the inline tag parser with the one citation
  tag. The specification cuts a whole text at its delimiters (\<open>hide_citations\<close>); the parser
  gives the same result however the text arrives.
\<close>

section \<open>Model\<close>

datatype citation_tag = Citation

definition CITATION_OPEN :: rstr where "CITATION_OPEN = lit ''<oai-mem-citation>''"
definition CITATION_CLOSE :: rstr where "CITATION_CLOSE = lit ''</oai-mem-citation>''"

definition citation_specs :: "citation_tag inline_tag_spec list" where
  "citation_specs = [\<lparr>spec_tag = Citation, spec_open = CITATION_OPEN, spec_close = CITATION_CLOSE\<rparr>]"

record citation_parser =
  citation_inner :: "citation_tag inline_parser"

definition citation_new :: "citation_parser option" where
  "citation_new = map_option (\<lambda>p. \<lparr>citation_inner = p\<rparr>) (inline_new citation_specs)"

definition contents_chunk :: "'t extracted_inline_tag stream_chunk \<Rightarrow> rstr stream_chunk" where
  "contents_chunk c = \<lparr>visible_text = visible_text c, extracted = map ext_content (extracted c)\<rparr>"

definition citation_push_str :: "citation_parser \<Rightarrow> rstr \<Rightarrow> rstr stream_chunk \<times> citation_parser" where
  "citation_push_str s chunk =
     (case inline_push_str (citation_inner s) chunk of
        (out, p) \<Rightarrow> (contents_chunk out, s\<lparr>citation_inner := p\<rparr>))"

definition citation_finish :: "citation_parser \<Rightarrow> rstr stream_chunk \<times> citation_parser" where
  "citation_finish s =
     (case inline_finish (citation_inner s) of
        (out, p) \<Rightarrow> (contents_chunk out, s\<lparr>citation_inner := p\<rparr>))"

definition strip_citations :: "rstr \<Rightarrow> (rstr \<times> rstr list) option" where
  "strip_citations text =
     (case citation_new of
        None \<Rightarrow> None
      | Some parser \<Rightarrow>
          (case citation_push_str parser text of
             (out, parser1) \<Rightarrow>
               (case citation_finish parser1 of
                  (tail, _) \<Rightarrow> Some (visible_text out @ visible_text tail, extracted out @ extracted tail))))"

section \<open>Specification\<close>

text \<open>
  Up to the first open delimiter the text is visible; from there to the next close delimiter,
  or to the end, it is a citation.
\<close>

lemma citation_delims_ne [simp]: "CITATION_OPEN \<noteq> []" "CITATION_CLOSE \<noteq> []"
  by (simp_all add: CITATION_OPEN_def CITATION_CLOSE_def)

function hide_citations :: "rstr \<Rightarrow> rstr \<times> rstr list" where
  "hide_citations t =
     (case find_str CITATION_OPEN t of
        None \<Rightarrow> (t, [])
      | Some i \<Rightarrow>
          (let body = drop (i + length CITATION_OPEN) t
           in case find_str CITATION_CLOSE body of
                None \<Rightarrow> (take i t, [body])
              | Some j \<Rightarrow>
                  (case hide_citations (drop (j + length CITATION_CLOSE) body) of
                     (v, cs) \<Rightarrow> (take i t @ v, take j body # cs))))"
  by pat_completeness auto

termination hide_citations
proof (relation "measure length")
  fix t :: rstr and i body j
  assume o: "find_str CITATION_OPEN t = Some i" and "body = drop (i + length CITATION_OPEN) t"
  moreover have "length CITATION_OPEN = 18" by (simp add: CITATION_OPEN_def)
  ultimately show "(drop (j + length CITATION_CLOSE) body, t) \<in> measure length"
    using find_str_bound [OF o] by simp
qed simp

declare hide_citations.simps [simp del]

section \<open>Lemmas\<close>

lemma citation_specs_ok: "specs_ok citation_specs"
  by (simp add: specs_ok_def citation_specs_def)

lemma find_next_open_single:
  "find_next_open citation_specs p = map_option (\<lambda>i. (i, 0)) (find_str CITATION_OPEN p)"
  by (cases "find_str CITATION_OPEN p")
    (simp_all add: find_next_open_def open_candidates_def citation_specs_def map_filter_simps)

text \<open>Running the loop on a whole text and flushing what is pending cuts the text as specified.\<close>

definition flush :: "'t active_tag option \<Rightarrow> rstr \<Rightarrow> 't extracted_inline_tag stream_chunk" where
  "flush a p = (case a of
     Some x \<Rightarrow> extracted_chunk \<lparr>ext_tag = active_tag_tag x, ext_content = active_content x @ p\<rparr>
   | None \<Rightarrow> visible_chunk p)"

lemma inline_finish_flush: "fst (inline_finish s) = flush (active s) (pending s)"
  by (simp add: inline_finish_def flush_def split: option.splits)

definition whole :: "citation_tag active_tag option \<Rightarrow> rstr \<Rightarrow> rstr stream_chunk" where
  "whole a p = (case inline_loop citation_specs a p of
     (out, a', p') \<Rightarrow> contents_chunk (chunk_append out (flush a' p')))"

lemma contents_chunk_append: "contents_chunk (chunk_append c d) = chunk_append (contents_chunk c) (contents_chunk d)"
  by (simp add: contents_chunk_def chunk_append_def)

lemma whole_active:
  fixes a :: "citation_tag active_tag"
  assumes "active_close a = CITATION_CLOSE"
  shows "whole (Some a) p =
    (case find_str CITATION_CLOSE p of
       None \<Rightarrow> \<lparr>visible_text = [], extracted = [active_content a @ p]\<rparr>
     | Some j \<Rightarrow> chunk_append \<lparr>visible_text = [], extracted = [active_content a @ take j p]\<rparr>
         (whole None (drop (j + length CITATION_CLOSE) p)))"
  using assms
  by (cases "find_str CITATION_CLOSE p")
    (simp_all add: whole_def inline_loop.simps(1) Let_def flush_def contents_chunk_def extracted_chunk_def
      chunk_append_def split: prod.splits)

lemma whole_none:
  "whole None p =
    (case find_str CITATION_OPEN p of
       None \<Rightarrow> \<lparr>visible_text = p, extracted = []\<rparr>
     | Some i \<Rightarrow> chunk_append \<lparr>visible_text = take i p, extracted = []\<rparr>
         (whole (Some \<lparr>active_tag_tag = Citation, active_close = CITATION_CLOSE, active_content = []\<rparr>)
           (drop (i + length CITATION_OPEN) p)))"
proof (cases "find_str CITATION_OPEN p")
  case None
  then have n: "find_next_open citation_specs p = None" by (simp add: find_next_open_single)
  show ?thesis
    using None
    by (simp add: whole_def inline_loop.simps(2) n Let_def flush_def contents_chunk_def
        visible_chunk_def chunk_append_def)
next
  case (Some i)
  then have n: "find_next_open citation_specs p = Some (i, 0)" by (simp add: find_next_open_single)
  have s: "citation_specs ! 0 = \<lparr>spec_tag = Citation, spec_open = CITATION_OPEN, spec_close = CITATION_CLOSE\<rparr>"
    by (simp add: citation_specs_def)
  show ?thesis
    using Some
    by (simp add: whole_def inline_loop.simps(2) n s Let_def contents_chunk_def
        visible_chunk_def chunk_append_def split: prod.splits)
qed

lemma whole_hide: "whole None t = (case hide_citations t of (v, cs) \<Rightarrow> \<lparr>visible_text = v, extracted = cs\<rparr>)"
proof (induction t rule: hide_citations.induct)
  case (1 t)
  show ?case
  proof (cases "find_str CITATION_OPEN t")
    case None
    then show ?thesis by (simp add: whole_none hide_citations.simps [of t])
  next
    case (Some i)
    let ?body = "drop (i + length CITATION_OPEN) t"
    show ?thesis
    proof (cases "find_str CITATION_CLOSE ?body")
      case None
      then show ?thesis
        using Some by (simp add: whole_none whole_active hide_citations.simps [of t] chunk_append_def)
    next
      case (Some j)
      with 1 [OF \<open>find_str CITATION_OPEN t = Some i\<close> refl Some] \<open>find_str CITATION_OPEN t = Some i\<close>
      show ?thesis
        by (simp add: whole_none [of t] whole_active hide_citations.simps [of t] chunk_append_def
            split: prod.splits)
    qed
  qed
qed

text \<open>The parser is a text stream, through the one it wraps.\<close>

definition citation_inv :: "citation_parser \<Rightarrow> bool" where
  "citation_inv s \<longleftrightarrow> settled (citation_inner s) \<and> specs (citation_inner s) = citation_specs"

lemma inline_push_specs: "specs (snd (inline_push_str s a)) = specs s"
  by (simp add: inline_push_str_def split: prod.splits)

interpretation citations: text_stream citation_inv citation_push_str chunk_default chunk_append
proof
  fix s :: citation_parser and a b :: rstr
  assume "citation_inv s"
  then have s: "settled (citation_inner s)" "specs (citation_inner s) = citation_specs"
    by (simp_all add: citation_inv_def)
  show "citation_push_str s [] = (chunk_default, s)"
    using inline.push_str_Nil [OF s(1)] by (simp add: citation_push_str_def contents_chunk_def chunk_default_def)
  show "citation_inv (snd (citation_push_str s a))"
    using inline.inv_push_str [OF s(1), of a] inline_push_specs [of "citation_inner s" a] s(2)
    by (cases "inline_push_str (citation_inner s) a") (simp add: citation_inv_def citation_push_str_def)
  show "citation_push_str s (a @ b) =
      (let (x, s1) = citation_push_str s a; (y, s2) = citation_push_str s1 b in (chunk_append x y, s2))"
    using inline.push_str_append [OF s(1), of a b]
    by (simp add: citation_push_str_def contents_chunk_append split: prod.splits)
qed

lemma citation_new_Some: "\<exists>s. citation_new = Some s \<and> citation_inv s \<and>
    citation_inner s = \<lparr>specs = citation_specs, pending = [], active = None\<rparr>"
proof -
  have "inline_new citation_specs = Some \<lparr>specs = citation_specs, pending = [], active = None\<rparr>"
    by (simp add: inline_new_def citation_specs_def)
  then show ?thesis
    using inline_new_settled [OF _ citation_specs_ok] by (simp add: citation_new_def citation_inv_def)
qed

lemma citation_push_finish:
  assumes "citation_inner s = \<lparr>specs = citation_specs, pending = [], active = None\<rparr>"
    and "citation_push_str s t = (out, s1)" and "citation_finish s1 = (tail, s2)"
  shows "chunk_append out tail = (case hide_citations t of (v, cs) \<Rightarrow> \<lparr>visible_text = v, extracted = cs\<rparr>)"
proof -
  obtain o1 a p where l: "inline_loop citation_specs None t = (o1, a, p)" by (cases "inline_loop citation_specs None t")
  let ?i = "\<lparr>specs = citation_specs, pending = p, active = a\<rparr>"
  have "out = contents_chunk o1" "citation_inner s1 = ?i"
    using assms(1,2) l by (auto simp: citation_push_str_def inline_push_str_def)
  moreover have "tail = contents_chunk (fst (inline_finish (citation_inner s1)))"
    using assms(3) by (auto simp: citation_finish_def split: prod.splits)
  ultimately have "chunk_append out tail = whole None t"
    by (simp add: inline_finish_flush whole_def l contents_chunk_append)
  then show ?thesis by (simp only: whole_hide)
qed

text \<open>Text with well-placed citations: visible parts without an open, bodies without a close delimiter.\<close>

fun render_citations :: "(rstr \<times> rstr) list \<Rightarrow> rstr \<Rightarrow> rstr" where
  "render_citations [] v = v"
| "render_citations ((u, c) # ps) v = u @ CITATION_OPEN @ c @ CITATION_CLOSE @ render_citations ps v"

text \<open>A delimiter whose first char does not come back in it is found right after text without it.\<close>

lemma find_str_after:
  assumes "\<not> sublist d v" and "d = x # d'" and "x \<notin> set d'"
  shows "find_str d (v @ d @ w) = Some (length v)"
proof (rule find_str_eqI)
  show "\<not> prefix d (drop j (v @ d @ w))" if j: "j < length v" for j
  proof
    assume "prefix d (drop j (v @ d @ w))"
    then have pre: "prefix d (drop j v @ d @ w)" using j by simp
    then consider "prefix d (drop j v)" | t where "d = drop j v @ t" "prefix t (d @ w)"
      unfolding prefix_append by blast
    then show False
    proof cases
      case 1
      then show False using assms(1) by (meson prefix_imp_sublist sublist_drop sublist_order.order.trans)
    next
      case (2 t)
      have "t \<noteq> []" using 2(1) assms(1) sublist_drop by (metis append_Nil2)
      then have "hd t = x" using 2(2) assms(2) by (cases t) auto
      moreover have "set t \<subseteq> set d'" using 2(1) j assms(2) by (cases "drop j v") auto
      ultimately show False using assms(3) \<open>t \<noteq> []\<close> by (metis hd_in_set subsetD)
    qed
  qed
qed simp_all

lemma find_open_after: "\<not> sublist CITATION_OPEN v \<Longrightarrow> find_str CITATION_OPEN (v @ CITATION_OPEN @ w) = Some (length v)"
  by (rule find_str_after [where x = 60 and d' = "tl CITATION_OPEN"]) (simp_all add: CITATION_OPEN_def)

lemma find_close_after: "\<not> sublist CITATION_CLOSE v \<Longrightarrow> find_str CITATION_CLOSE (v @ CITATION_CLOSE @ w) = Some (length v)"
  by (rule find_str_after [where x = 60 and d' = "tl CITATION_CLOSE"]) (simp_all add: CITATION_CLOSE_def)

lemma hide_render:
  assumes "\<forall>(u, c)\<in>set ps. \<not> sublist CITATION_OPEN u \<and> \<not> sublist CITATION_CLOSE c"
    and "\<not> sublist CITATION_OPEN v"
  shows "hide_citations (render_citations ps v) = (concat (map fst ps) @ v, map snd ps)"
  using assms(1)
proof (induction ps)
  case Nil
  have "find_str CITATION_OPEN v = None" using assms(2) by (simp add: find_str_None_iff_sublist)
  then show ?case by (simp add: hide_citations.simps)
next
  case (Cons p ps)
  obtain u c where p: "p = (u, c)" by (cases p)
  then show ?case
    using Cons by (simp add: hide_citations.simps [of "_ @ _"] find_open_after find_close_after)
qed

section \<open>Properties\<close>

text \<open>
  Stripping the citations of a text never panics and cuts it at its
  delimiters: visible up to the first open delimiter, a citation up to the next close
  delimiter or the end, and so on.
\<close>

theorem strip_citations_correct: "strip_citations text = Some (hide_citations text)"
proof -
  obtain s where s: "citation_new = Some s"
    "citation_inner s = \<lparr>specs = citation_specs, pending = [], active = None\<rparr>"
    using citation_new_Some by blast
  obtain out s1 where 1: "citation_push_str s text = (out, s1)" by (cases "citation_push_str s text")
  obtain tail s2 where 2: "citation_finish s1 = (tail, s2)" by (cases "citation_finish s1")
  have "chunk_append out tail = (case hide_citations text of (v, cs) \<Rightarrow> \<lparr>visible_text = v, extracted = cs\<rparr>)"
    by (rule citation_push_finish [OF s(2) 1 2])
  then show ?thesis
    by (cases "hide_citations text") (simp add: strip_citations_def s(1) 1 2 chunk_append_def)
qed

text \<open>
  A text with citations in it, streamed in any chunks and flushed, comes back
  as its visible text and the bodies of its citations in order.
\<close>

theorem citations_round_trip:
  assumes "\<forall>(u, c)\<in>set ps. \<not> sublist CITATION_OPEN u \<and> \<not> sublist CITATION_CLOSE c"
    and "\<not> sublist CITATION_OPEN v" and "concat chunks = render_citations ps v"
    and "citation_new = Some s"
    and "stream_all citation_push_str chunk_default chunk_append s chunks = (out, s1)"
    and "citation_finish s1 = (tail, s2)"
  shows "chunk_append out tail = \<lparr>visible_text = concat (map fst ps) @ v, extracted = map snd ps\<rparr>"
proof -
  have s: "citation_inv s" "citation_inner s = \<lparr>specs = citation_specs, pending = [], active = None\<rparr>"
    using citation_new_Some assms(4) by (metis option.inject)+
  have "citation_push_str s (concat chunks) = (out, s1)"
    using citations.stream_all_concat [OF s(1), of chunks] assms(5) by simp
  then show ?thesis
    using citation_push_finish [OF s(2) _ assms(6)] hide_render [OF assms(1,2)] assms(3) by simp
qed

theorem citations_round_trip_witness:
  "\<exists>s out s1 tail s2. citation_new = Some s \<and>
     stream_all citation_push_str chunk_default chunk_append s
       [lit ''a<oai-'', lit ''mem-citation>d</oai-mem-citation>b''] = (out, s1) \<and>
     citation_finish s1 = (tail, s2) \<and>
     chunk_append out tail = \<lparr>visible_text = lit ''ab'', extracted = [lit ''d'']\<rparr>"
proof -
  let ?chunks = "[lit ''a<oai-'', lit ''mem-citation>d</oai-mem-citation>b'']"
  obtain s where s: "citation_new = Some s" using citation_new_Some by blast
  obtain out s1 where 1: "stream_all citation_push_str chunk_default chunk_append s ?chunks = (out, s1)"
    by (cases "stream_all citation_push_str chunk_default chunk_append s ?chunks")
  obtain tail s2 where 2: "citation_finish s1 = (tail, s2)" by (cases "citation_finish s1")
  have no: "\<not> sublist CITATION_OPEN [c]" "\<not> sublist CITATION_CLOSE [c]" for c
    by (auto simp: CITATION_OPEN_def CITATION_CLOSE_def dest: sublist_length_le)
  have "chunk_append out tail =
      \<lparr>visible_text = concat (map fst [(lit ''a'', lit ''d'')]) @ lit ''b'', extracted = map snd [(lit ''a'', lit ''d'')]\<rparr>"
    by (rule citations_round_trip [OF _ _ _ s 1 2]) (simp_all add: no, simp add: CITATION_OPEN_def CITATION_CLOSE_def)
  then show ?thesis using s 1 2 by auto
qed

end
