(* ===== verification/Tagged_Line.thy ===== *)
theory Tagged_Line
  imports Stream_Interface
begin

text \<open>
  \<^verbatim>\<open>codex-rs/utils/stream-parser/src/tagged_line_parser.rs\<close>: tags that stand alone on a line. At
  the start of a line chars are buffered while the line may still be a tag; after that the
  rest of the line goes out as it comes. The specification looks at whole lines
  (\<open>line_step\<close>).
\<close>

section \<open>Model\<close>

record 't tag_spec =
  open_tag :: rstr
  close_tag :: rstr
  tag_of :: 't

datatype 't tagged_line_segment =
    Seg_Normal rstr
  | Seg_TagStart 't
  | Seg_TagDelta 't rstr
  | Seg_TagEnd 't

record 't tagged_line_parser =
  tl_specs :: "'t tag_spec list"
  active_tag :: "'t option"
  detect_tag :: bool
  line_buffer :: rstr

definition tagged_new :: "'t tag_spec list \<Rightarrow> 't tagged_line_parser" where
  "tagged_new ss = \<lparr>tl_specs = ss, active_tag = None, detect_tag = True, line_buffer = []\<rparr>"

text \<open>Text is merged into the last segment when that is of the same kind; empty text is dropped.\<close>

fun push_segment :: "'t tagged_line_segment list \<Rightarrow> 't tagged_line_segment \<Rightarrow> 't tagged_line_segment list" where
  "push_segment segs (Seg_Normal delta) =
     (if delta = [] then segs
      else if segs = [] then [Seg_Normal delta]
      else (case List.last segs of
                Seg_Normal existing \<Rightarrow> butlast segs @ [Seg_Normal (existing @ delta)]
              | _ \<Rightarrow> segs @ [Seg_Normal delta]))"
| "push_segment segs (Seg_TagDelta tag delta) =
     (if delta = [] then segs
      else if segs = [] then [Seg_TagDelta tag delta]
      else (case List.last segs of
                Seg_TagDelta existing_tag existing \<Rightarrow>
                  if existing_tag = tag then butlast segs @ [Seg_TagDelta existing_tag (existing @ delta)]
                  else segs @ [Seg_TagDelta tag delta]
              | _ \<Rightarrow> segs @ [Seg_TagDelta tag delta]))"
| "push_segment segs (Seg_TagStart tag) = segs @ [Seg_TagStart tag]"
| "push_segment segs (Seg_TagEnd tag) = segs @ [Seg_TagEnd tag]"

definition push_text ::
  "'t option \<Rightarrow> rstr \<Rightarrow> 't tagged_line_segment list \<Rightarrow> 't tagged_line_segment list" where
  "push_text act text segs =
     (case act of Some tag \<Rightarrow> push_segment segs (Seg_TagDelta tag text)
      | None \<Rightarrow> push_segment segs (Seg_Normal text))"

definition is_tag_prefix :: "'t tag_spec list \<Rightarrow> rstr \<Rightarrow> bool" where
  "is_tag_prefix ss slug =
     (let slug = trim_end slug
      in list_ex (\<lambda>s. starts_with (open_tag s) slug \<or> starts_with (close_tag s) slug) ss)"

definition match_open :: "'t tag_spec list \<Rightarrow> rstr \<Rightarrow> 't option" where
  "match_open ss slug = map_option tag_of (find (\<lambda>s. open_tag s = slug) ss)"

definition match_close :: "'t tag_spec list \<Rightarrow> rstr \<Rightarrow> 't option" where
  "match_close ss slug = map_option tag_of (find (\<lambda>s. close_tag s = slug) ss)"

text \<open>\<open>line.strip_suffix('\n').unwrap_or(line)\<close>, trimmed at both ends.\<close>

definition slug_of :: "rstr \<Rightarrow> rstr" where
  "slug_of line =
     (let without_newline = (case strip_suffix [NL] line of Some l \<Rightarrow> l | None \<Rightarrow> line)
      in trim_end (trim_start without_newline))"

definition finish_line ::
  "'t tagged_line_parser \<Rightarrow> 't tagged_line_segment list \<Rightarrow> 't tagged_line_parser \<times> 't tagged_line_segment list" where
  "finish_line s segs =
     (let line = line_buffer s; s1 = s\<lparr>line_buffer := [], detect_tag := True\<rparr>; slug = slug_of line;
          open_match = match_open (tl_specs s) slug; close_match = match_close (tl_specs s) slug
      in if open_match \<noteq> None \<and> active_tag s = None then
           (s1\<lparr>active_tag := open_match\<rparr>, push_segment segs (Seg_TagStart (the open_match)))
         else if close_match \<noteq> None \<and> active_tag s = close_match then
           (s1\<lparr>active_tag := None\<rparr>, push_segment segs (Seg_TagEnd (the close_match)))
         else (s1, push_text (active_tag s) line segs))"

text \<open>The loop over the chars, with the local \<open>run\<close> of text not yet pushed.\<close>

fun parse_loop ::
  "'t tagged_line_parser \<Rightarrow> rstr \<Rightarrow> 't tagged_line_segment list \<Rightarrow> rstr \<Rightarrow>
   't tagged_line_segment list \<times> 't tagged_line_parser" where
  "parse_loop s run segs [] =
     ((if run \<noteq> [] then push_text (active_tag s) run segs else segs), s)"
| "parse_loop s run segs (ch # cs) =
     (if detect_tag s then
        (let segs1 = (if run \<noteq> [] then push_text (active_tag s) run segs else segs);
             s1 = s\<lparr>line_buffer := line_buffer s @ [ch]\<rparr>
         in if ch = NL then
              (case finish_line s1 segs1 of (s2, segs2) \<Rightarrow> parse_loop s2 [] segs2 cs)
            else
              (let slug = trim_start (line_buffer s1)
               in if slug = [] \<or> is_tag_prefix (tl_specs s1) slug then parse_loop s1 [] segs1 cs
                  else parse_loop (s1\<lparr>line_buffer := [], detect_tag := False\<rparr>) []
                         (push_text (active_tag s1) (line_buffer s1) segs1) cs))
      else if ch = NL then
        parse_loop (s\<lparr>detect_tag := True\<rparr>) [] (push_text (active_tag s) (run @ [ch]) segs) cs
      else parse_loop s (run @ [ch]) segs cs)"

definition tagged_parse ::
  "'t tagged_line_parser \<Rightarrow> rstr \<Rightarrow> 't tagged_line_segment list \<times> 't tagged_line_parser" where
  "tagged_parse s delta = parse_loop s [] [] delta"

text \<open>
  \<^verbatim>\<open>finish\<close> treats the buffered line as \<^verbatim>\<open>finish_line\<close> does and closes the open tag.
\<close>

definition tagged_finish ::
  "'t tagged_line_parser \<Rightarrow> 't tagged_line_segment list \<times> 't tagged_line_parser" where
  "tagged_finish s =
     (let (s1, segs) =
            (if line_buffer s \<noteq> [] then
               (let buffered = line_buffer s; s0 = s\<lparr>line_buffer := []\<rparr>; slug = slug_of buffered;
                    open_match = match_open (tl_specs s) slug; close_match = match_close (tl_specs s) slug
                in if open_match \<noteq> None \<and> active_tag s = None then
                     (s0\<lparr>active_tag := open_match\<rparr>, push_segment [] (Seg_TagStart (the open_match)))
                   else if close_match \<noteq> None \<and> active_tag s = close_match then
                     (s0\<lparr>active_tag := None\<rparr>, push_segment [] (Seg_TagEnd (the close_match)))
                   else (s0, push_text (active_tag s) buffered []))
             else (s, []));
          segs1 = (case active_tag s1 of Some tag \<Rightarrow> push_segment segs (Seg_TagEnd tag) | None \<Rightarrow> segs)
      in (segs1, s1\<lparr>active_tag := None, detect_tag := True\<rparr>))"

section \<open>Specification\<close>

text \<open>One line of the text: a tag that applies, or text.\<close>

definition line_step ::
  "'t tag_spec list \<Rightarrow> 't option \<times> 't tagged_line_segment list \<Rightarrow> rstr \<Rightarrow>
   't option \<times> 't tagged_line_segment list" where
  "line_step ss st line =
     (case st of (act, segs) \<Rightarrow>
        let slug = slug_of line in
        if act = None \<and> match_open ss slug \<noteq> None then
          (match_open ss slug, segs @ [Seg_TagStart (the (match_open ss slug))])
        else if act \<noteq> None \<and> match_close ss slug = act then (None, segs @ [Seg_TagEnd (the act)])
        else (act, push_text act line segs))"

definition parse_lines :: "'t tag_spec list \<Rightarrow> rstr \<Rightarrow> 't tagged_line_segment list" where
  "parse_lines ss text =
     (case foldl (line_step ss) (None, []) (split_inclusive NL text) of
        (None, segs) \<Rightarrow> segs
      | (Some tag, segs) \<Rightarrow> segs @ [Seg_TagEnd tag])"

text \<open>Joining the segments of two pieces of a stream.\<close>

definition append_segments ::
  "'t tagged_line_segment list \<Rightarrow> 't tagged_line_segment list \<Rightarrow> 't tagged_line_segment list" where
  "append_segments xs ys = foldl push_segment xs ys"

section \<open>Joining text\<close>

lemma push_segment_empty [simp]:
  "push_segment segs (Seg_Normal []) = segs" "push_segment segs (Seg_TagDelta t []) = segs"
  by simp_all

lemma push_segment_Nil: "d \<noteq> [] \<Longrightarrow> push_segment [] (Seg_Normal d) = [Seg_Normal d]"
  "d \<noteq> [] \<Longrightarrow> push_segment [] (Seg_TagDelta t d) = [Seg_TagDelta t d]"
  by simp_all

lemma push_segment_snoc:
  "d \<noteq> [] \<Longrightarrow> push_segment (zs @ [z]) (Seg_Normal d) =
     (case z of Seg_Normal e \<Rightarrow> zs @ [Seg_Normal (e @ d)] | _ \<Rightarrow> zs @ [z, Seg_Normal d])"
  "d \<noteq> [] \<Longrightarrow> push_segment (zs @ [z]) (Seg_TagDelta t d) =
     (case z of Seg_TagDelta t' e \<Rightarrow> if t' = t then zs @ [Seg_TagDelta t (e @ d)] else zs @ [z, Seg_TagDelta t d]
      | _ \<Rightarrow> zs @ [z, Seg_TagDelta t d])"
  by (cases z; simp)+

declare push_segment.simps(1,2) [simp del]

lemma push_segment_append_text:
  "push_segment segs (Seg_Normal (a @ b)) = push_segment (push_segment segs (Seg_Normal a)) (Seg_Normal b)"
  "push_segment segs (Seg_TagDelta t (a @ b)) =
   push_segment (push_segment segs (Seg_TagDelta t a)) (Seg_TagDelta t b)"
proof -
  have n: "push_segment [x] y = push_segment ([] @ [x]) y" for x y :: "'a tagged_line_segment" by simp
  have n2: "push_segment (zs @ [z, x]) y = push_segment ((zs @ [z]) @ [x]) y"
    for x y z :: "'a tagged_line_segment" and zs by simp
  note r = push_segment_Nil push_segment_snoc n2 push_segment_snoc [of _ "[]", simplified]
  show "push_segment segs (Seg_Normal (a @ b)) = push_segment (push_segment segs (Seg_Normal a)) (Seg_Normal b)"
    by (cases segs rule: rev_cases; cases "a = []"; cases "b = []")
      (auto simp: push_segment_Nil push_segment_snoc n n2 simp del: append.simps append_assoc
        split: tagged_line_segment.splits)
  show "push_segment segs (Seg_TagDelta t (a @ b)) =
   push_segment (push_segment segs (Seg_TagDelta t a)) (Seg_TagDelta t b)"
    by (cases segs rule: rev_cases; cases "a = []"; cases "b = []")
      (auto simp: push_segment_Nil push_segment_snoc n n2 simp del: append.simps append_assoc
        split: tagged_line_segment.splits)
qed

lemma push_text_append: "push_text act (a @ b) segs = push_text act b (push_text act a segs)"
  by (simp add: push_text_def push_segment_append_text split: option.splits)

lemma push_text_Nil [simp]: "push_text act [] segs = segs"
  by (simp add: push_text_def split: option.splits)

lemma append_segments_snoc: "append_segments xs (ys @ [y]) = push_segment (append_segments xs ys) y"
  by (simp add: append_segments_def)

lemma append_segments_Nil [simp]: "append_segments xs [] = xs"
  by (simp add: append_segments_def)

lemma append_segments_snoc2:
  "append_segments xs (ys @ [y, z]) = push_segment (push_segment (append_segments xs ys) y) z"
  by (simp add: append_segments_def)

lemma append_segments_push: "append_segments xs (push_segment ys y) = push_segment (append_segments xs ys) y"
proof (cases y)
  case (Seg_Normal d)
  show ?thesis
  proof (cases "d = []"; cases ys rule: rev_cases)
    fix zs z assume "d \<noteq> []" "ys = zs @ [z]"
    then show ?thesis
      by (simp add: Seg_Normal push_segment_snoc append_segments_snoc append_segments_snoc2
          push_segment_append_text split: tagged_line_segment.splits)
  qed (simp_all add: Seg_Normal push_segment_Nil append_segments_def)
next
  case (Seg_TagDelta t d)
  show ?thesis
  proof (cases "d = []"; cases ys rule: rev_cases)
    fix zs z assume "d \<noteq> []" "ys = zs @ [z]"
    then show ?thesis
      by (simp add: Seg_TagDelta push_segment_snoc append_segments_snoc append_segments_snoc2
          push_segment_append_text split: tagged_line_segment.splits)
  qed (simp_all add: Seg_TagDelta push_segment_Nil append_segments_def)
qed (simp_all add: append_segments_snoc)

lemma append_segments_text: "append_segments xs (push_text act t ys) = push_text act t (append_segments xs ys)"
  by (simp add: push_text_def append_segments_push split: option.splits)

lemma append_segments_assoc: "append_segments (append_segments xs ys) zs = append_segments xs (append_segments ys zs)"
  by (induction zs rule: rev_induct) (simp_all add: append_segments_snoc append_segments_push)

section \<open>Chunk independence\<close>

lemma finish_line_append: "finish_line s (append_segments xs ys) = apsnd (append_segments xs) (finish_line s ys)"
  by (simp add: finish_line_def Let_def append_segments_snoc append_segments_text)

lemma parse_loop_append_segs:
  "parse_loop s run (append_segments xs ys) cs = apfst (append_segments xs) (parse_loop s run ys cs)"
proof (induction cs arbitrary: s run ys)
  case (Cons c cs)
  then show ?case
    by (simp add: Let_def finish_line_append append_segments_text [symmetric] split: prod.splits)
qed (simp add: append_segments_text)

text \<open>Text may be pushed before the end of a run, because segments of text are merged.\<close>

lemma parse_loop_run: "parse_loop s run segs cs = parse_loop s [] (push_text (active_tag s) run segs) cs"
proof (induction cs arbitrary: s run segs)
  case (Cons c cs)
  show ?case
  proof (cases "detect_tag s \<or> c = NL")
    case True
    then show ?thesis by (auto simp: Let_def push_text_append)
  next
    case False
    then have "parse_loop s run segs (c # cs) = parse_loop s (run @ [c]) segs cs" by simp
    also have "\<dots> = parse_loop s [] (push_text (active_tag s) (run @ [c]) segs) cs" by (rule Cons.IH)
    also have "\<dots> = parse_loop s [c] (push_text (active_tag s) run segs) cs"
      unfolding push_text_append by (rule Cons.IH [symmetric])
    finally show ?thesis using False by simp
  qed
qed simp

lemma parse_loop_text:
  "parse_loop s run segs (a @ b) =
   (case parse_loop s run segs a of (segs1, s1) \<Rightarrow> parse_loop s1 [] segs1 b)"
proof (induction s run segs a rule: parse_loop.induct)
  case (1 s run segs)
  then show ?case using parse_loop_run [of s run segs b] by simp
next
  case (2 s run segs ch cs)
  then show ?case by (auto simp: Let_def split: prod.splits)
qed

interpretation tagged: text_stream "\<lambda>_. True" tagged_parse "[]" append_segments
proof
  fix s :: "'t tagged_line_parser" and a b :: rstr
  obtain segs1 s1 where a: "parse_loop s [] [] a = (segs1, s1)" by (cases "parse_loop s [] [] a")
  have "parse_loop s1 [] segs1 b = apfst (append_segments segs1) (parse_loop s1 [] [] b)"
    using parse_loop_append_segs [of s1 "[]" segs1 "[]" b] by simp
  then show "tagged_parse s (a @ b) =
      (let (x, s1) = tagged_parse s a; (y, s2) = tagged_parse s1 b in (append_segments x y, s2))"
    by (simp add: tagged_parse_def parse_loop_text a apfst_def split: prod.splits)
qed (simp_all add: tagged_parse_def)

section \<open>Lines\<close>

text \<open>The prefixes of a line that is a tag are never given up.\<close>

lemma trim_start_append_nws: "\<not> (\<forall>c\<in>set a. is_whitespace c) \<Longrightarrow> trim_start (a @ b) = trim_start a @ b"
  by (auto simp: trim_start_def)

lemma slug_prefix:
  assumes "prefix u line" and "trim_start u \<noteq> []"
  shows "prefix (trim_end (trim_start u)) (trim line)"
proof -
  obtain v where line: "line = u @ v" using assms(1) by (auto simp: prefix_def)
  have "\<not> (\<forall>c\<in>set u. is_whitespace c)" using assms(2) by (auto simp: trim_start_def)
  then have l: "trim line = trim_end (trim_start u @ v)" by (simp add: line trim_def trim_start_append_nws)
  obtain w where w: "trim_start u = trim_end (trim_start u) @ w" "\<forall>c\<in>set w. is_whitespace c"
    by (rule trim_end_decomp)
  show ?thesis
  proof (cases "\<forall>c\<in>set v. is_whitespace c")
    case True
    then have "trim line = trim_end (trim_start u)" by (simp add: l)
    then show ?thesis by simp
  next
    case False
    then have "trim_end (trim_start u @ v) = trim_start u @ trim_end v"
      by (auto simp: trim_end_def)
    then show ?thesis using l w(1) by (metis append.assoc prefixI)
  qed
qed

lemma is_tag_prefix_slug:
  assumes "match_open ss (trim line) \<noteq> None \<or> match_close ss (trim line) \<noteq> None"
    and "prefix u line" and "trim_start u \<noteq> []"
  shows "is_tag_prefix ss (trim_start u)"
proof -
  have "\<exists>s\<in>set ss. open_tag s = trim line \<or> close_tag s = trim line"
    using assms(1) by (auto simp: match_open_def match_close_def find_Some_iff)
  moreover have "prefix (trim_end (trim_start u)) (trim line)" using assms(2,3) by (rule slug_prefix)
  ultimately have "\<exists>s\<in>set ss. prefix (trim_end (trim_start u)) (open_tag s) \<or>
      prefix (trim_end (trim_start u)) (close_tag s)"
    by metis
  then show ?thesis
    by (simp add: is_tag_prefix_def Let_def list_ex_iff starts_with_iff_prefix)
qed

lemma slug_of_line: "NL \<notin> set line \<Longrightarrow> slug_of (line @ [NL]) = trim line" "NL \<notin> set line \<Longrightarrow> slug_of line = trim line"
proof -
  assume n: "NL \<notin> set line"
  show "slug_of (line @ [NL]) = trim line" by (simp add: slug_of_def trim_def)
  have "strip_suffix [NL] line = None"
    using n by (intro strip_suffix_single_None) (auto dest: last_in_set)
  then show "slug_of line = trim line" by (simp add: slug_of_def trim_def)
qed

text \<open>The start of a line: still buffered, or given up and pushed as text.\<close>

definition line_start :: "'t tag_spec list \<Rightarrow> 't option \<Rightarrow> 't tagged_line_parser" where
  "line_start ss act = \<lparr>tl_specs = ss, active_tag = act, detect_tag = True, line_buffer = []\<rparr>"

lemma parse_loop_no_detect:
  assumes "\<not> detect_tag s" and "NL \<notin> set cs"
  shows "parse_loop s run segs cs = (push_text (active_tag s) (run @ cs) segs, s)"
  using assms(2)
proof (induction cs arbitrary: run)
  case (Cons c cs)
  then show ?case using assms(1) by simp
qed simp

definition given_up :: "'t tag_spec list \<Rightarrow> rstr \<Rightarrow> bool" where
  "given_up ss line \<longleftrightarrow> (\<exists>u. prefix u line \<and> trim_start u \<noteq> [] \<and> \<not> is_tag_prefix ss (trim_start u))"

lemma parse_loop_line_buffered:
  fixes s :: "'t tagged_line_parser"
  assumes "detect_tag s" and "NL \<notin> set cs"
  shows "parse_loop s [] segs cs = (segs, s\<lparr>line_buffer := line_buffer s @ cs\<rparr>) \<or>
    given_up (tl_specs s) (line_buffer s @ cs) \<and>
    parse_loop s [] segs cs =
      (push_text (active_tag s) (line_buffer s @ cs) segs, s\<lparr>line_buffer := [], detect_tag := False\<rparr>)"
  using assms
proof (induction cs arbitrary: s)
  case (Cons c cs)
  let ?s1 = "s\<lparr>line_buffer := line_buffer s @ [c]\<rparr>"
  show ?case
  proof (cases "trim_start (line_buffer s @ [c]) = [] \<or> is_tag_prefix (tl_specs s) (trim_start (line_buffer s @ [c]))")
    case True
    then have "parse_loop s [] segs (c # cs) = parse_loop ?s1 [] segs cs" using Cons.prems by simp
    then show ?thesis using Cons.IH [of ?s1] Cons.prems by simp
  next
    case False
    then have g: "given_up (tl_specs s) (line_buffer s @ c # cs)"
      unfolding given_up_def by (intro exI [of _ "line_buffer s @ [c]"]) simp
    have "parse_loop s [] segs (c # cs) =
        parse_loop (s\<lparr>line_buffer := [], detect_tag := False\<rparr>) []
          (push_text (active_tag s) (line_buffer s @ [c]) segs) cs"
      using False Cons.prems by simp
    also have "\<dots> = (push_text (active_tag s) ((line_buffer s @ [c]) @ cs) segs,
        s\<lparr>line_buffer := [], detect_tag := False\<rparr>)"
      using Cons.prems by (simp add: parse_loop_no_detect push_text_append [symmetric])
    finally show ?thesis using g by simp
  qed
qed simp

lemma given_up_no_tag:
  "given_up ss line \<Longrightarrow> match_open ss (trim line) = None \<and> match_close ss (trim line) = None"
  unfolding given_up_def by (meson is_tag_prefix_slug)

text \<open>\<open>finish_line\<close> is one step of the specification.\<close>

lemma finish_line_step:
  "finish_line s segs =
   (case line_step (tl_specs s) (active_tag s, segs) (line_buffer s) of
      (act, segs') \<Rightarrow> (s\<lparr>line_buffer := [], detect_tag := True, active_tag := act\<rparr>, segs'))"
  by (auto simp: finish_line_def line_step_def Let_def)

lemma parse_line:
  assumes "NL \<notin> set l"
  shows "parse_loop (line_start ss act) [] segs (l @ [NL]) =
    (case line_step ss (act, segs) (l @ [NL]) of (act', segs') \<Rightarrow> (segs', line_start ss act'))"
proof -
  let ?s = "line_start ss act"
  consider "parse_loop ?s [] segs l = (segs, ?s\<lparr>line_buffer := l\<rparr>)"
    | "given_up ss l" "parse_loop ?s [] segs l = (push_text act l segs, ?s\<lparr>line_buffer := [], detect_tag := False\<rparr>)"
    using parse_loop_line_buffered [OF _ assms, of ?s segs] by (auto simp: line_start_def)
  then show ?thesis
  proof cases
    case 1
    then show ?thesis
      by (simp add: parse_loop_text finish_line_step line_start_def split: prod.splits)
  next
    case 2
    then have "line_step ss (act, segs) (l @ [NL]) = (act, push_text act (l @ [NL]) segs)"
      using given_up_no_tag [OF 2(1)] by (auto simp: line_step_def slug_of_line [OF assms])
    then show ?thesis
      using 2(2) by (simp add: parse_loop_text line_start_def push_text_append)
  qed
qed

definition close_tag_end :: "'t option \<times> 't tagged_line_segment list \<Rightarrow> 't tagged_line_segment list" where
  "close_tag_end st = (case st of (None, segs) \<Rightarrow> segs | (Some tag, segs) \<Rightarrow> segs @ [Seg_TagEnd tag])"

lemma append_segments_short:
  "append_segments xs [y] = push_segment xs y"
  "append_segments xs [y, z] = push_segment (push_segment xs y) z"
  by (simp_all add: append_segments_def)

lemma finish_buffered:
  assumes "l \<noteq> []"
  shows "append_segments segs (fst (tagged_finish ((line_start ss act)\<lparr>line_buffer := l\<rparr>))) =
    close_tag_end (line_step ss (act, segs) l)"
  using assms
  by (cases act)
    (auto simp: tagged_finish_def line_start_def line_step_def close_tag_end_def Let_def append_segments_snoc
      append_segments_text append_segments_short)

lemma parse_last_line:
  assumes "NL \<notin> set l" and "parse_loop (line_start ss act) [] segs l = (segs1, s1)"
  shows "append_segments segs1 (fst (tagged_finish s1)) =
    close_tag_end (if l = [] then (act, segs) else line_step ss (act, segs) l)"
proof (cases "l = []")
  case True
  then show ?thesis
    using assms(2) by (auto simp: tagged_finish_def line_start_def close_tag_end_def append_segments_def split: option.splits)
next
  case False
  let ?s = "line_start ss act"
  consider "segs1 = segs" "s1 = ?s\<lparr>line_buffer := l\<rparr>"
    | "given_up ss l" "segs1 = push_text act l segs" "s1 = ?s\<lparr>line_buffer := [], detect_tag := False\<rparr>"
    using parse_loop_line_buffered [OF _ assms(1), of ?s segs] assms(2) by (auto simp: line_start_def)
  then show ?thesis
  proof cases
    case 1
    then show ?thesis using finish_buffered [OF False, of segs ss act] False by simp
  next
    case 2
    have "line_step ss (act, segs) l = (act, push_text act l segs)"
      using given_up_no_tag [OF 2(1)] by (auto simp: line_step_def slug_of_line(2) [OF assms(1)])
    then show ?thesis
      using 2 False
      by (auto simp: tagged_finish_def line_start_def close_tag_end_def append_segments_def split: option.splits)
  qed
qed

lemma split_inclusive_no_sep: "d \<notin> set l \<Longrightarrow> split_inclusive d l = (if l = [] then [] else [l])"
  by (auto simp: split_inclusive_last)

lemma parse_text_lines:
  "parse_loop (line_start ss act) [] segs text = (segs1, s1) \<Longrightarrow>
   append_segments segs1 (fst (tagged_finish s1)) =
     close_tag_end (foldl (line_step ss) (act, segs) (split_inclusive NL text))"
proof (induction "text" arbitrary: act segs rule: length_induct)
  case (1 "text")
  show ?case
  proof (cases "NL \<in> set text")
    case False
    then show ?thesis
      using parse_last_line [OF False "1.prems"] by (simp add: split_inclusive_no_sep)
  next
    case True
    then obtain l rest where t: "text = l @ NL # rest" and l: "NL \<notin> set l" by (metis split_list_first)
    obtain act' segs' where st: "line_step ss (act, segs) (l @ [NL]) = (act', segs')"
      by (cases "line_step ss (act, segs) (l @ [NL])")
    have "parse_loop (line_start ss act') [] segs' rest = (segs1, s1)"
      using "1.prems" parse_loop_text [of "line_start ss act" "[]" segs "l @ [NL]" rest]
      by (simp add: t parse_line [OF l] st)
    then show ?thesis
      using "1.IH" by (simp add: t split_inclusive_line [OF l] st)
  qed
qed

section \<open>Properties\<close>

text \<open>
  However a text is cut into chunks, the segments the parser emits and
  flushes, joined, are those found by looking at its lines one at a time: a line that is an
  open tag (outside a block) or the close tag of the block, up to white space around it, and
  text otherwise, with a block that is still open closed at the end.
\<close>

theorem tagged_line_stream_correct:
  assumes "stream_all tagged_parse [] append_segments (tagged_new ss) chunks = (out, s)"
  shows "append_segments out (fst (tagged_finish s)) = parse_lines ss (concat chunks)"
proof -
  have "tagged_parse (tagged_new ss) (concat chunks) = (out, s)"
    using tagged.stream_all_concat [of "tagged_new ss" chunks] assms by simp
  then have "parse_loop (line_start ss None) [] [] (concat chunks) = (out, s)"
    by (simp add: tagged_parse_def tagged_new_def line_start_def)
  then have "append_segments out (fst (tagged_finish s)) =
      close_tag_end (foldl (line_step ss) (None, []) (split_inclusive NL (concat chunks)))"
    by (rule parse_text_lines)
  then show ?thesis by (simp add: parse_lines_def close_tag_end_def)
qed

definition example_tag :: "unit tag_spec" where
  "example_tag = \<lparr>open_tag = lit ''<p>'', close_tag = lit ''</p>'', tag_of = ()\<rparr>"

theorem tagged_line_stream_correct_witness:
  "\<exists>out s. stream_all tagged_parse [] append_segments (tagged_new [example_tag])
       [lit ''a'' @ [NL] @ lit '' <'', lit ''p>'' @ [NL] @ lit ''b'' @ [NL]] = (out, s) \<and>
     append_segments out (fst (tagged_finish s)) =
       [Seg_Normal (lit ''a'' @ [NL]), Seg_TagStart (), Seg_TagDelta () (lit ''b'' @ [NL]), Seg_TagEnd ()]"
proof -
  let ?chunks = "[lit ''a'' @ [NL] @ lit '' <'', lit ''p>'' @ [NL] @ lit ''b'' @ [NL]]"
  obtain out s where r: "stream_all tagged_parse [] append_segments (tagged_new [example_tag]) ?chunks = (out, s)"
    by (cases "stream_all tagged_parse [] append_segments (tagged_new [example_tag]) ?chunks")
  have "parse_lines [example_tag] (concat ?chunks) =
      [Seg_Normal (lit ''a'' @ [NL]), Seg_TagStart (), Seg_TagDelta () (lit ''b'' @ [NL]), Seg_TagEnd ()]"
    by (simp add: parse_lines_def line_step_def slug_of_def match_open_def match_close_def example_tag_def
        strip_suffix_def trim_end_def trim_start_def is_whitespace_def push_text_def push_segment.simps Let_def)
  with tagged_line_stream_correct [OF r]
  have "append_segments out (fst (tagged_finish s)) =
      [Seg_Normal (lit ''a'' @ [NL]), Seg_TagStart (), Seg_TagDelta () (lit ''b'' @ [NL]), Seg_TagEnd ()]"
    by (rule trans)
  with r show ?thesis by blast
qed

end
