(* ===== verification/Assistant_Text.thy ===== *)
theory Assistant_Text
  imports Citations Tagged_Line
begin

text \<open>
  \<^verbatim>\<open>codex-rs/utils/stream-parser/src/proposed_plan.rs\<close> and \<^verbatim>\<open>assistant_text.rs\<close>: plan blocks in
  streamed text, and the parser of assistant text, which takes the citations out first and
  then, in plan mode, the plan blocks out of what is left.
\<close>

section \<open>Plan blocks\<close>

definition OPEN_TAG :: rstr where "OPEN_TAG = lit ''<proposed_plan>''"
definition CLOSE_TAG :: rstr where "CLOSE_TAG = lit ''</proposed_plan>''"

datatype plan_tag = ProposedPlan

datatype proposed_plan_segment =
    Plan_Normal rstr
  | ProposedPlanStart
  | ProposedPlanDelta rstr
  | ProposedPlanEnd

record proposed_plan_parser =
  plan_inner :: "plan_tag tagged_line_parser"

definition plan_specs :: "plan_tag tag_spec list" where
  "plan_specs = [\<lparr>open_tag = OPEN_TAG, close_tag = CLOSE_TAG, tag_of = ProposedPlan\<rparr>]"

definition plan_new :: proposed_plan_parser where
  "plan_new = \<lparr>plan_inner = tagged_new plan_specs\<rparr>"

fun plan_segment :: "plan_tag tagged_line_segment \<Rightarrow> proposed_plan_segment" where
  "plan_segment (Seg_Normal t) = Plan_Normal t"
| "plan_segment (Seg_TagStart _) = ProposedPlanStart"
| "plan_segment (Seg_TagDelta _ t) = ProposedPlanDelta t"
| "plan_segment (Seg_TagEnd _) = ProposedPlanEnd"

fun normal_text :: "proposed_plan_segment \<Rightarrow> rstr" where
  "normal_text (Plan_Normal t) = t"
| "normal_text _ = []"

definition map_segments :: "plan_tag tagged_line_segment list \<Rightarrow> proposed_plan_segment stream_chunk" where
  "map_segments segs =
     \<lparr>visible_text = concat (map (\<lambda>x. normal_text (plan_segment x)) segs), extracted = map plan_segment segs\<rparr>"

definition plan_push_str ::
  "proposed_plan_parser \<Rightarrow> rstr \<Rightarrow> proposed_plan_segment stream_chunk \<times> proposed_plan_parser" where
  "plan_push_str s chunk =
     (case tagged_parse (plan_inner s) chunk of (segs, p) \<Rightarrow> (map_segments segs, s\<lparr>plan_inner := p\<rparr>))"

definition plan_finish :: "proposed_plan_parser \<Rightarrow> proposed_plan_segment stream_chunk \<times> proposed_plan_parser" where
  "plan_finish s =
     (case tagged_finish (plan_inner s) of (segs, p) \<Rightarrow> (map_segments segs, s\<lparr>plan_inner := p\<rparr>))"

definition strip_proposed_plan_blocks :: "rstr \<Rightarrow> rstr" where
  "strip_proposed_plan_blocks txt =
     (case plan_push_str plan_new txt of (out, p) \<Rightarrow> visible_text out @ visible_text (fst (plan_finish p)))"

fun plan_text_step :: "bool \<times> rstr \<Rightarrow> proposed_plan_segment \<Rightarrow> bool \<times> rstr" where
  "plan_text_step (saw, t) ProposedPlanStart = (True, [])"
| "plan_text_step (saw, t) (ProposedPlanDelta d) = (saw, t @ d)"
| "plan_text_step (saw, t) ProposedPlanEnd = (saw, t)"
| "plan_text_step (saw, t) (Plan_Normal _) = (saw, t)"

definition extract_proposed_plan_text :: "rstr \<Rightarrow> rstr option" where
  "extract_proposed_plan_text txt =
     (case plan_push_str plan_new txt of
        (out, p) \<Rightarrow>
          (case foldl plan_text_step (False, []) (extracted out @ extracted (fst (plan_finish p))) of
             (saw_plan_block, plan_text) \<Rightarrow> if saw_plan_block then Some plan_text else None))"

section \<open>Assistant text\<close>

record assistant_text_chunk =
  at_visible_text :: rstr
  at_citations :: "rstr list"
  at_plan_segments :: "proposed_plan_segment list"

definition at_default :: assistant_text_chunk where
  "at_default = \<lparr>at_visible_text = [], at_citations = [], at_plan_segments = []\<rparr>"

definition at_is_empty :: "assistant_text_chunk \<Rightarrow> bool" where
  "at_is_empty c \<longleftrightarrow> at_visible_text c = [] \<and> at_citations c = [] \<and> at_plan_segments c = []"

record assistant_parser =
  plan_mode :: bool
  as_citations :: citation_parser
  as_plan :: proposed_plan_parser

definition assistant_new :: "bool \<Rightarrow> assistant_parser option" where
  "assistant_new mode =
     map_option (\<lambda>c. \<lparr>plan_mode = mode, as_citations = c, as_plan = plan_new\<rparr>) citation_new"

definition parse_visible_text :: "assistant_parser \<Rightarrow> rstr \<Rightarrow> assistant_text_chunk \<times> assistant_parser" where
  "parse_visible_text s v =
     (if \<not> plan_mode s then (at_default\<lparr>at_visible_text := v\<rparr>, s)
      else (case plan_push_str (as_plan s) v of
              (plan_chunk, p) \<Rightarrow>
                (at_default\<lparr>at_visible_text := visible_text plan_chunk,
                            at_plan_segments := extracted plan_chunk\<rparr>, s\<lparr>as_plan := p\<rparr>)))"

definition assistant_push_str :: "assistant_parser \<Rightarrow> rstr \<Rightarrow> assistant_text_chunk \<times> assistant_parser" where
  "assistant_push_str s chunk =
     (case citation_push_str (as_citations s) chunk of
        (citation_chunk, c) \<Rightarrow>
          (case parse_visible_text (s\<lparr>as_citations := c\<rparr>) (visible_text citation_chunk) of
             (out, s1) \<Rightarrow> (out\<lparr>at_citations := extracted citation_chunk\<rparr>, s1)))"

definition assistant_finish :: "assistant_parser \<Rightarrow> assistant_text_chunk \<times> assistant_parser" where
  "assistant_finish s =
     (case citation_finish (as_citations s) of
        (citation_chunk, c) \<Rightarrow>
          (case parse_visible_text (s\<lparr>as_citations := c\<rparr>) (visible_text citation_chunk) of
             (out, s1) \<Rightarrow>
               (case (if plan_mode s1 then
                        (case plan_finish (as_plan s1) of
                           (tail, p) \<Rightarrow>
                             ((if \<not> chunk_empty tail
                               then out\<lparr>at_visible_text := at_visible_text out @ visible_text tail,
                                        at_plan_segments := at_plan_segments out @ extracted tail\<rparr>
                               else out), s1\<lparr>as_plan := p\<rparr>))
                      else (out, s1)) of
                  (out1, s2) \<Rightarrow> (out1\<lparr>at_citations := extracted citation_chunk\<rparr>, s2))))"

section \<open>Joining outputs\<close>

fun plan_unsegment :: "proposed_plan_segment \<Rightarrow> plan_tag tagged_line_segment" where
  "plan_unsegment (Plan_Normal t) = Seg_Normal t"
| "plan_unsegment ProposedPlanStart = Seg_TagStart ProposedPlan"
| "plan_unsegment (ProposedPlanDelta t) = Seg_TagDelta ProposedPlan t"
| "plan_unsegment ProposedPlanEnd = Seg_TagEnd ProposedPlan"

text \<open>Segments of two pieces, adjacent text of the same kind merged.\<close>

definition join_plan ::
  "proposed_plan_segment list \<Rightarrow> proposed_plan_segment list \<Rightarrow> proposed_plan_segment list" where
  "join_plan xs ys = map plan_segment (append_segments (map plan_unsegment xs) (map plan_unsegment ys))"

definition at_append :: "assistant_text_chunk \<Rightarrow> assistant_text_chunk \<Rightarrow> assistant_text_chunk" where
  "at_append a b =
     \<lparr>at_visible_text = at_visible_text a @ at_visible_text b,
      at_citations = at_citations a @ at_citations b,
      at_plan_segments = join_plan (at_plan_segments a) (at_plan_segments b)\<rparr>"

text \<open>What a whole text means: its citations, and the visible text with or without plan blocks.\<close>

definition assistant_meaning :: "bool \<Rightarrow> rstr \<Rightarrow> assistant_text_chunk" where
  "assistant_meaning mode txt =
     (case hide_citations txt of
        (v, cs) \<Rightarrow>
          if mode then
            (let segs = map plan_segment (parse_lines plan_specs v)
             in \<lparr>at_visible_text = concat (map normal_text segs), at_citations = cs, at_plan_segments = segs\<rparr>)
          else \<lparr>at_visible_text = v, at_citations = cs, at_plan_segments = []\<rparr>)"

section \<open>Lemmas\<close>

lemma plan_unsegment_segment [simp]: "plan_unsegment (plan_segment x) = x"
  by (cases x) (auto intro: plan_tag.exhaust, (metis plan_tag.exhaust)+)

lemma plan_segment_unsegment [simp]: "plan_segment (plan_unsegment x) = x"
  by (cases x) auto

lemma map_unsegment_segment [simp]: "map plan_unsegment (map plan_segment xs) = xs"
  by (induction xs) auto

lemma join_plan_segments: "join_plan (map plan_segment xs) (map plan_segment ys) = map plan_segment (append_segments xs ys)"
  by (simp only: join_plan_def map_unsegment_segment)

abbreviation normals :: "plan_tag tagged_line_segment list \<Rightarrow> rstr" where
  "normals segs \<equiv> concat (map (\<lambda>x. normal_text (plan_segment x)) segs)"

lemma normals_push: "normals (push_segment xs x) = normals xs @ normal_text (plan_segment x)"
  by (cases x; cases xs rule: rev_cases)
    (auto simp: push_segment.simps split: tagged_line_segment.splits)

lemma normals_append: "normals (append_segments xs ys) = normals xs @ normals ys"
  by (induction ys rule: rev_induct) (simp_all add: append_segments_snoc normals_push)

text \<open>The text of a plan does not depend on how its deltas are merged.\<close>

abbreviation plan_fold :: "bool \<times> rstr \<Rightarrow> plan_tag tagged_line_segment list \<Rightarrow> bool \<times> rstr" where
  "plan_fold st segs \<equiv> foldl plan_text_step st (map plan_segment segs)"

lemma plan_text_step_append:
  "plan_text_step (plan_text_step st (ProposedPlanDelta a)) (ProposedPlanDelta b) = plan_text_step st (ProposedPlanDelta (a @ b))"
  "plan_text_step (plan_text_step st (Plan_Normal a)) (Plan_Normal b) = plan_text_step st (Plan_Normal (a @ b))"
  "plan_text_step st (ProposedPlanDelta []) = st" "plan_text_step st (Plan_Normal t) = st"
  by (cases st; simp)+

lemma plan_fold_push: "plan_fold st (push_segment xs x) = plan_text_step (plan_fold st xs) (plan_segment x)"
  by (cases x; cases xs rule: rev_cases)
    (auto simp: push_segment.simps plan_text_step_append split: tagged_line_segment.splits)

lemma plan_fold_append: "plan_fold st (append_segments xs ys) = plan_fold (plan_fold st xs) ys"
  by (induction ys rule: rev_induct) (simp_all add: append_segments_snoc plan_fold_push)

lemma plan_push_finish:
  assumes "plan_push_str plan_new txt = (out, p)"
  shows "\<exists>xs ys. out = map_segments xs \<and> fst (plan_finish p) = map_segments ys \<and>
    append_segments xs ys = parse_lines plan_specs txt"
proof -
  obtain xs q where x: "tagged_parse (tagged_new plan_specs) txt = (xs, q)"
    by (cases "tagged_parse (tagged_new plan_specs) txt")
  have "append_segments xs (fst (tagged_finish q)) = close_tag_end
      (foldl (line_step plan_specs) (None, []) (split_inclusive NL txt))"
    by (rule parse_text_lines) (use x in \<open>simp add: tagged_parse_def tagged_new_def line_start_def\<close>)
  also have "\<dots> = parse_lines plan_specs txt" by (simp add: parse_lines_def close_tag_end_def)
  finally show ?thesis
    using assms x by (intro exI [of _ xs] exI [of _ "fst (tagged_finish q)"])
      (auto simp: plan_push_str_def plan_new_def plan_finish_def split: prod.splits)
qed

text \<open>Both functions on a whole text, over the specification by lines.\<close>

lemma strip_plan_lines: "strip_proposed_plan_blocks txt = normals (parse_lines plan_specs txt)"
proof -
  obtain out p where o: "plan_push_str plan_new txt = (out, p)" by (cases "plan_push_str plan_new txt")
  obtain xs ys where "out = map_segments xs" "fst (plan_finish p) = map_segments ys"
    "append_segments xs ys = parse_lines plan_specs txt" using plan_push_finish [OF o] by blast
  then show ?thesis
    using normals_append [of xs ys] by (simp add: strip_proposed_plan_blocks_def o map_segments_def)
qed

lemma extract_plan_lines:
  "extract_proposed_plan_text txt =
    (case plan_fold (False, []) (parse_lines plan_specs txt) of (saw, t) \<Rightarrow> if saw then Some t else None)"
proof -
  obtain out p where o: "plan_push_str plan_new txt = (out, p)" by (cases "plan_push_str plan_new txt")
  obtain xs ys where *: "out = map_segments xs" "fst (plan_finish p) = map_segments ys"
    "append_segments xs ys = parse_lines plan_specs txt" using plan_push_finish [OF o] by blast
  show ?thesis
    unfolding *(3) [symmetric] plan_fold_append
    by (simp add: extract_proposed_plan_text_def o *(1,2) map_segments_def)
qed

text \<open>Lines without a tag that applies are one piece of text.\<close>

lemma foldl_text_lines:
  assumes "\<forall>l\<in>set ls. (act = None \<longrightarrow> match_open ss (slug_of l) = None) \<and> (act \<noteq> None \<longrightarrow> match_close ss (slug_of l) \<noteq> act)"
  shows "foldl (line_step ss) (act, segs) ls = (act, push_text act (concat ls) segs)"
  using assms
proof (induction ls arbitrary: segs)
  case (Cons l ls)
  then have "line_step ss (act, segs) l = (act, push_text act l segs)" by (auto simp: line_step_def Let_def)
  then show ?case using Cons by (simp add: push_text_append)
qed simp

definition full_lines :: "rstr \<Rightarrow> bool" where
  "full_lines t \<longleftrightarrow> t = [] \<or> last t = NL"

lemma split_inclusive_append:
  "a = [] \<or> last a = d \<Longrightarrow> split_inclusive d (a @ b) = split_inclusive d a @ split_inclusive d b"
proof (induction a)
  case (Cons c cs)
  show ?case
  proof (cases "cs = []")
    case False
    then have "split_inclusive d cs \<noteq> []" by (cases cs) (auto split: list.splits)
    then show ?thesis using Cons False by (auto split: list.splits)
  qed (use Cons in auto)
qed simp

lemma plan_match:
  "match_open plan_specs l = (if l = OPEN_TAG then Some ProposedPlan else None)"
  "match_close plan_specs l = (if l = CLOSE_TAG then Some ProposedPlan else None)"
  by (auto simp: match_open_def match_close_def plan_specs_def)

definition no_line :: "rstr \<Rightarrow> rstr \<Rightarrow> bool" where
  "no_line tag t \<longleftrightarrow> (\<forall>l\<in>set (split_inclusive NL t). slug_of l \<noteq> tag)"

text \<open>A text with one plan block, tags on lines of their own.\<close>

definition plan_document :: "rstr \<Rightarrow> rstr \<Rightarrow> rstr \<Rightarrow> rstr" where
  "plan_document pre body post = pre @ (OPEN_TAG @ [NL]) @ body @ (CLOSE_TAG @ [NL]) @ post"

lemma tag_line: "split_inclusive NL (OPEN_TAG @ [NL]) = [OPEN_TAG @ [NL]]" "slug_of (OPEN_TAG @ [NL]) = OPEN_TAG"
  "split_inclusive NL (CLOSE_TAG @ [NL]) = [CLOSE_TAG @ [NL]]" "slug_of (CLOSE_TAG @ [NL]) = CLOSE_TAG"
proof -
  have n: "NL \<notin> set OPEN_TAG" "NL \<notin> set CLOSE_TAG" by (simp_all add: OPEN_TAG_def CLOSE_TAG_def)
  show "split_inclusive NL (OPEN_TAG @ [NL]) = [OPEN_TAG @ [NL]]"
    "split_inclusive NL (CLOSE_TAG @ [NL]) = [CLOSE_TAG @ [NL]]"
    using n by (simp_all add: split_inclusive_line)
  have "trim OPEN_TAG = OPEN_TAG" "trim CLOSE_TAG = CLOSE_TAG"
    by (auto intro!: trim_ident simp: OPEN_TAG_def CLOSE_TAG_def is_whitespace_def)
  then show "slug_of (OPEN_TAG @ [NL]) = OPEN_TAG" "slug_of (CLOSE_TAG @ [NL]) = CLOSE_TAG"
    using n by (simp_all add: slug_of_line)
qed

lemma parse_plan_document:
  assumes "full_lines pre" and "full_lines body" and "no_line OPEN_TAG pre" and "no_line CLOSE_TAG body"
    and "no_line OPEN_TAG post"
  shows "parse_lines plan_specs (plan_document pre body post) =
    push_text None post (push_text (Some ProposedPlan) body (push_text None pre [] @ [Seg_TagStart ProposedPlan])
      @ [Seg_TagEnd ProposedPlan])"
proof -
  have "split_inclusive NL (plan_document pre body post) =
      split_inclusive NL pre @ [OPEN_TAG @ [NL]] @ split_inclusive NL body @ [CLOSE_TAG @ [NL]] @ split_inclusive NL post"
    using assms(1,2) unfolding plan_document_def full_lines_def
    by (simp add: split_inclusive_append [of pre] split_inclusive_append [of body]
        split_inclusive_append [of "OPEN_TAG @ [NL]", simplified] split_inclusive_append [of "CLOSE_TAG @ [NL]", simplified]
        tag_line)
  moreover have "foldl (line_step plan_specs) (None, segs) (split_inclusive NL t) = (None, push_text None t segs)"
    if "no_line OPEN_TAG t" for t segs
    using that by (subst foldl_text_lines) (auto simp: plan_match no_line_def)
  moreover have "foldl (line_step plan_specs) (Some ProposedPlan, segs) (split_inclusive NL body) =
      (Some ProposedPlan, push_text (Some ProposedPlan) body segs)" for segs
    using assms(4) by (subst foldl_text_lines) (auto simp: plan_match no_line_def)
  ultimately show ?thesis
    using assms by (simp add: parse_lines_def line_step_def [of _ _ "_ @ _"] tag_line plan_match)
qed

section \<open>Assistant text as a stream\<close>

lemma plan_push_append:
  "plan_push_str s (a @ b) =
    (let (x, s1) = plan_push_str s a; (y, s2) = plan_push_str s1 b
     in (\<lparr>visible_text = visible_text x @ visible_text y, extracted = join_plan (extracted x) (extracted y)\<rparr>, s2))"
  using tagged.push_str_append [of "plan_inner s" a b]
  by (simp add: plan_push_str_def map_segments_def normals_append join_plan_segments split: prod.splits)

lemma plan_push_Nil: "plan_push_str s [] = (chunk_default, s)"
  by (simp add: plan_push_str_def tagged_parse_def map_segments_def chunk_default_def)

definition assistant_inv :: "assistant_parser \<Rightarrow> bool" where
  "assistant_inv s \<longleftrightarrow> citation_inv (as_citations s)"

lemma join_plan_Nil [simp]: "join_plan [] [] = []"
  by (simp add: join_plan_def)

lemma parse_visible_append:
  "parse_visible_text s (a @ b) =
    (let (x, s1) = parse_visible_text s a; (y, s2) = parse_visible_text s1 b in (at_append x y, s2))"
proof (cases "plan_mode s")
  case True
  obtain x p where 1: "plan_push_str (as_plan s) a = (x, p)" by (cases "plan_push_str (as_plan s) a")
  obtain y q where 2: "plan_push_str p b = (y, q)" by (cases "plan_push_str p b")
  show ?thesis
    using True by (simp add: parse_visible_text_def plan_push_append 1 2 at_append_def at_default_def)
qed (simp add: parse_visible_text_def at_append_def at_default_def)

lemma parse_visible_citations: "fst (parse_visible_text s v) = x \<Longrightarrow> at_citations x = []"
  by (auto simp: parse_visible_text_def at_default_def split: prod.splits)

lemma parse_visible_upd:
  "parse_visible_text (s\<lparr>as_citations := c\<rparr>) v = apsnd (\<lambda>t. t\<lparr>as_citations := c\<rparr>) (parse_visible_text s v)"
  by (simp add: parse_visible_text_def split: prod.splits)

lemma parse_visible_cites_same: "parse_visible_text s v = (x, s1) \<Longrightarrow> as_citations s1 = as_citations s \<and> plan_mode s1 = plan_mode s"
  by (auto simp: parse_visible_text_def split: prod.splits if_splits)

interpretation assistant: text_stream assistant_inv assistant_push_str at_default at_append
proof
  fix s :: assistant_parser and a b :: rstr
  assume "assistant_inv s"
  then have c: "citation_inv (as_citations s)" by (simp add: assistant_inv_def)
  show "assistant_push_str s [] = (at_default, s)"
    by (simp add: assistant_push_str_def citations.push_str_Nil [OF c] parse_visible_text_def plan_push_Nil at_default_def)
  obtain x c1 where 1: "citation_push_str (as_citations s) a = (x, c1)" by (cases "citation_push_str (as_citations s) a")
  obtain y c2 where 2: "citation_push_str c1 b = (y, c2)" by (cases "citation_push_str c1 b")
  have 12: "citation_push_str (as_citations s) (a @ b) = (chunk_append x y, c2)"
    using citations.push_str_append [OF c, of a b] by (simp add: 1 2)
  obtain x' s1 where 3: "parse_visible_text s (visible_text x) = (x', s1)" by (cases "parse_visible_text s (visible_text x)")
  obtain y' s2 where 4: "parse_visible_text s1 (visible_text y) = (y', s2)" by (cases "parse_visible_text s1 (visible_text y)")
  show "assistant_inv (snd (assistant_push_str s a))"
    using citations.inv_push_str [OF c, of a] 1 3
    by (simp add: assistant_inv_def assistant_push_str_def parse_visible_upd)
  show "assistant_push_str s (a @ b) =
      (let (x, s1) = assistant_push_str s a; (y, s2) = assistant_push_str s1 b in (at_append x y, s2))"
    using 1 2 12 3 4
    by (simp add: assistant_push_str_def parse_visible_upd parse_visible_append at_append_def)
qed

lemma join_plan_append: "join_plan xs (ys @ zs) = join_plan (join_plan xs ys) zs"
  by (simp add: join_plan_def append_segments_def comp_def)

lemma chunk_empty_iff: "chunk_empty c \<longleftrightarrow> visible_text c = [] \<and> extracted c = []"
  by (simp add: chunk_empty_def)

text \<open>The flush, in plan mode and outside it, as one equation.\<close>

lemma assistant_finish_eq:
  assumes "citation_finish (as_citations s) = (y, c)" and "parse_visible_text s (visible_text y) = (y', s1)"
  shows "fst (assistant_finish s) =
    (if plan_mode s then
       (let tail = fst (plan_finish (as_plan s1))
        in \<lparr>at_visible_text = at_visible_text y' @ visible_text tail, at_citations = extracted y,
            at_plan_segments = at_plan_segments y' @ extracted tail\<rparr>)
     else y'\<lparr>at_citations := extracted y\<rparr>)"
proof -
  have m: "plan_mode s1 = plan_mode s" using assms(2) parse_visible_cites_same by blast
  obtain tail p where t: "plan_finish (as_plan s1) = (tail, p)" by (cases "plan_finish (as_plan s1)")
  show ?thesis
    using assms m t by (auto simp: assistant_finish_def parse_visible_upd chunk_empty_iff)
qed

lemma parse_visible_new:
  assumes "s = \<lparr>plan_mode = mode, as_citations = c, as_plan = plan_new\<rparr>"
    and "parse_visible_text s v = (x, s1)"
  shows "mode \<Longrightarrow> at_visible_text x @ visible_text (fst (plan_finish (as_plan s1))) =
      normals (parse_lines plan_specs v)"
    and "mode \<Longrightarrow> join_plan (at_plan_segments x) (extracted (fst (plan_finish (as_plan s1)))) =
      map plan_segment (parse_lines plan_specs v)"
    and "\<not> mode \<Longrightarrow> x = at_default\<lparr>at_visible_text := v\<rparr>"
proof -
  obtain out p where o: "plan_push_str plan_new v = (out, p)" by (cases "plan_push_str plan_new v")
  obtain xs ys where *: "out = map_segments xs" "fst (plan_finish p) = map_segments ys"
    "append_segments xs ys = parse_lines plan_specs v" using plan_push_finish [OF o] by blast
  have x: "mode \<Longrightarrow> x = at_default\<lparr>at_visible_text := visible_text out, at_plan_segments := extracted out\<rparr> \<and>
      as_plan s1 = p"
    using assms(2) o by (auto simp: parse_visible_text_def assms(1))
  show "mode \<Longrightarrow> at_visible_text x @ visible_text (fst (plan_finish (as_plan s1))) = normals (parse_lines plan_specs v)"
    using x * normals_append [of xs ys] by (simp add: map_segments_def)
  show "mode \<Longrightarrow> join_plan (at_plan_segments x) (extracted (fst (plan_finish (as_plan s1)))) =
      map plan_segment (parse_lines plan_specs v)"
    using x * by (simp add: map_segments_def join_plan_segments)
  show "\<not> mode \<Longrightarrow> x = at_default\<lparr>at_visible_text := v\<rparr>"
    using assms(2) by (simp add: parse_visible_text_def assms(1))
qed

lemma concat_normals: "concat (map normal_text (map plan_segment segs)) = normals segs"
  by (simp add: comp_def)

lemma assistant_push_finish:
  assumes "assistant_new mode = Some s" and "assistant_push_str s txt = (out, s1)"
  shows "at_append out (fst (assistant_finish s1)) = assistant_meaning mode txt"
proof -
  obtain c where c: "citation_new = Some c" "s = \<lparr>plan_mode = mode, as_citations = c, as_plan = plan_new\<rparr>"
    using assms(1) by (auto simp: assistant_new_def)
  obtain x c1 where 1: "citation_push_str c txt = (x, c1)" by (cases "citation_push_str c txt")
  obtain y c2 where 2: "citation_finish c1 = (y, c2)" by (cases "citation_finish c1")
  have ci: "citation_inner c = \<lparr>specs = citation_specs, pending = [], active = None\<rparr>"
    using citation_new_Some c(1) by (metis option.inject)
  obtain v cs where h: "hide_citations txt = (v, cs)" by (cases "hide_citations txt")
  have xy: "visible_text x @ visible_text y = v" "extracted x @ extracted y = cs"
    using citation_push_finish [OF ci 1 2] h by (auto simp: chunk_append_def)
  obtain x' t1 where 3: "parse_visible_text s (visible_text x) = (x', t1)" by (cases "parse_visible_text s (visible_text x)")
  obtain y' t2 where 4: "parse_visible_text t1 (visible_text y) = (y', t2)" by (cases "parse_visible_text t1 (visible_text y)")
  have out: "out = x'\<lparr>at_citations := extracted x\<rparr>" "s1 = t1\<lparr>as_citations := c1\<rparr>"
  proof -
    have "as_citations s = c" using c(2) by simp
    then show "out = x'\<lparr>at_citations := extracted x\<rparr>" "s1 = t1\<lparr>as_citations := c1\<rparr>"
      using assms(2) 1 3 by (auto simp: assistant_push_str_def parse_visible_upd)
  qed
  have f: "fst (assistant_finish s1) = (if plan_mode s1 then
       (let tail = fst (plan_finish (as_plan t2))
        in \<lparr>at_visible_text = at_visible_text y' @ visible_text tail, at_citations = extracted y,
            at_plan_segments = at_plan_segments y' @ extracted tail\<rparr>)
     else y'\<lparr>at_citations := extracted y\<rparr>)"
    using assistant_finish_eq [of s1 y c2 y' "t2\<lparr>as_citations := c1\<rparr>"] 2 4 out(2) by (simp add: parse_visible_upd)
  have m: "plan_mode s1 = mode" using out(2) parse_visible_cites_same [OF 3] c(2) by simp
  have "parse_visible_text s v = (at_append x' y', t2)"
    using parse_visible_append [of s "visible_text x" "visible_text y"] 3 4 xy(1) by simp
  note p = parse_visible_new [OF c(2) this]
  show ?thesis
  proof (cases mode)
    case True
    then show ?thesis
      using p(1,2) f m xy(2) by (simp add: assistant_meaning_def h out(1) at_append_def Let_def comp_def join_plan_append)
  next
    case False
    then have "at_append x' y' = at_default\<lparr>at_visible_text := v\<rparr>" by (rule p(3))
    then show ?thesis
      using False f m xy(2) by (simp add: assistant_meaning_def h out(1) at_append_def at_default_def)
  qed
qed

section \<open>Properties\<close>

text \<open>
  A document with one plan block, its tags on lines of their own, gives the
  body as the plan text and the rest as the visible text.
\<close>

theorem plan_document_round_trip:
  assumes "full_lines pre" and "full_lines body" and "no_line OPEN_TAG pre" and "no_line CLOSE_TAG body"
    and "no_line OPEN_TAG post"
  shows "extract_proposed_plan_text (plan_document pre body post) = Some body \<and>
         strip_proposed_plan_blocks (plan_document pre body post) = pre @ post"
  using parse_plan_document [OF assms]
  by (simp_all add: extract_plan_lines strip_plan_lines push_text_def plan_fold_push normals_push
      plan_text_step_append)

theorem plan_document_round_trip_witness:
  "extract_proposed_plan_text (plan_document (lit ''x'' @ [NL]) (lit ''p'' @ [NL]) (lit ''y'')) = Some (lit ''p'' @ [NL])"
  by (rule plan_document_round_trip [THEN conjunct1])
    (simp_all add: full_lines_def no_line_def slug_of_def strip_suffix_def trim_start_def trim_end_def
      is_whitespace_def OPEN_TAG_def CLOSE_TAG_def)

text \<open>
  C34 (refinement): the parser of assistant text, fed any chunks and flushed, reports in all the
  citations of the whole text, and the visible text without them and, in plan mode, without
  plan blocks, whose segments it lists in order.
\<close>

theorem assistant_stream_correct:
  assumes "assistant_new mode = Some s"
    and "stream_all assistant_push_str at_default at_append s chunks = (out, s1)"
  shows "at_append out (fst (assistant_finish s1)) = assistant_meaning mode (concat chunks)"
proof -
  obtain c where c: "citation_new = Some c" "citation_inv c" using citation_new_Some by blast
  have "assistant_inv s" using assms(1) c(2) unfolding assistant_new_def c(1) by (auto simp: assistant_inv_def)
  then have "assistant_push_str s (concat chunks) = (out, s1)"
    using assistant.stream_all_concat [of s chunks] assms(2) by simp
  then show ?thesis by (rule assistant_push_finish [OF assms(1)])
qed

theorem assistant_stream_correct_witness:
  "\<exists>s out s1. assistant_new True = Some s \<and>
     stream_all assistant_push_str at_default at_append s [lit ''a'', lit ''b''] = (out, s1) \<and>
     at_append out (fst (assistant_finish s1)) =
       \<lparr>at_visible_text = lit ''ab'', at_citations = [], at_plan_segments = [Plan_Normal (lit ''ab'')]\<rparr>"
proof -
  obtain s where s: "assistant_new True = Some s" using citation_new_Some by (auto simp: assistant_new_def)
  obtain out s1 where r: "stream_all assistant_push_str at_default at_append s [lit ''a'', lit ''b''] = (out, s1)"
    by (cases "stream_all assistant_push_str at_default at_append s [lit ''a'', lit ''b'']")
  have "find_str CITATION_OPEN (lit ''ab'') = None" by (simp add: CITATION_OPEN_def starts_with_def)
  then have "assistant_meaning True (concat [lit ''a'', lit ''b'']) =
      \<lparr>at_visible_text = lit ''ab'', at_citations = [], at_plan_segments = [Plan_Normal (lit ''ab'')]\<rparr>"
    by (simp add: assistant_meaning_def hide_citations.simps parse_lines_def line_step_def slug_of_def
        strip_suffix_def trim_start_def trim_end_def is_whitespace_def plan_match OPEN_TAG_def
        push_text_def push_segment.simps)
  then show ?thesis using assistant_stream_correct [OF s r] s r by metis
qed

end
