(* ===== verification/Utf8_Stream.thy ===== *)
theory Utf8_Stream
  imports Citations
begin

text \<open>
  \<^verbatim>\<open>codex-rs/utils/stream-parser/src/utf8_stream.rs\<close>: feeding a text parser with bytes, where a
  code point may be split between chunks. A byte is a number below 256.
  \<^verbatim>\<open>std::str::from_utf8\<close> is modelled with the two fields of its error, the length of the valid
  prefix and the length of the invalid sequence, which is absent when the input ends inside a
  code point. The inner parser is a pair of functions, its \<^verbatim>\<open>push_str\<close> and \<^verbatim>\<open>finish\<close>.
\<close>

section \<open>UTF-8\<close>

type_synonym byte = nat

definition is_cont :: "byte \<Rightarrow> bool" where
  "is_cont b \<longleftrightarrow> 0x80 \<le> b \<and> b \<le> 0xBF"

text \<open>Which second bytes may follow a first byte of a sequence of three or four.\<close>

definition second_ok :: "byte \<Rightarrow> byte \<Rightarrow> bool" where
  "second_ok b0 b1 \<longleftrightarrow>
     (b0 = 0xE0 \<and> 0xA0 \<le> b1 \<and> b1 \<le> 0xBF) \<or>
     (0xE1 \<le> b0 \<and> b0 \<le> 0xEC \<and> is_cont b1) \<or>
     (b0 = 0xED \<and> 0x80 \<le> b1 \<and> b1 \<le> 0x9F) \<or>
     (0xEE \<le> b0 \<and> b0 \<le> 0xEF \<and> is_cont b1) \<or>
     (b0 = 0xF0 \<and> 0x90 \<le> b1 \<and> b1 \<le> 0xBF) \<or>
     (0xF1 \<le> b0 \<and> b0 \<le> 0xF3 \<and> is_cont b1) \<or>
     (b0 = 0xF4 \<and> 0x80 \<le> b1 \<and> b1 \<le> 0x8F)"

text \<open>
  The first code point of a non-empty input with the number of its bytes, or the length of
  the invalid sequence, with \<open>None\<close> when the input is too short.
\<close>

fun decode_one :: "byte list \<Rightarrow> (uchar \<times> nat, nat option) result" where
  "decode_one [] = Inl None"
| "decode_one (b0 # bs) =
     (if b0 < 0x80 then Inr (b0, 1)
      else if 0xC2 \<le> b0 \<and> b0 \<le> 0xDF then
        (case bs of
           [] \<Rightarrow> Inl None
         | b1 # _ \<Rightarrow>
             if is_cont b1 then Inr ((b0 - 0xC0) * 64 + (b1 - 0x80), 2) else Inl (Some 1))
      else if 0xE0 \<le> b0 \<and> b0 \<le> 0xEF then
        (case bs of
           [] \<Rightarrow> Inl None
         | b1 # bs1 \<Rightarrow>
             if \<not> second_ok b0 b1 then Inl (Some 1)
             else (case bs1 of
                     [] \<Rightarrow> Inl None
                   | b2 # _ \<Rightarrow>
                       if is_cont b2
                       then Inr ((b0 - 0xE0) * 4096 + (b1 - 0x80) * 64 + (b2 - 0x80), 3)
                       else Inl (Some 2)))
      else if 0xF0 \<le> b0 \<and> b0 \<le> 0xF4 then
        (case bs of
           [] \<Rightarrow> Inl None
         | b1 # bs1 \<Rightarrow>
             if \<not> second_ok b0 b1 then Inl (Some 1)
             else (case bs1 of
                     [] \<Rightarrow> Inl None
                   | b2 # bs2 \<Rightarrow>
                       if \<not> is_cont b2 then Inl (Some 2)
                       else (case bs2 of
                               [] \<Rightarrow> Inl None
                             | b3 # _ \<Rightarrow>
                                 if is_cont b3
                                 then Inr ((b0 - 0xF0) * 262144 + (b1 - 0x80) * 4096 +
                                           (b2 - 0x80) * 64 + (b3 - 0x80), 4)
                                 else Inl (Some 3))))
      else Inl (Some 1))"

record utf8_error =
  utf8_valid_up_to :: nat
  utf8_error_len :: "nat option"

function from_utf8 :: "byte list \<Rightarrow> (rstr, utf8_error) result" where
  "from_utf8 bs =
     (if bs = [] then Inr []
      else (case decode_one bs of
              Inl el \<Rightarrow> Inl \<lparr>utf8_valid_up_to = 0, utf8_error_len = el\<rparr>
            | Inr (c, n) \<Rightarrow>
                (case from_utf8 (drop n bs) of
                   Inl e \<Rightarrow> Inl (e\<lparr>utf8_valid_up_to := n + utf8_valid_up_to e\<rparr>)
                 | Inr cs \<Rightarrow> Inr (c # cs))))"
  by pat_completeness auto

lemma decode_one_pos: "decode_one bs = Inr (c, n) \<Longrightarrow> 0 < n"
  by (cases bs) (auto split: if_splits list.splits)

termination from_utf8
  by (relation "measure length") (auto dest: decode_one_pos)

declare from_utf8.simps [simp del] decode_one.simps [simp del]

text \<open>Unicode scalar values and their encoding.\<close>

definition is_scalar :: "uchar \<Rightarrow> bool" where
  "is_scalar c \<longleftrightarrow> c < 0xD800 \<or> (0xDFFF < c \<and> c \<le> 0x10FFFF)"

definition utf8_encode :: "uchar \<Rightarrow> byte list" where
  "utf8_encode c =
     (if c < 0x80 then [c]
      else if c < 0x800 then [0xC0 + c div 64, 0x80 + c mod 64]
      else if c < 0x10000 then [0xE0 + c div 4096, 0x80 + c div 64 mod 64, 0x80 + c mod 64]
      else [0xF0 + c div 262144, 0x80 + c div 4096 mod 64, 0x80 + c div 64 mod 64, 0x80 + c mod 64])"

definition utf8_bytes :: "rstr \<Rightarrow> byte list" where
  "utf8_bytes t = concat (map utf8_encode t)"

section \<open>Model\<close>

datatype utf8_stream_error =
    InvalidUtf8 (err_valid_up_to: nat) (err_error_len: nat)
  | IncompleteUtf8AtEof

record 'p utf8_parser =
  utf8_inner :: 'p
  pending_utf8 :: "byte list"

definition utf8_new :: "'p \<Rightarrow> 'p utf8_parser" where
  "utf8_new inner = \<lparr>utf8_inner = inner, pending_utf8 = []\<rparr>"

definition unwrap_or_0 :: "nat option \<Rightarrow> nat" where
  "unwrap_or_0 n = (case n of Some k \<Rightarrow> k | None \<Rightarrow> 0)"

definition push_inner ::
  "('p \<Rightarrow> rstr \<Rightarrow> 'e stream_chunk \<times> 'p) \<Rightarrow> 'p utf8_parser \<Rightarrow> rstr \<Rightarrow> byte list \<Rightarrow>
   ('e stream_chunk, utf8_stream_error) result \<times> 'p utf8_parser" where
  "push_inner push s t rest =
     (case push (utf8_inner s) t of (out, p) \<Rightarrow> (Inr out, \<lparr>utf8_inner = p, pending_utf8 = rest\<rparr>))"

definition push_bytes ::
  "('p \<Rightarrow> rstr \<Rightarrow> 'e stream_chunk \<times> 'p) \<Rightarrow> 'p utf8_parser \<Rightarrow> byte list \<Rightarrow>
   ('e stream_chunk, utf8_stream_error) result \<times> 'p utf8_parser" where
  "push_bytes push s chunk =
     (let old_len = length (pending_utf8 s);
          bytes = pending_utf8 s @ chunk;
          truncated = s\<lparr>pending_utf8 := take old_len bytes\<rparr>
      in case from_utf8 bytes of
           Inr t \<Rightarrow> push_inner push s t []
         | Inl err \<Rightarrow>
             (case utf8_error_len err of
                Some error_len \<Rightarrow> (Inl (InvalidUtf8 (utf8_valid_up_to err) error_len), truncated)
              | None \<Rightarrow>
                  if utf8_valid_up_to err = 0 then (Inr chunk_default, s\<lparr>pending_utf8 := bytes\<rparr>)
                  else (case from_utf8 (take (utf8_valid_up_to err) bytes) of
                          Inr t \<Rightarrow> push_inner push s t (drop (utf8_valid_up_to err) bytes)
                        | Inl prefix_err \<Rightarrow>
                            (Inl (InvalidUtf8 (utf8_valid_up_to prefix_err)
                               (unwrap_or_0 (utf8_error_len prefix_err))), truncated))))"

text \<open>The check both \<^verbatim>\<open>finish\<close> and \<^verbatim>\<open>into_inner\<close> make of the bytes that are left.\<close>

definition pending_error :: "byte list \<Rightarrow> utf8_stream_error option" where
  "pending_error bytes =
     (case from_utf8 bytes of
        Inr _ \<Rightarrow> None
      | Inl err \<Rightarrow>
          (case utf8_error_len err of
             Some error_len \<Rightarrow> Some (InvalidUtf8 (utf8_valid_up_to err) error_len)
           | None \<Rightarrow> Some IncompleteUtf8AtEof))"

definition utf8_finish ::
  "('p \<Rightarrow> rstr \<Rightarrow> 'e stream_chunk \<times> 'p) \<Rightarrow> ('p \<Rightarrow> 'e stream_chunk \<times> 'p) \<Rightarrow> 'p utf8_parser \<Rightarrow>
   ('e stream_chunk, utf8_stream_error) result \<times> 'p utf8_parser" where
  "utf8_finish push fin s =
     (case (if pending_utf8 s \<noteq> [] then pending_error (pending_utf8 s) else None) of
        Some e \<Rightarrow> (Inl e, s)
      | None \<Rightarrow>
          (case (if pending_utf8 s = [] then (Inr chunk_default, s)
                 else (case from_utf8 (pending_utf8 s) of
                         Inr t \<Rightarrow> push_inner push s t []
                       | Inl err \<Rightarrow>
                           (Inl (InvalidUtf8 (utf8_valid_up_to err) (unwrap_or_0 (utf8_error_len err))), s))) of
             (Inl e, s1) \<Rightarrow> (Inl e, s1)
           | (Inr out, s1) \<Rightarrow>
               (case fin (utf8_inner s1) of
                  (tail, p) \<Rightarrow> (Inr (chunk_append out tail), s1\<lparr>utf8_inner := p\<rparr>))))"

definition into_inner :: "'p utf8_parser \<Rightarrow> ('p, utf8_stream_error) result" where
  "into_inner s =
     (if pending_utf8 s = [] then Inr (utf8_inner s)
      else (case pending_error (pending_utf8 s) of
              None \<Rightarrow> Inr (utf8_inner s) | Some e \<Rightarrow> Inl e))"

definition into_inner_lossy :: "'p utf8_parser \<Rightarrow> 'p" where
  "into_inner_lossy s = utf8_inner s"

section \<open>Decoding what was encoded\<close>

lemma split64: "(c::nat) = c div 64 * 64 + c mod 64" "c div 64 = c div 4096 * 64 + c div 64 mod 64"
  "c div 4096 = c div 262144 * 64 + c div 4096 mod 64"
proof -
  have "c div 4096 = c div 64 div 64" "c div 262144 = c div 4096 div 64" by (simp_all add: div_mult2_eq [symmetric])
  then show "c div 64 = c div 4096 * 64 + c div 64 mod 64" "c div 4096 = c div 262144 * 64 + c div 4096 mod 64"
    by simp_all
qed simp

lemma decode_encode:
  assumes "is_scalar c"
  shows "decode_one (utf8_encode c @ bs) = Inr (c, length (utf8_encode c))"
proof -
  define x y z w where "x = c mod 64" and "y = c div 64 mod 64" and "z = c div 4096 mod 64" and "w = c div 262144"
  have b: "x < 64" "y < 64" "z < 64" by (simp_all add: x_def y_def z_def)
  have c: "c = ((w * 64 + z) * 64 + y) * 64 + x"
    using split64 [of c] unfolding x_def y_def z_def w_def by presburger
  consider "c < 0x80" | "0x80 \<le> c" "c < 0x800" | "0x800 \<le> c" "c < 0x10000" | "0x10000 \<le> c" by linarith
  then show ?thesis
  proof cases
    case 2
    have "w = 0" "z = 0" using 2 by (simp_all add: w_def z_def)
    then have "c = y * 64 + x" using c by simp
    then have yx: "c = y * 64 + x" "2 \<le> y" "y < 32" using 2 b by linarith+
    then have "c div 64 = y" using b by simp
    then have "utf8_encode c = [0xC0 + y, 0x80 + x]" using 2 by (simp add: utf8_encode_def x_def)
    moreover note yx
    ultimately show ?thesis using b by (simp add: decode_one.simps is_cont_def)
  next
    case 3
    have "w = 0" using 3 by (simp add: w_def)
    then have "c div 4096 = z" using split64(3) [of c] by (simp add: z_def w_def)
    then have "utf8_encode c = [0xE0 + z, 0x80 + y, 0x80 + x]" using 3 by (simp add: utf8_encode_def x_def y_def)
    moreover have zyx: "c = z * 4096 + y * 64 + x" using c \<open>w = 0\<close> by simp
    moreover have "z < 16" "z = 0 \<Longrightarrow> 32 \<le> y" using 3 b zyx by linarith+
    moreover have "z = 13 \<Longrightarrow> y < 32" using assms zyx b 3 by (simp add: is_scalar_def)
    ultimately show ?thesis using b by (auto simp: decode_one.simps is_cont_def second_ok_def)
  next
    case 4
    have "c \<le> 0x10FFFF" using assms 4 by (auto simp: is_scalar_def)
    have wz: "c = w * 262144 + z * 4096 + y * 64 + x" using c by simp
    have w: "w = 4 \<Longrightarrow> z < 16" "w = 0 \<Longrightarrow> 16 \<le> z" using 4 b wz \<open>c \<le> 0x10FFFF\<close> by linarith+
    have "w \<le> 4" using wz \<open>c \<le> 0x10FFFF\<close> by linarith
    have "utf8_encode c = [0xF0 + w, 0x80 + z, 0x80 + y, 0x80 + x]"
      using 4 by (simp add: utf8_encode_def x_def y_def z_def w_def)
    moreover have "second_ok (0xF0 + w) (0x80 + z)"
      using b w \<open>w \<le> 4\<close> unfolding second_ok_def is_cont_def by (cases "w = 0"; cases "w = 4") auto
    ultimately show ?thesis using b wz \<open>w \<le> 4\<close> by (auto simp: decode_one.simps is_cont_def)
  qed (simp add: utf8_encode_def decode_one.simps)
qed

lemma utf8_encode_ne [simp]: "utf8_encode c \<noteq> []"
  by (simp add: utf8_encode_def)

text \<open>The bytes of a code point that is cut short are an incomplete sequence, never an invalid one.\<close>

lemma decode_incomplete:
  assumes "is_scalar c" and "strict_prefix p (utf8_encode c)"
  shows "decode_one p = Inl None"
proof -
  obtain q where q: "utf8_encode c = p @ q" "q \<noteq> []" using assms(2) by (auto simp: strict_prefix_def prefix_def)
  have d: "decode_one (p @ q) = Inr (c, length p + length q)"
    using decode_encode [OF assms(1), of "[]"] q(1) by simp
  have "length (p @ q) \<le> 4" unfolding q(1) [symmetric] by (simp add: utf8_encode_def)
  show ?thesis
  proof (cases p)
    case (Cons b0 p1)
    with d q(2) show ?thesis
      by (auto simp: decode_one.simps neq_Nil_conv split: if_splits list.splits)
  qed (simp add: decode_one.simps)
qed

lemma from_utf8_Nil [simp]: "from_utf8 [] = Inr []"
  by (simp add: from_utf8.simps)

lemma from_utf8_encode:
  assumes "is_scalar c"
  shows "from_utf8 (utf8_encode c @ bs) =
    (case from_utf8 bs of
       Inl e \<Rightarrow> Inl (e\<lparr>utf8_valid_up_to := length (utf8_encode c) + utf8_valid_up_to e\<rparr>)
     | Inr cs \<Rightarrow> Inr (c # cs))"
  by (subst from_utf8.simps) (simp add: decode_encode [OF assms])

lemma from_utf8_bytes:
  assumes "\<forall>c\<in>set t. is_scalar c"
  shows "from_utf8 (utf8_bytes t @ bs) =
    (case from_utf8 bs of
       Inl e \<Rightarrow> Inl (e\<lparr>utf8_valid_up_to := length (utf8_bytes t) + utf8_valid_up_to e\<rparr>)
     | Inr cs \<Rightarrow> Inr (t @ cs))"
  using assms
proof (induction t)
  case Nil
  then show ?case by (simp add: utf8_bytes_def split: sum.splits)
next
  case (Cons c t)
  then have "from_utf8 (utf8_bytes (c # t) @ bs) = from_utf8 (utf8_encode c @ utf8_bytes t @ bs)"
    by (simp add: utf8_bytes_def)
  also have "\<dots> = (case from_utf8 (utf8_bytes t @ bs) of
       Inl e \<Rightarrow> Inl (e\<lparr>utf8_valid_up_to := length (utf8_encode c) + utf8_valid_up_to e\<rparr>)
     | Inr cs \<Rightarrow> Inr (c # cs))" using Cons.prems by (intro from_utf8_encode) simp
  finally show ?case
    using Cons by (simp add: utf8_bytes_def add.assoc split: sum.splits)
qed

text \<open>A prefix of the bytes of a text is the bytes of a prefix and the start of one more code point.\<close>

lemma utf8_prefix_split:
  assumes "prefix bs (utf8_bytes t)"
  obtains t1 t2 part where "t = t1 @ t2" and "bs = utf8_bytes t1 @ part"
    and "part = [] \<or> (\<exists>c t3. t2 = c # t3 \<and> strict_prefix part (utf8_encode c))"
  using assms
proof (induction t arbitrary: bs thesis)
  case Nil
  then show ?case by (simp add: utf8_bytes_def)
next
  case (Cons c t)
  have "prefix bs (utf8_encode c @ utf8_bytes t)" using Cons.prems(2) by (simp add: utf8_bytes_def)
  then consider "strict_prefix bs (utf8_encode c)" | r where "bs = utf8_encode c @ r" "prefix r (utf8_bytes t)"
    unfolding prefix_append strict_prefix_def by (metis append_Nil2 Nil_prefix)
  then show ?case
  proof cases
    case 1
    then show ?thesis using Cons.prems(1) [of "[]" "c # t" bs] by (simp add: utf8_bytes_def)
  next
    case (2 r)
    obtain t1 t2 part where "t = t1 @ t2" "r = utf8_bytes t1 @ part"
      "part = [] \<or> (\<exists>c t3. t2 = c # t3 \<and> strict_prefix part (utf8_encode c))"
      using Cons.IH 2(2) by blast
    then show ?thesis using Cons.prems(1) [of "c # t1" t2 part] 2(1) by (simp add: utf8_bytes_def)
  qed
qed

section \<open>Bytes of a text\<close>

text \<open>What one push of bytes does when they continue the bytes of a text.\<close>

lemma push_bytes_text:
  assumes "\<forall>c\<in>set (t1 @ t2). is_scalar c" and "pending_utf8 s @ chunk = utf8_bytes t1 @ part"
    and "part = [] \<or> (\<exists>c t3. t2 = c # t3 \<and> strict_prefix part (utf8_encode c))"
    and "push (utf8_inner s) [] = (chunk_default, utf8_inner s)"
  shows "push_bytes push s chunk = push_inner push s t1 part"
proof (cases "part = []")
  case True
  then have "from_utf8 (pending_utf8 s @ chunk) = Inr t1"
    using assms(1,2) from_utf8_bytes [of t1 "[]"] by simp
  then show ?thesis using True by (simp add: push_bytes_def)
next
  case False
  then obtain c t3 where c: "t2 = c # t3" "strict_prefix part (utf8_encode c)" using assms(3) by blast
  then have "decode_one part = Inl None" using assms(1) by (intro decode_incomplete) simp_all
  then have "from_utf8 part = Inl \<lparr>utf8_valid_up_to = 0, utf8_error_len = None\<rparr>"
    using False by (simp add: from_utf8.simps [of part])
  then have e: "from_utf8 (pending_utf8 s @ chunk) =
      Inl \<lparr>utf8_valid_up_to = length (utf8_bytes t1), utf8_error_len = None\<rparr>"
    using assms(1,2) from_utf8_bytes [of t1 part] by simp
  show ?thesis
  proof (cases "t1 = []")
    case True
    then show ?thesis
      using e assms(2,4) by (simp add: push_bytes_def push_inner_def utf8_bytes_def)
  next
    case ne: False
    have "utf8_bytes t1 \<noteq> []" using ne by (cases t1) (simp_all add: utf8_bytes_def)
    moreover have "from_utf8 (utf8_bytes t1) = Inr t1" using assms(1) from_utf8_bytes [of t1 "[]"] by simp
    ultimately show ?thesis using e assms(2) by (simp add: push_bytes_def)
  qed
qed

text \<open>A parser whose outputs are chunks of text, joined by appending.\<close>

locale chunk_stream = text_stream inv push_str chunk_default chunk_append
  for inv :: "'s \<Rightarrow> bool" and push_str :: "'s \<Rightarrow> rstr \<Rightarrow> 'e stream_chunk \<times> 's"
begin

lemma push_bytes_stream:
  assumes "inv (utf8_inner s)" and "\<forall>c\<in>set t. is_scalar c"
    and "pending_utf8 s @ concat chunks = utf8_bytes t"
    and "pending_utf8 s = [] \<or> (\<exists>c t3. t = c # t3 \<and> strict_prefix (pending_utf8 s) (utf8_encode c))"
    and "push_str (utf8_inner s) t = (out, p)"
  shows "push_seq (push_bytes push_str) chunk_default chunk_append s chunks =
    (Inr out, \<lparr>utf8_inner = p, pending_utf8 = []\<rparr>)"
  using assms
proof (induction chunks arbitrary: s t out)
  case Nil
  have "t = []"
  proof (cases t)
    case (Cons c t3)
    then show ?thesis
      using Nil.prems(3,4) by (auto simp: utf8_bytes_def strict_prefix_def dest: prefix_length_le)
  qed
  then show ?case
    using Nil.prems push_str_Nil [OF Nil.prems(1)] by (cases s) (auto simp: utf8_bytes_def)
next
  case (Cons b chunks)
  have "prefix (pending_utf8 s @ b) (utf8_bytes t)"
    using Cons.prems(3) by (metis append.assoc concat.simps(2) prefixI)
  then obtain t1 t2 part where t: "t = t1 @ t2" and b: "pending_utf8 s @ b = utf8_bytes t1 @ part"
    and part: "part = [] \<or> (\<exists>c t3. t2 = c # t3 \<and> strict_prefix part (utf8_encode c))"
    by (rule utf8_prefix_split)
  obtain out1 p1 where 1: "push_str (utf8_inner s) t1 = (out1, p1)" by (cases "push_str (utf8_inner s) t1")
  obtain out2 p2 where 2: "push_str p1 t2 = (out2, p2)" by (cases "push_str p1 t2")
  have o: "out = chunk_append out1 out2" "p = p2"
    using push_str_append [OF Cons.prems(1), of t1 t2] Cons.prems(5) by (simp_all add: t 1 2)
  have inv1: "inv p1" using inv_push_str [OF Cons.prems(1), of t1] 1 by simp
  have step: "push_bytes push_str s b = (Inr out1, \<lparr>utf8_inner = p1, pending_utf8 = part\<rparr>)"
    using push_bytes_text [where push = push_str, OF _ b part push_str_Nil [OF Cons.prems(1)]] Cons.prems(2) t 1
    by (simp add: push_inner_def)
  have rest: "part @ concat chunks = utf8_bytes t2"
  proof -
    have "(pending_utf8 s @ b) @ concat chunks = utf8_bytes t1 @ utf8_bytes t2"
      using Cons.prems(3) by (simp add: t utf8_bytes_def)
    then show ?thesis by (simp add: b)
  qed
  have "push_seq (push_bytes push_str) chunk_default chunk_append
      \<lparr>utf8_inner = p1, pending_utf8 = part\<rparr> chunks = (Inr out2, \<lparr>utf8_inner = p, pending_utf8 = []\<rparr>)"
    using inv1 Cons.prems(2) t rest part 2 o(2) by (intro Cons.IH) simp_all
  then show ?case using step o(1) by simp
qed

text \<open>The bytes of a text, in any chunks, give what the text gives.\<close>

lemma push_bytes_whole:
  assumes "inv p0" and "\<forall>c\<in>set t. is_scalar c" and "concat chunks = utf8_bytes t"
    and "push_str p0 t = (out, p)"
  shows "push_seq (push_bytes push_str) chunk_default chunk_append (utf8_new p0) chunks =
    (Inr out, utf8_new p)"
  using assms push_bytes_stream [of "utf8_new p0" t chunks out p] by (simp add: utf8_new_def)

end

interpretation inline_bytes: chunk_stream settled inline_push_str
  by unfold_locales

interpretation citation_bytes: chunk_stream citation_inv citation_push_str
  by unfold_locales

section \<open>Properties\<close>

text \<open>
  A push that fails leaves the parser, with its inner parser and its buffered
  bytes, exactly as it was, and reports an invalid sequence, whatever the inner parser is.
\<close>

theorem push_bytes_error_rolls_back:
  assumes "push_bytes push s chunk = (Inl e, s')"
  shows "s' = s \<and> (\<exists>v n. e = InvalidUtf8 v n)"
  using assms
  by (auto simp: push_bytes_def push_inner_def Let_def split: sum.splits option.splits if_splits prod.splits)

theorem push_bytes_error_rolls_back_witness:
  "push_bytes citation_push_str (utf8_new \<lparr>citation_inner = \<lparr>specs = citation_specs, pending = [], active = None\<rparr>\<rparr>)
     [97, 0xFF] =
   (Inl (InvalidUtf8 1 1),
    utf8_new \<lparr>citation_inner = \<lparr>specs = citation_specs, pending = [], active = None\<rparr>\<rparr>)"
proof -
  let ?s = "utf8_new \<lparr>citation_inner = \<lparr>specs = citation_specs, pending = [], active = None\<rparr>\<rparr>"
  have "fst (push_bytes citation_push_str ?s [97, 0xFF]) = Inl (InvalidUtf8 1 1)"
    by (simp add: push_bytes_def utf8_new_def from_utf8.simps decode_one.simps)
  then obtain s' where "push_bytes citation_push_str ?s [97, 0xFF] = (Inl (InvalidUtf8 1 1), s')"
    by (cases "push_bytes citation_push_str ?s [97, 0xFF]") auto
  then show ?thesis using push_bytes_error_rolls_back by metis
qed

text \<open>
  C36 (refinement): the UTF-8 bytes of a text, fed to a citation parser in chunks of any sizes,
  also ones that split a code point, are all accepted, nothing is left undecoded, and the
  output with the final flush is the visible text and the citations of the whole text.
\<close>

theorem citation_bytes_correct:
  assumes "citation_new = Some c" and "\<forall>x\<in>set t. is_scalar x" and "concat chunks = utf8_bytes t"
  shows "\<exists>out s tail s'.
    push_seq (push_bytes citation_push_str) chunk_default chunk_append (utf8_new c) chunks = (Inr out, s) \<and>
    utf8_finish citation_push_str citation_finish s = (Inr tail, s') \<and>
    into_inner s' = Inr (into_inner_lossy s') \<and>
    (visible_text (chunk_append out tail), extracted (chunk_append out tail)) = hide_citations t"
proof -
  have c: "citation_inv c" "citation_inner c = \<lparr>specs = citation_specs, pending = [], active = None\<rparr>"
    using citation_new_Some assms(1) by (metis option.inject)+
  obtain out p where 1: "citation_push_str c t = (out, p)" by (cases "citation_push_str c t")
  obtain tail q where 2: "citation_finish p = (tail, q)" by (cases "citation_finish p")
  have "push_seq (push_bytes citation_push_str) chunk_default chunk_append (utf8_new c) chunks =
      (Inr out, utf8_new p)"
    by (rule citation_bytes.push_bytes_whole [OF c(1) assms(2,3) 1])
  moreover have "utf8_finish citation_push_str citation_finish (utf8_new p) = (Inr tail, utf8_new q)"
    using 2 by (simp add: utf8_finish_def utf8_new_def)
  moreover have "into_inner (utf8_new q) = Inr (into_inner_lossy (utf8_new q))"
    by (simp add: into_inner_def into_inner_lossy_def utf8_new_def)
  moreover have "(visible_text (chunk_append out tail), extracted (chunk_append out tail)) = hide_citations t"
    using citation_push_finish [OF c(2) 1 2] by (cases "hide_citations t") simp
  ultimately show ?thesis by blast
qed

theorem citation_bytes_correct_witness:
  "\<exists>c out s. citation_new = Some c \<and>
     push_seq (push_bytes citation_push_str) chunk_default chunk_append (utf8_new c) [[0xC3], [0xA9]] = (Inr out, s)"
proof -
  obtain c where c: "citation_new = Some c" using citation_new_Some by blast
  have "concat [[0xC3], [0xA9]] = utf8_bytes [0xE9]" by (simp add: utf8_bytes_def utf8_encode_def)
  then show ?thesis
    using citation_bytes_correct [OF c, of "[0xE9]" "[[0xC3], [0xA9]]"] c by (auto simp: is_scalar_def)
qed

end
