(* ===== verification/Exec_Rules.thy ===== *)
theory Exec_Rules
  imports Paths
begin

text \<open>
  \<^verbatim>\<open>codex-rs/execpolicy/src/decision.rs\<close>, \<^verbatim>\<open>rule.rs\<close>, \<^verbatim>\<open>error.rs\<close> and \<^verbatim>\<open>executable_name.rs\<close> (Unix
  build): decisions, the prefix patterns of commands, and hosts of network rules.
\<close>

section \<open>Decisions\<close>

datatype decision = Allow | Prompt | Forbidden

text \<open>The derived order of the source: the order of the constructors, strictest last.\<close>

fun strictness :: "decision \<Rightarrow> nat" where
  "strictness Allow = 0" | "strictness Prompt = 1" | "strictness Forbidden = 2"

lemma strictness_inj: "strictness a = strictness b \<Longrightarrow> a = b"
  by (cases a; cases b) simp_all

instantiation decision :: linorder
begin

definition less_eq_decision :: "decision \<Rightarrow> decision \<Rightarrow> bool" where
  "less_eq_decision a b \<longleftrightarrow> strictness a \<le> strictness b"

definition less_decision :: "decision \<Rightarrow> decision \<Rightarrow> bool" where
  "less_decision a b \<longleftrightarrow> strictness a < strictness b"

instance
  by standard (auto simp: less_eq_decision_def less_decision_def intro: strictness_inj)

end

section \<open>Errors\<close>

record text_position = tp_line :: nat  tp_column :: nat
record text_range = tr_start :: text_position  tr_end :: text_position
record error_location = el_path :: rstr  el_range :: text_range

text \<open>The error of the Starlark interpreter is its message.\<close>

datatype policy_error =
    InvalidDecision rstr
  | InvalidPattern rstr
  | InvalidExample rstr
  | InvalidRule rstr
  | ExampleDidNotMatch (ednm_rules: "rstr list") (ednm_examples: "rstr list") (ednm_location: "error_location option")
  | ExampleDidMatch (edm_rule: rstr) (edm_example: rstr) (edm_location: "error_location option")
  | Starlark rstr

fun with_location :: "policy_error \<Rightarrow> error_location \<Rightarrow> policy_error" where
  "with_location (ExampleDidNotMatch rules examples None) l = ExampleDidNotMatch rules examples (Some l)"
| "with_location (ExampleDidMatch rule example None) l = ExampleDidMatch rule example (Some l)"
| "with_location other l = other"

definition parse_decision :: "rstr \<Rightarrow> (decision, policy_error) result" where
  "parse_decision raw =
     (if raw = lit ''allow'' then Inr Allow
      else if raw = lit ''prompt'' then Inr Prompt
      else if raw = lit ''forbidden'' then Inr Forbidden
      else Inl (InvalidDecision raw))"

section \<open>Patterns\<close>

datatype pattern_token = Single rstr | Alts "rstr list"

fun token_matches :: "pattern_token \<Rightarrow> rstr \<Rightarrow> bool" where
  "token_matches (Single expected) token \<longleftrightarrow> expected = token"
| "token_matches (Alts alternatives) token \<longleftrightarrow> list_ex (\<lambda>alt. alt = token) alternatives"

fun token_alternatives :: "pattern_token \<Rightarrow> rstr list" where
  "token_alternatives (Single expected) = [expected]"
| "token_alternatives (Alts alternatives) = alternatives"

record prefix_pattern =
  pat_first :: rstr
  pat_rest :: "pattern_token list"

definition matches_prefix :: "prefix_pattern \<Rightarrow> rstr list \<Rightarrow> rstr list option" where
  "matches_prefix pat cmd =
     (let pattern_length = length (pat_rest pat) + 1
      in if length cmd < pattern_length \<or> hd cmd \<noteq> pat_first pat then None
         else if list_all (\<lambda>(t, c). token_matches t c)
                   (zip (pat_rest pat) (drop 1 (take pattern_length cmd)))
         then Some (take pattern_length cmd) else None)"

datatype rule_match =
    PrefixRuleMatch (matched_prefix: "rstr list") (pm_decision: decision)
      (resolved_program: "path option") (pm_justification: "rstr option")
  | HeuristicsRuleMatch (hm_command: "rstr list") (hm_decision: decision)

fun match_decision :: "rule_match \<Rightarrow> decision" where
  "match_decision (PrefixRuleMatch _ d _ _) = d"
| "match_decision (HeuristicsRuleMatch _ d) = d"

fun with_resolved_program :: "rule_match \<Rightarrow> path \<Rightarrow> rule_match" where
  "with_resolved_program (PrefixRuleMatch p d _ j) program = PrefixRuleMatch p d (Some program) j"
| "with_resolved_program other program = other"

record prefix_rule =
  rule_pattern :: prefix_pattern
  rule_decision :: decision
  rule_justification :: "rstr option"

definition rule_program :: "prefix_rule \<Rightarrow> rstr" where
  "rule_program r = pat_first (rule_pattern r)"

definition rule_matches :: "prefix_rule \<Rightarrow> rstr list \<Rightarrow> rule_match option" where
  "rule_matches r cmd =
     map_option (\<lambda>p. PrefixRuleMatch p (rule_decision r) None (rule_justification r))
       (matches_prefix (rule_pattern r) cmd)"

section \<open>Network rules\<close>

datatype network_rule_protocol = Http | Https | Socks5Tcp | Socks5Udp

definition parse_protocol :: "rstr \<Rightarrow> (network_rule_protocol, policy_error) result" where
  "parse_protocol raw =
     (if raw = lit ''http'' then Inr Http
      else if raw \<in> {lit ''https'', lit ''https_connect'', lit ''http-connect''} then Inr Https
      else if raw = lit ''socks5_tcp'' then Inr Socks5Tcp
      else if raw = lit ''socks5_udp'' then Inr Socks5Udp
      else Inl (InvalidRule
        (lit ''network_rule protocol must be one of http, https, socks5_tcp, socks5_udp (got '' @ raw @ lit '')'')))"

fun as_policy_string :: "network_rule_protocol \<Rightarrow> rstr" where
  "as_policy_string Http = lit ''http''"
| "as_policy_string Https = lit ''https''"
| "as_policy_string Socks5Tcp = lit ''socks5_tcp''"
| "as_policy_string Socks5Udp = lit ''socks5_udp''"

record network_rule =
  net_host :: rstr
  net_protocol :: network_rule_protocol
  net_decision :: decision
  net_justification :: "rstr option"

definition all_digits :: "rstr \<Rightarrow> bool" where
  "all_digits port \<longleftrightarrow> port \<noteq> [] \<and> list_all is_ascii_digit port"

text \<open>The host without brackets and without a port.\<close>

definition strip_port :: "rstr \<Rightarrow> rstr \<Rightarrow> (rstr, policy_error) result" where
  "strip_port raw host =
     (case strip_prefix (lit ''['') host of
        Some stripped \<Rightarrow>
          (case split_once 93 stripped of
             None \<Rightarrow> Inl (InvalidRule (lit ''network_rule host has an invalid bracketed IPv6 literal''))
           | Some (inside, rest) \<Rightarrow>
               (let port_ok = (case strip_prefix (lit '':'') rest of Some port \<Rightarrow> all_digits port | None \<Rightarrow> False)
                in if rest \<noteq> [] \<and> \<not> port_ok
                   then Inl (InvalidRule (lit ''network_rule host contains an unsupported suffix: '' @ raw))
                   else Inr inside))
      | None \<Rightarrow>
          (if length (filter (\<lambda>c. c = 58) host) = 1 then
             (case rsplit_once 58 host of
                Some (candidate, port) \<Rightarrow> if candidate \<noteq> [] \<and> all_digits port then Inr candidate else Inr host
              | None \<Rightarrow> Inr host)
           else Inr host))"

definition normalize_network_rule_host :: "rstr \<Rightarrow> (rstr, policy_error) result" where
  "normalize_network_rule_host raw =
     (let host = trim raw
      in if host = [] then Inl (InvalidRule (lit ''network_rule host cannot be empty''))
         else if contains_str host (lit ''://'') \<or> 47 \<in> set host \<or> 63 \<in> set host \<or> 35 \<in> set host
         then Inl (InvalidRule (lit ''network_rule host must be a hostname or IP literal (without scheme or path)''))
         else (case strip_port raw host of
                 Inl e \<Rightarrow> Inl e
               | Inr host1 \<Rightarrow>
                   (let normalized = to_ascii_lowercase (trim (trim_end_matches 46 host1))
                    in if normalized = [] then Inl (InvalidRule (lit ''network_rule host cannot be empty''))
                       else if 42 \<in> set normalized then
                         Inl (InvalidRule (lit ''network_rule host must be a specific host; wildcards are not allowed''))
                       else if list_ex is_whitespace normalized then
                         Inl (InvalidRule (lit ''network_rule host cannot contain whitespace''))
                       else Inr normalized)))"

section \<open>Names of executables\<close>

definition executable_lookup_key :: "rstr \<Rightarrow> rstr" where
  "executable_lookup_key raw = raw"

text \<open>\<^verbatim>\<open>Path::file_name\<close>: the last component, if it is a name.\<close>

definition path_file_name :: "path \<Rightarrow> rstr option" where
  "path_file_name p =
     (let cs = components p in
      if cs = [] then None else (case last cs of Normal q \<Rightarrow> Some q | _ \<Rightarrow> None))"

definition executable_path_lookup_key :: "path \<Rightarrow> rstr option" where
  "executable_path_lookup_key p = map_option executable_lookup_key (path_file_name p)"

end
