(* ===== verification/Exec_Policy.thy ===== *)
theory Exec_Policy
  imports Exec_Rules "HOL-Library.List_Lexorder"
begin

text \<open>
  \<^verbatim>\<open>codex-rs/execpolicy/src/policy.rs\<close>: the rules of a policy, which of them match a command,
  and the decision. The container of the rules is \<^verbatim>\<open>MultiMap\<close> of the crate \<^verbatim>\<open>multimap\<close>: its
  operations are a record of functions, its laws the locale \<open>multimap\<close>. Every rule in the
  repository is a \<^verbatim>\<open>PrefixRule\<close>, so the trait object is that record. The hash map of host
  executables is a map; equality of paths compares components.
\<close>

section \<open>The container of the rules\<close>

record 'm multimap_ops =
  mm_new :: 'm
  mm_get_vec :: "'m \<Rightarrow> rstr \<Rightarrow> prefix_rule list option"
  mm_insert :: "'m \<Rightarrow> rstr \<Rightarrow> prefix_rule \<Rightarrow> 'm"
  mm_iter_all :: "'m \<Rightarrow> (rstr \<times> prefix_rule list) list"

definition mm_rules :: "'m multimap_ops \<Rightarrow> 'm \<Rightarrow> rstr \<Rightarrow> prefix_rule list" where
  "mm_rules mm m k = (case mm_get_vec mm m k of Some vs \<Rightarrow> vs | None \<Rightarrow> [])"

locale multimap =
  fixes mm :: "'m multimap_ops"
  assumes get_new: "mm_rules mm (mm_new mm) k = []"
    and get_insert: "mm_rules mm (mm_insert mm m k v) k' =
      (if k' = k then mm_rules mm m k' @ [v] else mm_rules mm m k')"
    and iter_distinct: "distinct (map fst (mm_iter_all mm m))"
    and iter_get: "(k, vs) \<in> set (mm_iter_all mm m) \<Longrightarrow> mm_rules mm m k = vs"
    and get_iter: "mm_rules mm m k \<noteq> [] \<Longrightarrow> k \<in> fst ` set (mm_iter_all mm m)"
begin

text \<open>Inserting a list of rules, and all entries of another container, appends key by key.\<close>

lemma rules_insert_all:
  "mm_rules mm (foldl (\<lambda>m v. mm_insert mm m k v) m vs) k' =
   (if k' = k then mm_rules mm m k' @ vs else mm_rules mm m k')"
  by (induction vs arbitrary: m) (simp_all add: get_insert)

lemma rules_insert_entries:
  "distinct (map fst es) \<Longrightarrow>
   mm_rules mm (foldl (\<lambda>m (k, vs). foldl (\<lambda>m v. mm_insert mm m k v) m vs) m es) k' =
   mm_rules mm m k' @ (case map_of es k' of Some vs \<Rightarrow> vs | None \<Rightarrow> [])"
proof (induction es arbitrary: m)
  case (Cons e es)
  obtain k vs where e: "e = (k, vs)" by (cases e)
  show ?case
  proof (cases "k' = k")
    case True
    then have "map_of es k' = None" using Cons.prems e by (simp add: map_of_eq_None_iff)
    then show ?thesis using Cons True e by (simp add: rules_insert_all)
  next
    case False
    then show ?thesis using Cons e by (simp add: rules_insert_all)
  qed
qed simp

lemma map_of_iter: "(case map_of (mm_iter_all mm m) k of Some vs \<Rightarrow> vs | None \<Rightarrow> []) = mm_rules mm m k"
proof (cases "map_of (mm_iter_all mm m) k")
  case None
  then have "k \<notin> fst ` set (mm_iter_all mm m)" by (simp add: map_of_eq_None_iff)
  then show ?thesis using get_iter [of m k] None by auto
next
  case (Some vs)
  then show ?thesis using iter_get [OF map_of_SomeD [OF Some]] by simp
qed

end

section \<open>Policies\<close>

record match_options =
  resolve_host_executables :: bool

definition match_options_default :: match_options where
  "match_options_default = \<lparr>resolve_host_executables = False\<rparr>"

record 'm policy =
  rules_by_program :: 'm
  network_rules :: "network_rule list"
  host_executables_by_name :: "rstr \<Rightarrow> path list option"

definition policy_from_parts ::
  "'m \<Rightarrow> network_rule list \<Rightarrow> (rstr \<Rightarrow> path list option) \<Rightarrow> 'm policy" where
  "policy_from_parts rules net hosts =
     \<lparr>rules_by_program = rules, network_rules = net, host_executables_by_name = hosts\<rparr>"

definition policy_new :: "'m \<Rightarrow> 'm policy" where
  "policy_new rules = policy_from_parts rules [] (\<lambda>_. None)"

definition policy_empty :: "'m multimap_ops \<Rightarrow> 'm policy" where
  "policy_empty mm = policy_new (mm_new mm)"

fun render_pattern_token :: "pattern_token \<Rightarrow> rstr" where
  "render_pattern_token (Single v) = v"
| "render_pattern_token (Alts alternatives) = lit ''['' @ str_join (lit ''|'') alternatives @ lit '']''"

definition allowed_prefix :: "prefix_rule \<Rightarrow> rstr list option" where
  "allowed_prefix r =
     (if rule_decision r \<noteq> Allow then None
      else Some (pat_first (rule_pattern r) # map render_pattern_token (pat_rest (rule_pattern r))))"

text \<open>Strings and lists of strings are compared lexicographically; \<^verbatim>\<open>dedup\<close> drops adjacent repeats.\<close>

definition get_allowed_prefixes :: "'m multimap_ops \<Rightarrow> 'm policy \<Rightarrow> rstr list list" where
  "get_allowed_prefixes mm p =
     remdups_adj (sort (concat (map (\<lambda>(_, rules). List.map_filter allowed_prefix rules)
       (mm_iter_all mm (rules_by_program p)))))"

definition single_rule :: "rstr \<Rightarrow> rstr list \<Rightarrow> decision \<Rightarrow> prefix_rule" where
  "single_rule first_token rest d =
     \<lparr>rule_pattern = \<lparr>pat_first = first_token, pat_rest = map Single rest\<rparr>,
      rule_decision = d, rule_justification = None\<rparr>"

definition add_prefix_rule ::
  "'m multimap_ops \<Rightarrow> 'm policy \<Rightarrow> rstr list \<Rightarrow> decision \<Rightarrow> ('m policy, policy_error) result" where
  "add_prefix_rule mm p pfx d =
     (case pfx of
        [] \<Rightarrow> Inl (InvalidPattern (lit ''prefix cannot be empty''))
      | first_token # rest \<Rightarrow>
          Inr (p\<lparr>rules_by_program :=
            mm_insert mm (rules_by_program p) first_token (single_rule first_token rest d)\<rparr>))"

definition add_network_rule ::
  "'m policy \<Rightarrow> rstr \<Rightarrow> network_rule_protocol \<Rightarrow> decision \<Rightarrow> rstr option \<Rightarrow> ('m policy, policy_error) result" where
  "add_network_rule p host protocol d justification =
     (case normalize_network_rule_host host of
        Inl e \<Rightarrow> Inl e
      | Inr h \<Rightarrow>
          if (case justification of Some raw \<Rightarrow> trim raw = [] | None \<Rightarrow> False)
          then Inl (InvalidRule (lit ''justification cannot be empty''))
          else Inr (p\<lparr>network_rules := network_rules p @
                 [\<lparr>net_host = h, net_protocol = protocol, net_decision = d, net_justification = justification\<rparr>]\<rparr>))"

definition set_host_executable_paths :: "'m policy \<Rightarrow> rstr \<Rightarrow> path list \<Rightarrow> 'm policy" where
  "set_host_executable_paths p name paths =
     p\<lparr>host_executables_by_name := (host_executables_by_name p)(name \<mapsto> paths)\<rparr>"

definition merge_overlay :: "'m multimap_ops \<Rightarrow> 'm policy \<Rightarrow> 'm policy \<Rightarrow> 'm policy" where
  "merge_overlay mm p overlay =
     (let combined_rules =
            foldl (\<lambda>m (program, rules). foldl (\<lambda>m r. mm_insert mm m program r) m rules)
              (rules_by_program p) (mm_iter_all mm (rules_by_program overlay));
          combined_network_rules = network_rules p @ network_rules overlay;
          hosts = host_executables_by_name p ++ host_executables_by_name overlay
      in policy_from_parts combined_rules combined_network_rules hosts)"

definition upsert_domain :: "rstr list \<Rightarrow> rstr \<Rightarrow> rstr list" where
  "upsert_domain entries host = filter (\<lambda>e. e \<noteq> host) entries @ [host]"

definition network_domain_step ::
  "rstr list \<times> rstr list \<Rightarrow> network_rule \<Rightarrow> rstr list \<times> rstr list" where
  "network_domain_step acc r =
     (case acc of (allowed, denied) \<Rightarrow>
        (case net_decision r of
           Allow \<Rightarrow> (upsert_domain allowed (net_host r), filter (\<lambda>e. e \<noteq> net_host r) denied)
         | Forbidden \<Rightarrow> (filter (\<lambda>e. e \<noteq> net_host r) allowed, upsert_domain denied (net_host r))
         | Prompt \<Rightarrow> (allowed, denied)))"

definition compiled_network_domains :: "'m policy \<Rightarrow> rstr list \<times> rstr list" where
  "compiled_network_domains p = foldl network_domain_step ([], []) (network_rules p)"

section \<open>Matching\<close>

definition match_exact_rules :: "'m multimap_ops \<Rightarrow> 'm policy \<Rightarrow> rstr list \<Rightarrow> rule_match list option" where
  "match_exact_rules mm p cmd =
     (case cmd of
        [] \<Rightarrow> None
      | first # _ \<Rightarrow>
          Some (case mm_get_vec mm (rules_by_program p) first of
                  Some rules \<Rightarrow> List.map_filter (\<lambda>r. rule_matches r cmd) rules
                | None \<Rightarrow> []))"

text \<open>
  \<open>to_abs\<close> is \<^verbatim>\<open>AbsolutePathBuf::try_from\<close> with the home and current directory of the process,
  \<open>None\<close> for an error.
\<close>

definition match_host_executable_rules ::
  "'m multimap_ops \<Rightarrow> (rstr \<Rightarrow> path option) \<Rightarrow> 'm policy \<Rightarrow> rstr list \<Rightarrow> rule_match list" where
  "match_host_executable_rules mm to_abs p cmd =
     (case cmd of
        [] \<Rightarrow> []
      | first # args \<Rightarrow>
          (case to_abs first of
             None \<Rightarrow> []
           | Some program \<Rightarrow>
               (case executable_path_lookup_key program of
                  None \<Rightarrow> []
                | Some basename \<Rightarrow>
                    (case mm_get_vec mm (rules_by_program p) basename of
                       None \<Rightarrow> []
                     | Some rules \<Rightarrow>
                         if (case host_executables_by_name p basename of
                               Some paths \<Rightarrow> \<not> list_ex (\<lambda>q. components q = components program) paths
                             | None \<Rightarrow> False)
                         then []
                         else map (\<lambda>m. with_resolved_program m program)
                                (List.map_filter (\<lambda>r. rule_matches r (basename # args)) rules)))))"

definition try_from_string :: "path option \<Rightarrow> (path, 'e) result \<Rightarrow> rstr \<Rightarrow> path option" where
  "try_from_string home cwd s = (case from_absolute_path home cwd s of Inr p \<Rightarrow> Some p | Inl _ \<Rightarrow> None)"

definition matches_for_command_with_options ::
  "'m multimap_ops \<Rightarrow> (rstr \<Rightarrow> path option) \<Rightarrow> 'm policy \<Rightarrow> rstr list \<Rightarrow> (rstr list \<Rightarrow> decision) option \<Rightarrow>
   match_options \<Rightarrow> rule_match list" where
  "matches_for_command_with_options mm to_abs p cmd fallback options =
     (let exact = (case match_exact_rules mm p cmd of Some ms \<Rightarrow> ms | None \<Rightarrow> []);
          matched_rules =
            (if exact \<noteq> [] then exact
             else if resolve_host_executables options then match_host_executable_rules mm to_abs p cmd
             else [])
      in case fallback of
           Some f \<Rightarrow> if matched_rules = [] then [HeuristicsRuleMatch cmd (f cmd)] else matched_rules
         | None \<Rightarrow> matched_rules)"

definition matches_for_command ::
  "'m multimap_ops \<Rightarrow> (rstr \<Rightarrow> path option) \<Rightarrow> 'm policy \<Rightarrow> rstr list \<Rightarrow> (rstr list \<Rightarrow> decision) option \<Rightarrow>
   rule_match list" where
  "matches_for_command mm to_abs p cmd fallback =
     matches_for_command_with_options mm to_abs p cmd fallback match_options_default"

section \<open>Evaluation\<close>

record evaluation =
  eval_decision :: decision
  matched_rules :: "rule_match list"

fun is_heuristics :: "rule_match \<Rightarrow> bool" where
  "is_heuristics (HeuristicsRuleMatch _ _) = True"
| "is_heuristics _ = False"

definition is_match :: "evaluation \<Rightarrow> bool" where
  "is_match e \<longleftrightarrow> list_ex (\<lambda>m. \<not> is_heuristics m) (matched_rules e)"

text \<open>\<open>None\<close> where \<^verbatim>\<open>expect\<close> panics.\<close>

definition from_matches :: "rule_match list \<Rightarrow> evaluation option" where
  "from_matches ms =
     (case map match_decision ms of
        [] \<Rightarrow> None
      | d # ds \<Rightarrow> Some \<lparr>eval_decision = foldl max d ds, matched_rules = ms\<rparr>)"

definition check_with_options ::
  "'m multimap_ops \<Rightarrow> (rstr \<Rightarrow> path option) \<Rightarrow> 'm policy \<Rightarrow> rstr list \<Rightarrow> (rstr list \<Rightarrow> decision) \<Rightarrow>
   match_options \<Rightarrow> evaluation option" where
  "check_with_options mm to_abs p cmd fallback options =
     from_matches (matches_for_command_with_options mm to_abs p cmd (Some fallback) options)"

definition check ::
  "'m multimap_ops \<Rightarrow> (rstr \<Rightarrow> path option) \<Rightarrow> 'm policy \<Rightarrow> rstr list \<Rightarrow> (rstr list \<Rightarrow> decision) \<Rightarrow>
   evaluation option" where
  "check mm to_abs p cmd fallback =
     from_matches (matches_for_command_with_options mm to_abs p cmd (Some fallback) match_options_default)"

definition check_multiple_with_options ::
  "'m multimap_ops \<Rightarrow> (rstr \<Rightarrow> path option) \<Rightarrow> 'm policy \<Rightarrow> rstr list list \<Rightarrow> (rstr list \<Rightarrow> decision) \<Rightarrow>
   match_options \<Rightarrow> evaluation option" where
  "check_multiple_with_options mm to_abs p commands fallback options =
     from_matches (concat (map (\<lambda>c.
       matches_for_command_with_options mm to_abs p c (Some fallback) options) commands))"

definition check_multiple ::
  "'m multimap_ops \<Rightarrow> (rstr \<Rightarrow> path option) \<Rightarrow> 'm policy \<Rightarrow> rstr list list \<Rightarrow> (rstr list \<Rightarrow> decision) \<Rightarrow>
   evaluation option" where
  "check_multiple mm to_abs p commands fallback =
     check_multiple_with_options mm to_abs p commands fallback match_options_default"

section \<open>Examples of a rule\<close>

text \<open>
  \<open>join\<close> is \<^verbatim>\<open>shlex::try_join\<close> and \<open>debug\<close> the derived \<^verbatim>\<open>Debug\<close> rendering of rules and matches.
\<close>

definition render_example :: "(rstr list \<Rightarrow> rstr option) \<Rightarrow> rstr list \<Rightarrow> rstr" where
  "render_example join example =
     (case join example of Some s \<Rightarrow> s | None \<Rightarrow> lit ''unable to render example'')"

definition validate_match_examples ::
  "(rstr list \<Rightarrow> rstr option) \<Rightarrow> (prefix_rule \<Rightarrow> rstr) \<Rightarrow> 'm multimap_ops \<Rightarrow> (rstr \<Rightarrow> path option) \<Rightarrow>
   'm policy \<Rightarrow> prefix_rule list \<Rightarrow> rstr list list \<Rightarrow> (unit, policy_error) result" where
  "validate_match_examples join debug mm to_abs p rules examples =
     (let unmatched = map (render_example join)
            (filter (\<lambda>e. matches_for_command_with_options mm to_abs p e None
               \<lparr>resolve_host_executables = True\<rparr> = []) examples)
      in if unmatched = [] then Inr ()
         else Inl (ExampleDidNotMatch (map debug rules) unmatched None))"

fun validate_not_match_examples ::
  "(rstr list \<Rightarrow> rstr option) \<Rightarrow> (rule_match \<Rightarrow> rstr) \<Rightarrow> 'm multimap_ops \<Rightarrow> (rstr \<Rightarrow> path option) \<Rightarrow>
   'm policy \<Rightarrow> rstr list list \<Rightarrow> (unit, policy_error) result" where
  "validate_not_match_examples join debug mm to_abs p [] = Inr ()"
| "validate_not_match_examples join debug mm to_abs p (example # examples) =
     (case matches_for_command_with_options mm to_abs p example None \<lparr>resolve_host_executables = True\<rparr> of
        m # _ \<Rightarrow> Inl (ExampleDidMatch (debug m) (render_example join example) None)
      | [] \<Rightarrow> validate_not_match_examples join debug mm to_abs p examples)"

end
