(* ===== verification/Exec_Policy_Correct.thy ===== *)
theory Exec_Policy_Correct
  imports Exec_Policy
begin

text \<open>
  What the policy engine promises: the decision is the strictest of the rules that match, a
  rule only matches commands that start with its pattern, an overlay keeps the matches of both
  sides unless a rule for a path hides those for a name,
  and the domain lists follow the last rule for a host. An association list implements the
  container of the rules.
\<close>

section \<open>Rules\<close>

lemma matches_prefix_Some_iff:
  "matches_prefix pat cmd = Some p \<longleftrightarrow>
   (\<exists>ts rest. p = pat_first pat # ts \<and> cmd = p @ rest \<and> list_all2 token_matches (pat_rest pat) ts)"
proof
  assume m: "matches_prefix pat cmd = Some p"
  let ?n = "length (pat_rest pat)"
  have len: "?n + 1 \<le> length cmd" and hd: "hd cmd = pat_first pat"
    and all: "list_all (\<lambda>(t, c). token_matches t c) (zip (pat_rest pat) (drop 1 (take (?n + 1) cmd)))"
    and p: "p = take (?n + 1) cmd"
    using m by (auto simp: matches_prefix_def Let_def split: if_splits)
  obtain c cs where cmd: "cmd = c # cs" using len by (cases cmd) auto
  have "list_all2 token_matches (pat_rest pat) (take ?n cs)"
    using all len by (auto simp: cmd list_all2_iff list_all_iff)
  then show "\<exists>ts rest. p = pat_first pat # ts \<and> cmd = p @ rest \<and> list_all2 token_matches (pat_rest pat) ts"
    using p hd cmd by (intro exI [of _ "take ?n cs"] exI [of _ "drop ?n cs"]) simp
next
  assume "\<exists>ts rest. p = pat_first pat # ts \<and> cmd = p @ rest \<and> list_all2 token_matches (pat_rest pat) ts"
  then obtain ts rest where p: "p = pat_first pat # ts" "cmd = p @ rest"
    and all: "list_all2 token_matches (pat_rest pat) ts" by blast
  have "length ts = length (pat_rest pat)" using all by (simp add: list_all2_lengthD)
  then show "matches_prefix pat cmd = Some p"
    using p all by (auto simp: matches_prefix_def list_all2_iff list_all_iff)
qed

lemma rule_matches_prefix:
  "rule_matches r cmd = Some m \<Longrightarrow>
   \<exists>p. m = PrefixRuleMatch p (rule_decision r) None (rule_justification r) \<and> prefix p cmd \<and> p \<noteq> []"
  by (auto simp: rule_matches_def matches_prefix_Some_iff)

section \<open>Decisions\<close>

lemma foldl_max_decision: "foldl max d ds = Max (insert d (set ds))" for d :: decision
proof (induction ds arbitrary: d)
  case (Cons x xs)
  have "foldl max d (x # xs) = Max (insert (max d x) (set xs))" using Cons by simp
  also have "\<dots> = max (max d x) (if set xs = {} then max d x else Max (set xs))"
    by (cases "set xs = {}") simp_all
  also have "\<dots> = Max (insert d (set (x # xs)))"
    by (cases "set xs = {}") (simp_all add: max.assoc)
  finally show ?case .
qed simp

lemma from_matches_eq:
  "from_matches ms =
    (if ms = [] then None else Some \<lparr>eval_decision = Max (match_decision ` set ms), matched_rules = ms\<rparr>)"
  by (cases ms) (simp_all add: from_matches_def foldl_max_decision)

lemma matches_fallback_ne: "matches_for_command_with_options mm to_abs p cmd (Some f) options \<noteq> []"
  by (simp add: matches_for_command_with_options_def Let_def)

text \<open>Matches of a command: nothing but matches of rules, or one match of the fallback.\<close>

lemma match_exact_elem:
  assumes "m \<in> set (case match_exact_rules mm p cmd of Some ms \<Rightarrow> ms | None \<Rightarrow> [])"
  shows "\<exists>q d j. m = PrefixRuleMatch q d None j \<and> prefix q cmd \<and> q \<noteq> []"
proof (cases cmd)
  case (Cons first args)
  then obtain rules where "m \<in> set (List.map_filter (\<lambda>r. rule_matches r cmd) rules)"
    using assms by (cases "mm_get_vec mm (rules_by_program p) first") (auto simp: match_exact_rules_def)
  then obtain r where "rule_matches r cmd = Some m" by (auto simp: in_map_filter)
  then show ?thesis using rule_matches_prefix by blast
qed (use assms in \<open>simp add: match_exact_rules_def\<close>)

lemma match_host_elem:
  assumes "m \<in> set (match_host_executable_rules mm to_abs p cmd)"
  shows "\<exists>q d j program basename. m = PrefixRuleMatch q d (Some program) j \<and>
    to_abs (hd cmd) = Some program \<and> executable_path_lookup_key program = Some basename \<and>
    prefix q (basename # tl cmd) \<and> q \<noteq> [] \<and>
    (\<forall>paths. host_executables_by_name p basename = Some paths \<longrightarrow>
      (\<exists>h\<in>set paths. components h = components program))"
proof (cases cmd)
  case Nil
  then show ?thesis using assms by (simp add: match_host_executable_rules_def)
next
  case (Cons first args)
  obtain program where 1: "to_abs first = Some program"
    using assms Cons by (cases "to_abs first") (simp_all add: match_host_executable_rules_def)
  obtain basename where 2: "executable_path_lookup_key program = Some basename"
    using assms Cons 1 by (cases "executable_path_lookup_key program") (simp_all add: match_host_executable_rules_def)
  obtain rules where 3: "mm_get_vec mm (rules_by_program p) basename = Some rules"
    using assms Cons 1 2
    by (cases "mm_get_vec mm (rules_by_program p) basename") (simp_all add: match_host_executable_rules_def)
  have 4: "\<exists>h\<in>set paths. components h = components program"
    if "host_executables_by_name p basename = Some paths" for paths
    using assms Cons 1 2 3 that
    by (auto simp: match_host_executable_rules_def list_ex_iff split: if_splits)
  obtain r m0 where "rule_matches r (basename # args) = Some m0" "m = with_resolved_program m0 program"
    using assms Cons 1 2 3 by (auto simp: match_host_executable_rules_def in_map_filter split: if_splits)
  then obtain q where "m = PrefixRuleMatch q (rule_decision r) (Some program) (rule_justification r)"
    "prefix q (basename # args)" "q \<noteq> []"
    by (auto dest!: rule_matches_prefix)
  then show ?thesis using 1 2 4 Cons by auto
qed

section \<open>An implementation of the container\<close>

type_synonym rule_alist = "(rstr \<times> prefix_rule list) list"

fun alist_insert :: "rule_alist \<Rightarrow> rstr \<Rightarrow> prefix_rule \<Rightarrow> rule_alist" where
  "alist_insert [] k v = [(k, [v])]"
| "alist_insert ((k', vs) # m) k v = (if k' = k then (k', vs @ [v]) # m else (k', vs) # alist_insert m k v)"

text \<open>Entries of a key that comes again are hidden by the first, as \<^verbatim>\<open>map_of\<close> has it.\<close>

fun alist_entries :: "rstr list \<Rightarrow> rule_alist \<Rightarrow> rule_alist" where
  "alist_entries seen [] = []"
| "alist_entries seen ((k, vs) # m) =
     (if k \<in> set seen then alist_entries seen m else (k, vs) # alist_entries (k # seen) m)"

definition alist_multimap :: "rule_alist multimap_ops" where
  "alist_multimap = \<lparr>mm_new = [], mm_get_vec = map_of, mm_insert = alist_insert,
     mm_iter_all = alist_entries []\<rparr>"

lemma map_of_alist_insert:
  "map_of (alist_insert m k v) k' =
    (if k' = k then Some ((case map_of m k of Some vs \<Rightarrow> vs | None \<Rightarrow> []) @ [v]) else map_of m k')"
  by (induction m k v rule: alist_insert.induct) auto

lemma alist_entries_props:
  "distinct (map fst (alist_entries seen m)) \<and> fst ` set (alist_entries seen m) \<inter> set seen = {} \<and>
   (\<forall>k. k \<notin> set seen \<longrightarrow> map_of (alist_entries seen m) k = map_of m k)"
  by (induction seen m rule: alist_entries.induct) auto

interpretation alist: multimap alist_multimap
proof
  fix m :: rule_alist and k k' :: rstr and v vs
  note e = alist_entries_props [of "[]" m]
  show "mm_rules alist_multimap (mm_new alist_multimap) k = []"
    by (simp add: mm_rules_def alist_multimap_def)
  show "mm_rules alist_multimap (mm_insert alist_multimap m k v) k' =
      (if k' = k then mm_rules alist_multimap m k' @ [v] else mm_rules alist_multimap m k')"
    by (simp add: mm_rules_def alist_multimap_def map_of_alist_insert)
  show "distinct (map fst (mm_iter_all alist_multimap m))"
    using e by (simp add: alist_multimap_def)
  show "mm_rules alist_multimap m k = vs" if "(k, vs) \<in> set (mm_iter_all alist_multimap m)"
  proof -
    have "map_of (alist_entries [] m) k = Some vs"
      using e that by (intro map_of_is_SomeI) (simp_all add: alist_multimap_def)
    then show ?thesis using e by (simp add: mm_rules_def alist_multimap_def)
  qed
  show "k \<in> fst ` set (mm_iter_all alist_multimap m)" if "mm_rules alist_multimap m k \<noteq> []"
  proof -
    have "map_of m k \<noteq> None" using that by (cases "map_of m k") (simp_all add: mm_rules_def alist_multimap_def)
    then have "map_of (alist_entries [] m) k \<noteq> None" using e by simp
    then show ?thesis by (simp add: alist_multimap_def map_of_eq_None_iff)
  qed
qed

section \<open>Overlays and new rules\<close>

lemma match_exact_mm_rules:
  "(case match_exact_rules mm p cmd of Some ms \<Rightarrow> ms | None \<Rightarrow> []) =
    (case cmd of [] \<Rightarrow> [] | first # _ \<Rightarrow>
       List.map_filter (\<lambda>r. rule_matches r cmd) (mm_rules mm (rules_by_program p) first))"
  by (cases cmd) (simp_all add: match_exact_rules_def mm_rules_def map_filter_simps split: option.splits)

lemma matches_default:
  "matches_for_command_with_options mm to_abs p cmd (Some f) match_options_default =
    (let exact = (case cmd of [] \<Rightarrow> [] | first # _ \<Rightarrow>
       List.map_filter (\<lambda>r. rule_matches r cmd) (mm_rules mm (rules_by_program p) first))
     in if exact = [] then [HeuristicsRuleMatch cmd (f cmd)] else exact)"
  unfolding matches_for_command_with_options_def match_exact_mm_rules
  by (simp add: match_options_default_def Let_def)

text \<open>A rule matches the command with its program as it is written.\<close>

definition direct_match :: "'m multimap_ops \<Rightarrow> 'm policy \<Rightarrow> rstr list \<Rightarrow> bool" where
  "direct_match mm p cmd \<longleftrightarrow> (case match_exact_rules mm p cmd of Some ms \<Rightarrow> ms \<noteq> [] | None \<Rightarrow> False)"

definition exact_matches :: "'m multimap_ops \<Rightarrow> 'm policy \<Rightarrow> rstr list \<Rightarrow> rule_match list" where
  "exact_matches mm p cmd = (case match_exact_rules mm p cmd of Some ms \<Rightarrow> ms | None \<Rightarrow> [])"

lemma direct_match_iff: "direct_match mm p cmd \<longleftrightarrow> exact_matches mm p cmd \<noteq> []"
  by (simp add: direct_match_def exact_matches_def split: option.split)

lemma matches_of_rules:
  "matches_for_command_with_options mm to_abs p cmd (Some f) options =
   (let ms = (if exact_matches mm p cmd \<noteq> [] then exact_matches mm p cmd
              else if resolve_host_executables options then match_host_executable_rules mm to_abs p cmd else [])
    in if ms = [] then [HeuristicsRuleMatch cmd (f cmd)] else ms)"
  by (simp add: matches_for_command_with_options_def exact_matches_def [symmetric] Let_def)

text \<open>The rules for the name of a program that the path of the command is resolved to.\<close>

definition name_matches :: "'m multimap_ops \<Rightarrow> 'm policy \<Rightarrow> path \<Rightarrow> rstr \<Rightarrow> rstr list \<Rightarrow> rule_match list" where
  "name_matches mm p program name args =
     (if (case host_executables_by_name p name of Some ps \<Rightarrow> \<not> list_ex (\<lambda>q. components q = components program) ps | None \<Rightarrow> False)
      then []
      else map (\<lambda>m. with_resolved_program m program)
             (List.map_filter (\<lambda>r. rule_matches r (name # args)) (mm_rules mm (rules_by_program p) name)))"

lemma host_matches_at:
  "match_host_executable_rules mm to_abs p cmd =
   (case cmd of
      [] \<Rightarrow> []
    | first # args \<Rightarrow>
        (case to_abs first of
           None \<Rightarrow> []
         | Some program \<Rightarrow>
             (case executable_path_lookup_key program of None \<Rightarrow> [] | Some name \<Rightarrow> name_matches mm p program name args)))"
proof -
  have "(case mm_get_vec mm (rules_by_program p) name of
           None \<Rightarrow> []
         | Some rules \<Rightarrow>
             if (case host_executables_by_name p name of Some ps \<Rightarrow> \<not> list_ex (\<lambda>q. components q = components program) ps | None \<Rightarrow> False)
             then [] else map (\<lambda>m. with_resolved_program m program) (List.map_filter (\<lambda>r. rule_matches r (name # args)) rules)) =
        name_matches mm p program name args" for program name args
    by (cases "mm_get_vec mm (rules_by_program p) name") (simp_all add: name_matches_def mm_rules_def map_filter_simps)
  then show ?thesis unfolding match_host_executable_rules_def by (simp cong: option.case_cong list.case_cong)
qed

context multimap
begin

lemma rules_merge_overlay:
  "mm_rules mm (rules_by_program (merge_overlay mm p overlay)) k =
   mm_rules mm (rules_by_program p) k @ mm_rules mm (rules_by_program overlay) k"
  using rules_insert_entries [OF iter_distinct, of "rules_by_program p" "rules_by_program overlay" k]
  by (simp add: merge_overlay_def policy_from_parts_def map_of_iter)

lemma host_rules_merge_overlay:
  assumes "\<forall>name. host_executables_by_name other name = None \<or> host_executables_by_name other name = host_executables_by_name q name"
    and "(q, other) = (p, overlay) \<or> (q, other) = (overlay, p)"
  shows "set (match_host_executable_rules mm to_abs q cmd) \<subseteq> set (match_host_executable_rules mm to_abs (merge_overlay mm p overlay) cmd)"
proof -
  let ?q' = "merge_overlay mm p overlay"
  have hosts: "host_executables_by_name ?q' name = host_executables_by_name q name" for name
    using assms(2) spec [OF assms(1), of name]
    by (auto simp: merge_overlay_def policy_from_parts_def Let_def map_add_def split: option.splits)
  have "set (mm_rules mm (rules_by_program q) name) \<subseteq> set (mm_rules mm (rules_by_program ?q') name)" for name
    using assms(2) by (auto simp: rules_merge_overlay)
  then have "set (name_matches mm q program name args) \<subseteq> set (name_matches mm ?q' program name args)" for program name args
    unfolding name_matches_def hosts by (auto simp: in_map_filter intro!: imageI) blast
  then show ?thesis unfolding host_matches_at by (auto split: list.splits option.splits) (metis subsetD)
qed

text \<open>
  A match of one side is one of both when a rule names the program of the command as it is written, or when the other side has
  no such rule for the command and restricts no name of a program.
\<close>

lemma matches_merge_overlay:
  assumes ms: "matches_for_command_with_options mm to_abs q cmd (Some f) options = ms" and match: "\<exists>m\<in>set ms. \<not> is_heuristics m"
    and sides: "(q, other) = (p, overlay) \<or> (q, other) = (overlay, p)"
    and direct: "direct_match mm q cmd \<or> \<not> direct_match mm other cmd \<and>
      (\<forall>name. host_executables_by_name other name = None \<or> host_executables_by_name other name = host_executables_by_name q name)"
  shows "set ms \<subseteq> set (matches_for_command_with_options mm to_abs (merge_overlay mm p overlay) cmd (Some f) options)"
proof -
  let ?e = "\<lambda>x. exact_matches mm x cmd" and ?q' = "merge_overlay mm p overlay"
  have both: "set (?e ?q') = set (?e q) \<union> set (?e other)"
    using sides unfolding exact_matches_def match_exact_mm_rules by (cases cmd) (auto simp: rules_merge_overlay map_filter_append)
  show ?thesis
  proof (cases "?e q = []")
    case False
    then have "?e ?q' \<noteq> []" "ms = ?e q" using both ms by (auto simp: matches_of_rules)
    then show ?thesis using both by (auto simp: matches_of_rules)
  next
    case True
    then have none: "?e ?q' = []" using both direct by (auto simp: direct_match_iff)
    have host: "resolve_host_executables options" "ms = match_host_executable_rules mm to_abs q cmd" "ms \<noteq> []"
      using ms match True by (auto simp: matches_of_rules Let_def split: if_splits)
    then have "set ms \<subseteq> set (match_host_executable_rules mm to_abs ?q' cmd)"
      using host_rules_merge_overlay [OF _ sides] direct True by (auto simp: direct_match_iff)
    then show ?thesis using host none by (auto simp: matches_of_rules Let_def)
  qed
qed

lemma check_merge_overlay:
  assumes "check_with_options mm to_abs q cmd f options = Some ev" and "is_match ev"
    and "(q, other) = (p, overlay) \<or> (q, other) = (overlay, p)"
    and "direct_match mm q cmd \<or> \<not> direct_match mm other cmd \<and>
      (\<forall>name. host_executables_by_name other name = None \<or> host_executables_by_name other name = host_executables_by_name q name)"
    and "check_with_options mm to_abs (merge_overlay mm p overlay) cmd f options = Some ev'"
  shows "eval_decision ev \<le> eval_decision ev'" and "set (matched_rules ev) \<subseteq> set (matched_rules ev')"
proof -
  let ?ms = "matches_for_command_with_options mm to_abs q cmd (Some f) options"
  let ?ms' = "matches_for_command_with_options mm to_abs (merge_overlay mm p overlay) cmd (Some f) options"
  have ev: "ev = \<lparr>eval_decision = Max (match_decision ` set ?ms), matched_rules = ?ms\<rparr>"
    and ev': "ev' = \<lparr>eval_decision = Max (match_decision ` set ?ms'), matched_rules = ?ms'\<rparr>"
    using assms(1,5) by (auto simp: check_with_options_def from_matches_eq split: if_splits)
  have "\<exists>m\<in>set ?ms. \<not> is_heuristics m" using assms(2) ev by (simp add: is_match_def list_ex_iff)
  then have sub: "set ?ms \<subseteq> set ?ms'" by (rule matches_merge_overlay [OF refl _ assms(3,4)])
  then show "set (matched_rules ev) \<subseteq> set (matched_rules ev')" using ev ev' by simp
  have "?ms \<noteq> []" by (rule matches_fallback_ne)
  then have "Max (match_decision ` set ?ms) \<le> Max (match_decision ` set ?ms')"
    using sub by (intro Max_mono image_mono) simp_all
  then show "eval_decision ev \<le> eval_decision ev'" by (simp only: ev ev' evaluation.simps)
qed

lemma check_add_prefix_rule:
  assumes "add_prefix_rule mm p pfx d = Inr p'" and "prefix pfx cmd"
  shows "\<exists>ev. check mm to_abs p' cmd f = Some ev \<and> d \<le> eval_decision ev \<and>
    PrefixRuleMatch pfx d None None \<in> set (matched_rules ev)"
proof -
  obtain first rest where pfx: "pfx = first # rest" using assms(1) by (cases pfx) (auto simp: add_prefix_rule_def)
  obtain args where cmd: "cmd = first # rest @ args" using assms(2) pfx by (auto simp: prefix_def)
  let ?r = "single_rule first rest d"
  let ?exact = "List.map_filter (\<lambda>r. rule_matches r cmd) (mm_rules mm (rules_by_program p') first)"
  have "list_all2 token_matches (map Single rest) rest" by (simp add: list_all2_conv_all_nth)
  then have "matches_prefix (rule_pattern ?r) cmd = Some pfx"
    unfolding matches_prefix_Some_iff by (simp add: single_rule_def pfx cmd)
  then have "rule_matches ?r cmd = Some (PrefixRuleMatch pfx d None None)"
    by (simp add: rule_matches_def single_rule_def)
  moreover have "mm_rules mm (rules_by_program p') first = mm_rules mm (rules_by_program p) first @ [?r]"
    using assms(1) pfx by (auto simp: add_prefix_rule_def get_insert)
  ultimately have m: "PrefixRuleMatch pfx d None None \<in> set ?exact"
    by (auto simp: map_filter_append in_map_filter)
  then have ms: "matches_for_command_with_options mm to_abs p' cmd (Some f) match_options_default = ?exact"
    by (auto simp: matches_default cmd Let_def)
  have "d \<le> Max (match_decision ` set ?exact)"
    using m by (intro Max_ge) (auto intro: rev_image_eqI)
  then show ?thesis using m ms by (auto simp: check_def from_matches_eq)
qed

end

section \<open>Network domains\<close>

text \<open>The last rule for a host that allows or forbids it.\<close>

fun last_verdict :: "network_rule list \<Rightarrow> rstr \<Rightarrow> decision option" where
  "last_verdict [] h = None"
| "last_verdict (r # rs) h =
     (case last_verdict rs h of
        Some d \<Rightarrow> Some d
      | None \<Rightarrow> if net_host r = h \<and> net_decision r \<noteq> Prompt then Some (net_decision r) else None)"

lemma last_verdict_snoc:
  "last_verdict (rs @ [r]) h =
    (if net_host r = h \<and> net_decision r \<noteq> Prompt then Some (net_decision r) else last_verdict rs h)"
  by (induction rs) auto

lemma compiled_domains:
  "foldl network_domain_step ([], []) rs = (allowed, denied) \<Longrightarrow>
   distinct allowed \<and> distinct denied \<and>
   set allowed = {h. last_verdict rs h = Some Allow} \<and> set denied = {h. last_verdict rs h = Some Forbidden}"
proof (induction rs arbitrary: allowed denied rule: rev_induct)
  case (snoc r rs)
  obtain a d where ad: "foldl network_domain_step ([], []) rs = (a, d)"
    by (cases "foldl network_domain_step ([], []) rs")
  note IH = snoc.IH [OF ad]
  have "network_domain_step (a, d) r = (allowed, denied)" using snoc.prems ad by simp
  then show ?case
    using IH by (cases "net_decision r") (auto simp: network_domain_step_def upsert_domain_def last_verdict_snoc)
qed simp

section \<open>Hosts\<close>

lemma strip_port_subset: "strip_port raw host = Inr h \<Longrightarrow> set h \<subseteq> set host"
proof -
  have once: "split_once d s = Some (a, b) \<Longrightarrow> s = a @ d # b" for d s and a b :: rstr
    by (induction s arbitrary: a) (auto split: if_splits)
  have ronce: "rsplit_once d s = Some (a, b) \<Longrightarrow> s = a @ d # b" for d s and a b :: rstr
    using once [of d "rev s"] by (auto simp: rsplit_once_def) (metis append.assoc append_Cons append_Nil rev.simps(2) rev_append rev_rev_ident)
  assume p: "strip_port raw host = Inr h"
  show ?thesis
  proof (cases "strip_prefix (lit ''['') host")
    case (Some stripped)
    then have host: "host = lit ''['' @ stripped" by (simp add: strip_prefix_Some_iff)
    obtain inside rest where "split_once 93 stripped = Some (inside, rest)"
      using p Some by (cases "split_once 93 stripped") (auto simp: strip_port_def)
    then have "stripped = inside @ 93 # rest" and "h = inside"
      using once p Some by (auto simp: strip_port_def Let_def split: if_splits)
    then show ?thesis using host by auto
  next
    case None
    show ?thesis
    proof (cases "rsplit_once 58 host")
      case (Some ab)
      then show ?thesis
        using p None ronce [of 58 host "fst ab" "snd ab"] by (cases ab) (auto simp: strip_port_def split: if_splits)
    qed (use p None in \<open>auto simp: strip_port_def split: if_splits\<close>)
  qed
qed

lemma trim_subset: "set (trim s) \<subseteq> set s"
proof -
  have "set (trim_end (trim_start s)) \<subseteq> set (trim_start s)" by (auto simp: trim_end_def dest: set_dropWhileD)
  also have "\<dots> \<subseteq> set s" by (auto simp: trim_start_def dest: set_dropWhileD)
  finally show ?thesis by (simp add: trim_def)
qed

lemma trim_end_matches_subset: "set (trim_end_matches c s) \<subseteq> set s"
  by (auto simp: trim_end_matches_def dest: set_dropWhileD)

lemma to_ascii_lower_special:
  "to_ascii_lower c = d \<Longrightarrow> d < 97 \<Longrightarrow> c = d"
  by (auto simp: to_ascii_lower_def split: if_splits)

lemma to_ascii_lowercase_upper: "c \<in> set (to_ascii_lowercase s) \<Longrightarrow> \<not> (65 \<le> c \<and> c \<le> 90)"
  by (auto simp: to_ascii_lowercase_def to_ascii_lower_def split: if_splits)

section \<open>Properties\<close>

text \<open>
  Checking a command never panics; the decision is the strictest one among the
  matches it reports, which are all the matches of the command.
\<close>

theorem check_decision_strictest:
  "check_with_options mm to_abs p cmd f options =
    (let ms = matches_for_command_with_options mm to_abs p cmd (Some f) options
     in Some \<lparr>eval_decision = Max (match_decision ` set ms), matched_rules = ms\<rparr>)"
  using matches_fallback_ne [of mm to_abs p cmd f options]
  by (simp add: check_with_options_def from_matches_eq Let_def)

text \<open>
  Checking several commands panics exactly when there are none; otherwise it
  gives the strictest of the decisions of the commands and lists their matches in order.
\<close>

theorem check_multiple_strictest:
  "check_multiple_with_options mm to_abs p cmds f options =
    (if cmds = [] then None
     else Some \<lparr>eval_decision = Max ((\<lambda>c. Max (match_decision ` set
                  (matches_for_command_with_options mm to_abs p c (Some f) options))) ` set cmds),
                matched_rules = concat (map (\<lambda>c.
                  matches_for_command_with_options mm to_abs p c (Some f) options) cmds)\<rparr>)"
proof -
  let ?m = "\<lambda>c. matches_for_command_with_options mm to_abs p c (Some f) options"
  have "Max (match_decision ` set (concat (map ?m cmds))) = Max ((\<lambda>c. Max (match_decision ` set (?m c))) ` set cmds)"
    if "cmds \<noteq> []"
  proof (rule Max_eqI)
    have ne: "set (?m c) \<noteq> {}" for c using matches_fallback_ne [of mm to_abs p c f options] by simp
    show "Max ((\<lambda>c. Max (match_decision ` set (?m c))) ` set cmds) \<in> match_decision ` set (concat (map ?m cmds))"
    proof -
      have "Max ((\<lambda>c. Max (match_decision ` set (?m c))) ` set cmds) \<in>
          (\<lambda>c. Max (match_decision ` set (?m c))) ` set cmds"
        using that by (intro Max_in) simp_all
      then obtain c where "c \<in> set cmds"
        "Max ((\<lambda>c. Max (match_decision ` set (?m c))) ` set cmds) = Max (match_decision ` set (?m c))"
        by blast
      moreover have "Max (match_decision ` set (?m c)) \<in> match_decision ` set (?m c)"
        using ne [of c] by (intro Max_in) simp_all
      ultimately show ?thesis by auto
    qed
    fix d assume "d \<in> match_decision ` set (concat (map ?m cmds))"
    then obtain c m where "c \<in> set cmds" "m \<in> set (?m c)" "d = match_decision m" by auto
    then have "d \<le> Max (match_decision ` set (?m c))" by (intro Max_ge) auto
    also have "\<dots> \<le> Max ((\<lambda>c. Max (match_decision ` set (?m c))) ` set cmds)"
      using \<open>c \<in> set cmds\<close> by (intro Max_ge) auto
    finally show "d \<le> Max ((\<lambda>c. Max (match_decision ` set (?m c))) ` set cmds)" .
  qed simp
  moreover have "concat (map ?m cmds) = [] \<longleftrightarrow> cmds = []"
    using matches_fallback_ne [of mm to_abs p _ f options] by (cases cmds) auto
  ultimately show ?thesis by (simp add: check_multiple_with_options_def from_matches_eq)
qed

text \<open>
  A rule that is reported as matching covers the command: without a resolved
  program its matched prefix is a prefix of the command; with one, resolution was asked for,
  the program is the absolute path of the first word, listed if its name has a list, and the
  prefix is one of the command with the base name in front. The fallback is only reported
  when no rule matched.
\<close>

theorem matched_rule_covers_command:
  assumes "m \<in> set (matches_for_command_with_options mm to_abs p cmd fallback options)"
  shows "case m of
      PrefixRuleMatch q d None j \<Rightarrow> q \<noteq> [] \<and> prefix q cmd
    | PrefixRuleMatch q d (Some program) j \<Rightarrow>
        resolve_host_executables options \<and> to_abs (hd cmd) = Some program \<and>
        (\<exists>basename. executable_path_lookup_key program = Some basename \<and>
          q \<noteq> [] \<and> prefix q (basename # tl cmd) \<and>
          (\<forall>paths. host_executables_by_name p basename = Some paths \<longrightarrow>
            (\<exists>h\<in>set paths. components h = components program)))
    | HeuristicsRuleMatch c d \<Rightarrow> c = cmd \<and> (\<exists>f. fallback = Some f \<and> d = f cmd) \<and>
        matches_for_command_with_options mm to_abs p cmd None options = []"
proof -
  let ?exact = "case match_exact_rules mm p cmd of Some ms \<Rightarrow> ms | None \<Rightarrow> []"
  let ?host = "match_host_executable_rules mm to_abs p cmd"
  consider "m \<in> set ?exact" | "resolve_host_executables options" "m \<in> set ?host"
    | f where "fallback = Some f" "m = HeuristicsRuleMatch cmd (f cmd)"
        "matches_for_command_with_options mm to_abs p cmd None options = []"
    using assms unfolding matches_for_command_with_options_def
    by (cases fallback) (auto simp: Let_def split: if_splits)
  then show ?thesis
  proof cases
    case 1
    then show ?thesis using match_exact_elem [OF 1] by auto
  next
    case 2
    then show ?thesis using match_host_elem [OF 2(2)] by auto
  qed auto
qed

text \<open>A policy in use: a rule for \<open>git status\<close> and one for \<open>git\<close> with a list of paths.\<close>

definition example_policy :: "rule_alist policy" where
  "example_policy =
     \<lparr>rules_by_program = [(lit ''git'', [single_rule (lit ''git'') [lit ''s''] Allow, single_rule (lit ''git'') [] Prompt])],
      network_rules = [], host_executables_by_name = (\<lambda>_. None)\<rparr>"

definition example_to_abs :: "rstr \<Rightarrow> path option" where
  "example_to_abs = try_from_string None (Inr (lit ''/w'') :: (path, unit) result)"

theorem matched_rule_covers_command_witness:
  "PrefixRuleMatch [lit ''git''] Prompt None None \<in> set (matches_for_command_with_options alist_multimap
     example_to_abs example_policy [lit ''git'', lit ''s''] None match_options_default) \<and>
   prefix [lit ''git''] [lit ''git'', lit ''s'']"
proof -
  have m: "PrefixRuleMatch [lit ''git''] Prompt None None \<in> set (matches_for_command_with_options alist_multimap
     example_to_abs example_policy [lit ''git'', lit ''s''] None match_options_default)"
    by code_simp
  from matched_rule_covers_command [OF m] have "prefix [lit ''git''] [lit ''git'', lit ''s'']"
    by (simp only: rule_match.case option.case)
  with m show ?thesis by (rule conjI)
qed

text \<open>
  C23 (invariant): merging an overlay into a policy keeps what either side decides. When rules of the base or of the overlay
  match a command, with or without the resolution of program paths, the merged policy reports all those matches
  and decides at least as strictly, provided that one of these rules names the program as the command writes it, or that
  the other side has no such rule for the command and lists no paths for the names of programs that this side does not list
  alike. Without this an allow rule of one side for a path hides a rule of the other for the name (\<open>path_rule_hides_name_rule\<close>).
\<close>

theorem merge_overlay_never_weakens:
  assumes "multimap mm" and "check_with_options mm to_abs q cmd f options = Some ev" and "is_match ev"
    and "(q, other) = (p, overlay) \<or> (q, other) = (overlay, p)"
    and "direct_match mm q cmd \<or> \<not> direct_match mm other cmd \<and>
      (\<forall>name. host_executables_by_name other name = None \<or> host_executables_by_name other name = host_executables_by_name q name)"
    and "check_with_options mm to_abs (merge_overlay mm p overlay) cmd f options = Some ev'"
  shows "eval_decision ev \<le> eval_decision ev' \<and> set (matched_rules ev) \<subseteq> set (matched_rules ev')"
  using multimap.check_merge_overlay [OF assms] by blast

theorem merge_overlay_never_weakens_witness:
  "\<exists>ev ev'. check_with_options alist_multimap example_to_abs example_policy [lit ''/bin/git''] (\<lambda>_. Allow) \<lparr>resolve_host_executables = True\<rparr> = Some ev \<and>
     check_with_options alist_multimap example_to_abs (merge_overlay alist_multimap (policy_empty alist_multimap) example_policy)
       [lit ''/bin/git''] (\<lambda>_. Allow) \<lparr>resolve_host_executables = True\<rparr> = Some ev' \<and> Prompt \<le> eval_decision ev'"
proof -
  let ?ev = "\<lparr>eval_decision = Prompt, matched_rules = [PrefixRuleMatch [lit ''git''] Prompt (Some (lit ''/bin/git'')) None]\<rparr>"
  have 1: "check_with_options alist_multimap example_to_abs example_policy [lit ''/bin/git''] (\<lambda>_. Allow) \<lparr>resolve_host_executables = True\<rparr> = Some ?ev"
    by code_simp
  have 2: "check_with_options alist_multimap example_to_abs (merge_overlay alist_multimap (policy_empty alist_multimap) example_policy)
       [lit ''/bin/git''] (\<lambda>_. Allow) \<lparr>resolve_host_executables = True\<rparr> = Some ?ev" by code_simp
  have m: "is_match ?ev" by (simp add: is_match_def)
  have d: "\<not> direct_match alist_multimap (policy_empty alist_multimap) [lit ''/bin/git'']"
    "\<forall>name. host_executables_by_name (policy_empty alist_multimap) name = None" by (code_simp, simp add: policy_empty_def policy_new_def policy_from_parts_def)
  have "eval_decision ?ev \<le> eval_decision ?ev"
    using merge_overlay_never_weakens [OF alist.multimap_axioms 1 m _ _ 2] d by blast
  then show ?thesis using 1 2 by (metis evaluation.select_convs(1))
qed

text \<open>
  The policy of the user allows \<^verbatim>\<open>/bin/rm\<close>, the one laid over it forbids \<^verbatim>\<open>rm\<close> and, alone, forbids \<^verbatim>\<open>/bin/rm\<close>: merged, they allow it.
\<close>

lemma path_rule_hides_name_rule:
  "let rule = (\<lambda>name d. \<lparr>rules_by_program = [(name, [single_rule name [] d])], network_rules = [], host_executables_by_name = (\<lambda>_. None)\<rparr>);
       check = (\<lambda>p. map_option eval_decision (check_with_options alist_multimap example_to_abs p [lit ''/bin/rm''] (\<lambda>_. Prompt)
                  \<lparr>resolve_host_executables = True\<rparr>))
   in check (rule (lit ''rm'') Forbidden) = Some Forbidden \<and>
      check (merge_overlay alist_multimap (rule (lit ''/bin/rm'') Allow) (rule (lit ''rm'') Forbidden)) = Some Allow"
  by code_simp

text \<open>
  After adding a rule for a prefix, every command that starts with the prefix
  is reported as matching it and is decided at least as strictly as the rule says.
\<close>

theorem add_prefix_rule_takes_effect:
  assumes "multimap mm" and "add_prefix_rule mm p pfx d = Inr p'" and "prefix pfx cmd"
  shows "\<exists>ev. check mm to_abs p' cmd f = Some ev \<and> d \<le> eval_decision ev \<and>
    PrefixRuleMatch pfx d None None \<in> set (matched_rules ev)"
  by (rule multimap.check_add_prefix_rule [OF assms])

theorem add_prefix_rule_takes_effect_witness:
  "\<exists>p' ev. add_prefix_rule alist_multimap example_policy [lit ''rm''] Forbidden = Inr p' \<and>
     check alist_multimap example_to_abs p' [lit ''rm'', lit ''x''] (\<lambda>_. Allow) = Some ev \<and>
     Forbidden \<le> eval_decision ev"
proof -
  obtain p' where p': "add_prefix_rule alist_multimap example_policy [lit ''rm''] Forbidden = Inr p'"
    by (simp add: add_prefix_rule_def)
  have "prefix [lit ''rm''] [lit ''rm'', lit ''x'']" by simp
  from add_prefix_rule_takes_effect [OF alist.multimap_axioms p' this] p' show ?thesis by blast
qed

text \<open>
  The compiled lists of allowed and denied hosts have no repeats and no host
  in common; a host is in the list that the last rule allowing or forbidding it says.
\<close>

theorem compiled_network_domains_last_rule:
  "case compiled_network_domains p of (allowed, denied) \<Rightarrow>
     distinct allowed \<and> distinct denied \<and> set allowed \<inter> set denied = {} \<and>
     set allowed = {h. last_verdict (network_rules p) h = Some Allow} \<and>
     set denied = {h. last_verdict (network_rules p) h = Some Forbidden}"
  using compiled_domains [of "network_rules p"] by (auto simp: compiled_network_domains_def)

text \<open>
  A host accepted for a network rule is not empty and has no white space, no
  wildcard, no ASCII capital and no char of a scheme, path, query or fragment.
\<close>

theorem normalized_host_chars:
  assumes "normalize_network_rule_host raw = Inr h"
  shows "h \<noteq> [] \<and> (\<forall>c\<in>set h. \<not> is_whitespace c \<and> c \<notin> {42, 47, 63, 35} \<and> \<not> (65 \<le> c \<and> c \<le> 90))"
proof -
  let ?host = "trim raw"
  have h0: "47 \<notin> set ?host" "63 \<notin> set ?host" "35 \<notin> set ?host"
    using assms by (auto simp: normalize_network_rule_host_def Let_def split: if_splits)
  then obtain host1 where s: "strip_port raw ?host = Inr host1"
    using assms by (auto simp: normalize_network_rule_host_def Let_def split: if_splits sum.splits)
  have "(let normalized = to_ascii_lowercase (trim (trim_end_matches 46 host1))
      in normalized \<noteq> [] \<and> 42 \<notin> set normalized \<and> \<not> list_ex is_whitespace normalized \<and> h = normalized)"
    using assms s by (simp add: normalize_network_rule_host_def Let_def split: if_splits)
  then have h: "h = to_ascii_lowercase (trim (trim_end_matches 46 host1))" "h \<noteq> []" "42 \<notin> set h" "\<not> list_ex is_whitespace h"
    by (simp_all add: Let_def)
  have "c \<notin> set h" if c: "c \<in> {47, 63, 35}" for c
  proof
    assume "c \<in> set h"
    then have "c \<in> to_ascii_lower ` set (trim (trim_end_matches 46 host1))"
      unfolding h(1) to_ascii_lowercase_def by simp
    then obtain d where d: "d \<in> set (trim (trim_end_matches 46 host1))" "to_ascii_lower d = c" by blast
    have "c < 97" using c by auto
    then have "d = c" using d(2) to_ascii_lower_special by blast
    then have "c \<in> set ?host"
      using d(1) trim_subset [of "trim_end_matches 46 host1"] trim_end_matches_subset [of 46 host1]
        strip_port_subset [OF s] by blast
    then show False using h0 c by auto
  qed
  moreover have "\<not> (65 \<le> c \<and> c \<le> 90)" if "c \<in> set h" for c
    using that unfolding h(1) by (rule to_ascii_lowercase_upper)
  moreover have "\<not> is_whitespace c" if "c \<in> set h" for c using that h(4) by (auto simp: list_ex_iff)
  ultimately show ?thesis using h(2,3) by blast
qed

lemmas host_eval = normalize_network_rule_host_def strip_port_def trim_def trim_start_def trim_end_def
  is_whitespace_def contains_str_def starts_with_def rsplit_once_def all_digits_def is_ascii_digit_def
  trim_end_matches_def to_ascii_lowercase_def to_ascii_lower_def

theorem normalized_host_chars_witness:
  "normalize_network_rule_host (lit '' Api.X.:80'') = Inr (lit ''api.x'') \<and>
   list_all (\<lambda>c. \<not> is_whitespace c) (lit ''api.x'')"
proof -
  have "normalize_network_rule_host (lit '' Api.X.:80'') = Inr (lit ''api.x'')"
    by (simp add: host_eval)
  with normalized_host_chars [OF this] show ?thesis unfolding list_all_iff by blast
qed

text \<open>
  A program given by a relative path is resolved against the current directory and falls back
  to the rules of its base name like an absolute path.
\<close>

lemma relative_program_falls_back:
  "matches_for_command_with_options alist_multimap example_to_abs example_policy [lit ''./git'', lit ''s''] None
     \<lparr>resolve_host_executables = True\<rparr> =
   [PrefixRuleMatch [lit ''git'', lit ''s''] Allow (Some (lit ''/w/git'')) None,
    PrefixRuleMatch [lit ''git''] Prompt (Some (lit ''/w/git'')) None]"
  by code_simp

text \<open>Normalising a host is not idempotent: a dot may survive behind which only a space was.\<close>

lemma normalize_host_not_idempotent:
  "normalize_network_rule_host (lit ''a. .'') = Inr (lit ''a.'') \<and>
   normalize_network_rule_host (lit ''a.'') = Inr (lit ''a'')"
  by (simp add: host_eval)

end
