(* ===== verification/Bash_Script.thy ===== *)
theory Bash_Script
  imports Exec_Rules "HOL-Library.Multiset"
begin

text \<open>
  \<^verbatim>\<open>codex-rs/shell-command/src/shell_detect.rs\<close> and \<^verbatim>\<open>bash.rs\<close>: recognising \<^verbatim>\<open>bash -lc "script"\<close> and
  reading the plain commands of the script off its syntax tree. The tree comes from the
  tree-sitter package: a parameter \<open>parse\<close> stands for the call that builds it, and a node
  (\<open>node\<close>) has the data the source asks of it: its kind, whether it is named, the error flag,
  its range in the source text and its children. The walks with an explicit stack are the
  source's loops; they are shown equal to plain traversals of the tree.
\<close>

section \<open>Shell detection\<close>

datatype shell_type = Zsh | Bash | PowerShell | Sh | Cmd

text \<open>\<^verbatim>\<open>Path::file_stem\<close>: the file name up to its last dot, unless that dot is its first char.\<close>

definition path_file_stem :: "path \<Rightarrow> rstr option" where
  "path_file_stem p =
     (case path_file_name p of
        None \<Rightarrow> None
      | Some q \<Rightarrow> (case rsplit_once DOT q of
                     None \<Rightarrow> Some q
                   | Some (before, after) \<Rightarrow> Some (if before = [] then q else before)))"

lemma split_on_length: "q \<in> set (split_on d s) \<Longrightarrow> length q \<le> length s"
proof (induction s arbitrary: q)
  case (Cons c s)
  then show ?case
    by (cases "split_on d s") (auto split: if_splits intro: le_SucI)
qed simp

lemma split_on_length_eq: "q \<in> set (split_on d s) \<Longrightarrow> length q = length s \<Longrightarrow> q = s"
proof (induction s arbitrary: q)
  case (Cons c s)
  have bound: "\<And>r. r \<in> set (split_on d s) \<Longrightarrow> length r \<le> length s" by (rule split_on_length)
  show ?case
  proof (cases "c = d")
    case True
    then show ?thesis using Cons.prems bound [of q] by auto
  next
    case False
    obtain r rs where rs: "split_on d s = r # rs" by (cases "split_on d s") auto
    show ?thesis using Cons.prems Cons.IH [of r] False rs bound [of q] by auto
  qed
qed simp

lemma body_component_piece: "Normal q \<in> set (body_components ps) \<Longrightarrow> q \<in> set ps"
  by (auto simp: body_components_def piece_component_def split: if_splits)

lemma components_piece: "Normal q \<in> set (components p) \<Longrightarrow> q \<in> set (split_on SLASH p)"
  by (cases "split_on SLASH p")
     (auto simp: components_def split: if_splits dest!: body_component_piece)

lemma file_name_component: "path_file_name p = Some q \<Longrightarrow> Normal q \<in> set (components p)"
  by (auto simp: path_file_name_def Let_def split: if_splits component.splits dest!: last_in_set)

lemma file_name_piece: "path_file_name p = Some q \<Longrightarrow> q \<in> set (split_on SLASH p)"
  by (rule components_piece) (rule file_name_component)

lemma split_once_length: "split_once d s = Some (a, b) \<Longrightarrow> s = a @ d # b"
  by (induction s arbitrary: a b) (auto split: if_splits)

lemma rsplit_once_Some: "rsplit_once d s = Some (a, b) \<Longrightarrow> s = a @ d # b"
proof -
  assume "rsplit_once d s = Some (a, b)"
  then have "split_once d (rev s) = Some (rev b, rev a)" by (auto simp: rsplit_once_def)
  then have "rev s = rev b @ d # rev a" by (rule split_once_length)
  then have "rev (rev s) = rev (rev b @ d # rev a)" by (rule arg_cong)
  then show ?thesis by simp
qed

lemma file_stem_cases:
  assumes "path_file_stem p = Some q"
  shows "path_file_name p = Some q \<or> length q < length p"
proof -
  obtain n where n: "path_file_name p = Some n"
    using assms by (auto simp: path_file_stem_def split: option.splits)
  have "length n \<le> length p" using file_name_piece [OF n] by (rule split_on_length)
  then show ?thesis
    using assms n by (auto simp: path_file_stem_def split: option.splits if_splits dest!: rsplit_once_Some)
qed

lemma file_stem_shorter: "path_file_stem p = Some q \<Longrightarrow> q \<noteq> p \<Longrightarrow> length q < length p"
  using file_stem_cases [of p q] file_name_piece [of p q] split_on_length [of q SLASH p]
    split_on_length_eq [of q SLASH p]
  by (cases "length q = length p") auto

function detect_shell_type :: "path \<Rightarrow> shell_type option" where
  "detect_shell_type shell_path =
     (if shell_path = lit ''zsh'' then Some Zsh
      else if shell_path = lit ''sh'' then Some Sh
      else if shell_path = lit ''cmd'' then Some Cmd
      else if shell_path = lit ''bash'' then Some Bash
      else if shell_path = lit ''pwsh'' then Some PowerShell
      else if shell_path = lit ''powershell'' then Some PowerShell
      else (case path_file_stem shell_path of
              None \<Rightarrow> None
            | Some shell_name \<Rightarrow>
                (if components shell_name \<noteq> components shell_path
                 then detect_shell_type shell_name
                 else None)))"
  by pat_completeness auto
termination by (relation "measure length") (auto dest!: file_stem_shorter)

declare detect_shell_type.simps [simp del]

section \<open>Syntax trees\<close>

text \<open>
  \<^verbatim>\<open>tree_sitter::Node\<close>. \<^verbatim>\<open>start_byte\<close> and \<^verbatim>\<open>end_byte\<close> are positions in the chars of the source text.
\<close>

datatype node =
  Node (kind: rstr) (is_named: bool) (has_error: bool) (start_byte: nat) (end_byte: nat)
       (children: "node list")

definition named_children :: "node \<Rightarrow> node list" where
  "named_children n = filter is_named (children n)"

text \<open>\<^verbatim>\<open>Node::utf8_text(..).ok()\<close>: the text of the range, none where the range is not one of the text.\<close>

definition utf8_text :: "rstr \<Rightarrow> node \<Rightarrow> rstr option" where
  "utf8_text src n =
     (if start_byte n \<le> end_byte n \<and> end_byte n \<le> length src
      then Some (take (end_byte n - start_byte n) (drop (start_byte n) src)) else None)"

section \<open>Words of a command\<close>

definition parse_double_quoted_string :: "rstr \<Rightarrow> node \<Rightarrow> rstr option" where
  "parse_double_quoted_string src n =
     (if kind n \<noteq> lit ''string'' then None
      else if \<exists>part\<in>set (named_children n). kind part \<noteq> lit ''string_content'' then None
      else (case utf8_text src n of
              None \<Rightarrow> None
            | Some raw \<Rightarrow>
                (case strip_prefix [34] raw of None \<Rightarrow> None | Some t \<Rightarrow> strip_suffix [34] t)))"

definition parse_raw_string :: "rstr \<Rightarrow> node \<Rightarrow> rstr option" where
  "parse_raw_string src n =
     (if kind n \<noteq> lit ''raw_string'' then None
      else (case utf8_text src n of
              None \<Rightarrow> None
            | Some raw \<Rightarrow>
                (case strip_prefix [39] raw of None \<Rightarrow> None | Some t \<Rightarrow> strip_suffix [39] t)))"

text \<open>One part of a concatenation, and one named child of a plain command.\<close>

definition concat_part :: "rstr \<Rightarrow> node \<Rightarrow> rstr option" where
  "concat_part src part =
     (if kind part \<in> {lit ''word'', lit ''number''} then utf8_text src part
      else if kind part = lit ''string'' then parse_double_quoted_string src part
      else if kind part = lit ''raw_string'' then parse_raw_string src part
      else None)"

definition plain_word :: "rstr \<Rightarrow> node \<Rightarrow> rstr option" where
  "plain_word src child =
     (if kind child = lit ''command_name'' then
        (case named_children child of
           [] \<Rightarrow> None
         | word_node # _ \<Rightarrow> (if kind word_node \<noteq> lit ''word'' then None else utf8_text src word_node))
      else if kind child \<in> {lit ''word'', lit ''number''} then utf8_text src child
      else if kind child = lit ''string'' then parse_double_quoted_string src child
      else if kind child = lit ''raw_string'' then parse_raw_string src child
      else if kind child = lit ''concatenation'' then
        (case those (map (concat_part src) (named_children child)) of
           None \<Rightarrow> None
         | Some parts \<Rightarrow> (if concat parts = [] then None else Some (concat parts)))
      else None)"

definition parse_plain_command_from_node :: "rstr \<Rightarrow> node \<Rightarrow> rstr list option" where
  "parse_plain_command_from_node src cmd =
     (if kind cmd \<noteq> lit ''command'' then None
      else those (map (plain_word src) (named_children cmd)))"

definition is_literal_word_or_number :: "node \<Rightarrow> bool" where
  "is_literal_word_or_number n \<longleftrightarrow>
     kind n \<in> {lit ''word'', lit ''number''} \<and> named_children n = []"

definition is_allowed_heredoc_attachment_kind :: "rstr \<Rightarrow> bool" where
  "is_allowed_heredoc_attachment_kind k \<longleftrightarrow>
     k \<in> {lit ''heredoc_body'', lit ''simple_heredoc_body'', lit ''heredoc_redirect'',
          lit ''herestring_redirect'', lit ''redirected_statement''}"

text \<open>What one named child of a command with a here-document adds to its words.\<close>

definition heredoc_words :: "rstr \<Rightarrow> node \<Rightarrow> rstr list option" where
  "heredoc_words src child =
     (if kind child = lit ''command_name'' then
        (case named_children child of
           [] \<Rightarrow> None
         | word_node # _ \<Rightarrow>
             (if kind word_node \<notin> {lit ''word'', lit ''number''} \<or>
                 \<not> is_literal_word_or_number word_node then None
              else map_option (\<lambda>w. [w]) (utf8_text src word_node)))
      else if kind child \<in> {lit ''word'', lit ''number''} then
        (if \<not> is_literal_word_or_number child then None
         else map_option (\<lambda>w. [w]) (utf8_text src child))
      else if kind child = lit ''comment'' then Some []
      else if is_allowed_heredoc_attachment_kind (kind child) then Some []
      else None)"

definition parse_heredoc_command_words :: "rstr \<Rightarrow> node \<Rightarrow> rstr list option" where
  "parse_heredoc_command_words src cmd =
     (if kind cmd \<noteq> lit ''command'' then None
      else (case those (map (heredoc_words src) (named_children cmd)) of
              None \<Rightarrow> None
            | Some ws \<Rightarrow> (if concat ws = [] then None else Some (concat ws))))"

section \<open>Walks over the tree\<close>

definition ALLOWED_KINDS :: "rstr list" where
  "ALLOWED_KINDS = map lit
     [''program'', ''list'', ''pipeline'', ''command'', ''command_name'', ''word'', ''string'',
      ''string_content'', ''raw_string'', ''number'', ''concatenation'']"

definition ALLOWED_PUNCT_TOKENS :: "rstr list" where
  "ALLOWED_PUNCT_TOKENS = map lit [''&&'', ''||'', '';'', ''|'', [CHR 34], [CHR 39]]"

definition node_rejected :: "node \<Rightarrow> bool" where
  "node_rejected n \<longleftrightarrow>
     (if is_named n then kind n \<notin> set ALLOWED_KINDS
      else (\<exists>c\<in>set (kind n). c \<in> set (lit ''&;|'')) \<and> kind n \<notin> set ALLOWED_PUNCT_TOKENS \<or>
           \<not> (kind n \<in> set ALLOWED_PUNCT_TOKENS \<or> trim (kind n) = []))"

lemma size_list_rev [simp]: "size_list f (rev xs) = size_list f xs"
  by (induction xs) simp_all

lemma size_list_filter: "size_list f (filter P xs) \<le> size_list f xs"
  by (induction xs) auto

text \<open>The stack is a list with its top first: the last child pushed is the next one popped.\<close>

function collect_commands :: "node list \<Rightarrow> node list \<Rightarrow> node list option" where
  "collect_commands [] command_nodes = Some command_nodes"
| "collect_commands (n # stack) command_nodes =
     (if node_rejected n then None
      else collect_commands (rev (children n) @ stack)
             (if is_named n \<and> kind n = lit ''command'' then command_nodes @ [n] else command_nodes))"
  by pat_completeness auto
termination
proof (relation "measure (\<lambda>(stack, _). size_list size stack)", goal_cases)
  case (2 n stack command_nodes)
  show ?case by (cases n) simp
qed simp

definition try_parse_word_only_commands_sequence :: "node \<Rightarrow> rstr \<Rightarrow> rstr list list option" where
  "try_parse_word_only_commands_sequence root src =
     (if has_error root then None
      else (case collect_commands [root] [] of
              None \<Rightarrow> None
            | Some command_nodes \<Rightarrow>
                those (map (parse_plain_command_from_node src) (sort_key start_byte command_nodes))))"

function find_single_command_loop :: "node list \<Rightarrow> node option \<Rightarrow> node option" where
  "find_single_command_loop [] single_command = single_command"
| "find_single_command_loop (n # stack) single_command =
     (if kind n = lit ''command'' then
        (if single_command \<noteq> None then None
         else find_single_command_loop (rev (named_children n) @ stack) (Some n))
      else find_single_command_loop (rev (named_children n) @ stack) single_command)"
  by pat_completeness auto
termination
proof (relation "measure (\<lambda>(stack, _). size_list size stack)", goal_cases)
  case (2 n stack single_command)
  show ?case using size_list_filter [of size is_named "children n"]
    by (cases n) (simp add: named_children_def)
next
  case (3 n stack single_command)
  show ?case using size_list_filter [of size is_named "children n"]
    by (cases n) (simp add: named_children_def)
qed simp

definition find_single_command_node :: "node \<Rightarrow> node option" where
  "find_single_command_node root = find_single_command_loop [root] None"

function has_kind_loop :: "node list \<Rightarrow> rstr \<Rightarrow> bool" where
  "has_kind_loop [] k = False"
| "has_kind_loop (current # stack) k =
     (if kind current = k then True
      else has_kind_loop (rev (named_children current) @ stack) k)"
  by pat_completeness auto
termination
proof (relation "measure (\<lambda>(stack, _). size_list size stack)", goal_cases)
  case (2 n stack k)
  show ?case using size_list_filter [of size is_named "children n"]
    by (cases n) (simp add: named_children_def)
qed simp

definition has_named_descendant_kind :: "node \<Rightarrow> rstr \<Rightarrow> bool" where
  "has_named_descendant_kind n k = has_kind_loop [n] k"

section \<open>Shell invocations\<close>

definition extract_bash_command :: "rstr list \<Rightarrow> (rstr \<times> rstr) option" where
  "extract_bash_command command =
     (case command of
        [shell, flag, script] \<Rightarrow>
          (if flag \<notin> {lit ''-lc'', lit ''-c''} \<or>
              detect_shell_type shell \<notin> {Some Zsh, Some Bash, Some Sh} then None
           else Some (shell, script))
      | _ \<Rightarrow> None)"

definition parse_shell_lc_plain_commands ::
    "(rstr \<Rightarrow> node option) \<Rightarrow> rstr list \<Rightarrow> rstr list list option" where
  "parse_shell_lc_plain_commands parse command =
     (case extract_bash_command command of
        None \<Rightarrow> None
      | Some (_, script) \<Rightarrow>
          (case parse script of
             None \<Rightarrow> None
           | Some root \<Rightarrow> try_parse_word_only_commands_sequence root script))"

definition parse_shell_lc_single_command_prefix ::
    "(rstr \<Rightarrow> node option) \<Rightarrow> rstr list \<Rightarrow> rstr list option" where
  "parse_shell_lc_single_command_prefix parse command =
     (case extract_bash_command command of
        None \<Rightarrow> None
      | Some (_, script) \<Rightarrow>
          (case parse script of
             None \<Rightarrow> None
           | Some root \<Rightarrow>
               (if has_error root then None
                else if \<not> has_named_descendant_kind root (lit ''heredoc_redirect'') then None
                else if has_named_descendant_kind root (lit ''file_redirect'') then None
                else (case find_single_command_node root of
                        None \<Rightarrow> None
                      | Some command_node \<Rightarrow> parse_heredoc_command_words script command_node))))"

section \<open>The walks visit every node\<close>

text \<open>The nodes of a tree in source order; the second function follows named children only.\<close>

fun nodes_of :: "node \<Rightarrow> node list" where
  "nodes_of (Node k m e i j cs) = Node k m e i j cs # concat (map nodes_of cs)"

function named_nodes :: "node \<Rightarrow> node list" where
  "named_nodes n = n # concat (map named_nodes (named_children n))"
  by pat_completeness auto
termination
proof (relation "measure size", goal_cases)
  case (2 n c)
  then have "c \<in> set (children n)" by (simp add: named_children_def)
  then show ?case by (cases n) (auto dest: size_list_estimation' [where f = size and y = "size c"])
qed simp

declare named_nodes.simps [simp del]

definition is_command :: "node \<Rightarrow> bool" where
  "is_command n \<longleftrightarrow> is_named n \<and> kind n = lit ''command''"

abbreviation forest_nodes :: "node list \<Rightarrow> node list" where
  "forest_nodes ns \<equiv> concat (map nodes_of ns)"

abbreviation forest_named :: "node list \<Rightarrow> node list" where
  "forest_named ns \<equiv> concat (map named_nodes ns)"

lemma nodes_of_unfold: "nodes_of n = n # forest_nodes (children n)"
  by (cases n) simp

lemma mset_concat_rev: "mset (concat (map f (rev xs))) = mset (concat (map f xs))"
  by (induction xs) auto

lemma collect_commands_None:
  "collect_commands stack acc = None \<longleftrightarrow> (\<exists>n\<in>set (forest_nodes stack). node_rejected n)"
proof (induction stack acc rule: collect_commands.induct)
  case (2 n stack acc)
  show ?case
  proof (cases "node_rejected n")
    case False
    then show ?thesis using 2 [OF False] by (simp add: nodes_of_unfold [of n] bex_Un)
  qed (simp add: nodes_of_unfold [of n])
qed simp

lemma collect_commands_Some:
  "collect_commands stack acc = Some res \<Longrightarrow>
   mset res = mset acc + mset (filter is_command (forest_nodes stack))"
proof (induction stack acc rule: collect_commands.induct)
  case (2 n stack acc)
  have ok: "\<not> node_rejected n" using "2.prems" by (cases "node_rejected n") simp_all
  have "mset (filter is_command (forest_nodes (rev (children n)))) =
        mset (filter is_command (forest_nodes (children n)))"
    by (simp only: mset_filter mset_concat_rev)
  then show ?case using "2.IH" [OF ok] "2.prems" ok
    by (simp add: nodes_of_unfold [of n] is_command_def ac_simps split: if_splits)
qed simp

lemma has_kind_loop_iff: "has_kind_loop stack k \<longleftrightarrow> (\<exists>n\<in>set (forest_named stack). kind n = k)"
proof (induction stack k rule: has_kind_loop.induct)
  case (2 n stack k)
  then show ?case by (cases "kind n = k") (simp_all add: named_nodes.simps [of n] bex_Un)
qed simp

lemma find_single_command_loop_iff:
  "find_single_command_loop stack acc = Some c \<longleftrightarrow>
   mset (case acc of None \<Rightarrow> [] | Some a \<Rightarrow> [a]) +
     mset (filter (\<lambda>n. kind n = lit ''command'') (forest_named stack)) = {#c#}"
proof (induction stack acc rule: find_single_command_loop.induct)
  case (1 acc)
  then show ?case by (cases acc) auto
next
  case (2 n stack acc)
  let ?P = "\<lambda>n. kind n = lit ''command''"
  have r: "mset (filter ?P (forest_named (rev (named_children n)))) =
        mset (filter ?P (forest_named (named_children n)))"
    by (simp only: mset_filter mset_concat_rev)
  show ?case
  proof (cases "kind n = lit ''command''")
    case True
    show ?thesis
    proof (cases acc)
      case None
      then show ?thesis using "2.IH"(1) True r by (simp add: named_nodes.simps [of n])
    next
      case (Some a)
      then show ?thesis using True by (simp add: named_nodes.simps [of n])
    qed
  next
    case False
    then show ?thesis using "2.IH"(2) r by (simp add: named_nodes.simps [of n])
  qed
qed

lemma has_named_descendant_kind_iff:
  "has_named_descendant_kind n k \<longleftrightarrow> (\<exists>m\<in>set (named_nodes n). kind m = k)"
  by (simp add: has_named_descendant_kind_def has_kind_loop_iff)

lemma find_single_command_node_iff:
  "find_single_command_node n = Some c \<longleftrightarrow>
   filter (\<lambda>m. kind m = lit ''command'') (named_nodes n) = [c]"
proof -
  have "find_single_command_node n = Some c \<longleftrightarrow>
        mset (filter (\<lambda>m. kind m = lit ''command'') (forest_named [n])) = {#c#}"
    unfolding find_single_command_node_def find_single_command_loop_iff
    by (simp only: option.case mset.simps add_0)
  then show ?thesis by (simp only: list.map concat.simps append_Nil2 mset_single_iff)
qed

declare collect_commands.simps [simp del]

lemma those_None_iff: "those xs = None \<longleftrightarrow> None \<in> set xs"
  by (induction xs) (auto split: option.splits)

lemma those_map_None_iff: "those (map f xs) = None \<longleftrightarrow> (\<exists>x\<in>set xs. f x = None)"
  unfolding those_None_iff set_map by (metis imageE image_eqI)

lemma those_Some: "those xs = Some ys \<Longrightarrow> xs = map Some ys"
  by (induction xs arbitrary: ys) (auto split: option.splits)

lemma word_only_collected:
  assumes "\<not> has_error root" "collect_commands [root] [] = Some res"
  shows "try_parse_word_only_commands_sequence root src =
           those (map (parse_plain_command_from_node src) (sort_key start_byte res))"
    and "mset (sort_key start_byte res) = mset (filter is_command (nodes_of root))"
    and "\<forall>n\<in>set (nodes_of root). \<not> node_rejected n"
  using assms collect_commands_Some [OF assms(2)] collect_commands_None [of "[root]" "[]"]
  by (simp_all add: try_parse_word_only_commands_sequence_def)

lemma word_only_None:
  assumes "try_parse_word_only_commands_sequence root src = None"
  shows "has_error root \<or>
         (\<exists>n\<in>set (nodes_of root).
            node_rejected n \<or> is_command n \<and> parse_plain_command_from_node src n = None)"
proof (cases "has_error root \<or> collect_commands [root] [] = None")
  case True
  then show ?thesis using collect_commands_None [of "[root]" "[]"] by auto
next
  case False
  then obtain res where res: "\<not> has_error root" "collect_commands [root] [] = Some res" by auto
  have "set (sort_key start_byte res) = set (filter is_command (nodes_of root))"
    using word_only_collected(2) [OF res] by (rule mset_eq_setD)
  then show ?thesis
    using assms unfolding word_only_collected(1) [OF res] those_map_None_iff by auto
qed

lemma word_only_Some:
  assumes "try_parse_word_only_commands_sequence root src = Some cmds"
  shows "\<not> has_error root \<and> (\<forall>n\<in>set (nodes_of root). \<not> node_rejected n) \<and>
     (\<exists>cs. mset cs = mset (filter is_command (nodes_of root)) \<and> sorted (map start_byte cs) \<and>
           map Some cmds = map (parse_plain_command_from_node src) cs)"
proof -
  obtain res where res: "\<not> has_error root" "collect_commands [root] [] = Some res"
    using assms by (auto simp: try_parse_word_only_commands_sequence_def split: if_splits option.splits)
  have "map Some cmds = map (parse_plain_command_from_node src) (sort_key start_byte res)"
    using assms unfolding word_only_collected(1) [OF res] by (rule those_Some [symmetric])
  then show ?thesis using word_only_collected(2,3) [OF res] res(1) sorted_sort_key by blast
qed

section \<open>Properties\<close>

text \<open>
  A script is split into plain commands exactly when its tree has no error,
  every node of the tree (the operators and quotes too) is of an allowed kind, and each
  command node consists of plain words; the result then has the words of every command
  node of the tree, once each, in the order of their positions in the script.
\<close>

theorem word_only_commands_sequence:
  "case try_parse_word_only_commands_sequence root src of
     None \<Rightarrow> has_error root \<or>
             (\<exists>n\<in>set (nodes_of root).
                node_rejected n \<or> is_command n \<and> parse_plain_command_from_node src n = None)
   | Some cmds \<Rightarrow> \<not> has_error root \<and> (\<forall>n\<in>set (nodes_of root). \<not> node_rejected n) \<and>
       (\<exists>cs. mset cs = mset (filter is_command (nodes_of root)) \<and> sorted (map start_byte cs) \<and>
             map Some cmds = map (parse_plain_command_from_node src) cs)"
proof (cases "try_parse_word_only_commands_sequence root src")
  case None
  then show ?thesis using word_only_None by simp
next
  case (Some cmds)
  then show ?thesis using word_only_Some by simp
qed

text \<open>The tree of \<^verbatim>\<open>ls|wc\<close>.\<close>

definition word_command :: "nat \<Rightarrow> nat \<Rightarrow> node" where
  "word_command i j =
     Node (lit ''command'') True False i j
       [Node (lit ''command_name'') True False i j [Node (lit ''word'') True False i j []]]"

definition pipe_tree :: node where
  "pipe_tree =
     Node (lit ''program'') True False 0 5
       [Node (lit ''pipeline'') True False 0 5
          [word_command 0 2, Node (lit ''|'') False False 2 3 [], word_command 3 5]]"

theorem word_only_commands_sequence_witness:
  "try_parse_word_only_commands_sequence pipe_tree (lit ''ls|wc'') = Some [[lit ''ls''], [lit ''wc'']] \<and>
   list_all (\<lambda>n. \<not> node_rejected n) (nodes_of pipe_tree)"
proof -
  have eq: "try_parse_word_only_commands_sequence pipe_tree (lit ''ls|wc'') =
        Some [[lit ''ls''], [lit ''wc'']]"
    by code_simp
  show ?thesis using word_only_commands_sequence [of pipe_tree "lit ''ls|wc''"] unfolding eq list_all_iff by simp
qed

text \<open>
  The here-document fallback gives the words of a command exactly for a
  three-word invocation of a POSIX-like shell whose script parses without error, has a
  here-document and no redirection to or from a file anywhere, and has one command node in
  all, each word of which is literal.
\<close>

theorem single_command_prefix_iff:
  "parse_shell_lc_single_command_prefix parse command = Some words \<longleftrightarrow>
   (\<exists>shell flag script root cmd.
      command = [shell, flag, script] \<and> flag \<in> {lit ''-lc'', lit ''-c''} \<and>
      detect_shell_type shell \<in> {Some Zsh, Some Bash, Some Sh} \<and>
      parse script = Some root \<and> \<not> has_error root \<and>
      lit ''heredoc_redirect'' \<in> kind ` set (named_nodes root) \<and>
      lit ''file_redirect'' \<notin> kind ` set (named_nodes root) \<and>
      filter (\<lambda>m. kind m = lit ''command'') (named_nodes root) = [cmd] \<and>
      parse_heredoc_command_words script cmd = Some words)"
proof -
  have kinds: "has_named_descendant_kind root k \<longleftrightarrow> k \<in> kind ` set (named_nodes root)" for root k
    by (auto simp: has_named_descendant_kind_iff)
  have shell: "extract_bash_command command = Some (shell, script) \<longleftrightarrow>
      (\<exists>flag. command = [shell, flag, script] \<and> flag \<in> {lit ''-lc'', lit ''-c''} \<and>
        detect_shell_type shell \<in> {Some Zsh, Some Bash, Some Sh})" for shell script
    unfolding extract_bash_command_def by (auto split: list.splits)
  define body where "body root script =
     (if has_error root then None
      else if \<not> has_named_descendant_kind root (lit ''heredoc_redirect'') then None
      else if has_named_descendant_kind root (lit ''file_redirect'') then None
      else case find_single_command_node root of None \<Rightarrow> None
           | Some n \<Rightarrow> parse_heredoc_command_words script n)" for root script
  have tree: "body root script = Some words \<longleftrightarrow>
     (\<exists>cmd. \<not> has_error root \<and> lit ''heredoc_redirect'' \<in> kind ` set (named_nodes root) \<and>
        lit ''file_redirect'' \<notin> kind ` set (named_nodes root) \<and>
        filter (\<lambda>m. kind m = lit ''command'') (named_nodes root) = [cmd] \<and>
        parse_heredoc_command_words script cmd = Some words)" for root script
    unfolding body_def kinds find_single_command_node_iff [symmetric] by (simp split: option.split)
  have "parse_shell_lc_single_command_prefix parse command = Some words \<longleftrightarrow>
    (\<exists>shell script root. extract_bash_command command = Some (shell, script) \<and>
       parse script = Some root \<and> body root script = Some words)"
    unfolding parse_shell_lc_single_command_prefix_def body_def [symmetric]
    by (cases "extract_bash_command command") (auto split: option.splits)
  then show ?thesis unfolding shell tree by blast
qed

end
