(* ===== verification/Command_Safety.thy ===== *)
theory Command_Safety
  imports Bash_Script
begin

text \<open>
  \<^verbatim>\<open>codex-rs/shell-command/src/command_safety\<close>: which commands run without asking
  (\<^verbatim>\<open>is_safe_command.rs\<close>, \<^verbatim>\<open>windows_safe_commands.rs\<close>) and which are flagged
  (\<^verbatim>\<open>is_dangerous_command.rs\<close>), for the Linux build. Two parameters stand for what is outside:
  \<open>parse\<close> builds the syntax tree of a script (tree-sitter), and \<open>ps\<close> gives the answer of the
  PowerShell process that \<^verbatim>\<open>parse_with_powershell_ast\<close> asks.
\<close>

section \<open>Dangerous commands and the git subcommand\<close>

definition is_git_global_option_with_value :: "rstr \<Rightarrow> bool" where
  "is_git_global_option_with_value arg \<longleftrightarrow>
     arg \<in> set (map lit [''-C'', ''-c'', ''--config-env'', ''--exec-path'', ''--git-dir'',
                         ''--namespace'', ''--super-prefix'', ''--work-tree''])"

definition is_git_global_option_with_inline_value :: "rstr \<Rightarrow> bool" where
  "is_git_global_option_with_inline_value arg \<longleftrightarrow>
     (starts_with arg (lit ''--config-env='') \<or> starts_with arg (lit ''--exec-path='') \<or>
      starts_with arg (lit ''--git-dir='') \<or> starts_with arg (lit ''--namespace='') \<or>
      starts_with arg (lit ''--super-prefix='') \<or> starts_with arg (lit ''--work-tree='')) \<or>
     (starts_with arg (lit ''-C'') \<or> starts_with arg (lit ''-c'')) \<and> utf8_len arg > 2"

definition executable_name_lookup_key :: "rstr \<Rightarrow> rstr option" where
  "executable_name_lookup_key raw = path_file_name raw"

text \<open>The loop of \<open>find_git_subcommand\<close>, at the word with index \<open>idx\<close>.\<close>

fun git_subcommand_loop :: "rstr list \<Rightarrow> bool \<Rightarrow> nat \<Rightarrow> rstr list \<Rightarrow> (nat \<times> rstr) option" where
  "git_subcommand_loop subcommands skip_next idx [] = None"
| "git_subcommand_loop subcommands skip_next idx (arg # rest) =
     (if skip_next then git_subcommand_loop subcommands False (idx + 1) rest
      else if is_git_global_option_with_inline_value arg then
        git_subcommand_loop subcommands False (idx + 1) rest
      else if is_git_global_option_with_value arg then
        git_subcommand_loop subcommands True (idx + 1) rest
      else if arg = lit ''--'' \<or> starts_with arg (lit ''-'') then
        git_subcommand_loop subcommands False (idx + 1) rest
      else if arg \<in> set subcommands then Some (idx, arg)
      else None)"

definition find_git_subcommand :: "rstr list \<Rightarrow> rstr list \<Rightarrow> (nat \<times> rstr) option" where
  "find_git_subcommand command subcommands =
     (case command of
        [] \<Rightarrow> None
      | cmd0 # args \<Rightarrow>
          (if executable_name_lookup_key cmd0 \<noteq> Some (lit ''git'') then None
           else git_subcommand_loop subcommands False 1 args))"

fun is_dangerous_to_call_with_exec :: "rstr list \<Rightarrow> bool" where
  "is_dangerous_to_call_with_exec [] = False"
| "is_dangerous_to_call_with_exec (cmd0 # rest) =
     (if cmd0 = lit ''rm'' then
        (case rest of [] \<Rightarrow> False | a # _ \<Rightarrow> a = lit ''-f'' \<or> a = lit ''-rf'')
      else if cmd0 = lit ''sudo'' then is_dangerous_to_call_with_exec rest
      else False)"

definition command_might_be_dangerous :: "(rstr \<Rightarrow> node option) \<Rightarrow> rstr list \<Rightarrow> bool" where
  "command_might_be_dangerous parse command \<longleftrightarrow>
     (if is_dangerous_to_call_with_exec command then True
      else (case parse_shell_lc_plain_commands parse command of
              None \<Rightarrow> False
            | Some all_commands \<Rightarrow> (\<exists>cmd\<in>set all_commands. is_dangerous_to_call_with_exec cmd)))"

section \<open>Safe git commands\<close>

datatype git_option_pattern = Exact rstr | ShortWithInlineValue rstr | Prefix rstr

definition UNSAFE_GIT_GLOBAL_OPTIONS :: "git_option_pattern list" where
  "UNSAFE_GIT_GLOBAL_OPTIONS =
     [Exact (lit ''-C''), ShortWithInlineValue (lit ''-C''),
      Exact (lit ''-c''), ShortWithInlineValue (lit ''-c''),
      Exact (lit ''-p''),
      Exact (lit ''--config-env''), Prefix (lit ''--config-env=''),
      Exact (lit ''--exec-path''), Prefix (lit ''--exec-path=''),
      Exact (lit ''--git-dir''), Prefix (lit ''--git-dir=''),
      Exact (lit ''--namespace''), Prefix (lit ''--namespace=''),
      Exact (lit ''--paginate''),
      Exact (lit ''--super-prefix''), Prefix (lit ''--super-prefix=''),
      Exact (lit ''--work-tree''), Prefix (lit ''--work-tree='')]"

definition UNSAFE_GIT_SUBCOMMAND_OPTIONS :: "git_option_pattern list" where
  "UNSAFE_GIT_SUBCOMMAND_OPTIONS =
     [Exact (lit ''--output''), Prefix (lit ''--output=''), Exact (lit ''--ext-diff''),
      Exact (lit ''--textconv''), Exact (lit ''--exec''), Prefix (lit ''--exec='')]"

fun pattern_matches :: "git_option_pattern \<Rightarrow> rstr \<Rightarrow> bool" where
  "pattern_matches (Exact opt) arg \<longleftrightarrow> arg = opt"
| "pattern_matches (ShortWithInlineValue opt) arg \<longleftrightarrow> starts_with arg opt \<and> utf8_len arg > utf8_len opt"
| "pattern_matches (Prefix pre) arg \<longleftrightarrow> starts_with arg pre"

definition git_matches_option_pattern :: "rstr \<Rightarrow> git_option_pattern list \<Rightarrow> bool" where
  "git_matches_option_pattern arg patterns \<longleftrightarrow> (\<exists>p\<in>set patterns. pattern_matches p arg)"

definition git_has_unsafe_global_option :: "rstr list \<Rightarrow> bool" where
  "git_has_unsafe_global_option global_args \<longleftrightarrow>
     (\<exists>arg\<in>set global_args. git_matches_option_pattern arg UNSAFE_GIT_GLOBAL_OPTIONS)"

definition git_subcommand_args_are_read_only :: "rstr list \<Rightarrow> bool" where
  "git_subcommand_args_are_read_only args \<longleftrightarrow>
     \<not> (\<exists>arg\<in>set args. git_matches_option_pattern arg UNSAFE_GIT_SUBCOMMAND_OPTIONS)"

definition read_only_branch_flag :: "rstr \<Rightarrow> bool" where
  "read_only_branch_flag arg \<longleftrightarrow>
     arg \<in> set (map lit [''--list'', ''-l'', ''--show-current'', ''-a'', ''--all'', ''-r'',
                         ''--remotes'', ''-v'', ''-vv'', ''--verbose'']) \<or>
     starts_with arg (lit ''--format='')"

fun branch_flags_loop :: "bool \<Rightarrow> rstr list \<Rightarrow> bool" where
  "branch_flags_loop saw_read_only_flag [] = saw_read_only_flag"
| "branch_flags_loop saw_read_only_flag (arg # rest) =
     (if read_only_branch_flag arg then branch_flags_loop True rest else False)"

definition git_branch_is_read_only :: "rstr list \<Rightarrow> bool" where
  "git_branch_is_read_only branch_args \<longleftrightarrow>
     (if branch_args = [] then True else branch_flags_loop False branch_args)"

definition is_safe_git_command :: "rstr list \<Rightarrow> bool" where
  "is_safe_git_command command \<longleftrightarrow>
     (case find_git_subcommand command (map lit [''status'', ''log'', ''diff'', ''show'', ''branch'']) of
        None \<Rightarrow> False
      | Some (subcommand_idx, subcommand) \<Rightarrow>
          (let global_args = drop 1 (take subcommand_idx command);
               subcommand_args = drop (subcommand_idx + 1) command
           in if git_has_unsafe_global_option global_args then False
              else if subcommand \<in> set (map lit [''status'', ''log'', ''diff'', ''show'']) then
                git_subcommand_args_are_read_only subcommand_args
              else if subcommand = lit ''branch'' then
                git_subcommand_args_are_read_only subcommand_args \<and>
                git_branch_is_read_only subcommand_args
              else False))"

section \<open>Safe commands\<close>

text \<open>The argument of \<^verbatim>\<open>sed -n\<close>.\<close>

definition is_valid_sed_n_arg :: "rstr option \<Rightarrow> bool" where
  "is_valid_sed_n_arg arg \<longleftrightarrow>
     (case arg of
        None \<Rightarrow> False
      | Some s \<Rightarrow>
          (case strip_suffix (lit ''p'') s of
             None \<Rightarrow> False
           | Some core \<Rightarrow>
               (case split_on 44 core of
                  [num] \<Rightarrow> all_digits num
                | [a, b] \<Rightarrow> all_digits a \<and> all_digits b
                | _ \<Rightarrow> False)))"

definition SAFE_EXECUTABLES :: "rstr list" where
  "SAFE_EXECUTABLES = map lit
     [''cat'', ''cd'', ''cut'', ''echo'', ''expr'', ''false'', ''grep'', ''head'', ''id'', ''ls'',
      ''nl'', ''paste'', ''pwd'', ''rev'', ''seq'', ''stat'', ''tail'', ''tr'', ''true'',
      ''uname'', ''uniq'', ''wc'', ''which'', ''whoami'']"

definition unsafe_base64_arg :: "rstr \<Rightarrow> bool" where
  "unsafe_base64_arg arg \<longleftrightarrow>
     arg \<in> {lit ''-o'', lit ''--output''} \<or> starts_with arg (lit ''--output='') \<or>
     (starts_with arg (lit ''-o'') \<and> arg \<noteq> lit ''-o'')"

definition UNSAFE_FIND_OPTIONS :: "rstr list" where
  "UNSAFE_FIND_OPTIONS = map lit
     [''-exec'', ''-execdir'', ''-ok'', ''-okdir'', ''-delete'', ''-fls'', ''-fprint'',
      ''-fprint0'', ''-fprintf'']"

definition unsafe_ripgrep_arg :: "rstr \<Rightarrow> bool" where
  "unsafe_ripgrep_arg arg \<longleftrightarrow>
     arg \<in> set (map lit [''--search-zip'', ''-z'']) \<or>
     (\<exists>opt\<in>set (map lit [''--pre'', ''--hostname-bin'']). arg = opt \<or> starts_with arg (opt @ lit ''=''))"

definition nth_opt :: "'a list \<Rightarrow> nat \<Rightarrow> 'a option" where
  "nth_opt xs i = (if i < length xs then Some (xs ! i) else None)"

definition is_safe_to_call_with_exec :: "rstr list \<Rightarrow> bool" where
  "is_safe_to_call_with_exec command \<longleftrightarrow>
     (case command of
        [] \<Rightarrow> False
      | cmd0 # args \<Rightarrow>
          (case executable_name_lookup_key cmd0 of
             None \<Rightarrow> False
           | Some cmd \<Rightarrow>
               (if cmd \<in> {lit ''numfmt'', lit ''tac''} then True
                else if cmd \<in> set SAFE_EXECUTABLES then True
                else if cmd = lit ''base64'' then \<not> (\<exists>arg\<in>set args. unsafe_base64_arg arg)
                else if cmd = lit ''find'' then
                  \<not> (\<exists>arg\<in>set command. arg \<in> set UNSAFE_FIND_OPTIONS)
                else if cmd = lit ''rg'' then \<not> (\<exists>arg\<in>set command. unsafe_ripgrep_arg arg)
                else if cmd = lit ''git'' then is_safe_git_command command
                else if cmd = lit ''sed'' \<and> length command \<le> 4 \<and>
                        nth_opt command 1 = Some (lit ''-n'') \<and>
                        is_valid_sed_n_arg (nth_opt command 2) then True
                else False)))"

section \<open>PowerShell invocations\<close>

datatype powershell_parse_outcome = Commands "rstr list list" | Unsupported | Failed

type_synonym powershell = "rstr \<Rightarrow> rstr \<Rightarrow> powershell_parse_outcome"

definition parse_powershell_script :: "powershell \<Rightarrow> rstr \<Rightarrow> rstr \<Rightarrow> rstr list list option" where
  "parse_powershell_script ps executable script =
     (case ps executable script of Commands commands \<Rightarrow> Some commands | _ \<Rightarrow> None)"

definition is_powershell_executable :: "rstr \<Rightarrow> bool" where
  "is_powershell_executable exe \<longleftrightarrow>
     to_ascii_lowercase (case path_file_name exe of None \<Rightarrow> exe | Some q \<Rightarrow> q)
       \<in> set (map lit [''powershell'', ''powershell.exe'', ''pwsh'', ''pwsh.exe''])"

definition quote_argument :: "rstr \<Rightarrow> rstr" where
  "quote_argument arg =
     (if arg = [] then [39, 39]
      else if list_all (\<lambda>ch. \<not> is_whitespace ch) arg then arg
      else [39] @ concat (map (\<lambda>c. if c = 39 then [39, 39] else [c]) arg) @ [39])"

definition join_arguments_as_script :: "rstr list \<Rightarrow> rstr" where
  "join_arguments_as_script args =
     str_join (lit '' '') (case args of [] \<Rightarrow> [] | w # rest \<Rightarrow> w # map quote_argument rest)"

definition BENIGN_POWERSHELL_FLAGS :: "rstr list" where
  "BENIGN_POWERSHELL_FLAGS = map lit [''-nologo'', ''-noprofile'', ''-noninteractive'', ''-mta'', ''-sta'']"

fun powershell_args_loop :: "powershell \<Rightarrow> rstr \<Rightarrow> rstr list \<Rightarrow> rstr list list option" where
  "powershell_args_loop ps executable [] = None"
| "powershell_args_loop ps executable (arg # rest) =
     (let lower = to_ascii_lowercase arg in
      if lower \<in> {lit ''-command'', lit ''/command'', lit ''-c''} then
        (case rest of
           [] \<Rightarrow> None
         | script # extra \<Rightarrow> (if extra \<noteq> [] then None else parse_powershell_script ps executable script))
      else if starts_with lower (lit ''-command:'') \<or> starts_with lower (lit ''/command:'') then
        (if rest \<noteq> [] then None
         else (case split_once 58 arg of
                 None \<Rightarrow> None
               | Some (_, script) \<Rightarrow> parse_powershell_script ps executable script))
      else if lower \<in> set BENIGN_POWERSHELL_FLAGS then powershell_args_loop ps executable rest
      else if lower \<in> set (map lit [''-encodedcommand'', ''-ec'', ''-file'', ''/file'', ''-windowstyle'',
                                    ''-executionpolicy'', ''-workingdirectory'']) then None
      else if starts_with lower (lit ''-'') then None
      else parse_powershell_script ps executable (join_arguments_as_script (arg # rest)))"

definition parse_powershell_invocation :: "powershell \<Rightarrow> rstr \<Rightarrow> rstr list \<Rightarrow> rstr list list option" where
  "parse_powershell_invocation ps executable args =
     (if args = [] then None else powershell_args_loop ps executable args)"

definition try_parse_powershell_command_sequence ::
    "powershell \<Rightarrow> rstr list \<Rightarrow> rstr list list option" where
  "try_parse_powershell_command_sequence ps command =
     (case command of
        [] \<Rightarrow> None
      | exe # rest \<Rightarrow>
          (if is_powershell_executable exe then parse_powershell_invocation ps exe rest else None))"

definition UNSAFE_CMDLETS :: "rstr list" where
  "UNSAFE_CMDLETS = map lit
     [''set-content'', ''add-content'', ''out-file'', ''new-item'', ''remove-item'', ''move-item'',
      ''copy-item'', ''rename-item'', ''start-process'', ''stop-process'']"

definition trim_matches :: "(uchar \<Rightarrow> bool) \<Rightarrow> rstr \<Rightarrow> rstr" where
  "trim_matches P s = rev (dropWhile P (rev (dropWhile P s)))"

definition cmdlet_name :: "rstr \<Rightarrow> rstr" where
  "cmdlet_name w =
     to_ascii_lowercase (dropWhile (\<lambda>c. c = 45) (trim_matches (\<lambda>c. c = 40 \<or> c = 41) w))"

definition SAFE_CMDLETS :: "rstr list" where
  "SAFE_CMDLETS = map lit
     [''echo'', ''write-output'', ''write-host'', ''dir'', ''ls'', ''get-childitem'', ''gci'', ''cat'',
      ''type'', ''gc'', ''get-content'', ''select-string'', ''sls'', ''findstr'', ''measure-object'',
      ''measure'', ''get-location'', ''gl'', ''pwd'', ''test-path'', ''tp'', ''resolve-path'', ''rvpa'',
      ''select-object'', ''select'', ''get-item'']"

definition is_safe_ripgrep :: "rstr list \<Rightarrow> bool" where
  "is_safe_ripgrep words \<longleftrightarrow>
     \<not> (\<exists>arg\<in>set (drop 1 words).
          let arg_lc = to_ascii_lowercase arg in
          arg_lc \<in> set (map lit [''--search-zip'', ''-z'']) \<or>
          (\<exists>opt\<in>set (map lit [''--pre'', ''--hostname-bin'']).
             arg_lc = opt \<or> starts_with arg_lc (opt @ lit ''='')))"

definition is_safe_powershell_words_windows :: "rstr list \<Rightarrow> bool" where
  "is_safe_powershell_words_windows words \<longleftrightarrow>
     (case words of
        [] \<Rightarrow> False
      | w # _ \<Rightarrow>
          (if \<exists>v\<in>set words. cmdlet_name v \<in> set UNSAFE_CMDLETS then False
           else let command = cmdlet_name w in
             if command \<in> set SAFE_CMDLETS then True
             else if command = lit ''git'' then is_safe_git_command words
             else if command = lit ''rg'' then is_safe_ripgrep words
             else False))"

definition is_safe_command_windows :: "powershell \<Rightarrow> rstr list \<Rightarrow> bool" where
  "is_safe_command_windows ps command \<longleftrightarrow>
     (case try_parse_powershell_command_sequence ps command of
        None \<Rightarrow> False
      | Some commands \<Rightarrow> list_all is_safe_powershell_words_windows commands)"

section \<open>Approval without asking\<close>

definition is_known_safe_command :: "(rstr \<Rightarrow> node option) \<Rightarrow> powershell \<Rightarrow> rstr list \<Rightarrow> bool" where
  "is_known_safe_command parse ps command0 \<longleftrightarrow>
     (let command = map (\<lambda>s. if s = lit ''zsh'' then lit ''bash'' else s) command0 in
      if is_safe_command_windows ps command then True
      else if is_safe_to_call_with_exec command then True
      else (case parse_shell_lc_plain_commands parse command of
              None \<Rightarrow> False
            | Some all_commands \<Rightarrow>
                all_commands \<noteq> [] \<and> list_all is_safe_to_call_with_exec all_commands))"

end
