(* ===== verification/Command_Safety_Correct.thy ===== *)
theory Command_Safety_Correct
  imports Command_Safety
begin

text \<open>
  What the safe list of commands guarantees: the shape of the accepted git and sed commands,
  that no accepted command is one flagged as dangerous, and what an accepted script can
  contain.
\<close>

section \<open>git\<close>

definition git_global_flag :: "rstr \<Rightarrow> bool" where
  "git_global_flag a \<longleftrightarrow>
     starts_with a (lit ''-'') \<and> \<not> git_matches_option_pattern a UNSAFE_GIT_GLOBAL_OPTIONS"

lemma with_value_unsafe:
  "is_git_global_option_with_value a \<Longrightarrow> git_matches_option_pattern a UNSAFE_GIT_GLOBAL_OPTIONS"
  unfolding is_git_global_option_with_value_def git_matches_option_pattern_def
    UNSAFE_GIT_GLOBAL_OPTIONS_def by auto

lemma inline_value_unsafe:
  "is_git_global_option_with_inline_value a \<Longrightarrow> git_matches_option_pattern a UNSAFE_GIT_GLOBAL_OPTIONS"
  unfolding is_git_global_option_with_inline_value_def git_matches_option_pattern_def
    UNSAFE_GIT_GLOBAL_OPTIONS_def by (auto simp: utf8_len_def len_utf8_def)

text \<open>
  The scan with options that take a value in the way, and the plain one: the words before the
  subcommand are all safe flags, or one of them is unsafe.
\<close>

lemma git_loop_flags:
  "\<forall>a\<in>set pre. git_global_flag a \<Longrightarrow> \<not> starts_with sub (lit ''-'') \<Longrightarrow>
   \<not> is_git_global_option_with_inline_value sub \<Longrightarrow> \<not> is_git_global_option_with_value sub \<Longrightarrow>
   sub \<in> set subs \<Longrightarrow>
   git_subcommand_loop subs False i (pre @ sub # post) = Some (i + length pre, sub)"
proof (induction pre arbitrary: i)
  case Nil
  then show ?case by (auto simp: starts_with_def)
next
  case (Cons a pre)
  have a: "starts_with a (lit ''-'')" "\<not> git_matches_option_pattern a UNSAFE_GIT_GLOBAL_OPTIONS"
    using Cons.prems(1) by (simp_all add: git_global_flag_def)
  then have "\<not> is_git_global_option_with_inline_value a" "\<not> is_git_global_option_with_value a"
    using with_value_unsafe inline_value_unsafe by blast+
  then have "git_subcommand_loop subs False i ((a # pre) @ sub # post) =
             git_subcommand_loop subs False (i + 1) (pre @ sub # post)"
    using a(1) by simp
  then show ?case using Cons.IH [of "i + 1"] Cons.prems by simp
qed

lemma git_loop_Some:
  assumes "git_subcommand_loop subs skip i args = Some (j, sub)"
  shows "\<exists>pre post. args = pre @ sub # post \<and> j = i + length pre \<and> sub \<in> set subs \<and>
           \<not> starts_with sub (lit ''-'') \<and>
           (\<not> skip \<longrightarrow> git_has_unsafe_global_option pre \<or> (\<forall>a\<in>set pre. git_global_flag a))"
  using assms
proof (induction subs skip i args rule: git_subcommand_loop.induct)
  case (2 subs skip i arg rest)
  let ?unsafe = "git_matches_option_pattern arg UNSAFE_GIT_GLOBAL_OPTIONS"
  have step: ?case if s: "git_subcommand_loop subs skip' (i + 1) rest = Some (j, sub)"
    and ih: "git_subcommand_loop subs skip' (i + 1) rest = Some (j, sub) \<Longrightarrow>
      \<exists>pre post. rest = pre @ sub # post \<and> j = i + 1 + length pre \<and> sub \<in> set subs \<and>
           \<not> starts_with sub (lit ''-'') \<and>
           (\<not> skip' \<longrightarrow> git_has_unsafe_global_option pre \<or> (\<forall>a\<in>set pre. git_global_flag a))"
    and c: "skip \<or> ?unsafe \<or> (\<not> skip' \<and> starts_with arg (lit ''-''))" for skip'
  proof -
    obtain pre post where p: "rest = pre @ sub # post" "j = i + 1 + length pre" "sub \<in> set subs"
      "\<not> starts_with sub (lit ''-'')"
      "\<not> skip' \<longrightarrow> git_has_unsafe_global_option pre \<or> (\<forall>a\<in>set pre. git_global_flag a)"
      using ih [OF s] by blast
    have "\<not> skip \<longrightarrow> git_has_unsafe_global_option (arg # pre) \<or> (\<forall>a\<in>set (arg # pre). git_global_flag a)"
      using c p(5) by (auto simp: git_has_unsafe_global_option_def git_global_flag_def)
    then show ?thesis using p by (intro exI [of _ "arg # pre"] exI [of _ post]) simp
  qed
  show ?case
  proof (cases skip)
    case True
    then show ?thesis using "2.prems" "2.IH"(1) by (intro step [of False]) simp_all
  next
    case s: False
    consider (inline) "is_git_global_option_with_inline_value arg"
      | (val) "\<not> is_git_global_option_with_inline_value arg" "is_git_global_option_with_value arg"
      | (flag) "\<not> is_git_global_option_with_inline_value arg" "\<not> is_git_global_option_with_value arg"
          "arg = lit ''--'' \<or> starts_with arg (lit ''-'')"
      | (other) "\<not> is_git_global_option_with_inline_value arg" "\<not> is_git_global_option_with_value arg"
          "\<not> (arg = lit ''--'' \<or> starts_with arg (lit ''-''))"
      by blast
    then show ?thesis
    proof cases
      case inline
      then show ?thesis using "2.prems" "2.IH"(2) s inline_value_unsafe
        by (intro step [of False]) simp_all
    next
      case val
      then show ?thesis using "2.prems" "2.IH"(3) s with_value_unsafe
        by (intro step [of True]) simp_all
    next
      case flag
      have "starts_with arg (lit ''-'')" using flag(3) by (auto simp: starts_with_def)
      then show ?thesis using "2.prems" "2.IH"(4) s flag by (intro step [of False]) simp_all
    next
      case other
      then have "j = i" "sub = arg" "arg \<in> set subs"
        using "2.prems" s by (simp_all split: if_splits)
      then show ?thesis using other by (intro exI [of _ "[]"] exI [of _ rest]) simp
    qed
  qed
qed simp

lemma branch_flags_loop_iff:
  "branch_flags_loop saw args \<longleftrightarrow> (saw \<or> args \<noteq> []) \<and> list_all read_only_branch_flag args"
  by (induction saw args rule: branch_flags_loop.induct) auto

lemma git_branch_is_read_only_iff: "git_branch_is_read_only args \<longleftrightarrow> list_all read_only_branch_flag args"
  by (auto simp: git_branch_is_read_only_def branch_flags_loop_iff)

abbreviation read_subcommands :: "rstr list" where
  "read_subcommands \<equiv> map lit [''status'', ''log'', ''diff'', ''show'', ''branch'']"

lemma read_subcommand_plain:
  "sub \<in> set read_subcommands \<Longrightarrow>
   \<not> starts_with sub (lit ''-'') \<and> \<not> is_git_global_option_with_inline_value sub \<and>
   \<not> is_git_global_option_with_value sub"
  by (auto simp: starts_with_def is_git_global_option_with_inline_value_def
      is_git_global_option_with_value_def)

definition safe_git_args :: "rstr \<Rightarrow> rstr list \<Rightarrow> bool" where
  "safe_git_args sub args \<longleftrightarrow>
     git_subcommand_args_are_read_only args \<and>
     (sub = lit ''branch'' \<longrightarrow> list_all read_only_branch_flag args)"

lemma safe_git_split:
  assumes "find_git_subcommand (c0 # pre @ sub # post) read_subcommands = Some (1 + length pre, sub)"
    and "sub \<in> set read_subcommands"
  shows "is_safe_git_command (c0 # pre @ sub # post) \<longleftrightarrow>
         \<not> git_has_unsafe_global_option pre \<and> safe_git_args sub post"
proof -
  have "sub \<in> set (map lit [''status'', ''log'', ''diff'', ''show'']) \<or> sub = lit ''branch''"
    using assms(2) by auto
  moreover have "lit ''branch'' \<notin> set (map lit [''status'', ''log'', ''diff'', ''show''])" by simp
  ultimately show ?thesis
    unfolding is_safe_git_command_def assms(1) option.case prod.case Let_def safe_git_args_def
    by (auto simp: git_branch_is_read_only_iff simp del: lit_Cons list.map)
qed

section \<open>sed\<close>

lemma all_digits_no_comma: "all_digits a \<Longrightarrow> 44 \<notin> set a"
  by (auto simp: all_digits_def list_all_iff is_ascii_digit_def)

lemma split_comma_iff:
  "(case split_on 44 core of [num] \<Rightarrow> all_digits num | [a, b] \<Rightarrow> all_digits a \<and> all_digits b | _ \<Rightarrow> False) \<longleftrightarrow>
   all_digits core \<or> (\<exists>a b. core = a @ 44 # b \<and> all_digits a \<and> all_digits b)" (is "?L \<longleftrightarrow> ?R")
proof
  assume L: ?L
  consider (one) num where "split_on 44 core = [num]" "all_digits num"
    | (two) a b where "split_on 44 core = [a, b]" "all_digits a" "all_digits b"
    using L by (auto split: list.splits)
  then show ?R
  proof cases
    case one
    then show ?thesis using join_split_on [of 44 core] by simp
  next
    case two
    then have "core = a @ 44 # b" using join_split_on [of 44 core] by simp
    then show ?thesis using two by blast
  qed
next
  assume ?R
  then show ?L
  proof
    assume "all_digits core"
    then show ?L by (simp add: split_on_no_sep all_digits_no_comma)
  next
    assume "\<exists>a b. core = a @ 44 # b \<and> all_digits a \<and> all_digits b"
    then obtain a b where ab: "core = a @ 44 # b" "all_digits a" "all_digits b" by blast
    then have "split_on 44 core = [a, b]"
      by (simp add: split_on_append_sep split_on_no_sep all_digits_no_comma)
    then show ?L using ab by simp
  qed
qed

section \<open>Shells are not on the list\<close>

lemma no_stem_change:
  assumes "path_file_name p = Some q" "DOT \<notin> set q"
  shows "path_file_stem p = Some q"
proof -
  have "rsplit_once DOT q = None"
    using assms(2) rsplit_once_Some [of DOT q] by (cases "rsplit_once DOT q") auto
  then show ?thesis using assms(1) by (simp add: path_file_stem_def)
qed

definition shell_names :: "rstr list" where
  "shell_names = map lit [''zsh'', ''sh'', ''cmd'', ''bash'', ''pwsh'', ''powershell'']"

lemma file_name_plain: "q \<noteq> [] \<Longrightarrow> DOT \<notin> set q \<Longrightarrow> SLASH \<notin> set q \<Longrightarrow> components q = [Normal q]"
  by (cases q) (auto simp: components_def split_on_no_sep body_components_def trivial_piece_def
      piece_component_def)

lemma detect_other:
  "p \<notin> set shell_names \<Longrightarrow>
   detect_shell_type p = (case path_file_stem p of None \<Rightarrow> None
     | Some n \<Rightarrow> (if components n \<noteq> components p then detect_shell_type n else None))"
  by (subst detect_shell_type.simps) (auto simp: shell_names_def split: option.split)

lemma shell_name_file_name: "p \<in> set shell_names \<Longrightarrow> path_file_name p = Some p"
  using file_name_plain [of p] by (auto simp: shell_names_def path_file_name_def)

lemma file_name_chars: "path_file_name p = Some q \<Longrightarrow> q \<noteq> [] \<and> SLASH \<notin> set q"
  using components_plain [OF file_name_component [of p q]] by (simp add: plain_component_def plain_name_def)

lemma detect_plain_other:
  assumes "q \<noteq> []" "DOT \<notin> set q" "SLASH \<notin> set q" "q \<notin> set shell_names"
  shows "detect_shell_type q = None"
proof -
  have "path_file_name q = Some q" using file_name_plain assms by (simp add: path_file_name_def)
  then have "path_file_stem q = Some q" using assms by (simp add: no_stem_change)
  then show ?thesis using assms by (simp add: detect_other)
qed

lemma detect_not_shell:
  assumes "path_file_name p = Some q" "DOT \<notin> set q" "q \<notin> set shell_names"
  shows "detect_shell_type p = None"
proof -
  have "p \<notin> set shell_names" using assms shell_name_file_name [of p] by auto
  moreover have "detect_shell_type q = None"
    using assms file_name_chars by (blast intro: detect_plain_other)
  ultimately show ?thesis using assms by (simp add: detect_other no_stem_change)
qed

lemma lower_dot_iff: "to_ascii_lower c = DOT \<longleftrightarrow> c = DOT"
  by (auto simp: to_ascii_lower_def)

lemma lower_slash_iff: "to_ascii_lower c = SLASH \<longleftrightarrow> c = SLASH"
  by (auto simp: to_ascii_lower_def)

lemma in_lowercase_iff: "(\<And>c. to_ascii_lower c = d \<longleftrightarrow> c = d) \<Longrightarrow> d \<in> set (to_ascii_lowercase s) \<longleftrightarrow> d \<in> set s"
  unfolding to_ascii_lowercase_def set_map image_iff by metis

lemma split_once_map:
  "(\<And>c. f c = d \<longleftrightarrow> c = d) \<Longrightarrow>
   split_once d (map f s) = map_option (\<lambda>(a, b). (map f a, map f b)) (split_once d s)"
  by (induction s) (auto simp: option.map_comp comp_def split_def intro: option.map_cong0)

lemma rsplit_once_lowercase:
  "rsplit_once DOT (to_ascii_lowercase s) =
   map_option (\<lambda>(a, b). (to_ascii_lowercase a, to_ascii_lowercase b)) (rsplit_once DOT s)"
  by (simp add: rsplit_once_def to_ascii_lowercase_def rev_map split_once_map lower_dot_iff
      option.map_comp comp_def split_def)

abbreviation powershell_stems :: "rstr list" where
  "powershell_stems \<equiv> map lit [''powershell'', ''pwsh'']"

lemma detect_powershell_stem:
  assumes "to_ascii_lowercase n \<in> set powershell_stems"
  shows "detect_shell_type n \<in> {None, Some PowerShell}"
proof -
  have l: "to_ascii_lowercase n \<noteq> []" "DOT \<notin> set (to_ascii_lowercase n)"
    "SLASH \<notin> set (to_ascii_lowercase n)"
    using assms by auto
  then have n: "n \<noteq> []" "DOT \<notin> set n" "SLASH \<notin> set n"
    unfolding in_lowercase_iff [of DOT n, OF lower_dot_iff] in_lowercase_iff [of SLASH n, OF lower_slash_iff]
    by (simp_all add: to_ascii_lowercase_def)
  show ?thesis
  proof (cases "n \<in> set shell_names")
    case True
    then have "n \<in> set powershell_stems"
      using assms by (auto simp: shell_names_def to_ascii_lowercase_def to_ascii_lower_def)
    then show ?thesis by (subst detect_shell_type.simps) auto
  next
    case False
    then show ?thesis using n by (simp add: detect_plain_other)
  qed
qed

lemma lower_stem:
  assumes "to_ascii_lowercase q \<in> set (map lit [''powershell'', ''powershell.exe'', ''pwsh'', ''pwsh.exe''])"
    and "path_file_name p = Some q" "path_file_stem p = Some n"
  shows "to_ascii_lowercase n \<in> set powershell_stems"
proof (cases "rsplit_once DOT q")
  case None
  then have "n = q" "rsplit_once DOT (to_ascii_lowercase q) = None"
    using assms(2,3) by (simp_all add: path_file_stem_def rsplit_once_lowercase)
  then show ?thesis using assms(1) by (auto simp: rsplit_once_def)
next
  case (Some ab)
  then obtain a b where ab: "rsplit_once DOT q = Some (a, b)" by (cases ab) auto
  then have r: "rsplit_once DOT (to_ascii_lowercase q) = Some (to_ascii_lowercase a, to_ascii_lowercase b)"
    by (simp add: rsplit_once_lowercase)
  then have la: "to_ascii_lowercase a \<in> set powershell_stems"
    using assms(1) by (auto simp: rsplit_once_def)
  then have "a \<noteq> []" by (auto simp: to_ascii_lowercase_def)
  then have "n = a" using ab assms(2,3) by (simp add: path_file_stem_def)
  then show ?thesis using la by simp
qed

lemma detect_powershell:
  assumes "is_powershell_executable exe"
  shows "detect_shell_type exe \<in> {None, Some PowerShell}"
proof (cases "exe \<in> set shell_names")
  case True
  then have "to_ascii_lowercase exe \<in> set powershell_stems"
    using assms shell_name_file_name [OF True]
    by (auto simp: is_powershell_executable_def shell_names_def to_ascii_lowercase_def to_ascii_lower_def)
  then show ?thesis by (rule detect_powershell_stem)
next
  case False
  show ?thesis
  proof (cases "path_file_stem exe")
    case None
    then show ?thesis using False by (simp add: detect_other)
  next
    case (Some n)
    then obtain q where "path_file_name exe = Some q"
      by (auto simp: path_file_stem_def split: option.splits)
    then have "to_ascii_lowercase n \<in> set powershell_stems"
      using assms Some unfolding is_powershell_executable_def by (simp only: option.case lower_stem)
    then have "detect_shell_type n \<in> {None, Some PowerShell}" by (rule detect_powershell_stem)
    then show ?thesis using False Some by (simp add: detect_other)
  qed
qed

section \<open>Safe and dangerous commands\<close>

lemma safe_exec_name:
  assumes "is_safe_to_call_with_exec (c0 # args)"
  shows "\<exists>q. path_file_name c0 = Some q \<and> DOT \<notin> set q \<and> q \<notin> set shell_names \<and> q \<noteq> lit ''rm'' \<and> q \<noteq> lit ''sudo''"
proof -
  obtain q where q: "path_file_name c0 = Some q"
    using assms by (auto simp: is_safe_to_call_with_exec_def executable_name_lookup_key_def split: option.splits)
  then have "q \<in> set (SAFE_EXECUTABLES @ map lit [''numfmt'', ''tac'', ''base64'', ''find'', ''rg'', ''git'', ''sed''])"
    using assms by (auto simp: is_safe_to_call_with_exec_def executable_name_lookup_key_def split: if_splits)
  then show ?thesis using q by (auto simp: SAFE_EXECUTABLES_def shell_names_def)
qed

lemma plain_rm: "path_file_name (lit ''rm'') = Some (lit ''rm'')" "path_file_name (lit ''sudo'') = Some (lit ''sudo'')"
  by (simp_all add: path_file_name_def file_name_plain)

lemma dangerous_head: "is_dangerous_to_call_with_exec (c0 # args) \<Longrightarrow> c0 = lit ''rm'' \<or> c0 = lit ''sudo''"
  by (simp split: if_splits)

lemma safe_exec_not_dangerous: "is_safe_to_call_with_exec c \<Longrightarrow> \<not> is_dangerous_to_call_with_exec c"
proof (cases c)
  case (Cons c0 args)
  assume "is_safe_to_call_with_exec c"
  then show ?thesis using safe_exec_name [of c0 args] dangerous_head [of c0 args] plain_rm Cons by auto
qed simp

lemma extract_bash_shell:
  "extract_bash_command (c0 # args) = Some r \<Longrightarrow> detect_shell_type c0 \<in> {Some Zsh, Some Bash, Some Sh}"
  by (auto simp: extract_bash_command_def split: list.splits if_splits)

lemma safe_exec_not_script: "is_safe_to_call_with_exec c \<Longrightarrow> extract_bash_command c = None"
proof (cases c)
  case (Cons c0 args)
  assume "is_safe_to_call_with_exec c"
  then have "detect_shell_type c0 = None" using safe_exec_name [of c0 args] detect_not_shell Cons by blast
  then show ?thesis using extract_bash_shell [of c0 args] Cons by (cases "extract_bash_command c") auto
qed (simp add: extract_bash_command_def)

lemma windows_safe_head:
  "is_safe_command_windows ps c \<Longrightarrow> \<exists>exe args. c = exe # args \<and> is_powershell_executable exe"
  by (auto simp: is_safe_command_windows_def try_parse_powershell_command_sequence_def
      split: option.splits list.splits if_splits)

lemma powershell_not_dangerous:
  assumes "is_powershell_executable exe"
  shows "\<not> is_dangerous_to_call_with_exec (exe # args)" "extract_bash_command (exe # args) = None"
proof -
  have "exe \<noteq> lit ''rm''" "exe \<noteq> lit ''sudo''"
    using assms plain_rm by (auto simp: is_powershell_executable_def to_ascii_lowercase_def to_ascii_lower_def)
  then show "\<not> is_dangerous_to_call_with_exec (exe # args)" using dangerous_head [of exe args] by blast
  show "extract_bash_command (exe # args) = None"
    using detect_powershell [OF assms] extract_bash_shell [of exe args]
    by (cases "extract_bash_command (exe # args)") auto
qed

lemma script_not_dangerous: "extract_bash_command c = Some r \<Longrightarrow> \<not> is_dangerous_to_call_with_exec c"
proof (cases c)
  case (Cons c0 args)
  assume "extract_bash_command c = Some r"
  then have sh: "detect_shell_type c0 \<in> {Some Zsh, Some Bash, Some Sh}" using extract_bash_shell Cons by blast
  have "detect_shell_type (lit ''rm'') = None" "detect_shell_type (lit ''sudo'') = None"
    by (simp_all add: detect_plain_other shell_names_def)
  then have "c0 \<noteq> lit ''rm''" "c0 \<noteq> lit ''sudo''" using sh by auto
  then show ?thesis using dangerous_head [of c0 args] Cons by blast
qed simp

lemma dangerous_map_zsh:
  "is_dangerous_to_call_with_exec (map (\<lambda>s. if s = lit ''zsh'' then lit ''bash'' else s) c) =
   is_dangerous_to_call_with_exec c"
  by (induction c rule: is_dangerous_to_call_with_exec.induct) (auto split: list.split)

lemma detect_bash: "detect_shell_type (lit ''bash'') = Some Bash" "detect_shell_type (lit ''zsh'') = Some Zsh"
  by (simp_all add: detect_shell_type.simps)

lemma extract_map_zsh:
  assumes "nth_opt c 2 \<noteq> Some (lit ''zsh'')"
  shows "map_option snd (extract_bash_command (map (\<lambda>s. if s = lit ''zsh'' then lit ''bash'' else s) c)) =
         map_option snd (extract_bash_command c)"
proof (cases "\<exists>a b d. c = [a, b, d]")
  case True
  then obtain a b d where c: "c = [a, b, d]" by blast
  have d: "d \<noteq> lit ''zsh''" using assms c by (simp add: nth_opt_def)
  have b: "(if b = lit ''zsh'' then lit ''bash'' else b) \<in> {lit ''-lc'', lit ''-c''} \<longleftrightarrow>
      b \<in> {lit ''-lc'', lit ''-c''}" by auto
  have a: "detect_shell_type (if a = lit ''zsh'' then lit ''bash'' else a) \<in> {Some Zsh, Some Bash, Some Sh} \<longleftrightarrow>
      detect_shell_type a \<in> {Some Zsh, Some Bash, Some Sh}"
    using detect_bash by auto
  show ?thesis unfolding c extract_bash_command_def list.map list.case a b using d by simp
next
  case False
  then have "extract_bash_command c = None"
    "extract_bash_command (map (\<lambda>s. if s = lit ''zsh'' then lit ''bash'' else s) c) = None"
    by (auto simp: extract_bash_command_def split: list.split)
  then show ?thesis by simp
qed

lemma plain_commands_script:
  "parse_shell_lc_plain_commands parse c =
   (case map_option snd (extract_bash_command c) of None \<Rightarrow> None
    | Some script \<Rightarrow> (case parse script of None \<Rightarrow> None
        | Some root \<Rightarrow> try_parse_word_only_commands_sequence root script))"
  by (auto simp: parse_shell_lc_plain_commands_def split: option.split)

text \<open>
  What the two classifications rely on: a list of safe and one of dangerous commands that do
  not meet, and a reader of scripts whose scripts are on neither. Approving a command that
  is safe itself or a script of safe commands then never approves a flagged one.
\<close>

locale command_lists =
  fixes safe dangerous :: "'c \<Rightarrow> bool" and script :: "'c \<Rightarrow> 'c list option"
  assumes disjoint: "safe c \<Longrightarrow> \<not> dangerous c"
    and safe_no_script: "safe c \<Longrightarrow> script c = None"
    and script_harmless: "script c = Some cmds \<Longrightarrow> \<not> dangerous c"
begin

definition approved :: "'c \<Rightarrow> bool" where
  "approved c \<longleftrightarrow> safe c \<or> (\<exists>cmds. script c = Some cmds \<and> list_all safe cmds)"

definition flagged :: "'c \<Rightarrow> bool" where
  "flagged c \<longleftrightarrow> dangerous c \<or> (\<exists>cmds. script c = Some cmds \<and> (\<exists>x\<in>set cmds. dangerous x))"

lemma approved_not_flagged: "approved c \<Longrightarrow> \<not> flagged c"
  unfolding approved_def flagged_def list_all_iff
  using disjoint safe_no_script script_harmless by fastforce

end

interpretation lists: command_lists is_safe_to_call_with_exec is_dangerous_to_call_with_exec
    "parse_shell_lc_plain_commands parse" for parse
proof
  fix c
  show "is_safe_to_call_with_exec c \<Longrightarrow> \<not> is_dangerous_to_call_with_exec c"
    by (rule safe_exec_not_dangerous)
  show "is_safe_to_call_with_exec c \<Longrightarrow> parse_shell_lc_plain_commands parse c = None"
    by (simp add: plain_commands_script safe_exec_not_script)
  show "parse_shell_lc_plain_commands parse c = Some cmds \<Longrightarrow> \<not> is_dangerous_to_call_with_exec c" for cmds
    by (cases "extract_bash_command c") (auto simp: plain_commands_script dest: script_not_dangerous)
qed

lemma known_safe_harmless:
  assumes "is_known_safe_command parse ps command" "nth_opt command 2 \<noteq> Some (lit ''zsh'')"
  shows "\<not> command_might_be_dangerous parse command"
proof -
  define c where "c = map (\<lambda>s. if s = lit ''zsh'' then lit ''bash'' else s) command"
  have same: "parse_shell_lc_plain_commands parse command = parse_shell_lc_plain_commands parse c"
    unfolding plain_commands_script [of parse] c_def extract_map_zsh [OF assms(2)] ..
  have dang: "command_might_be_dangerous parse command \<longleftrightarrow> lists.flagged parse c"
    unfolding command_might_be_dangerous_def same lists.flagged_def c_def dangerous_map_zsh
    by (auto split: option.split)
  show ?thesis
  proof (cases "is_safe_command_windows ps c")
    case True
    then obtain exe args where "c = exe # args" "is_powershell_executable exe"
      using windows_safe_head by blast
    then have "\<not> is_dangerous_to_call_with_exec c" "extract_bash_command c = None"
      by (simp_all only: powershell_not_dangerous not_False_eq_True)
    then show ?thesis by (simp add: dang lists.flagged_def plain_commands_script)
  next
    case False
    then have "lists.approved parse c"
      using assms(1) unfolding is_known_safe_command_def c_def [symmetric] Let_def lists.approved_def
      by (auto split: option.splits if_splits)
    then show ?thesis unfolding dang by (rule lists.approved_not_flagged)
  qed
qed

section \<open>PowerShell\<close>

text \<open>How the words after the benign flags give the script.\<close>

definition powershell_script_of :: "rstr list \<Rightarrow> rstr \<Rightarrow> bool" where
  "powershell_script_of rest script \<longleftrightarrow>
     (\<exists>flag. rest = [flag, script] \<and>
        to_ascii_lowercase flag \<in> {lit ''-command'', lit ''/command'', lit ''-c''}) \<or>
     (\<exists>flag. rest = [flag @ 58 # script] \<and> to_ascii_lowercase flag \<in> {lit ''-command'', lit ''/command''}) \<or>
     (rest \<noteq> [] \<and> \<not> starts_with (hd rest) (lit ''-'') \<and> script = join_arguments_as_script rest)"

lemma lower_inline_command:
  assumes "starts_with (to_ascii_lowercase arg) (f @ [58])" "58 \<notin> set f" "split_once 58 arg = Some (a, b)"
  shows "to_ascii_lowercase a = f \<and> arg = a @ 58 # b"
proof -
  have "split_once 58 (to_ascii_lowercase arg) = Some (to_ascii_lowercase a, to_ascii_lowercase b)"
    using assms(3) by (simp add: to_ascii_lowercase_def split_once_map to_ascii_lower_def)
  moreover obtain t where "to_ascii_lowercase arg = f @ 58 # t"
    using assms(1) by (auto simp: starts_with_iff_prefix prefix_def)
  moreover have "split_once 58 (f @ 58 # t) = Some (f, t)" for t
    using assms(2) by (induction f) auto
  ultimately show ?thesis using split_once_length [OF assms(3)] by simp
qed

lemma powershell_loop_Some:
  "powershell_args_loop ps exe args = Some cmds \<Longrightarrow>
   \<exists>flags rest script. args = flags @ rest \<and>
     list_all (\<lambda>f. to_ascii_lowercase f \<in> set BENIGN_POWERSHELL_FLAGS) flags \<and>
     powershell_script_of rest script \<and> ps exe script = Commands cmds"
proof (induction ps exe args rule: powershell_args_loop.induct)
  case (2 ps exe arg rest)
  let ?l = "to_ascii_lowercase arg"
  have here: ?case if "powershell_script_of (arg # rest) script"
    "parse_powershell_script ps exe script = Some cmds" for script
    using that by (intro exI [of _ "[]"] exI [of _ "arg # rest"] exI [of _ script])
      (auto simp: parse_powershell_script_def split: powershell_parse_outcome.splits)
  consider (sep) "?l \<in> {lit ''-command'', lit ''/command'', lit ''-c''}"
    | (inline) "?l \<notin> {lit ''-command'', lit ''/command'', lit ''-c''}"
        "starts_with ?l (lit ''-command:'') \<or> starts_with ?l (lit ''/command:'')"
    | (benign) "?l \<notin> {lit ''-command'', lit ''/command'', lit ''-c''}"
        "\<not> (starts_with ?l (lit ''-command:'') \<or> starts_with ?l (lit ''/command:''))"
        "?l \<in> set BENIGN_POWERSHELL_FLAGS"
    | (rest) "?l \<notin> {lit ''-command'', lit ''/command'', lit ''-c''}"
        "\<not> (starts_with ?l (lit ''-command:'') \<or> starts_with ?l (lit ''/command:''))"
        "?l \<notin> set BENIGN_POWERSHELL_FLAGS"
    by blast
  then show ?case
  proof cases
    case sep
    then obtain script where "rest = [script]" "parse_powershell_script ps exe script = Some cmds"
      using "2.prems" by (auto split: list.splits if_splits)
    then show ?thesis using sep by (intro here) (auto simp: powershell_script_of_def)
  next
    case inline
    then obtain a script where p: "rest = []" "split_once 58 arg = Some (a, script)"
      "parse_powershell_script ps exe script = Some cmds"
      using "2.prems" by (auto simp: Let_def split: option.splits if_splits)
    have "to_ascii_lowercase a \<in> {lit ''-command'', lit ''/command''} \<and> arg = a @ 58 # script"
      using inline(2) lower_inline_command [OF _ _ p(2), of "lit ''-command''"]
        lower_inline_command [OF _ _ p(2), of "lit ''/command''"] by auto
    then show ?thesis using p by (intro here) (auto simp: powershell_script_of_def)
  next
    case benign
    have "powershell_args_loop ps exe rest = Some cmds" using "2.prems" benign by (simp add: Let_def)
    then obtain flags r script where ih: "rest = flags @ r"
      "list_all (\<lambda>f. to_ascii_lowercase f \<in> set BENIGN_POWERSHELL_FLAGS) flags"
      "powershell_script_of r script" "ps exe script = Commands cmds"
      using "2.IH" [OF refl] benign by blast
    then show ?thesis using benign(3)
      by (intro exI [of _ "arg # flags"] exI [of _ r] exI [of _ script]) simp
  next
    case rest
    then have "\<not> starts_with ?l (lit ''-'')"
      "parse_powershell_script ps exe (join_arguments_as_script (arg # rest)) = Some cmds"
      using "2.prems" by (auto simp: Let_def split: if_splits)
    moreover have "starts_with arg (lit ''-'') \<Longrightarrow> starts_with ?l (lit ''-'')"
      by (cases arg) (auto simp: starts_with_def to_ascii_lowercase_def to_ascii_lower_def split: if_splits)
    ultimately show ?thesis by (intro here) (auto simp: powershell_script_of_def)
  qed
qed simp

section \<open>Properties\<close>

text \<open>
  C32 (safety): no command that runs without asking is one that is flagged as dangerous,
  whatever the syntax trees and the answers of PowerShell are: the two lists do not meet, for
  direct commands, for scripts of a shell and for PowerShell invocations. (A script that is
  the single word \<^verbatim>\<open>zsh\<close> is left out: the approval replaces that word before it parses.)
\<close>

theorem known_safe_not_dangerous:
  assumes "is_known_safe_command parse ps command" "nth_opt command 2 \<noteq> Some (lit ''zsh'')"
  shows "\<not> command_might_be_dangerous parse command"
  using assms by (rule known_safe_harmless)

theorem known_safe_not_dangerous_witness:
  "is_known_safe_command (\<lambda>_. Some pipe_tree) (\<lambda>_ _. Failed) [lit ''zsh'', lit ''-lc'', lit ''ls|wc''] \<and>
   \<not> command_might_be_dangerous (\<lambda>_. Some pipe_tree) [lit ''zsh'', lit ''-lc'', lit ''ls|wc'']"
proof -
  have safe: "is_known_safe_command (\<lambda>_. Some pipe_tree) (\<lambda>_ _. Failed)
      [lit ''zsh'', lit ''-lc'', lit ''ls|wc'']"
    by code_simp
  then show ?thesis using known_safe_not_dangerous [OF safe] by (simp add: nth_opt_def)
qed

text \<open>
  C21 (functional): a git command runs without asking exactly when it is git, then flags that
  are not on the list of unsafe global options, then one of the five reading subcommands,
  then arguments none of which is an unsafe option (and for \<^verbatim>\<open>branch\<close> only listing flags). In
  particular no option that takes a value can make an argument pass for the subcommand.
\<close>

theorem safe_git_command_iff:
  "is_safe_git_command command \<longleftrightarrow>
   (\<exists>git flags sub args.
      command = git # flags @ sub # args \<and> executable_name_lookup_key git = Some (lit ''git'') \<and>
      list_all git_global_flag flags \<and> sub \<in> set read_subcommands \<and> safe_git_args sub args)"
  (is "?L \<longleftrightarrow> ?R")
proof
  assume L: ?L
  then obtain j sub where f: "find_git_subcommand command read_subcommands = Some (j, sub)"
    by (auto simp: is_safe_git_command_def split: option.splits)
  then obtain git rest where g: "command = git # rest" "executable_name_lookup_key git = Some (lit ''git'')"
    "git_subcommand_loop read_subcommands False 1 rest = Some (j, sub)"
    unfolding find_git_subcommand_def by (auto split: list.splits if_splits)
  obtain flags args where p: "rest = flags @ sub # args" "j = 1 + length flags" "sub \<in> set read_subcommands"
    "git_has_unsafe_global_option flags \<or> (\<forall>a\<in>set flags. git_global_flag a)"
    using git_loop_Some [OF g(3)] by blast
  have "\<not> git_has_unsafe_global_option flags \<and> safe_git_args sub args"
    using safe_git_split [of git flags sub args] f L p g(1) by blast
  then show ?R using g p unfolding list_all_iff by blast
next
  assume ?R
  then obtain git flags sub args where r: "command = git # flags @ sub # args"
    "executable_name_lookup_key git = Some (lit ''git'')" "\<forall>a\<in>set flags. git_global_flag a"
    "sub \<in> set read_subcommands" "safe_git_args sub args"
    unfolding list_all_iff by blast
  have "git_subcommand_loop read_subcommands False 1 (flags @ sub # args) = Some (1 + length flags, sub)"
    using git_loop_flags [of flags sub read_subcommands 1 args] r(3,4) read_subcommand_plain [OF r(4)] by blast
  then have f: "find_git_subcommand command read_subcommands = Some (1 + length flags, sub)"
    using r(1,2) by (simp add: find_git_subcommand_def)
  moreover have "\<not> git_has_unsafe_global_option flags"
    using r(3) by (auto simp: git_has_unsafe_global_option_def git_global_flag_def)
  ultimately show ?L using safe_git_split [of git flags sub args] r(1,4,5) by blast
qed

text \<open>
  The argument of \<^verbatim>\<open>sed -n\<close> is accepted exactly when it is of the form of the
  documented expression: one number or two with a comma between, and then \<^verbatim>\<open>p\<close>.
\<close>

theorem valid_sed_n_arg_iff:
  "is_valid_sed_n_arg (Some s) \<longleftrightarrow>
   (\<exists>a. all_digits a \<and> s = a @ lit ''p'') \<or>
   (\<exists>a b. all_digits a \<and> all_digits b \<and> s = a @ lit '','' @ b @ lit ''p'')"
proof (cases "strip_suffix (lit ''p'') s")
  case None
  then have "\<nexists>t. s = t @ lit ''p''" using strip_suffix_Some_iff [of "lit ''p''" s] by simp
  moreover have "is_valid_sed_n_arg (Some s) = False" using None by (simp add: is_valid_sed_n_arg_def)
  ultimately show ?thesis by (metis append.assoc)
next
  case (Some core)
  then have s: "s = core @ lit ''p''" by (simp add: strip_suffix_Some_iff)
  have "is_valid_sed_n_arg (Some s) \<longleftrightarrow>
        all_digits core \<or> (\<exists>a b. core = a @ 44 # b \<and> all_digits a \<and> all_digits b)"
    using Some by (simp only: is_valid_sed_n_arg_def option.case split_comma_iff)
  then show ?thesis unfolding s by auto
qed

text \<open>
  When \<^verbatim>\<open>bash -c\<close> with a script runs without asking, the tree of the script has no
  error and only nodes of the allowed kinds (no redirection, substitution, subshell or
  control flow), it has a command, and every command node consists of plain words that form
  a command of the safe list.
\<close>

theorem safe_script_commands:
  assumes "is_known_safe_command parse ps [lit ''bash'', flag, script]"
    and "script \<noteq> lit ''zsh''"
  shows "\<exists>root. parse script = Some root \<and> \<not> has_error root \<and>
     list_all (\<lambda>n. \<not> node_rejected n) (nodes_of root) \<and> filter is_command (nodes_of root) \<noteq> [] \<and>
     list_all (\<lambda>n. \<exists>words. parse_plain_command_from_node script n = Some words \<and>
                           is_safe_to_call_with_exec words) (filter is_command (nodes_of root))"
proof -
  let ?c = "[lit ''bash'', if flag = lit ''zsh'' then lit ''bash'' else flag, script]"
  have pfn: "path_file_name (lit ''bash'') = Some (lit ''bash'')"
    by (rule shell_name_file_name) (simp add: shell_names_def)
  have "\<not> is_safe_command_windows ps ?c"
    using windows_safe_head [of ps ?c] pfn
    by (auto simp: is_powershell_executable_def to_ascii_lowercase_def to_ascii_lower_def)
  moreover have "\<not> is_safe_to_call_with_exec ?c"
    using safe_exec_name [of "lit ''bash''" "tl ?c"] pfn by (auto simp: shell_names_def)
  moreover have "map (\<lambda>s. if s = lit ''zsh'' then lit ''bash'' else s) [lit ''bash'', flag, script] = ?c"
    using assms(2) by simp
  ultimately obtain cmds where cmds: "parse_shell_lc_plain_commands parse ?c = Some cmds"
    "cmds \<noteq> []" "list_all is_safe_to_call_with_exec cmds"
    using assms(1) unfolding is_known_safe_command_def Let_def by (auto split: option.splits)
  then obtain root where root: "parse script = Some root"
    "try_parse_word_only_commands_sequence root script = Some cmds"
    by (auto simp: parse_shell_lc_plain_commands_def extract_bash_command_def split: option.splits if_splits)
  then obtain cs where cs: "mset cs = mset (filter is_command (nodes_of root))"
    "map Some cmds = map (parse_plain_command_from_node script) cs"
    and ok: "\<not> has_error root" "\<forall>n\<in>set (nodes_of root). \<not> node_rejected n"
    using word_only_Some by blast
  have set: "set cs = set (filter is_command (nodes_of root))" using cs(1) by (rule mset_eq_setD)
  have "cs \<noteq> []" using cs(2) cmds(2) by auto
  then have ne: "filter is_command (nodes_of root) \<noteq> []" using set by (metis set_empty)
  have "\<exists>words. parse_plain_command_from_node script n = Some words \<and> is_safe_to_call_with_exec words"
    if "n \<in> set cs" for n
  proof -
    have "parse_plain_command_from_node script n \<in> set (map Some cmds)" unfolding cs(2) using that by simp
    then show ?thesis using cmds(3) by (auto simp: list_all_iff)
  qed
  then have "\<forall>n\<in>set (filter is_command (nodes_of root)).
      \<exists>words. parse_plain_command_from_node script n = Some words \<and> is_safe_to_call_with_exec words"
    unfolding set [symmetric] by (rule ballI)
  then show ?thesis using root(1) ok ne unfolding list_all_iff by (intro exI [of _ root] conjI)
qed

theorem safe_script_commands_witness:
  "\<exists>root. (if lit ''ls|wc'' = lit ''ls|wc'' then Some pipe_tree else None) = Some root \<and>
     filter is_command (nodes_of root) \<noteq> []"
proof -
  have safe: "is_known_safe_command (\<lambda>s. if s = lit ''ls|wc'' then Some pipe_tree else None)
      (\<lambda>_ _. Failed) [lit ''bash'', lit ''-lc'', lit ''ls|wc'']"
    by code_simp
  show ?thesis using safe_script_commands [OF safe] by auto
qed

text \<open>
  When a PowerShell invocation runs without asking, its words before the script
  are all benign flags, the script is what a \<^verbatim>\<open>-Command\<close> flag or the remaining words give, and
  every command PowerShell finds in it starts with a listed cmdlet (or git, or rg) and has no
  word that names a cmdlet which writes.
\<close>

theorem safe_powershell_invocation:
  assumes "is_safe_command_windows ps command"
  shows "\<exists>exe flags rest script cmds.
     command = exe # flags @ rest \<and> is_powershell_executable exe \<and>
     list_all (\<lambda>f. to_ascii_lowercase f \<in> set BENIGN_POWERSHELL_FLAGS) flags \<and>
     powershell_script_of rest script \<and> ps exe script = Commands cmds \<and>
     list_all (\<lambda>words. words \<noteq> [] \<and>
       cmdlet_name (hd words) \<in> set (SAFE_CMDLETS @ [lit ''git'', lit ''rg'']) \<and>
       list_all (\<lambda>w. cmdlet_name w \<notin> set UNSAFE_CMDLETS) words) cmds"
proof -
  obtain exe args cmds where c: "command = exe # args" "is_powershell_executable exe"
    "powershell_args_loop ps exe args = Some cmds" "list_all is_safe_powershell_words_windows cmds"
    using assms by (auto simp: is_safe_command_windows_def try_parse_powershell_command_sequence_def
        parse_powershell_invocation_def split: option.splits list.splits if_splits)
  have words: "words \<noteq> [] \<and> cmdlet_name (hd words) \<in> set (SAFE_CMDLETS @ [lit ''git'', lit ''rg'']) \<and>
       list_all (\<lambda>w. cmdlet_name w \<notin> set UNSAFE_CMDLETS) words"
    if "is_safe_powershell_words_windows words" for words
    using that unfolding is_safe_powershell_words_windows_def list_all_iff Let_def
    by (cases words) (auto split: if_splits)
  have all: "list_all (\<lambda>words. words \<noteq> [] \<and>
       cmdlet_name (hd words) \<in> set (SAFE_CMDLETS @ [lit ''git'', lit ''rg'']) \<and>
       list_all (\<lambda>w. cmdlet_name w \<notin> set UNSAFE_CMDLETS) words) cmds"
    using c(4) by (rule list.pred_mono_strong) (rule words)
  obtain flags rest script where f: "args = flags @ rest"
    "list_all (\<lambda>f. to_ascii_lowercase f \<in> set BENIGN_POWERSHELL_FLAGS) flags"
    "powershell_script_of rest script" "ps exe script = Commands cmds"
    using powershell_loop_Some [OF c(3)] by blast
  have "command = exe # flags @ rest" using c(1) f(1) by simp
  then show ?thesis using c(2) f(2-4) all by blast
qed

theorem safe_powershell_invocation_witness:
  "\<exists>exe flags rest script cmds.
     [lit ''pwsh'', lit ''-NoLogo'', lit ''-Command'', lit ''ls''] = exe # flags @ rest \<and>
     is_powershell_executable exe \<and> powershell_script_of rest script"
proof -
  have safe: "is_safe_command_windows (\<lambda>_ script. Commands [[script]])
      [lit ''pwsh'', lit ''-NoLogo'', lit ''-Command'', lit ''ls'']"
    by code_simp
  show ?thesis using safe_powershell_invocation [OF safe] by blast
qed

end
