(* ===== verification/Policy_Amend.thy ===== *)
theory Policy_Amend
  imports Exec_Rules
begin

text \<open>
  \<^verbatim>\<open>codex-rs/execpolicy/src/amend.rs\<close>: writing a new rule to the policy file. The calls of
  \<^verbatim>\<open>std::fs\<close> on the file are a record of functions on a world \<open>'w\<close>, each of which may fail
  with an error of type \<open>'e\<close>; what they do to the files when they succeed is stated by
  \<open>policy_files_laws\<close>. The crate \<^verbatim>\<open>serde_json\<close> is the parameter \<open>json\<close>.
\<close>

section \<open>Files\<close>

record ('w, 'e) policy_files =
  pf_already_exists :: "'e \<Rightarrow> bool"
  pf_create_dir :: "path \<Rightarrow> 'w \<Rightarrow> (unit, 'e) result \<times> 'w"
  pf_open :: "path \<Rightarrow> 'w \<Rightarrow> (unit, 'e) result \<times> 'w"
  pf_lock :: "path \<Rightarrow> 'w \<Rightarrow> (unit, 'e) result"
  pf_seek_start :: "path \<Rightarrow> 'w \<Rightarrow> (unit, 'e) result"
  pf_read_to_string :: "path \<Rightarrow> 'w \<Rightarrow> (rstr, 'e) result"
  pf_write_all :: "path \<Rightarrow> rstr \<Rightarrow> 'w \<Rightarrow> (unit, 'e) result \<times> 'w"

datatype 'e amend_error =
    EmptyPrefix
  | InvalidNetworkRule rstr
  | MissingParent path
  | CreatePolicyDir path 'e
  | SerializePrefix
  | SerializeNetworkRule
  | OpenPolicyFile path 'e
  | WritePolicyFile path 'e
  | LockPolicyFile path 'e
  | SeekPolicyFile path 'e
  | ReadPolicyFile path 'e

section \<open>Appending a line\<close>

text \<open>The file is opened for appending: a write goes to its end.\<close>

definition append_locked_line ::
    "('w, 'e) policy_files \<Rightarrow> path \<Rightarrow> rstr \<Rightarrow> 'w \<Rightarrow> (unit, 'e amend_error) result \<times> 'w" where
  "append_locked_line pf policy_path line w0 =
     (case pf_open pf policy_path w0 of
        (Inl e, w) \<Rightarrow> (Inl (OpenPolicyFile policy_path e), w)
      | (Inr _, w) \<Rightarrow>
          (case pf_lock pf policy_path w of
             Inl e \<Rightarrow> (Inl (LockPolicyFile policy_path e), w)
           | Inr _ \<Rightarrow>
               (case pf_seek_start pf policy_path w of
                  Inl e \<Rightarrow> (Inl (SeekPolicyFile policy_path e), w)
                | Inr _ \<Rightarrow>
                    (case pf_read_to_string pf policy_path w of
                       Inl e \<Rightarrow> (Inl (ReadPolicyFile policy_path e), w)
                     | Inr contents \<Rightarrow>
                         if line \<in> set (str_lines contents) then (Inr (), w)
                         else
                           (case (if contents \<noteq> [] \<and> \<not> ends_with contents [NL]
                                  then pf_write_all pf policy_path [NL] w else (Inr (), w)) of
                              (Inl e, w1) \<Rightarrow> (Inl (WritePolicyFile policy_path e), w1)
                            | (Inr _, w1) \<Rightarrow>
                                (case pf_write_all pf policy_path (line @ [NL]) w1 of
                                   (Inl e, w2) \<Rightarrow> (Inl (WritePolicyFile policy_path e), w2)
                                 | (Inr _, w2) \<Rightarrow> (Inr (), w2)))))))"

definition append_rule_line ::
    "('w, 'e) policy_files \<Rightarrow> path \<Rightarrow> rstr \<Rightarrow> 'w \<Rightarrow> (unit, 'e amend_error) result \<times> 'w" where
  "append_rule_line pf policy_path rule w =
     (case path_parent policy_path of
        None \<Rightarrow> (Inl (MissingParent policy_path), w)
      | Some dir \<Rightarrow>
          (case pf_create_dir pf dir w of
             (Inr _, w1) \<Rightarrow> append_locked_line pf policy_path rule w1
           | (Inl e, w1) \<Rightarrow>
               (if pf_already_exists pf e then append_locked_line pf policy_path rule w1
                else (Inl (CreatePolicyDir dir e), w1))))"

section \<open>Rules as lines\<close>

definition prefix_rule_line :: "rstr list \<Rightarrow> rstr" where
  "prefix_rule_line tokens =
     lit ''prefix_rule(pattern=['' @ str_join (lit '', '') tokens @
     lit ''], decision='' @ [34] @ lit ''allow'' @ [34] @ lit '')''"

definition blocking_append_allow_prefix_rule ::
    "(rstr \<Rightarrow> rstr option) \<Rightarrow> ('w, 'e) policy_files \<Rightarrow> path \<Rightarrow> rstr list \<Rightarrow> 'w \<Rightarrow>
     (unit, 'e amend_error) result \<times> 'w" where
  "blocking_append_allow_prefix_rule json pf policy_path pfx w =
     (if pfx = [] then (Inl EmptyPrefix, w)
      else (case those (map json pfx) of
              None \<Rightarrow> (Inl SerializePrefix, w)
            | Some tokens \<Rightarrow> append_rule_line pf policy_path (prefix_rule_line tokens) w))"

fun decision_policy_string :: "decision \<Rightarrow> rstr" where
  "decision_policy_string Allow = lit ''allow''"
| "decision_policy_string Prompt = lit ''prompt''"
| "decision_policy_string Forbidden = lit ''deny''"

definition network_rule_line :: "rstr \<Rightarrow> rstr \<Rightarrow> rstr \<Rightarrow> rstr option \<Rightarrow> rstr" where
  "network_rule_line host protocol decision justification =
     lit ''network_rule('' @
     str_join (lit '', '')
       ([lit ''host='' @ host, lit ''protocol='' @ protocol, lit ''decision='' @ decision] @
        (case justification of Some j \<Rightarrow> [lit ''justification='' @ j] | None \<Rightarrow> [])) @ lit '')''"

text \<open>\<open>show\<close> renders an error of the rules (\<^verbatim>\<open>Display\<close>).\<close>

definition blocking_append_network_rule ::
    "(policy_error \<Rightarrow> rstr) \<Rightarrow> (rstr \<Rightarrow> rstr option) \<Rightarrow> ('w, 'e) policy_files \<Rightarrow> path \<Rightarrow> rstr \<Rightarrow>
     network_rule_protocol \<Rightarrow> decision \<Rightarrow> rstr option \<Rightarrow> 'w \<Rightarrow> (unit, 'e amend_error) result \<times> 'w" where
  "blocking_append_network_rule show json pf policy_path host protocol d justification w =
     (case normalize_network_rule_host host of
        Inl e \<Rightarrow> (Inl (InvalidNetworkRule (show e)), w)
      | Inr h \<Rightarrow>
          if (case justification of Some raw \<Rightarrow> trim raw = [] | None \<Rightarrow> False)
          then (Inl (InvalidNetworkRule (lit ''justification cannot be empty'')), w)
          else
            (case those (map json [h, as_policy_string protocol, decision_policy_string d]) of
               Some [jh, jp, jd] \<Rightarrow>
                 (case justification of
                    None \<Rightarrow> append_rule_line pf policy_path (network_rule_line jh jp jd None) w
                  | Some j \<Rightarrow>
                      (case json j of
                         None \<Rightarrow> (Inl SerializeNetworkRule, w)
                       | Some jj \<Rightarrow> append_rule_line pf policy_path (network_rule_line jh jp jd (Some jj)) w))
             | _ \<Rightarrow> (Inl SerializeNetworkRule, w)))"

section \<open>What the file operations do\<close>

text \<open>
  \<open>contents\<close> gives the text of a file of a world. Opening creates an empty file where there is
  none; reading gives the text; writing appends to it; making a directory leaves files alone.
\<close>

definition policy_files_laws :: "('w, 'e) policy_files \<Rightarrow> ('w \<Rightarrow> path \<Rightarrow> rstr option) \<Rightarrow> bool" where
  "policy_files_laws pf contents \<longleftrightarrow>
     (\<forall>p w r w'. pf_create_dir pf p w = (r, w') \<longrightarrow> contents w' = contents w) \<and>
     (\<forall>p w u w'. pf_open pf p w = (Inr u, w') \<longrightarrow>
        contents w' = (contents w)(p \<mapsto> (case contents w p of None \<Rightarrow> [] | Some c \<Rightarrow> c))) \<and>
     (\<forall>p w c. pf_read_to_string pf p w = Inr c \<longrightarrow> contents w p = Some c) \<and>
     (\<forall>p s w u w' c. pf_write_all pf p s w = (Inr u, w') \<and> contents w p = Some c \<longrightarrow>
        contents w' = (contents w)(p \<mapsto> c @ s))"

definition text_of :: "rstr option \<Rightarrow> rstr" where
  "text_of c = (case c of None \<Rightarrow> [] | Some s \<Rightarrow> s)"

text \<open>The text of the file after a line was appended.\<close>

definition with_line :: "rstr \<Rightarrow> rstr \<Rightarrow> rstr" where
  "with_line line c =
     (if line \<in> set (str_lines c) then c
      else (if c \<noteq> [] \<and> \<not> ends_with c [NL] then c @ [NL] else c) @ line @ [NL])"

lemma append_locked_line_ok:
  assumes laws: "policy_files_laws pf contents"
    and run: "append_locked_line pf p line w = (Inr u, w')"
  shows "contents w' = (contents w)(p \<mapsto> with_line line (text_of (contents w p)))"
proof -
  obtain w1 u1 c where o: "pf_open pf p w = (Inr u1, w1)" and r: "pf_read_to_string pf p w1 = Inr c"
    using run by (auto simp: append_locked_line_def split: prod.splits sum.splits)
  have w1: "contents w1 = (contents w)(p \<mapsto> text_of (contents w p))"
    using laws o unfolding policy_files_laws_def text_of_def by blast
  have c: "contents w1 p = Some c" using laws r unfolding policy_files_laws_def by blast
  then have c': "c = text_of (contents w p)" using w1 by simp
  have wr: "pf_write_all pf p s v = (Inr x, v') \<Longrightarrow> contents v p = Some d \<Longrightarrow>
      contents v' = (contents v)(p \<mapsto> d @ s)" for s v v' x d
    using laws unfolding policy_files_laws_def by blast
  show ?thesis
  proof (cases "line \<in> set (str_lines c)")
    case True
    then have "w' = w1" using run o r by (simp add: append_locked_line_def split: sum.splits)
    then show ?thesis using w1 True by (simp add: with_line_def c')
  next
    case False
    let ?b = "if c \<noteq> [] \<and> \<not> ends_with c [NL] then pf_write_all pf p [NL] w1 else (Inr (), w1)"
    let ?c = "if c \<noteq> [] \<and> \<not> ends_with c [NL] then c @ [NL] else c"
    obtain w2 u2 u3 where b: "?b = (Inr u2, w2)" and e: "pf_write_all pf p (line @ [NL]) w2 = (Inr u3, w')"
      using run o r False
      by (auto simp: append_locked_line_def split: prod.splits sum.splits)
    have "contents w2 = (contents w1)(p \<mapsto> ?c)"
      using b wr [of "[NL]" w1 u2 w2 c] c by (cases "c \<noteq> [] \<and> \<not> ends_with c [NL]") auto
    then have "contents w' = (contents w1)(p \<mapsto> ?c @ line @ [NL])"
      using wr [OF e, of ?c] by simp
    then show ?thesis using w1 False by (simp add: with_line_def c')
  qed
qed

lemma append_rule_line_ok:
  assumes "policy_files_laws pf contents" and "append_rule_line pf p line w = (Inr u, w')"
  shows "contents w' = (contents w)(p \<mapsto> with_line line (text_of (contents w p)))"
proof -
  obtain dir r w1 where d: "pf_create_dir pf dir w = (r, w1)"
    and "append_locked_line pf p line w1 = (Inr u, w')"
    using assms(2) by (auto simp: append_rule_line_def split: option.splits prod.splits sum.splits if_splits)
  then show ?thesis
    using append_locked_line_ok [OF assms(1), of p line w1 u w'] assms(1) d
    unfolding policy_files_laws_def by metis
qed

section \<open>Lines of the file\<close>

lemma split_inclusive_ne: "s \<noteq> [] \<Longrightarrow> split_inclusive d s \<noteq> []"
  by (cases s) (auto split: list.split)

lemma split_inclusive_append_line:
  "s = [] \<or> last s = d \<Longrightarrow> split_inclusive d (s @ t) = split_inclusive d s @ split_inclusive d t"
proof (induction s)
  case (Cons c s)
  show ?case
  proof (cases "s = []")
    case True
    then show ?thesis using Cons.prems by simp
  next
    case False
    then have "split_inclusive d (s @ t) = split_inclusive d s @ split_inclusive d t"
      using Cons by simp
    then show ?thesis using split_inclusive_ne [OF False, of d] by (auto split: list.split)
  qed
qed simp

lemma split_inclusive_end:
  "s \<noteq> [] \<Longrightarrow> last s \<noteq> d \<Longrightarrow>
   split_inclusive d (s @ [d]) = butlast (split_inclusive d s) @ [last (split_inclusive d s) @ [d]]"
proof (induction s)
  case (Cons c s)
  show ?case
  proof (cases "s = []")
    case True
    then show ?thesis using Cons.prems by simp
  next
    case False
    obtain x xs where x: "split_inclusive d s = x # xs"
      using split_inclusive_ne [OF False, of d] by (cases "split_inclusive d s") auto
    then show ?thesis using Cons False by (cases xs) auto
  qed
qed simp

lemma last_split_inclusive: "s \<noteq> [] \<Longrightarrow> last (last (split_inclusive d s)) = last s"
proof (induction s)
  case (Cons c s)
  show ?case
  proof (cases "s = []")
    case False
    obtain x xs where x: "split_inclusive d s = x # xs" "x \<noteq> []"
      using split_inclusive_ne [OF False, of d] by (cases s) (auto split: list.splits if_splits)
    then show ?thesis using Cons False by (cases xs) auto
  qed simp
qed simp

lemma last_piece_plain:
  "s \<noteq> [] \<Longrightarrow> last s \<noteq> d \<Longrightarrow> d \<notin> set (last (split_inclusive d s))"
proof (induction s)
  case (Cons c s)
  show ?case
  proof (cases "s = []")
    case False
    obtain x xs where x: "split_inclusive d s = x # xs"
      using split_inclusive_ne [OF False, of d] by (cases "split_inclusive d s") auto
    then show ?thesis using Cons False by (cases xs) auto
  qed (use Cons in simp)
qed simp

text \<open>A newline after an unfinished last line, which has no carriage return at its end, changes no line.\<close>

lemma str_lines_finish:
  assumes "s \<noteq> []" "last s \<noteq> NL" "last s \<noteq> CR"
  shows "str_lines (s @ [NL]) = str_lines s"
proof -
  let ?p = "split_inclusive NL s"
  have ne: "?p \<noteq> []" using assms(1) by (rule split_inclusive_ne)
  have pl: "NL \<notin> set (last ?p)" using assms(1,2) by (rule last_piece_plain)
  have "last (last ?p) \<noteq> CR" using last_split_inclusive [OF assms(1), of NL] assms(3) by simp
  then have "plain_line (last ?p)" using pl by (simp add: plain_line_def)
  then have "strip_line_ending (last ?p @ [NL]) = strip_line_ending (last ?p)"
    using pl by (simp add: strip_line_ending_nl strip_line_ending_plain)
  then show ?thesis
    unfolding str_lines_def split_inclusive_end [OF assms(1,2)]
    using ne by (metis (no_types, lifting) append_butlast_last_id list.simps(8) list.simps(9) map_append)
qed

lemma str_lines_with_line:
  assumes "plain_line line" and "c = [] \<or> last c \<noteq> CR"
  shows "str_lines (with_line line c) =
    (if line \<in> set (str_lines c) then str_lines c else str_lines c @ [line])"
proof (cases "line \<in> set (str_lines c)")
  case False
  let ?c = "if c \<noteq> [] \<and> \<not> ends_with c [NL] then c @ [NL] else c"
  have ends: "ends_with c [NL] \<longleftrightarrow> c \<noteq> [] \<and> last c = NL"
    by (cases c rule: rev_cases) (simp_all add: ends_with_iff_suffix)
  have c: "str_lines ?c = str_lines c" using assms(2) ends str_lines_finish [of c] by auto
  have "?c = [] \<or> last ?c = NL" using ends by auto
  then have "str_lines (?c @ line @ [NL]) = str_lines ?c @ str_lines (line @ [NL])"
    unfolding str_lines_def by (simp add: split_inclusive_append_line)
  moreover have "str_lines (line @ [NL]) = [line]"
    using assms(1) split_inclusive_line [of NL line "[]"] strip_line_ending_nl [OF assms(1)]
    by (simp add: str_lines_def plain_line_def)
  ultimately show ?thesis using False c by (simp add: with_line_def)
qed (simp add: with_line_def)

lemma prefix_rule_line_plain: "\<forall>t\<in>set tokens. NL \<notin> set t \<Longrightarrow> plain_line (prefix_rule_line tokens)"
proof -
  assume t: "\<forall>t\<in>set tokens. NL \<notin> set t"
  have "NL \<notin> set (str_join (lit '', '') tokens)"
    using t by (induction "lit '', ''" tokens rule: str_join.induct) auto
  then show ?thesis by (simp add: plain_line_def prefix_rule_line_def)
qed

lemma those_map_Some: "those (map f xs) = Some ys \<Longrightarrow> ys = map (\<lambda>x. the (f x)) xs \<and> (\<forall>x\<in>set xs. f x \<noteq> None)"
  by (induction xs arbitrary: ys) (auto split: option.splits)

section \<open>Properties\<close>

text \<open>
  When writing an allow rule succeeds, the policy file has the lines it had,
  in order, and the line of the rule: appended at the end if it was not there, and nothing
  added if it was, so that writing a rule again changes nothing. No other file changes.
\<close>

theorem append_allow_prefix_rule_lines:
  assumes "policy_files_laws pf contents"
    and "\<forall>t j. json t = Some j \<longrightarrow> NL \<notin> set j"
    and "blocking_append_allow_prefix_rule json pf p pfx w = (Inr u, w')"
    and "text_of (contents w p) = [] \<or> last (text_of (contents w p)) \<noteq> CR"
  shows "pfx \<noteq> [] \<and> (\<forall>q. q \<noteq> p \<longrightarrow> contents w' q = contents w q) \<and>
    (let old = str_lines (text_of (contents w p));
         line = prefix_rule_line (map (\<lambda>t. the (json t)) pfx)
     in str_lines (text_of (contents w' p)) = (if line \<in> set old then old else old @ [line]))"
proof -
  obtain tokens where ne: "pfx \<noteq> []" and t: "those (map json pfx) = Some tokens"
    and run: "append_rule_line pf p (prefix_rule_line tokens) w = (Inr u, w')"
    using assms(3) by (auto simp: blocking_append_allow_prefix_rule_def split: if_splits option.splits)
  have tok: "tokens = map (\<lambda>x. the (json x)) pfx" "\<forall>x\<in>set pfx. json x \<noteq> None"
    using those_map_Some [OF t] by blast+
  then have "\<forall>x\<in>set tokens. NL \<notin> set x" using assms(2) by auto
  then have "plain_line (prefix_rule_line tokens)" by (rule prefix_rule_line_plain)
  then show ?thesis
    unfolding append_rule_line_ok [OF assms(1) run] Let_def tok(1) [symmetric]
    using ne str_lines_with_line [OF _ assms(4)] by (simp add: text_of_def [of "Some _"])
qed

text \<open>Files in memory, which never fail, and a serialiser that quotes.\<close>

definition memory_files :: "(path \<Rightarrow> rstr option, unit) policy_files" where
  "memory_files =
     \<lparr>pf_already_exists = (\<lambda>_. True), pf_create_dir = (\<lambda>_ w. (Inr (), w)),
      pf_open = (\<lambda>p w. (Inr (), w(p \<mapsto> text_of (w p)))), pf_lock = (\<lambda>_ _. Inr ()),
      pf_seek_start = (\<lambda>_ _. Inr ()),
      pf_read_to_string = (\<lambda>p w. case w p of Some c \<Rightarrow> Inr c | None \<Rightarrow> Inl ()),
      pf_write_all = (\<lambda>p s w. (Inr (), w(p \<mapsto> text_of (w p) @ s)))\<rparr>"

lemma memory_files_laws: "policy_files_laws memory_files (\<lambda>w. w)"
  unfolding policy_files_laws_def memory_files_def text_of_def by (auto split: option.splits)

definition quote_json :: "rstr \<Rightarrow> rstr option" where
  "quote_json s = Some ([34] @ filter (\<lambda>c. c \<noteq> NL) s @ [34])"

theorem append_allow_prefix_rule_lines_witness:
  "\<exists>w'. blocking_append_allow_prefix_rule quote_json memory_files (lit ''/r/d'') [lit ''ls''] (\<lambda>_. None) = (Inr (), w') \<and>
     str_lines (text_of (w' (lit ''/r/d''))) = [prefix_rule_line [[34] @ lit ''ls'' @ [34]]]"
proof -
  obtain r w' where run: "blocking_append_allow_prefix_rule quote_json memory_files (lit ''/r/d'') [lit ''ls''] (\<lambda>_. None) = (r, w')"
    by (cases "blocking_append_allow_prefix_rule quote_json memory_files (lit ''/r/d'') [lit ''ls''] (\<lambda>_. None)")
  have "path_parent (lit ''/r/d'') \<noteq> None" by code_simp
  then have "r = Inr ()"
    using run by (auto simp: blocking_append_allow_prefix_rule_def quote_json_def append_rule_line_def
        memory_files_def append_locked_line_def text_of_def str_lines_def split: option.splits if_splits)
  then have "blocking_append_allow_prefix_rule quote_json memory_files (lit ''/r/d'') [lit ''ls''] (\<lambda>_. None) = (Inr (), w')"
    using run by simp
  from append_allow_prefix_rule_lines [OF memory_files_laws _ this]
  show ?thesis using run \<open>r = Inr ()\<close>
    by (auto simp: quote_json_def text_of_def [of None] str_lines_def Let_def)
qed

end
