(* ===== verification/Exec_Approval.thy ===== *)
theory Exec_Approval
  imports Exec_Policy Command_Safety Policy_Amend
begin

text \<open>
  \<^verbatim>\<open>codex-rs/core/src/exec_policy.rs\<close> (Linux build): what has to happen before a command runs. The
  policy engine, the script reader and the lists of safe and dangerous commands meet here: a
  command is split into the commands of its script, each is checked against the rules, what
  no rule matches is classified, and the strictest decision becomes a requirement: skip the
  approval, ask, or forbid. The types of \<^verbatim>\<open>core/src/tools/sandboxing.rs\<close> and of the protocol that
  this needs are here too. What stands outside is in the record \<open>exec_env\<close>: the container of
  the rules, the resolution of program paths, tree-sitter, PowerShell and the crate \<^verbatim>\<open>shlex\<close>.
\<close>

section \<open>Approval policies and sandboxes\<close>

record granular_approval_config =
  gr_sandbox_approval :: bool
  gr_rules :: bool
  gr_skill_approval :: bool
  gr_request_permissions :: bool
  gr_mcp_elicitations :: bool

datatype ask_for_approval = UnlessTrusted | OnFailure | OnRequest | Granular granular_approval_config | Never

datatype sandbox_permissions = UseDefault | RequireEscalated | WithAdditionalPermissions

definition requires_escalated_permissions :: "sandbox_permissions \<Rightarrow> bool" where
  "requires_escalated_permissions p \<longleftrightarrow> p = RequireEscalated"

definition requests_sandbox_override :: "sandbox_permissions \<Rightarrow> bool" where
  "requests_sandbox_override p \<longleftrightarrow> p \<noteq> UseDefault"

datatype ('f, 'n) permission_profile = ProfileManaged 'f 'n | ProfileDisabled | ProfileExternal 'n

datatype file_system_sandbox_kind = Restricted | Unrestricted | ExternalSandbox

record 'e file_system_sandbox_policy =
  fsp_kind :: file_system_sandbox_kind
  fsp_glob_scan_max_depth :: "nat option"
  fsp_entries :: "'e list"

section \<open>Requirements\<close>

record exec_policy_amendment = amendment_command :: "rstr list"

datatype exec_approval_requirement =
    Skip (bypass_sandbox: bool) (skip_amendment: "exec_policy_amendment option")
  | NeedsApproval (approval_reason: "rstr option") (approval_amendment: "exec_policy_amendment option")
  | ForbiddenReq (forbidden_reason: rstr)

definition proposed_execpolicy_amendment :: "exec_approval_requirement \<Rightarrow> exec_policy_amendment option" where
  "proposed_execpolicy_amendment r =
     (case r of NeedsApproval _ a \<Rightarrow> a | Skip _ a \<Rightarrow> a | ForbiddenReq _ \<Rightarrow> None)"

definition default_exec_approval_requirement ::
    "ask_for_approval \<Rightarrow> 'e file_system_sandbox_policy \<Rightarrow> exec_approval_requirement" where
  "default_exec_approval_requirement policy fsp =
     (let needs_approval =
            (case policy of
               Never \<Rightarrow> False | OnFailure \<Rightarrow> False
             | OnRequest \<Rightarrow> fsp_kind fsp = Restricted
             | Granular _ \<Rightarrow> fsp_kind fsp = Restricted
             | UnlessTrusted \<Rightarrow> True)
      in if needs_approval \<and> (case policy of Granular g \<Rightarrow> \<not> gr_sandbox_approval g | _ \<Rightarrow> False)
         then ForbiddenReq (lit ''approval policy disallowed sandbox approval prompt'')
         else if needs_approval then NeedsApproval None None
         else Skip False None)"

datatype sandbox_override = NoOverride | BypassSandboxFirstAttempt

definition sandbox_override_for_first_attempt ::
    "sandbox_permissions \<Rightarrow> exec_approval_requirement \<Rightarrow> sandbox_override" where
  "sandbox_override_for_first_attempt perms req =
     (if requires_escalated_permissions perms \<or> (case req of Skip b _ \<Rightarrow> b | _ \<Rightarrow> False)
      then BypassSandboxFirstAttempt else NoOverride)"

section \<open>The commands of a request\<close>

datatype exec_policy_command_origin = Generic

record exec_policy_commands =
  ep_commands :: "rstr list list"
  ep_used_complex_parsing :: bool
  ep_command_origin :: exec_policy_command_origin

definition commands_for_exec_policy :: "(rstr \<Rightarrow> node option) \<Rightarrow> rstr list \<Rightarrow> exec_policy_commands" where
  "commands_for_exec_policy parse command =
     (let single =
        (case parse_shell_lc_single_command_prefix parse command of
           Some single_command \<Rightarrow>
             \<lparr>ep_commands = [single_command], ep_used_complex_parsing = True, ep_command_origin = Generic\<rparr>
         | None \<Rightarrow>
             \<lparr>ep_commands = [command], ep_used_complex_parsing = False, ep_command_origin = Generic\<rparr>)
      in case parse_shell_lc_plain_commands parse command of
           Some commands \<Rightarrow>
             (if commands \<noteq> [] then
                \<lparr>ep_commands = commands, ep_used_complex_parsing = False, ep_command_origin = Generic\<rparr>
              else single)
         | None \<Rightarrow> single)"

section \<open>Commands no rule matches\<close>

record ('f, 'n, 'e) unmatched_command_context =
  ctx_approval_policy :: ask_for_approval
  ctx_permission_profile :: "('f, 'n) permission_profile"
  ctx_file_system_sandbox_policy :: "'e file_system_sandbox_policy"
  ctx_sandbox_permissions :: sandbox_permissions
  ctx_used_complex_parsing :: bool
  ctx_command_origin :: exec_policy_command_origin

definition restricted_decision :: "'e file_system_sandbox_policy \<Rightarrow> sandbox_permissions \<Rightarrow> decision" where
  "restricted_decision fsp perms =
     (case fsp_kind fsp of
        Unrestricted \<Rightarrow> Allow
      | ExternalSandbox \<Rightarrow> Allow
      | Restricted \<Rightarrow> if requests_sandbox_override perms then Prompt else Allow)"

text \<open>The check for a read-only profile without a real sandbox is for Windows only.\<close>

definition render_decision_for_unmatched_command ::
    "(rstr \<Rightarrow> node option) \<Rightarrow> powershell \<Rightarrow> rstr list \<Rightarrow> ('f, 'n, 'e) unmatched_command_context \<Rightarrow> decision" where
  "render_decision_for_unmatched_command parse ps command ctx =
     (if is_known_safe_command parse ps command \<and> \<not> ctx_used_complex_parsing ctx then Allow
      else if command_might_be_dangerous parse command then
        (case ctx_approval_policy ctx of
           Never \<Rightarrow>
             (case ctx_permission_profile ctx of
                ProfileDisabled \<Rightarrow> Allow | ProfileExternal _ \<Rightarrow> Allow | ProfileManaged _ _ \<Rightarrow> Forbidden)
         | OnFailure \<Rightarrow> Prompt | OnRequest \<Rightarrow> Prompt | UnlessTrusted \<Rightarrow> Prompt | Granular _ \<Rightarrow> Prompt)
      else
        (case ctx_approval_policy ctx of
           Never \<Rightarrow> Allow
         | OnFailure \<Rightarrow> Allow
         | UnlessTrusted \<Rightarrow> Prompt
         | OnRequest \<Rightarrow>
             restricted_decision (ctx_file_system_sandbox_policy ctx) (ctx_sandbox_permissions ctx)
         | Granular _ \<Rightarrow>
             restricted_decision (ctx_file_system_sandbox_policy ctx) (ctx_sandbox_permissions ctx)))"

section \<open>Reasons and amendments\<close>

definition PROMPT_CONFLICT_REASON :: rstr where
  "PROMPT_CONFLICT_REASON = lit ''approval required by policy, but AskForApproval is set to Never''"

definition REJECT_SANDBOX_APPROVAL_REASON :: rstr where
  "REJECT_SANDBOX_APPROVAL_REASON =
     lit ''approval required by policy, but AskForApproval::Granular.sandbox_approval is false''"

definition REJECT_RULES_APPROVAL_REASON :: rstr where
  "REJECT_RULES_APPROVAL_REASON =
     lit ''approval required by policy rule, but AskForApproval::Granular.rules is false''"

fun is_policy_match :: "rule_match \<Rightarrow> bool" where
  "is_policy_match (PrefixRuleMatch _ _ _ _) = True"
| "is_policy_match (HeuristicsRuleMatch _ _) = False"

definition policy_match_with :: "decision \<Rightarrow> rule_match \<Rightarrow> bool" where
  "policy_match_with d m \<longleftrightarrow> is_policy_match m \<and> match_decision m = d"

definition prompt_is_rejected_by_policy :: "ask_for_approval \<Rightarrow> bool \<Rightarrow> rstr option" where
  "prompt_is_rejected_by_policy approval_policy prompt_is_rule =
     (case approval_policy of
        Never \<Rightarrow> Some PROMPT_CONFLICT_REASON
      | OnFailure \<Rightarrow> None
      | OnRequest \<Rightarrow> None
      | UnlessTrusted \<Rightarrow> None
      | Granular g \<Rightarrow>
          (if prompt_is_rule then (if \<not> gr_rules g then Some REJECT_RULES_APPROVAL_REASON else None)
           else if \<not> gr_sandbox_approval g then Some REJECT_SANDBOX_APPROVAL_REASON
           else None))"

text \<open>\<^verbatim>\<open>Iterator::find_map\<close>, and \<^verbatim>\<open>Iterator::max_by_key\<close>, which returns the last of the greatest.\<close>

fun find_map :: "('a \<Rightarrow> 'b option) \<Rightarrow> 'a list \<Rightarrow> 'b option" where
  "find_map f [] = None"
| "find_map f (x # xs) = (case f x of Some y \<Rightarrow> Some y | None \<Rightarrow> find_map f xs)"

fun max_by_key :: "('a \<Rightarrow> 'k::linorder) \<Rightarrow> 'a list \<Rightarrow> 'a option" where
  "max_by_key k [] = None"
| "max_by_key k (x # xs) =
     (case max_by_key k xs of None \<Rightarrow> Some x | Some y \<Rightarrow> Some (if k x > k y then x else y))"

fun heuristics_amendment :: "decision \<Rightarrow> rule_match \<Rightarrow> exec_policy_amendment option" where
  "heuristics_amendment d (HeuristicsRuleMatch command d') =
     (if d' = d then Some \<lparr>amendment_command = command\<rparr> else None)"
| "heuristics_amendment d (PrefixRuleMatch _ _ _ _) = None"

definition try_derive_execpolicy_amendment_for_prompt_rules ::
    "rule_match list \<Rightarrow> exec_policy_amendment option" where
  "try_derive_execpolicy_amendment_for_prompt_rules ms =
     (if list_ex (policy_match_with Prompt) ms then None else find_map (heuristics_amendment Prompt) ms)"

definition try_derive_execpolicy_amendment_for_allow_rules ::
    "rule_match list \<Rightarrow> exec_policy_amendment option" where
  "try_derive_execpolicy_amendment_for_allow_rules ms =
     (if list_ex is_policy_match ms then None else find_map (heuristics_amendment Allow) ms)"

definition BANNED_PREFIX_SUGGESTIONS :: "rstr list list" where
  "BANNED_PREFIX_SUGGESTIONS = map (map lit)
     [[''python3''], [''python3'', ''-''], [''python3'', ''-c''], [''python''],
      [''python'', ''-''], [''python'', ''-c''], [''py''], [''py'', ''-3''], [''pythonw''],
      [''pyw''], [''pypy''], [''pypy3''], [''git''], [''bash''], [''bash'', ''-lc''], [''sh''],
      [''sh'', ''-c''], [''sh'', ''-lc''], [''zsh''], [''zsh'', ''-lc''], [''/bin/zsh''],
      [''/bin/zsh'', ''-lc''], [''/bin/bash''], [''/bin/bash'', ''-lc''], [''pwsh''],
      [''pwsh'', ''-Command''], [''pwsh'', ''-c''], [''powershell''],
      [''powershell'', ''-Command''], [''powershell'', ''-c''], [''powershell.exe''],
      [''powershell.exe'', ''-Command''], [''powershell.exe'', ''-c''], [''env''], [''sudo''],
      [''node''], [''node'', ''-e''], [''perl''], [''perl'', ''-e''], [''ruby''],
      [''ruby'', ''-e''], [''php''], [''php'', ''-r''], [''lua''], [''lua'', ''-e''],
      [''osascript'']]"

record 'm exec_env =
  env_rules :: "'m multimap_ops"
  env_to_abs :: "rstr \<Rightarrow> path option"
  env_parse :: "rstr \<Rightarrow> node option"
  env_powershell :: powershell
  env_join :: "rstr list \<Rightarrow> rstr option"

definition prefix_rule_would_approve_all_commands ::
    "'m exec_env \<Rightarrow> 'm policy \<Rightarrow> rstr list \<Rightarrow> rstr list list \<Rightarrow> (rstr list \<Rightarrow> decision) \<Rightarrow> match_options \<Rightarrow> bool" where
  "prefix_rule_would_approve_all_commands env p pfx commands fallback options \<longleftrightarrow>
     (case add_prefix_rule (env_rules env) p pfx Allow of
        Inl _ \<Rightarrow> False
      | Inr policy_with_prefix_rule \<Rightarrow>
          list_all (\<lambda>command.
            map_option eval_decision
              (check_with_options (env_rules env) (env_to_abs env) policy_with_prefix_rule command fallback options)
            = Some Allow) commands)"

definition derive_requested_execpolicy_amendment_from_prefix_rule ::
    "'m exec_env \<Rightarrow> rstr list option \<Rightarrow> rule_match list \<Rightarrow> 'm policy \<Rightarrow> rstr list list \<Rightarrow>
     (rstr list \<Rightarrow> decision) \<Rightarrow> match_options \<Rightarrow> exec_policy_amendment option" where
  "derive_requested_execpolicy_amendment_from_prefix_rule env pfx_rule ms p commands fallback options =
     (case pfx_rule of
        None \<Rightarrow> None
      | Some pfx \<Rightarrow>
          (if pfx = [] then None
           else if pfx \<in> set BANNED_PREFIX_SUGGESTIONS then None
           else if list_ex is_policy_match ms then None
           else if prefix_rule_would_approve_all_commands env p pfx commands fallback options
           then Some \<lparr>amendment_command = pfx\<rparr>
           else None))"

definition render_shlex_command :: "(rstr list \<Rightarrow> rstr option) \<Rightarrow> rstr list \<Rightarrow> rstr" where
  "render_shlex_command join args =
     (case join args of Some s \<Rightarrow> s | None \<Rightarrow> str_join (lit '' '') args)"

fun prefix_match_with :: "decision \<Rightarrow> rule_match \<Rightarrow> (rstr list \<times> rstr option) option" where
  "prefix_match_with d (PrefixRuleMatch q d' _ j) = (if d' = d then Some (q, j) else None)"
| "prefix_match_with d (HeuristicsRuleMatch _ _) = None"

definition most_specific :: "decision \<Rightarrow> rule_match list \<Rightarrow> (rstr list \<times> rstr option) option" where
  "most_specific d ms = max_by_key (\<lambda>(q, _). length q) (List.map_filter (prefix_match_with d) ms)"

definition derive_prompt_reason ::
    "(rstr list \<Rightarrow> rstr option) \<Rightarrow> rstr list \<Rightarrow> evaluation \<Rightarrow> rstr option" where
  "derive_prompt_reason join command_args ev =
     (let command = render_shlex_command join command_args in
      case most_specific Prompt (matched_rules ev) of
        Some (_, Some justification) \<Rightarrow>
          Some ([96] @ command @ [96] @ lit '' requires approval: '' @ justification)
      | Some (_, None) \<Rightarrow> Some ([96] @ command @ [96] @ lit '' requires approval by policy'')
      | None \<Rightarrow> None)"

definition derive_forbidden_reason ::
    "(rstr list \<Rightarrow> rstr option) \<Rightarrow> rstr list \<Rightarrow> evaluation \<Rightarrow> rstr" where
  "derive_forbidden_reason join command_args ev =
     (let command = render_shlex_command join command_args in
      case most_specific Forbidden (matched_rules ev) of
        Some (_, Some justification) \<Rightarrow> [96] @ command @ [96] @ lit '' rejected: '' @ justification
      | Some (q, None) \<Rightarrow>
          [96] @ command @ [96] @ lit '' rejected: policy forbids commands starting with '' @
          [96] @ render_shlex_command join q @ [96]
      | None \<Rightarrow> [96] @ command @ [96] @ lit '' rejected: blocked by policy'')"

section \<open>The requirement for a command\<close>

record ('f, 'n, 'e) exec_approval_request =
  req_command :: "rstr list"
  req_approval_policy :: ask_for_approval
  req_permission_profile :: "('f, 'n) permission_profile"
  req_file_system_sandbox_policy :: "'e file_system_sandbox_policy"
  req_sandbox_permissions :: sandbox_permissions
  req_prefix_rule :: "rstr list option"

definition resolving_options :: match_options where
  "resolving_options = \<lparr>resolve_host_executables = True\<rparr>"

definition exec_policy_fallback ::
    "'m exec_env \<Rightarrow> ('f, 'n, 'e) exec_approval_request \<Rightarrow> bool \<Rightarrow> rstr list \<Rightarrow> decision" where
  "exec_policy_fallback env req used_complex_parsing cmd =
     render_decision_for_unmatched_command (env_parse env) (env_powershell env) cmd
       \<lparr>ctx_approval_policy = req_approval_policy req,
        ctx_permission_profile = req_permission_profile req,
        ctx_file_system_sandbox_policy = req_file_system_sandbox_policy req,
        ctx_sandbox_permissions = req_sandbox_permissions req,
        ctx_used_complex_parsing = used_complex_parsing,
        ctx_command_origin = Generic\<rparr>"

definition requirement_for ::
    "'m exec_env \<Rightarrow> 'm policy \<Rightarrow> ('f, 'n, 'e) exec_approval_request \<Rightarrow> rstr list list \<Rightarrow> bool \<Rightarrow>
     exec_policy_amendment option \<Rightarrow> evaluation \<Rightarrow> exec_approval_requirement" where
  "requirement_for env p req commands auto_amendment_allowed requested_amendment ev =
     (case eval_decision ev of
        Forbidden \<Rightarrow> ForbiddenReq (derive_forbidden_reason (env_join env) (req_command req) ev)
      | Prompt \<Rightarrow>
          (case prompt_is_rejected_by_policy (req_approval_policy req)
                  (list_ex (policy_match_with Prompt) (matched_rules ev)) of
             Some reason \<Rightarrow> ForbiddenReq reason
           | None \<Rightarrow>
               NeedsApproval (derive_prompt_reason (env_join env) (req_command req) ev)
                 (case requested_amendment of
                    Some a \<Rightarrow> Some a
                  | None \<Rightarrow>
                      if auto_amendment_allowed
                      then try_derive_execpolicy_amendment_for_prompt_rules (matched_rules ev) else None))
      | Allow \<Rightarrow>
          Skip (list_all (\<lambda>command. list_ex (policy_match_with Allow)
                  (matches_for_command_with_options (env_rules env) (env_to_abs env) p command None
                     resolving_options)) commands)
               (if auto_amendment_allowed
                then try_derive_execpolicy_amendment_for_allow_rules (matched_rules ev) else None))"

text \<open>\<open>None\<close> where \<^verbatim>\<open>check_multiple_with_options\<close> would panic.\<close>

definition create_exec_approval_requirement_for_command ::
    "'m exec_env \<Rightarrow> 'm policy \<Rightarrow> ('f, 'n, 'e) exec_approval_request \<Rightarrow> exec_approval_requirement option" where
  "create_exec_approval_requirement_for_command env p req =
     (let parsed = commands_for_exec_policy (env_parse env) (req_command req);
          commands = ep_commands parsed;
          auto_amendment_allowed = (\<not> ep_used_complex_parsing parsed);
          fallback = exec_policy_fallback env req (ep_used_complex_parsing parsed)
      in case check_multiple_with_options (env_rules env) (env_to_abs env) p commands fallback resolving_options of
           None \<Rightarrow> None
         | Some ev \<Rightarrow>
             (let requested_amendment =
                    (if auto_amendment_allowed
                     then derive_requested_execpolicy_amendment_from_prefix_rule env (req_prefix_rule req)
                            (matched_rules ev) p commands fallback resolving_options
                     else None)
              in Some (requirement_for env p req commands auto_amendment_allowed requested_amendment ev)))"

section \<open>Updating the policy\<close>

datatype 'e exec_policy_update_error = AppendRule path "'e amend_error" | AddRule policy_error

definition default_policy_path :: "path \<Rightarrow> path" where
  "default_policy_path codex_home =
     path_push (path_push codex_home (lit ''rules'')) (lit ''default.rules'')"

text \<open>
  The policy of the manager is returned updated. Updates hold the one permit of the
  semaphore, so they run one after another; the task that does the file I/O is taken to end.
\<close>

definition append_amendment_and_update ::
    "'m exec_env \<Rightarrow> (rstr \<Rightarrow> rstr option) \<Rightarrow> ('w, 'x) policy_files \<Rightarrow> path \<Rightarrow> exec_policy_amendment \<Rightarrow>
     'm policy \<Rightarrow> 'w \<Rightarrow> (unit, 'x exec_policy_update_error) result option \<times> 'm policy \<times> 'w" where
  "append_amendment_and_update env json pf codex_home amendment p w =
     (let policy_path = default_policy_path codex_home;
          command = amendment_command amendment
      in case blocking_append_allow_prefix_rule json pf policy_path command w of
           (Inl e, w1) \<Rightarrow> (Some (Inl (AppendRule policy_path e)), p, w1)
         | (Inr _, w1) \<Rightarrow>
             (case check_multiple_with_options (env_rules env) (env_to_abs env) p [command] (\<lambda>_. Forbidden)
                     resolving_options of
                None \<Rightarrow> (None, p, w1)
              | Some existing_evaluation \<Rightarrow>
                  (if eval_decision existing_evaluation = Allow \<and>
                      list_ex (policy_match_with Allow) (matched_rules existing_evaluation)
                   then (Some (Inr ()), p, w1)
                   else (case add_prefix_rule (env_rules env) p command Allow of
                           Inl e \<Rightarrow> (Some (Inl (AddRule e)), p, w1)
                         | Inr updated_policy \<Rightarrow> (Some (Inr ()), updated_policy, w1)))))"

definition append_network_rule_and_update ::
    "(policy_error \<Rightarrow> rstr) \<Rightarrow> (rstr \<Rightarrow> rstr option) \<Rightarrow> ('w, 'x) policy_files \<Rightarrow> path \<Rightarrow> rstr \<Rightarrow>
     network_rule_protocol \<Rightarrow> decision \<Rightarrow> rstr option \<Rightarrow> 'm policy \<Rightarrow> 'w \<Rightarrow>
     (unit, 'x exec_policy_update_error) result \<times> 'm policy \<times> 'w" where
  "append_network_rule_and_update show json pf codex_home host protocol d justification p w =
     (let policy_path = default_policy_path codex_home
      in case blocking_append_network_rule show json pf policy_path host protocol d justification w of
           (Inl e, w1) \<Rightarrow> (Inl (AppendRule policy_path e), p, w1)
         | (Inr _, w1) \<Rightarrow>
             (case add_network_rule p host protocol d justification of
                Inl e \<Rightarrow> (Inl (AddRule e), p, w1)
              | Inr updated_policy \<Rightarrow> (Inr (), updated_policy, w1)))"

end
