(* ===== verification/Exec_Approval_Correct.thy ===== *)
theory Exec_Approval_Correct
  imports Exec_Approval Exec_Policy_Correct Command_Safety_Correct
begin

text \<open>
  What the approval requirement guarantees: rules are respected for every command of a script,
  the sandbox is skipped unasked only when rules allow every command or escalation was requested
  for what would be let through anyway, dangerous commands never run
  unasked, nobody is asked who does not want to be, and an accepted amendment takes effect.
\<close>

section \<open>The evaluation of a request\<close>

abbreviation request_commands :: "'m exec_env \<Rightarrow> ('f, 'n, 'e) exec_approval_request \<Rightarrow> rstr list list" where
  "request_commands env req \<equiv> ep_commands (commands_for_exec_policy (env_parse env) (req_command req))"

abbreviation request_complex :: "'m exec_env \<Rightarrow> ('f, 'n, 'e) exec_approval_request \<Rightarrow> bool" where
  "request_complex env req \<equiv>
     ep_used_complex_parsing (commands_for_exec_policy (env_parse env) (req_command req))"

abbreviation rule_matches_of :: "'m exec_env \<Rightarrow> 'm policy \<Rightarrow> rstr list \<Rightarrow> rule_match list" where
  "rule_matches_of env p cmd \<equiv>
     matches_for_command_with_options (env_rules env) (env_to_abs env) p cmd None resolving_options"

definition request_matches ::
    "'m exec_env \<Rightarrow> 'm policy \<Rightarrow> ('f, 'n, 'e) exec_approval_request \<Rightarrow> rule_match list" where
  "request_matches env p req =
     concat (map (\<lambda>c. matches_for_command_with_options (env_rules env) (env_to_abs env) p c
       (Some (exec_policy_fallback env req (request_complex env req))) resolving_options)
       (request_commands env req))"

definition request_decision :: "'m exec_env \<Rightarrow> 'm policy \<Rightarrow> ('f, 'n, 'e) exec_approval_request \<Rightarrow> decision" where
  "request_decision env p req = Max (match_decision ` set (request_matches env p req))"

lemma request_commands_ne: "request_commands env req \<noteq> []"
  by (auto simp: commands_for_exec_policy_def Let_def split: option.splits)

lemma matches_with_fallback:
  "matches_for_command_with_options mm to_abs p cmd (Some f) options =
   (let ms = matches_for_command_with_options mm to_abs p cmd None options
    in if ms = [] then [HeuristicsRuleMatch cmd (f cmd)] else ms)"
  by (simp add: matches_for_command_with_options_def Let_def)

lemma request_matches_ne: "request_matches env p req \<noteq> []"
proof -
  obtain c cs where "request_commands env req = c # cs"
    using request_commands_ne [of env req] by (cases "request_commands env req") auto
  then show ?thesis by (simp add: request_matches_def matches_fallback_ne)
qed

lemma create_requirement_eq:
  "create_exec_approval_requirement_for_command env p req =
   Some (requirement_for env p req (request_commands env req) (\<not> request_complex env req)
     (if \<not> request_complex env req
      then derive_requested_execpolicy_amendment_from_prefix_rule env (req_prefix_rule req)
             (request_matches env p req) p (request_commands env req)
             (exec_policy_fallback env req (request_complex env req)) resolving_options
      else None)
     \<lparr>eval_decision = request_decision env p req, matched_rules = request_matches env p req\<rparr>)"
  using request_matches_ne [of env p req]
  unfolding create_exec_approval_requirement_for_command_def check_multiple_with_options_def Let_def
    request_matches_def [symmetric] request_decision_def
  by (simp add: from_matches_eq)

text \<open>Rules of a command are among the matches of the request, which the decision bounds.\<close>

lemma segment_match:
  assumes "cmd \<in> set (request_commands env req)" "m \<in> set (rule_matches_of env p cmd)"
  shows "m \<in> set (request_matches env p req)"
  using assms by (auto simp: request_matches_def matches_with_fallback Let_def intro!: bexI [of _ cmd])

lemma segment_fallback:
  assumes "cmd \<in> set (request_commands env req)" "rule_matches_of env p cmd = []"
  shows "HeuristicsRuleMatch cmd (exec_policy_fallback env req (request_complex env req) cmd)
    \<in> set (request_matches env p req)"
  using assms by (auto simp: request_matches_def matches_with_fallback Let_def intro!: bexI [of _ cmd])

lemma decision_bound: "m \<in> set (request_matches env p req) \<Longrightarrow> match_decision m \<le> request_decision env p req"
  by (simp add: request_decision_def)

lemma decision_attained:
  "\<exists>m\<in>set (request_matches env p req). match_decision m = request_decision env p req"
proof -
  have "request_decision env p req \<in> match_decision ` set (request_matches env p req)"
    unfolding request_decision_def using request_matches_ne [of env p req] by (intro Max_in) simp_all
  then show ?thesis by auto
qed

lemma rule_match_policy: "m \<in> set (rule_matches_of env p cmd) \<Longrightarrow> is_policy_match m"
proof -
  assume "m \<in> set (rule_matches_of env p cmd)"
  then have "m \<in> set (case match_exact_rules (env_rules env) p cmd of Some ms \<Rightarrow> ms | None \<Rightarrow> []) \<or>
      m \<in> set (match_host_executable_rules (env_rules env) (env_to_abs env) p cmd)"
    unfolding matches_for_command_with_options_def Let_def by (simp split: if_splits)
  then show ?thesis using match_exact_elem match_host_elem by fastforce
qed

section \<open>Requirements by decision\<close>

fun is_skip :: "exec_approval_requirement \<Rightarrow> bool" where
  "is_skip (Skip _ _) = True" | "is_skip _ = False"

fun is_forbidden :: "exec_approval_requirement \<Rightarrow> bool" where
  "is_forbidden (ForbiddenReq _) = True" | "is_forbidden _ = False"

lemma requirement_decision:
  "create_exec_approval_requirement_for_command env p req = Some r \<Longrightarrow>
   (is_skip r \<longleftrightarrow> request_decision env p req = Allow) \<and>
   (request_decision env p req = Forbidden \<longrightarrow> is_forbidden r)"
  unfolding create_requirement_eq requirement_for_def
  by (cases "request_decision env p req") (auto split: option.splits)

lemma Forbidden_top: "Forbidden \<le> d \<longleftrightarrow> d = Forbidden" for d :: decision
  by (cases d) (simp_all add: less_eq_decision_def)

lemma Prompt_not_Allow: "Prompt \<le> d \<Longrightarrow> d \<noteq> Allow" for d :: decision
  by (cases d) (simp_all add: less_eq_decision_def)

lemma le_Allow: "d \<le> Allow \<longleftrightarrow> d = Allow" for d :: decision
  by (cases d) (simp_all add: less_eq_decision_def)

section \<open>An accepted amendment\<close>

lemma rule_matches_extend:
  assumes "rule_matches r cmd = Some m" "prefix cmd cmd'"
  shows "rule_matches r cmd' = Some m"
  using assms by (auto simp: rule_matches_def matches_prefix_Some_iff prefix_def)

lemma exact_rules_iff:
  "m \<in> set (case match_exact_rules mm p cmd of Some ms \<Rightarrow> ms | None \<Rightarrow> []) \<longleftrightarrow>
   (\<exists>first args r. cmd = first # args \<and> r \<in> set (mm_rules mm (rules_by_program p) first) \<and>
      rule_matches r cmd = Some m)"
  unfolding match_exact_mm_rules by (cases cmd) (auto simp: in_map_filter)

lemma host_rules_extend:
  assumes "match_host_executable_rules mm to_abs p cmd \<noteq> []" "cmd \<noteq> []" "prefix cmd cmd'"
  shows "match_host_executable_rules mm to_abs p cmd' \<noteq> []"
proof -
  obtain first args where c: "cmd = first # args" using assms(2) by (cases cmd) auto
  obtain rest where c': "cmd' = first # args @ rest" using assms(3) c by (auto simp: prefix_def)
  obtain program basename rules where h: "to_abs first = Some program"
    "executable_path_lookup_key program = Some basename"
    "mm_get_vec mm (rules_by_program p) basename = Some rules"
    using assms(1) c by (auto simp: match_host_executable_rules_def split: option.splits)
  have gate: "\<not> (case host_executables_by_name p basename of
        Some paths \<Rightarrow> \<not> list_ex (\<lambda>q. components q = components program) paths | None \<Rightarrow> False)"
    using assms(1) c h by (auto simp: match_host_executable_rules_def split: if_splits)
  obtain m where "m \<in> set (List.map_filter (\<lambda>r. rule_matches r (basename # args)) rules)"
    using assms(1) c h gate
    by (cases "List.map_filter (\<lambda>r. rule_matches r (basename # args)) rules")
       (auto simp: match_host_executable_rules_def)
  then obtain r where r: "r \<in> set rules" "rule_matches r (basename # args) = Some m"
    unfolding in_map_filter by blast
  have "prefix (basename # args) (basename # args @ rest)" by simp
  then have "rule_matches r (basename # args @ rest) = Some m" by (rule rule_matches_extend [OF r(2)])
  then have "m \<in> set (List.map_filter (\<lambda>r. rule_matches r (basename # args @ rest)) rules)"
    unfolding in_map_filter using r(1) by blast
  then show ?thesis using c' h gate by (auto simp: match_host_executable_rules_def)
qed

text \<open>Rules that match a command match every longer one, as far as there is any match.\<close>

lemma rule_matches_of_extend:
  assumes "rule_matches_of env p cmd \<noteq> []" "cmd \<noteq> []" "prefix cmd cmd'"
  shows "rule_matches_of env p cmd' \<noteq> []"
proof -
  let ?exact = "\<lambda>c. case match_exact_rules (env_rules env) p c of Some ms \<Rightarrow> ms | None \<Rightarrow> []"
  have unfold: "rule_matches_of env p c =
      (if ?exact c \<noteq> [] then ?exact c else match_host_executable_rules (env_rules env) (env_to_abs env) p c)" for c
    by (simp add: matches_for_command_with_options_def resolving_options_def Let_def)
  show ?thesis
  proof (cases "?exact cmd = []")
    case True
    then have "match_host_executable_rules (env_rules env) (env_to_abs env) p cmd' \<noteq> []"
      using assms(1) unfold [of cmd] by (intro host_rules_extend [OF _ assms(2,3)]) simp
    then show ?thesis using unfold [of cmd'] by simp
  next
    case False
    then obtain m where "m \<in> set (?exact cmd)" by (cases "?exact cmd") auto
    then obtain first args r where r: "cmd = first # args"
      "r \<in> set (mm_rules (env_rules env) (rules_by_program p) first)" "rule_matches r cmd = Some m"
      unfolding exact_rules_iff by blast
    obtain rest where "cmd' = first # args @ rest" using assms(3) r(1) by (auto simp: prefix_def)
    moreover have "rule_matches r cmd' = Some m" using rule_matches_extend [OF r(3) assms(3)] .
    ultimately have "m \<in> set (?exact cmd')" unfolding exact_rules_iff using r(2) by blast
    then have "?exact cmd' \<noteq> []" by (metis empty_iff list.set(1))
    then show ?thesis using unfold [of cmd'] by simp
  qed
qed

context multimap
begin

text \<open>A new allow rule is the one match of a command that starts with it and matched nothing.\<close>

lemma matches_after_allow_rule:
  assumes "add_prefix_rule mm p pfx Allow = Inr p'" "prefix pfx cmd"
    and "matches_for_command_with_options mm to_abs p cmd None resolving_options = []"
  shows "matches_for_command_with_options mm to_abs p' cmd fb resolving_options =
    [PrefixRuleMatch pfx Allow None None]"
proof -
  let ?exact = "\<lambda>p. case match_exact_rules mm p cmd of Some ms \<Rightarrow> ms | None \<Rightarrow> []"
  obtain first rest where pfx: "pfx = first # rest"
    using assms(1) by (cases pfx) (auto simp: add_prefix_rule_def)
  obtain args where cmd: "cmd = first # rest @ args" using assms(2) pfx by (auto simp: prefix_def)
  let ?r = "single_rule first rest Allow"
  have "list_all2 token_matches (map Single rest) rest" by (simp add: list_all2_conv_all_nth)
  then have "matches_prefix (rule_pattern ?r) cmd = Some pfx"
    unfolding matches_prefix_Some_iff by (simp add: single_rule_def pfx cmd)
  then have new: "rule_matches ?r cmd = Some (PrefixRuleMatch pfx Allow None None)"
    by (simp add: rule_matches_def single_rule_def)
  have rules: "mm_rules mm (rules_by_program p') first = mm_rules mm (rules_by_program p) first @ [?r]"
    using assms(1) pfx by (auto simp: add_prefix_rule_def get_insert)
  have "?exact p = []" using assms(3)
    by (cases "?exact p = []") (auto simp: matches_for_command_with_options_def Let_def)
  then have "List.map_filter (\<lambda>r. rule_matches r cmd) (mm_rules mm (rules_by_program p) first) = []"
    unfolding match_exact_mm_rules using cmd by simp
  then have "?exact p' = [PrefixRuleMatch pfx Allow None None]"
    unfolding match_exact_mm_rules using cmd rules new by (simp add: map_filter_append map_filter_simps)
  then show ?thesis by (simp add: matches_for_command_with_options_def Let_def split: option.split)
qed

end

lemma single_request_matches:
  assumes "request_commands env req = [c]"
  shows "request_matches env p req =
    (if rule_matches_of env p c = []
     then [HeuristicsRuleMatch c (exec_policy_fallback env req (request_complex env req) c)]
     else rule_matches_of env p c)"
  using assms by (simp add: request_matches_def matches_with_fallback Let_def)

text \<open>An amendment is only proposed to someone asked about commands that no rule matches.\<close>

lemma proposed_amendment_unmatched:
  assumes c: "request_commands env req = [c]"
    and r: "create_exec_approval_requirement_for_command env p req = Some (NeedsApproval reason (Some a))"
  shows "rule_matches_of env p c = []"
proof (rule ccontr)
  assume ne: "rule_matches_of env p c \<noteq> []"
  let ?ms = "request_matches env p req"
  have ms: "?ms = rule_matches_of env p c" using single_request_matches [OF c] ne by simp
  then have pol: "\<forall>m\<in>set ?ms. is_policy_match m" using rule_match_policy by auto
  then have any: "list_ex is_policy_match ?ms" using request_matches_ne [of env p req]
    by (cases ?ms) auto
  have dec: "request_decision env p req = Prompt"
    using r unfolding create_requirement_eq requirement_for_def
    by (cases "request_decision env p req") (auto split: option.splits)
  obtain m where "m \<in> set ?ms" "match_decision m = Prompt" using decision_attained [of env p req] dec by auto
  then have "list_ex (policy_match_with Prompt) ?ms"
    using pol by (auto simp: list_ex_iff policy_match_with_def)
  then have none: "try_derive_execpolicy_amendment_for_prompt_rules ?ms = None"
    by (simp add: try_derive_execpolicy_amendment_for_prompt_rules_def)
  have "derive_requested_execpolicy_amendment_from_prefix_rule env (req_prefix_rule req) ?ms p
      (request_commands env req) (exec_policy_fallback env req (request_complex env req)) resolving_options = None"
    using any by (simp add: derive_requested_execpolicy_amendment_from_prefix_rule_def split: option.split)
  then show False
    using r none unfolding create_requirement_eq requirement_for_def
    by (auto simp: dec split: option.splits if_splits)
qed

text \<open>Storing an amendment for a command that no rule matches adds the rule.\<close>

lemma amendment_stored:
  assumes "append_amendment_and_update env json pf home a p w = (Some (Inr u), p', w')"
    and "prefix (amendment_command a) c" "rule_matches_of env p c = []"
  shows "add_prefix_rule (env_rules env) p (amendment_command a) Allow = Inr p'"
proof -
  let ?a = "amendment_command a"
  have ne: "?a \<noteq> []"
    using assms(1) by (auto simp: append_amendment_and_update_def blocking_append_allow_prefix_rule_def Let_def)
  have "rule_matches_of env p ?a = []"
    using rule_matches_of_extend [OF _ ne assms(2)] assms(3) by blast
  then have "check_multiple_with_options (env_rules env) (env_to_abs env) p [?a] (\<lambda>_. Forbidden) resolving_options =
      Some \<lparr>eval_decision = Forbidden, matched_rules = [HeuristicsRuleMatch ?a Forbidden]\<rparr>"
    by (simp add: check_multiple_with_options_def matches_with_fallback Let_def from_matches_def)
  then show ?thesis
    using assms(1) by (auto simp: append_amendment_and_update_def Let_def split: prod.splits sum.splits)
qed

section \<open>Properties\<close>

text \<open>
  C7 (safety): the rules are respected for every command of a script: the requirement is
  always computed, a rule that forbids any of the commands forbids the whole, and a rule that
  asks for a prompt on any of them excludes running unasked.
\<close>

theorem approval_respects_rules:
  assumes "cmd \<in> set (request_commands env req)" and "m \<in> set (rule_matches_of env p cmd)"
  shows "\<exists>r. create_exec_approval_requirement_for_command env p req = Some r \<and>
    (match_decision m = Forbidden \<longrightarrow> is_forbidden r) \<and> (match_decision m = Prompt \<longrightarrow> \<not> is_skip r)"
proof -
  obtain r where r: "create_exec_approval_requirement_for_command env p req = Some r"
    unfolding create_requirement_eq by blast
  have "match_decision m \<le> request_decision env p req"
    using segment_match [OF assms] by (rule decision_bound)
  then show ?thesis using r requirement_decision [OF r] Prompt_not_Allow Forbidden_top by metis
qed

definition example_env :: "rule_alist exec_env" where
  "example_env =
     \<lparr>env_rules = alist_multimap, env_to_abs = example_to_abs, env_parse = (\<lambda>_. Some pipe_tree),
      env_powershell = (\<lambda>_ _. Failed), env_join = (\<lambda>_. None)\<rparr>"

definition example_request :: "rstr list \<Rightarrow> ask_for_approval \<Rightarrow> (unit, unit, unit) exec_approval_request" where
  "example_request command ask =
     \<lparr>req_command = command, req_approval_policy = ask, req_permission_profile = ProfileManaged () (),
      req_file_system_sandbox_policy =
        \<lparr>fsp_kind = Restricted, fsp_glob_scan_max_depth = None, fsp_entries = []\<rparr>,
      req_sandbox_permissions = UseDefault, req_prefix_rule = None\<rparr>"

definition forbid_wc :: "rule_alist policy" where
  "forbid_wc = \<lparr>rules_by_program = [(lit ''wc'', [single_rule (lit ''wc'') [] Forbidden])],
     network_rules = [], host_executables_by_name = (\<lambda>_. None)\<rparr>"

theorem approval_respects_rules_witness:
  "\<exists>r. create_exec_approval_requirement_for_command example_env forbid_wc
     (example_request [lit ''bash'', lit ''-c'', lit ''ls|wc''] OnRequest) = Some r \<and> is_forbidden r"
proof -
  let ?req = "example_request [lit ''bash'', lit ''-c'', lit ''ls|wc''] OnRequest"
  have 1: "[lit ''wc''] \<in> set (request_commands example_env ?req)" by code_simp
  have 2: "PrefixRuleMatch [lit ''wc''] Forbidden None None \<in> set (rule_matches_of example_env forbid_wc [lit ''wc''])"
    by code_simp
  from approval_respects_rules [OF 1 2] show ?thesis by auto
qed

text \<open>
  C29 (safety): what runs unasked and at once outside the sandbox. No rule that matches a command of the script asks
  or forbids. A command that no rule matches is there only when the call asked to be escalated and, further, the command
  is on the list of safe commands and was read plainly from the script, or prompts are off or for failures only, or the
  file system is not restricted anyway.
\<close>

theorem unasked_bypass_is_allowed:
  assumes unasked: "create_exec_approval_requirement_for_command env p req = Some (Skip b a)"
    and bypass: "sandbox_override_for_first_attempt (req_sandbox_permissions req) (Skip b a) = BypassSandboxFirstAttempt"
    and cmd: "cmd \<in> set (request_commands env req)"
  shows "list_all (\<lambda>m. is_policy_match m \<and> match_decision m = Allow) (rule_matches_of env p cmd) \<and>
    (rule_matches_of env p cmd \<noteq> [] \<or>
     req_sandbox_permissions req = RequireEscalated \<and>
     (is_known_safe_command (env_parse env) (env_powershell env) cmd \<and> \<not> request_complex env req \<or>
      req_approval_policy req \<in> {Never, OnFailure} \<or> fsp_kind (req_file_system_sandbox_policy req) \<noteq> Restricted))"
proof -
  have d: "request_decision env p req = Allow" using requirement_decision [OF unasked] by simp
  have "match_decision m = Allow \<and> is_policy_match m" if "m \<in> set (rule_matches_of env p cmd)" for m
    using decision_bound [OF segment_match [OF cmd that]] rule_match_policy [OF that]
    by (simp add: d le_Allow)
  then have all: "list_all (\<lambda>m. is_policy_match m \<and> match_decision m = Allow) (rule_matches_of env p cmd)"
    by (auto simp: list_all_iff)
  show ?thesis
  proof (cases "rule_matches_of env p cmd = []")
    case True
    have "b = list_all (\<lambda>command. list_ex (policy_match_with Allow) (rule_matches_of env p command)) (request_commands env req)"
      using unasked unfolding create_requirement_eq requirement_for_def by (simp add: d)
    then have "\<not> b" using True cmd by (auto simp: list_all_iff)
    then have escalated: "req_sandbox_permissions req = RequireEscalated"
      using bypass by (auto simp: sandbox_override_for_first_attempt_def requires_escalated_permissions_def split: if_splits)
    have "exec_policy_fallback env req (request_complex env req) cmd = Allow"
      using decision_bound [OF segment_fallback [OF cmd True]] by (simp add: d le_Allow)
    then show ?thesis
      using all escalated
      by (auto simp: exec_policy_fallback_def render_decision_for_unmatched_command_def restricted_decision_def
          requests_sandbox_override_def split: if_splits ask_for_approval.splits file_system_sandbox_kind.splits)
  qed (use all in simp)
qed

theorem unasked_bypass_is_allowed_witness:
  "\<exists>a. create_exec_approval_requirement_for_command example_env
      (forbid_wc\<lparr>rules_by_program := [(lit ''rm'', [single_rule (lit ''rm'') [] Allow])]\<rparr>)
      (example_request [lit ''rm'', lit ''-f''] OnRequest) = Some (Skip True a) \<and>
    rule_matches_of example_env
      (forbid_wc\<lparr>rules_by_program := [(lit ''rm'', [single_rule (lit ''rm'') [] Allow])]\<rparr>)
      [lit ''rm'', lit ''-f''] \<noteq> []"
proof -
  let ?p = "forbid_wc\<lparr>rules_by_program := [(lit ''rm'', [single_rule (lit ''rm'') [] Allow])]\<rparr>"
  let ?req = "example_request [lit ''rm'', lit ''-f''] OnRequest"
  have 1: "create_exec_approval_requirement_for_command example_env ?p ?req = Some (Skip True None)"
    by code_simp
  have 2: "[lit ''rm'', lit ''-f''] \<in> set (request_commands example_env ?req)" by code_simp
  have 3: "sandbox_override_for_first_attempt (req_sandbox_permissions ?req) (Skip True None) = BypassSandboxFirstAttempt"
    by (simp add: sandbox_override_for_first_attempt_def)
  have "req_sandbox_permissions ?req = UseDefault" by (simp add: example_request_def)
  with unasked_bypass_is_allowed [OF 1 3 2] 1 show ?thesis by auto
qed

text \<open>
  The user is asked only when the approval policy lets prompts through: never
  under \<^verbatim>\<open>Never\<close>, and under a granular policy only when prompts of rules (if a rule asked) or
  prompts of the sandbox (otherwise) are switched on.
\<close>

theorem asks_only_when_allowed:
  assumes "create_exec_approval_requirement_for_command env p req = Some (NeedsApproval reason a)"
  shows "case req_approval_policy req of
      Never \<Rightarrow> False
    | Granular g \<Rightarrow> (if list_ex (policy_match_with Prompt) (request_matches env p req)
                     then gr_rules g else gr_sandbox_approval g)
    | _ \<Rightarrow> True"
  using assms unfolding create_requirement_eq requirement_for_def
  by (auto simp: prompt_is_rejected_by_policy_def split: decision.splits option.splits ask_for_approval.splits if_splits)

theorem asks_only_when_allowed_witness:
  "\<exists>reason a. create_exec_approval_requirement_for_command example_env forbid_wc
     (example_request [lit ''rm'', lit ''-f'']
       (Granular \<lparr>gr_sandbox_approval = True, gr_rules = False, gr_skill_approval = False,
          gr_request_permissions = False, gr_mcp_elicitations = False\<rparr>)) =
       Some (NeedsApproval reason a) \<and>
     \<not> list_ex (policy_match_with Prompt) (request_matches example_env forbid_wc
        (example_request [lit ''rm'', lit ''-f'']
       (Granular \<lparr>gr_sandbox_approval = True, gr_rules = False, gr_skill_approval = False,
          gr_request_permissions = False, gr_mcp_elicitations = False\<rparr>)))"
proof -
  let ?g = "\<lparr>gr_sandbox_approval = True, gr_rules = False, gr_skill_approval = False,
          gr_request_permissions = False, gr_mcp_elicitations = False\<rparr>"
  let ?req = "example_request [lit ''rm'', lit ''-f''] (Granular ?g)"
  have 1: "create_exec_approval_requirement_for_command example_env forbid_wc ?req =
      Some (NeedsApproval None (Some \<lparr>amendment_command = [lit ''rm'', lit ''-f'']\<rparr>))"
    by code_simp
  have "req_approval_policy ?req = Granular ?g" by (simp add: example_request_def)
  with asks_only_when_allowed [OF 1] 1 show ?thesis by (auto split: if_splits)
qed

text \<open>
  C25 (safety): a command that is flagged as dangerous and that no rule matches never runs
  unasked, wherever it stands in a script, unless prompts are off and the sandbox is
  explicitly disabled or external; with prompts off and a managed sandbox it is forbidden.
  (A shell script that is the single word \<^verbatim>\<open>zsh\<close> is left out: the safe list replaces that
  word before it parses.)
\<close>

theorem dangerous_never_unasked:
  assumes "cmd \<in> set (request_commands env req)" and "rule_matches_of env p cmd = []"
    and "command_might_be_dangerous (env_parse env) cmd" and "nth_opt cmd 2 \<noteq> Some (lit ''zsh'')"
    and "create_exec_approval_requirement_for_command env p req = Some r"
  shows "(is_skip r \<longrightarrow> req_approval_policy req = Never \<and>
            (\<exists>n. req_permission_profile req \<in> {ProfileDisabled, ProfileExternal n})) \<and>
    (req_approval_policy req = Never \<and> (\<exists>f n. req_permission_profile req = ProfileManaged f n) \<longrightarrow> is_forbidden r)"
proof -
  let ?d = "exec_policy_fallback env req (request_complex env req) cmd"
  have "\<not> is_known_safe_command (env_parse env) (env_powershell env) cmd"
    using known_safe_harmless assms(3,4) by blast
  then have d: "?d = (case req_approval_policy req of
       Never \<Rightarrow> (case req_permission_profile req of
                 ProfileDisabled \<Rightarrow> Allow | ProfileExternal _ \<Rightarrow> Allow | ProfileManaged _ _ \<Rightarrow> Forbidden)
     | _ \<Rightarrow> Prompt)"
    using assms(3)
    by (simp add: exec_policy_fallback_def render_decision_for_unmatched_command_def split: ask_for_approval.split)
  have bound: "?d \<le> request_decision env p req"
    using decision_bound [OF segment_fallback [OF assms(1,2)]] by simp
  note req = requirement_decision [OF assms(5)]
  show ?thesis
  proof (intro conjI impI)
    assume "is_skip r"
    then have "?d = Allow" using req bound by (simp add: le_Allow)
    then show "req_approval_policy req = Never"
      "\<exists>n. req_permission_profile req \<in> {ProfileDisabled, ProfileExternal n}"
      unfolding d by (auto split: ask_for_approval.splits permission_profile.splits)
  next
    assume "req_approval_policy req = Never \<and> (\<exists>f n. req_permission_profile req = ProfileManaged f n)"
    then have "?d = Forbidden" unfolding d by auto
    then show "is_forbidden r" using req bound by (simp add: Forbidden_top)
  qed
qed

theorem dangerous_never_unasked_witness:
  "\<exists>r. create_exec_approval_requirement_for_command example_env forbid_wc
     (example_request [lit ''sudo'', lit ''rm'', lit ''-rf''] Never) = Some r \<and> is_forbidden r"
proof -
  let ?c = "[lit ''sudo'', lit ''rm'', lit ''-rf'']"
  let ?req = "example_request ?c Never"
  have 1: "?c \<in> set (request_commands example_env ?req)" by code_simp
  have 2: "rule_matches_of example_env forbid_wc ?c = []" by code_simp
  have 3: "command_might_be_dangerous (env_parse example_env) ?c" by code_simp
  have 4: "nth_opt ?c 2 \<noteq> Some (lit ''zsh'')" by (simp add: nth_opt_def)
  obtain r where r: "create_exec_approval_requirement_for_command example_env forbid_wc ?req = Some r"
    unfolding create_requirement_eq by blast
  have "req_approval_policy ?req = Never" "req_permission_profile ?req = ProfileManaged () ()"
    by (simp_all add: example_request_def)
  with dangerous_never_unasked [OF 1 2 3 4 r] r show ?thesis by blast
qed

text \<open>
  C37 (liveness): an amendment that the user accepts takes effect: when a single command was
  asked about with a proposed prefix of it, and storing the amendment succeeded, the same
  request is no longer asked about and runs without the sandbox.
\<close>

theorem accepted_amendment_takes_effect:
  assumes "multimap (env_rules env)" and "request_commands env req = [c]"
    and "create_exec_approval_requirement_for_command env p req = Some (NeedsApproval reason (Some a))"
    and "prefix (amendment_command a) c"
    and "append_amendment_and_update env json pf home a p w = (Some (Inr u), p', w')"
  shows "create_exec_approval_requirement_for_command env p' req = Some (Skip True None)"
proof -
  have unmatched: "rule_matches_of env p c = []" by (rule proposed_amendment_unmatched [OF assms(2,3)])
  have "add_prefix_rule (env_rules env) p (amendment_command a) Allow = Inr p'"
    by (rule amendment_stored [OF assms(5,4) unmatched])
  then have after: "matches_for_command_with_options (env_rules env) (env_to_abs env) p' c fb resolving_options =
      [PrefixRuleMatch (amendment_command a) Allow None None]" for fb
    by (rule multimap.matches_after_allow_rule [OF assms(1) _ assms(4) unmatched])
  then have ms: "request_matches env p' req = [PrefixRuleMatch (amendment_command a) Allow None None]"
    using assms(2) by (simp add: request_matches_def)
  then have "request_decision env p' req = Allow" by (simp add: request_decision_def)
  then show ?thesis
    unfolding create_requirement_eq requirement_for_def assms(2)
    by (simp add: ms after policy_match_with_def try_derive_execpolicy_amendment_for_allow_rules_def)
qed

theorem accepted_amendment_takes_effect_witness:
  "\<exists>p' w'. append_amendment_and_update example_env quote_json memory_files (lit ''/h'')
       \<lparr>amendment_command = [lit ''rm'', lit ''-f'']\<rparr> forbid_wc (\<lambda>_. None) = (Some (Inr ()), p', w') \<and>
     create_exec_approval_requirement_for_command example_env p'
       (example_request [lit ''rm'', lit ''-f''] OnRequest) = Some (Skip True None)"
proof -
  let ?a = "\<lparr>amendment_command = [lit ''rm'', lit ''-f'']\<rparr>"
  let ?req = "example_request [lit ''rm'', lit ''-f''] OnRequest"
  let ?run = "append_amendment_and_update example_env quote_json memory_files (lit ''/h'') ?a forbid_wc (\<lambda>_. None)"
  have 1: "multimap (env_rules example_env)" using alist.multimap_axioms by (simp add: example_env_def)
  have 2: "request_commands example_env ?req = [[lit ''rm'', lit ''-f'']]" by code_simp
  have 3: "create_exec_approval_requirement_for_command example_env forbid_wc ?req =
      Some (NeedsApproval None (Some ?a))" by code_simp
  have "fst ?run = Some (Inr ())" by code_simp
  then obtain p' w' where 4: "?run = (Some (Inr ()), p', w')" by (cases ?run) auto
  have 5: "prefix (amendment_command ?a) [lit ''rm'', lit ''-f'']" by simp
  from accepted_amendment_takes_effect [OF 1 2 3 5 4] 4 show ?thesis by blast
qed

end
