(* ===== verification/Head_Tail_Buffer.thy ===== *)
theory Head_Tail_Buffer
  imports Prelude
begin

text \<open>
  \<^verbatim>\<open>codex-rs/core/src/unified_exec/head_tail_buffer.rs\<close>: the capped buffer for the output of a
  process, which keeps a prefix and a suffix. A \<^verbatim>\<open>usize\<close> is a number below 2 to the 64 and
  sums of them saturate. The buffer is shown to refine a function of all the
  bytes pushed.
\<close>

section \<open>The buffer\<close>

type_synonym byte = nat

record head_tail_buffer =
  htb_max_bytes :: nat
  htb_head_budget :: nat
  htb_tail_budget :: nat
  htb_head :: "byte list list"
  htb_tail :: "byte list list"
  htb_head_bytes :: nat
  htb_tail_bytes :: nat
  htb_omitted_bytes :: nat

definition htb_new :: "nat \<Rightarrow> head_tail_buffer" where
  "htb_new max_bytes =
     (let head_budget = max_bytes div 2; tail_budget = max_bytes - head_budget
      in \<lparr>htb_max_bytes = max_bytes, htb_head_budget = head_budget, htb_tail_budget = tail_budget,
          htb_head = [], htb_tail = [], htb_head_bytes = 0, htb_tail_bytes = 0, htb_omitted_bytes = 0\<rparr>)"

definition UNIFIED_EXEC_OUTPUT_MAX_BYTES :: nat where
  "UNIFIED_EXEC_OUTPUT_MAX_BYTES = 1024 * 1024"

definition htb_default :: head_tail_buffer where
  "htb_default = htb_new UNIFIED_EXEC_OUTPUT_MAX_BYTES"

definition retained_bytes :: "head_tail_buffer \<Rightarrow> nat" where
  "retained_bytes b = sat_add (htb_head_bytes b) (htb_tail_bytes b)"

text \<open>The loop drops whole chunks from the front of the tail, and cuts the last of them.\<close>

fun trim_tail_loop :: "nat \<Rightarrow> byte list list \<Rightarrow> nat \<Rightarrow> nat \<Rightarrow> byte list list \<times> nat \<times> nat" where
  "trim_tail_loop excess [] tail_bytes omitted = ([], tail_bytes, omitted)"
| "trim_tail_loop excess (front # rest) tail_bytes omitted =
     (if excess = 0 then (front # rest, tail_bytes, omitted)
      else if excess \<ge> length front then
        trim_tail_loop (excess - length front) rest (tail_bytes - length front)
          (sat_add omitted (length front))
      else (drop excess front # rest, tail_bytes - excess, sat_add omitted excess))"

definition trim_tail_to_budget :: "head_tail_buffer \<Rightarrow> head_tail_buffer" where
  "trim_tail_to_budget b =
     (case trim_tail_loop (htb_tail_bytes b - htb_tail_budget b) (htb_tail b) (htb_tail_bytes b)
             (htb_omitted_bytes b) of
        (tail, tail_bytes, omitted) \<Rightarrow>
          b\<lparr>htb_tail := tail, htb_tail_bytes := tail_bytes, htb_omitted_bytes := omitted\<rparr>)"

definition push_to_tail :: "head_tail_buffer \<Rightarrow> byte list \<Rightarrow> head_tail_buffer" where
  "push_to_tail b chunk =
     (if htb_tail_budget b = 0 then
        b\<lparr>htb_omitted_bytes := sat_add (htb_omitted_bytes b) (length chunk)\<rparr>
      else if length chunk \<ge> htb_tail_budget b then
        (let start = length chunk - htb_tail_budget b;
             kept = drop start chunk;
             dropped = length chunk - length kept
         in b\<lparr>htb_omitted_bytes := sat_add (sat_add (htb_omitted_bytes b) (htb_tail_bytes b)) dropped,
              htb_tail := [kept], htb_tail_bytes := length kept\<rparr>)
      else
        trim_tail_to_budget
          (b\<lparr>htb_tail_bytes := sat_add (htb_tail_bytes b) (length chunk),
             htb_tail := htb_tail b @ [chunk]\<rparr>))"

definition push_chunk :: "head_tail_buffer \<Rightarrow> byte list \<Rightarrow> head_tail_buffer" where
  "push_chunk b chunk =
     (if htb_max_bytes b = 0 then
        b\<lparr>htb_omitted_bytes := sat_add (htb_omitted_bytes b) (length chunk)\<rparr>
      else if htb_head_bytes b < htb_head_budget b then
        (let remaining_head = htb_head_budget b - htb_head_bytes b
         in if length chunk \<le> remaining_head then
              b\<lparr>htb_head_bytes := sat_add (htb_head_bytes b) (length chunk),
                htb_head := htb_head b @ [chunk]\<rparr>
            else
              (let head_part = take remaining_head chunk; tail_part = drop remaining_head chunk;
                   b1 = (if head_part \<noteq> [] then
                           b\<lparr>htb_head_bytes := sat_add (htb_head_bytes b) (length head_part),
                             htb_head := htb_head b @ [head_part]\<rparr>
                         else b)
               in push_to_tail b1 tail_part))
      else push_to_tail b chunk)"

definition snapshot_chunks :: "head_tail_buffer \<Rightarrow> byte list list" where
  "snapshot_chunks b = htb_head b @ htb_tail b"

definition to_bytes :: "head_tail_buffer \<Rightarrow> byte list" where
  "to_bytes b = concat (htb_head b) @ concat (htb_tail b)"

definition drain_chunks :: "head_tail_buffer \<Rightarrow> byte list list \<times> head_tail_buffer" where
  "drain_chunks b =
     (htb_head b @ htb_tail b,
      b\<lparr>htb_head := [], htb_tail := [], htb_head_bytes := 0, htb_tail_bytes := 0, htb_omitted_bytes := 0\<rparr>)"

section \<open>Refinement\<close>

definition last_bytes :: "nat \<Rightarrow> 'a list \<Rightarrow> 'a list" where
  "last_bytes n s = drop (length s - n) s"

text \<open>The abstract state is the list of all the bytes pushed since the buffer was new or drained.\<close>

definition htb_abs :: "head_tail_buffer \<Rightarrow> byte list \<Rightarrow> bool" where
  "htb_abs b s \<longleftrightarrow>
     (let h = htb_max_bytes b div 2; t = htb_max_bytes b - h in
      htb_head_budget b = h \<and> htb_tail_budget b = t \<and>
      concat (htb_head b) = take h s \<and> concat (htb_tail b) = last_bytes t (drop h s) \<and>
      htb_head_bytes b = length (concat (htb_head b)) \<and>
      htb_tail_bytes b = length (concat (htb_tail b)) \<and>
      length s \<le> USIZE_MAX \<and> htb_omitted_bytes b + length (to_bytes b) = length s)"

lemma last_bytes_append: "last_bytes n (s @ t) = last_bytes n (last_bytes n s @ t)"
  by (cases "n \<le> length s") (simp_all add: last_bytes_def add.commute)

lemma length_last_bytes [simp]: "length (last_bytes n s) = min n (length s)"
  by (simp add: last_bytes_def)

lemma last_bytes_all: "length s \<le> n \<Longrightarrow> last_bytes n s = s"
  by (simp add: last_bytes_def)

lemma trim_tail_loop_eq:
  assumes "trim_tail_loop excess tail n omitted = (tail', n', omitted')"
    and "excess \<le> length (concat tail)" "n = length (concat tail)" "omitted + excess \<le> USIZE_MAX"
  shows "concat tail' = drop excess (concat tail) \<and> n' = length (concat tail') \<and> omitted' = omitted + excess"
  using assms
proof (induction excess tail n omitted rule: trim_tail_loop.induct)
  case (2 excess front rest n omitted)
  then show ?case by (auto simp: sat_add_small split: if_splits)
qed auto

lemma trim_tail_to_budget_eq:
  assumes "htb_tail_bytes b = length (concat (htb_tail b))"
    and "htb_omitted_bytes b + length (concat (htb_tail b)) \<le> USIZE_MAX"
  shows "\<exists>tail. trim_tail_to_budget b =
      b\<lparr>htb_tail := tail, htb_tail_bytes := length (concat tail),
        htb_omitted_bytes := htb_omitted_bytes b + (length (concat (htb_tail b)) - length (concat tail))\<rparr> \<and>
    concat tail = last_bytes (htb_tail_budget b) (concat (htb_tail b))"
proof -
  let ?x = "htb_tail_bytes b - htb_tail_budget b"
  obtain tail n om where l: "trim_tail_loop ?x (htb_tail b) (htb_tail_bytes b) (htb_omitted_bytes b) = (tail, n, om)"
    by (cases "trim_tail_loop ?x (htb_tail b) (htb_tail_bytes b) (htb_omitted_bytes b)")
  have e: "concat tail = drop ?x (concat (htb_tail b))" "n = length (concat tail)" "om = htb_omitted_bytes b + ?x"
    using trim_tail_loop_eq [OF l] assms by auto
  have "?x = length (concat (htb_tail b)) - length (concat tail)" unfolding e(1) using assms(1) by simp
  moreover have "concat tail = last_bytes (htb_tail_budget b) (concat (htb_tail b))"
    unfolding e(1) last_bytes_def using assms(1) by simp
  ultimately show ?thesis
    using l e(2,3) by (intro exI [of _ tail]) (simp add: trim_tail_to_budget_def)
qed

lemma push_to_tail_eq:
  assumes "htb_tail_bytes b = length (concat (htb_tail b))"
    and "htb_omitted_bytes b + length (concat (htb_tail b)) + length chunk \<le> USIZE_MAX"
    and "concat (htb_tail b) = last_bytes (htb_tail_budget b) x"
  shows "\<exists>tail. push_to_tail b chunk =
      b\<lparr>htb_tail := tail, htb_tail_bytes := length (concat tail),
        htb_omitted_bytes := htb_omitted_bytes b + (length (concat (htb_tail b)) + length chunk - length (concat tail))\<rparr> \<and>
    concat tail = last_bytes (htb_tail_budget b) (x @ chunk)"
proof -
  let ?t = "htb_tail_budget b"
  consider (zero) "?t = 0" | (big) "?t \<noteq> 0" "length chunk \<ge> ?t" | (small) "?t \<noteq> 0" "length chunk < ?t" by linarith
  then show ?thesis
  proof cases
    case zero
    then have "concat (htb_tail b) = []" using assms(3) by (simp add: last_bytes_def)
    then show ?thesis using zero assms
      by (intro exI [of _ "htb_tail b"]) (simp add: push_to_tail_def sat_add_small last_bytes_def)
  next
    case big
    let ?k = "drop (length chunk - ?t) chunk"
    have "?k = last_bytes ?t (x @ chunk)" using big(2) by (simp add: last_bytes_def)
    moreover have "length ?k = ?t" using big(2) by simp
    ultimately show ?thesis using big assms
      by (intro exI [of _ "[?k]"]) (simp add: push_to_tail_def Let_def sat_add_small)
  next
    case small
    let ?b = "b\<lparr>htb_tail_bytes := sat_add (htb_tail_bytes b) (length chunk), htb_tail := htb_tail b @ [chunk]\<rparr>"
    have 1: "htb_tail_bytes ?b = length (concat (htb_tail ?b))" using assms(1,2) by (simp add: sat_add_small)
    have 2: "htb_omitted_bytes ?b + length (concat (htb_tail ?b)) \<le> USIZE_MAX" using assms(2) by simp
    obtain tail where t: "trim_tail_to_budget ?b =
      ?b\<lparr>htb_tail := tail, htb_tail_bytes := length (concat tail),
        htb_omitted_bytes := htb_omitted_bytes ?b + (length (concat (htb_tail ?b)) - length (concat tail))\<rparr>"
      "concat tail = last_bytes (htb_tail_budget ?b) (concat (htb_tail ?b))"
      using trim_tail_to_budget_eq [OF 1 2] by blast
    have "concat tail = last_bytes ?t (x @ chunk)"
      using t(2) assms(3) last_bytes_append [of ?t x chunk] by simp
    then show ?thesis using t(1) small by (intro exI [of _ tail]) (simp add: push_to_tail_def)
  qed
qed

lemma htb_absI:
  "htb_max_bytes b = n \<Longrightarrow> h = n div 2 \<Longrightarrow> htb_head_budget b = h \<Longrightarrow> htb_tail_budget b = n - h \<Longrightarrow>
   concat (htb_head b) = take h s \<Longrightarrow> concat (htb_tail b) = last_bytes (n - h) (drop h s) \<Longrightarrow>
   htb_head_bytes b = length (concat (htb_head b)) \<Longrightarrow> htb_tail_bytes b = length (concat (htb_tail b)) \<Longrightarrow>
   length s \<le> USIZE_MAX \<Longrightarrow>
   htb_omitted_bytes b + (length (concat (htb_head b)) + length (concat (htb_tail b))) = length s \<Longrightarrow>
   htb_abs b s"
  by (simp add: htb_abs_def to_bytes_def Let_def)

text \<open>One push: the three cases of the head, and the tail by the lemma above.\<close>

lemma htb_abs_tail:
  assumes "htb_max_bytes b = n" "h = n div 2" "htb_head_budget b = h" "htb_tail_budget b = n - h"
    and "concat (htb_head b) = take h s" "h \<le> length s" "htb_head_bytes b = length (concat (htb_head b))"
    and "concat (htb_tail b) = last_bytes (n - h) x" "x @ chunk = drop h s"
    and "htb_tail_bytes b = length (concat (htb_tail b))" "length s \<le> USIZE_MAX"
    and "htb_omitted_bytes b + length (concat (htb_head b)) + length (concat (htb_tail b)) + length chunk = length s"
  shows "htb_abs (push_to_tail b chunk) s"
proof -
  have "htb_omitted_bytes b + length (concat (htb_tail b)) + length chunk \<le> USIZE_MAX" using assms(11,12) by linarith
  then obtain tail where t: "push_to_tail b chunk =
      b\<lparr>htb_tail := tail, htb_tail_bytes := length (concat tail),
        htb_omitted_bytes := htb_omitted_bytes b + (length (concat (htb_tail b)) + length chunk - length (concat tail))\<rparr>"
    "concat tail = last_bytes (n - h) (x @ chunk)"
    using push_to_tail_eq [OF assms(10), of chunk x] assms(4,8) by metis
  have tail: "concat tail = last_bytes (n - h) (drop h s)" using t(2) unfolding assms(9) .
  have "length (concat tail) \<le> length (concat (htb_tail b)) + length chunk"
    unfolding t(2) assms(8) by simp
  then have total: "htb_omitted_bytes b + (length (concat (htb_tail b)) + length chunk - length (concat tail)) +
      (length (concat (htb_head b)) + length (concat tail)) = length s"
    using assms(12) by linarith
  show ?thesis
    unfolding t(1)
  proof (rule htb_absI [where n = n and h = h], goal_cases)
    case 6
    show ?case using tail by simp
  next
    case 10
    show ?case using total by simp
  qed (use assms(1-5,7,11) in simp_all)
qed

lemma push_chunk_abs:
  assumes "htb_abs b s" "length (s @ chunk) \<le> USIZE_MAX"
  shows "htb_abs (push_chunk b chunk) (s @ chunk)"
proof -
  let ?h = "htb_max_bytes b div 2" let ?t = "htb_max_bytes b - ?h"
  have a: "htb_head_budget b = ?h" "htb_tail_budget b = ?t" "concat (htb_head b) = take ?h s"
    "concat (htb_tail b) = last_bytes ?t (drop ?h s)" "htb_head_bytes b = length (concat (htb_head b))"
    "htb_tail_bytes b = length (concat (htb_tail b))"
    "htb_omitted_bytes b + (length (concat (htb_head b)) + length (concat (htb_tail b))) = length s"
    using assms(1) unfolding htb_abs_def Let_def to_bytes_def length_append by blast+
  have hb: "htb_head_bytes b = min (length s) ?h" using a(3,5) by simp
  consider (none) "htb_max_bytes b = 0"
    | (fits) "htb_max_bytes b \<noteq> 0" "length s < ?h" "length chunk \<le> ?h - length s"
    | (split) "htb_max_bytes b \<noteq> 0" "length s < ?h" "length chunk > ?h - length s"
    | (tail) "htb_max_bytes b \<noteq> 0" "?h \<le> length s" by linarith
  then show ?thesis
  proof cases
    case none
    then show ?thesis using a assms(2)
      by (simp add: push_chunk_def htb_abs_def Let_def to_bytes_def last_bytes_def sat_add_small)
  next
    case fits
    then have "push_chunk b chunk =
        b\<lparr>htb_head_bytes := length s + length chunk, htb_head := htb_head b @ [chunk]\<rparr>"
      using a(1) hb assms(2) by (simp add: push_chunk_def sat_add_small)
    then show ?thesis using fits a assms(2) by (simp add: htb_abs_def to_bytes_def last_bytes_def Let_def)
  next
    case split
    let ?r = "?h - length s"
    let ?b = "b\<lparr>htb_head_bytes := ?h, htb_head := htb_head b @ [take ?r chunk]\<rparr>"
    have "take ?r chunk \<noteq> []" using split by (cases chunk) auto
    then have "push_chunk b chunk = push_to_tail ?b (drop ?r chunk)"
      using split a(1) hb assms(2) by (simp add: push_chunk_def Let_def sat_add_small)
    moreover have "htb_abs (push_to_tail ?b (drop ?r chunk)) (s @ chunk)"
    proof (rule htb_abs_tail [where x = "[]" and n = "htb_max_bytes b" and h = ?h], goal_cases)
      case 5
      have "take ?h s = s" using split(2) by simp
      then show ?case using a(3) by simp
    next
      case 9
      have "drop ?h s = []" using split(2) by simp
      then show ?case by (simp only: drop_append append_Nil)
    qed (use split a assms(2) in \<open>simp_all add: last_bytes_def\<close>)
    ultimately show ?thesis by simp
  next
    case tail
    then have "push_chunk b chunk = push_to_tail b chunk" using a(1) hb by (simp add: push_chunk_def)
    moreover have "htb_abs (push_to_tail b chunk) (s @ chunk)"
    proof (rule htb_abs_tail [where x = "drop ?h s" and n = "htb_max_bytes b" and h = ?h], goal_cases)
      case 5 show ?case using tail(2) a(3) by simp
      case 9 show ?case using tail(2) by simp
      case 12 show ?case using a(7) by simp
    qed (use tail a(1,2,4,5,6) assms(2) in \<open>simp_all only: refl length_append trans_le_add1\<close>)
    ultimately show ?thesis by simp
  qed
qed

lemma htb_new_abs: "htb_abs (htb_new n) []"
  by (simp add: htb_abs_def htb_new_def to_bytes_def last_bytes_def Let_def)

lemma push_chunks_abs:
  "htb_abs b s \<Longrightarrow> length (s @ concat chunks) \<le> USIZE_MAX \<Longrightarrow>
   htb_abs (foldl push_chunk b chunks) (s @ concat chunks)"
proof (induction chunks arbitrary: b s)
  case (Cons c cs)
  have "htb_abs (push_chunk b c) (s @ c)" using Cons.prems by (intro push_chunk_abs) simp_all
  then show ?case using Cons.IH [of "push_chunk b c" "s @ c"] Cons.prems(2) by simp
qed simp

lemma push_chunk_max: "htb_max_bytes (push_chunk b chunk) = htb_max_bytes b"
  by (simp add: push_chunk_def push_to_tail_def trim_tail_to_budget_def Let_def split: prod.split)

lemma push_chunks_max: "htb_max_bytes (foldl push_chunk b chunks) = htb_max_bytes b"
  by (induction chunks arbitrary: b) (simp_all add: push_chunk_max)

text \<open>What is kept of a stream of bytes under a limit.\<close>

definition kept_bytes :: "nat \<Rightarrow> byte list \<Rightarrow> byte list" where
  "kept_bytes n s = (if length s \<le> n then s else take (n div 2) s @ last_bytes (n - n div 2) s)"

lemma htb_abs_bytes: "htb_abs b s \<Longrightarrow> to_bytes b = kept_bytes (htb_max_bytes b) s"
proof -
  let ?n = "htb_max_bytes b" let ?h = "?n div 2"
  assume "htb_abs b s"
  then have e: "to_bytes b = take ?h s @ last_bytes (?n - ?h) (drop ?h s)"
    unfolding htb_abs_def Let_def to_bytes_def by simp
  show ?thesis
  proof (cases "length s \<le> ?n")
    case True
    then have "last_bytes (?n - ?h) (drop ?h s) = drop ?h s" by (intro last_bytes_all) simp
    then show ?thesis using e True by (simp add: kept_bytes_def)
  next
    case False
    then have "length s - ?h - (?n - ?h) + ?h = length s - (?n - ?h)" by simp
    then show ?thesis using e False by (simp add: kept_bytes_def last_bytes_def add.commute)
  qed
qed

section \<open>Properties\<close>

text \<open>
  C13 (refinement): a buffer fed any chunks keeps exactly what the whole output of the process
  leaves under the limit: all of it if it fits, and else its first half-limit and its last
  bytes; it does not matter how the output was cut into chunks. The counters agree with the
  contents: retained bytes are those kept and omitted bytes are all the others.
\<close>

theorem buffer_keeps_head_and_tail:
  assumes "length (concat chunks) \<le> USIZE_MAX"
  shows "let b = foldl push_chunk (htb_new n) chunks in
    to_bytes b = kept_bytes n (concat chunks) \<and> concat (snapshot_chunks b) = to_bytes b \<and>
    retained_bytes b = length (to_bytes b) \<and>
    htb_omitted_bytes b = length (concat chunks) - length (to_bytes b)"
proof -
  let ?b = "foldl push_chunk (htb_new n) chunks"
  have abs: "htb_abs ?b (concat chunks)"
    using push_chunks_abs [OF htb_new_abs, of chunks n] assms by simp
  have max: "htb_max_bytes ?b = n" by (simp add: push_chunks_max htb_new_def Let_def)
  have fields: "htb_head_bytes ?b = length (concat (htb_head ?b))" "htb_tail_bytes ?b = length (concat (htb_tail ?b))"
    "htb_omitted_bytes ?b + length (to_bytes ?b) = length (concat chunks)"
    using abs unfolding htb_abs_def Let_def by blast+
  then have "htb_omitted_bytes ?b = length (concat chunks) - length (to_bytes ?b)" by linarith
  moreover have "retained_bytes ?b = length (to_bytes ?b)"
    using fields assms unfolding retained_bytes_def to_bytes_def by (subst sat_add_small) simp_all
  moreover have "concat (snapshot_chunks ?b) = to_bytes ?b" by (simp add: snapshot_chunks_def to_bytes_def)
  moreover have "to_bytes ?b = kept_bytes n (concat chunks)" using htb_abs_bytes [OF abs] unfolding max .
  ultimately show ?thesis unfolding Let_def by blast
qed

theorem buffer_keeps_head_and_tail_witness:
  "to_bytes (foldl push_chunk (htb_new 4) [[1, 2, 3], [4, 5], [6]]) = [1, 2, 5, 6] \<and>
   htb_omitted_bytes (foldl push_chunk (htb_new 4) [[1, 2, 3], [4, 5], [6]]) = 2"
proof -
  have "length (concat [[1, 2, 3], [4, 5], [6 :: byte]]) \<le> USIZE_MAX" by (simp add: USIZE_MAX_def)
  from buffer_keeps_head_and_tail [OF this, of 4] show ?thesis
    by (simp add: Let_def kept_bytes_def last_bytes_def)
qed

text \<open>
  A buffer never holds more than its limit, through any sequence of pushes and
  drains; draining hands out what was retained and leaves the buffer as new.
\<close>

theorem buffer_within_limit:
  assumes "length (concat chunks) \<le> USIZE_MAX"
  shows "let b = foldl push_chunk (htb_new n) chunks in
    length (to_bytes b) \<le> n \<and> drain_chunks b = (snapshot_chunks b, htb_new n)"
proof -
  let ?b = "foldl push_chunk (htb_new n) chunks"
  have abs: "htb_abs ?b (concat chunks)"
    using push_chunks_abs [OF htb_new_abs, of chunks n] assms by simp
  have max: "htb_max_bytes ?b = n" by (simp add: push_chunks_max htb_new_def Let_def)
  have "length (to_bytes ?b) \<le> n"
    unfolding htb_abs_bytes [OF abs] max by (simp add: kept_bytes_def)
  moreover have "htb_head_budget ?b = n div 2" "htb_tail_budget ?b = n - n div 2"
    using abs unfolding htb_abs_def Let_def max by blast+
  then have "snd (drain_chunks ?b) = htb_new n"
    using max unfolding drain_chunks_def htb_new_def Let_def snd_conv
    by (intro head_tail_buffer.equality) simp_all
  ultimately show ?thesis unfolding Let_def drain_chunks_def snapshot_chunks_def by simp
qed

theorem buffer_within_limit_witness:
  "drain_chunks (foldl push_chunk (htb_new 3) [[1, 2], [3, 4, 5]]) = ([[1], [4, 5]], htb_new 3)"
proof -
  have "length (concat [[1, 2], [3, 4, 5 :: byte]]) \<le> USIZE_MAX" by (simp add: USIZE_MAX_def)
  moreover have "snapshot_chunks (foldl push_chunk (htb_new 3) [[1, 2], [3, 4, 5]]) = [[1], [4, 5]]"
    by (simp add: snapshot_chunks_def push_chunk_def push_to_tail_def trim_tail_to_budget_def htb_new_def
        Let_def sat_add_def USIZE_MAX_def)
  ultimately show ?thesis using buffer_within_limit [of "[[1, 2], [3, 4, 5]]" 3] by (simp add: Let_def)
qed

end
