(* ===== verification/Truncation.thy ===== *)
theory Truncation
  imports Prelude
begin

text \<open>
  \<^verbatim>\<open>codex-rs/utils/string/src/truncate.rs\<close> and \<^verbatim>\<open>codex-rs/utils/output-truncation/src/lib.rs\<close>: cutting
  the middle out of long output on char boundaries. Offsets are byte offsets; a slice of a
  string at an offset that is not on a char boundary is \<open>None\<close>, where Rust panics.
\<close>

section \<open>Slices by byte offset\<close>

fun byte_prefix :: "nat \<Rightarrow> rstr \<Rightarrow> rstr option" where
  "byte_prefix n [] = (if n = 0 then Some [] else None)"
| "byte_prefix n (c # s) =
     (if n = 0 then Some []
      else if len_utf8 c \<le> n then map_option ((#) c) (byte_prefix (n - len_utf8 c) s) else None)"

fun byte_suffix :: "nat \<Rightarrow> rstr \<Rightarrow> rstr option" where
  "byte_suffix n [] = (if n = 0 then Some [] else None)"
| "byte_suffix n (c # s) =
     (if n = 0 then Some (c # s)
      else if len_utf8 c \<le> n then byte_suffix (n - len_utf8 c) s else None)"

section \<open>Truncating a string\<close>

definition APPROX_BYTES_PER_TOKEN :: nat where "APPROX_BYTES_PER_TOKEN = 4"

definition approx_token_count :: "rstr \<Rightarrow> nat" where
  "approx_token_count s = sat_add (utf8_len s) (APPROX_BYTES_PER_TOKEN - 1) div APPROX_BYTES_PER_TOKEN"

definition approx_bytes_for_tokens :: "nat \<Rightarrow> nat" where
  "approx_bytes_for_tokens tokens = sat_mul tokens APPROX_BYTES_PER_TOKEN"

definition approx_tokens_from_byte_count :: "nat \<Rightarrow> nat" where
  "approx_tokens_from_byte_count bytes =
     sat_add bytes (APPROX_BYTES_PER_TOKEN - 1) div APPROX_BYTES_PER_TOKEN"

text \<open>
  The loop of \<open>split_string\<close> over the chars from offset \<open>idx\<close>, with its variables
  \<^verbatim>\<open>prefix_end\<close>, \<^verbatim>\<open>suffix_start\<close>, \<^verbatim>\<open>removed_chars\<close> and \<^verbatim>\<open>suffix_started\<close>.
\<close>

fun split_loop :: "nat \<Rightarrow> nat \<Rightarrow> nat \<Rightarrow> nat \<Rightarrow> nat \<Rightarrow> nat \<Rightarrow> bool \<Rightarrow> rstr \<Rightarrow> nat \<times> nat \<times> nat" where
  "split_loop beginning_bytes target idx prefix_end suffix_start removed started [] =
     (prefix_end, suffix_start, removed)"
| "split_loop beginning_bytes target idx prefix_end suffix_start removed started (ch # cs) =
     (let char_end = idx + len_utf8 ch in
      if char_end \<le> beginning_bytes then
        split_loop beginning_bytes target char_end char_end suffix_start removed started cs
      else if idx \<ge> target then
        (if \<not> started
         then split_loop beginning_bytes target char_end prefix_end idx removed True cs
         else split_loop beginning_bytes target char_end prefix_end suffix_start removed started cs)
      else split_loop beginning_bytes target char_end prefix_end suffix_start (sat_add removed 1) started cs)"

definition split_string :: "rstr \<Rightarrow> nat \<Rightarrow> nat \<Rightarrow> (nat \<times> rstr \<times> rstr) option" where
  "split_string s beginning_bytes end_bytes =
     (if s = [] then Some (0, [], [])
      else
        (let len = utf8_len s; tail_start_target = len - end_bytes in
         case split_loop beginning_bytes tail_start_target 0 0 len 0 False s of
           (prefix_end, suffix_start0, removed_chars) \<Rightarrow>
             (let suffix_start = (if suffix_start0 < prefix_end then prefix_end else suffix_start0) in
              case (byte_prefix prefix_end s, byte_suffix suffix_start s) of
                (Some before, Some after) \<Rightarrow> Some (removed_chars, before, after)
              | _ \<Rightarrow> None)))"

definition split_budget :: "nat \<Rightarrow> nat \<times> nat" where
  "split_budget budget = (let left = budget div 2 in (left, budget - left))"

definition ELLIPSIS :: uchar where "ELLIPSIS = 8230"

definition format_truncation_marker :: "bool \<Rightarrow> nat \<Rightarrow> rstr" where
  "format_truncation_marker use_tokens removed_count =
     [ELLIPSIS] @ show_nat removed_count @
     lit (if use_tokens then '' tokens truncated'' else '' chars truncated'') @ [ELLIPSIS]"

definition removed_units :: "bool \<Rightarrow> nat \<Rightarrow> nat \<Rightarrow> nat" where
  "removed_units use_tokens removed_bytes removed_chars =
     (if use_tokens then approx_tokens_from_byte_count removed_bytes else removed_chars)"

definition assemble_truncated_output :: "rstr \<Rightarrow> rstr \<Rightarrow> rstr \<Rightarrow> rstr" where
  "assemble_truncated_output pre suf marker = pre @ marker @ suf"

definition truncate_with_byte_estimate :: "rstr \<Rightarrow> nat \<Rightarrow> bool \<Rightarrow> rstr option" where
  "truncate_with_byte_estimate s max_bytes use_tokens =
     (if s = [] then Some []
      else
        (let total_chars = length s; total_bytes = utf8_len s in
         if max_bytes = 0 then
           Some (format_truncation_marker use_tokens (removed_units use_tokens total_bytes total_chars))
         else if total_bytes \<le> max_bytes then Some s
         else
           (case split_budget max_bytes of
              (left_budget, right_budget) \<Rightarrow>
                (case split_string s left_budget right_budget of
                   None \<Rightarrow> None
                 | Some (removed_chars, left, right) \<Rightarrow>
                     (let marker = format_truncation_marker use_tokens
                            (removed_units use_tokens (total_bytes - max_bytes) removed_chars)
                      in Some (assemble_truncated_output left right marker))))))"

definition truncate_middle_chars :: "rstr \<Rightarrow> nat \<Rightarrow> rstr option" where
  "truncate_middle_chars s max_bytes = truncate_with_byte_estimate s max_bytes False"

definition truncate_middle_with_token_budget :: "rstr \<Rightarrow> nat \<Rightarrow> (rstr \<times> nat option) option" where
  "truncate_middle_with_token_budget s max_tokens =
     (if s = [] then Some ([], None)
      else if max_tokens > 0 \<and> utf8_len s \<le> approx_bytes_for_tokens max_tokens then Some (s, None)
      else
        (case truncate_with_byte_estimate s (approx_bytes_for_tokens max_tokens) True of
           None \<Rightarrow> None
         | Some truncated \<Rightarrow>
             (let total_tokens = approx_token_count s in
              Some (if truncated = s then (truncated, None) else (truncated, Some total_tokens)))))"

section \<open>Policies\<close>

datatype truncation_policy = Bytes nat | Tokens nat

fun token_budget :: "truncation_policy \<Rightarrow> nat" where
  "token_budget (Bytes bytes) = approx_tokens_from_byte_count bytes"
| "token_budget (Tokens tokens) = tokens"

fun byte_budget :: "truncation_policy \<Rightarrow> nat" where
  "byte_budget (Bytes bytes) = bytes"
| "byte_budget (Tokens tokens) = approx_bytes_for_tokens tokens"

fun truncate_text :: "rstr \<Rightarrow> truncation_policy \<Rightarrow> rstr option" where
  "truncate_text content (Bytes bytes) = truncate_middle_chars content bytes"
| "truncate_text content (Tokens tokens) =
     map_option fst (truncate_middle_with_token_budget content tokens)"

definition formatted_truncate_text :: "rstr \<Rightarrow> truncation_policy \<Rightarrow> rstr option" where
  "formatted_truncate_text content policy =
     (if utf8_len content \<le> byte_budget policy then Some content
      else map_option
             (\<lambda>r. lit ''Total output lines: '' @ show_nat (length (str_lines content)) @ [NL, NL] @ r)
             (truncate_text content policy))"

section \<open>Content items\<close>

datatype image_detail = Detail_Auto | Detail_Low | Detail_High | Detail_Original

datatype output_content_item =
    Output_InputText (item_text: rstr)
  | Output_InputImage (item_image_url: rstr) (item_detail: "image_detail option")

fun text_of_item :: "output_content_item \<Rightarrow> rstr option" where
  "text_of_item (Output_InputText t) = Some t"
| "text_of_item (Output_InputImage _ _) = None"

definition is_image :: "output_content_item \<Rightarrow> bool" where
  "is_image i \<longleftrightarrow> text_of_item i = None"

definition join_segments :: "rstr list \<Rightarrow> rstr" where
  "join_segments segments =
     foldl (\<lambda>combined t. (if combined \<noteq> [] then combined @ [NL] else combined) @ t) [] segments"

definition formatted_truncate_text_content_items_with_policy ::
    "output_content_item list \<Rightarrow> truncation_policy \<Rightarrow> (output_content_item list \<times> nat option) option" where
  "formatted_truncate_text_content_items_with_policy items policy =
     (let text_segments = List.map_filter text_of_item items in
      if text_segments = [] then Some (items, None)
      else
        (let combined = join_segments text_segments in
         if utf8_len combined \<le> byte_budget policy then Some (items, None)
         else map_option
                (\<lambda>t. (Output_InputText t # filter is_image items, Some (approx_token_count combined)))
                (formatted_truncate_text combined policy)))"

text \<open>What a text costs under a policy, and the policy for what remains of the budget.\<close>

fun item_cost :: "truncation_policy \<Rightarrow> rstr \<Rightarrow> nat" where
  "item_cost (Bytes _) t = utf8_len t"
| "item_cost (Tokens _) t = approx_token_count t"

fun snippet_policy :: "truncation_policy \<Rightarrow> nat \<Rightarrow> truncation_policy" where
  "snippet_policy (Bytes _) remaining = Bytes remaining"
| "snippet_policy (Tokens _) remaining = Tokens remaining"

fun items_loop ::
    "truncation_policy \<Rightarrow> nat \<Rightarrow> nat \<Rightarrow> output_content_item list \<Rightarrow> output_content_item list \<Rightarrow>
     (output_content_item list \<times> nat) option" where
  "items_loop policy remaining omitted out [] = Some (out, omitted)"
| "items_loop policy remaining omitted out (Output_InputText t # items) =
     (if remaining = 0 then items_loop policy remaining (omitted + 1) out items
      else if item_cost policy t \<le> remaining then
        items_loop policy (remaining - item_cost policy t) omitted (out @ [Output_InputText t]) items
      else
        (case truncate_text t (snippet_policy policy remaining) of
           None \<Rightarrow> None
         | Some snippet \<Rightarrow>
             if snippet = [] then items_loop policy 0 (omitted + 1) out items
             else items_loop policy 0 omitted (out @ [Output_InputText snippet]) items))"
| "items_loop policy remaining omitted out (Output_InputImage url detail # items) =
     items_loop policy remaining omitted (out @ [Output_InputImage url detail]) items"

definition omitted_note :: "nat \<Rightarrow> rstr" where
  "omitted_note n = lit ''[omitted '' @ show_nat n @ lit '' text items ...]''"

definition truncate_function_output_items_with_policy ::
    "output_content_item list \<Rightarrow> truncation_policy \<Rightarrow> output_content_item list option" where
  "truncate_function_output_items_with_policy items policy =
     (let remaining_budget = (case policy of Bytes _ \<Rightarrow> byte_budget policy | Tokens _ \<Rightarrow> token_budget policy)
      in map_option
           (\<lambda>(out, omitted). if omitted > 0 then out @ [Output_InputText (omitted_note omitted)] else out)
           (items_loop policy remaining_budget 0 [] items))"

text \<open>\<^verbatim>\<open>i64\<close> in and out; the estimate stays below the limits of both types.\<close>

definition I64_MAX :: int where "I64_MAX = 2 ^ 63 - 1"

definition approx_tokens_from_byte_count_i64 :: "int \<Rightarrow> int" where
  "approx_tokens_from_byte_count_i64 bytes =
     (if bytes \<le> 0 then 0
      else min (int (approx_tokens_from_byte_count (nat bytes))) I64_MAX)"

section \<open>Slices on char boundaries do not panic\<close>

lemma byte_prefix_append [simp]: "byte_prefix (utf8_len p) (p @ q) = Some p"
  by (induction p) (use len_utf8_bounds in \<open>cases q; force\<close>)+

lemma byte_suffix_append [simp]: "byte_suffix (utf8_len p) (p @ q) = Some q"
  by (induction p) (use len_utf8_bounds in \<open>cases q; force\<close>)+

section \<open>Where a string is split\<close>

text \<open>
  Once a char does not fit the beginning, no later one does: the loop keeps the prefix and looks
  for the first offset from the target on.
\<close>

lemma split_loop_started:
  "(cs \<noteq> [] \<Longrightarrow> a < idx + len_utf8 (hd cs)) \<Longrightarrow> t \<le> idx \<Longrightarrow>
   split_loop a t idx pe ss n True cs = (pe, ss, n)"
  by (induction cs arbitrary: idx) (auto simp: Let_def)

lemma split_loop_tail:
  assumes "cs \<noteq> [] \<Longrightarrow> a < idx + len_utf8 (hd cs)" and "n + length cs \<le> USIZE_MAX"
  shows "\<exists>mid after. cs = mid @ after \<and>
           split_loop a t idx pe (idx + utf8_len cs) n False cs = (pe, idx + utf8_len mid, n + length mid) \<and>
           (after \<noteq> [] \<longrightarrow> t \<le> idx + utf8_len mid) \<and>
           (mid \<noteq> [] \<longrightarrow> idx + utf8_len (butlast mid) < t)"
  using assms
proof (induction cs arbitrary: idx n)
  case Nil
  then show ?case by simp
next
  case (Cons c cs)
  show ?case
  proof (cases "t \<le> idx")
    case True
    then have "split_loop a t idx pe (idx + utf8_len (c # cs)) n False (c # cs) = (pe, idx, n)"
      using Cons.prems(1) by (simp add: Let_def split_loop_started)
    with True show ?thesis
      by (intro exI[of _ "[]"] exI[of _ "c # cs"]) simp
  next
    case False
    have "cs \<noteq> [] \<Longrightarrow> a < (idx + len_utf8 c) + len_utf8 (hd cs)" and "(n + 1) + length cs \<le> USIZE_MAX"
      using Cons.prems by simp_all
    from Cons.IH [OF this] obtain mid after where *: "cs = mid @ after"
      "split_loop a t (idx + len_utf8 c) pe (idx + len_utf8 c + utf8_len cs) (n + 1) False cs =
         (pe, idx + len_utf8 c + utf8_len mid, n + 1 + length mid)"
      "after \<noteq> [] \<longrightarrow> t \<le> idx + len_utf8 c + utf8_len mid"
      "mid \<noteq> [] \<longrightarrow> idx + len_utf8 c + utf8_len (butlast mid) < t"
      by blast
    have "split_loop a t idx pe (idx + utf8_len (c # cs)) n False (c # cs) =
            (pe, idx + utf8_len (c # mid), n + length (c # mid))"
      using Cons.prems False *(2) by (simp add: Let_def sat_add_small add.assoc)
    with * False show ?thesis
      by (intro exI[of _ "c # mid"] exI[of _ after]) (simp add: add.assoc)
  qed
qed

lemma split_loop_prefix:
  "\<exists>before rest. s = before @ rest \<and>
     split_loop a t idx idx ss n False s =
       split_loop a t (idx + utf8_len before) (idx + utf8_len before) ss n False rest \<and>
     (before \<noteq> [] \<longrightarrow> idx + utf8_len before \<le> a) \<and>
     (rest \<noteq> [] \<longrightarrow> a < idx + utf8_len before + len_utf8 (hd rest))"
proof (induction s arbitrary: idx)
  case Nil
  then show ?case by simp
next
  case (Cons c s)
  show ?case
  proof (cases "idx + len_utf8 c \<le> a")
    case True
    from Cons.IH[of "idx + len_utf8 c"] obtain before rest where "s = before @ rest"
      "split_loop a t (idx + len_utf8 c) (idx + len_utf8 c) ss n False s =
         split_loop a t (idx + len_utf8 c + utf8_len before) (idx + len_utf8 c + utf8_len before)
           ss n False rest"
      "before \<noteq> [] \<longrightarrow> idx + len_utf8 c + utf8_len before \<le> a"
      "rest \<noteq> [] \<longrightarrow> a < idx + len_utf8 c + utf8_len before + len_utf8 (hd rest)" by blast
    with True show ?thesis
      by (intro exI[of _ "c # before"] exI[of _ rest]) (auto simp: Let_def add.assoc)
  next
    case False
    then show ?thesis by (intro exI[of _ "[]"] exI[of _ "c # s"]) simp
  qed
qed

text \<open>
  The parts of a split: the longest beginning and, of what is left, the longest end that fit, and
  the number of chars between them.
\<close>

definition split_ok :: "rstr \<Rightarrow> nat \<Rightarrow> nat \<Rightarrow> nat \<Rightarrow> rstr \<Rightarrow> rstr \<Rightarrow> rstr \<Rightarrow> bool" where
  "split_ok s a b removed before mid after \<longleftrightarrow>
     s = before @ mid @ after \<and> removed = length mid \<and>
     utf8_len before \<le> a \<and> utf8_len after \<le> b \<and>
     (mid \<noteq> [] \<longrightarrow> a < utf8_len (before @ [hd mid]) \<and> b < utf8_len (last mid # after))"

lemma split_string_ok:
  assumes "utf8_len s \<le> USIZE_MAX"
  shows "\<exists>removed before mid after.
           split_string s a b = Some (removed, before, after) \<and> split_ok s a b removed before mid after"
proof (cases "s = []")
  case True
  then show ?thesis by (simp add: split_string_def split_ok_def)
next
  case False
  define t where "t = utf8_len s - b"
  obtain before rest where P: "s = before @ rest"
    "split_loop a t 0 0 (utf8_len s) 0 False s =
       split_loop a t (utf8_len before) (utf8_len before) (utf8_len s) 0 False rest"
    "before \<noteq> [] \<longrightarrow> utf8_len before \<le> a"
    "rest \<noteq> [] \<longrightarrow> a < utf8_len before + len_utf8 (hd rest)"
    using split_loop_prefix[of s a t 0 "utf8_len s" 0] unfolding add_0 by blast
  have "0 + length rest \<le> USIZE_MAX"
    using assms P(1) length_le_utf8_len[of rest] by simp
  from split_loop_tail[OF P(4)[rule_format] this, of t "utf8_len before"] obtain mid after where M: "rest = mid @ after"
    "split_loop a t (utf8_len before) (utf8_len before) (utf8_len before + utf8_len rest) 0 False rest =
       (utf8_len before, utf8_len before + utf8_len mid, length mid)"
    "after \<noteq> [] \<longrightarrow> t \<le> utf8_len before + utf8_len mid"
    "mid \<noteq> [] \<longrightarrow> utf8_len before + utf8_len (butlast mid) < t"
    unfolding add_0 by blast
  have loop: "split_loop a t 0 0 (utf8_len s) 0 False s =
                (utf8_len before, utf8_len (before @ mid), length mid)"
    using P(1,2) M(2) by simp
  have "byte_suffix (utf8_len (before @ mid)) s = Some after"
    using byte_suffix_append[of "before @ mid" after] P(1) M(1) by simp
  moreover have "byte_prefix (utf8_len before) s = Some before"
    by (simp add: P(1))
  ultimately have "split_string s a b = Some (length mid, before, after)"
    using loop False by (simp add: split_string_def t_def[symmetric] Let_def)
  moreover have "split_ok s a b (length mid) before mid after"
  proof -
    have "utf8_len after \<le> b" using M(1,3) P(1) by (cases "after = []") (auto simp: t_def)
    moreover have "b < utf8_len (last mid # after)" if "mid \<noteq> []"
    proof -
      have "utf8_len mid = utf8_len (butlast mid) + len_utf8 (last mid)"
        using arg_cong[OF append_butlast_last_id[OF that], of utf8_len] by simp
      then show ?thesis using M(1,4) P(1) that by (simp add: t_def)
    qed
    moreover have "utf8_len before \<le> a" using P(3) by (cases "before = []") auto
    moreover have "a < utf8_len (before @ [hd mid])" if "mid \<noteq> []" using P(4) M(1) that by auto
    ultimately show ?thesis using P(1) M(1) by (simp add: split_ok_def)
  qed
  ultimately show ?thesis by blast
qed

section \<open>What truncation keeps\<close>

definition counts_tokens :: "truncation_policy \<Rightarrow> bool" where
  "counts_tokens policy \<longleftrightarrow> (case policy of Bytes _ \<Rightarrow> False | Tokens _ \<Rightarrow> True)"

definition truncation_marker :: "truncation_policy \<Rightarrow> rstr \<Rightarrow> nat \<Rightarrow> rstr" where
  "truncation_marker policy content removed =
     format_truncation_marker (counts_tokens policy)
       (removed_units (counts_tokens policy) (utf8_len content - byte_budget policy) removed)"

lemma utf8_len_pos: "s \<noteq> [] \<Longrightarrow> 0 < utf8_len s"
  using length_le_utf8_len [of s] by (cases s) auto

lemma truncate_with_byte_estimate_fits:
  "utf8_len s \<le> n \<Longrightarrow> truncate_with_byte_estimate s n u = Some s"
  using utf8_len_pos[of s] by (auto simp: truncate_with_byte_estimate_def Let_def)

lemma truncate_with_byte_estimate_cut:
  assumes "n < utf8_len s" and "utf8_len s \<le> USIZE_MAX"
  shows "\<exists>removed before mid after.
           split_ok s (n div 2) (n - n div 2) removed before mid after \<and>
           truncate_with_byte_estimate s n u =
             Some (before @ format_truncation_marker u (removed_units u (utf8_len s - n) removed) @ after)"
proof (cases "n = 0")
  case True
  have "split_ok s 0 0 (length s) [] s []"
    using assms(1) len_utf8_bounds by (auto simp: split_ok_def)
  then show ?thesis
    using True assms(1)
    by (intro exI[of _ "length s"] exI[of _ "[]"] exI[of _ s])
      (auto simp: truncate_with_byte_estimate_def Let_def)
next
  case False
  obtain removed before mid after where
    "split_string s (n div 2) (n - n div 2) = Some (removed, before, after)"
    "split_ok s (n div 2) (n - n div 2) removed before mid after"
    using split_string_ok[OF assms(2)] by blast
  then show ?thesis
    using False assms(1)
    by (intro exI[of _ removed] exI[of _ before] exI[of _ mid] exI[of _ after])
      (auto simp: truncate_with_byte_estimate_def Let_def split_budget_def assemble_truncated_output_def)
qed

lemma truncate_text_estimate:
  "truncate_text content policy =
     truncate_with_byte_estimate content (byte_budget policy) (counts_tokens policy)"
proof (cases policy)
  case (Bytes n)
  then show ?thesis by (simp add: truncate_middle_chars_def counts_tokens_def)
next
  case (Tokens n)
  have "truncate_with_byte_estimate [] m u = Some []" for m u
    by (simp add: truncate_with_byte_estimate_def)
  with Tokens show ?thesis
    by (auto simp: truncate_middle_with_token_budget_def counts_tokens_def Let_def
        truncate_with_byte_estimate_fits split: option.splits)
qed

lemma truncate_text_fits:
  "utf8_len content \<le> byte_budget policy \<Longrightarrow> truncate_text content policy = Some content"
  by (simp add: truncate_text_estimate truncate_with_byte_estimate_fits)

lemma truncate_text_cut:
  assumes "byte_budget policy < utf8_len content" and "utf8_len content \<le> USIZE_MAX"
  shows "\<exists>removed before mid after.
           split_ok content (byte_budget policy div 2) (byte_budget policy - byte_budget policy div 2)
             removed before mid after \<and>
           truncate_text content policy = Some (before @ truncation_marker policy content removed @ after)"
  using truncate_with_byte_estimate_cut[OF assms, of "counts_tokens policy"]
  by (simp add: truncate_text_estimate truncation_marker_def)

lemma truncate_text_nonempty:
  assumes "content \<noteq> []" and "utf8_len content \<le> USIZE_MAX"
  shows "\<exists>r. truncate_text content policy = Some r \<and> r \<noteq> []"
proof (cases "utf8_len content \<le> byte_budget policy")
  case True
  with assms show ?thesis by (simp add: truncate_text_fits)
next
  case False
  with truncate_text_cut[of policy content] assms show ?thesis
    by (auto simp: truncation_marker_def format_truncation_marker_def)
qed

text \<open>
  C27 (bounds): truncating a text never slices a string inside a char. A text within the budget is
  returned as it is. A longer one becomes its longest beginning within half of the budget, a marker
  and the longest end of what is left within the other half: what is kept never exceeds the budget,
  the next char on either side would not fit, and what is left out is one block in the middle.
\<close>
theorem truncate_text_keeps_ends:
  assumes "utf8_len content \<le> USIZE_MAX"
  shows "if utf8_len content \<le> byte_budget policy then truncate_text content policy = Some content
         else \<exists>before mid after.
                content = before @ mid @ after \<and>
                truncate_text content policy =
                  Some (before @ truncation_marker policy content (length mid) @ after) \<and>
                utf8_len (before @ after) \<le> byte_budget policy \<and>
                mid \<noteq> [] \<and> byte_budget policy div 2 < utf8_len (before @ [hd mid]) \<and>
                byte_budget policy - byte_budget policy div 2 < utf8_len (last mid # after)"
proof (cases "utf8_len content \<le> byte_budget policy")
  case True
  then show ?thesis by (simp add: truncate_text_fits)
next
  case False
  then obtain removed before mid after where
    "split_ok content (byte_budget policy div 2) (byte_budget policy - byte_budget policy div 2)
       removed before mid after"
    "truncate_text content policy = Some (before @ truncation_marker policy content removed @ after)"
    using truncate_text_cut[of policy content] assms by auto
  moreover from this(1) False have "mid \<noteq> []" by (auto simp: split_ok_def)
  ultimately have "content = before @ mid @ after \<and>
    truncate_text content policy =
      Some (before @ truncation_marker policy content (length mid) @ after) \<and>
    utf8_len (before @ after) \<le> byte_budget policy \<and>
    mid \<noteq> [] \<and> byte_budget policy div 2 < utf8_len (before @ [hd mid]) \<and>
    byte_budget policy - byte_budget policy div 2 < utf8_len (last mid # after)"
    by (auto simp: split_ok_def)
  then show ?thesis using False by auto
qed

theorem truncate_text_keeps_ends_witness:
  "utf8_len (lit ''hello world'') = 11 \<and>
   truncate_text (lit ''hello world'') (Bytes 6) =
     Some (lit ''hel'' @ [ELLIPSIS] @ lit ''5 chars truncated'' @ [ELLIPSIS] @ lit ''rld'')"
proof -
  have "utf8_len (lit ''hello world'') \<le> USIZE_MAX"
    by (simp add: lit_def utf8_len_def len_utf8_def USIZE_MAX_def)
  from truncate_text_keeps_ends[OF this, of "Bytes 6"] show ?thesis
    by (simp add: lit_def utf8_len_def len_utf8_def truncate_middle_chars_def
        truncate_with_byte_estimate_def split_budget_def split_string_def Let_def sat_add_def
        USIZE_MAX_def assemble_truncated_output_def format_truncation_marker_def removed_units_def
        show_nat.simps ELLIPSIS_def)
qed

text \<open>
  The marker comes on top of the budget: a text of five bytes with a budget of one token, about
  four bytes, comes back as one of more than five tokens.
\<close>

lemma truncated_text_can_exceed_budget:
  "truncate_middle_with_token_budget (lit ''abcde'') 1 =
     Some (lit ''ab'' @ [ELLIPSIS] @ lit ''1 tokens truncated'' @ [ELLIPSIS] @ lit ''de'', Some 2) \<and>
   approx_token_count (lit ''ab'' @ [ELLIPSIS] @ lit ''1 tokens truncated'' @ [ELLIPSIS] @ lit ''de'') = 7"
  by (simp add: truncate_middle_with_token_budget_def approx_bytes_for_tokens_def
      APPROX_BYTES_PER_TOKEN_def sat_mul_def approx_token_count_def lit_def utf8_len_def len_utf8_def
      truncate_with_byte_estimate_def split_budget_def split_string_def Let_def sat_add_def
      USIZE_MAX_def assemble_truncated_output_def format_truncation_marker_def removed_units_def
      approx_tokens_from_byte_count_def show_nat.simps ELLIPSIS_def)

section \<open>Truncating the items of a tool's output\<close>

abbreviation texts :: "output_content_item list \<Rightarrow> rstr list" where
  "texts items \<equiv> List.map_filter text_of_item items"

abbreviation images :: "output_content_item list \<Rightarrow> output_content_item list" where
  "images items \<equiv> filter is_image items"

lemma texts_simps [simp]:
  "texts [] = []" "texts (Output_InputText t # items) = t # texts items"
  "texts (Output_InputImage u d # items) = texts items" "texts (xs @ ys) = texts xs @ texts ys"
  by (simp_all add: List.map_filter_def)

lemma is_image_simps [simp]:
  "\<not> is_image (Output_InputText t)" "is_image (Output_InputImage u d)"
  by (simp_all add: is_image_def)

lemma texts_images [simp]: "texts (images items) = []"
  by (induction items) (auto simp: is_image_def List.map_filter_def)

lemma images_all: "texts items = [] \<Longrightarrow> images items = items"
  by (induction items) (auto simp: is_image_def List.map_filter_def split: option.splits)

text \<open>With no budget left the images stay and the texts are counted.\<close>

lemma items_loop_exhausted:
  "items_loop policy 0 n out items = Some (out @ images items, n + length (texts items))"
proof (induction items arbitrary: n out)
  case (Cons i items)
  then show ?case by (cases i) simp_all
qed simp

text \<open>How the texts of an output may be cut to a budget: all kept, cut after a text that used up
  the budget, or cut inside a text.\<close>

definition texts_cut :: "truncation_policy \<Rightarrow> nat \<Rightarrow> rstr list \<Rightarrow> rstr list \<Rightarrow> nat \<Rightarrow> bool" where
  "texts_cut policy budget ts kept omitted \<longleftrightarrow>
     (\<exists>pre post. ts = pre @ post \<and> sum_list (map (item_cost policy) pre) \<le> budget \<and>
        (case post of
           [] \<Rightarrow> kept = pre \<and> omitted = 0
         | t # rest \<Rightarrow>
             (let remaining = budget - sum_list (map (item_cost policy) pre) in
              if remaining = 0 then kept = pre \<and> omitted = Suc (length rest)
              else remaining < item_cost policy t \<and> omitted = length rest \<and>
                   (\<exists>snippet. truncate_text t (snippet_policy policy remaining) = Some snippet \<and>
                      snippet \<noteq> [] \<and> kept = pre @ [snippet]))))"

lemma texts_cut_Cons:
  assumes "texts_cut policy (budget - item_cost policy t) ts kept omitted"
    and "item_cost policy t \<le> budget"
  shows "texts_cut policy budget (t # ts) (t # kept) omitted"
proof -
  from assms(1) obtain pre post where *: "ts = pre @ post"
    "sum_list (map (item_cost policy) pre) \<le> budget - item_cost policy t"
    "case post of
           [] \<Rightarrow> kept = pre \<and> omitted = 0
         | u # rest \<Rightarrow>
             (let remaining = budget - item_cost policy t - sum_list (map (item_cost policy) pre) in
              if remaining = 0 then kept = pre \<and> omitted = Suc (length rest)
              else remaining < item_cost policy u \<and> omitted = length rest \<and>
                   (\<exists>snippet. truncate_text u (snippet_policy policy remaining) = Some snippet \<and>
                      snippet \<noteq> [] \<and> kept = pre @ [snippet]))"
    unfolding texts_cut_def by blast
  have "budget - sum_list (map (item_cost policy) (t # pre)) =
        budget - item_cost policy t - sum_list (map (item_cost policy) pre)" by simp
  with * assms(2) show ?thesis
    unfolding texts_cut_def
    by (intro exI[of _ "t # pre"] exI[of _ post]) (auto simp: Let_def split: list.splits if_splits)
qed

lemma texts_cut_exhausted: "ts \<noteq> [] \<Longrightarrow> texts_cut policy 0 ts [] (length ts)"
  unfolding texts_cut_def by (intro exI[of _ "[]"] exI[of _ ts]) (simp split: list.splits)

lemma item_cost_Nil [simp]: "item_cost policy [] = 0"
  by (cases policy) (simp_all add: approx_token_count_def APPROX_BYTES_PER_TOKEN_def sat_add_def
      USIZE_MAX_def)

lemma items_loop_cut:
  assumes "list_all (\<lambda>t. utf8_len t \<le> USIZE_MAX) (texts items)"
  shows "\<exists>out' omitted. items_loop policy budget 0 out items = Some (out @ out', omitted) \<and>
           images out' = images items \<and> texts_cut policy budget (texts items) (texts out') omitted \<and>
           (omitted = 0 \<and> texts out' = texts items \<longrightarrow> out' = items)"
  using assms
proof (induction items arbitrary: budget out)
  case Nil
  then show ?case by (simp add: texts_cut_def)
next
  case (Cons i items)
  show ?case
  proof (cases i)
    case (Output_InputImage u d)
    with Cons.IH[of budget "out @ [i]"] Cons.prems obtain out' omitted where
      "items_loop policy budget 0 (out @ [i]) items = Some ((out @ [i]) @ out', omitted)"
      "images out' = images items" "texts_cut policy budget (texts items) (texts out') omitted"
      "omitted = 0 \<and> texts out' = texts items \<longrightarrow> out' = items" by auto
    with Output_InputImage show ?thesis by (intro exI[of _ "i # out'"] exI[of _ omitted]) simp
  next
    case input_text: (Output_InputText t)
    consider "budget = 0" | "0 < budget" "item_cost policy t \<le> budget"
      | "0 < budget" "budget < item_cost policy t" by linarith
    then show ?thesis
    proof cases
      case 1
      with input_text show ?thesis
        using texts_cut_exhausted[of "t # texts items" policy]
        by (intro exI[of _ "images items"] exI[of _ "Suc (length (texts items))"])
          (simp add: items_loop_exhausted)
    next
      case 2
      with input_text Cons.IH[of "budget - item_cost policy t" "out @ [i]"] Cons.prems obtain out' omitted where
        "items_loop policy (budget - item_cost policy t) 0 (out @ [i]) items =
           Some ((out @ [i]) @ out', omitted)"
        "images out' = images items"
        "texts_cut policy (budget - item_cost policy t) (texts items) (texts out') omitted"
        "omitted = 0 \<and> texts out' = texts items \<longrightarrow> out' = items" by auto
      with 2 input_text show ?thesis
        by (intro exI[of _ "i # out'"] exI[of _ omitted]) (simp add: texts_cut_Cons)
    next
      case 3
      then have "t \<noteq> []" by auto
      then obtain snippet where snippet:
        "truncate_text t (snippet_policy policy budget) = Some snippet" "snippet \<noteq> []"
        using truncate_text_nonempty[of t "snippet_policy policy budget"] Cons.prems input_text by auto
      have "texts_cut policy budget (t # texts items) [snippet] (length (texts items))"
        using 3 snippet unfolding texts_cut_def
        by (intro exI[of _ "[]"] exI[of _ "t # texts items"]) simp
      with 3 input_text snippet show ?thesis
        by (intro exI[of _ "Output_InputText snippet # images items"] exI[of _ "length (texts items)"])
          (simp add: items_loop_exhausted images_all)
    qed
  qed
qed

definition items_budget :: "truncation_policy \<Rightarrow> nat" where
  "items_budget policy = (case policy of Bytes n \<Rightarrow> n | Tokens n \<Rightarrow> n)"

lemma truncate_items_loop:
  "truncate_function_output_items_with_policy items policy =
     map_option (\<lambda>(out, omitted). if omitted > 0 then out @ [Output_InputText (omitted_note omitted)] else out)
       (items_loop policy (items_budget policy) 0 [] items)"
  by (cases policy) (simp_all add: truncate_function_output_items_with_policy_def items_budget_def)

text \<open>
  Truncating the items of a tool's output always returns, keeps every image in
  its place among the images, and cuts the texts at the first one that does not fit: the texts
  before it are untouched, it is itself shortened to what is left of the budget (dropped, if
  nothing is), and the ones after it are dropped and counted in one closing note. With nothing
  dropped and nothing shortened the output is the input.
\<close>
theorem truncate_items_cut:
  assumes "list_all (\<lambda>t. utf8_len t \<le> USIZE_MAX) (texts items)"
  shows "\<exists>out omitted kept.
           truncate_function_output_items_with_policy items policy = Some out \<and>
           images out = images items \<and>
           texts out = kept @ (if omitted = 0 then [] else [omitted_note omitted]) \<and>
           texts_cut policy (items_budget policy) (texts items) kept omitted \<and>
           (omitted = 0 \<and> kept = texts items \<longrightarrow> out = items)"
proof -
  obtain out omitted where *:
    "items_loop policy (items_budget policy) 0 [] items = Some (out, omitted)"
    "images out = images items" "texts_cut policy (items_budget policy) (texts items) (texts out) omitted"
    "omitted = 0 \<and> texts out = texts items \<longrightarrow> out = items"
    using items_loop_cut[OF assms, of policy "items_budget policy" "[]"] by auto
  let ?out = "if omitted > 0 then out @ [Output_InputText (omitted_note omitted)] else out"
  have "truncate_function_output_items_with_policy items policy = Some ?out"
    by (simp add: truncate_items_loop *(1))
  moreover have "images ?out = images items" using *(2) by simp
  moreover have "texts ?out = texts out @ (if omitted = 0 then [] else [omitted_note omitted])" by simp
  moreover have "omitted = 0 \<and> texts out = texts items \<longrightarrow> ?out = items" using *(4) by simp
  ultimately show ?thesis using *(3) by blast
qed

theorem truncate_items_cut_witness:
  "let items = [Output_InputText (lit ''ab''), Output_InputImage (lit ''u'') None,
                Output_InputText (lit ''cd''), Output_InputText (lit ''e'')]
   in list_all (\<lambda>t. utf8_len t \<le> USIZE_MAX) (texts items) \<and>
      truncate_function_output_items_with_policy items (Bytes 2) =
        Some [Output_InputText (lit ''ab''), Output_InputImage (lit ''u'') None,
              Output_InputText (lit ''[omitted 2 text items ...]'')]"
proof -
  let ?items = "[Output_InputText (lit ''ab''), Output_InputImage (lit ''u'') None,
                 Output_InputText (lit ''cd''), Output_InputText (lit ''e'')]"
  have fits: "list_all (\<lambda>t. utf8_len t \<le> USIZE_MAX) (texts ?items)"
    by (simp add: lit_def len_utf8_def USIZE_MAX_def)
  from truncate_items_cut[OF fits, of "Bytes 2"] fits show ?thesis
    by (simp add: Let_def truncate_items_loop items_budget_def lit_def len_utf8_def omitted_note_def
        show_nat.simps)
qed

end
