(* ===== verification/Response_Items.thy ===== *)
theory Response_Items
  imports Truncation
begin

text \<open>
  The items a conversation is made of (\<^verbatim>\<open>codex-rs/protocol/src/models.rs\<close>) and how injected
  context is told from what the user or a developer wrote
  (\<^verbatim>\<open>codex-rs/core/src/event_mapping.rs\<close>, \<^verbatim>\<open>codex-rs/core/src/context/fragment.rs\<close>,
  \<^verbatim>\<open>codex-rs/core/src/context/contextual_user_message.rs\<close>).

  A JSON value (\<^verbatim>\<open>serde_json::Value\<close>) is never inspected here: its type is a parameter of the
  item type. The XML and JSON readers behind hook prompts and messages between agents are
  arguments of the definitions that call them.
\<close>

section \<open>Items\<close>

datatype content_item =
    InputText (content_text: rstr)
  | InputImage rstr "image_detail option"
  | OutputText (content_text: rstr)

datatype message_phase = Commentary | FinalAnswer

datatype local_shell_status = Shell_Completed | Shell_InProgress | Shell_Incomplete

record local_shell_exec_action =
  shell_command :: "rstr list"
  shell_timeout_ms :: "nat option"
  shell_working_directory :: "rstr option"
  shell_env :: "(rstr \<rightharpoonup> rstr) option"
  shell_user :: "rstr option"

datatype local_shell_action = Shell_Exec local_shell_exec_action

datatype web_search_action =
    Search (search_query: "rstr option") (search_queries: "rstr list option")
  | OpenPage "rstr option"
  | FindInPage "rstr option" "rstr option"
  | OtherAction

datatype reasoning_summary = SummaryText rstr

datatype reasoning_content = ReasoningText rstr | ReasoningPlainText rstr

datatype function_call_output_body =
    Body_Text rstr
  | Body_ContentItems "output_content_item list"

record function_call_output_payload =
  body :: function_call_output_body
  success :: "bool option"

definition payload_from_text :: "rstr \<Rightarrow> function_call_output_payload" where
  "payload_from_text content = \<lparr>body = Body_Text content, success = None\<rparr>"

datatype 'j response_item =
    Message "rstr option" (msg_role: rstr) (msg_content: "content_item list") "message_phase option"
  | Reasoning rstr "reasoning_summary list" "reasoning_content list option" "rstr option"
  | LocalShellCall "rstr option" "rstr option" local_shell_status local_shell_action
  | FunctionCall "rstr option" rstr "rstr option" rstr rstr
  | ToolSearchCall "rstr option" "rstr option" "rstr option" rstr 'j
  | FunctionCallOutput rstr function_call_output_payload
  | CustomToolCall "rstr option" "rstr option" rstr rstr rstr
  | CustomToolCallOutput rstr "rstr option" function_call_output_payload
  | ToolSearchOutput "rstr option" rstr rstr "'j list"
  | WebSearchCall "rstr option" "rstr option" "web_search_action option"
  | ImageGenerationCall rstr rstr "rstr option" rstr
  | Compaction rstr
  | ContextCompaction "rstr option"
  | OtherItem

datatype input_modality = Modality_Text | Modality_Image

section \<open>Text injected by the program\<close>

text \<open>\<open>fragment_matches\<close> is the trait's \<^verbatim>\<open>matches_text\<close> for given markers; \<^verbatim>\<open>get\<close> of a range is
  \<^verbatim>\<open>None\<close> past the end and inside a char.\<close>

definition fragment_matches :: "rstr \<Rightarrow> rstr \<Rightarrow> rstr \<Rightarrow> bool" where
  "fragment_matches start_marker end_marker text0 =
     (if start_marker = [] \<or> end_marker = [] then False
      else
        (let trimmed = trim_start text0;
             starts_with_marker =
               (case byte_prefix (utf8_len start_marker) trimmed of
                  None \<Rightarrow> False | Some candidate \<Rightarrow> eq_ignore_ascii_case candidate start_marker);
             trimmed' = trim_end trimmed;
             ends_with_marker =
               (case byte_suffix (utf8_len trimmed' - utf8_len end_marker) trimmed' of
                  None \<Rightarrow> False | Some candidate \<Rightarrow> eq_ignore_ascii_case candidate end_marker)
         in starts_with_marker \<and> ends_with_marker))"

definition fragment_render :: "rstr \<Rightarrow> rstr \<Rightarrow> rstr \<Rightarrow> rstr" where
  "fragment_render start_marker end_marker fragment_body =
     (if start_marker = [] \<and> end_marker = [] then fragment_body
      else start_marker @ fragment_body @ end_marker)"

definition fragment_into :: "rstr \<Rightarrow> rstr \<Rightarrow> rstr \<Rightarrow> rstr \<Rightarrow> 'j response_item" where
  "fragment_into role start_marker end_marker fragment_body =
     Message None role [InputText (fragment_render start_marker end_marker fragment_body)] None"

text \<open>The start and end markers of the registered user fragments.\<close>

definition CONTEXTUAL_USER_FRAGMENTS :: "(rstr \<times> rstr) list" where
  "CONTEXTUAL_USER_FRAGMENTS =
     [(lit ''# AGENTS.md instructions for '', lit ''</INSTRUCTIONS>''),
      (lit ''<environment_context>'', lit ''</environment_context>''),
      (lit ''<skill>'', lit ''</skill>''),
      (lit ''<user_shell_command>'', lit ''</user_shell_command>''),
      (lit ''<turn_aborted>'', lit ''</turn_aborted>''),
      (lit ''<subagent_notification>'', lit ''</subagent_notification>'')]"

definition is_standard_contextual_user_text :: "rstr \<Rightarrow> bool" where
  "is_standard_contextual_user_text t \<longleftrightarrow>
     list_ex (\<lambda>(s, e). fragment_matches s e t) CONTEXTUAL_USER_FRAGMENTS"

text \<open>What the item code takes from elsewhere: the XML reader of hook prompts (text and hook run
  id), whether a string is the JSON of a message between agents, and whether debug assertions are
  compiled in.\<close>

record history_env =
  from_xml_str :: "rstr \<Rightarrow> (rstr \<times> rstr) option"
  is_inter_agent_json :: "rstr \<Rightarrow> bool"
  debug_assertions :: bool

definition parse_hook_prompt_fragment :: "history_env \<Rightarrow> rstr \<Rightarrow> (rstr \<times> rstr) option" where
  "parse_hook_prompt_fragment env t =
     (case from_xml_str env (trim t) of
        None \<Rightarrow> None
      | Some (hook_text, hook_run_id) \<Rightarrow>
          if trim hook_run_id = [] then None else Some (hook_text, hook_run_id))"

fun is_contextual_user_fragment :: "history_env \<Rightarrow> content_item \<Rightarrow> bool" where
  "is_contextual_user_fragment env (InputText t) \<longleftrightarrow>
     parse_hook_prompt_fragment env t \<noteq> None \<or> is_standard_contextual_user_text t"
| "is_contextual_user_fragment env _ \<longleftrightarrow> False"

definition is_contextual_user_message_content :: "history_env \<Rightarrow> content_item list \<Rightarrow> bool" where
  "is_contextual_user_message_content env message \<longleftrightarrow>
     list_ex (is_contextual_user_fragment env) message"

text \<open>\<open>parse_visible_hook_prompt_message\<close> gives the fragments of the item it builds.\<close>

fun visible_hook_fragments :: "history_env \<Rightarrow> content_item list \<Rightarrow> (rstr \<times> rstr) list option" where
  "visible_hook_fragments env [] = Some []"
| "visible_hook_fragments env (InputText t # content) =
     (case parse_hook_prompt_fragment env t of
        Some fragment \<Rightarrow> map_option ((#) fragment) (visible_hook_fragments env content)
      | None \<Rightarrow> if is_standard_contextual_user_text t then visible_hook_fragments env content else None)"
| "visible_hook_fragments env (_ # content) = None"

definition parse_visible_hook_prompt_message ::
    "history_env \<Rightarrow> content_item list \<Rightarrow> (rstr \<times> rstr) list option" where
  "parse_visible_hook_prompt_message env content =
     (case visible_hook_fragments env content of
        Some fragments \<Rightarrow> if fragments = [] then None else Some fragments
      | None \<Rightarrow> None)"

definition CONTEXTUAL_DEVELOPER_PREFIXES :: "rstr list" where
  "CONTEXTUAL_DEVELOPER_PREFIXES =
     [lit ''<permissions instructions>'', lit ''<model_switch>'', lit ''<collaboration_mode>'',
      lit ''<realtime_conversation>'', lit ''<personality_spec>'']"

fun is_contextual_dev_fragment :: "content_item \<Rightarrow> bool" where
  "is_contextual_dev_fragment (InputText t) \<longleftrightarrow>
     (let trimmed = trim_start t in
      list_ex (\<lambda>p. case byte_prefix (utf8_len p) trimmed of
                     None \<Rightarrow> False | Some candidate \<Rightarrow> eq_ignore_ascii_case candidate p)
        CONTEXTUAL_DEVELOPER_PREFIXES)"
| "is_contextual_dev_fragment _ \<longleftrightarrow> False"

definition is_contextual_dev_message_content :: "content_item list \<Rightarrow> bool" where
  "is_contextual_dev_message_content message \<longleftrightarrow> list_ex is_contextual_dev_fragment message"

definition has_non_contextual_dev_message_content :: "content_item list \<Rightarrow> bool" where
  "has_non_contextual_dev_message_content message \<longleftrightarrow>
     list_ex (\<lambda>content_item. \<not> is_contextual_dev_fragment content_item) message"

text \<open>\<^verbatim>\<open>InterAgentCommunication::is_message_content\<close>.\<close>

fun is_inter_agent_instruction_content :: "history_env \<Rightarrow> content_item list \<Rightarrow> bool" where
  "is_inter_agent_instruction_content env [InputText t] \<longleftrightarrow> is_inter_agent_json env t"
| "is_inter_agent_instruction_content env [OutputText t] \<longleftrightarrow> is_inter_agent_json env t"
| "is_inter_agent_instruction_content env _ \<longleftrightarrow> False"

section \<open>Rendered fragments are recognised\<close>

lemma eq_ignore_ascii_case_refl [simp]: "eq_ignore_ascii_case s s"
  by (simp add: eq_ignore_ascii_case_def)

text \<open>A marker is recognised wherever \<open>fragment_render\<close> puts it, when no white space can be trimmed
  off its outer end.\<close>

lemma fragment_matches_render:
  assumes "s \<noteq> []" "e \<noteq> []" "\<not> is_whitespace (hd s)" "\<not> is_whitespace (last e)"
  shows "fragment_matches s e (fragment_render s e b)"
proof -
  have start: "trim_start (s @ b @ e) = s @ b @ e"
    using assms by (simp add: trim_start_ident)
  have "trim_end (s @ b @ e) = s @ b @ e"
    using assms by (simp add: trim_end_ident)
  moreover have "byte_suffix (utf8_len (s @ b @ e) - utf8_len e) (s @ b @ e) = Some e"
    using byte_suffix_append[of "s @ b" e] by simp
  moreover have "byte_prefix (utf8_len s) (s @ b @ e) = Some s"
    by (rule byte_prefix_append)
  ultimately show ?thesis
    using assms start by (simp add: fragment_matches_def fragment_render_def Let_def)
qed

lemma registered_markers_ok:
  "list_all (\<lambda>(s, e). s \<noteq> [] \<and> e \<noteq> [] \<and> \<not> is_whitespace (hd s) \<and> \<not> is_whitespace (last e))
     CONTEXTUAL_USER_FRAGMENTS"
  by (simp add: CONTEXTUAL_USER_FRAGMENTS_def is_whitespace_def)

lemma registered_fragment_contextual:
  assumes "(s, e) \<in> set CONTEXTUAL_USER_FRAGMENTS"
  shows "is_contextual_user_message_content env (msg_content (fragment_into role s e b))"
proof -
  have "s \<noteq> [] \<and> e \<noteq> [] \<and> \<not> is_whitespace (hd s) \<and> \<not> is_whitespace (last e)"
    using registered_markers_ok assms by (auto simp: list_all_iff)
  then have "fragment_matches s e (fragment_render s e b)"
    by (intro fragment_matches_render) auto
  with assms have "is_standard_contextual_user_text (fragment_render s e b)"
    unfolding is_standard_contextual_user_text_def list_ex_iff by blast
  then show ?thesis
    by (simp add: is_contextual_user_message_content_def fragment_into_def)
qed

end
