(* ===== verification/Context_History.thy ===== *)
theory Context_History
  imports Response_Items
begin

text \<open>
  The history of a conversation: \<^verbatim>\<open>codex-rs/core/src/context_manager/history.rs\<close> and
  \<^verbatim>\<open>codex-rs/core/src/context_manager/normalize.rs\<close>. A function that may panic returns an
  option; the only panics are those of \<^verbatim>\<open>error_or_panic\<close>, in builds with debug assertions, and
  of \<^verbatim>\<open>i64\<close> overflow in such builds.
\<close>

section \<open>Signed 64-bit arithmetic\<close>

definition I64_MIN :: int where "I64_MIN = - (2 ^ 63)"

definition i64_wrap :: "int \<Rightarrow> int" where
  "i64_wrap x = (x + 2 ^ 63) mod 2 ^ 64 - 2 ^ 63"

text \<open>\<^verbatim>\<open>+\<close> and \<^verbatim>\<open>-\<close>: a panic on overflow with debug assertions, wrap-around without.\<close>

definition i64_checked :: "bool \<Rightarrow> int \<Rightarrow> int option" where
  "i64_checked dbg x = (if I64_MIN \<le> x \<and> x \<le> I64_MAX then Some x else if dbg then None else Some (i64_wrap x))"

definition i64_sat_add :: "int \<Rightarrow> int \<Rightarrow> int" where
  "i64_sat_add a b = max I64_MIN (min I64_MAX (a + b))"

definition i64_sat_sub :: "int \<Rightarrow> int \<Rightarrow> int" where
  "i64_sat_sub a b = max I64_MIN (min I64_MAX (a - b))"

definition i64_from_usize :: "nat \<Rightarrow> int" where
  "i64_from_usize n = (if int n \<le> I64_MAX then int n else I64_MAX)"

section \<open>Token usage\<close>

record token_usage =
  input_tokens :: int
  cached_input_tokens :: int
  output_tokens :: int
  reasoning_output_tokens :: int
  total_tokens :: int

definition token_usage_default :: token_usage where
  "token_usage_default =
     \<lparr>input_tokens = 0, cached_input_tokens = 0, output_tokens = 0, reasoning_output_tokens = 0,
      total_tokens = 0\<rparr>"

record token_usage_info =
  total_token_usage :: token_usage
  last_token_usage :: token_usage
  model_context_window :: "int option"

definition usage_add_assign :: "bool \<Rightarrow> token_usage \<Rightarrow> token_usage \<Rightarrow> token_usage option" where
  "usage_add_assign dbg u v =
     Option.bind (i64_checked dbg (input_tokens u + input_tokens v)) (\<lambda>i.
     Option.bind (i64_checked dbg (cached_input_tokens u + cached_input_tokens v)) (\<lambda>c.
     Option.bind (i64_checked dbg (output_tokens u + output_tokens v)) (\<lambda>out.
     Option.bind (i64_checked dbg (reasoning_output_tokens u + reasoning_output_tokens v)) (\<lambda>r.
     Option.bind (i64_checked dbg (total_tokens u + total_tokens v)) (\<lambda>t.
       Some \<lparr>input_tokens = i, cached_input_tokens = c, output_tokens = out,
             reasoning_output_tokens = r, total_tokens = t\<rparr>)))))"

definition append_last_usage :: "bool \<Rightarrow> token_usage \<Rightarrow> token_usage_info \<Rightarrow> token_usage_info option" where
  "append_last_usage dbg last_usage info =
     map_option (\<lambda>total. info\<lparr>total_token_usage := total, last_token_usage := last_usage\<rparr>)
       (usage_add_assign dbg (total_token_usage info) last_usage)"

definition new_or_append ::
    "bool \<Rightarrow> token_usage_info option \<Rightarrow> token_usage option \<Rightarrow> int option \<Rightarrow> token_usage_info option option" where
  "new_or_append dbg info last_usage window =
     (if info = None \<and> last_usage = None then Some None
      else
        (let info0 = (case info of
                        Some i \<Rightarrow> i
                      | None \<Rightarrow> \<lparr>total_token_usage = token_usage_default,
                                 last_token_usage = token_usage_default, model_context_window = window\<rparr>)
         in map_option
              (\<lambda>i. Some (if window \<noteq> None then i\<lparr>model_context_window := window\<rparr> else i))
              (case last_usage of None \<Rightarrow> Some info0 | Some u \<Rightarrow> append_last_usage dbg u info0)))"

definition fill_to_context_window :: "bool \<Rightarrow> int \<Rightarrow> token_usage_info \<Rightarrow> token_usage_info option" where
  "fill_to_context_window dbg context_window info =
     map_option
       (\<lambda>d. info\<lparr>model_context_window := Some context_window,
                 total_token_usage := token_usage_default\<lparr>total_tokens := context_window\<rparr>,
                 last_token_usage := token_usage_default\<lparr>total_tokens := max d 0\<rparr>\<rparr>)
       (i64_checked dbg (context_window - total_tokens (total_token_usage info)))"

definition full_context_window :: "bool \<Rightarrow> int \<Rightarrow> token_usage_info option" where
  "full_context_window dbg context_window =
     fill_to_context_window dbg context_window
       \<lparr>total_token_usage = token_usage_default, last_token_usage = token_usage_default,
        model_context_window = Some context_window\<rparr>"

section \<open>Calls and their outputs\<close>

text \<open>\<^verbatim>\<open>error_or_panic\<close>: going on, or not.\<close>

definition error_or_panic :: "bool \<Rightarrow> 'a \<Rightarrow> 'a option" where
  "error_or_panic dbg k = (if dbg then None else Some k)"

definition ABORTED :: rstr where "ABORTED = lit ''aborted''"

fun is_function_output_for :: "rstr \<Rightarrow> 'j response_item \<Rightarrow> bool" where
  "is_function_output_for call_id (FunctionCallOutput existing _) \<longleftrightarrow> existing = call_id"
| "is_function_output_for call_id _ \<longleftrightarrow> False"

fun is_search_output_for :: "rstr \<Rightarrow> 'j response_item \<Rightarrow> bool" where
  "is_search_output_for call_id (ToolSearchOutput (Some existing) _ _ _) \<longleftrightarrow> existing = call_id"
| "is_search_output_for call_id _ \<longleftrightarrow> False"

fun is_custom_output_for :: "rstr \<Rightarrow> 'j response_item \<Rightarrow> bool" where
  "is_custom_output_for call_id (CustomToolCallOutput existing _ _) \<longleftrightarrow> existing = call_id"
| "is_custom_output_for call_id _ \<longleftrightarrow> False"

text \<open>
  One turn of the loop of \<open>ensure_call_outputs_present\<close>: the output to insert after an item, if it
  is a call without one.
\<close>

fun missing_output :: "bool \<Rightarrow> 'j response_item list \<Rightarrow> 'j response_item \<Rightarrow> 'j response_item option option" where
  "missing_output dbg items (FunctionCall _ _ _ _ call_id) =
     Some (if list_ex (is_function_output_for call_id) items then None
           else Some (FunctionCallOutput call_id (payload_from_text ABORTED)))"
| "missing_output dbg items (ToolSearchCall _ (Some call_id) _ _ _) =
     Some (if list_ex (is_search_output_for call_id) items then None
           else Some (ToolSearchOutput (Some call_id) (lit ''completed'') (lit ''client'') []))"
| "missing_output dbg items (CustomToolCall _ _ call_id _ _) =
     (if list_ex (is_custom_output_for call_id) items then Some None
      else error_or_panic dbg (Some (CustomToolCallOutput call_id None (payload_from_text ABORTED))))"
| "missing_output dbg items (LocalShellCall _ (Some call_id) _ _) =
     (if list_ex (is_function_output_for call_id) items then Some None
      else error_or_panic dbg (Some (FunctionCallOutput call_id (payload_from_text ABORTED))))"
| "missing_output dbg items _ = Some None"

fun missing_outputs_to_insert ::
    "bool \<Rightarrow> 'j response_item list \<Rightarrow> nat \<Rightarrow> 'j response_item list \<Rightarrow> (nat \<times> 'j response_item) list option" where
  "missing_outputs_to_insert dbg items idx [] = Some []"
| "missing_outputs_to_insert dbg items idx (item # rest) =
     (case missing_output dbg items item of
        None \<Rightarrow> None
      | Some None \<Rightarrow> missing_outputs_to_insert dbg items (idx + 1) rest
      | Some (Some output) \<Rightarrow>
          map_option ((#) (idx, output)) (missing_outputs_to_insert dbg items (idx + 1) rest))"

text \<open>\<^verbatim>\<open>Vec::insert\<close>; the indices used are within the vector.\<close>

definition vec_insert :: "nat \<Rightarrow> 'a \<Rightarrow> 'a list \<Rightarrow> 'a list" where
  "vec_insert i x xs = take i xs @ x # drop i xs"

definition ensure_call_outputs_present ::
    "bool \<Rightarrow> 'j response_item list \<Rightarrow> 'j response_item list option" where
  "ensure_call_outputs_present dbg items =
     map_option
       (\<lambda>missing. foldl (\<lambda>items (idx, output). vec_insert (idx + 1) output items) items (rev missing))
       (missing_outputs_to_insert dbg items 0 items)"

fun function_call_id :: "'j response_item \<Rightarrow> rstr option" where
  "function_call_id (FunctionCall _ _ _ _ call_id) = Some call_id"
| "function_call_id _ = None"

fun tool_search_call_id :: "'j response_item \<Rightarrow> rstr option" where
  "tool_search_call_id (ToolSearchCall _ (Some call_id) _ _ _) = Some call_id"
| "tool_search_call_id _ = None"

fun local_shell_call_id :: "'j response_item \<Rightarrow> rstr option" where
  "local_shell_call_id (LocalShellCall _ (Some call_id) _ _) = Some call_id"
| "local_shell_call_id _ = None"

fun custom_tool_call_id :: "'j response_item \<Rightarrow> rstr option" where
  "custom_tool_call_id (CustomToolCall _ _ call_id _ _) = Some call_id"
| "custom_tool_call_id _ = None"

fun has_call :: "'j response_item list \<Rightarrow> 'j response_item \<Rightarrow> bool" where
  "has_call items (FunctionCallOutput call_id _) \<longleftrightarrow>
     Some call_id \<in> function_call_id ` set items \<or> Some call_id \<in> local_shell_call_id ` set items"
| "has_call items (CustomToolCallOutput call_id _ _) \<longleftrightarrow>
     Some call_id \<in> custom_tool_call_id ` set items"
| "has_call items (ToolSearchOutput cid status execution tools) \<longleftrightarrow>
     execution = lit ''server'' \<or>
     (case cid of Some call_id \<Rightarrow> Some call_id \<in> tool_search_call_id ` set items | None \<Rightarrow> True)"
| "has_call items _ \<longleftrightarrow> True"

text \<open>\<^verbatim>\<open>retain\<close>, whose predicate may panic.\<close>

fun retain_called :: "bool \<Rightarrow> 'j response_item list \<Rightarrow> 'j response_item list \<Rightarrow> 'j response_item list option" where
  "retain_called dbg items [] = Some []"
| "retain_called dbg items (item # rest) =
     (if has_call items item then map_option ((#) item) (retain_called dbg items rest)
      else Option.bind (error_or_panic dbg ()) (\<lambda>_. retain_called dbg items rest))"

definition remove_orphan_outputs :: "bool \<Rightarrow> 'j response_item list \<Rightarrow> 'j response_item list option" where
  "remove_orphan_outputs dbg items = retain_called dbg items items"

fun remove_first_matching :: "('a \<Rightarrow> bool) \<Rightarrow> 'a list \<Rightarrow> 'a list" where
  "remove_first_matching p [] = []"
| "remove_first_matching p (x # xs) = (if p x then xs else x # remove_first_matching p xs)"

fun remove_corresponding_for :: "'j response_item list \<Rightarrow> 'j response_item \<Rightarrow> 'j response_item list" where
  "remove_corresponding_for items (FunctionCall _ _ _ _ call_id) =
     remove_first_matching (is_function_output_for call_id) items"
| "remove_corresponding_for items (FunctionCallOutput call_id _) =
     (if list_ex (\<lambda>i. function_call_id i = Some call_id) items
      then remove_first_matching (\<lambda>i. function_call_id i = Some call_id) items
      else if list_ex (\<lambda>i. local_shell_call_id i = Some call_id) items
      then remove_first_matching (\<lambda>i. local_shell_call_id i = Some call_id) items
      else items)"
| "remove_corresponding_for items (ToolSearchCall _ (Some call_id) _ _ _) =
     remove_first_matching (is_search_output_for call_id) items"
| "remove_corresponding_for items (ToolSearchOutput (Some call_id) _ _ _) =
     remove_first_matching (\<lambda>i. tool_search_call_id i = Some call_id) items"
| "remove_corresponding_for items (CustomToolCall _ _ call_id _ _) =
     remove_first_matching (is_custom_output_for call_id) items"
| "remove_corresponding_for items (CustomToolCallOutput call_id _ _) =
     remove_first_matching (\<lambda>i. custom_tool_call_id i = Some call_id) items"
| "remove_corresponding_for items (LocalShellCall _ (Some call_id) _ _) =
     remove_first_matching (is_function_output_for call_id) items"
| "remove_corresponding_for items _ = items"

section \<open>Images\<close>

definition IMAGE_CONTENT_OMITTED_PLACEHOLDER :: rstr where
  "IMAGE_CONTENT_OMITTED_PLACEHOLDER = lit ''image content omitted because you do not support image input''"

fun strip_content_image :: "content_item \<Rightarrow> content_item" where
  "strip_content_image (InputImage _ _) = InputText IMAGE_CONTENT_OMITTED_PLACEHOLDER"
| "strip_content_image c = c"

text \<open>Every image of an output becomes the given text.\<close>

fun replace_output_image :: "rstr \<Rightarrow> output_content_item \<Rightarrow> output_content_item" where
  "replace_output_image placeholder (Output_InputImage _ _) = Output_InputText placeholder"
| "replace_output_image placeholder c = c"

fun replace_body_images :: "rstr \<Rightarrow> function_call_output_body \<Rightarrow> function_call_output_body" where
  "replace_body_images placeholder (Body_ContentItems items) =
     Body_ContentItems (map (replace_output_image placeholder) items)"
| "replace_body_images placeholder (Body_Text t) = Body_Text t"

definition replace_payload_images ::
    "rstr \<Rightarrow> function_call_output_payload \<Rightarrow> function_call_output_payload" where
  "replace_payload_images placeholder output = output\<lparr>body := replace_body_images placeholder (body output)\<rparr>"

fun strip_item_images :: "'j response_item \<Rightarrow> 'j response_item" where
  "strip_item_images (Message i role content phase) = Message i role (map strip_content_image content) phase"
| "strip_item_images (FunctionCallOutput call_id output) =
     FunctionCallOutput call_id (replace_payload_images IMAGE_CONTENT_OMITTED_PLACEHOLDER output)"
| "strip_item_images (CustomToolCallOutput call_id name output) =
     CustomToolCallOutput call_id name (replace_payload_images IMAGE_CONTENT_OMITTED_PLACEHOLDER output)"
| "strip_item_images (ImageGenerationCall i status revised_prompt result) =
     ImageGenerationCall i status revised_prompt []"
| "strip_item_images item = item"

definition strip_images_when_unsupported ::
    "input_modality list \<Rightarrow> 'j response_item list \<Rightarrow> 'j response_item list" where
  "strip_images_when_unsupported input_modalities items =
     (if Modality_Image \<in> set input_modalities then items else map strip_item_images items)"

section \<open>Scaling a policy\<close>

text \<open>
  \<^verbatim>\<open>policy * 1.2\<close> goes through \<^verbatim>\<open>f64\<close>: the number and the product are rounded to 53 significant
  bits, ties to even, and the product is rounded up to an integer and clamped to \<^verbatim>\<open>usize\<close>. The
  literal \<^verbatim>\<open>1.2\<close> is \<open>5404319552844595 / 2\<^sup>5\<^sup>2\<close>. No value is small or large enough to leave the
  normal range.
\<close>

fun bit_len :: "nat \<Rightarrow> nat" where
  "bit_len n = (if n = 0 then 0 else Suc (bit_len (n div 2)))"

declare bit_len.simps [simp del]

definition round53 :: "nat \<Rightarrow> nat" where
  "round53 n =
     (let s = bit_len n - 53; q = n div 2 ^ s; r = n mod 2 ^ s in
      (if 2 * r > 2 ^ s \<or> (2 * r = 2 ^ s \<and> odd q) then q + 1 else q) * 2 ^ s)"

definition mul_1_2_ceil :: "nat \<Rightarrow> nat" where
  "mul_1_2_ceil n =
     (let p = round53 (round53 n * 5404319552844595) in
      min ((p + 2 ^ 52 - 1) div 2 ^ 52) USIZE_MAX)"

fun serialization_budget :: "truncation_policy \<Rightarrow> truncation_policy" where
  "serialization_budget (Bytes bytes) = Bytes (mul_1_2_ceil bytes)"
| "serialization_budget (Tokens tokens) = Tokens (mul_1_2_ceil tokens)"

section \<open>The context manager\<close>

text \<open>The type of the reference context item (\<^verbatim>\<open>TurnContextItem\<close>), which is only stored, is a parameter.\<close>

record ('j, 't) context_manager =
  items :: "'j response_item list"
  history_version :: nat
  token_info :: "token_usage_info option"
  reference_context_item :: "'t option"

definition context_manager_new :: "('j, 't) context_manager" where
  "context_manager_new =
     \<lparr>items = [], history_version = 0, token_info = None, reference_context_item = None\<rparr>"

definition set_token_info ::
    "token_usage_info option \<Rightarrow> ('j, 't) context_manager \<Rightarrow> ('j, 't) context_manager" where
  "set_token_info info m = m\<lparr>token_info := info\<rparr>"

definition set_reference_context_item ::
    "'t option \<Rightarrow> ('j, 't) context_manager \<Rightarrow> ('j, 't) context_manager" where
  "set_reference_context_item item m = m\<lparr>reference_context_item := item\<rparr>"

definition set_token_usage_full ::
    "bool \<Rightarrow> int \<Rightarrow> ('j, 't) context_manager \<Rightarrow> ('j, 't) context_manager option" where
  "set_token_usage_full dbg context_window m =
     map_option (\<lambda>info. m\<lparr>token_info := Some info\<rparr>)
       (case token_info m of
          Some info \<Rightarrow> fill_to_context_window dbg context_window info
        | None \<Rightarrow> full_context_window dbg context_window)"

definition update_token_info ::
    "bool \<Rightarrow> token_usage \<Rightarrow> int option \<Rightarrow> ('j, 't) context_manager \<Rightarrow> ('j, 't) context_manager option" where
  "update_token_info dbg usage window m =
     map_option (\<lambda>info. m\<lparr>token_info := info\<rparr>) (new_or_append dbg (token_info m) (Some usage) window)"

fun is_api_message :: "'j response_item \<Rightarrow> bool" where
  "is_api_message (Message _ role _ _) \<longleftrightarrow> role \<noteq> lit ''system''"
| "is_api_message OtherItem \<longleftrightarrow> False"
| "is_api_message _ \<longleftrightarrow> True"

definition truncate_function_output_payload ::
    "function_call_output_payload \<Rightarrow> truncation_policy \<Rightarrow> function_call_output_payload option" where
  "truncate_function_output_payload output policy =
     map_option (\<lambda>b. \<lparr>body = b, success = success output\<rparr>)
       (case body output of
          Body_Text content \<Rightarrow> map_option Body_Text (truncate_text content policy)
        | Body_ContentItems content_items \<Rightarrow>
            map_option Body_ContentItems (truncate_function_output_items_with_policy content_items policy))"

fun process_item :: "'j response_item \<Rightarrow> truncation_policy \<Rightarrow> 'j response_item option" where
  "process_item (FunctionCallOutput call_id output) policy =
     map_option (FunctionCallOutput call_id)
       (truncate_function_output_payload output (serialization_budget policy))"
| "process_item (CustomToolCallOutput call_id name output) policy =
     map_option (CustomToolCallOutput call_id name)
       (truncate_function_output_payload output (serialization_budget policy))"
| "process_item item policy = Some item"

fun record_items_loop ::
    "truncation_policy \<Rightarrow> 'j response_item list \<Rightarrow> 'j response_item list \<Rightarrow> 'j response_item list option" where
  "record_items_loop policy [] acc = Some acc"
| "record_items_loop policy (item # rest) acc =
     (if \<not> is_api_message item then record_items_loop policy rest acc
      else (case process_item item policy of
              None \<Rightarrow> None
            | Some processed \<Rightarrow> record_items_loop policy rest (acc @ [processed])))"

definition record_items ::
    "'j response_item list \<Rightarrow> truncation_policy \<Rightarrow> ('j, 't) context_manager \<Rightarrow> ('j, 't) context_manager option" where
  "record_items new_items policy m =
     map_option (\<lambda>its. m\<lparr>items := its\<rparr>) (record_items_loop policy new_items (items m))"

definition normalize_history ::
    "history_env \<Rightarrow> input_modality list \<Rightarrow> ('j, 't) context_manager \<Rightarrow> ('j, 't) context_manager option" where
  "normalize_history env input_modalities m =
     Option.bind (ensure_call_outputs_present (debug_assertions env) (items m)) (\<lambda>its.
     Option.bind (remove_orphan_outputs (debug_assertions env) its) (\<lambda>its'.
       Some (m\<lparr>items := strip_images_when_unsupported input_modalities its'\<rparr>)))"

definition for_prompt ::
    "history_env \<Rightarrow> input_modality list \<Rightarrow> ('j, 't) context_manager \<Rightarrow> 'j response_item list option" where
  "for_prompt env input_modalities m = map_option items (normalize_history env input_modalities m)"

definition replace :: "'j response_item list \<Rightarrow> ('j, 't) context_manager \<Rightarrow> ('j, 't) context_manager" where
  "replace its m = m\<lparr>items := its, history_version := sat_add (history_version m) 1\<rparr>"

definition remove_first_item :: "('j, 't) context_manager \<Rightarrow> ('j, 't) context_manager" where
  "remove_first_item m =
     (case items m of
        [] \<Rightarrow> m
      | removed # rest \<Rightarrow> m\<lparr>items := remove_corresponding_for rest removed\<rparr>)"

definition remove_last_item :: "('j, 't) context_manager \<Rightarrow> bool \<times> ('j, 't) context_manager" where
  "remove_last_item m =
     (if items m \<noteq> [] then
        (True, replace (remove_corresponding_for (butlast (items m)) (last (items m))) m)
      else (False, m))"

fun is_user_turn_boundary :: "history_env \<Rightarrow> 'j response_item \<Rightarrow> bool" where
  "is_user_turn_boundary env (Message _ role content _) \<longleftrightarrow>
     (role = lit ''user'' \<and> \<not> is_contextual_user_message_content env content) \<or>
     (role = lit ''assistant'' \<and> is_inter_agent_instruction_content env content)"
| "is_user_turn_boundary env _ \<longleftrightarrow> False"

fun is_function_call_output :: "'j response_item \<Rightarrow> bool" where
  "is_function_call_output (FunctionCallOutput _ _) \<longleftrightarrow> True"
| "is_function_call_output _ \<longleftrightarrow> False"

text \<open>\<^verbatim>\<open>rposition\<close>: the last index whose element satisfies the predicate.\<close>

fun rposition :: "('a \<Rightarrow> bool) \<Rightarrow> 'a list \<Rightarrow> nat option" where
  "rposition p [] = None"
| "rposition p (x # xs) =
     (case rposition p xs of Some i \<Rightarrow> Some (Suc i) | None \<Rightarrow> if p x then Some 0 else None)"

definition replace_last_turn_images ::
    "history_env \<Rightarrow> rstr \<Rightarrow> ('j, 't) context_manager \<Rightarrow> bool \<times> ('j, 't) context_manager" where
  "replace_last_turn_images env placeholder m =
     (case rposition (\<lambda>item. is_function_call_output item \<or> is_user_turn_boundary env item) (items m) of
        None \<Rightarrow> (False, m)
      | Some index \<Rightarrow>
          (case items m ! index of
             FunctionCallOutput call_id output \<Rightarrow>
               (case body output of
                  Body_Text _ \<Rightarrow> (False, m)
                | Body_ContentItems content_items \<Rightarrow>
                    if list_ex is_image content_items
                    then (True, replace ((items m)[index := FunctionCallOutput call_id
                                   (replace_payload_images placeholder output)]) m)
                    else (False, m))
           | _ \<Rightarrow> (False, m)))"

fun user_message_positions_from :: "history_env \<Rightarrow> nat \<Rightarrow> 'j response_item list \<Rightarrow> nat list" where
  "user_message_positions_from env idx [] = []"
| "user_message_positions_from env idx (item # rest) =
     (if is_user_turn_boundary env item then [idx] else []) @ user_message_positions_from env (idx + 1) rest"

definition user_message_positions :: "history_env \<Rightarrow> 'j response_item list \<Rightarrow> nat list" where
  "user_message_positions env its = user_message_positions_from env 0 its"

text \<open>
  The walk back from a rollback cut; \<open>cut_idx\<close> is within the snapshot. It gives the new cut and
  the reference context item, cleared when a mixed developer message is trimmed.
\<close>

fun trim_pre_turn_context_updates ::
    "history_env \<Rightarrow> 'j response_item list \<Rightarrow> nat \<Rightarrow> nat \<Rightarrow> 't option \<Rightarrow> nat \<times> 't option" where
  "trim_pre_turn_context_updates env snapshot first_instruction_turn_idx 0 ref = (0, ref)"
| "trim_pre_turn_context_updates env snapshot first_instruction_turn_idx (Suc i) ref =
     (if Suc i > first_instruction_turn_idx then
        (case snapshot ! i of
           Message _ role content _ \<Rightarrow>
             if role = lit ''developer'' \<and> is_contextual_dev_message_content content then
               trim_pre_turn_context_updates env snapshot first_instruction_turn_idx i
                 (if has_non_contextual_dev_message_content content then None else ref)
             else if role = lit ''user'' \<and> is_contextual_user_message_content env content then
               trim_pre_turn_context_updates env snapshot first_instruction_turn_idx i ref
             else (Suc i, ref)
         | _ \<Rightarrow> (Suc i, ref))
      else (Suc i, ref))"

definition drop_last_n_user_turns ::
    "history_env \<Rightarrow> nat \<Rightarrow> ('j, 't) context_manager \<Rightarrow> ('j, 't) context_manager" where
  "drop_last_n_user_turns env num_turns m =
     (if num_turns = 0 then m
      else
        (let snapshot = items m; user_positions = user_message_positions env snapshot in
         case user_positions of
           [] \<Rightarrow> replace snapshot m
         | first_instruction_turn_idx # _ \<Rightarrow>
             (let cut_idx = (if num_turns \<ge> length user_positions then first_instruction_turn_idx
                             else user_positions ! (length user_positions - num_turns))
              in case trim_pre_turn_context_updates env snapshot first_instruction_turn_idx cut_idx
                        (reference_context_item m) of
                   (cut_idx', ref) \<Rightarrow> replace (take cut_idx' snapshot) (m\<lparr>reference_context_item := ref\<rparr>))))"

section \<open>Estimating tokens\<close>

text \<open>
  What the estimates take from elsewhere: the length of an item's JSON (\<^verbatim>\<open>serde_json::to_string\<close>,
  which may fail) and the width and height of a base64 image payload (\<^verbatim>\<open>base64\<close> and \<^verbatim>\<open>image\<close>
  crates, which may fail). The estimate of an image is cached under the SHA-1 of its URL; the
  model recomputes it.
\<close>

record 'j estimate_env =
  json_len :: "'j response_item \<Rightarrow> nat option"
  image_dimensions :: "rstr \<Rightarrow> (nat \<times> nat) option"

definition estimate_reasoning_length :: "nat \<Rightarrow> nat" where
  "estimate_reasoning_length encoded_len = sat_mul encoded_len 3 div 4 - 650"

definition RESIZED_IMAGE_BYTES_ESTIMATE :: int where "RESIZED_IMAGE_BYTES_ESTIMATE = 7373"
definition ORIGINAL_IMAGE_PATCH_SIZE :: int where "ORIGINAL_IMAGE_PATCH_SIZE = 32"
definition ORIGINAL_IMAGE_MAX_PATCHES :: nat where "ORIGINAL_IMAGE_MAX_PATCHES = 10000"

definition has_prefix_ignore_case :: "rstr \<Rightarrow> rstr \<Rightarrow> bool" where
  "has_prefix_ignore_case p s \<longleftrightarrow>
     (case byte_prefix (utf8_len p) s of None \<Rightarrow> False | Some c \<Rightarrow> eq_ignore_ascii_case c p)"

definition parse_base64_image_data_url :: "rstr \<Rightarrow> rstr option" where
  "parse_base64_image_data_url url =
     (if \<not> has_prefix_ignore_case (lit ''data:'') url then None
      else
        (case split_once 44 url of
           None \<Rightarrow> None
         | Some (metadata, payload) \<Rightarrow>
             (let metadata_without_scheme = drop (length (lit ''data:'')) metadata;
                  parts = split_on 59 metadata_without_scheme;
                  mime_type = hd parts;
                  has_base64_marker = list_ex (\<lambda>part. eq_ignore_ascii_case part (lit ''base64'')) (tl parts)
              in if \<not> has_prefix_ignore_case (lit ''image/'') mime_type then None
                 else if \<not> has_base64_marker then None
                 else Some payload)))"

definition patch_bytes :: "nat \<Rightarrow> nat \<Rightarrow> int" where
  "patch_bytes width height =
     (let patches_wide = i64_sat_add (int width) (i64_sat_sub ORIGINAL_IMAGE_PATCH_SIZE 1) div ORIGINAL_IMAGE_PATCH_SIZE;
          patches_high = i64_sat_add (int height) (i64_sat_sub ORIGINAL_IMAGE_PATCH_SIZE 1) div ORIGINAL_IMAGE_PATCH_SIZE;
          patch_count = max I64_MIN (min I64_MAX (patches_wide * patches_high));
          patch_count' = (if 0 \<le> patch_count then nat patch_count else USIZE_MAX)
      in i64_from_usize (approx_bytes_for_tokens (min patch_count' ORIGINAL_IMAGE_MAX_PATCHES)))"

definition estimate_original_image_bytes :: "'j estimate_env \<Rightarrow> rstr \<Rightarrow> int option" where
  "estimate_original_image_bytes est image_url =
     (case parse_base64_image_data_url image_url of
        None \<Rightarrow> None
      | Some payload \<Rightarrow>
          (case image_dimensions est payload of
             None \<Rightarrow> None
           | Some (width, height) \<Rightarrow> Some (patch_bytes width height)))"

text \<open>The images of an item whose URLs the estimate looks at.\<close>

definition content_images :: "content_item list \<Rightarrow> (rstr \<times> image_detail option) list" where
  "content_images content =
     List.map_filter (\<lambda>c. case c of InputImage url detail \<Rightarrow> Some (url, detail) | _ \<Rightarrow> None) content"

definition body_images :: "function_call_output_body \<Rightarrow> (rstr \<times> image_detail option) list" where
  "body_images b =
     (case b of
        Body_Text _ \<Rightarrow> []
      | Body_ContentItems its \<Rightarrow>
          List.map_filter (\<lambda>c. case c of Output_InputImage url detail \<Rightarrow> Some (url, detail) | _ \<Rightarrow> None) its)"

fun item_images :: "'j response_item \<Rightarrow> (rstr \<times> image_detail option) list" where
  "item_images (Message _ _ content _) = content_images content"
| "item_images (FunctionCallOutput _ output) = body_images (body output)"
| "item_images (CustomToolCallOutput _ _ output) = body_images (body output)"
| "item_images _ = []"

definition accumulate_image ::
    "'j estimate_env \<Rightarrow> int \<times> int \<Rightarrow> rstr \<times> image_detail option \<Rightarrow> int \<times> int" where
  "accumulate_image est acc img =
     (case acc of (payload_bytes, replacement_bytes) \<Rightarrow>
        (case img of (image_url, detail) \<Rightarrow>
           (case parse_base64_image_data_url image_url of
              None \<Rightarrow> (payload_bytes, replacement_bytes)
            | Some payload \<Rightarrow>
                (i64_sat_add payload_bytes (i64_from_usize (utf8_len payload)),
                 i64_sat_add replacement_bytes
                   (if detail = Some Detail_Original
                    then (case estimate_original_image_bytes est image_url of
                            Some n \<Rightarrow> n | None \<Rightarrow> RESIZED_IMAGE_BYTES_ESTIMATE)
                    else RESIZED_IMAGE_BYTES_ESTIMATE)))))"

definition image_data_url_estimate_adjustment :: "'j estimate_env \<Rightarrow> 'j response_item \<Rightarrow> int \<times> int" where
  "image_data_url_estimate_adjustment est item = foldl (accumulate_image est) (0, 0) (item_images item)"

definition estimate_serialized_bytes :: "'j estimate_env \<Rightarrow> 'j response_item \<Rightarrow> int" where
  "estimate_serialized_bytes est item =
     (let raw = (case json_len est item of Some n \<Rightarrow> i64_from_usize n | None \<Rightarrow> 0) in
      case image_data_url_estimate_adjustment est item of
        (payload_bytes, replacement_bytes) \<Rightarrow>
          if payload_bytes = 0 \<or> replacement_bytes = 0 then raw
          else i64_sat_add (i64_sat_sub raw payload_bytes) replacement_bytes)"

fun estimate_response_item_model_visible_bytes :: "'j estimate_env \<Rightarrow> 'j response_item \<Rightarrow> int" where
  "estimate_response_item_model_visible_bytes est (Reasoning i s c (Some content)) =
     i64_from_usize (estimate_reasoning_length (utf8_len content))"
| "estimate_response_item_model_visible_bytes est (Compaction content) =
     i64_from_usize (estimate_reasoning_length (utf8_len content))"
| "estimate_response_item_model_visible_bytes est (ContextCompaction (Some content)) =
     i64_from_usize (estimate_reasoning_length (utf8_len content))"
| "estimate_response_item_model_visible_bytes est item = estimate_serialized_bytes est item"

definition estimate_item_token_count :: "'j estimate_env \<Rightarrow> 'j response_item \<Rightarrow> int" where
  "estimate_item_token_count est item =
     approx_tokens_from_byte_count_i64 (estimate_response_item_model_visible_bytes est item)"

text \<open>\<^verbatim>\<open>map(estimate_item_token_count).fold(0, i64::saturating_add)\<close>.\<close>

definition estimate_tokens :: "'j estimate_env \<Rightarrow> 'j response_item list \<Rightarrow> int" where
  "estimate_tokens est its = foldl i64_sat_add 0 (map (estimate_item_token_count est) its)"

definition estimate_bytes :: "'j estimate_env \<Rightarrow> 'j response_item list \<Rightarrow> int" where
  "estimate_bytes est its =
     foldl i64_sat_add 0 (map (estimate_response_item_model_visible_bytes est) its)"

definition estimate_token_count_with_base_instructions ::
    "'j estimate_env \<Rightarrow> rstr \<Rightarrow> ('j, 't) context_manager \<Rightarrow> int option" where
  "estimate_token_count_with_base_instructions est base_instructions m =
     Some (i64_sat_add (i64_from_usize (approx_token_count base_instructions)) (estimate_tokens est (items m)))"

fun is_encrypted_reasoning :: "'j response_item \<Rightarrow> bool" where
  "is_encrypted_reasoning (Reasoning _ _ _ (Some _)) \<longleftrightarrow> True"
| "is_encrypted_reasoning _ \<longleftrightarrow> False"

definition get_non_last_reasoning_items_tokens ::
    "history_env \<Rightarrow> 'j estimate_env \<Rightarrow> ('j, 't) context_manager \<Rightarrow> int" where
  "get_non_last_reasoning_items_tokens env est m =
     (case rposition (is_user_turn_boundary env) (items m) of
        None \<Rightarrow> 0
      | Some last_user_index \<Rightarrow>
          estimate_tokens est (filter is_encrypted_reasoning (take last_user_index (items m))))"

fun is_model_generated_item :: "'j response_item \<Rightarrow> bool" where
  "is_model_generated_item (Message _ role _ _) \<longleftrightarrow> role = lit ''assistant''"
| "is_model_generated_item (FunctionCallOutput _ _) \<longleftrightarrow> False"
| "is_model_generated_item (ToolSearchOutput _ _ _ _) \<longleftrightarrow> False"
| "is_model_generated_item (CustomToolCallOutput _ _ _) \<longleftrightarrow> False"
| "is_model_generated_item OtherItem \<longleftrightarrow> False"
| "is_model_generated_item _ \<longleftrightarrow> True"

fun is_codex_generated_item :: "'j response_item \<Rightarrow> bool" where
  "is_codex_generated_item (FunctionCallOutput _ _) \<longleftrightarrow> True"
| "is_codex_generated_item (ToolSearchOutput _ _ _ _) \<longleftrightarrow> True"
| "is_codex_generated_item (CustomToolCallOutput _ _ _) \<longleftrightarrow> True"
| "is_codex_generated_item (Message _ role _ _) \<longleftrightarrow> role = lit ''developer''"
| "is_codex_generated_item _ \<longleftrightarrow> False"

definition items_after_last_model_generated_item :: "('j, 't) context_manager \<Rightarrow> 'j response_item list" where
  "items_after_last_model_generated_item m =
     drop (case rposition is_model_generated_item (items m) of
             None \<Rightarrow> length (items m) | Some index \<Rightarrow> sat_add index 1) (items m)"

definition get_total_token_usage ::
    "history_env \<Rightarrow> 'j estimate_env \<Rightarrow> bool \<Rightarrow> ('j, 't) context_manager \<Rightarrow> int" where
  "get_total_token_usage env est server_reasoning_included m =
     (let last_tokens = (case token_info m of
                           Some info \<Rightarrow> total_tokens (last_token_usage info) | None \<Rightarrow> 0);
          after = estimate_tokens est (items_after_last_model_generated_item m)
      in if server_reasoning_included then i64_sat_add last_tokens after
         else i64_sat_add (i64_sat_add last_tokens (get_non_last_reasoning_items_tokens env est m)) after)"

record total_token_usage_breakdown =
  last_api_response_total_tokens :: int
  all_history_items_model_visible_bytes :: int
  estimated_tokens_of_items_added_since_last_successful_api_response :: int
  estimated_bytes_of_items_added_since_last_successful_api_response :: int

definition get_total_token_usage_breakdown ::
    "'j estimate_env \<Rightarrow> ('j, 't) context_manager \<Rightarrow> total_token_usage_breakdown" where
  "get_total_token_usage_breakdown est m =
     (let last_usage = (case token_info m of Some info \<Rightarrow> last_token_usage info | None \<Rightarrow> token_usage_default);
          after = items_after_last_model_generated_item m
      in \<lparr>last_api_response_total_tokens = total_tokens last_usage,
          all_history_items_model_visible_bytes = estimate_bytes est (items m),
          estimated_tokens_of_items_added_since_last_successful_api_response = estimate_tokens est after,
          estimated_bytes_of_items_added_since_last_successful_api_response = estimate_bytes est after\<rparr>)"

end
