(* ===== verification/Context_History_Correct.thy ===== *)
theory Context_History_Correct
  imports Context_History
begin

text \<open>
  What the history operations promise: the items sent to the model pair every call with an output
  and every output with a call, dropping an item from either end keeps them paired, and a rollback
  cuts whole turns.
\<close>

section \<open>Calls and outputs by key\<close>

datatype call_kind = Function_Calls | Search_Calls | Custom_Calls

fun call_key :: "'j response_item \<Rightarrow> (call_kind \<times> rstr) option" where
  "call_key (FunctionCall _ _ _ _ c) = Some (Function_Calls, c)"
| "call_key (LocalShellCall _ (Some c) _ _) = Some (Function_Calls, c)"
| "call_key (ToolSearchCall _ (Some c) _ _ _) = Some (Search_Calls, c)"
| "call_key (CustomToolCall _ _ c _ _) = Some (Custom_Calls, c)"
| "call_key _ = None"

fun output_key :: "'j response_item \<Rightarrow> (call_kind \<times> rstr) option" where
  "output_key (FunctionCallOutput c _) = Some (Function_Calls, c)"
| "output_key (ToolSearchOutput (Some c) _ _ _) = Some (Search_Calls, c)"
| "output_key (CustomToolCallOutput c _ _) = Some (Custom_Calls, c)"
| "output_key _ = None"

text \<open>Output the server produced for a search of its own needs no call.\<close>

fun server_side :: "'j response_item \<Rightarrow> bool" where
  "server_side (ToolSearchOutput _ _ execution _) \<longleftrightarrow> execution = lit ''server''"
| "server_side _ \<longleftrightarrow> False"

definition paired :: "'j response_item list \<Rightarrow> bool" where
  "paired its \<longleftrightarrow>
     list_all (\<lambda>i. (call_key i = None \<or> call_key i \<in> output_key ` set its) \<and>
                   (output_key i = None \<or> server_side i \<or> output_key i \<in> call_key ` set its)) its"

definition unique_keys :: "'j response_item list \<Rightarrow> bool" where
  "unique_keys its \<longleftrightarrow>
     distinct (List.map_filter call_key its) \<and> distinct (List.map_filter output_key its)"

lemma output_matchers:
  "is_function_output_for c i \<longleftrightarrow> output_key i = Some (Function_Calls, c)"
  "is_search_output_for c i \<longleftrightarrow> output_key i = Some (Search_Calls, c)"
  "is_custom_output_for c i \<longleftrightarrow> output_key i = Some (Custom_Calls, c)"
  by (cases i rule: output_key.cases; simp)+

lemma list_ex_key: "list_ex (\<lambda>i. f i = Some k) its \<longleftrightarrow> Some k \<in> f ` set its"
  by (force simp: list_ex_iff)

lemma has_output_iff:
  "list_ex (is_function_output_for c) its \<longleftrightarrow> Some (Function_Calls, c) \<in> output_key ` set its"
  "list_ex (is_search_output_for c) its \<longleftrightarrow> Some (Search_Calls, c) \<in> output_key ` set its"
  "list_ex (is_custom_output_for c) its \<longleftrightarrow> Some (Custom_Calls, c) \<in> output_key ` set its"
  unfolding list_ex_iff output_matchers by force+

lemma call_ids:
  "function_call_id i = Some c \<or> local_shell_call_id i = Some c \<longleftrightarrow> call_key i = Some (Function_Calls, c)"
  "tool_search_call_id i = Some c \<longleftrightarrow> call_key i = Some (Search_Calls, c)"
  "custom_tool_call_id i = Some c \<longleftrightarrow> call_key i = Some (Custom_Calls, c)"
  by (cases i rule: call_key.cases; simp)+

lemma has_call_iff:
  "has_call its i \<longleftrightarrow> output_key i = None \<or> server_side i \<or> output_key i \<in> call_key ` set its"
proof -
  have fn: "Some c \<in> function_call_id ` set its \<or> Some c \<in> local_shell_call_id ` set its \<longleftrightarrow>
            Some (Function_Calls, c) \<in> call_key ` set its" for c
    using call_ids(1)[of _ c] by (force simp: image_iff eq_commute[of "Some _"])
  have srch: "Some c \<in> tool_search_call_id ` set its \<longleftrightarrow> Some (Search_Calls, c) \<in> call_key ` set its" for c
    using call_ids(2)[of _ c] by (force simp: image_iff eq_commute[of "Some _"])
  have cust: "Some c \<in> custom_tool_call_id ` set its \<longleftrightarrow> Some (Custom_Calls, c) \<in> call_key ` set its" for c
    using call_ids(3)[of _ c] by (force simp: image_iff eq_commute[of "Some _"])
  show ?thesis
    by (cases i rule: output_key.cases) (simp_all add: fn srch cust)
qed

lemma call_not_output: "call_key i = Some k \<Longrightarrow> output_key i = None"
  by (cases i rule: call_key.cases) simp_all

section \<open>Inserting the missing outputs\<close>

fun aborted_output :: "'j response_item \<Rightarrow> 'j response_item" where
  "aborted_output (ToolSearchCall _ (Some c) _ _ _) =
     ToolSearchOutput (Some c) (lit ''completed'') (lit ''client'') []"
| "aborted_output (CustomToolCall _ _ c _ _) = CustomToolCallOutput c None (payload_from_text ABORTED)"
| "aborted_output (FunctionCall _ _ _ _ c) = FunctionCallOutput c (payload_from_text ABORTED)"
| "aborted_output (LocalShellCall _ (Some c) _ _) = FunctionCallOutput c (payload_from_text ABORTED)"
| "aborted_output i = i"

definition unanswered :: "'j response_item list \<Rightarrow> 'j response_item \<Rightarrow> bool" where
  "unanswered its i \<longleftrightarrow> call_key i \<noteq> None \<and> call_key i \<notin> output_key ` set its"

lemma missing_output_release:
  "missing_output False its i = Some (if unanswered its i then Some (aborted_output i) else None)"
  by (cases "(False, its, i)" rule: missing_output.cases)
    (simp_all add: unanswered_def has_output_iff error_or_panic_def)

lemma missing_output_answered: "\<not> unanswered its i \<Longrightarrow> missing_output dbg its i = Some None"
  by (cases "(dbg, its, i)" rule: missing_output.cases)
    (simp_all add: unanswered_def has_output_iff)

lemma aborted_output_key:
  "call_key i \<noteq> None \<Longrightarrow> output_key (aborted_output i) = call_key i"
  "call_key i \<noteq> None \<Longrightarrow> call_key (aborted_output i) = None"
  by (cases i rule: call_key.cases; simp)+

definition with_missing :: "'j response_item list \<Rightarrow> 'j response_item \<Rightarrow> 'j response_item list" where
  "with_missing its i = i # (if unanswered its i then [aborted_output i] else [])"

lemma insert_missing_outputs:
  "\<exists>ms. missing_outputs_to_insert False its (length pre) rest = Some ms \<and>
     foldl (\<lambda>its (idx, output). vec_insert (idx + 1) output its) (pre @ rest) (rev ms) =
       pre @ concat (map (with_missing its) rest)"
proof (induction rest arbitrary: pre)
  case Nil
  show ?case by simp
next
  case (Cons i rest)
  obtain ms where ms: "missing_outputs_to_insert False its (length (pre @ [i])) rest = Some ms"
    "foldl (\<lambda>its (idx, output). vec_insert (idx + 1) output its) ((pre @ [i]) @ rest) (rev ms) =
       (pre @ [i]) @ concat (map (with_missing its) rest)"
    using Cons.IH[of "pre @ [i]"] by blast
  show ?case
  proof (cases "unanswered its i")
    case True
    with ms show ?thesis
      by (intro exI[of _ "(length pre, aborted_output i) # ms"])
        (simp add: missing_output_release with_missing_def[of its i] vec_insert_def)
  next
    case False
    with ms show ?thesis
      by (intro exI[of _ ms]) (simp add: missing_output_release with_missing_def[of its i])
  qed
qed

lemma ensure_call_outputs_release:
  "ensure_call_outputs_present False its = Some (concat (map (with_missing its) its))"
  using insert_missing_outputs[of its "[]" its] by (auto simp: ensure_call_outputs_present_def)

lemma ensure_call_outputs_answered:
  assumes "list_all (\<lambda>i. \<not> unanswered its i) its"
  shows "ensure_call_outputs_present dbg its = Some its"
proof -
  have "missing_outputs_to_insert dbg its idx rest = Some []"
    if "list_all (\<lambda>i. \<not> unanswered its i) rest" for idx rest
    using that by (induction rest arbitrary: idx) (simp_all add: missing_output_answered)
  with assms show ?thesis by (simp add: ensure_call_outputs_present_def)
qed

section \<open>Removing orphans\<close>

lemma retain_called_release: "retain_called False its rest = Some (filter (has_call its) rest)"
  by (induction rest) (simp_all add: error_or_panic_def)

lemma retain_called_all: "list_all (has_call its) rest \<Longrightarrow> retain_called dbg its rest = Some rest"
  by (induction rest) simp_all

lemma paired_iff:
  "paired its \<longleftrightarrow> list_all (\<lambda>i. \<not> unanswered its i) its \<and> list_all (has_call its) its"
  unfolding paired_def unanswered_def has_call_iff list_all_iff
  by (simp only: de_Morgan_conj not_not ball_conj_distrib)

text \<open>The two passes of a normalisation, as one list.\<close>

definition normalized :: "'j response_item list \<Rightarrow> 'j response_item list" where
  "normalized its = filter (has_call its) (concat (map (with_missing its) its))"

lemma set_with_missing:
  "set (concat (map (with_missing its) its)) = set its \<union> aborted_output ` {i \<in> set its. unanswered its i}"
  by (auto simp: with_missing_def)

lemma call_keys_with_missing:
  "Some k \<in> call_key ` set (concat (map (with_missing its) its)) \<longleftrightarrow> Some k \<in> call_key ` set its"
  unfolding set_with_missing using aborted_output_key(2) by (fastforce simp: unanswered_def image_iff)

lemma has_call_with_missing: "has_call (concat (map (with_missing its) its)) = has_call its"
proof
  fix i
  show "has_call (concat (map (with_missing its) its)) i = has_call its i"
    unfolding has_call_iff
    by (cases "output_key i") (simp_all only: call_keys_with_missing simp_thms)
qed

lemma normalize_release:
  "Option.bind (ensure_call_outputs_present False its) (remove_orphan_outputs False) = Some (normalized its)"
  by (simp add: ensure_call_outputs_release remove_orphan_outputs_def retain_called_release
      normalized_def has_call_with_missing)

lemma normalized_paired: "paired (normalized its)"
proof -
  let ?all = "concat (map (with_missing its) its)"
  have kept: "i \<in> set (normalized its)" if "i \<in> set ?all" "call_key i \<noteq> None" for i
    using that call_not_output[of i] by (auto simp: normalized_def has_call_iff)
  have "call_key i = None \<or> call_key i \<in> output_key ` set (normalized its)"
    if "i \<in> set (normalized its)" for i
  proof (cases "call_key i")
    case (Some k)
    from that have "Some k \<in> call_key ` set ?all" using Some by (force simp: normalized_def)
    then obtain j where j: "j \<in> set its" "call_key j = Some k"
      unfolding call_keys_with_missing by auto
    have "\<exists>out\<in>set ?all. output_key out = Some k"
    proof (cases "unanswered its j")
      case True
      then have "aborted_output j \<in> set ?all" unfolding set_with_missing using j by blast
      then show ?thesis using aborted_output_key(1)[of j] j by auto
    next
      case False
      then have "Some k \<in> output_key ` set its" using j by (simp add: unanswered_def)
      then show ?thesis unfolding set_with_missing by auto
    qed
    then obtain out where out: "out \<in> set ?all" "output_key out = Some k" by blast
    moreover have "Some k \<in> call_key ` set its" using j by force
    ultimately have "out \<in> set (normalized its)" by (simp add: normalized_def has_call_iff)
    with out Some show ?thesis by force
  qed simp
  moreover have "output_key i = None \<or> server_side i \<or> output_key i \<in> call_key ` set (normalized its)"
    if "i \<in> set (normalized its)" for i
  proof -
    have "has_call its i" using that by (simp add: normalized_def)
    moreover have "Some k \<in> call_key ` set (normalized its)" if "Some k \<in> call_key ` set its" for k
    proof -
      obtain j where "j \<in> set its" "call_key j = Some k" using \<open>Some k \<in> call_key ` set its\<close> by auto
      then have "j \<in> set (normalized its)" using kept[of j] unfolding set_with_missing by simp
      with \<open>call_key j = Some k\<close> show ?thesis by force
    qed
    ultimately show ?thesis by (cases "output_key i") (auto simp: has_call_iff)
  qed
  ultimately show ?thesis by (simp add: paired_def list_all_iff)
qed

lemma normalize_paired:
  assumes "paired its"
  shows "Option.bind (ensure_call_outputs_present dbg its) (remove_orphan_outputs dbg) = Some its"
  using assms by (simp add: paired_iff ensure_call_outputs_answered remove_orphan_outputs_def retain_called_all)

section \<open>Stripping images\<close>

lemma strip_keys [simp]:
  "call_key (strip_item_images i) = call_key i" "output_key (strip_item_images i) = output_key i"
  "server_side (strip_item_images i) = server_side i"
  by (cases i rule: strip_item_images.cases; simp;
      cases i rule: call_key.cases; simp)
    (cases i rule: strip_item_images.cases; simp)+

lemma strip_paired [simp]: "paired (strip_images_when_unsupported mods its) = paired its"
proof -
  have "f ` set (map strip_item_images its) = f ` set its"
    if "\<And>i. f (strip_item_images i) = f i" for f :: "'a response_item \<Rightarrow> 'b"
    using that by (force simp: image_image)
  then show ?thesis
    by (simp add: strip_images_when_unsupported_def paired_def list_all_iff image_image)
qed

section \<open>What is sent to the model\<close>

text \<open>One item after normalisation: gone if it is an orphan output, followed by a stand-in output if
  it is a call nobody answered, itself otherwise.\<close>

definition normal_item :: "'j response_item list \<Rightarrow> 'j response_item \<Rightarrow> 'j response_item list" where
  "normal_item its i = (if has_call its i then with_missing its i else [])"

lemma filter_with_missing: "i \<in> set its \<Longrightarrow> filter (has_call its) (with_missing its i) = normal_item its i"
proof (cases "unanswered its i")
  case True
  assume i: "i \<in> set its"
  from True obtain k where k: "call_key i = Some k" by (auto simp: unanswered_def)
  then have "has_call its i" and "output_key (aborted_output i) = Some k"
    using call_not_output[of i] aborted_output_key(1)[of i] by (simp_all add: has_call_iff)
  moreover have "Some k \<in> call_key ` set its" using i k by force
  ultimately show ?thesis
    using True by (simp add: normal_item_def with_missing_def has_call_iff[of its "aborted_output i"])
qed (simp add: normal_item_def with_missing_def)

lemma normalized_items: "normalized its = concat (map (normal_item its) its)"
  unfolding normalized_def filter_concat map_map comp_def
  by (rule arg_cong[where f = concat]) (simp add: filter_with_missing)

lemma for_prompt_bind:
  "for_prompt env mods m =
     map_option (strip_images_when_unsupported mods)
       (Option.bind (ensure_call_outputs_present (debug_assertions env) (items m))
          (remove_orphan_outputs (debug_assertions env)))"
  by (simp add: for_prompt_def normalize_history_def split: Option.bind_split)

text \<open>
  C8 (invariant): without debug assertions the history sent to the model always exists and is
  paired: every call has an output and every output a call (or comes from a search on the server).
  It is the recorded history in order, less the orphan outputs, with a stand-in output right after
  each call that has none, and with the images replaced for a model that takes none.
\<close>
theorem for_prompt_pairs_calls:
  assumes "\<not> debug_assertions env"
  shows "\<exists>out. for_prompt env mods m =
                 Some (strip_images_when_unsupported mods out) \<and>
               out = concat (map (normal_item (items m)) (items m)) \<and>
               paired (strip_images_when_unsupported mods out)"
  using assms normalize_release[of "items m"] normalized_paired[of "items m"]
  by (simp add: for_prompt_bind normalized_items)

definition no_env :: "bool \<Rightarrow> history_env" where
  "no_env dbg = \<lparr>from_xml_str = (\<lambda>_. None), is_inter_agent_json = (\<lambda>_. False), debug_assertions = dbg\<rparr>"

definition history_of :: "'j response_item list \<Rightarrow> ('j, unit) context_manager" where
  "history_of its = context_manager_new\<lparr>items := its\<rparr>"

theorem for_prompt_pairs_calls_witness:
  "let call = FunctionCall None (lit ''f'') None [] (lit ''1'');
       orphan = CustomToolCallOutput (lit ''2'') None (payload_from_text [])
   in \<not> debug_assertions (no_env False) \<and>
      for_prompt (no_env False) [Modality_Text]
          (history_of [call, orphan :: unit response_item]) =
        Some [call, FunctionCallOutput (lit ''1'') (payload_from_text ABORTED)]"
proof -
  have env: "\<not> debug_assertions (no_env False)" by (simp add: no_env_def)
  show ?thesis
    using for_prompt_pairs_calls[OF env, of "[Modality_Text]"
        "history_of [FunctionCall None (lit ''f'') None [] (lit ''1''),
           CustomToolCallOutput (lit ''2'') None (payload_from_text []) :: unit response_item]"] env
    by (auto simp: history_of_def context_manager_new_def normal_item_def with_missing_def
        unanswered_def strip_images_when_unsupported_def replace_payload_images_def
        payload_from_text_def)
qed

text \<open>
  A paired history is sent as it is, up to the images, and no build panics on it;
  so normalising a second time changes nothing.
\<close>
theorem paired_history_sent_unchanged:
  assumes "paired (items m)"
  shows "for_prompt env mods m = Some (strip_images_when_unsupported mods (items m))"
  using normalize_paired[OF assms] by (simp add: for_prompt_bind)

theorem paired_history_sent_unchanged_witness:
  "let its = [FunctionCall None (lit ''f'') None [] (lit ''1''),
              FunctionCallOutput (lit ''1'') (payload_from_text ABORTED)]
   in paired its \<and>
      for_prompt (no_env True) [Modality_Image] (history_of (its :: unit response_item list)) = Some its"
proof -
  let ?its = "[FunctionCall None (lit ''f'') None [] (lit ''1''),
               FunctionCallOutput (lit ''1'') (payload_from_text ABORTED)] :: unit response_item list"
  have "paired ?its" by (simp add: paired_def)
  with paired_history_sent_unchanged[of "history_of ?its" "no_env True" "[Modality_Image]"]
  show ?thesis by (simp add: history_of_def strip_images_when_unsupported_def)
qed

section \<open>Dropping items from the ends\<close>

lemma in_map_filter_key: "k \<in> set (List.map_filter f xs) \<longleftrightarrow> Some k \<in> f ` set xs"
  by (induction xs) (auto split: option.splits)

lemma distinct_key_Cons:
  "distinct (List.map_filter f (x # xs)) \<longleftrightarrow>
     (f x = None \<or> f x \<notin> f ` set xs) \<and> distinct (List.map_filter f xs)"
  by (cases "f x") (simp_all add: in_map_filter_key)

lemma distinct_key_filter:
  "distinct (List.map_filter f xs) \<Longrightarrow> distinct (List.map_filter f (filter p xs))"
  by (induction xs) (auto simp: in_map_filter_key split: option.splits)

text \<open>With distinct keys the first match is the only one.\<close>

lemma remove_first_matching_key:
  assumes "distinct (List.map_filter f xs)" "list_ex p xs" "\<And>x. p x \<Longrightarrow> f x = Some k"
  shows "remove_first_matching p xs = filter (\<lambda>x. f x \<noteq> Some k) xs"
  using assms(1,2)
proof (induction xs)
  case (Cons x xs)
  show ?case
  proof (cases "p x")
    case True
    then have "Some k \<notin> f ` set xs" using Cons.prems(1) assms(3)[of x] unfolding distinct_key_Cons by simp
    then have "filter (\<lambda>x. f x \<noteq> Some k) xs = xs" by (force intro: filter_True)
    with True assms(3)[of x] show ?thesis by simp
  next
    case False
    with Cons.prems(2) obtain y where "y \<in> set xs" "p y" by (auto simp: list_ex_iff)
    then have "Some k \<in> f ` set xs" using assms(3)[of y] by force
    then have "f x \<noteq> Some k" using Cons.prems(1) unfolding distinct_key_Cons by auto
    with False Cons.IH Cons.prems show ?thesis unfolding distinct_key_Cons by simp
  qed
qed simp

lemma remove_first_matching_none: "\<not> list_ex p xs \<Longrightarrow> remove_first_matching p xs = xs"
  by (induction xs) auto

lemma filter_key_absent: "Some k \<notin> f ` set xs \<Longrightarrow> filter (\<lambda>x. f x \<noteq> Some k) xs = xs"
  by (force intro: filter_True)

lemma remove_first_with_key:
  assumes "distinct (List.map_filter f xs)"
  shows "remove_first_matching (\<lambda>x. f x = Some k) xs = filter (\<lambda>x. f x \<noteq> Some k) xs"
proof (cases "list_ex (\<lambda>x. f x = Some k) xs")
  case True
  then show ?thesis by (rule remove_first_matching_key[OF assms])
next
  case False
  then show ?thesis
    using filter_key_absent[of k f xs] by (simp add: remove_first_matching_none list_ex_key)
qed

text \<open>The items that go with an item: the outputs of a call, the call of an output.\<close>

definition counterpart :: "'j response_item \<Rightarrow> 'j response_item \<Rightarrow> bool" where
  "counterpart i j \<longleftrightarrow>
     (call_key i \<noteq> None \<and> output_key j = call_key i) \<or> (output_key i \<noteq> None \<and> call_key j = output_key i)"

lemma remove_output_of_function_call:
  assumes "distinct (List.map_filter call_key its)"
  shows "remove_corresponding_for its (FunctionCallOutput c out) =
           filter (\<lambda>j. call_key j \<noteq> Some (Function_Calls, c)) its"
proof -
  have none: "filter (\<lambda>j. call_key j \<noteq> Some (Function_Calls, c)) its = its"
    if "\<not> list_ex (\<lambda>i. function_call_id i = Some c) its" "\<not> list_ex (\<lambda>i. local_shell_call_id i = Some c) its"
    using that call_ids(1)[of _ c] by (auto simp: list_ex_iff intro: filter_True)
  have "remove_first_matching (\<lambda>i. function_call_id i = Some c) its =
          filter (\<lambda>j. call_key j \<noteq> Some (Function_Calls, c)) its"
    if "list_ex (\<lambda>i. function_call_id i = Some c) its"
    using assms that call_ids(1) by (intro remove_first_matching_key) auto
  moreover have "remove_first_matching (\<lambda>i. local_shell_call_id i = Some c) its =
          filter (\<lambda>j. call_key j \<noteq> Some (Function_Calls, c)) its"
    if "list_ex (\<lambda>i. local_shell_call_id i = Some c) its"
    using assms that call_ids(1) by (intro remove_first_matching_key) auto
  ultimately show ?thesis using none by auto
qed

lemma remove_corresponding_unique:
  assumes "unique_keys its"
  shows "remove_corresponding_for its i = filter (\<lambda>j. \<not> counterpart i j) its"
proof -
  have d: "distinct (List.map_filter call_key its)" "distinct (List.map_filter output_key its)"
    using assms by (simp_all add: unique_keys_def)
  have out: "is_function_output_for c = (\<lambda>j. output_key j = Some (Function_Calls, c))"
    "is_search_output_for c = (\<lambda>j. output_key j = Some (Search_Calls, c))"
    "is_custom_output_for c = (\<lambda>j. output_key j = Some (Custom_Calls, c))"
    for c :: rstr by (simp_all add: fun_eq_iff output_matchers)
  show ?thesis
    by (cases "(its, i)" rule: remove_corresponding_for.cases)
      (simp_all add: out call_ids(2,3) remove_first_with_key[OF d(1)] remove_first_with_key[OF d(2)]
        remove_output_of_function_call[OF d(1)] counterpart_def del: remove_corresponding_for.simps(2))
qed

lemma paired_call: "paired its \<Longrightarrow> j \<in> set its \<Longrightarrow> call_key j = Some k \<Longrightarrow> \<exists>out\<in>set its. output_key out = Some k"
  unfolding paired_def list_all_iff image_iff by (metis option.distinct(1))

lemma paired_output:
  "paired its \<Longrightarrow> j \<in> set its \<Longrightarrow> output_key j = Some k \<Longrightarrow> server_side j \<or> (\<exists>c\<in>set its. call_key c = Some k)"
  unfolding paired_def list_all_iff image_iff by (metis option.distinct(1))

lemma pairedI:
  assumes "\<And>j k. j \<in> set its \<Longrightarrow> call_key j = Some k \<Longrightarrow> \<exists>out\<in>set its. output_key out = Some k"
    and "\<And>j k. j \<in> set its \<Longrightarrow> output_key j = Some k \<Longrightarrow> \<not> server_side j \<Longrightarrow> \<exists>c\<in>set its. call_key c = Some k"
  shows "paired its"
  unfolding paired_def list_all_iff
proof (intro ballI conjI)
  fix i assume i: "i \<in> set its"
  show "call_key i = None \<or> call_key i \<in> output_key ` set its"
    using assms(1)[OF i] by (cases "call_key i") force+
  show "output_key i = None \<or> server_side i \<or> output_key i \<in> call_key ` set its"
    using assms(2)[OF i] by (cases "output_key i") force+
qed

lemma unique_keys_Cons:
  "unique_keys (i # rest) \<longleftrightarrow>
     (call_key i = None \<or> call_key i \<notin> call_key ` set rest) \<and>
     (output_key i = None \<or> output_key i \<notin> output_key ` set rest) \<and> unique_keys rest"
  unfolding unique_keys_def distinct_key_Cons by blast

lemma paired_remove:
  assumes p: "paired (i # rest)" and u: "unique_keys (i # rest)"
  shows "paired (filter (\<lambda>j. \<not> counterpart i j) rest)" (is "paired ?xs")
proof (rule pairedI)
  fix j k assume j: "j \<in> set ?xs" and k: "call_key j = Some k"
  then have nc: "output_key i \<noteq> Some k" by (cases k) (auto simp: counterpart_def)
  obtain out where out: "out \<in> set (i # rest)" "output_key out = Some k"
    using paired_call[OF p _ k] j by auto
  have "call_key i \<noteq> Some k" using u j k by (force simp: unique_keys_Cons)
  then have "\<not> counterpart i out"
    using out(2) call_not_output[of out] by (auto simp: counterpart_def)
  with out nc show "\<exists>out\<in>set ?xs. output_key out = Some k" by auto
next
  fix j k assume j: "j \<in> set ?xs" and k: "output_key j = Some k" and "\<not> server_side j"
  then have nc: "call_key i \<noteq> Some k" by (cases k) (auto simp: counterpart_def)
  obtain c where c: "c \<in> set (i # rest)" "call_key c = Some k"
    using paired_output[OF p _ k] j \<open>\<not> server_side j\<close> by auto
  have "output_key i \<noteq> Some k" using u j k by (force simp: unique_keys_Cons)
  then have "\<not> counterpart i c"
    using c(2) call_not_output[of c] by (auto simp: counterpart_def)
  with c nc show "\<exists>c\<in>set ?xs. call_key c = Some k" by auto
qed

lemma unique_keys_filter: "unique_keys its \<Longrightarrow> unique_keys (filter p its)"
  by (simp add: unique_keys_def distinct_key_filter)

lemma remove_item_well_paired:
  assumes "paired (i # rest)" "unique_keys (i # rest)"
  shows "paired (remove_corresponding_for rest i) \<and> unique_keys (remove_corresponding_for rest i)"
  using assms paired_remove[OF assms] by (simp add: remove_corresponding_unique unique_keys_Cons unique_keys_filter)

lemma paired_set: "set xs = set ys \<Longrightarrow> paired xs = paired ys"
  by (simp add: paired_def list_all_iff)

lemma unique_keys_snoc: "unique_keys (xs @ [x]) = unique_keys (x # xs)"
  unfolding unique_keys_Cons
  by (auto simp: unique_keys_def map_filter_append in_map_filter_key split: option.splits)

text \<open>
  In a history whose calls and outputs are paired and carry distinct ids, dropping
  the oldest or the newest item takes its counterpart with it, and nothing else: the history stays
  paired with distinct ids.
\<close>
theorem dropping_keeps_pairing:
  assumes "paired (items m)" and "unique_keys (items m)"
  shows "paired (items (remove_first_item m)) \<and> unique_keys (items (remove_first_item m)) \<and>
         paired (items (snd (remove_last_item m))) \<and> unique_keys (items (snd (remove_last_item m)))"
proof (cases "items m = []")
  case True
  with assms show ?thesis by (simp add: remove_first_item_def remove_last_item_def)
next
  case False
  then obtain i rest where first: "items m = i # rest" by (cases "items m") auto
  let ?l = "last (items m)" and ?b = "butlast (items m)"
  have l: "items m = ?b @ [?l]" using False by simp
  have "set (?l # ?b) = set (items m)" by (subst (3) l) simp
  then have "paired (?l # ?b)" using assms(1) paired_set by blast
  moreover have "unique_keys (?l # ?b)" using assms(2) l unique_keys_snoc[of ?b ?l] by simp
  ultimately show ?thesis
    using remove_item_well_paired[of i rest] remove_item_well_paired[of ?l ?b] assms first False
    by (simp add: remove_first_item_def remove_last_item_def replace_def)
qed

theorem dropping_keeps_pairing_witness:
  "let its = [FunctionCall None (lit ''f'') None [] (lit ''1''), CustomToolCall None None (lit ''2'') [] [],
              FunctionCallOutput (lit ''1'') (payload_from_text []),
              CustomToolCallOutput (lit ''2'') None (payload_from_text [])] :: unit response_item list
   in paired its \<and> unique_keys its \<and>
      items (remove_first_item (history_of its)) = [its ! 1, its ! 3] \<and>
      paired [its ! 1, its ! 3] \<and>
      items (snd (remove_last_item (history_of its))) = [its ! 0, its ! 2]"
proof -
  let ?its = "[FunctionCall None (lit ''f'') None [] (lit ''1''), CustomToolCall None None (lit ''2'') [] [],
              FunctionCallOutput (lit ''1'') (payload_from_text []),
              CustomToolCallOutput (lit ''2'') None (payload_from_text [])] :: unit response_item list"
  have "paired (items (history_of ?its))" "unique_keys (items (history_of ?its))"
    by (simp_all add: history_of_def paired_def unique_keys_def)
  from dropping_keeps_pairing[OF this] this show ?thesis
    by (simp add: history_of_def context_manager_new_def remove_first_item_def remove_last_item_def
        replace_def)
qed

end
