(* ===== verification/Rollback.thy ===== *)
theory Rollback
  imports Context_History_Correct
begin

text \<open>
  Thread rollback: \<open>drop_last_n_user_turns\<close> of the context manager cuts the history at the start of
  a turn and takes the context updates injected right before that turn with it.
\<close>

section \<open>Turns\<close>

fun context_update :: "history_env \<Rightarrow> 'j response_item \<Rightarrow> bool" where
  "context_update env (Message _ role content _) \<longleftrightarrow>
     (role = lit ''developer'' \<and> is_contextual_dev_message_content content) \<or>
     (role = lit ''user'' \<and> is_contextual_user_message_content env content)"
| "context_update env _ \<longleftrightarrow> False"

fun mixed_developer_update :: "'j response_item \<Rightarrow> bool" where
  "mixed_developer_update (Message _ role content _) \<longleftrightarrow>
     role = lit ''developer'' \<and> is_contextual_dev_message_content content \<and>
     has_non_contextual_dev_message_content content"
| "mixed_developer_update _ \<longleftrightarrow> False"

abbreviation turns :: "history_env \<Rightarrow> 'j response_item list \<Rightarrow> nat" where
  "turns env its \<equiv> length (filter (is_user_turn_boundary env) its)"

lemma context_update_no_boundary: "context_update env i \<Longrightarrow> \<not> is_user_turn_boundary env i"
  by (cases i) auto

lemma context_updates_no_turns: "list_all (context_update env) its \<Longrightarrow> turns env its = 0"
  by (induction its) (auto dest: context_update_no_boundary)

lemma positions_count: "length (user_message_positions_from env idx its) = turns env its"
  by (induction its arbitrary: idx) auto

lemma position_nth:
  assumes "n < turns env its"
  shows "\<exists>pre b rest. its = pre @ b # rest \<and> is_user_turn_boundary env b \<and> turns env pre = n \<and>
           user_message_positions_from env idx its ! n = idx + length pre"
  using assms
proof (induction its arbitrary: idx n)
  case (Cons i its)
  show ?case
  proof (cases "is_user_turn_boundary env i \<and> n = 0")
    case True
    then show ?thesis by (intro exI[of _ "[]"] exI[of _ i] exI[of _ its]) simp
  next
    case False
    let ?n = "if is_user_turn_boundary env i then n - 1 else n"
    have "?n < turns env its" using False Cons.prems by (auto split: if_splits)
    then obtain pre b rest where "its = pre @ b # rest" "is_user_turn_boundary env b" "turns env pre = ?n"
      "user_message_positions_from env (idx + 1) its ! ?n = (idx + 1) + length pre"
      using Cons.IH[of ?n "idx + 1"] by blast
    with False show ?thesis
      by (intro exI[of _ "i # pre"] exI[of _ b] exI[of _ rest]) (auto simp: nth_Cons' split: if_splits)
  qed
qed simp

section \<open>The walk back from the cut\<close>

text \<open>The walk stops at the first turn or after an item that is no context update.\<close>

lemma trim_walk:
  assumes "first \<le> length pre"
  shows "\<exists>kept ctx. pre = kept @ ctx \<and> first \<le> length kept \<and> list_all (context_update env) ctx \<and>
           (length kept = first \<or> \<not> context_update env (last kept)) \<and>
           trim_pre_turn_context_updates env (pre @ rest) first (length pre) ref =
             (length kept, if list_ex mixed_developer_update ctx then None else ref)"
  using assms
proof (induction pre arbitrary: rest ref rule: rev_induct)
  case Nil
  then show ?case by simp
next
  case (snoc i pre)
  show ?case
  proof (cases "first = Suc (length pre) \<or> \<not> context_update env i")
    case True
    then have "trim_pre_turn_context_updates env ((pre @ [i]) @ rest) first (length (pre @ [i])) ref =
                 (Suc (length pre), ref)"
      by (cases i) auto
    with True snoc.prems show ?thesis
      by (intro exI[of _ "pre @ [i]"] exI[of _ "[]"]) auto
  next
    case False
    let ?ref = "if mixed_developer_update i then None else ref"
    have walk: "trim_pre_turn_context_updates env ((pre @ [i]) @ rest) first (length (pre @ [i])) ref =
                  trim_pre_turn_context_updates env (pre @ i # rest) first (length pre) ?ref"
      using False snoc.prems by (cases i) auto
    have "first \<le> length pre" using False snoc.prems by simp
    from snoc.IH[OF this, of "i # rest" ?ref] obtain kept ctx where *:
      "pre = kept @ ctx" "first \<le> length kept" "list_all (context_update env) ctx"
      "length kept = first \<or> \<not> context_update env (last kept)"
      "trim_pre_turn_context_updates env (pre @ i # rest) first (length pre) ?ref =
         (length kept, if list_ex mixed_developer_update ctx then None else ?ref)" by blast
    show ?thesis
      unfolding walk *(5)
      by (rule exI[of _ kept], rule exI[of _ "ctx @ [i]"]) (use False * in simp)
  qed
qed

section \<open>Dropping turns\<close>

abbreviation before_first_turn :: "history_env \<Rightarrow> 'j response_item list \<Rightarrow> 'j response_item list" where
  "before_first_turn env its \<equiv> takeWhile (\<lambda>i. \<not> is_user_turn_boundary env i) its"

lemma first_position:
  assumes "0 < turns env its"
  shows "user_message_positions_from env idx its ! 0 = idx + length (before_first_turn env its)"
  using assms by (induction its arbitrary: idx) auto

lemma before_first_turn_prefix:
  assumes "its = pre @ b # rest" "is_user_turn_boundary env b"
  shows "prefix (before_first_turn env its) pre"
proof (cases "list_all (\<lambda>i. \<not> is_user_turn_boundary env i) pre")
  case True
  with assms show ?thesis by (simp add: list_all_iff)
next
  case False
  then obtain x where "x \<in> set pre" "is_user_turn_boundary env x" by (auto simp: list_all_iff)
  then have "before_first_turn env its = before_first_turn env pre"
    unfolding assms(1) by (simp add: takeWhile_append1)
  then show ?thesis by (simp add: takeWhile_is_prefix)
qed

lemma prefix_same_length: "prefix xs ys \<Longrightarrow> length ys = length xs \<Longrightarrow> ys = xs"
  by (auto simp: prefix_def)

lemma drop_turns_cut:
  assumes "0 < n" "items m = pre @ rest" "0 < turns env (items m)"
    and "user_message_positions_from env 0 (items m) ! (turns env (items m) - n) = length pre"
    and "trim_pre_turn_context_updates env (pre @ rest) (length (before_first_turn env (items m)))
           (length pre) (reference_context_item m) = (length kept, ref)"
    and "prefix kept pre"
  shows "drop_last_n_user_turns env n m = replace kept (m\<lparr>reference_context_item := ref\<rparr>)"
proof -
  let ?ps = "user_message_positions_from env 0 (items m)"
  have len: "length ?ps = turns env (items m)" by (rule positions_count)
  obtain p0 ps where ps: "?ps = p0 # ps" using assms(3) len by (cases ?ps) auto
  have p0: "p0 = length (before_first_turn env (items m))"
    using first_position[OF assms(3), of 0] ps by simp
  have cut: "(if n \<ge> length ?ps then p0 else ?ps ! (length ?ps - n)) = length pre"
    using assms(4) ps len by (cases "n \<ge> length ?ps") auto
  have kept: "take (length kept) (items m) = kept" using assms(2,6) by (auto simp: prefix_def)
  have trim: "trim_pre_turn_context_updates env (items m) p0 (length pre) (reference_context_item m) =
                (length kept, ref)"
    using assms(5) unfolding p0 assms(2)[symmetric] .
  have "drop_last_n_user_turns env n m =
          (case trim_pre_turn_context_updates env (items m) p0
                  (if n \<ge> length ?ps then p0 else ?ps ! (length ?ps - n)) (reference_context_item m) of
             (cut_idx', ref) \<Rightarrow> replace (take cut_idx' (items m)) (m\<lparr>reference_context_item := ref\<rparr>))"
    using assms(1) ps by (simp add: drop_last_n_user_turns_def user_message_positions_def Let_def)
  then show ?thesis unfolding cut trim by (simp add: kept)
qed

text \<open>
  C26 (functional): rolling back \<open>n\<close> turns keeps a prefix of the history and drops exactly the last
  \<open>n\<close> turns, or all of them if there are fewer. Everything before the first turn survives. The cut
  is at the start of a turn, moved back over the context updates that stand right before it and
  no further; if one of those was a mixed developer message, the stored reference context is
  cleared, otherwise it stays. The history version counts the change.
\<close>
theorem rollback_drops_turns:
  assumes "0 < n" and "0 < turns env (items m)"
  shows "\<exists>kept ctx b rest.
           items m = kept @ ctx @ b # rest \<and> is_user_turn_boundary env b \<and>
           list_all (context_update env) ctx \<and> turns env kept = turns env (items m) - n \<and>
           prefix (before_first_turn env (items m)) kept \<and>
           (kept = before_first_turn env (items m) \<or> \<not> context_update env (last kept)) \<and>
           drop_last_n_user_turns env n m =
             m\<lparr>items := kept, history_version := sat_add (history_version m) 1,
               reference_context_item :=
                 (if list_ex mixed_developer_update ctx then None else reference_context_item m)\<rparr>"
proof -
  have "turns env (items m) - n < turns env (items m)" using assms by simp
  then obtain pre b rest where P: "items m = pre @ b # rest" "is_user_turn_boundary env b"
    "turns env pre = turns env (items m) - n"
    "user_message_positions_from env 0 (items m) ! (turns env (items m) - n) = length pre"
    using position_nth[of _ env "items m" 0] unfolding add_0 by blast
  let ?first = "before_first_turn env (items m)"
  have first: "prefix ?first pre" using P(1,2) by (rule before_first_turn_prefix)
  then have "length ?first \<le> length pre" by (rule prefix_length_le)
  from trim_walk[OF this, of env "b # rest" "reference_context_item m"] obtain kept ctx where
    W: "pre = kept @ ctx" "length ?first \<le> length kept" "list_all (context_update env) ctx"
      "length kept = length ?first \<or> \<not> context_update env (last kept)"
      "trim_pre_turn_context_updates env (pre @ b # rest) (length ?first) (length pre)
         (reference_context_item m) =
         (length kept, if list_ex mixed_developer_update ctx then None else reference_context_item m)"
    by blast
  have pk: "prefix ?first kept"
    using prefix_length_prefix[OF first _ W(2)] W(1) by simp
  moreover have "kept = ?first \<or> \<not> context_update env (last kept)"
    using W(4) prefix_same_length[OF pk] by blast
  moreover have "turns env kept = turns env (items m) - n"
    using P(3) W(1) context_updates_no_turns[OF W(3)] by simp
  moreover have "drop_last_n_user_turns env n m =
      m\<lparr>items := kept, history_version := sat_add (history_version m) 1,
        reference_context_item :=
          (if list_ex mixed_developer_update ctx then None else reference_context_item m)\<rparr>"
    using drop_turns_cut[OF assms(1) P(1) assms(2) P(4) W(5)] W(1) by (simp add: replace_def)
  ultimately show ?thesis using P(1,2) W(1,3) by auto
qed

text \<open>A user message and a message of the environment.\<close>

definition user_message :: "rstr \<Rightarrow> unit response_item" where
  "user_message t = Message None (lit ''user'') [InputText t] None"

theorem rollback_drops_turns_witness:
  "let its = [user_message (lit ''a''), user_message (lit ''b''),
              user_message (lit ''<skill>s</skill>''), user_message (lit ''c'')]
   in 0 < turns (no_env False) (items (history_of its)) \<and>
      items (drop_last_n_user_turns (no_env False) 1 (history_of its)) =
        [user_message (lit ''a''), user_message (lit ''b'')]"
proof -
  let ?its = "[user_message (lit ''a''), user_message (lit ''b''),
               user_message (lit ''<skill>s</skill>''), user_message (lit ''c'')]"
  have plain: "\<not> is_contextual_user_message_content (no_env False) [InputText t]"
    if "t = lit ''a'' \<or> t = lit ''b'' \<or> t = lit ''c''" for t
    using that
    by (auto simp: is_contextual_user_message_content_def parse_hook_prompt_fragment_def no_env_def
        is_standard_contextual_user_text_def CONTEXTUAL_USER_FRAGMENTS_def fragment_matches_def
        Let_def trim_start_def is_whitespace_def len_utf8_def)
  have skill: "is_contextual_user_message_content (no_env False) [InputText (lit ''<skill>s</skill>'')]"
    using registered_fragment_contextual[of "lit ''<skill>''" "lit ''</skill>''" "no_env False"
        "lit ''user''" "lit ''s''"]
    by (simp add: CONTEXTUAL_USER_FRAGMENTS_def fragment_into_def fragment_render_def)
  have t: "0 < turns (no_env False) (items (history_of ?its))"
    using plain[of "lit ''a''"] by (simp add: history_of_def user_message_def)
  show ?thesis
    using rollback_drops_turns[OF zero_less_one t] t plain skill
    by (simp add: history_of_def context_manager_new_def user_message_def drop_last_n_user_turns_def
        user_message_positions_def replace_def)
qed

text \<open>Without any turn the items stay, and yet the history version counts a change.\<close>

lemma rollback_without_turns:
  assumes "0 < n" and "turns env (items m) = 0"
  shows "drop_last_n_user_turns env n m = m\<lparr>history_version := sat_add (history_version m) 1\<rparr>"
proof -
  have "user_message_positions_from env 0 (items m) = []"
    using positions_count[of env 0 "items m"] assms(2) by simp
  with assms(1) show ?thesis
    by (simp add: drop_last_n_user_turns_def user_message_positions_def replace_def)
qed

end
