(* ===== verification/Recording.thy ===== *)
theory Recording
  imports Context_History_Correct
begin

text \<open>
  Recording items in the history (\<open>record_items\<close>): outputs are truncated on the way, which never
  fails and keeps the ids that pair calls with outputs.
\<close>

section \<open>Recording items\<close>

text \<open>The texts of an output that truncation measures, which fit in memory.\<close>

definition body_fits :: "function_call_output_body \<Rightarrow> bool" where
  "body_fits b =
     (case b of
        Body_Text t \<Rightarrow> utf8_len t \<le> USIZE_MAX
      | Body_ContentItems its \<Rightarrow> list_all (\<lambda>t. utf8_len t \<le> USIZE_MAX) (texts its))"

fun item_fits :: "'j response_item \<Rightarrow> bool" where
  "item_fits (FunctionCallOutput _ output) = body_fits (body output)"
| "item_fits (CustomToolCallOutput _ _ output) = body_fits (body output)"
| "item_fits _ = True"

lemma truncate_text_returns: "utf8_len t \<le> USIZE_MAX \<Longrightarrow> \<exists>r. truncate_text t policy = Some r"
  using truncate_text_fits[of t policy] truncate_text_cut[of policy t] by fastforce

lemma truncate_items_returns:
  assumes "list_all (\<lambda>t. utf8_len t \<le> USIZE_MAX) (texts its)"
  shows "\<exists>out. truncate_function_output_items_with_policy its policy = Some out"
proof -
  obtain r where "items_loop policy (items_budget policy) 0 [] its = Some r"
    using items_loop_cut[OF assms, of policy "items_budget policy" "[]"] by blast
  then show ?thesis by (simp add: truncate_items_loop)
qed

lemma truncate_payload_returns:
  assumes "body_fits (body output)"
  shows "\<exists>r. truncate_function_output_payload output policy = Some r"
proof (cases "body output")
  case (Body_Text t)
  with assms truncate_text_returns[of t policy] show ?thesis
    by (auto simp: truncate_function_output_payload_def body_fits_def)
next
  case (Body_ContentItems its)
  with assms truncate_items_returns[of its policy] show ?thesis
    by (auto simp: truncate_function_output_payload_def body_fits_def)
qed

text \<open>Recording an item shortens its output and leaves its kind and ids alone.\<close>

definition same_keys :: "'j response_item \<Rightarrow> 'j response_item \<Rightarrow> bool" where
  "same_keys i j \<longleftrightarrow> call_key j = call_key i \<and> output_key j = output_key i \<and> server_side j = server_side i"

lemma process_item_returns:
  assumes "item_fits i"
  shows "\<exists>j. process_item i policy = Some j \<and> same_keys i j"
proof (cases "(i, policy)" rule: process_item.cases)
  case (1 c out p)
  with assms truncate_payload_returns[of out "serialization_budget policy"] show ?thesis
    by (auto simp: same_keys_def)
next
  case (2 c name out p)
  with assms truncate_payload_returns[of out "serialization_budget policy"] show ?thesis
    by (auto simp: same_keys_def)
qed (auto simp: same_keys_def)

lemma record_items_loop_returns:
  assumes "list_all item_fits new"
  shows "\<exists>out. record_items_loop policy new acc = Some (acc @ out) \<and>
           list_all2 same_keys (filter is_api_message new) out"
  using assms
proof (induction new arbitrary: acc)
  case (Cons i new)
  show ?case
  proof (cases "is_api_message i")
    case True
    obtain j where j: "process_item i policy = Some j" "same_keys i j"
      using process_item_returns[of i policy] Cons.prems by auto
    obtain out where "record_items_loop policy new (acc @ [j]) = Some ((acc @ [j]) @ out)"
      "list_all2 same_keys (filter is_api_message new) out"
      using Cons.IH[of "acc @ [j]"] Cons.prems by auto
    with True j show ?thesis by (intro exI[of _ "j # out"]) simp
  next
    case False
    with Cons show ?thesis by simp
  qed
qed simp

lemma same_keys_images:
  assumes "list_all2 same_keys xs ys"
  shows "call_key ` set ys = call_key ` set xs \<and> output_key ` set ys = output_key ` set xs"
  using assms by (induction rule: list_all2_induct) (auto simp: same_keys_def)

lemma paired_same_keys:
  assumes "list_all2 same_keys xs ys" "paired xs"
  shows "paired ys"
proof -
  have "list_all2 same_keys us vs \<Longrightarrow>
          list_all (\<lambda>i. (call_key i = None \<or> call_key i \<in> output_key ` set xs) \<and>
                   (output_key i = None \<or> server_side i \<or> output_key i \<in> call_key ` set xs)) us \<Longrightarrow>
          list_all (\<lambda>i. (call_key i = None \<or> call_key i \<in> output_key ` set xs) \<and>
                   (output_key i = None \<or> server_side i \<or> output_key i \<in> call_key ` set xs)) vs" for us vs
    by (induction rule: list_all2_induct) (simp_all add: same_keys_def)
  with assms same_keys_images[OF assms(1)] show ?thesis by (simp add: paired_def)
qed

lemma paired_append: "paired xs \<Longrightarrow> paired ys \<Longrightarrow> paired (xs @ ys)"
  by (auto simp: paired_def list_all_iff)

end
