(* ===== verification/Patch_Invocation.thy ===== *)
theory Patch_Invocation
  imports Apply_Delta Bash_Script "HOL-Library.AList"
begin

text \<open>
  \<^verbatim>\<open>codex-rs/apply-patch/src/invocation.rs\<close>: recognising a call of \<^verbatim>\<open>apply_patch\<close> in an argument
  vector, direct or as the here-document of a shell script, and turning its hunks into the changes
  that the user is asked about. The parser and the query engine of tree-sitter are a parameter: what
  loading the grammar gives, and the captures of each match of the query of the source in a script.
\<close>

section \<open>Data\<close>

definition APPLY_PATCH_COMMANDS :: "rstr list" where
  "APPLY_PATCH_COMMANDS = [lit ''apply_patch'', lit ''applypatch'']"

datatype apply_patch_shell = Shell_Unix | Shell_PowerShell | Shell_Cmd

datatype extract_heredoc_error =
    CommandDidNotStartWithApplyPatch
  | FailedToLoadBashGrammar
  | HeredocNotUtf8
  | FailedToParsePatchIntoAst
  | FailedToFindHeredocBody

datatype maybe_apply_patch =
    Maybe_Body apply_patch_args
  | Maybe_ShellParseError extract_heredoc_error
  | Maybe_PatchParseError parse_error
  | Maybe_NotApplyPatch

datatype apply_patch_file_change =
    File_Add rstr
  | File_Delete rstr
  | File_Update rstr "path option" rstr

text \<open>The changes are a hash map: an association list without order; its keys are absolute and
  normalised, so equal paths have equal texts.\<close>

record apply_patch_action =
  action_changes :: "(path \<times> apply_patch_file_change) list"
  action_patch :: rstr
  action_cwd :: path

definition action_is_empty :: "apply_patch_action \<Rightarrow> bool" where
  "action_is_empty action \<longleftrightarrow> action_changes action = []"

datatype maybe_apply_patch_verified =
    Verified_Body apply_patch_action
  | Verified_ShellParseError extract_heredoc_error
  | Verified_CorrectnessError apply_patch_error
  | Verified_NotApplyPatch

section \<open>Shells\<close>

definition classify_shell_name :: "rstr \<Rightarrow> rstr option" where
  "classify_shell_name shell = map_option to_ascii_lowercase (path_file_stem shell)"

definition classify_shell :: "rstr \<Rightarrow> rstr \<Rightarrow> apply_patch_shell option" where
  "classify_shell shell flag =
     (case classify_shell_name shell of
        None \<Rightarrow> None
      | Some name \<Rightarrow>
          if name \<in> {lit ''bash'', lit ''zsh'', lit ''sh''} \<and> flag \<in> {lit ''-lc'', lit ''-c''}
          then Some Shell_Unix
          else if name \<in> {lit ''pwsh'', lit ''powershell''} \<and> eq_ignore_ascii_case flag (lit ''-command'')
          then Some Shell_PowerShell
          else if name = lit ''cmd'' \<and> eq_ignore_ascii_case flag (lit ''/c'') then Some Shell_Cmd
          else None)"

definition can_skip_flag :: "rstr \<Rightarrow> rstr \<Rightarrow> bool" where
  "can_skip_flag shell flag =
     (case classify_shell_name shell of
        None \<Rightarrow> False
      | Some name \<Rightarrow> name \<in> {lit ''pwsh'', lit ''powershell''} \<and> eq_ignore_ascii_case flag (lit ''-noprofile''))"

definition parse_shell_script :: "rstr list \<Rightarrow> (apply_patch_shell \<times> rstr) option" where
  "parse_shell_script argv =
     (case argv of
        [shell, flag, script] \<Rightarrow> map_option (\<lambda>shell_type. (shell_type, script)) (classify_shell shell flag)
      | [shell, skip_flag, flag, script] \<Rightarrow>
          if can_skip_flag shell skip_flag
          then map_option (\<lambda>shell_type. (shell_type, script)) (classify_shell shell flag) else None
      | _ \<Rightarrow> None)"

section \<open>Here-documents\<close>

text \<open>A capture of the query: its name, and its text if that is UTF-8.\<close>

type_synonym capture = "rstr \<times> rstr option"

record bash_query =
  bq_set_language :: bool
  bq_matches :: "rstr \<Rightarrow> capture list list option"

fun read_captures ::
    "capture list \<Rightarrow> rstr option \<Rightarrow> rstr option \<Rightarrow> (rstr option \<times> rstr option, extract_heredoc_error) result" where
  "read_captures [] heredoc_txt cd_path = Inr (heredoc_txt, cd_path)"
| "read_captures ((name, node_text) # rest) heredoc_txt cd_path =
     (if name = lit ''heredoc'' then
        (case node_text of
           None \<Rightarrow> Inl HeredocNotUtf8
         | Some s \<Rightarrow> read_captures rest (Some (trim_end_matches NL s)) cd_path)
      else if name = lit ''cd_path'' then
        (case node_text of
           None \<Rightarrow> Inl HeredocNotUtf8
         | Some s \<Rightarrow> read_captures rest heredoc_txt (Some s))
      else if name = lit ''cd_raw_string'' then
        (case node_text of
           None \<Rightarrow> Inl HeredocNotUtf8
         | Some raw \<Rightarrow>
             read_captures rest heredoc_txt
               (Some (case Option.bind (strip_prefix [39] raw) (strip_suffix [39]) of
                        Some trimmed \<Rightarrow> trimmed | None \<Rightarrow> raw)))
      else read_captures rest heredoc_txt cd_path)"

fun scan_matches :: "capture list list \<Rightarrow> (rstr \<times> rstr option, extract_heredoc_error) result" where
  "scan_matches [] = Inl CommandDidNotStartWithApplyPatch"
| "scan_matches (m # ms) =
     (case read_captures m None None of
        Inl e \<Rightarrow> Inl e
      | Inr (Some heredoc, cd_path) \<Rightarrow> Inr (heredoc, cd_path)
      | Inr (None, _) \<Rightarrow> scan_matches ms)"

definition extract_apply_patch_from_bash ::
    "bash_query \<Rightarrow> rstr \<Rightarrow> (rstr \<times> rstr option, extract_heredoc_error) result" where
  "extract_apply_patch_from_bash bq src =
     (if \<not> bq_set_language bq then Inl FailedToLoadBashGrammar
      else (case bq_matches bq src of
              None \<Rightarrow> Inl FailedToParsePatchIntoAst
            | Some ms \<Rightarrow> scan_matches ms))"

definition extract_apply_patch_from_shell ::
    "bash_query \<Rightarrow> apply_patch_shell \<Rightarrow> rstr \<Rightarrow> (rstr \<times> rstr option, extract_heredoc_error) result" where
  "extract_apply_patch_from_shell bq shell script =
     (case shell of
        Shell_Unix \<Rightarrow> extract_apply_patch_from_bash bq script
      | Shell_PowerShell \<Rightarrow> extract_apply_patch_from_bash bq script
      | Shell_Cmd \<Rightarrow> extract_apply_patch_from_bash bq script)"

section \<open>Recognising a call\<close>

definition parse_shell_invocation :: "bash_query \<Rightarrow> rstr list \<Rightarrow> maybe_apply_patch" where
  "parse_shell_invocation bq argv =
     (case parse_shell_script argv of
        None \<Rightarrow> Maybe_NotApplyPatch
      | Some (shell, script) \<Rightarrow>
          (case extract_apply_patch_from_shell bq shell script of
             Inr (body, workdir) \<Rightarrow>
               (case parse_patch body of
                  Inr source \<Rightarrow> Maybe_Body (source\<lparr>args_workdir := workdir\<rparr>)
                | Inl e \<Rightarrow> Maybe_PatchParseError e)
           | Inl CommandDidNotStartWithApplyPatch \<Rightarrow> Maybe_NotApplyPatch
           | Inl e \<Rightarrow> Maybe_ShellParseError e))"

definition maybe_parse_apply_patch :: "bash_query \<Rightarrow> rstr list \<Rightarrow> maybe_apply_patch" where
  "maybe_parse_apply_patch bq argv =
     (case argv of
        [cmd, body] \<Rightarrow>
          if cmd \<in> set APPLY_PATCH_COMMANDS
          then (case parse_patch body of
                  Inr source \<Rightarrow> Maybe_Body source
                | Inl e \<Rightarrow> Maybe_PatchParseError e)
          else parse_shell_invocation bq argv
      | _ \<Rightarrow> parse_shell_invocation bq argv)"

section \<open>Verified changes\<close>

text \<open>
  The change of one hunk with its key; the hunks of one patch are all judged against the files as
  they are now. The outer option is a panic of the text edit, as in \<open>apply_hunk\<close>.
\<close>

definition hunk_change ::
    "'w file_system \<Rightarrow> (nat \<Rightarrow> rstr \<Rightarrow> rstr \<Rightarrow> rstr) \<Rightarrow> path option \<Rightarrow> path \<Rightarrow> 'w \<Rightarrow> hunk \<Rightarrow>
     (path \<times> apply_patch_file_change, apply_patch_error) result option" where
  "hunk_change fs diff home effective_cwd w h =
     (let p = resolve_path home h effective_cwd
      in case h of
           AddFile _ contents \<Rightarrow> Some (Inr (p, File_Add contents))
         | DeleteFile _ \<Rightarrow>
             (case read_file_text fs p w of
                Inr content \<Rightarrow> Some (Inr (p, File_Delete content))
              | Inl e \<Rightarrow> Some (Inl (IoError (lit ''Failed to read '' @ p) e)))
         | UpdateFile _ move_path chunks \<Rightarrow>
             map_option (map_sum id (\<lambda>u.
                (p, File_Update (unified_diff u)
                      (map_option (\<lambda>q. abs_join home effective_cwd q) move_path) (update_content u))))
               (unified_diff_from_chunks diff (read_file_text fs p w) p chunks))"

fun verify_hunks ::
    "'w file_system \<Rightarrow> (nat \<Rightarrow> rstr \<Rightarrow> rstr \<Rightarrow> rstr) \<Rightarrow> path option \<Rightarrow> path \<Rightarrow> 'w \<Rightarrow> hunk list \<Rightarrow>
     (path \<times> apply_patch_file_change) list \<Rightarrow>
     ((path \<times> apply_patch_file_change) list, apply_patch_error) result option" where
  "verify_hunks fs diff home effective_cwd w [] changes = Some (Inr changes)"
| "verify_hunks fs diff home effective_cwd w (h # hs) changes =
     (case hunk_change fs diff home effective_cwd w h of
        None \<Rightarrow> None
      | Some (Inl e) \<Rightarrow> Some (Inl e)
      | Some (Inr (p, c)) \<Rightarrow> verify_hunks fs diff home effective_cwd w hs (AList.update p c changes))"

definition verify_body ::
    "'w file_system \<Rightarrow> (nat \<Rightarrow> rstr \<Rightarrow> rstr \<Rightarrow> rstr) \<Rightarrow> path option \<Rightarrow> path \<Rightarrow> 'w \<Rightarrow> apply_patch_args \<Rightarrow>
     maybe_apply_patch_verified option" where
  "verify_body fs diff home cwd w args =
     (let effective_cwd = (case args_workdir args of Some dir \<Rightarrow> abs_join home cwd dir | None \<Rightarrow> cwd)
      in map_option
           (\<lambda>r. case r of
              Inl e \<Rightarrow> Verified_CorrectnessError e
            | Inr changes \<Rightarrow>
                Verified_Body \<lparr>action_changes = changes, action_patch = args_patch args, action_cwd = effective_cwd\<rparr>)
           (verify_hunks fs diff home effective_cwd w (args_hunks args) []))"

definition is_ok :: "('a, 'e) result \<Rightarrow> bool" where
  "is_ok r = (case r of Inr _ \<Rightarrow> True | Inl _ \<Rightarrow> False)"

definition maybe_parse_apply_patch_verified ::
    "bash_query \<Rightarrow> 'w file_system \<Rightarrow> (nat \<Rightarrow> rstr \<Rightarrow> rstr \<Rightarrow> rstr) \<Rightarrow> path option \<Rightarrow> rstr list \<Rightarrow> path \<Rightarrow> 'w \<Rightarrow>
     maybe_apply_patch_verified option" where
  "maybe_parse_apply_patch_verified bq fs diff home argv cwd w =
     (if (case argv of [body] \<Rightarrow> is_ok (parse_patch body) | _ \<Rightarrow> False)
      then Some (Verified_CorrectnessError ImplicitInvocation)
      else if (case parse_shell_script argv of Some (_, script) \<Rightarrow> is_ok (parse_patch script) | None \<Rightarrow> False)
      then Some (Verified_CorrectnessError ImplicitInvocation)
      else
        (case maybe_parse_apply_patch bq argv of
           Maybe_Body args \<Rightarrow> verify_body fs diff home cwd w args
         | Maybe_ShellParseError e \<Rightarrow> Some (Verified_ShellParseError e)
         | Maybe_PatchParseError e \<Rightarrow> Some (Verified_CorrectnessError (ParseError e))
         | Maybe_NotApplyPatch \<Rightarrow> Some Verified_NotApplyPatch))"

section \<open>Parsing the patch again\<close>

text \<open>The action carries the text of the patch, which is parsed a second time to be applied.\<close>

lemma boundaries_strict_iff:
  "check_patch_boundaries_strict ls = Inr (pl, hl) \<longleftrightarrow>
   ls \<noteq> [] \<and> pl = ls \<and> hl = butlast (tl ls) \<and> trim (hd ls) = BEGIN_PATCH_MARKER \<and> trim (last ls) = END_PATCH_MARKER"
  by (cases ls) (auto simp: check_patch_boundaries_strict_def check_start_and_end_lines_strict_def)

lemma boundaries_lenient_strict:
  "check_patch_boundaries_lenient ls = Inr (pl, hl) \<Longrightarrow> check_patch_boundaries_strict pl = Inr (pl, hl)"
  by (auto simp: check_patch_boundaries_lenient_def boundaries_strict_iff split: sum.splits if_splits)

lemma trim_join_ends:
  assumes a: "trim a \<noteq> []" and z: "trim z \<noteq> []"
  shows "trim (str_join [NL] (a # mid @ [z])) = str_join [NL] (trim_start a # mid @ [trim_end z])"
proof -
  have ja: "str_join [NL] (x # mid @ [y]) = x @ NL # (if mid = [] then y else str_join [NL] mid @ NL # y)" for x y
    using str_join_snoc [of "[NL]" mid y] by (cases mid) auto
  have "\<not> (\<forall>c\<in>set a. is_whitespace c)" "\<not> (\<forall>c\<in>set z. is_whitespace c)"
    using a z by (auto simp: trim_eq_Nil_iff)
  then have "trim_start (a @ r) = trim_start a @ r" "trim_end (r @ z) = r @ trim_end z" for r
    by (auto simp: trim_start_def trim_end_def)
  note t = this
  have "trim_end (u @ NL # v @ NL # z) = u @ NL # v @ NL # trim_end z" "trim_end (u @ NL # z) = u @ NL # trim_end z"
    for u v using t(2) [of "u @ NL # v @ [NL]"] t(2) [of "u @ [NL]"] by simp_all
  then show ?thesis unfolding ja trim_def by (simp add: t(1))
qed

lemma last_dropWhile_ne: "dropWhile P xs \<noteq> [] \<Longrightarrow> last (dropWhile P xs) = last xs"
  by (induction xs) auto

lemma split_inclusive_piece: "p \<in> set (split_inclusive d s) \<Longrightarrow> d \<notin> set (butlast p)"
proof (induction s arbitrary: p)
  case (Cons c s)
  show ?case
  proof (cases "split_inclusive d s")
    case (Cons q qs)
    have "d \<notin> set (butlast q)" using Cons.IH [of q] Cons by simp
    then show ?thesis using Cons.prems Cons.IH [of p] Cons by (auto split: if_splits)
  qed (use Cons.prems in \<open>auto split: if_splits\<close>)
qed simp

lemma strip_suffix_single: "strip_suffix [c] l = (if l \<noteq> [] \<and> last l = c then Some (butlast l) else None)"
  by (cases l rule: rev_cases) (auto simp: strip_suffix_def)

lemma str_lines_no_newline: "l \<in> set (str_lines s) \<Longrightarrow> NL \<notin> set l"
proof -
  assume "l \<in> set (str_lines s)"
  then obtain p where p: "p \<in> set (split_inclusive NL s)" "l = strip_line_ending p" by (auto simp: str_lines_def)
  have b: "NL \<notin> set (butlast p)" using p(1) by (rule split_inclusive_piece)
  show ?thesis
  proof (cases "p \<noteq> [] \<and> last p = NL")
    case True
    then have "l = butlast p \<or> l = butlast (butlast p)"
      by (simp add: p(2) strip_line_ending_def strip_suffix_single)
    then show ?thesis using b by (auto dest: in_set_butlastD)
  next
    case False
    then have "l = p" by (auto simp: p(2) strip_line_ending_def strip_suffix_single)
    then show ?thesis using b False by (cases p rule: rev_cases) auto
  qed
qed

lemma plain_line_trim_start: "plain_line a \<Longrightarrow> trim_start a \<noteq> [] \<Longrightarrow> plain_line (trim_start a)"
  by (auto simp: plain_line_def trim_start_def last_dropWhile_ne dest: set_dropWhileD)

lemma plain_line_trim_end: "NL \<notin> set z \<Longrightarrow> plain_line (trim_end z)"
proof -
  assume "NL \<notin> set z"
  moreover have "set (trim_end z) \<subseteq> set z" using trim_end_prefix [of z] by (auto dest: set_mono_prefix)
  moreover have "trim_end z \<noteq> [] \<Longrightarrow> last (trim_end z) \<noteq> CR"
    using last_trim_end [of z] by (auto simp: is_whitespace_def)
  ultimately show ?thesis by (auto simp: plain_line_def)
qed

lemma markers_differ: "BEGIN_PATCH_MARKER \<noteq> END_PATCH_MARKER" "BEGIN_PATCH_MARKER \<noteq> []" "END_PATCH_MARKER \<noteq> []"
  by (simp_all add: BEGIN_PATCH_MARKER_def END_PATCH_MARKER_def)

lemma boundaries_again:
  assumes strict: "check_patch_boundaries_strict ls = Inr (ls, hl)" and plain: "\<forall>l\<in>set ls. plain_line l"
  shows "\<exists>ls'. check_patch_boundaries_strict (str_lines (trim (str_join [NL] ls))) = Inr (ls', hl)"
proof -
  have ends: "trim (hd ls) = BEGIN_PATCH_MARKER" "trim (last ls) = END_PATCH_MARKER" "ls \<noteq> []"
    and hl: "hl = butlast (tl ls)" using strict by (auto simp: boundaries_strict_iff)
  then obtain a mid z where ls: "ls = a # mid @ [z]"
    using markers_differ by (cases ls; cases "tl ls" rule: rev_cases) auto
  have t: "trim a = BEGIN_PATCH_MARKER" "trim z = END_PATCH_MARKER" using ends by (auto simp: ls)
  let ?ls = "trim_start a # mid @ [trim_end z]"
  have ne: "trim_start a \<noteq> []" "trim_end z \<noteq> []"
    using t markers_differ by (auto simp: trim_def) (metis t(2) trim_swap trim_start_def dropWhile.simps(1))
  have "\<forall>l\<in>set ?ls. plain_line l"
    using plain ne plain_line_trim_start [of a] plain_line_trim_end [of z] by (auto simp: ls plain_line_def)
  then have "str_lines (str_join [NL] ?ls) = ?ls" using ne by (intro str_lines_join) auto
  then have l: "str_lines (trim (str_join [NL] ls)) = ?ls"
    unfolding ls using t markers_differ by (subst trim_join_ends) auto
  have "trim (trim_start a) = BEGIN_PATCH_MARKER" "trim (trim_end z) = END_PATCH_MARKER"
    using t by (simp_all add: trim_def) (metis t(2) trim_swap trim_end_idem)
  then have "check_patch_boundaries_strict ?ls = Inr (?ls, mid)" by (simp add: boundaries_strict_iff)
  then show ?thesis unfolding l using hl by (simp add: ls)
qed

lemma parse_patch_same_hunks:
  assumes "parse_patch t = Inr args" and "\<forall>l\<in>set (split_on NL (args_patch args)). plain_line l"
  shows "\<exists>again. parse_patch (args_patch args) = Inr again \<and> args_hunks again = args_hunks args"
proof -
  obtain pl hl where b: "check_patch_boundaries_lenient (str_lines (trim t)) = Inr (pl, hl)"
    and h: "parse_hunks_loop hl 2 [] = Inr (args_hunks args)" and p: "args_patch args = str_join [NL] pl"
    using assms(1)
    by (auto simp: parse_patch_def parse_patch_text_def PARSE_IN_STRICT_MODE_def split: sum.splits)
  have strict: "check_patch_boundaries_strict pl = Inr (pl, hl)" using b by (rule boundaries_lenient_strict)
  have "set (butlast (tl xs)) \<subseteq> set xs" for xs :: "rstr list"
    by (cases xs) (auto dest: in_set_butlastD)
  then have "set pl \<subseteq> set (str_lines (trim t))" "pl \<noteq> []"
    using b strict by (auto simp: check_patch_boundaries_lenient_def boundaries_strict_iff
        split: sum.splits if_splits)
  then have "split_on NL (args_patch args) = pl"
    unfolding p using str_lines_no_newline by (intro split_on_join) blast+
  then have "\<forall>l\<in>set pl. plain_line l" using assms(2) by simp
  from boundaries_again [OF strict this] obtain ls'
    where "check_patch_boundaries_strict (str_lines (trim (args_patch args))) = Inr (ls', hl)" unfolding p by blast
  then show ?thesis
    using h by (simp add: parse_patch_def parse_patch_text_def PARSE_IN_STRICT_MODE_def
        check_patch_boundaries_lenient_def)
qed

text \<open>
  The text that a parsed patch keeps, without a here-document around it, parses to the
  same hunks again, so what is verified and shown to the user is what is later applied. No line of the
  text may end in a carriage return: the first parse drops one at the end of a line, and the second would
  drop another.
\<close>

theorem parse_patch_again:
  assumes "parse_patch t = Inr args" and "\<forall>l\<in>set (split_on NL (args_patch args)). plain_line l"
  shows "\<exists>again. parse_patch (args_patch args) = Inr again \<and> args_hunks again = args_hunks args"
  using assms by (rule parse_patch_same_hunks)

theorem parse_patch_again_witness:
  "\<exists>again. parse_patch (patch_text example_run_hunks) = Inr again \<and> args_hunks again = map hunk_of example_run_hunks"
proof -
  have "list_all plain_line (split_on NL (patch_text example_run_hunks))" by code_simp
  then show ?thesis
    using parse_patch_again [OF example_run_parse] by (simp add: list_all_iff)
qed

section \<open>The changes of a patch\<close>

text \<open>Verification never panics.\<close>

lemma hunk_change_total: "\<exists>r. hunk_change fs diff home cwd w h = Some r"
  using derive_from_chunks_total
  by (force simp: hunk_change_def Let_def unified_diff_from_chunks_def unified_diff_from_chunks_with_context_def
      split: hunk.splits sum.splits)

lemma verify_hunks_total: "\<exists>r. verify_hunks fs diff home cwd w hs changes = Some r"
proof (induction hs arbitrary: changes)
  case (Cons h hs)
  obtain r where "hunk_change fs diff home cwd w h = Some r" by (meson hunk_change_total)
  then show ?case using Cons by (cases r) auto
qed simp

lemma hunk_change_key:
  "hunk_change fs diff home cwd w h = Some (Inr (p, c)) \<Longrightarrow> p = resolve_path home h cwd \<and>
   (\<forall>q d cs. h = UpdateFile q (Some d) cs \<longrightarrow>
      (\<exists>u n. c = File_Update u (Some (resolve_path_against_base home d cwd)) n))"
  by (auto simp: hunk_change_def Let_def abs_join_def map_sum_eq_Inr split: hunk.splits sum.splits option.splits)

lemma verify_hunks_keys:
  "verify_hunks fs diff home cwd w hs changes = Some (Inr cs) \<Longrightarrow>
   dom (map_of cs) = dom (map_of changes) \<union> (\<lambda>h. resolve_path home h cwd) ` set hs"
proof (induction hs arbitrary: changes)
  case (Cons h hs)
  obtain p c where h: "hunk_change fs diff home cwd w h = Some (Inr (p, c))"
    and rest: "verify_hunks fs diff home cwd w hs (AList.update p c changes) = Some (Inr cs)"
    using Cons.prems by (auto split: option.splits sum.splits)
  show ?case using Cons.IH [OF rest] hunk_change_key [OF h] by (auto simp: update_conv')
qed simp

lemma verify_hunks_other:
  "verify_hunks fs diff home cwd w hs changes = Some (Inr cs) \<Longrightarrow>
   p \<notin> (\<lambda>h. resolve_path home h cwd) ` set hs \<Longrightarrow> map_of cs p = map_of changes p"
proof (induction hs arbitrary: changes)
  case (Cons h hs)
  obtain q c where h: "hunk_change fs diff home cwd w h = Some (Inr (q, c))"
    and rest: "verify_hunks fs diff home cwd w hs (AList.update q c changes) = Some (Inr cs)"
    using Cons.prems by (auto split: option.splits sum.splits)
  show ?case using Cons.IH [OF rest] Cons.prems(2) hunk_change_key [OF h] by (auto simp: update_conv')
qed simp

text \<open>
  A later hunk on the same file replaces the change, and with it the destination of a move. The destinations that are
  lost in this way:
\<close>

fun shadowed_destinations :: "path option \<Rightarrow> path \<Rightarrow> hunk list \<Rightarrow> path list" where
  "shadowed_destinations home cwd [] = []"
| "shadowed_destinations home cwd (h # hs) =
     (case h of
        UpdateFile _ (Some d) _ \<Rightarrow>
          (if resolve_path home h cwd \<in> set (map (\<lambda>g. resolve_path home g cwd) hs)
           then [resolve_path_against_base home d cwd] else [])
      | _ \<Rightarrow> []) @ shadowed_destinations home cwd hs"

lemma verify_hunks_moves:
  "verify_hunks fs diff home cwd w hs changes = Some (Inr cs) \<Longrightarrow> h \<in> set hs \<Longrightarrow> h = UpdateFile q (Some d) chunks \<Longrightarrow>
   (\<exists>u n. map_of cs (resolve_path home h cwd) = Some (File_Update u (Some (resolve_path_against_base home d cwd)) n)) \<or>
   resolve_path_against_base home d cwd \<in> set (shadowed_destinations home cwd hs)"
proof (induction hs arbitrary: changes)
  case (Cons g hs)
  obtain p c where g: "hunk_change fs diff home cwd w g = Some (Inr (p, c))"
    and rest: "verify_hunks fs diff home cwd w hs (AList.update p c changes) = Some (Inr cs)"
    using Cons.prems by (auto split: option.splits sum.splits)
  show ?case
  proof (cases "h \<in> set hs")
    case True
    then show ?thesis using Cons.IH [OF rest] Cons.prems by auto
  next
    case False
    then have h: "g = h" using Cons.prems(2) by simp
    show ?thesis
    proof (cases "p \<in> (\<lambda>h. resolve_path home h cwd) ` set hs")
      case True
      then show ?thesis using h Cons.prems(3) hunk_change_key [OF g] by auto
    next
      case False
      then have "map_of cs p = Some c" using verify_hunks_other [OF rest] by (simp add: update_conv')
      then show ?thesis using hunk_change_key [OF g] h Cons.prems(3) by auto
    qed
  qed
qed simp

end
