(* ===== verification/File_Permissions.thy ===== *)
theory File_Permissions
  imports Exec_Approval "HOL-Library.Product_Lexorder"
begin

text \<open>
  \<^verbatim>\<open>codex-rs/protocol/src/permissions.rs\<close>: which files a sandbox policy lets the agent read and
  write. The model is of the build for Unix. What the code asks of the machine (the home and
  current directories, \<^verbatim>\<open>TMPDIR\<close>, the kind of a file, symbolic links, canonical paths, the text of
  a file) is a record of functions. Paths compare by their components, as \<^verbatim>\<open>std::path::Path\<close> does.
\<close>

section \<open>Paths\<close>

definition path_eq :: "path \<Rightarrow> path \<Rightarrow> bool" where
  "path_eq p q \<longleftrightarrow> components p = components q"

definition path_starts_with :: "path \<Rightarrow> path \<Rightarrow> bool" where
  "path_starts_with p base \<longleftrightarrow> starts_with (components p) (components base)"

text \<open>\<^verbatim>\<open>Path::strip_prefix\<close>, by components.\<close>

definition path_strip_prefix :: "path \<Rightarrow> path \<Rightarrow> component list option" where
  "path_strip_prefix p base = strip_prefix (components base) (components p)"

fun component_os_str :: "component \<Rightarrow> rstr" where
  "component_os_str RootDir = [SLASH]"
| "component_os_str CurDir = [DOT]"
| "component_os_str ParentDir = [DOT, DOT]"
| "component_os_str (Normal q) = q"

definition relative_path :: "component list \<Rightarrow> path" where
  "relative_path cs = str_join [SLASH] (map component_os_str cs)"

text \<open>\<^verbatim>\<open>Path::ancestors\<close>: the path, its parent and so on; a parent is shorter than its child, so the
  length of the path bounds their number.\<close>

fun ancestors_upto :: "nat \<Rightarrow> path \<Rightarrow> path list" where
  "ancestors_upto 0 p = [p]"
| "ancestors_upto (Suc n) p = p # (case path_parent p of None \<Rightarrow> [] | Some q \<Rightarrow> ancestors_upto n q)"

definition path_ancestors :: "path \<Rightarrow> path list" where
  "path_ancestors p = ancestors_upto (length p) p"

section \<open>The machine\<close>

record perm_env =
  pe_home :: "path option"
  pe_current_dir :: "(path, unit) result"
  pe_tmpdir :: "rstr option"
  pe_is_dir :: "path \<Rightarrow> bool"
  pe_is_file :: "path \<Rightarrow> bool"
  pe_exists :: "path \<Rightarrow> bool"
  pe_symlink_metadata :: "path \<Rightarrow> bool option"
  pe_canonicalize :: "path \<Rightarrow> path option"
  pe_read_to_string :: "path \<Rightarrow> rstr option"

definition to_absolute :: "perm_env \<Rightarrow> path \<Rightarrow> path option" where
  "to_absolute env p =
     (case from_absolute_path (pe_home env) (pe_current_dir env) p of Inl _ \<Rightarrow> None | Inr q \<Rightarrow> Some q)"

abbreviation join_abs :: "perm_env \<Rightarrow> path \<Rightarrow> path \<Rightarrow> path" where
  "join_abs env \<equiv> abs_join (pe_home env)"

section \<open>Policies\<close>

datatype file_system_access_mode = Access_Read | Access_Write | Access_None

text \<open>The declaration order is the order of conflict precedence.\<close>

fun access_rank :: "file_system_access_mode \<Rightarrow> nat" where
  "access_rank Access_Read = 0"
| "access_rank Access_Write = 1"
| "access_rank Access_None = 2"

instantiation file_system_access_mode :: linorder
begin
definition less_eq_file_system_access_mode :: "file_system_access_mode \<Rightarrow> file_system_access_mode \<Rightarrow> bool" where
  "less_eq_file_system_access_mode a b \<longleftrightarrow> access_rank a \<le> access_rank b"
definition less_file_system_access_mode :: "file_system_access_mode \<Rightarrow> file_system_access_mode \<Rightarrow> bool" where
  "less_file_system_access_mode a b \<longleftrightarrow> access_rank a < access_rank b"
instance
proof
  fix x y z :: file_system_access_mode
  show "x \<le> y \<Longrightarrow> y \<le> x \<Longrightarrow> x = y"
    by (cases x; cases y) (simp_all add: less_eq_file_system_access_mode_def)
qed (auto simp: less_eq_file_system_access_mode_def less_file_system_access_mode_def)
end

definition can_read :: "file_system_access_mode \<Rightarrow> bool" where
  "can_read a \<longleftrightarrow> a \<noteq> Access_None"

definition can_write :: "file_system_access_mode \<Rightarrow> bool" where
  "can_write a \<longleftrightarrow> a = Access_Write"

datatype file_system_special_path =
    Special_Root
  | Special_Minimal
  | Special_ProjectRoots "path option"
  | Special_Tmpdir
  | Special_SlashTmp
  | Special_Unknown rstr "path option"

datatype file_system_path =
    FsPath path
  | FsGlobPattern rstr
  | FsSpecial file_system_special_path

record file_system_sandbox_entry =
  entry_path :: file_system_path
  entry_access :: file_system_access_mode

type_synonym fs_policy = "file_system_sandbox_entry file_system_sandbox_policy"

record resolved_file_system_entry =
  res_path :: path
  res_access :: file_system_access_mode

definition fsp_default :: fs_policy where
  "fsp_default = \<lparr>fsp_kind = Restricted, fsp_glob_scan_max_depth = None,
     fsp_entries = [\<lparr>entry_path = FsSpecial Special_Root, entry_access = Access_Read\<rparr>]\<rparr>"

definition fsp_unrestricted :: fs_policy where
  "fsp_unrestricted = \<lparr>fsp_kind = Unrestricted, fsp_glob_scan_max_depth = None, fsp_entries = []\<rparr>"

definition fsp_external_sandbox :: fs_policy where
  "fsp_external_sandbox = \<lparr>fsp_kind = ExternalSandbox, fsp_glob_scan_max_depth = None, fsp_entries = []\<rparr>"

definition fsp_restricted :: "file_system_sandbox_entry list \<Rightarrow> fs_policy" where
  "fsp_restricted entries = \<lparr>fsp_kind = Restricted, fsp_glob_scan_max_depth = None, fsp_entries = entries\<rparr>"

definition has_root_access :: "fs_policy \<Rightarrow> (file_system_access_mode \<Rightarrow> bool) \<Rightarrow> bool" where
  "has_root_access policy pred \<longleftrightarrow>
     fsp_kind policy = Restricted \<and>
     list_ex (\<lambda>entry. entry_path entry = FsSpecial Special_Root \<and> pred (entry_access entry))
       (fsp_entries policy)"

definition has_denied_read_restrictions :: "fs_policy \<Rightarrow> bool" where
  "has_denied_read_restrictions policy \<longleftrightarrow>
     fsp_kind policy = Restricted \<and>
     list_ex (\<lambda>entry. entry_access entry = Access_None) (fsp_entries policy)"

text \<open>The derived \<^verbatim>\<open>PartialEq\<close> of entries; paths are equal by their components.\<close>

fun special_path_same :: "file_system_special_path \<Rightarrow> file_system_special_path \<Rightarrow> bool" where
  "special_path_same (Special_ProjectRoots l) (Special_ProjectRoots r) = rel_option path_eq l r"
| "special_path_same (Special_Unknown l ls) (Special_Unknown r rs) \<longleftrightarrow> l = r \<and> rel_option path_eq ls rs"
| "special_path_same l r \<longleftrightarrow> l = r"

fun file_system_path_same :: "file_system_path \<Rightarrow> file_system_path \<Rightarrow> bool" where
  "file_system_path_same (FsPath l) (FsPath r) = path_eq l r"
| "file_system_path_same (FsGlobPattern l) (FsGlobPattern r) \<longleftrightarrow> l = r"
| "file_system_path_same (FsSpecial l) (FsSpecial r) = special_path_same l r"
| "file_system_path_same _ _ = False"

definition entry_same :: "file_system_sandbox_entry \<Rightarrow> file_system_sandbox_entry \<Rightarrow> bool" where
  "entry_same a b \<longleftrightarrow> file_system_path_same (entry_path a) (entry_path b) \<and> entry_access a = entry_access b"

text \<open>\<^verbatim>\<open>rebuilt.entries.push\<close> of every deny entry that is not there yet.\<close>

definition push_deny_entries ::
    "file_system_sandbox_entry list \<Rightarrow> file_system_sandbox_entry list \<Rightarrow> file_system_sandbox_entry list" where
  "push_deny_entries existing entries =
     foldl (\<lambda>es deny_entry. if list_ex (\<lambda>entry. entry_same entry deny_entry) es then es else es @ [deny_entry])
       entries (filter (\<lambda>entry. entry_access entry = Access_None) existing)"

definition preserve_deny_read_restrictions_from :: "fs_policy \<Rightarrow> fs_policy \<Rightarrow> fs_policy" where
  "preserve_deny_read_restrictions_from self existing =
     (let has_deny_read_entries = list_ex (\<lambda>entry. entry_access entry = Access_None) (fsp_entries existing);
          self1 = (if fsp_kind self = Unrestricted \<and> has_deny_read_entries
                   then fsp_restricted [\<lparr>entry_path = FsSpecial Special_Root, entry_access = Access_Write\<rparr>]
                   else self)
      in if fsp_kind self1 \<noteq> Restricted then self1
         else self1\<lparr>fsp_glob_scan_max_depth :=
                      (if fsp_glob_scan_max_depth self1 = None then fsp_glob_scan_max_depth existing
                       else fsp_glob_scan_max_depth self1),
                    fsp_entries := push_deny_entries (fsp_entries existing) (fsp_entries self1)\<rparr>)"

section \<open>Targets of entries\<close>

definition special_path_matches_absolute_path :: "file_system_special_path \<Rightarrow> path \<Rightarrow> bool" where
  "special_path_matches_absolute_path value p =
     (case value of
        Special_Root \<Rightarrow> path_parent p = None
      | Special_SlashTmp \<Rightarrow> path_eq p (lit ''/tmp'')
      | _ \<Rightarrow> False)"

fun special_paths_share_target :: "file_system_special_path \<Rightarrow> file_system_special_path \<Rightarrow> bool" where
  "special_paths_share_target Special_Root Special_Root = True"
| "special_paths_share_target Special_Minimal Special_Minimal = True"
| "special_paths_share_target Special_Tmpdir Special_Tmpdir = True"
| "special_paths_share_target Special_SlashTmp Special_SlashTmp = True"
| "special_paths_share_target (Special_ProjectRoots l) (Special_ProjectRoots r) =
     rel_option path_eq l r"
| "special_paths_share_target (Special_Unknown l ls) (Special_Unknown r rs) \<longleftrightarrow>
     l = r \<and> rel_option path_eq ls rs"
| "special_paths_share_target _ _ = False"

fun file_system_paths_share_target :: "file_system_path \<Rightarrow> file_system_path \<Rightarrow> bool" where
  "file_system_paths_share_target (FsPath l) (FsPath r) = path_eq l r"
| "file_system_paths_share_target (FsSpecial l) (FsSpecial r) = special_paths_share_target l r"
| "file_system_paths_share_target (FsPath p) (FsSpecial value) = special_path_matches_absolute_path value p"
| "file_system_paths_share_target (FsSpecial value) (FsPath p) = special_path_matches_absolute_path value p"
| "file_system_paths_share_target (FsGlobPattern l) (FsGlobPattern r) \<longleftrightarrow> l = r"
| "file_system_paths_share_target _ _ = False"

definition has_same_target_write_override :: "fs_policy \<Rightarrow> file_system_sandbox_entry \<Rightarrow> bool" where
  "has_same_target_write_override policy entry \<longleftrightarrow>
     list_ex (\<lambda>candidate. can_write (entry_access candidate) \<and>
                entry_access candidate > entry_access entry \<and>
                file_system_paths_share_target (entry_path candidate) (entry_path entry))
       (fsp_entries policy)"

definition narrows_write :: "fs_policy \<Rightarrow> file_system_sandbox_entry \<Rightarrow> bool" where
  "narrows_write policy entry =
     (if can_write (entry_access entry) then False
      else
        (case entry_path entry of
           FsPath _ \<Rightarrow> \<not> has_same_target_write_override policy entry
         | FsGlobPattern _ \<Rightarrow> True
         | FsSpecial value \<Rightarrow>
             (case value of
                Special_Root \<Rightarrow> entry_access entry = Access_None
              | Special_Minimal \<Rightarrow> False
              | Special_Unknown _ _ \<Rightarrow> False
              | _ \<Rightarrow> \<not> has_same_target_write_override policy entry)))"

definition has_write_narrowing_entries :: "fs_policy \<Rightarrow> bool" where
  "has_write_narrowing_entries policy \<longleftrightarrow>
     fsp_kind policy = Restricted \<and> list_ex (narrows_write policy) (fsp_entries policy)"

definition has_full_disk_read_access :: "fs_policy \<Rightarrow> bool" where
  "has_full_disk_read_access policy =
     (case fsp_kind policy of
        Unrestricted \<Rightarrow> True
      | ExternalSandbox \<Rightarrow> True
      | Restricted \<Rightarrow> has_root_access policy can_read \<and> \<not> has_denied_read_restrictions policy)"

definition has_full_disk_write_access :: "fs_policy \<Rightarrow> bool" where
  "has_full_disk_write_access policy =
     (case fsp_kind policy of
        Unrestricted \<Rightarrow> True
      | ExternalSandbox \<Rightarrow> True
      | Restricted \<Rightarrow> has_root_access policy can_write \<and> \<not> has_write_narrowing_entries policy)"

definition include_platform_defaults :: "fs_policy \<Rightarrow> bool" where
  "include_platform_defaults policy \<longleftrightarrow>
     \<not> has_full_disk_read_access policy \<and> fsp_kind policy = Restricted \<and>
     list_ex (\<lambda>entry. entry_path entry = FsSpecial Special_Minimal \<and> can_read (entry_access entry))
       (fsp_entries policy)"

section \<open>Resolving entries\<close>

text \<open>\<open>None\<close> of the last function is the panic of the source, on a working directory without a root.\<close>

definition absolute_root_path_for_cwd :: "perm_env \<Rightarrow> path \<Rightarrow> path option" where
  "absolute_root_path_for_cwd env cwd = to_absolute env (last (path_ancestors cwd))"

definition resolve_file_system_special_path ::
    "perm_env \<Rightarrow> file_system_special_path \<Rightarrow> path option \<Rightarrow> path option" where
  "resolve_file_system_special_path env value cwd =
     (case value of
        Special_Root \<Rightarrow> None
      | Special_Minimal \<Rightarrow> None
      | Special_Unknown _ _ \<Rightarrow> None
      | Special_ProjectRoots subpath \<Rightarrow>
          (case cwd of
             None \<Rightarrow> None
           | Some c \<Rightarrow>
               (case subpath of
                  Some s \<Rightarrow> Some (resolve_path_against_base (pe_home env) s c)
                | None \<Rightarrow> Some c))
      | Special_Tmpdir \<Rightarrow>
          (case pe_tmpdir env of
             None \<Rightarrow> None
           | Some tmpdir \<Rightarrow> if tmpdir = [] then None else to_absolute env tmpdir)
      | Special_SlashTmp \<Rightarrow>
          if \<not> pe_is_dir env (lit ''/tmp'') then None else Some (lit ''/tmp''))"

definition resolve_file_system_path :: "perm_env \<Rightarrow> file_system_path \<Rightarrow> path option \<Rightarrow> path option" where
  "resolve_file_system_path env p cwd =
     (case p of
        FsPath q \<Rightarrow> Some q
      | FsGlobPattern _ \<Rightarrow> None
      | FsSpecial value \<Rightarrow> resolve_file_system_special_path env value cwd)"

definition resolve_entry_path :: "perm_env \<Rightarrow> file_system_path \<Rightarrow> path option \<Rightarrow> path option" where
  "resolve_entry_path env p cwd =
     (if p = FsSpecial Special_Root
      then (case cwd of None \<Rightarrow> None | Some c \<Rightarrow> absolute_root_path_for_cwd env c)
      else resolve_file_system_path env p cwd)"

definition resolve_candidate_path :: "perm_env \<Rightarrow> path \<Rightarrow> path \<Rightarrow> path option" where
  "resolve_candidate_path env p cwd =
     (if is_absolute p then to_absolute env p
      else map_option (\<lambda>c. join_abs env c p) (to_absolute env cwd))"

definition resolved_entries_with_cwd :: "perm_env \<Rightarrow> fs_policy \<Rightarrow> path \<Rightarrow> resolved_file_system_entry list" where
  "resolved_entries_with_cwd env policy cwd =
     List.map_filter
       (\<lambda>entry. map_option (\<lambda>p. \<lparr>res_path = p, res_access = entry_access entry\<rparr>)
                  (resolve_entry_path env (entry_path entry) (to_absolute env cwd)))
       (fsp_entries policy)"

definition resolved_entry_precedence ::
    "resolved_file_system_entry \<Rightarrow> nat \<times> file_system_access_mode" where
  "resolved_entry_precedence entry = (length (components (res_path entry)), res_access entry)"

section \<open>Access to a path\<close>

definition resolve_access_with_cwd :: "perm_env \<Rightarrow> fs_policy \<Rightarrow> path \<Rightarrow> path \<Rightarrow> file_system_access_mode" where
  "resolve_access_with_cwd env policy p cwd =
     (if fsp_kind policy \<noteq> Restricted then Access_Write
      else
        (case resolve_candidate_path env p cwd of
           None \<Rightarrow> Access_None
         | Some target \<Rightarrow>
             (case max_by_key resolved_entry_precedence
                     (filter (\<lambda>entry. path_starts_with target (res_path entry))
                        (resolved_entries_with_cwd env policy cwd)) of
                Some entry \<Rightarrow> res_access entry
              | None \<Rightarrow> Access_None)))"

definition can_read_path_with_cwd :: "perm_env \<Rightarrow> fs_policy \<Rightarrow> path \<Rightarrow> path \<Rightarrow> bool" where
  "can_read_path_with_cwd env policy p cwd \<longleftrightarrow> can_read (resolve_access_with_cwd env policy p cwd)"

definition PROTECTED_METADATA_PATH_NAMES :: "rstr list" where
  "PROTECTED_METADATA_PATH_NAMES = [lit ''.git'', lit ''.agents'', lit ''.codex'']"

definition is_protected_metadata_name :: "rstr \<Rightarrow> bool" where
  "is_protected_metadata_name name \<longleftrightarrow> name \<in> set PROTECTED_METADATA_PATH_NAMES"

definition is_protected_metadata_directory_name :: "rstr \<Rightarrow> bool" where
  "is_protected_metadata_directory_name name \<longleftrightarrow> name = lit ''.agents'' \<or> name = lit ''.codex''"

definition metadata_path_name :: "rstr \<Rightarrow> rstr option" where
  "metadata_path_name name = find (\<lambda>metadata_name. name = metadata_name) PROTECTED_METADATA_PATH_NAMES"

text \<open>The metadata directory of an entry that a path is in, with its name.\<close>

definition metadata_child_of_entry ::
    "perm_env \<Rightarrow> path \<Rightarrow> resolved_file_system_entry \<Rightarrow> (path \<times> rstr) option" where
  "metadata_child_of_entry env target entry =
     (case path_strip_prefix target (res_path entry) of
        Some (first_component # _) \<Rightarrow>
          (case metadata_path_name (component_os_str first_component) of
             Some metadata_name \<Rightarrow> Some (join_abs env (res_path entry) metadata_name, metadata_name)
           | None \<Rightarrow> None)
      | _ \<Rightarrow> None)"

definition metadata_child_of_writable_root ::
    "perm_env \<Rightarrow> fs_policy \<Rightarrow> path \<Rightarrow> path \<Rightarrow> (path \<times> rstr) option" where
  "metadata_child_of_writable_root env policy target cwd =
     find_map (metadata_child_of_entry env target)
       (filter (\<lambda>entry. can_write (res_access entry)) (resolved_entries_with_cwd env policy cwd))"

definition has_explicit_write_entry_for_metadata_path ::
    "perm_env \<Rightarrow> fs_policy \<Rightarrow> path \<Rightarrow> path \<Rightarrow> path \<Rightarrow> bool" where
  "has_explicit_write_entry_for_metadata_path env policy protected_metadata_path target cwd \<longleftrightarrow>
     list_ex (\<lambda>entry. can_write (res_access entry) \<and> path_starts_with target (res_path entry) \<and>
                path_starts_with (res_path entry) protected_metadata_path)
       (resolved_entries_with_cwd env policy cwd)"

definition is_metadata_write_denied :: "perm_env \<Rightarrow> fs_policy \<Rightarrow> path \<Rightarrow> path \<Rightarrow> bool" where
  "is_metadata_write_denied env policy p cwd =
     (if fsp_kind policy \<noteq> Restricted then False
      else
        (case resolve_candidate_path env p cwd of
           None \<Rightarrow> True
         | Some target \<Rightarrow>
             (case metadata_child_of_writable_root env policy target cwd of
                None \<Rightarrow> False
              | Some (protected_metadata_path, _) \<Rightarrow>
                  \<not> has_explicit_write_entry_for_metadata_path env policy protected_metadata_path target cwd)))"

definition can_write_path_with_cwd :: "perm_env \<Rightarrow> fs_policy \<Rightarrow> path \<Rightarrow> path \<Rightarrow> bool" where
  "can_write_path_with_cwd env policy p cwd =
     (if \<not> can_write (resolve_access_with_cwd env policy p cwd) then False
      else if has_full_disk_write_access policy then True
      else \<not> is_metadata_write_denied env policy p cwd)"

definition forbidden_agent_metadata_write :: "perm_env \<Rightarrow> path \<Rightarrow> path \<Rightarrow> fs_policy \<Rightarrow> rstr option" where
  "forbidden_agent_metadata_write env p cwd policy =
     (if fsp_kind policy \<noteq> Restricted then None
      else
        (case resolve_candidate_path env p cwd of
           None \<Rightarrow> None
         | Some target \<Rightarrow>
             (case metadata_child_of_writable_root env policy target cwd of
                None \<Rightarrow> None
              | Some (protected_metadata_path, metadata_name) \<Rightarrow>
                  if has_explicit_write_entry_for_metadata_path env policy protected_metadata_path target cwd
                  then None
                  else if \<not> can_write_path_with_cwd env policy target cwd then Some metadata_name
                  else None)))"

section \<open>Changing a policy\<close>

fun materialize_entry :: "perm_env \<Rightarrow> path option \<Rightarrow> file_system_sandbox_entry \<Rightarrow> file_system_sandbox_entry" where
  "materialize_entry env cwd entry =
     (case entry_path entry of
        FsSpecial (Special_ProjectRoots _) \<Rightarrow>
          (case resolve_file_system_path env (entry_path entry) cwd of
             Some p \<Rightarrow> entry\<lparr>entry_path := FsPath p\<rparr>
           | None \<Rightarrow> entry)
      | _ \<Rightarrow> entry)"

definition materialize_project_roots_with_cwd :: "perm_env \<Rightarrow> fs_policy \<Rightarrow> path \<Rightarrow> fs_policy" where
  "materialize_project_roots_with_cwd env policy cwd =
     policy\<lparr>fsp_entries := map (materialize_entry env (to_absolute env cwd)) (fsp_entries policy)\<rparr>"

definition push_entry :: "file_system_access_mode \<Rightarrow> path \<Rightarrow> fs_policy \<Rightarrow> fs_policy" where
  "push_entry access p policy =
     policy\<lparr>fsp_entries := fsp_entries policy @ [\<lparr>entry_path = FsPath p, entry_access = access\<rparr>]\<rparr>"

definition with_additional_readable_roots :: "perm_env \<Rightarrow> fs_policy \<Rightarrow> path \<Rightarrow> path list \<Rightarrow> fs_policy" where
  "with_additional_readable_roots env policy cwd additional_readable_roots =
     (if has_full_disk_read_access policy then policy
      else foldl (\<lambda>self p. if can_read_path_with_cwd env self p cwd then self
                            else push_entry Access_Read p self)
             policy additional_readable_roots)"

definition with_additional_writable_roots :: "perm_env \<Rightarrow> fs_policy \<Rightarrow> path \<Rightarrow> path list \<Rightarrow> fs_policy" where
  "with_additional_writable_roots env policy cwd additional_writable_roots =
     foldl (\<lambda>self p. if can_write_path_with_cwd env self p cwd then self
                      else push_entry Access_Write p self)
       policy additional_writable_roots"

section \<open>Writable roots\<close>

text \<open>\<^verbatim>\<open>utils/absolute-path/src/lib.rs\<close>.\<close>

definition should_preserve_logical_path :: "perm_env \<Rightarrow> path \<Rightarrow> bool" where
  "should_preserve_logical_path env logical \<longleftrightarrow>
     list_ex (\<lambda>ancestor. pe_symlink_metadata env ancestor = Some True \<and>
                Option.bind (path_parent ancestor) path_parent \<noteq> None)
       (path_ancestors logical)"

definition canonicalize_preserving_symlinks :: "perm_env \<Rightarrow> path \<Rightarrow> path option" where
  "canonicalize_preserving_symlinks env p =
     (case to_absolute env p of
        None \<Rightarrow> None
      | Some logical \<Rightarrow>
          (case pe_canonicalize env p of
             Some canonical \<Rightarrow>
               Some (if should_preserve_logical_path env logical \<and> \<not> path_eq canonical logical then logical
                     else canonical)
           | None \<Rightarrow> Some logical))"

fun effective_from_ancestors :: "perm_env \<Rightarrow> path \<Rightarrow> path list \<Rightarrow> path" where
  "effective_from_ancestors env p [] = p"
| "effective_from_ancestors env p (ancestor # rest) =
     (if pe_symlink_metadata env ancestor = None then effective_from_ancestors env p rest
      else
        (case canonicalize_preserving_symlinks env ancestor of
           None \<Rightarrow> effective_from_ancestors env p rest
         | Some normalized_ancestor \<Rightarrow>
             (case path_strip_prefix p ancestor of
                None \<Rightarrow> effective_from_ancestors env p rest
              | Some suf \<Rightarrow>
                  (case to_absolute env (path_push normalized_ancestor (relative_path suf)) of
                     Some normalized_path \<Rightarrow> normalized_path
                   | None \<Rightarrow> effective_from_ancestors env p rest))))"

definition normalize_effective_absolute_path :: "perm_env \<Rightarrow> path \<Rightarrow> path" where
  "normalize_effective_absolute_path env p = effective_from_ancestors env p (path_ancestors p)"

fun dedup_loop :: "path list \<Rightarrow> path list \<Rightarrow> path list" where
  "dedup_loop deduped [] = deduped"
| "dedup_loop deduped (p # ps) =
     dedup_loop (if list_ex (path_eq p) deduped then deduped else deduped @ [p]) ps"

definition dedup_absolute_paths :: "perm_env \<Rightarrow> path list \<Rightarrow> bool \<Rightarrow> path list" where
  "dedup_absolute_paths env ps normalize_effective_paths =
     dedup_loop [] (if normalize_effective_paths then map (normalize_effective_absolute_path env) ps else ps)"

record writable_root =
  wr_root :: path
  wr_read_only_subpaths :: "path list"
  wr_protected_metadata_names :: "rstr list"

definition get_readable_roots_with_cwd :: "perm_env \<Rightarrow> fs_policy \<Rightarrow> path \<Rightarrow> path list" where
  "get_readable_roots_with_cwd env policy cwd =
     (if has_full_disk_read_access policy then []
      else dedup_absolute_paths env
             (map res_path
                (filter (\<lambda>entry. can_read_path_with_cwd env policy (res_path entry) cwd)
                   (filter (\<lambda>entry. can_read (res_access entry)) (resolved_entries_with_cwd env policy cwd))))
             True)"

definition get_unreadable_roots_with_cwd :: "perm_env \<Rightarrow> fs_policy \<Rightarrow> path \<Rightarrow> path list" where
  "get_unreadable_roots_with_cwd env policy cwd =
     (if fsp_kind policy \<noteq> Restricted then []
      else
        (let root = Option.bind (to_absolute env cwd) (absolute_root_path_for_cwd env) in
         dedup_absolute_paths env
           (map res_path
              (filter (\<lambda>entry. \<not> (case root of None \<Rightarrow> False | Some r \<Rightarrow> path_eq r (res_path entry)))
                 (filter (\<lambda>entry. \<not> can_read_path_with_cwd env policy (res_path entry) cwd)
                    (filter (\<lambda>entry. res_access entry = Access_None)
                       (resolved_entries_with_cwd env policy cwd)))))
           True))"

definition protected_metadata_names_for_writable_root ::
    "perm_env \<Rightarrow> fs_policy \<Rightarrow> path \<Rightarrow> path list \<Rightarrow> path \<Rightarrow> rstr list" where
  "protected_metadata_names_for_writable_root env policy root raw_writable_roots cwd =
     filter (\<lambda>metadata_name.
               list_all (\<lambda>metadata_path. \<not> can_write_path_with_cwd env policy metadata_path cwd)
                 (join_abs env root metadata_name #
                  map (\<lambda>raw_root. join_abs env raw_root metadata_name) raw_writable_roots))
       PROTECTED_METADATA_PATH_NAMES"

definition is_git_pointer_file :: "perm_env \<Rightarrow> path \<Rightarrow> bool" where
  "is_git_pointer_file env p \<longleftrightarrow> pe_is_file env p \<and> path_file_name p = Some (lit ''.git'')"

definition resolve_gitdir_from_file :: "perm_env \<Rightarrow> path \<Rightarrow> path option" where
  "resolve_gitdir_from_file env dot_git =
     (case pe_read_to_string env dot_git of
        None \<Rightarrow> None
      | Some contents \<Rightarrow>
          (case split_once 58 (trim contents) of
             None \<Rightarrow> None
           | Some (pre, gitdir_raw0) \<Rightarrow>
               if trim pre \<noteq> lit ''gitdir'' then None
               else
                 (let gitdir_raw = trim gitdir_raw0 in
                  if gitdir_raw = [] then None
                  else
                    (case path_parent dot_git of
                       None \<Rightarrow> None
                     | Some base \<Rightarrow>
                         (let gitdir_path = resolve_path_against_base (pe_home env) gitdir_raw base in
                          if \<not> pe_exists env gitdir_path then None else Some gitdir_path)))))"

definition default_read_only_subpaths_for_writable_root :: "perm_env \<Rightarrow> path \<Rightarrow> bool \<Rightarrow> path list" where
  "default_read_only_subpaths_for_writable_root env root protect_missing_dot_codex =
     (let top_level_git = join_abs env root (lit ''.git'');
          top_level_git_is_file = pe_is_file env top_level_git;
          git_paths =
            (if pe_is_dir env top_level_git \<or> top_level_git_is_file
             then (if top_level_git_is_file \<and> is_git_pointer_file env top_level_git
                   then (case resolve_gitdir_from_file env top_level_git of
                           Some gitdir \<Rightarrow> [gitdir] | None \<Rightarrow> [])
                   else []) @ [top_level_git]
             else []);
          top_level_agents = join_abs env root (lit ''.agents'');
          agents_paths = (if pe_is_dir env top_level_agents then [top_level_agents] else []);
          top_level_codex = join_abs env root (lit ''.codex'');
          codex_paths = (if protect_missing_dot_codex \<or> pe_is_dir env top_level_codex
                         then [top_level_codex] else [])
      in dedup_absolute_paths env (git_paths @ agents_paths @ codex_paths) False)"

definition has_explicit_resolved_path_entry :: "resolved_file_system_entry list \<Rightarrow> path \<Rightarrow> bool" where
  "has_explicit_resolved_path_entry entries p \<longleftrightarrow> list_ex (\<lambda>entry. path_eq (res_path entry) p) entries"

text \<open>The path that an entry carves out of a writable root, if it does.\<close>

definition raw_carveout_path :: "perm_env \<Rightarrow> path \<Rightarrow> path list \<Rightarrow> path \<Rightarrow> path option" where
  "raw_carveout_path env root raw_writable_roots p =
     (if path_parent root = None then None
      else if path_eq p root then None
      else if path_starts_with p root then Some p
      else find_map (\<lambda>raw_root. case path_strip_prefix p raw_root of
                                   None \<Rightarrow> None
                                 | Some suf \<Rightarrow> if suf = [] then None
                                               else Some (join_abs env root (relative_path suf)))
             raw_writable_roots)"

definition carveout_path :: "perm_env \<Rightarrow> path \<Rightarrow> path list \<Rightarrow> path \<Rightarrow> path option" where
  "carveout_path env root raw_writable_roots p =
     (case raw_carveout_path env root raw_writable_roots p of
        Some q \<Rightarrow> Some q
      | None \<Rightarrow>
          (let effective_path = normalize_effective_absolute_path env p in
           if path_eq effective_path root \<or> \<not> path_starts_with effective_path root then None
           else Some effective_path))"

definition writable_root_of :: "perm_env \<Rightarrow> fs_policy \<Rightarrow> path \<Rightarrow> path list \<Rightarrow> path \<Rightarrow> writable_root" where
  "writable_root_of env policy cwd writable_entries root =
     (let resolved_entries = resolved_entries_with_cwd env policy cwd;
          raw_writable_roots =
            filter (\<lambda>p. path_eq (normalize_effective_absolute_path env p) root) writable_entries;
          protect_missing_dot_codex =
            (case to_absolute env cwd of
               None \<Rightarrow> False | Some c \<Rightarrow> path_eq (normalize_effective_absolute_path env c) root);
          defaults =
            filter (\<lambda>p. \<not> has_explicit_resolved_path_entry resolved_entries p)
              (default_read_only_subpaths_for_writable_root env root protect_missing_dot_codex);
          carveouts =
            List.map_filter (\<lambda>entry. carveout_path env root raw_writable_roots (res_path entry))
              (filter (\<lambda>entry. \<not> can_write_path_with_cwd env policy (res_path entry) cwd)
                 (filter (\<lambda>entry. \<not> can_write (res_access entry)) resolved_entries))
      in \<lparr>wr_root = root,
          wr_read_only_subpaths = dedup_absolute_paths env (defaults @ carveouts) False,
          wr_protected_metadata_names =
            protected_metadata_names_for_writable_root env policy root raw_writable_roots cwd\<rparr>)"

definition get_writable_roots_with_cwd :: "perm_env \<Rightarrow> fs_policy \<Rightarrow> path \<Rightarrow> writable_root list" where
  "get_writable_roots_with_cwd env policy cwd =
     (if has_full_disk_write_access policy then []
      else
        (let writable_entries =
           map res_path
             (filter (\<lambda>entry. can_write_path_with_cwd env policy (res_path entry) cwd)
                (filter (\<lambda>entry. can_write (res_access entry)) (resolved_entries_with_cwd env policy cwd)))
         in map (writable_root_of env policy cwd writable_entries)
              (dedup_absolute_paths env writable_entries True)))"

text \<open>\<^verbatim>\<open>protocol/src/protocol.rs\<close>.\<close>

definition path_contains_protected_metadata_name :: "writable_root \<Rightarrow> path \<Rightarrow> bool" where
  "path_contains_protected_metadata_name self p =
     (case path_strip_prefix p (wr_root self) of
        Some (first_component # _) \<Rightarrow>
          component_os_str first_component \<in> set (wr_protected_metadata_names self)
      | _ \<Rightarrow> False)"

definition is_path_writable :: "writable_root \<Rightarrow> path \<Rightarrow> bool" where
  "is_path_writable self p \<longleftrightarrow>
     path_starts_with p (wr_root self) \<and>
     list_all (\<lambda>subpath. \<not> path_starts_with p subpath) (wr_read_only_subpaths self) \<and>
     \<not> path_contains_protected_metadata_name self p"

end
