(* ===== verification/File_Permissions_Correct.thy ===== *)
theory File_Permissions_Correct
  imports File_Permissions
begin

text \<open>
  What \<^verbatim>\<open>protocol/src/permissions.rs\<close> promises: the access to a path is that of its nearest ancestor
  with an entry; a policy that reports full disk access grants it; the metadata directories of a
  writable root stay closed; the operations that change a policy add what they say and keep what is
  denied.
\<close>

section \<open>The greatest element\<close>

lemma max_by_key_None: "max_by_key k xs = None \<longleftrightarrow> xs = []"
  by (cases xs) (auto split: option.splits)

lemma max_by_key_Some:
  "max_by_key k xs = Some m \<Longrightarrow> m \<in> set xs \<and> (\<forall>x\<in>set xs. k x \<le> k m)"
proof (induction xs arbitrary: m)
  case (Cons x xs)
  show ?case
  proof (cases "max_by_key k xs")
    case None
    then show ?thesis using Cons.prems by (auto simp: max_by_key_None)
  next
    case (Some y)
    from Cons.IH [OF this] have y: "y \<in> set xs" "\<forall>z\<in>set xs. k z \<le> k y" by auto
    show ?thesis
    proof (cases "k x > k y")
      case True
      then have "m = x" using Some Cons.prems by simp
      then show ?thesis using True y by (auto intro: order_trans less_imp_le)
    next
      case False
      then have "m = y" using Some Cons.prems by simp
      then show ?thesis using False y by auto
    qed
  qed
qed simp

section \<open>A machine for the examples\<close>

definition bare_machine :: perm_env where
  "bare_machine = \<lparr>pe_home = None, pe_current_dir = Inr (lit ''/ws''), pe_tmpdir = None,
     pe_is_dir = (\<lambda>p. p = lit ''/tmp''), pe_is_file = (\<lambda>_. False), pe_exists = (\<lambda>_. False),
     pe_symlink_metadata = (\<lambda>_. None), pe_canonicalize = (\<lambda>_. None), pe_read_to_string = (\<lambda>_. None)\<rparr>"

abbreviation path_entry :: "char list \<Rightarrow> file_system_access_mode \<Rightarrow> file_system_sandbox_entry" where
  "path_entry s a \<equiv> \<lparr>entry_path = FsPath (lit s), entry_access = a\<rparr>"

section \<open>The nearest ancestor decides\<close>

text \<open>
  The reference: a path has the access of the entries at the path itself if there are any, else of
  those at its parent, and so on; several entries at one place give the greatest of their accesses in
  the order read, write, none; no entry at any ancestor is no access.
\<close>

definition accesses_at :: "resolved_file_system_entry list \<Rightarrow> component list \<Rightarrow> file_system_access_mode list" where
  "accesses_at entries cs = map res_access (filter (\<lambda>e. components (res_path e) = cs) entries)"

fun nearest_access ::
    "resolved_file_system_entry list \<Rightarrow> component list list \<Rightarrow> file_system_access_mode" where
  "nearest_access entries [] = Access_None"
| "nearest_access entries (cs # css) =
     (if accesses_at entries cs = [] then nearest_access entries css
      else Max (set (accesses_at entries cs)))"

lemma nearest_access_skip:
  "\<forall>cs\<in>set css. accesses_at entries cs = [] \<Longrightarrow>
   nearest_access entries (css @ rest) = nearest_access entries rest"
  by (induction css) auto

lemma rev_prefixes_split:
  assumes "prefix q cs"
  obtains longer shorter where "rev (prefixes cs) = longer @ q # shorter"
    and "\<forall>r\<in>set longer. prefix r cs \<and> length r > length q"
proof -
  obtain t where t: "cs = q @ t" using assms by (auto simp: prefix_def)
  obtain ps where ps: "prefixes t = [] # ps" by (cases t) auto
  have "[] \<notin> set ps" using distinct_prefixes [of t] by (simp add: ps)
  have sub: "\<forall>r\<in>set ps. prefix r t" using in_set_prefixes [of _ t] by (auto simp: ps)
  obtain qs where qs: "rev (prefixes q) = q # qs" by (cases q rule: rev_cases) auto
  have "rev (prefixes cs) = rev (map ((@) q) ps) @ q # qs"
    by (simp add: t prefixes_append ps qs)
  moreover have "\<forall>r\<in>set (rev (map ((@) q) ps)). prefix r cs \<and> length r > length q"
    using \<open>[] \<notin> set ps\<close> sub by (auto simp: t)
  ultimately show thesis by (rule that)
qed

text \<open>The entry the source picks is at the nearest place, with the greatest access there.\<close>

lemma nearest_access_max:
  assumes m: "max_by_key resolved_entry_precedence
      (filter (\<lambda>e. path_starts_with target (res_path e)) entries) = Some m"
  shows "nearest_access entries (rev (prefixes (components target))) = res_access m"
proof -
  let ?c = "\<lambda>e. components (res_path e)"
  have cov: "m \<in> set entries" "prefix (?c m) (components target)"
    and max: "\<And>e. e \<in> set entries \<Longrightarrow> prefix (?c e) (components target) \<Longrightarrow>
      resolved_entry_precedence e \<le> resolved_entry_precedence m"
    using max_by_key_Some [OF m] by (auto simp: path_starts_with_def starts_with_iff_prefix)
  obtain longer shorter where split: "rev (prefixes (components target)) = longer @ ?c m # shorter"
    and longer: "\<forall>r\<in>set longer. prefix r (components target) \<and> length r > length (?c m)"
    using rev_prefixes_split [OF cov(2)] by blast
  have "accesses_at entries r = []" if "r \<in> set longer" for r
  proof (rule ccontr)
    assume "accesses_at entries r \<noteq> []"
    then obtain e where e: "e \<in> set entries" "?c e = r" by (auto simp: accesses_at_def filter_empty_conv)
    then show False
      using max [of e] longer that by (fastforce simp: resolved_entry_precedence_def less_eq_prod_def)
  qed
  then have "nearest_access entries (rev (prefixes (components target))) =
      nearest_access entries (?c m # shorter)"
    unfolding split by (intro nearest_access_skip) blast
  moreover have here: "res_access m \<in> set (accesses_at entries (?c m))"
    using cov by (auto simp: accesses_at_def)
  have "a \<le> res_access m" if a: "a \<in> set (accesses_at entries (?c m))" for a
  proof -
    obtain e where "e \<in> set entries" "?c e = ?c m" "a = res_access e"
      using a by (auto simp: accesses_at_def)
    then show ?thesis using max [of e] cov by (simp add: resolved_entry_precedence_def less_eq_prod_def)
  qed
  then have "Max (set (accesses_at entries (?c m))) = res_access m"
    using here by (intro Max_eqI) auto
  ultimately show ?thesis using here by auto
qed

text \<open>
  C10 (equivalence): under a restricted policy the access to a path is the one found by walking up
  from the path: the first ancestor that has an entry decides, with the greatest access of its
  entries (no access over writing over reading), and without any such ancestor there is no access.
  The source instead scans the entries that cover the path for the greatest pair of depth and access.
\<close>

theorem resolve_access_nearest_ancestor:
  assumes "fsp_kind policy = Restricted" and "resolve_candidate_path env p cwd = Some target"
  shows "resolve_access_with_cwd env policy p cwd =
    nearest_access (resolved_entries_with_cwd env policy cwd) (rev (prefixes (components target)))"
proof -
  let ?es = "resolved_entries_with_cwd env policy cwd"
  let ?cov = "filter (\<lambda>e. path_starts_with target (res_path e)) ?es"
  show ?thesis
  proof (cases "max_by_key resolved_entry_precedence ?cov")
    case (Some m)
    then show ?thesis using assms nearest_access_max [OF Some] by (simp add: resolve_access_with_cwd_def)
  next
    case None
    then have none: "?cov = []" by (simp add: max_by_key_None)
    then have "\<forall>cs\<in>set (rev (prefixes (components target))). accesses_at ?es cs = []"
      by (auto simp: accesses_at_def filter_empty_conv path_starts_with_def starts_with_iff_prefix)
    from nearest_access_skip [OF this, of "[]"] show ?thesis
      using assms None by (simp add: resolve_access_with_cwd_def)
  qed
qed

theorem resolve_access_nearest_ancestor_witness:
  "resolve_access_with_cwd bare_machine
     (fsp_restricted [path_entry ''/ws'' Access_Write, path_entry ''/ws/doc'' Access_Read]) (lit ''doc/a'')
     (lit ''/ws'') = Access_Read"
proof -
  let ?p = "fsp_restricted [path_entry ''/ws'' Access_Write, path_entry ''/ws/doc'' Access_Read]"
  have k: "fsp_kind ?p = Restricted" by (simp add: fsp_restricted_def)
  have t: "resolve_candidate_path bare_machine (lit ''doc/a'') (lit ''/ws'') = Some (lit ''/ws/doc/a'')"
    by code_simp
  have "nearest_access (resolved_entries_with_cwd bare_machine ?p (lit ''/ws''))
      (rev (prefixes (components (lit ''/ws/doc/a'')))) = Access_Read" by code_simp
  then show ?thesis unfolding resolve_access_nearest_ancestor [OF k t] .
qed

section \<open>Full disk access\<close>

lemma to_absolute_absolute: "is_absolute p \<Longrightarrow> to_absolute env p = Some (normalize_path p)"
  by (simp add: to_absolute_def from_absolute_path_def expand_home_absolute absolutize_def)

lemma to_absolute_normal: "to_absolute env cwd = Some c \<Longrightarrow> is_absolute cwd \<Longrightarrow> abs_normal c"
  by (auto simp: to_absolute_absolute intro: abs_normal_normalize)

lemma components_normal: "abs_normal p \<Longrightarrow> \<exists>names. components p = RootDir # map Normal names"
  by (auto simp: abs_normal_iff components_abs_path)

lemma last_ancestors:
  "\<forall>q\<in>set names. plain_name q \<Longrightarrow> length names \<le> n \<Longrightarrow> last (ancestors_upto n (abs_path names)) = [SLASH]"
proof (induction n arbitrary: names)
  case (Suc n)
  show ?case
  proof (cases "names = []")
    case True
    then show ?thesis using parent_abs_path [of "[]"] by (simp add: abs_path_def)
  next
    case False
    have "\<forall>q\<in>set (butlast names). plain_name q" using Suc.prems by (auto dest: in_set_butlastD)
    then have "last (ancestors_upto n (abs_path (butlast names))) = [SLASH]"
      using Suc.prems(2) by (intro Suc.IH) auto
    moreover have "ancestors_upto n x \<noteq> []" for x by (cases n) auto
    ultimately show ?thesis using False parent_abs_path [OF Suc.prems(1)] by simp
  qed
qed (simp add: abs_path_def)

lemma length_abs_path: "\<forall>q\<in>set names. plain_name q \<Longrightarrow> length names \<le> length (abs_path names)"
proof -
  have "\<forall>q\<in>set names. q \<noteq> [] \<Longrightarrow> length names \<le> length (str_join [SLASH] names)"
    by (induction "[SLASH]" names rule: str_join.induct) (auto simp: Suc_le_eq)
  then show "\<forall>q\<in>set names. plain_name q \<Longrightarrow> length names \<le> length (abs_path names)"
    by (simp add: abs_path_def plain_name_def)
qed

lemma absolute_root: "abs_normal c \<Longrightarrow> absolute_root_path_for_cwd env c = Some [SLASH]"
proof -
  assume "abs_normal c"
  then have "last (path_ancestors c) = [SLASH]"
    by (auto simp: abs_normal_iff path_ancestors_def intro!: last_ancestors length_abs_path)
  then show ?thesis
    by (simp add: absolute_root_path_for_cwd_def to_absolute_absolute normalize_normal abs_normal_def)
qed

lemma components_root: "components [SLASH] = [RootDir]"
  using components_abs_path [of "[]"] by (simp add: abs_path_def)

lemma candidate_normal:
  "is_absolute cwd \<Longrightarrow> \<exists>target. resolve_candidate_path env p cwd = Some target \<and> abs_normal target"
  by (cases "is_absolute p")
    (auto simp: resolve_candidate_path_def to_absolute_absolute abs_join_def
      intro: abs_normal_normalize resolve_path_normal abs_normal_absolute)

lemma in_resolved_entries:
  "e \<in> set (resolved_entries_with_cwd env policy cwd) \<longleftrightarrow>
   (\<exists>entry\<in>set (fsp_entries policy).
      resolve_entry_path env (entry_path entry) (to_absolute env cwd) = Some (res_path e) \<and>
      res_access e = entry_access entry)"
proof -
  have eq: "\<lparr>res_path = z, res_access = a\<rparr> = e \<longleftrightarrow> res_path e = z \<and> res_access e = a" for z a
    by (cases e) auto
  show ?thesis by (auto simp: resolved_entries_with_cwd_def in_map_filter eq)
qed

text \<open>
  Entries as the configuration makes them: an absolute path is normalised (\<^verbatim>\<open>AbsolutePathBuf\<close>), and a
  subpath of the project roots is not one of the home directory.
\<close>

definition wf_entry_path :: "file_system_path \<Rightarrow> bool" where
  "wf_entry_path p =
     (case p of
        FsPath q \<Rightarrow> abs_normal q
      | FsSpecial (Special_ProjectRoots (Some s)) \<Rightarrow> \<not> starts_with s (lit ''~'')
      | _ \<Rightarrow> True)"

lemma expand_home_plain: "\<not> starts_with s (lit ''~'') \<Longrightarrow> maybe_expand_home_directory home s = s"
  by (auto simp: maybe_expand_home_directory_def starts_with_def split: option.splits)

lemma absolute_by_components: "components l = components r \<Longrightarrow> is_absolute l \<longleftrightarrow> is_absolute r"
  by (metis components_absolute components_relative list.set_intros(1))

lemma parent_None_root: "abs_normal p \<Longrightarrow> path_parent p = None \<longleftrightarrow> p = [SLASH]"
proof -
  assume "abs_normal p"
  then obtain names where "p = abs_path names" "\<forall>q\<in>set names. plain_name q" by (auto simp: abs_normal_iff)
  then show ?thesis
    using parent_abs_path [of names] str_join_eq_Nil [of names "[SLASH]"]
    by (auto simp: abs_path_def plain_name_def)
qed

lemma special_same_target:
  assumes "special_paths_share_target v w" and "abs_normal c"
    and "wf_entry_path (FsSpecial v)" and "wf_entry_path (FsSpecial w)"
    and "resolve_entry_path env (FsSpecial w) (Some c) = Some q"
  shows "\<exists>r. resolve_entry_path env (FsSpecial v) (Some c) = Some r \<and> components r = components q"
proof (cases "\<exists>l r. v = Special_ProjectRoots (Some l) \<and> w = Special_ProjectRoots (Some r)")
  case True
  then obtain l r where v: "v = Special_ProjectRoots (Some l)" and w: "w = Special_ProjectRoots (Some r)"
    by blast
  have eq: "components l = components r" using assms(1) by (simp add: v w path_eq_def)
  have "resolve_path_against_base (pe_home env) l c = resolve_path_against_base (pe_home env) r c"
    using assms(2-4) eq absolute_by_components [OF eq]
    by (simp add: resolve_path_against_base_def v w wf_entry_path_def expand_home_plain
        absolutize_from_resolve abs_normal_absolute)
  then show ?thesis
    using assms(5) by (auto simp: v w resolve_entry_path_def resolve_file_system_path_def
        resolve_file_system_special_path_def)
next
  case False
  then have "v = w \<or> (\<exists>n ls rs. v = Special_Unknown n ls \<and> w = Special_Unknown n rs)"
    using assms(1)
    by (cases "(v, w)" rule: special_paths_share_target.cases; simp; elim option.rel_cases; simp)
  moreover have "resolve_entry_path env (FsSpecial (Special_Unknown n rs)) (Some c) = None" for n rs
    by (simp add: resolve_entry_path_def resolve_file_system_path_def resolve_file_system_special_path_def)
  ultimately show ?thesis using assms(5) by auto
qed

lemma matches_same_target:
  assumes "special_path_matches_absolute_path v p" and "abs_normal c" and "abs_normal p"
    and "pe_is_dir env (lit ''/tmp'')"
  shows "\<exists>r. resolve_entry_path env (FsSpecial v) (Some c) = Some r \<and> components r = components p"
  using assms by (auto simp: special_path_matches_absolute_path_def parent_None_root absolute_root
      resolve_entry_path_def resolve_file_system_path_def resolve_file_system_special_path_def path_eq_def
      split: file_system_special_path.splits)

lemma share_target_same_place:
  assumes "file_system_paths_share_target a b" and "abs_normal c"
    and "wf_entry_path a" and "wf_entry_path b" and "pe_is_dir env (lit ''/tmp'')"
    and "resolve_entry_path env b (Some c) = Some q"
  shows "\<exists>r. resolve_entry_path env a (Some c) = Some r \<and> components r = components q"
proof (cases "(a, b)" rule: file_system_paths_share_target.cases)
  case (1 l r)
  then show ?thesis
    using assms(1,6) by (auto simp: resolve_entry_path_def resolve_file_system_path_def path_eq_def)
next
  case (2 l r)
  then show ?thesis using assms special_same_target by simp
next
  case (3 p v)
  then have r: "resolve_entry_path env a (Some c) = Some p"
    by (simp add: resolve_entry_path_def resolve_file_system_path_def)
  have "\<exists>r. resolve_entry_path env (FsSpecial v) (Some c) = Some r \<and> components r = components p"
    using 3 assms by (intro matches_same_target) (simp_all add: wf_entry_path_def)
  then show ?thesis using r 3 assms(6) by auto
next
  case (4 v p)
  then have "q = p" using assms(6) by (simp add: resolve_entry_path_def resolve_file_system_path_def)
  then show ?thesis
    using 4 assms matches_same_target [of v p c env] by (simp add: wf_entry_path_def)
qed (use assms(1,6) in \<open>auto simp: resolve_entry_path_def resolve_file_system_path_def\<close>)

text \<open>Under full write access an entry without it is overridden at the same place.\<close>

lemma full_disk_write_overrides:
  assumes full: "has_full_disk_write_access policy" and kind: "fsp_kind policy = Restricted"
    and cwd: "is_absolute cwd" and tmp: "pe_is_dir env (lit ''/tmp'')"
    and wf: "\<forall>entry\<in>set (fsp_entries policy). wf_entry_path (entry_path entry)"
    and e: "e \<in> set (resolved_entries_with_cwd env policy cwd)" "\<not> can_write (res_access e)"
  shows "\<exists>w\<in>set (resolved_entries_with_cwd env policy cwd). can_write (res_access w) \<and>
    res_access w > res_access e \<and> components (res_path w) = components (res_path e)"
proof -
  define c where "c = normalize_path cwd"
  have c: "to_absolute env cwd = Some c" "abs_normal c"
    using cwd by (simp_all add: c_def to_absolute_absolute abs_normal_normalize)
  obtain entry where entry: "entry \<in> set (fsp_entries policy)" "res_access e = entry_access entry"
    "resolve_entry_path env (entry_path entry) (Some c) = Some (res_path e)"
    using e(1) by (auto simp: in_resolved_entries c)
  have no: "\<not> narrows_write policy entry" and root: "has_root_access policy can_write"
    using full kind entry(1)
    by (auto simp: has_full_disk_write_access_def has_write_narrowing_entries_def list_ex_iff)
  have "\<exists>w\<in>set (fsp_entries policy). can_write (entry_access w) \<and> entry_access w > entry_access entry \<and>
      file_system_paths_share_target (entry_path w) (entry_path entry)"
  proof (cases "entry_path entry = FsSpecial Special_Root")
    case True
    then have "entry_access entry \<noteq> Access_None" "\<not> can_write (entry_access entry)"
      using no e(2) entry(2) by (auto simp: narrows_write_def)
    then have "entry_access entry < Access_Write"
      by (cases "entry_access entry") (auto simp: can_write_def less_file_system_access_mode_def)
    then show ?thesis
      using root True by (auto simp: has_root_access_def list_ex_iff can_write_def)
  next
    case False
    then show ?thesis
      using no e(2) entry
      by (auto simp: narrows_write_def has_same_target_write_override_def list_ex_iff
          resolve_entry_path_def resolve_file_system_path_def resolve_file_system_special_path_def
          split: file_system_path.splits file_system_special_path.splits)
  qed
  then obtain over where over: "over \<in> set (fsp_entries policy)" "can_write (entry_access over)"
    "entry_access over > entry_access entry"
    "file_system_paths_share_target (entry_path over) (entry_path entry)" by blast
  obtain r where "resolve_entry_path env (entry_path over) (Some c) = Some r" "components r = components (res_path e)"
    using share_target_same_place [OF over(4) c(2) _ _ tmp entry(3)] wf over(1) entry(1) by blast
  then show ?thesis
    using over entry(2)
    by (intro bexI [of _ "\<lparr>res_path = r, res_access = entry_access over\<rparr>"])
      (auto simp: in_resolved_entries c)
qed

lemma root_entry_covers:
  assumes "has_root_access policy P" and cwd: "is_absolute cwd" and target: "abs_normal target"
  shows "\<exists>e\<in>set (resolved_entries_with_cwd env policy cwd).
    P (res_access e) \<and> path_starts_with target (res_path e)"
proof -
  obtain entry where entry: "entry \<in> set (fsp_entries policy)" "entry_path entry = FsSpecial Special_Root"
    "P (entry_access entry)" using assms(1) by (auto simp: has_root_access_def list_ex_iff)
  have "resolve_entry_path env (FsSpecial Special_Root) (to_absolute env cwd) = Some [SLASH]"
    using cwd by (simp add: resolve_entry_path_def to_absolute_absolute absolute_root abs_normal_normalize)
  moreover have "path_starts_with target [SLASH]"
    using components_normal [OF target]
    by (auto simp: path_starts_with_def components_root starts_with_iff_prefix)
  ultimately show ?thesis
    using entry by (intro bexI [of _ "\<lparr>res_path = [SLASH], res_access = entry_access entry\<rparr>"])
      (auto simp: in_resolved_entries intro!: bexI [of _ entry])
qed

text \<open>The covering entry that decides, when one covers.\<close>

lemma deciding_entry:
  assumes "fsp_kind policy = Restricted" and "resolve_candidate_path env p cwd = Some target"
    and "e \<in> set (resolved_entries_with_cwd env policy cwd)" "path_starts_with target (res_path e)"
  obtains m where "m \<in> set (resolved_entries_with_cwd env policy cwd)"
    and "path_starts_with target (res_path m)"
    and "resolve_access_with_cwd env policy p cwd = res_access m"
    and "\<And>e. e \<in> set (resolved_entries_with_cwd env policy cwd) \<Longrightarrow>
      path_starts_with target (res_path e) \<Longrightarrow> resolved_entry_precedence e \<le> resolved_entry_precedence m"
proof -
  let ?cov = "filter (\<lambda>e. path_starts_with target (res_path e)) (resolved_entries_with_cwd env policy cwd)"
  have "?cov \<noteq> []" using assms(3,4) by (auto simp: filter_empty_conv)
  then obtain m where m: "max_by_key resolved_entry_precedence ?cov = Some m"
    using max_by_key_None [of resolved_entry_precedence ?cov] by (cases "max_by_key resolved_entry_precedence ?cov") auto
  from max_by_key_Some [OF m] show thesis
    by (intro that [of m]) (use assms m in \<open>auto simp: resolve_access_with_cwd_def\<close>)
qed

text \<open>
  A policy that reports full disk write access grants it: every path, absolute or relative
  to the working directory, can be written, whatever the other entries, their order and the metadata
  names. The working directory is absolute, the temporary directory exists, and the entries are
  well-formed.
\<close>

theorem full_disk_write_access_grants:
  assumes full: "has_full_disk_write_access policy" and cwd: "is_absolute cwd"
    and tmp: "pe_is_dir env (lit ''/tmp'')"
    and wf: "\<forall>entry\<in>set (fsp_entries policy). wf_entry_path (entry_path entry)"
  shows "can_write_path_with_cwd env policy p cwd"
proof (cases "fsp_kind policy = Restricted")
  case True
  obtain target where target: "resolve_candidate_path env p cwd = Some target" "abs_normal target"
    using candidate_normal [OF cwd] by blast
  have "has_root_access policy can_write" using full True by (simp add: has_full_disk_write_access_def)
  then obtain root where root: "root \<in> set (resolved_entries_with_cwd env policy cwd)"
    "path_starts_with target (res_path root)" using root_entry_covers [OF _ cwd target(2)] by blast
  obtain m where m: "m \<in> set (resolved_entries_with_cwd env policy cwd)" "path_starts_with target (res_path m)"
    "resolve_access_with_cwd env policy p cwd = res_access m"
    and max: "\<And>e. e \<in> set (resolved_entries_with_cwd env policy cwd) \<Longrightarrow>
      path_starts_with target (res_path e) \<Longrightarrow> resolved_entry_precedence e \<le> resolved_entry_precedence m"
    using deciding_entry [OF True target(1) root] by blast
  have "can_write (res_access m)"
  proof (rule ccontr)
    assume "\<not> can_write (res_access m)"
    from full_disk_write_overrides [OF full True cwd tmp wf m(1) this]
    obtain w where w: "w \<in> set (resolved_entries_with_cwd env policy cwd)" "res_access w > res_access m"
      "components (res_path w) = components (res_path m)" by blast
    then show False
      using max [of w] m(2) by (simp add: path_starts_with_def resolved_entry_precedence_def less_eq_prod_def)
  qed
  then show ?thesis using full m(3) by (simp add: can_write_path_with_cwd_def)
next
  case False
  then show ?thesis using full
    by (simp add: can_write_path_with_cwd_def resolve_access_with_cwd_def can_write_def)
qed

theorem full_disk_write_access_grants_witness:
  "can_write_path_with_cwd bare_machine
     (fsp_restricted [path_entry ''/ws'' Access_Read, path_entry ''/ws'' Access_Write,
        \<lparr>entry_path = FsSpecial Special_Root, entry_access = Access_Write\<rparr>]) (lit ''.git/config'') (lit ''/ws'')"
proof (rule full_disk_write_access_grants)
  let ?es = "[path_entry ''/ws'' Access_Read, path_entry ''/ws'' Access_Write,
    \<lparr>entry_path = FsSpecial Special_Root, entry_access = Access_Write\<rparr>]"
  show "has_full_disk_write_access (fsp_restricted ?es)" by code_simp
  show "is_absolute (lit ''/ws'')" by simp
  show "pe_is_dir bare_machine (lit ''/tmp'')" by (simp add: bare_machine_def)
  have "abs_normal (lit ''/ws'')" by code_simp
  then show "\<forall>entry\<in>set (fsp_entries (fsp_restricted ?es)). wf_entry_path (entry_path entry)"
    by (simp add: fsp_restricted_def wf_entry_path_def)
qed

lemma full_disk_read_access_grants:
  assumes full: "has_full_disk_read_access policy" and cwd: "is_absolute cwd"
  shows "can_read_path_with_cwd env policy p cwd"
proof (cases "fsp_kind policy = Restricted")
  case True
  obtain target where target: "resolve_candidate_path env p cwd = Some target" "abs_normal target"
    using candidate_normal [OF cwd] by blast
  have f: "has_root_access policy can_read" "\<forall>entry\<in>set (fsp_entries policy). entry_access entry \<noteq> Access_None"
    using full True by (auto simp: has_full_disk_read_access_def has_denied_read_restrictions_def list_ex_iff)
  obtain root where root: "root \<in> set (resolved_entries_with_cwd env policy cwd)"
    "path_starts_with target (res_path root)" using root_entry_covers [OF f(1) cwd target(2)] by blast
  from deciding_entry [OF True target(1) root] obtain m
    where "m \<in> set (resolved_entries_with_cwd env policy cwd)"
      "resolve_access_with_cwd env policy p cwd = res_access m" by metis
  then show ?thesis using f(2) by (auto simp: in_resolved_entries can_read_path_with_cwd_def can_read_def)
next
  case False
  then show ?thesis
    by (simp add: can_read_path_with_cwd_def resolve_access_with_cwd_def can_read_def)
qed

section \<open>Denied reads\<close>

lemma rel_option_path_eq_refl: "rel_option path_eq l l"
  by (cases l) (auto simp: path_eq_def)

lemma special_path_same_iff: "special_path_same l r \<longleftrightarrow> special_paths_share_target l r"
  by (cases l; cases r; simp)

lemma entry_same_refl: "entry_same e e"
proof -
  have "special_path_same v v" for v by (cases v) (auto simp: rel_option_path_eq_refl)
  then have "file_system_path_same p p" for p by (cases p) (auto simp: path_eq_def)
  then show ?thesis by (simp add: entry_same_def)
qed

lemma entry_same_place:
  assumes "entry_same a b" and "abs_normal c" and "wf_entry_path (entry_path a)" "wf_entry_path (entry_path b)"
    and "resolve_entry_path env (entry_path b) (Some c) = Some q"
  shows "\<exists>r. resolve_entry_path env (entry_path a) (Some c) = Some r \<and> components r = components q"
proof (cases "(entry_path a, entry_path b)" rule: file_system_path_same.cases)
  case (1 l r)
  then show ?thesis
    using assms by (auto simp: entry_same_def resolve_entry_path_def resolve_file_system_path_def path_eq_def)
next
  case (3 l r)
  then show ?thesis
    using assms special_same_target [of l r c env q] by (simp add: entry_same_def special_path_same_iff)
qed (use assms in \<open>auto simp: entry_same_def\<close>)

lemma push_new_keeps:
  fixes es :: "file_system_sandbox_entry list"
  defines "push \<equiv> \<lambda>es d. if list_ex (\<lambda>entry. entry_same entry d) es then es else es @ [d]"
  shows "set es \<subseteq> set (foldl push es ds)"
    and "d \<in> set ds \<Longrightarrow> \<exists>e\<in>set (foldl push es ds). entry_same e d"
    and "set (foldl push es ds) \<subseteq> set es \<union> set ds"
proof -
  show "set (foldl push es ds) \<subseteq> set es \<union> set ds"
  proof (induction ds arbitrary: es)
    case (Cons x xs)
    have "set (push es x) \<subseteq> insert x (set es)" by (auto simp: push_def)
    then show ?case using Cons [of "push es x"] by auto
  qed simp
  have keep: "set es \<subseteq> set (foldl push es ds)" for es ds
    by (induction ds arbitrary: es) (force simp: push_def)+
  then show "set es \<subseteq> set (foldl push es ds)" .
  show "d \<in> set ds \<Longrightarrow> \<exists>e\<in>set (foldl push es ds). entry_same e d"
  proof (induction ds arbitrary: es)
    case (Cons x xs)
    have "\<exists>e\<in>set (push es x). entry_same e x"
      by (auto simp: push_def list_ex_iff entry_same_refl)
    then show ?case using Cons keep [of "push es x" xs] by auto
  qed simp
qed

lemma preserved_deny_entry:
  assumes "d \<in> set (fsp_entries existing)" "entry_access d = Access_None"
    and "fsp_kind self \<noteq> ExternalSandbox"
  shows "fsp_kind (preserve_deny_read_restrictions_from self existing) = Restricted \<and>
    (\<exists>e\<in>set (fsp_entries (preserve_deny_read_restrictions_from self existing)). entry_same e d)"
proof -
  have ex: "list_ex (\<lambda>entry. entry_access entry = Access_None) (fsp_entries existing)"
    using assms by (auto simp: list_ex_iff)
  have d: "d \<in> set (filter (\<lambda>entry. entry_access entry = Access_None) (fsp_entries existing))"
    using assms by simp
  show ?thesis
    using ex assms(3) push_new_keeps(2) [OF d]
    by (cases "fsp_kind self")
      (simp_all add: preserve_deny_read_restrictions_from_def Let_def fsp_restricted_def push_deny_entries_def)
qed

lemma preserve_entries_wf:
  assumes "\<forall>entry\<in>set (fsp_entries self) \<union> set (fsp_entries existing). wf_entry_path (entry_path entry)"
    and "e \<in> set (fsp_entries (preserve_deny_read_restrictions_from self existing))"
  shows "wf_entry_path (entry_path e)"
proof -
  have "wf_entry_path (FsSpecial Special_Root)" by (simp add: wf_entry_path_def)
  then show ?thesis
    using assms push_new_keeps(3) [of _ "filter (\<lambda>entry. entry_access entry = Access_None) (fsp_entries existing)"]
    by (fastforce simp: preserve_deny_read_restrictions_from_def Let_def fsp_restricted_def push_deny_entries_def
        split: if_splits)
qed

lemma access_le_None: "Access_None \<le> a \<longleftrightarrow> a = Access_None"
  by (cases a) (auto simp: less_eq_file_system_access_mode_def)

lemma deny_entry_decides:
  assumes "fsp_kind policy = Restricted" and target: "resolve_candidate_path env p cwd = Some target"
    and e: "e \<in> set (resolved_entries_with_cwd env policy cwd)" "res_access e = Access_None"
      "components (res_path e) = components target"
  shows "resolve_access_with_cwd env policy p cwd = Access_None"
proof -
  have cov: "path_starts_with target (res_path e)"
    using e(3) by (simp add: path_starts_with_def starts_with_iff_prefix)
  obtain m where m: "path_starts_with target (res_path m)"
    "resolve_access_with_cwd env policy p cwd = res_access m"
    "resolved_entry_precedence e \<le> resolved_entry_precedence m"
    using deciding_entry [OF assms(1) target e(1) cov] e(1) cov by metis
  have "length (components (res_path m)) \<le> length (components target)"
    using m(1) by (auto simp: path_starts_with_def starts_with_iff_prefix dest: prefix_length_le)
  then have "res_access m = Access_None"
    using m(3) e by (auto simp: resolved_entry_precedence_def less_eq_prod_def access_le_None)
  then show ?thesis using m(2) by simp
qed

text \<open>
  Replacing the allow side of a policy keeps its explicit read denials. Whatever the new
  policy is, the external sandbox apart, after \<^verbatim>\<open>preserve_deny_read_restrictions_from\<close> the place of
  every deny entry of the old one can be neither read nor written, unrestricted policies included, and
  no new entry at that place can change it.
\<close>

theorem preserved_deny_stays_denied:
  assumes d: "d \<in> set (fsp_entries existing)" "entry_access d = Access_None"
    and kind: "fsp_kind self \<noteq> ExternalSandbox" and cwd: "is_absolute cwd"
    and place: "resolve_entry_path env (entry_path d) (to_absolute env cwd) = Some q" "abs_normal q"
    and wf: "\<forall>entry\<in>set (fsp_entries self) \<union> set (fsp_entries existing). wf_entry_path (entry_path entry)"
  shows "\<not> can_read_path_with_cwd env (preserve_deny_read_restrictions_from self existing) q cwd \<and>
    \<not> can_write_path_with_cwd env (preserve_deny_read_restrictions_from self existing) q cwd"
proof -
  let ?p = "preserve_deny_read_restrictions_from self existing"
  have kind': "fsp_kind ?p = Restricted" and "\<exists>e\<in>set (fsp_entries ?p). entry_same e d"
    using preserved_deny_entry [OF d kind] by blast+
  then obtain e where e: "e \<in> set (fsp_entries ?p)" "entry_same e d" by blast
  define c where "c = normalize_path cwd"
  have c: "to_absolute env cwd = Some c" "abs_normal c"
    using cwd by (simp_all add: c_def to_absolute_absolute abs_normal_normalize)
  obtain r where "resolve_entry_path env (entry_path e) (Some c) = Some r" "components r = components q"
    using entry_same_place [OF e(2) c(2) preserve_entries_wf [OF wf e(1)], of env q] wf d(1) place(1) c(1)
    by auto
  moreover have "entry_access e = Access_None" using e(2) d(2) by (simp add: entry_same_def)
  ultimately have "\<lparr>res_path = r, res_access = Access_None\<rparr> \<in> set (resolved_entries_with_cwd env ?p cwd)"
    "components r = components q"
    using e(1) by (auto simp: in_resolved_entries c)
  moreover have "resolve_candidate_path env q cwd = Some q"
    using place(2) by (simp add: resolve_candidate_path_def to_absolute_absolute normalize_normal abs_normal_absolute)
  ultimately have "resolve_access_with_cwd env ?p q cwd = Access_None"
    using kind' by (intro deny_entry_decides [where e = "\<lparr>res_path = r, res_access = Access_None\<rparr>"]) simp_all
  then show ?thesis
    by (simp add: can_read_path_with_cwd_def can_write_path_with_cwd_def can_read_def can_write_def)
qed

theorem preserved_deny_stays_denied_witness:
  "\<not> can_read_path_with_cwd bare_machine
      (preserve_deny_read_restrictions_from fsp_unrestricted (fsp_restricted [path_entry ''/ws/key'' Access_None]))
      (lit ''/ws/key'') (lit ''/ws'') \<and>
   \<not> can_write_path_with_cwd bare_machine
      (preserve_deny_read_restrictions_from fsp_unrestricted (fsp_restricted [path_entry ''/ws/key'' Access_None]))
      (lit ''/ws/key'') (lit ''/ws'')"
proof (rule preserved_deny_stays_denied)
  let ?d = "path_entry ''/ws/key'' Access_None"
  show "?d \<in> set (fsp_entries (fsp_restricted [?d]))" by (simp add: fsp_restricted_def)
  show "entry_access ?d = Access_None" by simp
  show "fsp_kind fsp_unrestricted \<noteq> ExternalSandbox" by (simp add: fsp_unrestricted_def)
  show "is_absolute (lit ''/ws'')" by simp
  show n: "abs_normal (lit ''/ws/key'')" by code_simp
  show "resolve_entry_path bare_machine (entry_path ?d) (to_absolute bare_machine (lit ''/ws'')) = Some (lit ''/ws/key'')"
    by (simp add: resolve_entry_path_def resolve_file_system_path_def)
  show "\<forall>entry\<in>set (fsp_entries fsp_unrestricted) \<union> set (fsp_entries (fsp_restricted [?d])).
      wf_entry_path (entry_path entry)"
    using n by (simp add: fsp_unrestricted_def fsp_restricted_def wf_entry_path_def)
qed

section \<open>Metadata directories\<close>

lemma find_map_None: "find_map f xs = None \<longleftrightarrow> (\<forall>x\<in>set xs. f x = None)"
  by (induction xs) (auto split: option.splits)

lemma find_map_Some: "find_map f xs = Some y \<Longrightarrow> \<exists>x\<in>set xs. f x = Some y"
  by (induction xs) (auto split: option.splits)

lemma metadata_path_name_Some: "metadata_path_name n = Some m \<longleftrightarrow> m = n \<and> n \<in> set PROTECTED_METADATA_PATH_NAMES"
  by (auto simp: metadata_path_name_def PROTECTED_METADATA_PATH_NAMES_def)

lemma metadata_child_Some:
  "metadata_child_of_entry env target entry = Some (protected, n) \<Longrightarrow>
   n \<in> set PROTECTED_METADATA_PATH_NAMES \<and> protected = join_abs env (res_path entry) n"
  by (auto simp: metadata_child_of_entry_def metadata_path_name_Some split: option.splits list.splits)

lemma candidate_of_candidate:
  "is_absolute cwd \<Longrightarrow> resolve_candidate_path env p cwd = Some target \<Longrightarrow>
   resolve_candidate_path env target cwd = Some target"
  using candidate_normal [of cwd env p]
  by (auto simp: resolve_candidate_path_def [of env target] to_absolute_absolute normalize_normal abs_normal_absolute)

text \<open>
  C17 (safety): the metadata directories \<^verbatim>\<open>.git\<close>, \<^verbatim>\<open>.agents\<close> and \<^verbatim>\<open>.codex\<close> at the top of a writable root
  stay closed. When a restricted policy without full disk write access has a writable entry and the
  path lies in one of these directories of that entry, the path cannot be written, and the check
  before execution names a protected directory, unless an entry inside such a directory
  explicitly makes the path writable.
\<close>

theorem metadata_directories_protected:
  assumes kind: "fsp_kind policy = Restricted" and full: "\<not> has_full_disk_write_access policy"
    and cwd: "is_absolute cwd" and target: "resolve_candidate_path env p cwd = Some target"
    and root: "root \<in> set (resolved_entries_with_cwd env policy cwd)" "can_write (res_access root)"
    and child: "path_strip_prefix target (res_path root) = Some (Normal name # rest)"
      "name \<in> set PROTECTED_METADATA_PATH_NAMES"
    and inside: "\<forall>e\<in>set (resolved_entries_with_cwd env policy cwd).
      \<forall>w\<in>set (resolved_entries_with_cwd env policy cwd). \<forall>n\<in>set PROTECTED_METADATA_PATH_NAMES.
        \<not> (can_write (res_access w) \<and> path_starts_with target (res_path w) \<and>
           path_starts_with (res_path w) (join_abs env (res_path e) n))"
  shows "\<not> can_write_path_with_cwd env policy p cwd \<and>
    (\<exists>n\<in>set PROTECTED_METADATA_PATH_NAMES. forbidden_agent_metadata_write env p cwd policy = Some n)"
proof -
  let ?ws = "filter (\<lambda>e. can_write (res_access e)) (resolved_entries_with_cwd env policy cwd)"
  have "metadata_child_of_entry env target root \<noteq> None"
    using child metadata_path_name_Some [of name name] by (simp add: metadata_child_of_entry_def)
  then obtain prot n where found: "metadata_child_of_writable_root env policy target cwd = Some (prot, n)"
    using root find_map_None [of "metadata_child_of_entry env target" ?ws]
    by (auto simp: metadata_child_of_writable_root_def simp del: not_None_eq)
  then obtain e where "e \<in> set ?ws" "metadata_child_of_entry env target e = Some (prot, n)"
    unfolding metadata_child_of_writable_root_def by (blast dest: find_map_Some)
  then have prot: "e \<in> set (resolved_entries_with_cwd env policy cwd)"
    "n \<in> set PROTECTED_METADATA_PATH_NAMES" "prot = join_abs env (res_path e) n"
    using metadata_child_Some by auto
  then have none: "\<not> has_explicit_write_entry_for_metadata_path env policy prot target cwd"
    using inside by (auto simp: has_explicit_write_entry_for_metadata_path_def list_ex_iff)
  then have "\<not> can_write_path_with_cwd env policy q cwd" if "resolve_candidate_path env q cwd = Some target" for q
    using full kind found that by (simp add: can_write_path_with_cwd_def is_metadata_write_denied_def)
  then show ?thesis
    using none target candidate_of_candidate [OF cwd target] kind found prot(2)
    by (simp add: forbidden_agent_metadata_write_def)
qed

theorem metadata_directories_protected_witness:
  "\<not> can_write_path_with_cwd bare_machine (fsp_restricted [path_entry ''/ws'' Access_Write])
     (lit ''.git/config'') (lit ''/ws'') \<and>
   (\<exists>n\<in>set PROTECTED_METADATA_PATH_NAMES. forbidden_agent_metadata_write bare_machine (lit ''.git/config'')
      (lit ''/ws'') (fsp_restricted [path_entry ''/ws'' Access_Write]) = Some n)"
proof (rule metadata_directories_protected)
  let ?p = "fsp_restricted [path_entry ''/ws'' Access_Write]"
  let ?e = "\<lparr>res_path = lit ''/ws'', res_access = Access_Write\<rparr>"
  have es: "resolved_entries_with_cwd bare_machine ?p (lit ''/ws'') = [?e]" by code_simp
  show "fsp_kind ?p = Restricted" by (simp add: fsp_restricted_def)
  show "\<not> has_full_disk_write_access ?p" by code_simp
  show "is_absolute (lit ''/ws'')" by simp
  show "resolve_candidate_path bare_machine (lit ''.git/config'') (lit ''/ws'') = Some (lit ''/ws/.git/config'')"
    by code_simp
  show "?e \<in> set (resolved_entries_with_cwd bare_machine ?p (lit ''/ws''))" unfolding es by simp
  show "can_write (res_access ?e)" by (simp add: can_write_def)
  show "path_strip_prefix (lit ''/ws/.git/config'') (res_path ?e) = Some (Normal (lit ''.git'') # [Normal (lit ''config'')])"
    by code_simp
  show "lit ''.git'' \<in> set PROTECTED_METADATA_PATH_NAMES" by (simp add: PROTECTED_METADATA_PATH_NAMES_def)
  have "list_all (\<lambda>n. \<not> path_starts_with (lit ''/ws'') (join_abs bare_machine (lit ''/ws'') n))
      PROTECTED_METADATA_PATH_NAMES" by code_simp
  then show "\<forall>e\<in>set (resolved_entries_with_cwd bare_machine ?p (lit ''/ws'')).
      \<forall>w\<in>set (resolved_entries_with_cwd bare_machine ?p (lit ''/ws'')).
        \<forall>n\<in>set PROTECTED_METADATA_PATH_NAMES.
        \<not> (can_write (res_access w) \<and> path_starts_with (lit ''/ws/.git/config'') (res_path w) \<and>
           path_starts_with (res_path w) (join_abs bare_machine (res_path e) n))"
    unfolding es by (simp add: list_all_iff)
qed

text \<open>
  Which metadata directory is asked about is that of the first writable entry in the order of the
  entries, so the answer depends on that order: with a writable worktree below \<^verbatim>\<open>.git\<close> of a writable
  workspace, \<^verbatim>\<open>.codex\<close> of the worktree is writable when the workspace is listed first.
\<close>

lemma metadata_protection_depends_on_order:
  "can_write_path_with_cwd bare_machine
     (fsp_restricted [path_entry ''/ws'' Access_Write, path_entry ''/ws/.git/wt'' Access_Write])
     (lit ''/ws/.git/wt/.codex/x'') (lit ''/ws'') \<noteq>
   can_write_path_with_cwd bare_machine
     (fsp_restricted [path_entry ''/ws/.git/wt'' Access_Write, path_entry ''/ws'' Access_Write])
     (lit ''/ws/.git/wt/.codex/x'') (lit ''/ws'')"
  by code_simp

section \<open>Changing a policy\<close>

text \<open>Writing the project roots out as absolute paths keeps every entry where it was, and so the access
  to every path.\<close>

lemma materialize_resolves_same:
  "resolve_entry_path env (entry_path (materialize_entry env c entry)) c = resolve_entry_path env (entry_path entry) c"
  by (auto simp: resolve_entry_path_def resolve_file_system_path_def
      split: file_system_path.splits file_system_special_path.splits option.splits)

lemma materialize_entry_access: "entry_access (materialize_entry env c entry) = entry_access entry"
  by (auto split: file_system_path.splits file_system_special_path.splits option.splits)

lemma materialize_resolved_entries:
  "resolved_entries_with_cwd env (materialize_project_roots_with_cwd env policy cwd) cwd =
   resolved_entries_with_cwd env policy cwd"
  by (simp add: resolved_entries_with_cwd_def materialize_project_roots_with_cwd_def map_filter_map
      materialize_resolves_same materialize_entry_access del: materialize_entry.simps)

lemma materialize_keeps_access:
  "resolve_access_with_cwd env (materialize_project_roots_with_cwd env policy cwd) p cwd =
   resolve_access_with_cwd env policy p cwd"
  unfolding resolve_access_with_cwd_def materialize_resolved_entries
  by (simp add: materialize_project_roots_with_cwd_def)

text \<open>Entries added later are seen after the ones that were there.\<close>

lemma push_entry_resolved:
  "resolved_entries_with_cwd env (push_entry a p policy) cwd =
   resolved_entries_with_cwd env policy cwd @ [\<lparr>res_path = p, res_access = a\<rparr>]"
  by (simp add: resolved_entries_with_cwd_def push_entry_def map_filter_append map_filter_simps
      resolve_entry_path_def resolve_file_system_path_def)

lemma push_entry_kind: "fsp_kind (push_entry a p policy) = fsp_kind policy"
  by (simp add: push_entry_def)

lemma max_by_key_snoc:
  "max_by_key k (xs @ [w]) =
   (case max_by_key k xs of None \<Rightarrow> Some w | Some m \<Rightarrow> Some (if k m > k w then m else w))"
proof (induction xs)
  case (Cons x xs)
  then show ?case by (cases "max_by_key k xs") auto
qed simp

lemma push_entry_access:
  "resolve_access_with_cwd env (push_entry a q policy) p cwd = resolve_access_with_cwd env policy p cwd \<or>
   resolve_access_with_cwd env (push_entry a q policy) p cwd = a \<and>
     (\<exists>target. resolve_candidate_path env p cwd = Some target \<and> path_starts_with target q)"
  by (auto simp: resolve_access_with_cwd_def push_entry_resolved push_entry_kind max_by_key_snoc
      split: option.splits)

text \<open>At its own place a new entry loses only to a denial there.\<close>

lemma push_write_entry_here:
  assumes "fsp_kind policy = Restricted" and "resolve_candidate_path env q cwd = Some q"
  shows "resolve_access_with_cwd env (push_entry Access_Write q policy) q cwd = Access_Write \<or>
    (\<exists>e\<in>set (resolved_entries_with_cwd env policy cwd). path_eq (res_path e) q \<and> res_access e = Access_None)"
proof -
  let ?p = "push_entry Access_Write q policy"
  let ?w = "\<lparr>res_path = q, res_access = Access_Write\<rparr>"
  have w: "?w \<in> set (resolved_entries_with_cwd env ?p cwd)" "path_starts_with q (res_path ?w)"
    by (simp_all add: push_entry_resolved path_starts_with_def starts_with_iff_prefix)
  obtain m where m: "m \<in> set (resolved_entries_with_cwd env ?p cwd)" "path_starts_with q (res_path m)"
    "resolve_access_with_cwd env ?p q cwd = res_access m" "resolved_entry_precedence ?w \<le> resolved_entry_precedence m"
    using deciding_entry [OF _ assms(2) w, unfolded push_entry_kind, OF assms(1)] w by metis
  have pre: "prefix (components (res_path m)) (components q)"
    using m(2) by (simp add: path_starts_with_def starts_with_iff_prefix)
  then have "length (components (res_path m)) = length (components q)" "Access_Write \<le> res_access m"
    using m(4) prefix_length_le [OF pre] by (auto simp: resolved_entry_precedence_def less_eq_prod_def)
  moreover have "components (res_path m) = components q"
    using pre calculation(1) by (auto simp: prefix_def)
  ultimately show ?thesis
    using m(1,3) by (cases "res_access m")
      (auto simp: push_entry_resolved path_eq_def less_eq_file_system_access_mode_def)
qed

definition add_writable_root :: "perm_env \<Rightarrow> path \<Rightarrow> fs_policy \<Rightarrow> path \<Rightarrow> fs_policy" where
  "add_writable_root env cwd self p =
     (if can_write_path_with_cwd env self p cwd then self else push_entry Access_Write p self)"

lemma with_additional_writable_roots_fold:
  "with_additional_writable_roots env policy cwd roots = foldl (add_writable_root env cwd) policy roots"
  by (simp add: with_additional_writable_roots_def add_writable_root_def [abs_def])

lemma add_writable_root_access:
  "resolve_access_with_cwd env (add_writable_root env cwd policy r) p cwd = resolve_access_with_cwd env policy p cwd \<or>
   resolve_access_with_cwd env (add_writable_root env cwd policy r) p cwd = Access_Write \<and>
     (\<exists>target. resolve_candidate_path env p cwd = Some target \<and> path_starts_with target r)"
  using push_entry_access [of env Access_Write r policy p cwd] by (auto simp: add_writable_root_def)

lemma add_writable_root_denials:
  "e \<in> set (resolved_entries_with_cwd env (add_writable_root env cwd policy r) cwd) \<Longrightarrow>
   res_access e = Access_None \<Longrightarrow> e \<in> set (resolved_entries_with_cwd env policy cwd)"
  by (auto simp: add_writable_root_def push_entry_resolved split: if_splits)

lemma add_writable_roots_keep_write:
  "resolve_access_with_cwd env policy p cwd = Access_Write \<Longrightarrow>
   resolve_access_with_cwd env (foldl (add_writable_root env cwd) policy roots) p cwd = Access_Write"
proof (induction roots arbitrary: policy)
  case (Cons r roots)
  then show ?case using add_writable_root_access [of env cwd policy r p] by auto
qed simp

lemma add_writable_roots_elsewhere:
  "resolve_candidate_path env p cwd = Some target \<Longrightarrow> \<forall>r\<in>set roots. \<not> path_starts_with target r \<Longrightarrow>
   resolve_access_with_cwd env (foldl (add_writable_root env cwd) policy roots) p cwd =
   resolve_access_with_cwd env policy p cwd"
proof (induction roots arbitrary: policy)
  case (Cons r roots)
  then show ?case using add_writable_root_access [of env cwd policy r p] by auto
qed simp

lemma add_writable_root_here:
  assumes "fsp_kind policy = Restricted" and "abs_normal r"
  shows "resolve_access_with_cwd env (add_writable_root env cwd policy r) r cwd = Access_Write \<or>
    (\<exists>e\<in>set (resolved_entries_with_cwd env policy cwd). path_eq (res_path e) r \<and> res_access e = Access_None)"
proof (cases "can_write_path_with_cwd env policy r cwd")
  case True
  then show ?thesis by (auto simp: add_writable_root_def can_write_path_with_cwd_def can_write_def split: if_splits)
next
  case False
  have "resolve_candidate_path env r cwd = Some r"
    using assms(2) by (simp add: resolve_candidate_path_def to_absolute_absolute normalize_normal abs_normal_absolute)
  from push_write_entry_here [OF assms(1) this] show ?thesis using False by (simp add: add_writable_root_def)
qed

lemma add_writable_roots_here:
  assumes "fsp_kind policy = Restricted" and "r \<in> set roots" and "abs_normal r"
  shows "resolve_access_with_cwd env (foldl (add_writable_root env cwd) policy roots) r cwd = Access_Write \<or>
    (\<exists>e\<in>set (resolved_entries_with_cwd env policy cwd). path_eq (res_path e) r \<and> res_access e = Access_None)"
  using assms
proof (induction roots arbitrary: policy)
  case (Cons x roots)
  let ?p = "add_writable_root env cwd policy x"
  have kind: "fsp_kind ?p = Restricted" using Cons.prems(1) by (simp add: add_writable_root_def push_entry_kind)
  show ?case
  proof (cases "r = x")
    case True
    then show ?thesis
      using add_writable_root_here [OF Cons.prems(1,3)] add_writable_roots_keep_write [of env ?p r cwd roots] by auto
  next
    case False
    then show ?thesis
      using Cons.IH [OF kind _ Cons.prems(3)] Cons.prems(2) add_writable_root_denials by fastforce
  qed
qed simp

text \<open>
  Adding writable roots to a restricted policy makes every one of them writable, a
  root with a denial at its very place apart, and changes the access only of paths below an added root.
\<close>

theorem additional_writable_roots:
  assumes "fsp_kind policy = Restricted" and "\<forall>r\<in>set roots. abs_normal r"
  shows "(\<forall>r\<in>set roots.
      resolve_access_with_cwd env (with_additional_writable_roots env policy cwd roots) r cwd = Access_Write \<or>
      (\<exists>e\<in>set (resolved_entries_with_cwd env policy cwd). path_eq (res_path e) r \<and> res_access e = Access_None)) \<and>
    (\<forall>p target. resolve_candidate_path env p cwd = Some target \<and> (\<forall>r\<in>set roots. \<not> path_starts_with target r) \<longrightarrow>
      resolve_access_with_cwd env (with_additional_writable_roots env policy cwd roots) p cwd =
      resolve_access_with_cwd env policy p cwd)"
  unfolding with_additional_writable_roots_fold
  using add_writable_roots_here [OF assms(1)] add_writable_roots_elsewhere assms(2) by blast

theorem additional_writable_roots_witness:
  "resolve_access_with_cwd bare_machine
     (with_additional_writable_roots bare_machine (fsp_restricted [path_entry ''/ws'' Access_Read]) (lit ''/ws'')
        [lit ''/ws/out'']) (lit ''/ws/out'') (lit ''/ws'') = Access_Write"
proof -
  let ?p = "fsp_restricted [path_entry ''/ws'' Access_Read]"
  have k: "fsp_kind ?p = Restricted" by (simp add: fsp_restricted_def)
  have n: "abs_normal (lit ''/ws/out'')" by code_simp
  have es: "resolved_entries_with_cwd bare_machine ?p (lit ''/ws'') = [\<lparr>res_path = lit ''/ws'', res_access = Access_Read\<rparr>]"
    by code_simp
  from n have "\<forall>r\<in>set [lit ''/ws/out'']. abs_normal r" by simp
  from additional_writable_roots [OF k this, of bare_machine "lit ''/ws''"]
  have "resolve_access_with_cwd bare_machine
      (with_additional_writable_roots bare_machine ?p (lit ''/ws'') [lit ''/ws/out'']) (lit ''/ws/out'') (lit ''/ws'') =
      Access_Write \<or>
    (\<exists>e\<in>set (resolved_entries_with_cwd bare_machine ?p (lit ''/ws'')).
       path_eq (res_path e) (lit ''/ws/out'') \<and> res_access e = Access_None)"
    by (meson list.set_intros(1))
  then show ?thesis unfolding es by simp
qed

end
