(* ===== verification/Patch_Safety.thy ===== *)
theory Patch_Safety
  imports Patch_Invocation File_Permissions_Correct
begin

text \<open>
  \<^verbatim>\<open>codex-rs/core/src/safety.rs\<close>: whether a patch is applied without asking, the user is asked, or it
  is rejected; and what that decision means for the run of \<^verbatim>\<open>apply-patch\<close> that follows. The
  target of the build is an argument.
\<close>

section \<open>The decision\<close>

definition PATCH_REJECTED_OUTSIDE_PROJECT_REASON :: rstr where
  "PATCH_REJECTED_OUTSIDE_PROJECT_REASON =
     lit ''writing outside of the project; rejected by user approval settings''"

definition PATCH_REJECTED_READ_ONLY_REASON :: rstr where
  "PATCH_REJECTED_READ_ONLY_REASON =
     lit ''writing is blocked by read-only sandbox; rejected by user approval settings''"

datatype sandbox_type = Sandbox_None | MacosSeatbelt | LinuxSeccomp | WindowsRestrictedToken

datatype windows_sandbox_level = Windows_Disabled | Windows_RestrictedToken | Windows_Elevated

text \<open>The target the program is built for (\<^verbatim>\<open>cfg!\<close>).\<close>

datatype target_os = Os_Macos | Os_Linux | Os_Windows | Os_Other

definition get_platform_sandbox :: "target_os \<Rightarrow> bool \<Rightarrow> sandbox_type option" where
  "get_platform_sandbox os windows_sandbox_enabled =
     (case os of
        Os_Macos \<Rightarrow> Some MacosSeatbelt
      | Os_Linux \<Rightarrow> Some LinuxSeccomp
      | Os_Windows \<Rightarrow> if windows_sandbox_enabled then Some WindowsRestrictedToken else None
      | Os_Other \<Rightarrow> None)"

datatype safety_check =
    AutoApprove sandbox_type bool
  | AskUser
  | Reject rstr

definition patch_rejection_reason ::
    "perm_env \<Rightarrow> ('f, 'n) permission_profile \<Rightarrow> fs_policy \<Rightarrow> path \<Rightarrow> rstr" where
  "patch_rejection_reason env profile policy cwd =
     (case profile of
        ProfileManaged _ _ \<Rightarrow>
          if \<not> has_full_disk_write_access policy \<and> get_writable_roots_with_cwd env policy cwd = []
          then PATCH_REJECTED_READ_ONLY_REASON else PATCH_REJECTED_OUTSIDE_PROJECT_REASON
      | _ \<Rightarrow> PATCH_REJECTED_OUTSIDE_PROJECT_REASON)"

text \<open>\<^verbatim>\<open>core/src/util.rs\<close>.\<close>

definition util_resolve_path :: "path \<Rightarrow> path \<Rightarrow> path" where
  "util_resolve_path base p = (if is_absolute p then p else path_push base p)"

text \<open>The local function \<^verbatim>\<open>normalize\<close>; it never returns \<^verbatim>\<open>None\<close>.\<close>

definition safety_normalize :: "path \<Rightarrow> path option" where
  "safety_normalize p =
     Some (foldl (\<lambda>out comp. case comp of
                     ParentDir \<Rightarrow> path_pop out
                   | CurDir \<Rightarrow> out
                   | _ \<Rightarrow> path_push out (component_os_str comp)) [] (components p))"

definition patch_path_writable :: "perm_env \<Rightarrow> fs_policy \<Rightarrow> path \<Rightarrow> path \<Rightarrow> bool" where
  "patch_path_writable env policy cwd p =
     (case safety_normalize (util_resolve_path cwd p) of
        None \<Rightarrow> False
      | Some a \<Rightarrow> can_write_path_with_cwd env policy a cwd)"

definition is_write_patch_constrained_to_writable_paths ::
    "perm_env \<Rightarrow> apply_patch_action \<Rightarrow> fs_policy \<Rightarrow> path \<Rightarrow> bool" where
  "is_write_patch_constrained_to_writable_paths env action policy cwd =
     list_all (\<lambda>(p, change).
        case change of
          File_Add _ \<Rightarrow> patch_path_writable env policy cwd p
        | File_Delete _ \<Rightarrow> patch_path_writable env policy cwd p
        | File_Update _ move_path _ \<Rightarrow>
            patch_path_writable env policy cwd p \<and>
            (case move_path of Some dest \<Rightarrow> patch_path_writable env policy cwd dest | None \<Rightarrow> True))
       (action_changes action)"

definition rejects_sandbox_approval :: "ask_for_approval \<Rightarrow> bool" where
  "rejects_sandbox_approval policy =
     (case policy of
        Never \<Rightarrow> True
      | Granular granular_config \<Rightarrow> \<not> gr_sandbox_approval granular_config
      | _ \<Rightarrow> False)"

definition assess_patch_safety ::
    "perm_env \<Rightarrow> target_os \<Rightarrow> apply_patch_action \<Rightarrow> ask_for_approval \<Rightarrow>
     ('f, 'n) permission_profile \<Rightarrow> fs_policy \<Rightarrow> path \<Rightarrow> windows_sandbox_level \<Rightarrow> safety_check" where
  "assess_patch_safety env os action policy profile fs_policy cwd windows_sandbox_level =
     (if action_is_empty action then Reject (lit ''empty patch'')
      else if policy = UnlessTrusted then AskUser
      else if is_write_patch_constrained_to_writable_paths env action fs_policy cwd \<or> policy = OnFailure
      then
        (case profile of
           ProfileManaged _ _ \<Rightarrow>
             (case get_platform_sandbox os (windows_sandbox_level \<noteq> Windows_Disabled) of
                Some sandbox \<Rightarrow> AutoApprove sandbox False
              | None \<Rightarrow>
                  if rejects_sandbox_approval policy
                  then Reject (patch_rejection_reason env profile fs_policy cwd) else AskUser)
         | _ \<Rightarrow> AutoApprove Sandbox_None False)
      else if rejects_sandbox_approval policy
      then Reject (patch_rejection_reason env profile fs_policy cwd)
      else AskUser)"

section \<open>What the decision says\<close>

lemma auto_approve_cases:
  assumes "assess_patch_safety env os action policy profile fs_policy cwd level = AutoApprove sandbox explicit"
  shows "action_changes action \<noteq> [] \<and> policy \<noteq> UnlessTrusted \<and> \<not> explicit \<and>
    (policy = OnFailure \<or> is_write_patch_constrained_to_writable_paths env action fs_policy cwd) \<and>
    ((\<exists>f n. profile = ProfileManaged f n) \<longrightarrow>
       get_platform_sandbox os (level \<noteq> Windows_Disabled) = Some sandbox \<and> sandbox \<noteq> Sandbox_None)"
  using assms
  by (auto simp: assess_patch_safety_def action_is_empty_def get_platform_sandbox_def
      split: if_splits permission_profile.splits option.splits target_os.splits)

section \<open>What a patch touches\<close>

text \<open>
  Documented behaviour of the file system: an operation on a path, also one that fails, leaves files alone that have
  other names; \<open>linked p q\<close> says that \<open>p\<close> and \<open>q\<close> may be names (hard links) of one file.
\<close>

definition touches :: "(path \<Rightarrow> path \<Rightarrow> bool) \<Rightarrow> path \<Rightarrow> path \<Rightarrow> bool" where
  "touches linked p q \<longleftrightarrow> q = p \<or> linked p q"

definition fs_frame :: "(path \<Rightarrow> path \<Rightarrow> bool) \<Rightarrow> 'w file_system \<Rightarrow> bool" where
  "fs_frame linked fs \<longleftrightarrow>
     (\<forall>p c w q. \<not> touches linked p q \<longrightarrow> view fs (snd (write_file fs p c w)) q = view fs w q) \<and>
     (\<forall>p w q. \<not> touches linked p q \<longrightarrow> view fs (snd (remove_file fs p w)) q = view fs w q) \<and>
     (\<forall>p w. view fs (snd (create_directory fs p w)) = view fs w)"

definition touched_paths :: "path option \<Rightarrow> path \<Rightarrow> hunk \<Rightarrow> path list" where
  "touched_paths home cwd h =
     resolve_path home h cwd #
     (case h of UpdateFile _ (Some d) _ \<Rightarrow> [resolve_path_against_base home d cwd] | _ \<Rightarrow> [])"

lemma frame_write: "fs_frame linked fs \<Longrightarrow> write_file fs p c w = (r, w') \<Longrightarrow> \<not> touches linked p q \<Longrightarrow> view fs w' q = view fs w q"
  unfolding fs_frame_def by (metis snd_conv)

lemma frame_remove: "fs_frame linked fs \<Longrightarrow> remove_file fs p w = (r, w') \<Longrightarrow> \<not> touches linked p q \<Longrightarrow> view fs w' q = view fs w q"
  unfolding fs_frame_def by (metis snd_conv)

lemma frame_create: "fs_frame linked fs \<Longrightarrow> create_directory fs p w = (r, w') \<Longrightarrow> view fs w' = view fs w"
  unfolding fs_frame_def by (metis snd_conv)

lemma frame_write_retry:
  assumes "fs_frame linked fs" and "write_file_with_missing_parent_retry fs p c w = (r, w')" and "\<not> touches linked p q"
  shows "view fs w' q = view fs w q"
proof -
  obtain r1 w1 where w1: "write_file fs p c w = (r1, w1)" by (cases "write_file fs p c w")
  have v1: "view fs w1 q = view fs w q" using frame_write [OF assms(1) w1 assms(3)] .
  show ?thesis
    using assms(2) v1 frame_write [OF assms(1) _ assms(3)] frame_create [OF assms(1)]
    by (auto simp: write_file_with_missing_parent_retry_def w1
        split: sum.splits if_splits option.splits prod.splits; metis)
qed

lemma frame_add:
  "fs_frame linked fs \<Longrightarrow> apply_add fs a p c st = (r, st') \<Longrightarrow> \<not> touches linked p q \<Longrightarrow>
   view fs (st_world st') q = view fs (st_world st) q"
  by (auto simp: apply_add_def try_write_def split: prod.splits sum.splits dest: frame_write_retry)

lemma frame_delete:
  "fs_frame linked fs \<Longrightarrow> apply_delete fs a p st = (r, st') \<Longrightarrow> \<not> touches linked p q \<Longrightarrow>
   view fs (st_world st') q = view fs (st_world st) q"
  by (auto simp: apply_delete_def Let_def split: prod.splits sum.splits dest: frame_remove)

lemma frame_in_place:
  "fs_frame linked fs \<Longrightarrow> apply_in_place fs a p ap st = (r, st') \<Longrightarrow> \<not> touches linked p q \<Longrightarrow>
   view fs (st_world st') q = view fs (st_world st) q"
  by (auto simp: apply_in_place_def try_write_def split: prod.splits sum.splits dest: frame_write)

lemma frame_remove_original:
  "fs_frame linked fs \<Longrightarrow> remove_original fs a p d ap ov idx st = (r, st') \<Longrightarrow> \<not> touches linked p q \<Longrightarrow>
   view fs (st_world st') q = view fs (st_world st) q"
  by (auto simp: remove_original_def Let_def split: prod.splits sum.splits dest: frame_remove)

lemma frame_move:
  assumes fs: "fs_frame linked fs" and mv: "apply_move fs a p d ap st = (r, st')" and q: "\<not> touches linked p q" "\<not> touches linked d q"
  shows "view fs (st_world st') q = view fs (st_world st) q"
proof -
  obtain r1 w1 where w1:
    "write_file_with_missing_parent_retry fs d (new_contents ap) (st_world st) = (r1, w1)" by force
  have v1: "view fs w1 q = view fs (st_world st) q" using frame_write_retry [OF fs w1 q(2)] .
  show ?thesis
  proof (cases r1)
    case (Inl e)
    then show ?thesis using mv v1 by (auto simp: apply_move_def try_write_def w1 split: prod.splits)
  next
    case (Inr u)
    then show ?thesis
      using mv v1 frame_remove_original [OF fs _ q(1)]
      by (force simp: apply_move_def try_write_def w1 split: prod.splits)
  qed
qed

lemma apply_hunk_frame:
  assumes "fs_frame linked fs" and "apply_hunk fs home cwd h st = Some (r, st')" and "\<forall>p\<in>set (touched_paths home cwd h). \<not> touches linked p q"
  shows "view fs (st_world st') q = view fs (st_world st) q"
  using assms
  by (auto simp: apply_hunk_def apply_update_def touched_paths_def Let_def
      split: hunk.splits option.splits sum.splits
      dest: frame_add frame_delete frame_in_place frame_move)

lemma apply_hunks_loop_frame:
  "fs_frame linked fs \<Longrightarrow> apply_hunks_loop fs home cwd hs st = Some (r, st') \<Longrightarrow>
   \<forall>h\<in>set hs. \<forall>p\<in>set (touched_paths home cwd h). \<not> touches linked p q \<Longrightarrow> view fs (st_world st') q = view fs (st_world st) q"
proof (induction hs arbitrary: st)
  case (Cons h hs)
  then show ?case
    using apply_hunk_frame [OF Cons.prems(1), of home cwd h st]
    by (auto split: option.splits prod.splits sum.splits)
qed simp

section \<open>Auto-approved patches\<close>

lemma safety_normalize_normal: "abs_normal p \<Longrightarrow> safety_normalize p = Some p"
proof -
  assume n: "abs_normal p"
  have step: "(\<lambda>out comp. case comp of ParentDir \<Rightarrow> path_pop out | CurDir \<Rightarrow> out
      | _ \<Rightarrow> path_push out (component_os_str comp)) = normalize_step"
    by (auto simp: fun_eq_iff normalize_step_def split: component.splits)
  have "foldl normalize_step [] (components p) = p"
    using normalize_normal [OF n] abs_normal_absolute [OF n]
    by (auto simp: normalize_path_def Let_def split: if_splits)
  then show ?thesis by (simp add: safety_normalize_def step)
qed

lemma patch_path_writable_normal:
  "abs_normal p \<Longrightarrow> patch_path_writable env policy cwd p \<longleftrightarrow> can_write_path_with_cwd env policy p cwd"
  by (simp add: patch_path_writable_def util_resolve_path_def abs_normal_absolute safety_normalize_normal)

lemma touched_normal: "is_absolute cwd \<Longrightarrow> q \<in> set (touched_paths home cwd h) \<Longrightarrow> abs_normal q"
  by (auto simp: touched_paths_def resolve_path_def intro: resolve_path_normal split: hunk.splits option.splits)

lemma constrained_change:
  assumes "is_write_patch_constrained_to_writable_paths env action policy cwd"
    and "map_of (action_changes action) p = Some c"
  shows "patch_path_writable env policy cwd p \<and>
    (\<forall>u d n. c = File_Update u (Some d) n \<longrightarrow> patch_path_writable env policy cwd d)"
  using assms map_of_SomeD [OF assms(2)]
  by (auto simp: is_write_patch_constrained_to_writable_paths_def list_all_iff
      split: apply_patch_file_change.splits option.splits)

lemma constrained_touches_writable:
  assumes v: "verify_hunks fs diff home base w hs [] = Some (Inr (action_changes action))"
    and base: "is_absolute base"
    and ok: "is_write_patch_constrained_to_writable_paths env action policy cwd"
    and h: "h \<in> set hs" and q: "q \<in> set (touched_paths home base h)"
  shows "can_write_path_with_cwd env policy q cwd \<or> q \<in> set (shadowed_destinations home base hs)"
proof -
  have "patch_path_writable env policy cwd q \<or> q \<in> set (shadowed_destinations home base hs)"
  proof (cases "q = resolve_path home h base")
    case True
    then have "q \<in> dom (map_of (action_changes action))" using verify_hunks_keys [OF v] h by auto
    then show ?thesis using constrained_change [OF ok] by blast
  next
    case False
    then obtain p d cs where u: "h = UpdateFile p (Some d) cs" "q = resolve_path_against_base home d base"
      using q by (auto simp: touched_paths_def split: hunk.splits option.splits)
    then show ?thesis using verify_hunks_moves [OF v h u(1)] constrained_change [OF ok] by blast
  qed
  then show ?thesis using patch_path_writable_normal touched_normal [OF base q] by blast
qed

lemma apply_hunks_world_frame:
  assumes "fs_frame linked fs" and "apply_hunks fs home out err hs cwd so se w = Some run"
    and "\<forall>h\<in>set hs. \<forall>p\<in>set (touched_paths home cwd h). \<not> touches linked p q"
  shows "view fs (run_world run) q = view fs w q"
proof -
  obtain r d w' x where a: "apply_hunks_to_files fs home cwd hs delta_empty w = Some (r, d, w')"
    and x: "apply_hunks fs home out err hs cwd so se w = Some x" "run_world x = w'"
    by (rule apply_hunks_cases)
  have "view fs w' q = view fs w q"
    using a assms(3) apply_hunks_loop_frame [OF assms(1), of home cwd hs "init_state w delta_empty" _ _ q]
    by (auto simp: apply_hunks_to_files_def init_state_def split: if_splits)
  then show ?thesis using x assms(2) by simp
qed

lemma verify_body_Some:
  assumes "verify_body fs diff home cwd w args = Some (Verified_Body action)" and "is_absolute cwd"
  shows "verify_hunks fs diff home (action_cwd action) w (args_hunks args) [] = Some (Inr (action_changes action)) \<and>
    action_patch action = args_patch args \<and> is_absolute (action_cwd action)"
proof -
  define base where "base = (case args_workdir args of Some dir \<Rightarrow> abs_join home cwd dir | None \<Rightarrow> cwd)"
  have b: "is_absolute base"
    using assms(2) by (auto simp: base_def abs_join_def intro: abs_normal_absolute resolve_path_normal split: option.splits)
  obtain z where "verify_hunks fs diff home base w (args_hunks args) [] = Some z"
    by (meson verify_hunks_total)
  then show ?thesis
    using assms(1) b by (cases z) (auto simp: verify_body_def base_def)
qed

lemma verified_body_cases:
  assumes "maybe_parse_apply_patch_verified bq fs diff home argv cwd w = Some (Verified_Body action)"
    and "is_absolute cwd"
  obtains args :: apply_patch_args and body source where "verify_hunks fs diff home (action_cwd action) w (args_hunks args) [] = Some (Inr (action_changes action))"
    and "action_patch action = args_patch args" and "is_absolute (action_cwd action)"
    and "parse_patch body = Inr source" "args_patch source = args_patch args" "args_hunks source = args_hunks args"
proof -
  obtain args where args: "maybe_parse_apply_patch bq argv = Maybe_Body args"
    and v: "verify_body fs diff home cwd w args = Some (Verified_Body action)"
    using assms(1) by (auto simp: maybe_parse_apply_patch_verified_def split: if_splits maybe_apply_patch.splits)
  have "\<exists>body source. parse_patch body = Inr source \<and> args_patch source = args_patch args \<and>
      args_hunks source = args_hunks args"
    using args
    by (auto simp: maybe_parse_apply_patch_def parse_shell_invocation_def
        split: list.splits if_splits sum.splits option.splits prod.splits extract_heredoc_error.splits) metis+
  then obtain body source where "parse_patch body = Inr source" "args_patch source = args_patch args"
    "args_hunks source = args_hunks args" by blast
  then show thesis using verify_body_Some [OF v assms(2)] by (intro that [of args body source]) auto
qed

text \<open>
  C1 (safety): under an approval policy other than \<^verbatim>\<open>OnFailure\<close>, a patch that is applied without asking changes only
  files that the policy lets the agent write. The call is recognised and verified (\<^verbatim>\<open>invocation.rs\<close>), judged
  (\<^verbatim>\<open>safety.rs\<close>) and, later and in any state of the files, its text is applied (\<^verbatim>\<open>lib.rs\<close>), with success or with an
  error half-way, moved files and a \<^verbatim>\<open>cd\<close> in front of the call included. Every file that is then different is, or is
  hard-linked to, a path that is writable under \<^verbatim>\<open>permissions.rs\<close>, or the destination of a move whose file a later
  hunk of the same patch names again. No line of the text ends in a carriage return.
\<close>

theorem auto_approved_patch_stays_in_writable_files:
  assumes verified: "maybe_parse_apply_patch_verified bq fs diff home argv cwd w = Some (Verified_Body action)"
    and auto: "assess_patch_safety env os action policy profile fs_policy cwd level = AutoApprove sandbox explicit"
    and policy: "policy \<noteq> OnFailure" and cwd: "is_absolute cwd" and frame: "fs_frame linked fs"
    and again: "parse_patch (action_patch action) = Inr parsed"
    and lines: "\<forall>l\<in>set (split_on NL (action_patch action)). plain_line l"
    and run: "apply_patch fs home out err (action_patch action) (action_cwd action) so se w' = Some run"
    and changed: "view fs (run_world run) q \<noteq> view fs w' q"
  shows "\<exists>p. (q = p \<or> linked p q) \<and>
    (can_write_path_with_cwd env fs_policy p cwd \<or>
     p \<in> set (shadowed_destinations home (action_cwd action) (args_hunks parsed)))"
proof -
  obtain args :: apply_patch_args and body source where
    v: "verify_hunks fs diff home (action_cwd action) w (args_hunks args) [] = Some (Inr (action_changes action))"
    and p: "action_patch action = args_patch args" and base: "is_absolute (action_cwd action)"
    and src: "parse_patch body = Inr source" "args_patch source = args_patch args" "args_hunks source = args_hunks args"
    using verified cwd by (rule verified_body_cases)
  have hunks: "args_hunks parsed = args_hunks args"
    using parse_patch_same_hunks [OF src(1)] lines again src p by auto
  have ok: "is_write_patch_constrained_to_writable_paths env action fs_policy cwd"
    using auto_approve_cases [OF auto] policy by blast
  have "apply_hunks fs home out err (args_hunks args) (action_cwd action) so se w' = Some run"
    using run apply_patch_parsed [OF again, of fs home out err "action_cwd action" so se w'] hunks by simp
  from apply_hunks_world_frame [OF frame this] changed
  obtain h p where "h \<in> set (args_hunks args)" "p \<in> set (touched_paths home (action_cwd action) h)" "touches linked p q" by blast
  with constrained_touches_writable [OF v base ok] hunks show ?thesis unfolding touches_def by metis
qed

definition workspace_policy :: fs_policy where
  "workspace_policy = fsp_restricted [path_entry ''/ws'' Access_Write]"

definition example_add :: "patch_hunk list" where
  "example_add = [PAdd (lit ''n'') [lit ''y'']]"

definition example_action :: apply_patch_action where
  "example_action = \<lparr>action_changes = [(lit ''/ws/n'', File_Add (lit ''y'' @ [NL]))],
     action_patch = patch_text example_add, action_cwd = lit ''/ws''\<rparr>"

definition example_world :: mem_world where
  "example_world = \<lparr>mem_files = [], mem_dirs = [lit ''/ws'']\<rparr>"

lemma example_add_parse: "parse_patch (patch_text example_add) =
    Inr \<lparr>args_patch = patch_text example_add, args_hunks = [AddFile (lit ''n'') (lit ''y'' @ [NL])], args_workdir = None\<rparr>"
  unfolding parse_patch_def
  by (subst parse_patch_rendered) (simp_all add: example_add_def wf_path_def plain_line_def is_whitespace_def)

lemma example_action_verified:
  "maybe_parse_apply_patch_verified bq mem_fs (\<lambda>_ _ _. []) None [lit ''apply_patch'', patch_text example_add]
     (lit ''/ws'') example_world = Some (Verified_Body example_action)"
proof -
  have cmd: "lit ''apply_patch'' \<in> set APPLY_PATCH_COMMANDS" by code_simp
  have v: "verify_hunks mem_fs (\<lambda>_ _ _. []) None (lit ''/ws'') example_world [AddFile (lit ''n'') (lit ''y'' @ [NL])] [] =
      Some (Inr [(lit ''/ws/n'', File_Add (lit ''y'' @ [NL]))])" by code_simp
  have "maybe_parse_apply_patch bq [lit ''apply_patch'', patch_text example_add] =
      Maybe_Body \<lparr>args_patch = patch_text example_add, args_hunks = [AddFile (lit ''n'') (lit ''y'' @ [NL])], args_workdir = None\<rparr>"
    using cmd unfolding maybe_parse_apply_patch_def by (simp add: example_add_parse)
  then show ?thesis
    using v by (simp add: maybe_parse_apply_patch_verified_def parse_shell_script_def verify_body_def Let_def
        example_action_def)
qed

lemma mem_fs_frame: "fs_frame (\<lambda>_ _. False) mem_fs"
  unfolding fs_frame_def touches_def mem_view
  by (auto simp: mem_fs_def map_of_filter_key split: if_splits)

theorem auto_approved_patch_stays_in_writable_files_witness:
  "can_write_path_with_cwd bare_machine workspace_policy (lit ''/ws/n'') (lit ''/ws'')"
proof -
  let ?p = "patch_text example_add"
  obtain run where run: "apply_patch mem_fs None mem_writer mem_writer (action_patch example_action)
      (action_cwd example_action) [] [] example_world = Some run"
    and world: "run_world run = \<lparr>mem_files = [(lit ''/ws/n'', lit ''y'' @ [NL])], mem_dirs = [lit ''/ws'']\<rparr>"
  proof -
    have "map_option run_world (apply_hunks mem_fs None mem_writer mem_writer
        [AddFile (lit ''n'') (lit ''y'' @ [NL])] (lit ''/ws'') [] [] example_world) =
      Some \<lparr>mem_files = [(lit ''/ws/n'', lit ''y'' @ [NL])], mem_dirs = [lit ''/ws'']\<rparr>" by code_simp
    then show thesis
      using that apply_patch_parsed [OF example_add_parse, of mem_fs None mem_writer mem_writer "lit ''/ws''" "[]" "[]" example_world]
      by (auto simp: example_action_def)
  qed
  have a: "assess_patch_safety bare_machine Os_Linux example_action OnRequest (ProfileManaged () ()) workspace_policy
      (lit ''/ws'') Windows_Disabled = AutoApprove LinuxSeccomp False" by code_simp
  have again: "parse_patch (action_patch example_action) = Inr \<lparr>args_patch = ?p,
      args_hunks = [AddFile (lit ''n'') (lit ''y'' @ [NL])], args_workdir = None\<rparr>"
    by (simp add: example_action_def example_add_parse)
  have "list_all plain_line (split_on NL (action_patch example_action))" by code_simp
  then have lines: "\<forall>l\<in>set (split_on NL (action_patch example_action)). plain_line l" by (simp only: list_all_iff)
  have changed: "view mem_fs (run_world run) (lit ''/ws/n'') \<noteq> view mem_fs example_world (lit ''/ws/n'')"
    by (simp add: world mem_view example_world_def)
  have "shadowed_destinations None (lit ''/ws'') [AddFile (lit ''n'') (lit ''y'' @ [NL])] = []" by simp
  then show ?thesis
    using auto_approved_patch_stays_in_writable_files
      [OF example_action_verified a _ _ mem_fs_frame again lines run changed] by (simp add: example_action_def)
qed

text \<open>
  The decision can miss the destination of such a move. The patch moves \<^verbatim>\<open>a\<close> out of the workspace
  and then adds \<^verbatim>\<open>a\<close> again: the second hunk replaces the change of the first, so the patch is taken to touch
  \<^verbatim>\<open>/ws/a\<close> only, while applying it creates \<^verbatim>\<open>/out/b\<close>, which the policy does not let the agent write.
\<close>

definition shadowing_hunks :: "hunk list" where
  "shadowing_hunks =
     [UpdateFile (lit ''a'') (Some (lit ''/out/b''))
        [\<lparr>change_context = None, old_lines = [lit ''x''], new_lines = [lit ''y''], is_end_of_file = False\<rparr>],
      AddFile (lit ''a'') (lit ''z'' @ [NL])]"

definition shadowing_world :: mem_world where
  "shadowing_world = \<lparr>mem_files = [(lit ''/ws/a'', lit ''x'' @ [NL])], mem_dirs = [lit ''/ws'', lit ''/out'']\<rparr>"

lemma shadowed_move_is_missed:
  "verify_hunks mem_fs (\<lambda>_ _ _. []) None (lit ''/ws'') shadowing_world shadowing_hunks [] =
     Some (Inr [(lit ''/ws/a'', File_Add (lit ''z'' @ [NL]))])"
  "is_write_patch_constrained_to_writable_paths bare_machine
     \<lparr>action_changes = [(lit ''/ws/a'', File_Add (lit ''z'' @ [NL]))], action_patch = p, action_cwd = lit ''/ws''\<rparr>
     workspace_policy (lit ''/ws'')"
  "map_option (\<lambda>(_, _, w). map_of (mem_files w) (lit ''/out/b''))
     (apply_hunks_to_files mem_fs None (lit ''/ws'') shadowing_hunks delta_empty shadowing_world) =
     Some (Some (lit ''y'' @ [NL]))"
  "\<not> can_write_path_with_cwd bare_machine workspace_policy (lit ''/out/b'') (lit ''/ws'')"
  by code_simp+

end
