(* ===== verification/Writable_Roots.thy ===== *)
theory Writable_Roots
  imports File_Permissions_Correct
begin

text \<open>
  The writable roots that a sandbox is given (\<^verbatim>\<open>get_writable_roots_with_cwd\<close> of
  \<^verbatim>\<open>codex-rs/protocol/src/permissions.rs\<close>): their paths are well-formed, what they protect lies below them,
  and what they let through is writable by the entries of the policy.
\<close>

section \<open>Joining names\<close>

lemma names_relative:
  assumes "\<forall>q\<in>set names. plain_name q"
  shows "\<not> is_absolute (str_join [SLASH] names)"
    and "body_components (split_on SLASH (str_join [SLASH] names)) = map Normal names"
proof -
  have "hd (str_join [SLASH] names) \<noteq> SLASH" if ne: "names \<noteq> []"
  proof -
    obtain q qs where names: "names = q # qs" using ne by (cases names) auto
    then have "q \<noteq> []" "SLASH \<notin> set q" using assms by (auto simp: plain_name_def)
    then show ?thesis by (cases qs; cases q) (auto simp: names)
  qed
  then show "\<not> is_absolute (str_join [SLASH] names)" by (cases names) (auto simp: is_absolute_iff)
  show "body_components (split_on SLASH (str_join [SLASH] names)) = map Normal names"
  proof (cases "names = []")
    case False
    have "filter (\<lambda>q. \<not> trivial_piece q) names = names"
      using assms by (auto simp: filter_id_conv plain_name_def trivial_piece_def)
    moreover have "map piece_component names = map Normal names"
      using assms by (auto simp: piece_component_def plain_name_def)
    ultimately show ?thesis using False assms by (simp add: split_on_abs_path body_components_def)
  qed (simp add: body_components_def trivial_piece_def)
qed

lemma absolutize_names:
  assumes "\<forall>q\<in>set names. plain_name q" and "\<forall>q\<in>set base. plain_name q"
  shows "absolutize_from (str_join [SLASH] names) (abs_path base) = abs_path (base @ names)"
proof -
  have "is_absolute (abs_path base)" by (simp add: abs_path_def)
  then show ?thesis
    using assms names_relative [OF assms(1)]
    by (simp add: absolutize_from_resolve components_abs_path resolve_def resolve_body foldl_resolve_names)
qed

text \<open>A name of one tilde alone is what the home directory replaces.\<close>

lemma expand_home_names:
  assumes "\<forall>q\<in>set names. plain_name q" and "names = [] \<or> hd names \<noteq> lit ''~''"
  shows "maybe_expand_home_directory home (str_join [SLASH] names) = str_join [SLASH] names"
proof (cases names)
  case (Cons q qs)
  then obtain c q' where q: "q = c # q'" using assms(1) by (cases q) (auto simp: plain_name_def)
  have "strip_prefix [SLASH] (q' @ r) = None" if "q' \<noteq> []" for r
    using that assms(1) Cons q by (cases q') (auto simp: plain_name_def)
  then have "q' \<noteq> [] \<Longrightarrow> strip_prefix [SLASH] (q' @ r) = None" "q' \<noteq> [] \<Longrightarrow> strip_prefix [SLASH] q' = None" for r
    by (auto dest: spec [of _ "[]"]) (metis append_Nil2)
  moreover have "c = 126 \<Longrightarrow> q' \<noteq> []" using assms(2) Cons q by auto
  ultimately show ?thesis
    using Cons q by (cases qs) (auto simp: maybe_expand_home_directory_def split: option.splits)
qed (simp add: maybe_expand_home_directory_def split: option.splits)

lemma relative_path_names: "relative_path (map Normal names) = str_join [SLASH] names"
  by (simp add: relative_path_def comp_def)

lemma join_names:
  assumes "\<forall>q\<in>set names. plain_name q" and "names = [] \<or> hd names \<noteq> lit ''~''" and "abs_normal root"
  shows "components (join_abs env root (str_join [SLASH] names)) = components root @ map Normal names"
proof -
  obtain base where base: "root = abs_path base" "\<forall>q\<in>set base. plain_name q"
    using assms(3) by (auto simp: abs_normal_iff)
  then show ?thesis
    using assms(1) by (simp add: abs_join_def resolve_path_against_base_def expand_home_names [OF assms(1,2)]
        absolutize_names components_abs_path ball_Un)
qed

lemma join_metadata_name:
  assumes "n \<in> set PROTECTED_METADATA_PATH_NAMES" and "abs_normal root"
  shows "components (join_abs env root n) = components root @ [Normal n]"
  using assms join_names [of "[n]" root env]
  by (auto simp: PROTECTED_METADATA_PATH_NAMES_def plain_name_def)

lemma normal_join: "abs_normal root \<Longrightarrow> abs_normal (join_abs env root p)"
  by (simp add: abs_join_def resolve_path_normal abs_normal_absolute)

lemma normal_components_eq: "abs_normal p \<Longrightarrow> abs_normal q \<Longrightarrow> components p = components q \<longleftrightarrow> p = q"
proof -
  have "inj Normal" by (auto simp: inj_def)
  then show "abs_normal p \<Longrightarrow> abs_normal q \<Longrightarrow> components p = components q \<longleftrightarrow> p = q"
    by (auto simp: abs_normal_iff components_abs_path map_injective)
qed

text \<open>What is left of a normal path below another.\<close>

lemma normal_suffix:
  assumes "abs_normal p" "abs_normal q" "path_strip_prefix p q = Some suf"
  obtains names where "suf = map Normal names" "\<forall>n\<in>set names. plain_name n" "components p = components q @ suf"
proof -
  obtain ps where ps: "p = abs_path ps" "\<forall>n\<in>set ps. plain_name n" using assms(1) by (auto simp: abs_normal_iff)
  obtain qs where qs: "q = abs_path qs" "\<forall>n\<in>set qs. plain_name n" using assms(2) by (auto simp: abs_normal_iff)
  have c: "components p = components q @ suf"
    using assms(3) by (simp add: path_strip_prefix_def strip_prefix_Some_iff)
  then have "map Normal ps = map Normal qs @ suf" using ps qs by (simp add: components_abs_path)
  then have "suf = map Normal (drop (length qs) ps)"
    by (metis append_eq_conv_conj drop_map length_map)
  moreover have "\<forall>n\<in>set (drop (length qs) ps). plain_name n" using ps(2) by (meson in_set_dropD)
  ultimately show thesis using c that by blast
qed

section \<open>Well-formed machines and entries\<close>

text \<open>\<^verbatim>\<open>std::env::current_dir\<close> is an absolute path.\<close>

definition wf_machine :: "perm_env \<Rightarrow> bool" where
  "wf_machine env \<longleftrightarrow> (\<forall>d. pe_current_dir env = Inr d \<longrightarrow> is_absolute d)"

lemma to_absolute_wf: "wf_machine env \<Longrightarrow> to_absolute env p = Some q \<Longrightarrow> abs_normal q"
  by (auto simp: wf_machine_def to_absolute_def from_absolute_path_def absolutize_def absolutize_from_normal
      abs_normal_normalize split: sum.splits if_splits)

lemma resolved_normal:
  assumes "wf_machine env" and "\<forall>entry\<in>set (fsp_entries policy). wf_entry_path (entry_path entry)"
    and "e \<in> set (resolved_entries_with_cwd env policy cwd)"
  shows "abs_normal (res_path e)"
proof -
  obtain entry where entry: "entry \<in> set (fsp_entries policy)"
    "resolve_entry_path env (entry_path entry) (to_absolute env cwd) = Some (res_path e)"
    using assms(3) by (auto simp: in_resolved_entries)
  have wf: "wf_entry_path (entry_path entry)" using assms(2) entry(1) by blast
  have tmp: "abs_normal (lit ''/tmp'')" by code_simp
  have base: "is_absolute c" if "to_absolute env cwd = Some c" for c
    using to_absolute_wf [OF assms(1) that] by (rule abs_normal_absolute)
  show ?thesis
    using entry(2) wf tmp base to_absolute_wf [OF assms(1)]
    by (auto simp: resolve_entry_path_def resolve_file_system_path_def resolve_file_system_special_path_def
        wf_entry_path_def absolute_root_path_for_cwd_def
        split: option.splits file_system_path.splits file_system_special_path.splits if_splits)
      (metis resolve_path_normal)
qed

lemma effective_normal:
  "wf_machine env \<Longrightarrow> abs_normal p \<Longrightarrow> abs_normal (normalize_effective_absolute_path env p)"
proof -
  assume wf: "wf_machine env" and p: "abs_normal p"
  have "abs_normal (effective_from_ancestors env p as)" for as
    by (induction as) (auto simp: p dest: to_absolute_wf [OF wf] split: option.splits)
  then show ?thesis by (simp add: normalize_effective_absolute_path_def)
qed

section \<open>Duplicates\<close>

lemma dedup_loop_spec:
  "distinct (map components acc) \<Longrightarrow>
   distinct (map components (dedup_loop acc ps)) \<and> set (dedup_loop acc ps) \<subseteq> set acc \<union> set ps \<and>
   components ` set (dedup_loop acc ps) = components ` (set acc \<union> set ps)"
proof (induction ps arbitrary: acc)
  case (Cons p ps)
  define acc' where "acc' = (if list_ex (path_eq p) acc then acc else acc @ [p])"
  have "distinct (map components acc')" "set acc' \<subseteq> insert p (set acc)" "set acc \<subseteq> set acc'"
    "components p \<in> components ` set acc'"
    using Cons.prems by (auto simp: acc'_def list_ex_iff path_eq_def)
  from Cons.IH [OF this(1)] this(2-) show ?case unfolding dedup_loop.simps acc'_def [symmetric] by auto
qed simp

lemmas dedup_loop_facts = dedup_loop_spec [of "[]", simplified]

lemma dedup_paths_distinct: "distinct (map components (dedup_absolute_paths env ps norm))"
  using dedup_loop_facts by (simp add: dedup_absolute_paths_def)

lemma dedup_paths_sub:
  "s \<in> set (dedup_absolute_paths env ps False) \<Longrightarrow> s \<in> set ps"
  "s \<in> set (dedup_absolute_paths env ps True) \<Longrightarrow> s \<in> normalize_effective_absolute_path env ` set ps"
  using dedup_loop_facts [of ps] dedup_loop_facts [of "map (normalize_effective_absolute_path env) ps"]
  by (auto simp: dedup_absolute_paths_def)

lemma dedup_paths_covers: "p \<in> set ps \<Longrightarrow> \<exists>s\<in>set (dedup_absolute_paths env ps False). components s = components p"
  using dedup_loop_facts [of ps] by (auto simp: dedup_absolute_paths_def image_iff set_eq_iff) (metis (no_types))

section \<open>What a root protects\<close>

abbreviation gitdir_of :: "perm_env \<Rightarrow> path \<Rightarrow> path option" where
  "gitdir_of env root \<equiv> resolve_gitdir_from_file env (join_abs env root (lit ''.git''))"

lemma gitdir_normal: "abs_normal root \<Longrightarrow> gitdir_of env root = Some s \<Longrightarrow> abs_normal s"
proof -
  assume root: "abs_normal root" and s: "gitdir_of env root = Some s"
  obtain names where names: "join_abs env root (lit ''.git'') = abs_path names" "\<forall>q\<in>set names. plain_name q"
    using normal_join [OF root, of env "lit ''.git''"] unfolding abs_normal_iff by blast
  then have "is_absolute base" if "path_parent (join_abs env root (lit ''.git'')) = Some base" for base
    using that parent_abs_path [OF names(2)] by (auto simp: abs_path_def split: if_splits)
  then show ?thesis
    using s by (auto simp: resolve_gitdir_from_file_def Let_def resolve_path_normal split: option.splits prod.splits if_splits)
qed

lemma default_subpath_cases:
  "s \<in> set (default_read_only_subpaths_for_writable_root env root b) \<Longrightarrow>
   gitdir_of env root = Some s \<or> (\<exists>n\<in>set PROTECTED_METADATA_PATH_NAMES. s = join_abs env root n)"
  unfolding default_read_only_subpaths_for_writable_root_def Let_def
  by (auto dest!: dedup_paths_sub(1) simp: PROTECTED_METADATA_PATH_NAMES_def split: if_splits option.splits)

lemma default_subpaths:
  assumes "abs_normal root" and "s \<in> set (default_read_only_subpaths_for_writable_root env root b)"
  shows "abs_normal s \<and> (path_starts_with s root \<or> gitdir_of env root = Some s)"
proof -
  have "gitdir_of env root = Some s \<or> (\<exists>n\<in>set PROTECTED_METADATA_PATH_NAMES. s = join_abs env root n)"
    using default_subpath_cases [OF assms(2)] .
  then show ?thesis
    using gitdir_normal [OF assms(1)] join_metadata_name [OF _ assms(1)] normal_join [OF assms(1)]
    by (auto simp: path_starts_with_def starts_with_iff_prefix)
qed

lemma raw_carveout:
  assumes q: "raw_carveout_path env root raws p = Some q" and root: "abs_normal root" and p: "abs_normal p"
    and tilde: "Normal (lit ''~'') \<notin> set (components p)" and raws: "\<forall>r\<in>set raws. abs_normal r"
  shows "abs_normal q \<and> path_starts_with q root"
proof (cases "path_starts_with p root")
  case True
  then show ?thesis using q p by (auto simp: raw_carveout_path_def split: if_splits)
next
  case False
  let ?f = "\<lambda>raw. case path_strip_prefix p raw of None \<Rightarrow> None
    | Some suf \<Rightarrow> if suf = [] then None else Some (join_abs env root (relative_path suf))"
  have "find_map ?f raws = Some q" using q False by (auto simp: raw_carveout_path_def split: if_splits)
  then obtain raw suf where raw: "raw \<in> set raws" and suf: "path_strip_prefix p raw = Some suf"
    "q = join_abs env root (relative_path suf)"
    by (auto dest!: find_map_Some split: option.splits if_splits)
  obtain names where names: "suf = map Normal names" "\<forall>n\<in>set names. plain_name n" "components p = components raw @ suf"
    using normal_suffix [OF p _ suf(1)] raws raw by blast
  then have "names = [] \<or> hd names \<noteq> lit ''~''" using tilde by (cases names) auto
  from join_names [OF names(2) this root] show ?thesis
    using suf(2) names(1) normal_join [OF root]
    by (simp add: relative_path_names path_starts_with_def starts_with_iff_prefix)
qed

lemma carveout:
  assumes "carveout_path env root raws p = Some q" and "abs_normal root" and "abs_normal p" and "wf_machine env"
    and "Normal (lit ''~'') \<notin> set (components p)" and "\<forall>r\<in>set raws. abs_normal r"
  shows "abs_normal q \<and> path_starts_with q root"
  using assms raw_carveout [OF _ assms(2,3,5,6)] effective_normal [OF assms(4,3)]
  by (auto simp: carveout_path_def Let_def split: option.splits if_splits)

text \<open>The entries that are writable, and the root made of one of them.\<close>

definition writable_paths :: "perm_env \<Rightarrow> fs_policy \<Rightarrow> path \<Rightarrow> path list" where
  "writable_paths env policy cwd =
     map res_path
       (filter (\<lambda>entry. can_write_path_with_cwd env policy (res_path entry) cwd)
          (filter (\<lambda>entry. can_write (res_access entry)) (resolved_entries_with_cwd env policy cwd)))"

lemma in_writable_roots:
  "r \<in> set (get_writable_roots_with_cwd env policy cwd) \<longleftrightarrow>
   \<not> has_full_disk_write_access policy \<and>
   (\<exists>root\<in>set (dedup_absolute_paths env (writable_paths env policy cwd) True).
      r = writable_root_of env policy cwd (writable_paths env policy cwd) root)"
  by (auto simp: get_writable_roots_with_cwd_def writable_paths_def Let_def)

lemma wr_root_of: "wr_root (writable_root_of env policy cwd ws root) = root"
  by (simp add: writable_root_of_def Let_def)

lemma subpath_cases:
  assumes "s \<in> set (wr_read_only_subpaths (writable_root_of env policy cwd ws root))"
  shows "(\<exists>b. s \<in> set (default_read_only_subpaths_for_writable_root env root b)) \<or>
    (\<exists>e\<in>set (resolved_entries_with_cwd env policy cwd).
       carveout_path env root (filter (\<lambda>p. path_eq (normalize_effective_absolute_path env p) root) ws) (res_path e) = Some s)"
  using assms by (auto simp: writable_root_of_def Let_def in_map_filter dest!: dedup_paths_sub(1))

text \<open>
  C3 (type): the writable roots handed to a sandbox are well-formed: no two of them are the same path,
  each is absolute and normalised, and its read-only subpaths are distinct, absolute, normalised and below
  the root, the directory a \<^verbatim>\<open>.git\<close> pointer file names apart; the protected names are among \<^verbatim>\<open>.git\<close>,
  \<^verbatim>\<open>.agents\<close> and \<^verbatim>\<open>.codex\<close>. The entries are well-formed, and none has a name that is a tilde alone.
\<close>

theorem writable_roots_well_formed:
  assumes env: "wf_machine env" and wf: "\<forall>entry\<in>set (fsp_entries policy). wf_entry_path (entry_path entry)"
    and tilde: "\<forall>e\<in>set (resolved_entries_with_cwd env policy cwd). Normal (lit ''~'') \<notin> set (components (res_path e))"
  shows "distinct (map (components \<circ> wr_root) (get_writable_roots_with_cwd env policy cwd)) \<and>
    (\<forall>r\<in>set (get_writable_roots_with_cwd env policy cwd).
       abs_normal (wr_root r) \<and> distinct (map components (wr_read_only_subpaths r)) \<and>
       (\<forall>s\<in>set (wr_read_only_subpaths r). abs_normal s \<and>
          (path_starts_with s (wr_root r) \<or> gitdir_of env (wr_root r) = Some s)) \<and>
       set (wr_protected_metadata_names r) \<subseteq> set PROTECTED_METADATA_PATH_NAMES)"
proof (intro conjI ballI)
  let ?ws = "writable_paths env policy cwd"
  have "map (components \<circ> wr_root) (map (writable_root_of env policy cwd ?ws) rs) = map components rs" for rs
    by (simp add: wr_root_of)
  from this [of "dedup_absolute_paths env ?ws True"]
  show "distinct (map (components \<circ> wr_root) (get_writable_roots_with_cwd env policy cwd))"
    using dedup_paths_distinct [of env ?ws True]
    by (simp add: get_writable_roots_with_cwd_def writable_paths_def [symmetric] Let_def del: filter_filter map_map)
  fix r
  assume "r \<in> set (get_writable_roots_with_cwd env policy cwd)"
  then obtain root where root: "root \<in> set (dedup_absolute_paths env ?ws True)"
    and r: "r = writable_root_of env policy cwd ?ws root" by (auto simp: in_writable_roots)
  have ws: "abs_normal w" if "w \<in> set ?ws" for w
    using that resolved_normal [OF env wf] by (auto simp: writable_paths_def)
  show normal: "abs_normal (wr_root r)"
    using dedup_paths_sub(2) [OF root] ws effective_normal [OF env] by (auto simp: r wr_root_of)
  show "distinct (map components (wr_read_only_subpaths r))"
    by (simp add: r writable_root_of_def Let_def dedup_paths_distinct)
  show "set (wr_protected_metadata_names r) \<subseteq> set PROTECTED_METADATA_PATH_NAMES"
    by (auto simp: r writable_root_of_def Let_def protected_metadata_names_for_writable_root_def)
  fix s
  assume "s \<in> set (wr_read_only_subpaths r)"
  from subpath_cases [OF this [unfolded r]]
  have "abs_normal s \<and> (path_starts_with s root \<or> gitdir_of env root = Some s)"
    using default_subpaths [of root s env] carveout [of env root _ _ s] normal tilde resolved_normal [OF env wf] ws env
    by (fastforce simp: r wr_root_of)
  then show "abs_normal s" "path_starts_with s (wr_root r) \<or> gitdir_of env (wr_root r) = Some s"
    by (simp_all add: r wr_root_of)
qed

text \<open>A machine with a worktree: \<^verbatim>\<open>/ws/.git\<close> is a file that points to a directory elsewhere.\<close>

definition worktree_machine :: perm_env where
  "worktree_machine = bare_machine
     \<lparr>pe_is_file := (\<lambda>p. p = lit ''/ws/.git''), pe_exists := (\<lambda>p. p = lit ''/repo/.git''),
      pe_read_to_string := (\<lambda>p. if p = lit ''/ws/.git'' then Some (lit ''gitdir: /repo/.git'') else None)\<rparr>"

definition worktree_policy :: fs_policy where
  "worktree_policy = fsp_restricted [path_entry ''/ws'' Access_Write, path_entry ''/ws/sec'' Access_None]"

lemma worktree_gitdir: "gitdir_of worktree_machine (lit ''/ws'') = Some (lit ''/repo/.git'')"
proof -
  have j: "join_abs worktree_machine (lit ''/ws'') (lit ''.git'') = lit ''/ws/.git''"
    "path_parent (lit ''/ws/.git'') = Some (lit ''/ws'')"
    "resolve_path_against_base None (lit ''/repo/.git'') (lit ''/ws'') = lit ''/repo/.git''" by code_simp+
  show ?thesis unfolding j(1) resolve_gitdir_from_file_def
    using j(2,3) by (simp add: worktree_machine_def bare_machine_def trim_def trim_start_def trim_end_def is_whitespace_def)
qed

lemma worktree_default:
  "default_read_only_subpaths_for_writable_root worktree_machine (lit ''/ws'') True =
     [lit ''/repo/.git'', lit ''/ws/.git'', lit ''/ws/.codex'']"
proof -
  have j: "join_abs worktree_machine (lit ''/ws'') (lit ''.git'') = lit ''/ws/.git''"
    "join_abs worktree_machine (lit ''/ws'') (lit ''.agents'') = lit ''/ws/.agents''"
    "join_abs worktree_machine (lit ''/ws'') (lit ''.codex'') = lit ''/ws/.codex''"
    "pe_is_file worktree_machine (lit ''/ws/.git'')" "is_git_pointer_file worktree_machine (lit ''/ws/.git'')"
    "\<not> pe_is_dir worktree_machine (lit ''/ws/.agents'')"
    "dedup_absolute_paths worktree_machine [lit ''/repo/.git'', lit ''/ws/.git'', lit ''/ws/.codex''] False =
       [lit ''/repo/.git'', lit ''/ws/.git'', lit ''/ws/.codex'']" by code_simp+
  show ?thesis
    unfolding default_read_only_subpaths_for_writable_root_def Let_def j(1-3) worktree_gitdir [unfolded j(1)]
    using j(4-) by simp
qed

lemma worktree_roots:
  "get_writable_roots_with_cwd worktree_machine worktree_policy (lit ''/ws'') =
     [\<lparr>wr_root = lit ''/ws'',
       wr_read_only_subpaths = [lit ''/repo/.git'', lit ''/ws/.git'', lit ''/ws/.codex'', lit ''/ws/sec''],
       wr_protected_metadata_names = [lit ''.git'', lit ''.agents'', lit ''.codex'']\<rparr>]"
proof -
  let ?m = worktree_machine and ?w = "lit ''/ws''" and ?s = "lit ''/ws/sec''"
  have es: "resolved_entries_with_cwd ?m worktree_policy ?w =
      [\<lparr>res_path = ?w, res_access = Access_Write\<rparr>, \<lparr>res_path = ?s, res_access = Access_None\<rparr>]"
    and c: "\<not> has_full_disk_write_access worktree_policy" "can_write_path_with_cwd ?m worktree_policy ?w ?w"
      "\<not> can_write_path_with_cwd ?m worktree_policy ?s ?w"
    and d: "dedup_absolute_paths ?m [?w] True = [?w]" "normalize_effective_absolute_path ?m ?w = ?w"
      "to_absolute ?m ?w = Some ?w" "carveout_path ?m ?w [?w] ?s = Some ?s"
      "protected_metadata_names_for_writable_root ?m worktree_policy ?w [?w] ?w = [lit ''.git'', lit ''.agents'', lit ''.codex'']"
      "filter (\<lambda>p. \<not> has_explicit_resolved_path_entry [\<lparr>res_path = ?w, res_access = Access_Write\<rparr>, \<lparr>res_path = ?s, res_access = Access_None\<rparr>] p)
         [lit ''/repo/.git'', lit ''/ws/.git'', lit ''/ws/.codex''] = [lit ''/repo/.git'', lit ''/ws/.git'', lit ''/ws/.codex'']"
      "dedup_absolute_paths ?m [lit ''/repo/.git'', lit ''/ws/.git'', lit ''/ws/.codex'', ?s] False =
         [lit ''/repo/.git'', lit ''/ws/.git'', lit ''/ws/.codex'', ?s]"
    by code_simp+
  have "writable_root_of ?m worktree_policy ?w [?w] ?w =
     \<lparr>wr_root = ?w, wr_read_only_subpaths = [lit ''/repo/.git'', lit ''/ws/.git'', lit ''/ws/.codex'', ?s],
      wr_protected_metadata_names = [lit ''.git'', lit ''.agents'', lit ''.codex'']\<rparr>"
    using es c d worktree_default
    by (simp add: writable_root_of_def Let_def can_write_def path_eq_def List.map_filter_def)
  then show ?thesis using c d es by (simp add: get_writable_roots_with_cwd_def Let_def can_write_def)
qed

lemma worktree_wf:
  "wf_machine worktree_machine" "\<forall>entry\<in>set (fsp_entries worktree_policy). wf_entry_path (entry_path entry)"
proof -
  show "wf_machine worktree_machine" by (simp add: wf_machine_def worktree_machine_def bare_machine_def)
  have "list_all (\<lambda>entry. wf_entry_path (entry_path entry)) (fsp_entries worktree_policy)" by code_simp
  then show "\<forall>entry\<in>set (fsp_entries worktree_policy). wf_entry_path (entry_path entry)" by (simp add: list_all_iff)
qed

theorem writable_roots_well_formed_witness:
  "\<exists>r. get_writable_roots_with_cwd worktree_machine worktree_policy (lit ''/ws'') = [r] \<and>
     abs_normal (wr_root r) \<and> length (wr_read_only_subpaths r) = 4"
proof -
  have "list_all (\<lambda>e. Normal (lit ''~'') \<notin> set (components (res_path e)))
      (resolved_entries_with_cwd worktree_machine worktree_policy (lit ''/ws''))" by code_simp
  then have "\<forall>e\<in>set (resolved_entries_with_cwd worktree_machine worktree_policy (lit ''/ws'')).
      Normal (lit ''~'') \<notin> set (components (res_path e))" by (simp only: list_all_iff)
  from writable_roots_well_formed [OF worktree_wf this] show ?thesis unfolding worktree_roots by simp
qed

text \<open>
  The documentation of \<^verbatim>\<open>WritableRoot\<close> says that by construction the subpaths are all under the root; the
  directory of a worktree is not.
\<close>

lemma read_only_subpath_outside_root:
  "\<exists>r\<in>set (get_writable_roots_with_cwd worktree_machine worktree_policy (lit ''/ws'')).
     \<exists>s\<in>set (wr_read_only_subpaths r). \<not> path_starts_with s (wr_root r)"
proof -
  have "\<not> path_starts_with (lit ''/repo/.git'') (lit ''/ws'')" by code_simp
  then show ?thesis unfolding worktree_roots by simp
qed

section \<open>What a root lets through\<close>

text \<open>A machine without symbolic links: a path that has a canonical form is that form.\<close>

definition no_links :: "perm_env \<Rightarrow> bool" where
  "no_links env \<longleftrightarrow> (\<forall>p. pe_symlink_metadata env p \<noteq> Some True) \<and>
     (\<forall>p q. abs_normal p \<longrightarrow> pe_canonicalize env p = Some q \<longrightarrow> q = p)"

lemma canonicalize_no_links: "no_links env \<Longrightarrow> abs_normal p \<Longrightarrow> canonicalize_preserving_symlinks env p = Some p"
  by (auto simp: no_links_def canonicalize_preserving_symlinks_def to_absolute_absolute abs_normal_absolute
      normalize_normal should_preserve_logical_path_def list_ex_iff split: option.splits)

lemma ancestors_abs_path:
  "\<forall>q\<in>set names. plain_name q \<Longrightarrow> a \<in> set (ancestors_upto n (abs_path names)) \<Longrightarrow>
   \<exists>pre suf. names = pre @ suf \<and> a = abs_path pre"
proof (induction n arbitrary: names)
  case (Suc n)
  show ?case
  proof (cases "a = abs_path names")
    case True
    then show ?thesis by (intro exI [of _ names] exI [of _ "[]"]) simp
  next
    case False
    then have "a \<in> set (ancestors_upto n (abs_path (butlast names)))" and "names \<noteq> []"
      using Suc.prems by (auto simp: parent_abs_path split: if_splits)
    moreover have "\<forall>q\<in>set (butlast names). plain_name q" using Suc.prems(1) by (auto dest: in_set_butlastD)
    ultimately obtain pre suf where "butlast names = pre @ suf" "a = abs_path pre" using Suc.IH by blast
    moreover have "names = butlast names @ [last names]" using \<open>names \<noteq> []\<close> by simp
    ultimately have "names = pre @ suf @ [last names]" by simp
    then show ?thesis using \<open>a = abs_path pre\<close> by blast
  qed
qed auto

lemma effective_no_links: "no_links env \<Longrightarrow> abs_normal p \<Longrightarrow> normalize_effective_absolute_path env p = p"
proof -
  assume nl: "no_links env" and "abs_normal p"
  then obtain names where p: "p = abs_path names" "\<forall>q\<in>set names. plain_name q" by (auto simp: abs_normal_iff)
  have push: "to_absolute env (path_push a (relative_path suf)) = Some p"
    if a: "a = abs_path pre" "names = pre @ rest" and suf: "path_strip_prefix p a = Some suf" for a pre rest suf
  proof -
    have n: "\<forall>q\<in>set rest. plain_name q" "\<forall>q\<in>set pre. plain_name q" using p(2) a(2) by auto
    have "suf = map Normal rest"
      using suf p a n by (simp add: path_strip_prefix_def components_abs_path strip_prefix_Some_iff ball_Un)
    moreover have "is_absolute (path_push a (str_join [SLASH] rest))" by (simp add: a(1) absolute_push abs_path_def)
    ultimately show ?thesis
      using absolutize_names [OF n] names_relative(1) [OF n(1)] a p(1)
      by (simp add: to_absolute_absolute relative_path_names absolutize_from_def path_with_base_def)
  qed
  have "effective_from_ancestors env p as = p" if "set as \<subseteq> set (path_ancestors p)" for as
    using that
  proof (induction as)
    case (Cons a as)
    then obtain pre rest where a: "names = pre @ rest" "a = abs_path pre"
      using ancestors_abs_path [OF p(2), of a "length p"] by (auto simp: path_ancestors_def p(1))
    then have "abs_normal a" using p(2) by (auto simp: abs_normal_iff)
    then show ?case
      using Cons push [OF a(2,1)] canonicalize_no_links [OF nl] by (auto split: option.splits)
  qed simp
  then show ?thesis by (simp add: normalize_effective_absolute_path_def)
qed

text \<open>An entry that is not writable and lies strictly below a root is carved out of it.\<close>

lemma carveout_no_links:
  assumes "no_links env" and "abs_normal root" and "abs_normal p" and "path_starts_with p root" and "p \<noteq> root"
  shows "carveout_path env root raws p = Some p"
  using assms normal_components_eq [OF assms(3,2)]
  by (auto simp: carveout_path_def raw_carveout_path_def path_eq_def effective_no_links)

text \<open>The entry that decides about a path below it decides about its own place.\<close>

lemma decides_at_its_place:
  assumes kind: "fsp_kind policy = Restricted"
    and m: "m \<in> set (resolved_entries_with_cwd env policy cwd)" "abs_normal (res_path m)" "path_starts_with p (res_path m)"
    and max: "\<And>e. e \<in> set (resolved_entries_with_cwd env policy cwd) \<Longrightarrow> path_starts_with p (res_path e) \<Longrightarrow>
      resolved_entry_precedence e \<le> resolved_entry_precedence m"
  shows "resolve_access_with_cwd env policy (res_path m) cwd = res_access m"
proof -
  let ?q = "res_path m"
  have "resolve_candidate_path env ?q cwd = Some ?q"
    using m(2) by (simp add: resolve_candidate_path_def to_absolute_absolute normalize_normal abs_normal_absolute)
  moreover have "path_starts_with ?q ?q" by (simp add: path_starts_with_def starts_with_iff_prefix)
  ultimately obtain m' where m': "m' \<in> set (resolved_entries_with_cwd env policy cwd)" "path_starts_with ?q (res_path m')"
    "resolve_access_with_cwd env policy ?q cwd = res_access m'" "resolved_entry_precedence m \<le> resolved_entry_precedence m'"
    using deciding_entry [OF kind _ m(1)] m(1) by metis
  have "path_starts_with p (res_path m')"
    using m(3) m'(2) by (auto simp: path_starts_with_def starts_with_iff_prefix intro: prefix_order.trans)
  from max [OF m'(1) this] m'(4) have "resolved_entry_precedence m' = resolved_entry_precedence m" by (rule antisym)
  then show ?thesis using m'(3) by (simp add: resolved_entry_precedence_def)
qed

text \<open>Two places above one path: the shallower is above the deeper.\<close>

lemma nested_places:
  "path_starts_with p a \<Longrightarrow> path_starts_with p b \<Longrightarrow> length (components a) \<le> length (components b) \<Longrightarrow> path_starts_with b a"
  using prefix_length_prefix [of "components a" "components p" "components b"]
  by (simp add: path_starts_with_def starts_with_iff_prefix)

lemma carved_out:
  assumes "e \<in> set (resolved_entries_with_cwd env policy cwd)" "\<not> can_write (res_access e)"
    "\<not> can_write_path_with_cwd env policy (res_path e) cwd"
    and "\<And>raws. carveout_path env root raws (res_path e) = Some q"
  shows "\<exists>s\<in>set (wr_read_only_subpaths (writable_root_of env policy cwd ws root)). components s = components q"
  unfolding writable_root_of_def Let_def writable_root.select_convs
  by (rule dedup_paths_covers) (use assms in \<open>auto simp: in_map_filter\<close>)

text \<open>
  C2 (safety): a sandbox that is given the writable roots lets no more be written than the policy. On a
  machine without symbolic links, a path that one of the roots lets through (below the root, below none of
  its read-only subpaths, not in a protected directory) has write access by the entries of the policy,
  and if it lies in a metadata directory of that root, the policy lets this directory be written.
\<close>

theorem writable_root_within_policy:
  assumes env: "wf_machine env" "no_links env" and wf: "\<forall>entry\<in>set (fsp_entries policy). wf_entry_path (entry_path entry)"
    and r: "r \<in> set (get_writable_roots_with_cwd env policy cwd)" and p: "abs_normal p" and writable: "is_path_writable r p"
  shows "resolve_access_with_cwd env policy p cwd = Access_Write \<and>
    (\<forall>n rest. path_strip_prefix p (wr_root r) = Some (Normal n # rest) \<and> n \<in> set PROTECTED_METADATA_PATH_NAMES \<longrightarrow>
       can_write_path_with_cwd env policy (join_abs env (wr_root r) n) cwd)"
proof -
  let ?ws = "writable_paths env policy cwd" and ?es = "resolved_entries_with_cwd env policy cwd"
  have normal: "abs_normal (res_path e)" if "e \<in> set ?es" for e using resolved_normal [OF env(1) wf that] .
  then have ws: "abs_normal w" if "w \<in> set ?ws" for w using that by (auto simp: writable_paths_def)
  obtain root where "root \<in> set (dedup_absolute_paths env ?ws True)" and r': "r = writable_root_of env policy cwd ?ws root"
    and kind: "fsp_kind policy = Restricted"
    using r by (auto simp: in_writable_roots has_full_disk_write_access_def split: file_system_sandbox_kind.splits)
  then have "root \<in> set ?ws" using dedup_paths_sub(2) effective_no_links [OF env(2)] ws by fastforce
  then obtain w where w: "w \<in> set ?es" "res_path w = root" "can_write_path_with_cwd env policy root cwd"
    by (auto simp: writable_paths_def)
  have root: "abs_normal root" "path_starts_with p root" "wr_root r = root"
    using normal w writable by (auto simp: is_path_writable_def r' wr_root_of)
  have cand: "resolve_candidate_path env p cwd = Some p"
    using p by (simp add: resolve_candidate_path_def to_absolute_absolute normalize_normal abs_normal_absolute)
  obtain m where m: "m \<in> set ?es" "path_starts_with p (res_path m)" "resolve_access_with_cwd env policy p cwd = res_access m"
    and max: "\<And>e. e \<in> set ?es \<Longrightarrow> path_starts_with p (res_path e) \<Longrightarrow> resolved_entry_precedence e \<le> resolved_entry_precedence m"
    using deciding_entry [OF kind cand w(1)] root(2) w(2) by metis
  note here = decides_at_its_place [OF kind m(1) normal [OF m(1)] m(2) max]
  have access: "resolve_access_with_cwd env policy p cwd = Access_Write"
  proof (rule ccontr)
    assume "resolve_access_with_cwd env policy p cwd \<noteq> Access_Write"
    then have no: "\<not> can_write (res_access m)" "\<not> can_write_path_with_cwd env policy (res_path m) cwd"
      using m(3) here by (auto simp: can_write_def can_write_path_with_cwd_def)
    have "path_starts_with (res_path m) root"
      using nested_places [OF root(2) m(2)] max [OF w(1)] w(2) root(2)
      by (auto simp: resolved_entry_precedence_def less_eq_prod_def)
    moreover have "res_path m \<noteq> root" using no(2) w(3) by auto
    ultimately obtain s where "s \<in> set (wr_read_only_subpaths r)" "components s = components (res_path m)"
      using carved_out [OF m(1) no, of root "res_path m" ?ws] carveout_no_links [OF env(2) root(1) normal [OF m(1)]] r'
      by blast
    then show False using writable m(2) by (auto simp: is_path_writable_def list_all_iff path_starts_with_def)
  qed
  have "can_write_path_with_cwd env policy (join_abs env (wr_root r) n) cwd"
    if n: "path_strip_prefix p (wr_root r) = Some (Normal n # rest) \<and> n \<in> set PROTECTED_METADATA_PATH_NAMES" for n rest
  proof (rule ccontr)
    assume no: "\<not> can_write_path_with_cwd env policy (join_abs env (wr_root r) n) cwd"
    have same: "q = root" if "q \<in> set ?ws" "path_eq (normalize_effective_absolute_path env q) root" for q
      using that ws [OF that(1)] effective_no_links [OF env(2) ws [OF that(1)]] normal_components_eq [of q root] root(1)
      by (simp add: path_eq_def)
    have "n \<in> set (wr_protected_metadata_names r)"
      using n no same unfolding root(3)
      by (auto simp: r' writable_root_of_def Let_def protected_metadata_names_for_writable_root_def list_all_iff)
    then show False using writable n by (simp add: is_path_writable_def path_contains_protected_metadata_name_def)
  qed
  with access show ?thesis by blast
qed

theorem writable_root_within_policy_witness:
  "resolve_access_with_cwd worktree_machine worktree_policy (lit ''/ws/src/x'') (lit ''/ws'') = Access_Write"
proof -
  let ?r = "\<lparr>wr_root = lit ''/ws'',
    wr_read_only_subpaths = [lit ''/repo/.git'', lit ''/ws/.git'', lit ''/ws/.codex'', lit ''/ws/sec''],
    wr_protected_metadata_names = [lit ''.git'', lit ''.agents'', lit ''.codex'']\<rparr>"
  have links: "no_links worktree_machine" by (simp add: no_links_def worktree_machine_def bare_machine_def)
  have r: "?r \<in> set (get_writable_roots_with_cwd worktree_machine worktree_policy (lit ''/ws''))"
    unfolding worktree_roots by simp
  have p: "abs_normal (lit ''/ws/src/x'')" by code_simp
  have "is_path_writable ?r (lit ''/ws/src/x'')" by code_simp
  from writable_root_within_policy [OF worktree_wf(1) links worktree_wf(2) r p this] show ?thesis by blast
qed

text \<open>
  The metadata directory of a writable entry below another is closed by the policy and by the root of the
  inner entry, but the root of the outer entry lets it through.
\<close>

lemma outer_root_opens_inner_metadata:
  "let policy = fsp_restricted [path_entry ''/ws'' Access_Write, path_entry ''/ws/sub'' Access_Write] in
   map (\<lambda>r. (wr_root r, is_path_writable r (lit ''/ws/sub/.git/config'')))
     (get_writable_roots_with_cwd bare_machine policy (lit ''/ws'')) = [(lit ''/ws'', True), (lit ''/ws/sub'', False)] \<and>
   \<not> can_write_path_with_cwd bare_machine policy (lit ''/ws/sub/.git/config'') (lit ''/ws'')"
  by code_simp

end
