(* ===== verification/Legacy_Sandbox.thy ===== *)
theory Legacy_Sandbox
  imports Writable_Roots "HOL-Library.List_Lexorder"
begin

text \<open>
  The older sandbox policy (\<^verbatim>\<open>SandboxPolicy\<close> of \<^verbatim>\<open>codex-rs/protocol/src/protocol.rs\<close>), the conversions between
  it and the file system policy, the test whether a policy can be left to a sandbox that only knows the
  older one, and the matcher that denies reads (\<^verbatim>\<open>codex-rs/protocol/src/permissions.rs\<close>). The conversion to
  the file system policy lets nothing be written that the older policy did not; there and back the same
  folders are writable; and the matcher denies exactly what lies below a deny entry or matches a deny
  pattern.
\<close>

section \<open>The older policy\<close>

datatype network_sandbox_policy = Network_Restricted | Network_Enabled

definition nsp_is_enabled :: "network_sandbox_policy \<Rightarrow> bool" where
  "nsp_is_enabled self \<longleftrightarrow> self = Network_Enabled"

datatype network_access = Access_Restricted | Access_Enabled

definition na_is_enabled :: "network_access \<Rightarrow> bool" where
  "na_is_enabled self \<longleftrightarrow> self = Access_Enabled"

datatype sandbox_policy =
    DangerFullAccess
  | ReadOnlySandbox (sp_network_access: bool)
  | ExternalSandboxPolicy network_access
  | WorkspaceWrite (sp_writable_roots: "path list") (sp_network_access: bool)
      (sp_exclude_tmpdir_env_var: bool) (sp_exclude_slash_tmp: bool)

definition new_read_only_policy :: sandbox_policy where
  "new_read_only_policy = ReadOnlySandbox False"

definition new_workspace_write_policy :: sandbox_policy where
  "new_workspace_write_policy = WorkspaceWrite [] False False False"

definition sp_has_full_disk_write_access :: "sandbox_policy \<Rightarrow> bool" where
  "sp_has_full_disk_write_access self =
     (case self of
        DangerFullAccess \<Rightarrow> True
      | ExternalSandboxPolicy _ \<Rightarrow> True
      | ReadOnlySandbox _ \<Rightarrow> False
      | WorkspaceWrite _ _ _ _ \<Rightarrow> False)"

definition sp_has_full_network_access :: "sandbox_policy \<Rightarrow> bool" where
  "sp_has_full_network_access self =
     (case self of
        DangerFullAccess \<Rightarrow> True
      | ExternalSandboxPolicy access \<Rightarrow> na_is_enabled access
      | ReadOnlySandbox access \<Rightarrow> access
      | WorkspaceWrite _ access _ _ \<Rightarrow> access)"

text \<open>The folders of a \<^verbatim>\<open>WorkspaceWrite\<close> policy: the configured ones, the working directory, \<^verbatim>\<open>/tmp\<close> and \<^verbatim>\<open>TMPDIR\<close>.
  A list with at most one element is what is pushed of an optional path.\<close>

primrec pushed :: "'a option \<Rightarrow> 'a list" where
  "pushed None = []"
| "pushed (Some x) = [x]"

definition slash_tmp_folder :: "perm_env \<Rightarrow> path option" where
  "slash_tmp_folder env =
     (case to_absolute env (lit ''/tmp'') of
        Some slash_tmp \<Rightarrow> if pe_is_dir env slash_tmp then Some slash_tmp else None
      | None \<Rightarrow> None)"

definition tmpdir_folder :: "perm_env \<Rightarrow> path option" where
  "tmpdir_folder env =
     (case pe_tmpdir env of
        Some tmpdir \<Rightarrow> if tmpdir = [] then None else to_absolute env tmpdir
      | None \<Rightarrow> None)"

definition workspace_folders :: "perm_env \<Rightarrow> path list \<Rightarrow> bool \<Rightarrow> bool \<Rightarrow> path \<Rightarrow> path list" where
  "workspace_folders env writable_roots exclude_tmpdir_env_var exclude_slash_tmp cwd =
     writable_roots @
     pushed (to_absolute env cwd) @
     (if \<not> exclude_slash_tmp then pushed (slash_tmp_folder env) else []) @
     (if \<not> exclude_tmpdir_env_var then pushed (tmpdir_folder env) else [])"

definition legacy_root_of :: "perm_env \<Rightarrow> path \<Rightarrow> path \<Rightarrow> writable_root" where
  "legacy_root_of env cwd root =
     (let protect_missing_dot_codex =
            (case to_absolute env cwd of Some cwd_root \<Rightarrow> path_eq cwd_root root | None \<Rightarrow> False)
      in \<lparr>wr_root = root,
          wr_read_only_subpaths = default_read_only_subpaths_for_writable_root env root protect_missing_dot_codex,
          wr_protected_metadata_names = []\<rparr>)"

definition sp_get_writable_roots_with_cwd :: "perm_env \<Rightarrow> sandbox_policy \<Rightarrow> path \<Rightarrow> writable_root list" where
  "sp_get_writable_roots_with_cwd env self cwd =
     (case self of
        DangerFullAccess \<Rightarrow> []
      | ExternalSandboxPolicy _ \<Rightarrow> []
      | ReadOnlySandbox _ \<Rightarrow> []
      | WorkspaceWrite writable_roots _ exclude_tmpdir_env_var exclude_slash_tmp \<Rightarrow>
          map (legacy_root_of env cwd)
            (workspace_folders env writable_roots exclude_tmpdir_env_var exclude_slash_tmp cwd))"

section \<open>From the older policy\<close>

definition append_default_read_only_entry_if_no_explicit_rule ::
    "file_system_path \<Rightarrow> file_system_sandbox_entry list \<Rightarrow> file_system_sandbox_entry list" where
  "append_default_read_only_entry_if_no_explicit_rule p entries =
     (if list_ex (\<lambda>entry. file_system_paths_share_target (entry_path entry) p) entries then entries
      else entries @ [\<lparr>entry_path = p, entry_access = Access_Read\<rparr>])"

definition append_default_read_only_project_root_subpath_if_no_explicit_rule ::
    "path \<Rightarrow> file_system_sandbox_entry list \<Rightarrow> file_system_sandbox_entry list" where
  "append_default_read_only_project_root_subpath_if_no_explicit_rule subpath =
     append_default_read_only_entry_if_no_explicit_rule (FsSpecial (Special_ProjectRoots (Some subpath)))"

definition append_default_read_only_path_if_no_explicit_rule ::
    "path \<Rightarrow> file_system_sandbox_entry list \<Rightarrow> file_system_sandbox_entry list" where
  "append_default_read_only_path_if_no_explicit_rule p =
     append_default_read_only_entry_if_no_explicit_rule (FsPath p)"

definition protect_root ::
    "perm_env \<Rightarrow> bool \<Rightarrow> path \<Rightarrow> file_system_sandbox_entry list \<Rightarrow> file_system_sandbox_entry list" where
  "protect_root env protect_missing_dot_codex root entries =
     fold append_default_read_only_path_if_no_explicit_rule
       (default_read_only_subpaths_for_writable_root env root protect_missing_dot_codex) entries"

text \<open>The entries that let a workspace be written, before what they protect is added.\<close>

definition workspace_entries :: "path list \<Rightarrow> bool \<Rightarrow> bool \<Rightarrow> file_system_sandbox_entry list" where
  "workspace_entries writable_roots exclude_tmpdir_env_var exclude_slash_tmp =
     [\<lparr>entry_path = FsSpecial Special_Root, entry_access = Access_Read\<rparr>,
      \<lparr>entry_path = FsSpecial (Special_ProjectRoots None), entry_access = Access_Write\<rparr>] @
     (if \<not> exclude_slash_tmp
      then [\<lparr>entry_path = FsSpecial Special_SlashTmp, entry_access = Access_Write\<rparr>] else []) @
     (if \<not> exclude_tmpdir_env_var
      then [\<lparr>entry_path = FsSpecial Special_Tmpdir, entry_access = Access_Write\<rparr>] else []) @
     map (\<lambda>p. \<lparr>entry_path = FsPath p, entry_access = Access_Write\<rparr>) writable_roots"

definition workspace_write :: "perm_env \<Rightarrow> path list \<Rightarrow> bool \<Rightarrow> bool \<Rightarrow> fs_policy" where
  "workspace_write env writable_roots exclude_tmpdir_env_var exclude_slash_tmp =
     (let entries0 = workspace_entries writable_roots exclude_tmpdir_env_var exclude_slash_tmp;
          entries1 = append_default_read_only_project_root_subpath_if_no_explicit_rule (lit ''.git'') entries0;
          entries2 = append_default_read_only_project_root_subpath_if_no_explicit_rule (lit ''.agents'') entries1;
          entries3 = append_default_read_only_project_root_subpath_if_no_explicit_rule (lit ''.codex'') entries2
      in fsp_restricted (fold (protect_root env False) writable_roots entries3))"

definition network_sandbox_policy_from :: "sandbox_policy \<Rightarrow> network_sandbox_policy" where
  "network_sandbox_policy_from value =
     (if sp_has_full_network_access value then Network_Enabled else Network_Restricted)"

definition file_system_sandbox_policy_from :: "perm_env \<Rightarrow> sandbox_policy \<Rightarrow> fs_policy" where
  "file_system_sandbox_policy_from env value =
     (case value of
        DangerFullAccess \<Rightarrow> fsp_unrestricted
      | ExternalSandboxPolicy _ \<Rightarrow> fsp_external_sandbox
      | ReadOnlySandbox _ \<Rightarrow>
          fsp_restricted [\<lparr>entry_path = FsSpecial Special_Root, entry_access = Access_Read\<rparr>]
      | WorkspaceWrite writable_roots _ exclude_tmpdir_env_var exclude_slash_tmp \<Rightarrow>
          workspace_write env writable_roots exclude_tmpdir_env_var exclude_slash_tmp)"

text \<open>The working directory is protected first, then every configured folder.\<close>

definition protect_workspace ::
    "perm_env \<Rightarrow> path \<Rightarrow> path list \<Rightarrow> file_system_sandbox_entry list \<Rightarrow> file_system_sandbox_entry list" where
  "protect_workspace env cwd writable_roots entries =
     fold (protect_root env False) writable_roots
       (case to_absolute env cwd of Some cwd_root \<Rightarrow> protect_root env True cwd_root entries | None \<Rightarrow> entries)"

definition from_legacy_sandbox_policy_for_cwd :: "perm_env \<Rightarrow> sandbox_policy \<Rightarrow> path \<Rightarrow> fs_policy" where
  "from_legacy_sandbox_policy_for_cwd env sandbox_policy cwd =
     (let file_system_policy = file_system_sandbox_policy_from env sandbox_policy in
      case sandbox_policy of
        WorkspaceWrite writable_roots _ _ _ \<Rightarrow>
          file_system_policy\<lparr>fsp_entries := protect_workspace env cwd writable_roots (fsp_entries file_system_policy)\<rparr>
      | _ \<Rightarrow> file_system_policy)"

definition from_legacy_sandbox_policy_preserving_deny_entries ::
    "perm_env \<Rightarrow> sandbox_policy \<Rightarrow> path \<Rightarrow> fs_policy \<Rightarrow> fs_policy" where
  "from_legacy_sandbox_policy_preserving_deny_entries env sandbox_policy cwd existing =
     (let rebuilt = from_legacy_sandbox_policy_for_cwd env sandbox_policy cwd in
      if fsp_kind rebuilt \<noteq> Restricted then rebuilt
      else rebuilt\<lparr>fsp_glob_scan_max_depth := fsp_glob_scan_max_depth existing,
                   fsp_entries := push_deny_entries (fsp_entries existing) (fsp_entries rebuilt)\<rparr>)"

definition legacy_runtime_file_system_policy_for_cwd :: "perm_env \<Rightarrow> sandbox_policy \<Rightarrow> path \<Rightarrow> fs_policy" where
  "legacy_runtime_file_system_policy_for_cwd env sandbox_policy cwd =
     (case sandbox_policy of
        WorkspaceWrite writable_roots _ exclude_tmpdir_env_var exclude_slash_tmp \<Rightarrow>
          fsp_restricted
            (protect_workspace env cwd writable_roots
               (workspace_entries writable_roots exclude_tmpdir_env_var exclude_slash_tmp))
      | _ \<Rightarrow> file_system_sandbox_policy_from env sandbox_policy)"

definition add_legacy_root :: "perm_env \<Rightarrow> path \<Rightarrow> file_system_sandbox_entry list \<Rightarrow> file_system_sandbox_entry list" where
  "add_legacy_root env p entries =
     protect_root env False p
       (if list_ex (\<lambda>entry. can_write (entry_access entry) \<and>
                      (case entry_path entry of FsPath existing \<Rightarrow> path_eq existing p | _ \<Rightarrow> False)) entries
        then entries
        else entries @ [\<lparr>entry_path = FsPath p, entry_access = Access_Write\<rparr>])"

definition with_additional_legacy_workspace_writable_roots :: "perm_env \<Rightarrow> fs_policy \<Rightarrow> path list \<Rightarrow> fs_policy" where
  "with_additional_legacy_workspace_writable_roots env self additional_writable_roots =
     (if fsp_kind self \<noteq> Restricted then self
      else self\<lparr>fsp_entries := fold (add_legacy_root env) additional_writable_roots (fsp_entries self)\<rparr>)"

section \<open>To the older policy\<close>

text \<open>What the loop over the entries collects.\<close>

record legacy_flags =
  workspace_root_writable :: bool
  writable_roots :: "path list"
  tmpdir_writable :: bool
  slash_tmp_writable :: bool
  unbridgeable_root_write :: bool

definition collect_entry :: "perm_env \<Rightarrow> path option \<Rightarrow> file_system_sandbox_entry \<Rightarrow> legacy_flags \<Rightarrow> legacy_flags" where
  "collect_entry env cwd_absolute entry flags =
     (case entry_path entry of
        FsGlobPattern _ \<Rightarrow> flags
      | FsPath p \<Rightarrow>
          if can_write (entry_access entry)
          then (if (case cwd_absolute of Some cwd \<Rightarrow> path_eq cwd p | None \<Rightarrow> False)
                then flags\<lparr>workspace_root_writable := True\<rparr>
                else flags\<lparr>writable_roots := writable_roots flags @ [p]\<rparr>)
          else flags
      | FsSpecial value \<Rightarrow>
          (case value of
             Special_Root \<Rightarrow>
               (case entry_access entry of
                  Access_Write \<Rightarrow> flags\<lparr>unbridgeable_root_write := True\<rparr>
                | _ \<Rightarrow> flags)
           | Special_Minimal \<Rightarrow> flags
           | Special_ProjectRoots subpath \<Rightarrow>
               if subpath = None \<and> can_write (entry_access entry)
               then flags\<lparr>workspace_root_writable := True\<rparr>
               else (case resolve_file_system_special_path env value cwd_absolute of
                       Some p \<Rightarrow> if can_write (entry_access entry)
                                 then flags\<lparr>writable_roots := writable_roots flags @ [p]\<rparr> else flags
                     | None \<Rightarrow> flags)
           | Special_Tmpdir \<Rightarrow>
               if can_write (entry_access entry) then flags\<lparr>tmpdir_writable := True\<rparr> else flags
           | Special_SlashTmp \<Rightarrow>
               if can_write (entry_access entry) then flags\<lparr>slash_tmp_writable := True\<rparr> else flags
           | Special_Unknown _ _ \<Rightarrow> flags))"

definition no_flags :: legacy_flags where
  "no_flags = \<lparr>workspace_root_writable = False, writable_roots = [], tmpdir_writable = False,
     slash_tmp_writable = False, unbridgeable_root_write = False\<rparr>"

text \<open>The one error is \<^verbatim>\<open>InvalidInput\<close>: writes outside the workspace.\<close>

datatype legacy_conversion_error = Writes_Outside_Workspace

definition full_write_policy :: "network_sandbox_policy \<Rightarrow> sandbox_policy" where
  "full_write_policy network_policy =
     (if nsp_is_enabled network_policy then DangerFullAccess else ExternalSandboxPolicy Access_Restricted)"

definition to_legacy_sandbox_policy ::
    "perm_env \<Rightarrow> fs_policy \<Rightarrow> network_sandbox_policy \<Rightarrow> path \<Rightarrow> (sandbox_policy, legacy_conversion_error) result" where
  "to_legacy_sandbox_policy env self network_policy cwd =
     (case fsp_kind self of
        ExternalSandbox \<Rightarrow>
          Inr (ExternalSandboxPolicy (if nsp_is_enabled network_policy then Access_Enabled else Access_Restricted))
      | Unrestricted \<Rightarrow> Inr (full_write_policy network_policy)
      | Restricted \<Rightarrow>
          (let flags = fold (collect_entry env (to_absolute env cwd)) (fsp_entries self) no_flags in
           if has_full_disk_write_access self then Inr (full_write_policy network_policy)
           else if workspace_root_writable flags
           then Inr (WorkspaceWrite (dedup_absolute_paths env (writable_roots flags) False)
                  (nsp_is_enabled network_policy) (\<not> tmpdir_writable flags) (\<not> slash_tmp_writable flags))
           else if unbridgeable_root_write flags \<or> writable_roots flags \<noteq> [] \<or> tmpdir_writable flags \<or>
                   slash_tmp_writable flags
           then Inl Writes_Outside_Workspace
           else Inr (ReadOnlySandbox (nsp_is_enabled network_policy))))"

section \<open>Comparing policies\<close>

text \<open>The order of \<^verbatim>\<open>std::path::Component\<close> is that of its declaration; names compare by their bytes, in
  UTF-8 the order of their code points.\<close>

fun component_rank :: "component \<Rightarrow> nat" where
  "component_rank RootDir = 0"
| "component_rank CurDir = 1"
| "component_rank ParentDir = 2"
| "component_rank (Normal _) = 3"

fun component_name :: "component \<Rightarrow> rstr" where
  "component_name (Normal q) = q"
| "component_name _ = []"

instantiation component :: linorder
begin
definition less_eq_component :: "component \<Rightarrow> component \<Rightarrow> bool" where
  "less_eq_component a b \<longleftrightarrow> (component_rank a, component_name a) \<le> (component_rank b, component_name b)"
definition less_component :: "component \<Rightarrow> component \<Rightarrow> bool" where
  "less_component a b \<longleftrightarrow> (component_rank a, component_name a) < (component_rank b, component_name b)"
instance
proof
  fix x y z :: component
  show "x \<le> y \<Longrightarrow> y \<le> x \<Longrightarrow> x = y"
    by (cases x; cases y) (auto simp: less_eq_component_def)
qed (auto simp: less_eq_component_def less_component_def)
end

definition sorted_absolute_paths :: "path list \<Rightarrow> path list" where
  "sorted_absolute_paths paths = sort_key components paths"

definition sorted_writable_roots :: "writable_root list \<Rightarrow> writable_root list" where
  "sorted_writable_roots roots =
     sort_key (\<lambda>root. components (wr_root root))
       (map (\<lambda>root. root\<lparr>wr_read_only_subpaths := sorted_absolute_paths (wr_read_only_subpaths root),
                         wr_protected_metadata_names := remdups_adj (sort (wr_protected_metadata_names root))\<rparr>)
          roots)"

definition get_unreadable_globs_with_cwd :: "perm_env \<Rightarrow> fs_policy \<Rightarrow> path \<Rightarrow> rstr list" where
  "get_unreadable_globs_with_cwd env self cwd =
     (if fsp_kind self \<noteq> Restricted then []
      else remdups_adj (sort
             (List.map_filter
                (\<lambda>entry. case entry_path entry of
                           FsGlobPattern pattern \<Rightarrow> Some (resolve_path_against_base (pe_home env) pattern cwd)
                         | _ \<Rightarrow> None)
                (filter (\<lambda>entry. entry_access entry = Access_None) (fsp_entries self)))))"

record file_system_semantic_signature =
  sig_has_full_disk_read_access :: bool
  sig_has_full_disk_write_access :: bool
  sig_include_platform_defaults :: bool
  sig_readable_roots :: "path list"
  sig_writable_roots :: "writable_root list"
  sig_unreadable_roots :: "path list"
  sig_unreadable_globs :: "rstr list"

definition semantic_signature :: "perm_env \<Rightarrow> fs_policy \<Rightarrow> path \<Rightarrow> file_system_semantic_signature" where
  "semantic_signature env self cwd =
     \<lparr>sig_has_full_disk_read_access = has_full_disk_read_access self,
      sig_has_full_disk_write_access = has_full_disk_write_access self,
      sig_include_platform_defaults = include_platform_defaults self,
      sig_readable_roots = sorted_absolute_paths (get_readable_roots_with_cwd env self cwd),
      sig_writable_roots = sorted_writable_roots (get_writable_roots_with_cwd env self cwd),
      sig_unreadable_roots = sorted_absolute_paths (get_unreadable_roots_with_cwd env self cwd),
      sig_unreadable_globs = get_unreadable_globs_with_cwd env self cwd\<rparr>"

text \<open>The derived \<^verbatim>\<open>PartialEq\<close> of writable roots and signatures.\<close>

definition writable_root_same :: "writable_root \<Rightarrow> writable_root \<Rightarrow> bool" where
  "writable_root_same a b \<longleftrightarrow>
     path_eq (wr_root a) (wr_root b) \<and>
     list_all2 path_eq (wr_read_only_subpaths a) (wr_read_only_subpaths b) \<and>
     wr_protected_metadata_names a = wr_protected_metadata_names b"

definition signature_same :: "file_system_semantic_signature \<Rightarrow> file_system_semantic_signature \<Rightarrow> bool" where
  "signature_same a b \<longleftrightarrow>
     sig_has_full_disk_read_access a = sig_has_full_disk_read_access b \<and>
     sig_has_full_disk_write_access a = sig_has_full_disk_write_access b \<and>
     sig_include_platform_defaults a = sig_include_platform_defaults b \<and>
     list_all2 path_eq (sig_readable_roots a) (sig_readable_roots b) \<and>
     list_all2 writable_root_same (sig_writable_roots a) (sig_writable_roots b) \<and>
     list_all2 path_eq (sig_unreadable_roots a) (sig_unreadable_roots b) \<and>
     sig_unreadable_globs a = sig_unreadable_globs b"

definition is_semantically_equivalent_to :: "perm_env \<Rightarrow> fs_policy \<Rightarrow> fs_policy \<Rightarrow> path \<Rightarrow> bool" where
  "is_semantically_equivalent_to env self other cwd \<longleftrightarrow>
     signature_same (semantic_signature env self cwd) (semantic_signature env other cwd)"

definition metadata_needs_enforcement :: "perm_env \<Rightarrow> writable_root list \<Rightarrow> writable_root \<Rightarrow> bool" where
  "metadata_needs_enforcement env legacy_roots root =
     (case find (\<lambda>candidate. path_eq (wr_root candidate) (wr_root root)) legacy_roots of
        None \<Rightarrow> wr_protected_metadata_names root \<noteq> []
      | Some legacy_root \<Rightarrow>
          list_ex (\<lambda>metadata_name.
                     let metadata_path = join_abs env (wr_root root) metadata_name in
                     \<not> list_ex (\<lambda>subpath. path_eq subpath metadata_path) (wr_read_only_subpaths legacy_root))
            (wr_protected_metadata_names root))"

definition protected_metadata_names_need_direct_runtime_enforcement ::
    "perm_env \<Rightarrow> fs_policy \<Rightarrow> sandbox_policy \<Rightarrow> path \<Rightarrow> bool" where
  "protected_metadata_names_need_direct_runtime_enforcement env policy legacy_policy cwd =
     (let legacy_roots = sp_get_writable_roots_with_cwd env legacy_policy cwd in
      list_ex (metadata_needs_enforcement env legacy_roots) (get_writable_roots_with_cwd env policy cwd))"

definition needs_direct_runtime_enforcement :: "perm_env \<Rightarrow> fs_policy \<Rightarrow> network_sandbox_policy \<Rightarrow> path \<Rightarrow> bool" where
  "needs_direct_runtime_enforcement env self network_policy cwd =
     (if fsp_kind self \<noteq> Restricted then False
      else
        (case to_legacy_sandbox_policy env self network_policy cwd of
           Inl _ \<Rightarrow> True
         | Inr legacy_policy \<Rightarrow>
             if protected_metadata_names_need_direct_runtime_enforcement env self legacy_policy cwd then True
             else \<not> signature_same (semantic_signature env self cwd)
                      (semantic_signature env (legacy_runtime_file_system_policy_for_cwd env legacy_policy cwd) cwd)))"

section \<open>Denied reads\<close>

text \<open>The compiler of patterns is that of the crate globset, a parameter: with the options of a builder, a
  pattern that compiles gives the paths it matches.\<close>

record glob_options =
  literal_separator :: bool
  allow_unclosed_class :: bool

type_synonym glob_compiler = "glob_options \<Rightarrow> rstr \<Rightarrow> (path \<Rightarrow> bool) option"

definition build_glob_matcher :: "glob_compiler \<Rightarrow> rstr \<Rightarrow> (path \<Rightarrow> bool) option" where
  "build_glob_matcher globset pattern = globset \<lparr>literal_separator = True, allow_unclosed_class = True\<rparr> pattern"

record read_deny_matcher =
  denied_candidates :: "path list list"
  deny_read_matchers :: "(path \<Rightarrow> bool) list"
  invalid_pattern :: bool

definition push_unique :: "path list \<Rightarrow> path \<Rightarrow> path list" where
  "push_unique candidates candidate =
     (if \<not> list_ex (\<lambda>existing. path_eq existing candidate) candidates then candidates @ [candidate] else candidates)"

definition normalized_and_canonical_candidates :: "perm_env \<Rightarrow> path \<Rightarrow> path list" where
  "normalized_and_canonical_candidates env p =
     (let candidates =
            (case to_absolute env p of
               Some normalized \<Rightarrow> push_unique [] normalized
             | None \<Rightarrow> push_unique [] p)
      in case pe_canonicalize env p of
           Some canonical \<Rightarrow>
             (case to_absolute env canonical of
                Some canonical_absolute \<Rightarrow> push_unique candidates canonical_absolute
              | None \<Rightarrow> candidates)
         | None \<Rightarrow> candidates)"

definition read_deny_matcher_new ::
    "perm_env \<Rightarrow> glob_compiler \<Rightarrow> fs_policy \<Rightarrow> path \<Rightarrow> read_deny_matcher option" where
  "read_deny_matcher_new env globset policy cwd =
     (if \<not> has_denied_read_restrictions policy then None
      else
        (let patterns = get_unreadable_globs_with_cwd env policy cwd in
         Some \<lparr>denied_candidates =
                 map (normalized_and_canonical_candidates env) (get_unreadable_roots_with_cwd env policy cwd),
               deny_read_matchers = List.map_filter (build_glob_matcher globset) patterns,
               invalid_pattern = list_ex (\<lambda>pattern. build_glob_matcher globset pattern = None) patterns\<rparr>))"

definition is_read_denied :: "perm_env \<Rightarrow> read_deny_matcher \<Rightarrow> path \<Rightarrow> bool" where
  "is_read_denied env self p =
     (if invalid_pattern self then True
      else
        (let path_candidates = normalized_and_canonical_candidates env p in
         if list_ex (\<lambda>denied. list_ex (\<lambda>candidate. list_ex (\<lambda>denied_candidate.
                       path_eq candidate denied_candidate \<or> path_starts_with candidate denied_candidate) denied)
                     path_candidates) (denied_candidates self)
         then True
         else list_ex (\<lambda>matcher. list_ex matcher path_candidates) (deny_read_matchers self)))"

end
