(* ===== verification/Permission_Profiles.thy ===== *)
theory Permission_Profiles
  imports Legacy_Sandbox
begin

text \<open>
  \<^verbatim>\<open>codex-rs/sandboxing/src/policy_transforms.rs\<close>: how permissions that a command asks for, or that the user
  grants, change the policy it runs under; and the permission profiles of
  \<^verbatim>\<open>codex-rs/protocol/src/models.rs\<close> with their conversions. A \<^verbatim>\<open>NonZeroUsize\<close> is a natural number that its
  constructor checks; \<open>None\<close> of a conversion is the \<^verbatim>\<open>unreachable!\<close> of the source.
\<close>

section \<open>Additional permissions\<close>

record file_system_permissions =
  perm_entries :: "file_system_sandbox_entry list"
  perm_glob_scan_max_depth :: "nat option"

record network_permissions =
  net_enabled :: "bool option"

record additional_permission_profile =
  add_network :: "network_permissions option"
  add_file_system :: "file_system_permissions option"

definition no_permissions :: file_system_permissions where
  "no_permissions = \<lparr>perm_entries = [], perm_glob_scan_max_depth = None\<rparr>"

definition file_system_permissions_is_empty :: "file_system_permissions \<Rightarrow> bool" where
  "file_system_permissions_is_empty self \<longleftrightarrow> perm_entries self = []"

definition network_permissions_is_empty :: "network_permissions \<Rightarrow> bool" where
  "network_permissions_is_empty self \<longleftrightarrow> net_enabled self = None"

definition additional_profile_is_empty :: "additional_permission_profile \<Rightarrow> bool" where
  "additional_profile_is_empty self \<longleftrightarrow> add_network self = None \<and> add_file_system self = None"

text \<open>\<^verbatim>\<open>Option::filter\<close> and \<^verbatim>\<open>NonZeroUsize::new\<close>.\<close>

definition option_filter :: "('a \<Rightarrow> bool) \<Rightarrow> 'a option \<Rightarrow> 'a option" where
  "option_filter P x = (case x of Some y \<Rightarrow> if P y then Some y else None | None \<Rightarrow> None)"

definition non_zero :: "nat \<Rightarrow> nat option" where
  "non_zero n = (if n = 0 then None else Some n)"

definition from_read_write_roots :: "path list option \<Rightarrow> path list option \<Rightarrow> file_system_permissions" where
  "from_read_write_roots read_roots write_roots =
     \<lparr>perm_entries =
        (case read_roots of
           Some ps \<Rightarrow> map (\<lambda>p. \<lparr>entry_path = FsPath p, entry_access = Access_Read\<rparr>) ps | None \<Rightarrow> []) @
        (case write_roots of
           Some ps \<Rightarrow> map (\<lambda>p. \<lparr>entry_path = FsPath p, entry_access = Access_Write\<rparr>) ps | None \<Rightarrow> []),
      perm_glob_scan_max_depth = None\<rparr>"

definition explicit_path_entries :: "file_system_permissions \<Rightarrow> (path \<times> file_system_access_mode) list" where
  "explicit_path_entries self =
     List.map_filter (\<lambda>entry. case entry_path entry of FsPath p \<Rightarrow> Some (p, entry_access entry) | _ \<Rightarrow> None)
       (perm_entries self)"

fun legacy_roots_loop ::
    "file_system_sandbox_entry list \<Rightarrow> path list \<Rightarrow> path list \<Rightarrow> (path list \<times> path list) option" where
  "legacy_roots_loop [] read_roots write_roots = Some (read_roots, write_roots)"
| "legacy_roots_loop (entry # entries) read_roots write_roots =
     (case entry_path entry of
        FsPath p \<Rightarrow>
          (case entry_access entry of
             Access_Read \<Rightarrow> legacy_roots_loop entries (read_roots @ [p]) write_roots
           | Access_Write \<Rightarrow> legacy_roots_loop entries read_roots (write_roots @ [p])
           | Access_None \<Rightarrow> None)
      | _ \<Rightarrow> None)"

definition legacy_read_write_roots :: "file_system_permissions \<Rightarrow> (path list option \<times> path list option) option" where
  "legacy_read_write_roots self =
     (if perm_glob_scan_max_depth self \<noteq> None then None
      else
        (case legacy_roots_loop (perm_entries self) [] [] of
           None \<Rightarrow> None
         | Some (read_roots, write_roots) \<Rightarrow>
             Some (if read_roots \<noteq> [] then Some read_roots else None,
                   if write_roots \<noteq> [] then Some write_roots else None)))"

text \<open>\<^verbatim>\<open>Vec::contains\<close> of entries, and a push of an entry that is not there yet.\<close>

definition entries_contain :: "file_system_sandbox_entry list \<Rightarrow> file_system_sandbox_entry \<Rightarrow> bool" where
  "entries_contain entries entry \<longleftrightarrow> list_ex (\<lambda>e. entry_same e entry) entries"

definition push_new :: "file_system_sandbox_entry list \<Rightarrow> file_system_sandbox_entry \<Rightarrow> file_system_sandbox_entry list" where
  "push_new entries entry = (if entries_contain entries entry then entries else entries @ [entry])"

definition normalize_entry :: "perm_env \<Rightarrow> file_system_sandbox_entry \<Rightarrow> file_system_sandbox_entry" where
  "normalize_entry env entry =
     (case entry_path entry of
        FsPath p \<Rightarrow>
          entry\<lparr>entry_path :=
            FsPath (case Option.bind (canonicalize_preserving_symlinks env p) (to_absolute env) of
                      Some q \<Rightarrow> q | None \<Rightarrow> p)\<rparr>
      | FsGlobPattern _ \<Rightarrow> entry
      | FsSpecial _ \<Rightarrow> entry)"

datatype permission_error = Glob_Grants_Access

fun normalize_entries_loop ::
    "perm_env \<Rightarrow> file_system_sandbox_entry list \<Rightarrow> file_system_sandbox_entry list \<Rightarrow>
     (file_system_sandbox_entry list, permission_error) result" where
  "normalize_entries_loop env entries [] = Inr entries"
| "normalize_entries_loop env entries (entry # rest) =
     (if (case entry_path entry of FsGlobPattern _ \<Rightarrow> True | _ \<Rightarrow> False) \<and> entry_access entry \<noteq> Access_None
      then Inl Glob_Grants_Access
      else normalize_entries_loop env (push_new entries (normalize_entry env entry)) rest)"

definition normalize_additional_permissions ::
    "perm_env \<Rightarrow> additional_permission_profile \<Rightarrow> (additional_permission_profile, permission_error) result" where
  "normalize_additional_permissions env additional_permissions =
     (let network = option_filter (\<lambda>network. \<not> network_permissions_is_empty network) (add_network additional_permissions) in
      case add_file_system additional_permissions of
        None \<Rightarrow> Inr \<lparr>add_network = network, add_file_system = None\<rparr>
      | Some file_system \<Rightarrow>
          (case normalize_entries_loop env [] (perm_entries file_system) of
             Inl e \<Rightarrow> Inl e
           | Inr entries \<Rightarrow>
               Inr \<lparr>add_network = network,
                    add_file_system =
                      option_filter (\<lambda>fs. \<not> file_system_permissions_is_empty fs)
                        (Some \<lparr>perm_entries = entries, perm_glob_scan_max_depth = perm_glob_scan_max_depth file_system\<rparr>)\<rparr>))"

section \<open>Depth of glob scans\<close>

datatype glob_scan_depth = Bounded nat | Unbounded

definition effective_glob_scan_depth :: "file_system_sandbox_entry list \<Rightarrow> nat option \<Rightarrow> glob_scan_depth option" where
  "effective_glob_scan_depth entries depth =
     (if list_ex (\<lambda>entry. entry_access entry = Access_None \<and>
                   (case entry_path entry of FsGlobPattern _ \<Rightarrow> True | _ \<Rightarrow> False)) entries
      then Some (case depth of Some d \<Rightarrow> Bounded d | None \<Rightarrow> Unbounded)
      else None)"

definition merge_glob_scan_max_depth ::
    "file_system_sandbox_entry list \<Rightarrow> nat option \<Rightarrow> file_system_sandbox_entry list \<Rightarrow> nat option \<Rightarrow> nat option" where
  "merge_glob_scan_max_depth left_entries left_depth right_entries right_depth =
     (case (effective_glob_scan_depth left_entries left_depth, effective_glob_scan_depth right_entries right_depth) of
        (Some Unbounded, _) \<Rightarrow> None
      | (_, Some Unbounded) \<Rightarrow> None
      | (Some (Bounded l), Some (Bounded r)) \<Rightarrow> Some (max l r)
      | (Some (Bounded d), None) \<Rightarrow> Some d
      | (None, Some (Bounded d)) \<Rightarrow> Some d
      | (None, None) \<Rightarrow> None)"

section \<open>Merging\<close>

definition merge_permission_entries ::
    "file_system_sandbox_entry list \<Rightarrow> file_system_sandbox_entry list \<Rightarrow> file_system_sandbox_entry list" where
  "merge_permission_entries base permissions = foldl push_new [] (base @ permissions)"

definition enables_network :: "network_permissions option \<Rightarrow> bool" where
  "enables_network n = (case n of Some p \<Rightarrow> net_enabled p = Some True | None \<Rightarrow> False)"

definition merge_permission_profiles ::
    "additional_permission_profile option \<Rightarrow> additional_permission_profile option \<Rightarrow> additional_permission_profile option" where
  "merge_permission_profiles base permissions =
     (case permissions of
        None \<Rightarrow> base
      | Some permissions \<Rightarrow>
          (case base of
             None \<Rightarrow> option_filter (\<lambda>p. \<not> additional_profile_is_empty p) (Some permissions)
           | Some base \<Rightarrow>
               (let network = (if enables_network (add_network base) \<or> enables_network (add_network permissions)
                               then Some \<lparr>net_enabled = Some True\<rparr> else None);
                    file_system =
                      (case (add_file_system base, add_file_system permissions) of
                         (Some b, Some p) \<Rightarrow>
                           option_filter (\<lambda>fs. \<not> file_system_permissions_is_empty fs)
                             (Some \<lparr>perm_entries = merge_permission_entries (perm_entries b) (perm_entries p),
                                    perm_glob_scan_max_depth =
                                      Option.bind
                                        (merge_glob_scan_max_depth (perm_entries b) (perm_glob_scan_max_depth b)
                                           (perm_entries p) (perm_glob_scan_max_depth p)) non_zero\<rparr>)
                       | (Some b, None) \<Rightarrow> Some b
                       | (None, Some p) \<Rightarrow> Some p
                       | (None, None) \<Rightarrow> None)
                in option_filter (\<lambda>p. \<not> additional_profile_is_empty p)
                     (Some \<lparr>add_network = network, add_file_system = file_system\<rparr>))))"

section \<open>Intersecting\<close>

definition access_covers :: "file_system_access_mode \<Rightarrow> file_system_access_mode \<Rightarrow> bool" where
  "access_covers requested granted =
     (case granted of
        Access_Read \<Rightarrow> can_read requested
      | Access_Write \<Rightarrow> can_write requested
      | Access_None \<Rightarrow> False)"

definition resolve_permission_path :: "perm_env \<Rightarrow> file_system_path \<Rightarrow> path \<Rightarrow> path option" where
  "resolve_permission_path env p cwd =
     (case p of
        FsPath q \<Rightarrow> Some q
      | FsGlobPattern _ \<Rightarrow> None
      | FsSpecial value \<Rightarrow>
          (case value of
             Special_Root \<Rightarrow> to_absolute env (last (path_ancestors cwd))
           | Special_ProjectRoots subpath \<Rightarrow>
               (case to_absolute env cwd of
                  None \<Rightarrow> None
                | Some c \<Rightarrow>
                    Some (case subpath of
                            Some s \<Rightarrow> resolve_path_against_base (pe_home env) s c
                          | None \<Rightarrow> c))
           | Special_Tmpdir \<Rightarrow>
               (case pe_tmpdir env of
                  None \<Rightarrow> None
                | Some tmpdir \<Rightarrow> if tmpdir = [] then None else to_absolute env tmpdir)
           | Special_SlashTmp \<Rightarrow> option_filter (pe_is_dir env) (to_absolute env (lit ''/tmp''))
           | Special_Minimal \<Rightarrow> None
           | Special_Unknown _ _ \<Rightarrow> None))"

definition materialize_cwd_dependent_entry ::
    "perm_env \<Rightarrow> path \<Rightarrow> file_system_sandbox_entry \<Rightarrow> file_system_sandbox_entry" where
  "materialize_cwd_dependent_entry env cwd entry =
     (case entry_path entry of
        FsSpecial (Special_ProjectRoots _) \<Rightarrow>
          (case resolve_permission_path env (entry_path entry) cwd of
             Some p \<Rightarrow> \<lparr>entry_path = FsPath p, entry_access = entry_access entry\<rparr>
           | None \<Rightarrow> entry)
      | FsGlobPattern pattern \<Rightarrow>
          \<lparr>entry_path = FsGlobPattern (resolve_path_against_base (pe_home env) pattern cwd), entry_access = entry_access entry\<rparr>
      | _ \<Rightarrow> entry)"

definition paths_overlap :: "path \<Rightarrow> path \<Rightarrow> bool" where
  "paths_overlap left right \<longleftrightarrow> path_starts_with left right \<or> path_starts_with right left"

definition is_glob_char :: "uchar \<Rightarrow> bool" where
  "is_glob_char c \<longleftrightarrow> c = 42 \<or> c = 63 \<or> c = 91 \<or> c = 93"

definition glob_static_prefix_path :: "perm_env \<Rightarrow> rstr \<Rightarrow> path \<Rightarrow> path option" where
  "glob_static_prefix_path env pattern cwd =
     (let resolved_pattern = resolve_path_against_base (pe_home env) pattern cwd;
          before = takeWhile (\<lambda>c. \<not> is_glob_char c) resolved_pattern
      in if list_ex is_glob_char resolved_pattern
         then (if before = [] then None
               else if last before = SLASH \<or> last before = 92 then to_absolute env before
               else Option.bind (path_parent before) (to_absolute env))
         else to_absolute env resolved_pattern)"

definition deny_entry_constrains_accepted_grant ::
    "perm_env \<Rightarrow> file_system_sandbox_entry \<Rightarrow> file_system_sandbox_entry list \<Rightarrow> path \<Rightarrow> bool" where
  "deny_entry_constrains_accepted_grant env deny_entry accepted_entries cwd \<longleftrightarrow>
     list_ex (\<lambda>entry.
                case resolve_permission_path env (entry_path entry) cwd of
                  None \<Rightarrow> False
                | Some grant_path \<Rightarrow>
                    (case (case entry_path deny_entry of
                             FsGlobPattern pattern \<Rightarrow> glob_static_prefix_path env pattern cwd
                           | p \<Rightarrow> resolve_permission_path env p cwd) of
                       None \<Rightarrow> False
                     | Some deny_path \<Rightarrow> paths_overlap deny_path grant_path))
       (filter (\<lambda>entry. can_read (entry_access entry)) accepted_entries)"

text \<open>The entries that are retained, and the output with those added that are not there yet.\<close>

definition retain_constraining_deny_entries ::
    "perm_env \<Rightarrow> file_system_sandbox_entry list \<Rightarrow> file_system_sandbox_entry list \<Rightarrow> path \<Rightarrow>
     file_system_sandbox_entry list \<Rightarrow> file_system_sandbox_entry list \<times> file_system_sandbox_entry list" where
  "retain_constraining_deny_entries env source_entries accepted_entries cwd output_entries =
     (let retained_entries =
            map (materialize_cwd_dependent_entry env cwd)
              (filter (\<lambda>entry. deny_entry_constrains_accepted_grant env entry accepted_entries cwd)
                 (filter (\<lambda>entry. entry_access entry = Access_None) source_entries))
      in (retained_entries, foldl push_new output_entries retained_entries))"

definition granted_file_system_entry_within_request ::
    "perm_env \<Rightarrow> file_system_permissions \<Rightarrow> fs_policy \<Rightarrow> read_deny_matcher option \<Rightarrow> file_system_sandbox_entry \<Rightarrow> path \<Rightarrow> bool" where
  "granted_file_system_entry_within_request env requested requested_policy requested_read_deny_matcher granted_entry cwd =
     (if \<not> can_read (entry_access granted_entry) then False
      else
        (case resolve_permission_path env (entry_path granted_entry) cwd of
           Some p \<Rightarrow>
             if (case requested_read_deny_matcher of Some matcher \<Rightarrow> is_read_denied env matcher p | None \<Rightarrow> False) then False
             else access_covers (resolve_access_with_cwd env requested_policy p cwd) (entry_access granted_entry)
         | None \<Rightarrow>
             list_ex (\<lambda>requested_entry.
                        access_covers (entry_access requested_entry) (entry_access granted_entry) \<and>
                        file_system_path_same (entry_path requested_entry) (entry_path granted_entry))
               (perm_entries requested)))"

definition accepted_entries ::
    "perm_env \<Rightarrow> glob_compiler \<Rightarrow> file_system_permissions \<Rightarrow> file_system_permissions \<Rightarrow> path \<Rightarrow> file_system_sandbox_entry list" where
  "accepted_entries env globset requested granted cwd =
     (let requested_policy = fsp_restricted (perm_entries requested);
          requested_read_deny_matcher = read_deny_matcher_new env globset requested_policy cwd
      in foldl push_new []
           (map (materialize_cwd_dependent_entry env cwd)
              (filter (\<lambda>entry. granted_file_system_entry_within_request env requested requested_policy
                                  requested_read_deny_matcher entry cwd) (perm_entries granted))))"

definition intersect_file_system_permissions ::
    "perm_env \<Rightarrow> glob_compiler \<Rightarrow> file_system_permissions \<Rightarrow> file_system_permissions \<Rightarrow> path \<Rightarrow> file_system_permissions" where
  "intersect_file_system_permissions env globset requested granted cwd =
     (let accepted = accepted_entries env globset requested granted cwd;
          (requested_retained, entries1) =
            retain_constraining_deny_entries env (perm_entries requested) accepted cwd accepted;
          (granted_retained, entries2) =
            retain_constraining_deny_entries env (perm_entries granted) accepted cwd entries1
      in \<lparr>perm_entries = entries2,
          perm_glob_scan_max_depth =
            Option.bind
              (merge_glob_scan_max_depth requested_retained (perm_glob_scan_max_depth requested)
                 granted_retained (perm_glob_scan_max_depth granted)) non_zero\<rparr>)"

definition intersect_permission_profiles ::
    "perm_env \<Rightarrow> glob_compiler \<Rightarrow> additional_permission_profile \<Rightarrow> additional_permission_profile \<Rightarrow> path \<Rightarrow>
     additional_permission_profile" where
  "intersect_permission_profiles env globset requested granted cwd =
     \<lparr>add_network =
        (if enables_network (add_network requested) \<and> enables_network (add_network granted)
         then Some \<lparr>net_enabled = Some True\<rparr> else None),
      add_file_system =
        option_filter (\<lambda>fs. \<not> file_system_permissions_is_empty fs)
          (map_option
             (\<lambda>requested_file_system.
                intersect_file_system_permissions env globset requested_file_system
                  (case add_file_system granted of Some fs \<Rightarrow> fs | None \<Rightarrow> no_permissions) cwd)
             (add_file_system requested))\<rparr>"

section \<open>Effective policies\<close>

definition merge_file_system_policy_with_additional_permissions :: "fs_policy \<Rightarrow> file_system_permissions \<Rightarrow> fs_policy" where
  "merge_file_system_policy_with_additional_permissions file_system_policy additional_permissions =
     (case fsp_kind file_system_policy of
        Restricted \<Rightarrow>
          file_system_policy\<lparr>
            fsp_entries := foldl push_new (fsp_entries file_system_policy) (perm_entries additional_permissions),
            fsp_glob_scan_max_depth :=
              merge_glob_scan_max_depth (fsp_entries file_system_policy) (fsp_glob_scan_max_depth file_system_policy)
                (perm_entries additional_permissions) (perm_glob_scan_max_depth additional_permissions)\<rparr>
      | _ \<Rightarrow> file_system_policy)"

definition effective_file_system_sandbox_policy :: "fs_policy \<Rightarrow> additional_permission_profile option \<Rightarrow> fs_policy" where
  "effective_file_system_sandbox_policy file_system_policy additional_permissions =
     (case additional_permissions of
        None \<Rightarrow> file_system_policy
      | Some additional_permissions \<Rightarrow>
          (case add_file_system additional_permissions of
             None \<Rightarrow> file_system_policy
           | Some file_system_permissions \<Rightarrow>
               if file_system_permissions_is_empty file_system_permissions then file_system_policy
               else merge_file_system_policy_with_additional_permissions file_system_policy file_system_permissions))"

definition merge_network_access :: "bool \<Rightarrow> additional_permission_profile \<Rightarrow> bool" where
  "merge_network_access base_network_access additional_permissions \<longleftrightarrow>
     base_network_access \<or>
     (case Option.bind (add_network additional_permissions) net_enabled of Some b \<Rightarrow> b | None \<Rightarrow> False)"

definition effective_network_sandbox_policy ::
    "network_sandbox_policy \<Rightarrow> additional_permission_profile option \<Rightarrow> network_sandbox_policy" where
  "effective_network_sandbox_policy network_policy additional_permissions =
     (if (case additional_permissions of
            Some permissions \<Rightarrow> merge_network_access (nsp_is_enabled network_policy) permissions
          | None \<Rightarrow> False) then Network_Enabled
      else if additional_permissions \<noteq> None then Network_Restricted
      else network_policy)"

definition should_require_platform_sandbox :: "fs_policy \<Rightarrow> network_sandbox_policy \<Rightarrow> bool \<Rightarrow> bool" where
  "should_require_platform_sandbox file_system_policy network_policy has_managed_network_requirements =
     (if has_managed_network_requirements then True
      else if \<not> nsp_is_enabled network_policy then fsp_kind file_system_policy \<noteq> ExternalSandbox
      else
        (case fsp_kind file_system_policy of
           Restricted \<Rightarrow> \<not> has_full_disk_write_access file_system_policy
         | _ \<Rightarrow> False))"

section \<open>Permission profiles\<close>

datatype sandbox_enforcement = Enforce_Managed | Enforce_Disabled | Enforce_External

datatype managed_file_system_permissions =
    Managed_Restricted "file_system_sandbox_entry list" "nat option"
  | Managed_Unrestricted

type_synonym profile = "(managed_file_system_permissions, network_sandbox_policy) permission_profile"

definition enforcement_from_legacy_sandbox_policy :: "sandbox_policy \<Rightarrow> sandbox_enforcement" where
  "enforcement_from_legacy_sandbox_policy sandbox_policy =
     (case sandbox_policy of
        DangerFullAccess \<Rightarrow> Enforce_Disabled
      | ExternalSandboxPolicy _ \<Rightarrow> Enforce_External
      | ReadOnlySandbox _ \<Rightarrow> Enforce_Managed
      | WorkspaceWrite _ _ _ _ \<Rightarrow> Enforce_Managed)"

definition managed_from_sandbox_policy :: "fs_policy \<Rightarrow> managed_file_system_permissions option" where
  "managed_from_sandbox_policy file_system_sandbox_policy =
     (case fsp_kind file_system_sandbox_policy of
        Restricted \<Rightarrow>
          Some (Managed_Restricted (fsp_entries file_system_sandbox_policy)
                  (Option.bind (fsp_glob_scan_max_depth file_system_sandbox_policy) non_zero))
      | Unrestricted \<Rightarrow> Some Managed_Unrestricted
      | ExternalSandbox \<Rightarrow> None)"

definition managed_to_sandbox_policy :: "managed_file_system_permissions \<Rightarrow> fs_policy" where
  "managed_to_sandbox_policy self =
     (case self of
        Managed_Restricted entries glob_scan_max_depth \<Rightarrow>
          \<lparr>fsp_kind = Restricted, fsp_glob_scan_max_depth = glob_scan_max_depth, fsp_entries = entries\<rparr>
      | Managed_Unrestricted \<Rightarrow> fsp_unrestricted)"

definition profile_default :: profile where
  "profile_default = ProfileManaged (Managed_Restricted [] None) Network_Restricted"

definition profile_read_only :: profile where
  "profile_read_only =
     ProfileManaged (Managed_Restricted [\<lparr>entry_path = FsSpecial Special_Root, entry_access = Access_Read\<rparr>] None)
       Network_Restricted"

definition profile_workspace_write_with ::
    "perm_env \<Rightarrow> path list \<Rightarrow> network_sandbox_policy \<Rightarrow> bool \<Rightarrow> bool \<Rightarrow> profile option" where
  "profile_workspace_write_with env roots network exclude_tmpdir_env_var exclude_slash_tmp =
     map_option (\<lambda>fs. ProfileManaged fs network)
       (managed_from_sandbox_policy (workspace_write env roots exclude_tmpdir_env_var exclude_slash_tmp))"

definition profile_workspace_write :: "perm_env \<Rightarrow> profile option" where
  "profile_workspace_write env = profile_workspace_write_with env [] Network_Restricted False False"

definition from_runtime_permissions_with_enforcement ::
    "sandbox_enforcement \<Rightarrow> fs_policy \<Rightarrow> network_sandbox_policy \<Rightarrow> profile option" where
  "from_runtime_permissions_with_enforcement enforcement file_system_sandbox_policy network_sandbox_policy =
     (case fsp_kind file_system_sandbox_policy of
        ExternalSandbox \<Rightarrow> Some (ProfileExternal network_sandbox_policy)
      | k \<Rightarrow>
          if k = Unrestricted \<and> enforcement = Enforce_Disabled then Some ProfileDisabled
          else map_option (\<lambda>fs. ProfileManaged fs network_sandbox_policy)
                 (managed_from_sandbox_policy file_system_sandbox_policy))"

definition from_runtime_permissions :: "fs_policy \<Rightarrow> network_sandbox_policy \<Rightarrow> profile option" where
  "from_runtime_permissions file_system_sandbox_policy network_sandbox_policy =
     (let enforcement =
        (case fsp_kind file_system_sandbox_policy of
           ExternalSandbox \<Rightarrow> Enforce_External
         | _ \<Rightarrow> Enforce_Managed)
      in from_runtime_permissions_with_enforcement enforcement file_system_sandbox_policy network_sandbox_policy)"

definition profile_from_legacy_sandbox_policy :: "perm_env \<Rightarrow> sandbox_policy \<Rightarrow> profile option" where
  "profile_from_legacy_sandbox_policy env sandbox_policy =
     from_runtime_permissions_with_enforcement (enforcement_from_legacy_sandbox_policy sandbox_policy)
       (file_system_sandbox_policy_from env sandbox_policy) (network_sandbox_policy_from sandbox_policy)"

definition profile_from_legacy_sandbox_policy_for_cwd :: "perm_env \<Rightarrow> sandbox_policy \<Rightarrow> path \<Rightarrow> profile option" where
  "profile_from_legacy_sandbox_policy_for_cwd env sandbox_policy cwd =
     from_runtime_permissions_with_enforcement (enforcement_from_legacy_sandbox_policy sandbox_policy)
       (from_legacy_sandbox_policy_for_cwd env sandbox_policy cwd) (network_sandbox_policy_from sandbox_policy)"

fun profile_enforcement :: "profile \<Rightarrow> sandbox_enforcement" where
  "profile_enforcement (ProfileManaged _ _) = Enforce_Managed"
| "profile_enforcement ProfileDisabled = Enforce_Disabled"
| "profile_enforcement (ProfileExternal _) = Enforce_External"

fun profile_file_system_sandbox_policy :: "profile \<Rightarrow> fs_policy" where
  "profile_file_system_sandbox_policy (ProfileManaged file_system _) = managed_to_sandbox_policy file_system"
| "profile_file_system_sandbox_policy ProfileDisabled = fsp_unrestricted"
| "profile_file_system_sandbox_policy (ProfileExternal _) = fsp_external_sandbox"

fun profile_network_sandbox_policy :: "profile \<Rightarrow> network_sandbox_policy" where
  "profile_network_sandbox_policy (ProfileManaged _ network) = network"
| "profile_network_sandbox_policy (ProfileExternal network) = network"
| "profile_network_sandbox_policy ProfileDisabled = Network_Enabled"

fun profile_to_legacy_sandbox_policy :: "perm_env \<Rightarrow> profile \<Rightarrow> path \<Rightarrow> (sandbox_policy, legacy_conversion_error) result" where
  "profile_to_legacy_sandbox_policy env (ProfileManaged file_system network) cwd =
     to_legacy_sandbox_policy env (managed_to_sandbox_policy file_system) network cwd"
| "profile_to_legacy_sandbox_policy env ProfileDisabled cwd = Inr DangerFullAccess"
| "profile_to_legacy_sandbox_policy env (ProfileExternal network) cwd =
     Inr (ExternalSandboxPolicy (if nsp_is_enabled network then Access_Enabled else Access_Restricted))"

definition to_runtime_permissions :: "profile \<Rightarrow> fs_policy \<times> network_sandbox_policy" where
  "to_runtime_permissions self = (profile_file_system_sandbox_policy self, profile_network_sandbox_policy self)"

definition network_permissions_from :: "network_sandbox_policy \<Rightarrow> network_permissions" where
  "network_permissions_from value = \<lparr>net_enabled = Some (nsp_is_enabled value)\<rparr>"

definition file_system_permissions_from :: "fs_policy \<Rightarrow> file_system_permissions" where
  "file_system_permissions_from value =
     \<lparr>perm_entries =
        (case fsp_kind value of
           Restricted \<Rightarrow> fsp_entries value
         | _ \<Rightarrow> [\<lparr>entry_path = FsSpecial Special_Root, entry_access = Access_Write\<rparr>]),
      perm_glob_scan_max_depth = Option.bind (fsp_glob_scan_max_depth value) non_zero\<rparr>"

definition policy_from_permissions :: "file_system_permissions \<Rightarrow> fs_policy" where
  "policy_from_permissions value =
     (fsp_restricted (perm_entries value))\<lparr>fsp_glob_scan_max_depth := perm_glob_scan_max_depth value\<rparr>"

definition profile_from_legacy_profile :: "additional_permission_profile \<Rightarrow> profile option" where
  "profile_from_legacy_profile value =
     from_runtime_permissions
       (case add_file_system value of None \<Rightarrow> fsp_restricted [] | Some fs \<Rightarrow> policy_from_permissions fs)
       (if (case Option.bind (add_network value) net_enabled of Some b \<Rightarrow> b | None \<Rightarrow> False)
        then Network_Enabled else Network_Restricted)"

definition effective_permission_profile :: "profile \<Rightarrow> additional_permission_profile option \<Rightarrow> profile option" where
  "effective_permission_profile permission_profile additional_permissions =
     (let (file_system_policy, network_policy) = to_runtime_permissions permission_profile
      in from_runtime_permissions_with_enforcement (profile_enforcement permission_profile)
           (effective_file_system_sandbox_policy file_system_policy additional_permissions)
           (effective_network_sandbox_policy network_policy additional_permissions))"

end
