(* ===== verification/Legacy_Sandbox_Correct.thy ===== *)
theory Legacy_Sandbox_Correct
  imports Legacy_Sandbox
begin

text \<open>
  Theorems about the conversions between the older sandbox policy and the file system policy, and about
  the matcher that denies reads.
\<close>

lemma set_pushed [simp]: "set (pushed x) = set_option x"
  by (cases x) auto

section \<open>Read-only entries that are appended\<close>

definition read_additions :: "file_system_sandbox_entry list \<Rightarrow> file_system_sandbox_entry list \<Rightarrow> bool" where
  "read_additions es es' \<longleftrightarrow> (\<exists>adds. es' = es @ adds \<and> (\<forall>e\<in>set adds. entry_access e = Access_Read))"

lemma read_additions_refl: "read_additions es es"
  by (simp add: read_additions_def)

lemma read_additions_trans: "read_additions a b \<Longrightarrow> read_additions b c \<Longrightarrow> read_additions a c"
  by (auto simp: read_additions_def)

lemma read_additions_sub: "read_additions a b \<Longrightarrow> set a \<subseteq> set b"
  by (auto simp: read_additions_def)

lemma read_additions_fold:
  "(\<And>x es. read_additions es (f x es)) \<Longrightarrow> read_additions es (fold f xs es)"
  by (induction xs arbitrary: es) (auto intro: read_additions_refl read_additions_trans)

lemma append_default_read_only: "read_additions es (append_default_read_only_entry_if_no_explicit_rule p es)"
  by (simp add: append_default_read_only_entry_if_no_explicit_rule_def read_additions_def)

lemma append_default_covers:
  "list_ex (\<lambda>e. file_system_paths_share_target (entry_path e) (FsPath p)) (append_default_read_only_path_if_no_explicit_rule p es)"
  by (simp add: append_default_read_only_path_if_no_explicit_rule_def append_default_read_only_entry_if_no_explicit_rule_def
      path_eq_def)

lemma protect_root_read_only: "read_additions es (protect_root env b root es)"
  unfolding protect_root_def append_default_read_only_path_if_no_explicit_rule_def
  by (intro read_additions_fold append_default_read_only)

lemma protect_workspace_read_only: "read_additions es (protect_workspace env cwd roots es)"
  unfolding protect_workspace_def
  by (rule read_additions_trans [OF _ read_additions_fold [OF protect_root_read_only]])
    (auto intro: read_additions_refl protect_root_read_only split: option.split)

lemma workspace_write_entries:
  "fsp_kind (workspace_write env roots t s) = Restricted \<and>
   read_additions (workspace_entries roots t s) (fsp_entries (workspace_write env roots t s))"
  unfolding workspace_write_def Let_def append_default_read_only_project_root_subpath_if_no_explicit_rule_def fsp_restricted_def
  by (simp, intro read_additions_trans [OF _ read_additions_fold [OF protect_root_read_only]]
      read_additions_trans [OF _ append_default_read_only] read_additions_refl)

lemma from_legacy_entries:
  "fsp_kind (from_legacy_sandbox_policy_for_cwd env (WorkspaceWrite roots net t s) cwd) = Restricted \<and>
   read_additions (workspace_entries roots t s)
     (fsp_entries (from_legacy_sandbox_policy_for_cwd env (WorkspaceWrite roots net t s) cwd))"
  using workspace_write_entries [of env roots t s]
  by (auto simp: from_legacy_sandbox_policy_for_cwd_def file_system_sandbox_policy_from_def Let_def
      intro: read_additions_trans [OF _ protect_workspace_read_only])

section \<open>There and back\<close>

lemma collect_read_entry: "entry_access e = Access_Read \<Longrightarrow> collect_entry env c e flags = flags"
  by (auto simp: collect_entry_def can_write_def split: file_system_path.splits file_system_special_path.splits option.splits)

lemma collect_read_entries: "\<forall>e\<in>set es. entry_access e = Access_Read \<Longrightarrow> fold (collect_entry env c) es flags = flags"
  by (induction es arbitrary: flags) (auto simp: collect_read_entry)

abbreviation at_cwd :: "path option \<Rightarrow> path \<Rightarrow> bool" where
  "at_cwd c p \<equiv> case c of Some cwd \<Rightarrow> path_eq cwd p | None \<Rightarrow> False"

lemma collect_roots:
  "fold (collect_entry env c) (map (\<lambda>p. \<lparr>entry_path = FsPath p, entry_access = Access_Write\<rparr>) roots) flags =
   flags\<lparr>workspace_root_writable := workspace_root_writable flags \<or> list_ex (at_cwd c) roots,
         writable_roots := writable_roots flags @ filter (\<lambda>p. \<not> at_cwd c p) roots\<rparr>"
  by (induction roots arbitrary: flags) (auto simp: collect_entry_def can_write_def)

lemma collect_workspace:
  "fold (collect_entry env c) (workspace_entries roots t s) no_flags =
   \<lparr>workspace_root_writable = True, writable_roots = filter (\<lambda>p. \<not> at_cwd c p) roots, tmpdir_writable = \<not> t,
    slash_tmp_writable = \<not> s, unbridgeable_root_write = False\<rparr>"
  by (simp add: workspace_entries_def collect_roots no_flags_def)
    (simp add: collect_entry_def can_write_def)

lemma to_legacy_from_legacy_workspace:
  "to_legacy_sandbox_policy env (from_legacy_sandbox_policy_for_cwd env (WorkspaceWrite roots net t s) cwd)
     network_policy cwd =
   Inr (WorkspaceWrite (dedup_absolute_paths env (filter (\<lambda>p. \<not> at_cwd (to_absolute env cwd) p) roots) False)
     (nsp_is_enabled network_policy) t s)"
proof -
  let ?p = "from_legacy_sandbox_policy_for_cwd env (WorkspaceWrite roots net t s) cwd"
  obtain adds where adds: "fsp_entries ?p = workspace_entries roots t s @ adds" "\<forall>e\<in>set adds. entry_access e = Access_Read"
    and kind: "fsp_kind ?p = Restricted"
    using from_legacy_entries unfolding read_additions_def by blast
  have "\<not> has_full_disk_write_access ?p"
    using adds by (auto simp: has_full_disk_write_access_def has_root_access_def kind list_ex_iff can_write_def workspace_entries_def)
  then show ?thesis
    by (simp add: to_legacy_sandbox_policy_def kind adds(1) collect_workspace collect_read_entries [OF adds(2)])
qed

lemma dedup_loop_distinct:
  "distinct (acc @ ps) \<Longrightarrow> list_all abs_normal (acc @ ps) \<Longrightarrow> dedup_loop acc ps = acc @ ps"
proof (induction ps arbitrary: acc)
  case (Cons p ps)
  then have "\<not> list_ex (path_eq p) acc"
    by (auto simp: list_ex_iff list_all_iff path_eq_def normal_components_eq)
  then show ?case using Cons.IH [of "acc @ [p]"] Cons.prems by simp
qed simp

lemma set_dedup_normal:
  assumes "list_all abs_normal ps"
  shows "set (dedup_absolute_paths env ps False) = set ps"
proof
  show "set (dedup_absolute_paths env ps False) \<subseteq> set ps" using dedup_paths_sub(1) by blast
  show "set ps \<subseteq> set (dedup_absolute_paths env ps False)"
  proof
    fix p assume p: "p \<in> set ps"
    then obtain s where s: "s \<in> set (dedup_absolute_paths env ps False)" "components s = components p"
      using dedup_paths_covers by blast
    then have "s = p" using assms p dedup_paths_sub(1) by (metis list_all_iff normal_components_eq)
    then show "p \<in> set (dedup_absolute_paths env ps False)" using s(1) by simp
  qed
qed

fun configured_roots :: "sandbox_policy \<Rightarrow> path list" where
  "configured_roots (WorkspaceWrite roots _ _ _) = roots"
| "configured_roots _ = []"

lemma set_workspace_folders:
  "set (workspace_folders env rs t s cwd) =
   set rs \<union> set_option (to_absolute env cwd) \<union> set (workspace_folders env [] t s cwd)"
  by (auto simp: workspace_folders_def)

lemma at_cwd_normal:
  "wf_machine env \<Longrightarrow> abs_normal p \<Longrightarrow> at_cwd (to_absolute env cwd) p \<longleftrightarrow> to_absolute env cwd = Some p"
  by (cases "to_absolute env cwd") (auto simp: path_eq_def normal_components_eq to_absolute_wf)

text \<open>
  C18 (roundtrip): an older policy that is converted to a file system policy and a network policy, and back,
  always converts, and still means the same: the writable folders with their read-only subpaths, full
  access to the disk and access to the network are those of the first policy. It is the same policy when
  its folders are distinct and the working directory is not among them.
\<close>

theorem legacy_policy_round_trip:
  assumes env: "wf_machine env" and roots: "list_all abs_normal (configured_roots sp)"
  shows "\<exists>sp'. to_legacy_sandbox_policy env (from_legacy_sandbox_policy_for_cwd env sp cwd)
                 (network_sandbox_policy_from sp) cwd = Inr sp' \<and>
           set (sp_get_writable_roots_with_cwd env sp' cwd) = set (sp_get_writable_roots_with_cwd env sp cwd) \<and>
           sp_has_full_disk_write_access sp' = sp_has_full_disk_write_access sp \<and>
           sp_has_full_network_access sp' = sp_has_full_network_access sp \<and>
           (distinct (configured_roots sp) \<and> to_absolute env cwd \<notin> Some ` set (configured_roots sp) \<longrightarrow> sp' = sp)"
proof (cases sp)
  case (WorkspaceWrite rs net t s)
  let ?rs = "filter (\<lambda>p. \<not> at_cwd (to_absolute env cwd) p) rs"
  have normal: "list_all abs_normal ?rs" and cwd: "\<forall>p\<in>set rs. at_cwd (to_absolute env cwd) p \<longleftrightarrow> to_absolute env cwd = Some p"
    using roots at_cwd_normal [OF env] by (auto simp: WorkspaceWrite list_all_iff)
  let ?sp = "WorkspaceWrite (dedup_absolute_paths env ?rs False) net t s"
  have "to_legacy_sandbox_policy env (from_legacy_sandbox_policy_for_cwd env sp cwd) (network_sandbox_policy_from sp) cwd = Inr ?sp"
    unfolding WorkspaceWrite to_legacy_from_legacy_workspace
    by (simp add: network_sandbox_policy_from_def nsp_is_enabled_def sp_has_full_network_access_def)
  moreover have "set (workspace_folders env (dedup_absolute_paths env ?rs False) t s cwd) = set (workspace_folders env rs t s cwd)"
  proof -
    define ds where "ds = dedup_absolute_paths env ?rs False"
    have "set ds = {p \<in> set rs. to_absolute env cwd \<noteq> Some p}" using cwd by (auto simp: ds_def set_dedup_normal [OF normal])
    then have "set ds \<union> set_option (to_absolute env cwd) = set rs \<union> set_option (to_absolute env cwd)" by auto
    then show ?thesis
      unfolding set_workspace_folders [of env ds] set_workspace_folders [of env rs] ds_def [symmetric] by blast
  qed
  then have "set (sp_get_writable_roots_with_cwd env ?sp cwd) = set (sp_get_writable_roots_with_cwd env sp cwd)"
    by (simp add: WorkspaceWrite sp_get_writable_roots_with_cwd_def)
  moreover have "?sp = sp" if "distinct (configured_roots sp)" "to_absolute env cwd \<notin> Some ` set (configured_roots sp)"
  proof -
    have "?rs = rs" using that(2) cwd by (auto simp: WorkspaceWrite filter_id_conv)
    then show ?thesis
      using that(1) roots dedup_loop_distinct [of "[]" rs] by (simp add: WorkspaceWrite dedup_absolute_paths_def)
  qed
  ultimately show ?thesis
    by (intro exI [of _ ?sp]) (simp add: WorkspaceWrite sp_has_full_disk_write_access_def sp_has_full_network_access_def)
next
  case (ExternalSandboxPolicy a)
  then show ?thesis
    by (cases a) (simp_all add: from_legacy_sandbox_policy_for_cwd_def file_system_sandbox_policy_from_def fsp_external_sandbox_def
        to_legacy_sandbox_policy_def network_sandbox_policy_from_def sp_has_full_network_access_def na_is_enabled_def nsp_is_enabled_def)
qed (simp_all add: from_legacy_sandbox_policy_for_cwd_def file_system_sandbox_policy_from_def fsp_unrestricted_def fsp_restricted_def
    to_legacy_sandbox_policy_def network_sandbox_policy_from_def sp_has_full_network_access_def full_write_policy_def nsp_is_enabled_def
    has_full_disk_write_access_def has_root_access_def collect_entry_def no_flags_def can_write_def)

theorem legacy_policy_round_trip_witness:
  "to_legacy_sandbox_policy bare_machine
     (from_legacy_sandbox_policy_for_cwd bare_machine (WorkspaceWrite [lit ''/data''] True False True) (lit ''/ws''))
     Network_Enabled (lit ''/ws'') = Inr (WorkspaceWrite [lit ''/data''] True False True)"
proof -
  let ?sp = "WorkspaceWrite [lit ''/data''] True False True"
  have env: "wf_machine bare_machine" by (simp add: wf_machine_def bare_machine_def)
  have roots: "list_all abs_normal (configured_roots ?sp)" by code_simp
  have cwd: "to_absolute bare_machine (lit ''/ws'') = Some (lit ''/ws'')" by code_simp
  have net: "network_sandbox_policy_from ?sp = Network_Enabled" by code_simp
  show ?thesis using legacy_policy_round_trip [OF env roots, of "lit ''/ws''"] unfolding net cwd by auto
qed

section \<open>The conversion does not widen\<close>

abbreviation covered :: "path \<Rightarrow> file_system_sandbox_entry list \<Rightarrow> bool" where
  "covered s es \<equiv> list_ex (\<lambda>e. file_system_paths_share_target (entry_path e) (FsPath s)) es"

lemma covered_additions: "read_additions es es' \<Longrightarrow> covered s es \<Longrightarrow> covered s es'"
  by (auto simp: read_additions_def)

lemma protect_root_covers:
  "s \<in> set (default_read_only_subpaths_for_writable_root env root b) \<Longrightarrow> covered s (protect_root env b root es)"
proof -
  have "covered s (fold append_default_read_only_path_if_no_explicit_rule ps es)" if "s \<in> set ps" for ps
    using that
  proof (induction ps arbitrary: es)
    case (Cons p ps)
    have "read_additions es' (fold append_default_read_only_path_if_no_explicit_rule ps es')" for es'
      unfolding append_default_read_only_path_if_no_explicit_rule_def
      by (intro read_additions_fold append_default_read_only)
    then show ?case
      using Cons covered_additions [OF _ append_default_covers, of p] by (cases "s = p") auto
  qed simp
  then show "s \<in> set (default_read_only_subpaths_for_writable_root env root b) \<Longrightarrow> covered s (protect_root env b root es)"
    by (simp add: protect_root_def)
qed

lemma protect_roots_cover:
  "c \<in> set roots \<Longrightarrow> s \<in> set (default_read_only_subpaths_for_writable_root env c False) \<Longrightarrow>
   covered s (fold (protect_root env False) roots es)"
proof (induction roots arbitrary: es)
  case (Cons r roots)
  then show ?case
    using covered_additions [OF read_additions_fold [OF protect_root_read_only] protect_root_covers]
    by (cases "c = r") auto
qed simp

lemma from_legacy_covers:
  assumes "to_absolute env cwd = Some c \<and> s \<in> set (default_read_only_subpaths_for_writable_root env c True) \<or>
           c \<in> set roots \<and> s \<in> set (default_read_only_subpaths_for_writable_root env c False)"
  shows "covered s (fsp_entries (from_legacy_sandbox_policy_for_cwd env (WorkspaceWrite roots net t x) cwd))"
proof -
  have later: "covered s (fold (protect_root env False) roots (protect_root env True c es))"
    if "s \<in> set (default_read_only_subpaths_for_writable_root env c True)" for es
    using covered_additions [OF read_additions_fold [OF protect_root_read_only] protect_root_covers [OF that]] .
  show ?thesis
    using assms later protect_roots_cover
    by (auto simp: from_legacy_sandbox_policy_for_cwd_def file_system_sandbox_policy_from_def protect_workspace_def Let_def)
qed

lemma covered_place:
  assumes "file_system_paths_share_target x (FsPath s)" and "abs_normal s" and "s \<noteq> [SLASH]" and "pe_is_dir env (lit ''/tmp'')"
  shows "\<exists>q. resolve_entry_path env x c = Some q \<and> components q = components s"
  using assms by (cases x) (auto simp: path_eq_def special_path_matches_absolute_path_def parent_None_root
      resolve_entry_path_def resolve_file_system_path_def resolve_file_system_special_path_def split: file_system_special_path.splits)

lemma tmp_normal: "abs_normal (lit ''/tmp'')"
  by code_simp

lemma slash_tmp_same: "resolve_file_system_special_path env Special_SlashTmp c = slash_tmp_folder env"
proof -
  have "to_absolute env (lit ''/tmp'') = Some (lit ''/tmp'')"
    using to_absolute_absolute [OF abs_normal_absolute [OF tmp_normal]] normalize_normal [OF tmp_normal] by simp
  then show ?thesis by (simp add: resolve_file_system_special_path_def slash_tmp_folder_def)
qed

lemma tmpdir_same: "resolve_file_system_special_path env Special_Tmpdir c = tmpdir_folder env"
  by (simp add: resolve_file_system_special_path_def tmpdir_folder_def)

lemmas temporary_folders = slash_tmp_same tmpdir_same

lemma write_entry_folder:
  assumes "e \<in> set (workspace_entries roots t x)" and "entry_access e = Access_Write"
    and "resolve_entry_path env (entry_path e) (to_absolute env cwd) = Some q"
  shows "q \<in> set (workspace_folders env roots t x cwd) \<and>
    (q \<in> set roots \<or> to_absolute env cwd = Some q \<or> slash_tmp_folder env = Some q \<or> tmpdir_folder env = Some q)"
proof -
  have "resolve_file_system_special_path env (Special_ProjectRoots None) c = c" for c
    by (simp add: resolve_file_system_special_path_def split: option.split)
  then show ?thesis
    using assms by (auto simp: workspace_entries_def workspace_folders_def resolve_entry_path_def resolve_file_system_path_def
        temporary_folders split: if_splits)
qed

lemma temporary_folder_normal:
  assumes "wf_machine env" and "slash_tmp_folder env = Some q \<or> tmpdir_folder env = Some q"
  shows "abs_normal q"
  using assms(2) to_absolute_wf [OF assms(1)]
  by (auto simp: slash_tmp_folder_def tmpdir_folder_def split: option.splits if_splits)

lemma default_subpaths_apart:
  assumes "abs_normal root" and "s \<in> set (default_read_only_subpaths_for_writable_root env root b)"
    and "\<forall>s. gitdir_of env root = Some s \<longrightarrow> \<not> path_starts_with root s"
  shows "abs_normal s \<and> \<not> path_starts_with root s"
proof -
  have "gitdir_of env root = Some s \<or> (\<exists>n\<in>set PROTECTED_METADATA_PATH_NAMES. s = join_abs env root n)"
    using default_subpath_cases [OF assms(2)] .
  then show ?thesis
    using default_subpaths [OF assms(1,2)] join_metadata_name [OF _ assms(1)] assms(3)
    by (auto simp: path_starts_with_def starts_with_iff_prefix)
qed

text \<open>
  C4 (refinement): the file system policy made of an older policy lets no path be written that the older
  policy keeps closed: a path that it lets be written lies in a writable folder of the older policy and in
  none of its read-only subpaths. This holds on a machine where \<^verbatim>\<open>/tmp\<close> is a directory, where no folder around the
  path has a \<^verbatim>\<open>.git\<close> file that points to a directory around that folder, and where a temporary folder around the path has
  no default read-only subpaths; the lemma \<open>conversion_forgets_tmp_pointer\<close> shows that the last condition is needed.
\<close>

theorem conversion_never_widens:
  assumes env: "wf_machine env" "pe_is_dir env (lit ''/tmp'')" and roots: "list_all abs_normal (configured_roots sp)"
    and git: "\<forall>c s. path_starts_with target c \<and> gitdir_of env c = Some s \<longrightarrow> \<not> path_starts_with c s"
    and tmp: "\<forall>c. (slash_tmp_folder env = Some c \<or> tmpdir_folder env = Some c) \<and> path_starts_with target c \<longrightarrow>
                default_read_only_subpaths_for_writable_root env c False = []"
    and target: "resolve_candidate_path env p cwd = Some target"
    and allowed: "can_write_path_with_cwd env (from_legacy_sandbox_policy_for_cwd env sp cwd) p cwd"
  shows "sp_has_full_disk_write_access sp \<or>
    (\<exists>r\<in>set (sp_get_writable_roots_with_cwd env sp cwd). is_path_writable r target)"
proof (cases sp)
  case (WorkspaceWrite rs net t x)
  let ?p = "from_legacy_sandbox_policy_for_cwd env sp cwd" and ?fs = "workspace_folders env rs t x cwd"
  let ?es = "resolved_entries_with_cwd env ?p cwd"
  obtain adds where adds: "fsp_entries ?p = workspace_entries rs t x @ adds" "\<forall>e\<in>set adds. entry_access e = Access_Read"
    and kind: "fsp_kind ?p = Restricted"
    using from_legacy_entries unfolding read_additions_def WorkspaceWrite by blast
  have access: "resolve_access_with_cwd env ?p p cwd = Access_Write"
    using allowed by (auto simp: can_write_path_with_cwd_def can_write_def split: if_splits)
  then have "filter (\<lambda>e. path_starts_with target (res_path e)) ?es \<noteq> []"
    using kind target by (auto simp: resolve_access_with_cwd_def max_by_key_None split: option.splits)
  then obtain e0 where "e0 \<in> set ?es" "path_starts_with target (res_path e0)" by (auto simp: filter_empty_conv)
  then obtain m where m: "m \<in> set ?es" "path_starts_with target (res_path m)" "res_access m = Access_Write"
    and max: "\<And>e. e \<in> set ?es \<Longrightarrow> path_starts_with target (res_path e) \<Longrightarrow> resolved_entry_precedence e \<le> resolved_entry_precedence m"
    using deciding_entry [OF kind target] access by metis
  let ?c = "res_path m"
  obtain e where "e \<in> set (workspace_entries rs t x)" "entry_access e = Access_Write"
    "resolve_entry_path env (entry_path e) (to_absolute env cwd) = Some ?c"
    using m(1,3) adds by (auto simp: in_resolved_entries)
  note folder = write_entry_folder [OF this]
  have c: "abs_normal ?c"
    using folder roots to_absolute_wf [OF env(1)] temporary_folder_normal [OF env(1)] by (auto simp: WorkspaceWrite list_all_iff)
  let ?b = "at_cwd (to_absolute env cwd) ?c"
  have closed: "\<not> path_starts_with target s" if s: "s \<in> set (default_read_only_subpaths_for_writable_root env ?c ?b)" for s
  proof
    assume below: "path_starts_with target s"
    have normal: "abs_normal s" and apart: "\<not> path_starts_with ?c s"
      using default_subpaths_apart [OF c s] git m(2) by auto
    have deeper: "length (components ?c) < length (components s)"
      using nested_places [OF below m(2)] apart by (meson not_le)
    have "covered s (fsp_entries ?p)"
      using folder s tmp m(2) from_legacy_covers [of env cwd ?c s rs net t x] at_cwd_normal [OF env(1) c, of cwd]
      by (cases ?b) (auto simp: WorkspaceWrite)
    then obtain entry where entry: "entry \<in> set (fsp_entries ?p)" "file_system_paths_share_target (entry_path entry) (FsPath s)"
      by (auto simp: list_ex_iff)
    have "s \<noteq> [SLASH]" using deeper components_normal [OF c] by (auto simp: components_root)
    from covered_place [OF entry(2) normal this env(2)] obtain q where q:
      "resolve_entry_path env (entry_path entry) (to_absolute env cwd) = Some q" "components q = components s" by blast
    then have "\<lparr>res_path = q, res_access = entry_access entry\<rparr> \<in> set ?es" using entry(1) by (auto simp: in_resolved_entries)
    from max [OF this] below q(2) deeper show False
      by (simp add: path_starts_with_def resolved_entry_precedence_def less_eq_prod_def)
  qed
  have "is_path_writable (legacy_root_of env cwd ?c) target"
    using m(2) closed by (auto simp: is_path_writable_def legacy_root_of_def list_all_iff path_contains_protected_metadata_name_def
        split: option.splits list.splits)
  then show ?thesis using folder by (auto simp: WorkspaceWrite sp_get_writable_roots_with_cwd_def)
next
  case (ReadOnlySandbox net)
  have "\<not> can_write (resolve_access_with_cwd env
      (fsp_restricted [\<lparr>entry_path = FsSpecial Special_Root, entry_access = Access_Read\<rparr>]) p cwd)"
    using target by (auto simp: resolve_access_with_cwd_def fsp_restricted_def resolved_entries_with_cwd_def List.map_filter_def
        can_write_def split: option.splits)
  then show ?thesis
    using allowed by (simp add: ReadOnlySandbox from_legacy_sandbox_policy_for_cwd_def file_system_sandbox_policy_from_def
        can_write_path_with_cwd_def)
qed (auto simp: sp_has_full_disk_write_access_def)

theorem conversion_never_widens_witness:
  "\<exists>r\<in>set (sp_get_writable_roots_with_cwd bare_machine (WorkspaceWrite [lit ''/data''] True False True) (lit ''/ws'')).
     is_path_writable r (lit ''/data/x'')"
proof -
  let ?sp = "WorkspaceWrite [lit ''/data''] True False True"
  have env: "wf_machine bare_machine" "pe_is_dir bare_machine (lit ''/tmp'')" by (simp_all add: wf_machine_def bare_machine_def)
  have roots: "list_all abs_normal (configured_roots ?sp)" by code_simp
  have git: "\<forall>c s. path_starts_with (lit ''/data/x'') c \<and> gitdir_of bare_machine c = Some s \<longrightarrow> \<not> path_starts_with c s"
    by (simp add: resolve_gitdir_from_file_def bare_machine_def)
  have tmp: "\<forall>c. (slash_tmp_folder bare_machine = Some c \<or> tmpdir_folder bare_machine = Some c) \<and>
      path_starts_with (lit ''/data/x'') c \<longrightarrow>
      default_read_only_subpaths_for_writable_root bare_machine c False = []"
  proof -
    have "slash_tmp_folder bare_machine = Some (lit ''/tmp'')" "tmpdir_folder bare_machine = None"
      "default_read_only_subpaths_for_writable_root bare_machine (lit ''/tmp'') False = []" by code_simp+
    then show ?thesis by (metis option.distinct(1) option.inject)
  qed
  have target: "resolve_candidate_path bare_machine (lit ''/data/x'') (lit ''/ws'') = Some (lit ''/data/x'')" by code_simp
  have "can_write_path_with_cwd bare_machine (from_legacy_sandbox_policy_for_cwd bare_machine ?sp (lit ''/ws'')) (lit ''/data/x'') (lit ''/ws'')"
    by code_simp
  from conversion_never_widens [OF env roots git tmp target this] show ?thesis
    by (simp add: sp_has_full_disk_write_access_def)
qed

text \<open>
  The older policy closes the directory that a \<^verbatim>\<open>.git\<close> file of a temporary folder points to; the conversion adds no
  entry for temporary folders, so the new policy lets it be written.
\<close>

definition tmp_pointer_machine :: perm_env where
  "tmp_pointer_machine = bare_machine
     \<lparr>pe_is_file := (\<lambda>p. p = lit ''/tmp/.git''), pe_exists := (\<lambda>p. p = lit ''/tmp/g''),
      pe_read_to_string := (\<lambda>p. if p = lit ''/tmp/.git'' then Some (lit ''gitdir: /tmp/g'') else None)\<rparr>"

lemma tmp_pointer_gitdir: "gitdir_of tmp_pointer_machine (lit ''/tmp'') = Some (lit ''/tmp/g'')"
proof -
  have j: "join_abs tmp_pointer_machine (lit ''/tmp'') (lit ''.git'') = lit ''/tmp/.git''"
    "path_parent (lit ''/tmp/.git'') = Some (lit ''/tmp'')"
    "resolve_path_against_base None (lit ''/tmp/g'') (lit ''/tmp'') = lit ''/tmp/g''" by code_simp+
  show ?thesis unfolding j(1) resolve_gitdir_from_file_def
    using j(2,3) by (simp add: tmp_pointer_machine_def bare_machine_def trim_def trim_start_def trim_end_def is_whitespace_def)
qed

lemma tmp_pointer_default:
  "default_read_only_subpaths_for_writable_root tmp_pointer_machine (lit ''/tmp'') False = [lit ''/tmp/g'', lit ''/tmp/.git'']"
proof -
  have j: "join_abs tmp_pointer_machine (lit ''/tmp'') (lit ''.git'') = lit ''/tmp/.git''"
    "pe_is_file tmp_pointer_machine (lit ''/tmp/.git'')" "is_git_pointer_file tmp_pointer_machine (lit ''/tmp/.git'')"
    "\<not> pe_is_dir tmp_pointer_machine (join_abs tmp_pointer_machine (lit ''/tmp'') (lit ''.agents''))"
    "\<not> pe_is_dir tmp_pointer_machine (join_abs tmp_pointer_machine (lit ''/tmp'') (lit ''.codex''))"
    "dedup_absolute_paths tmp_pointer_machine [lit ''/tmp/g'', lit ''/tmp/.git''] False = [lit ''/tmp/g'', lit ''/tmp/.git'']"
    by code_simp+
  show ?thesis
    unfolding default_read_only_subpaths_for_writable_root_def Let_def j(1) tmp_pointer_gitdir [unfolded j(1)]
    using j(2-) by simp
qed

lemma conversion_forgets_tmp_pointer:
  "can_write_path_with_cwd tmp_pointer_machine
     (from_legacy_sandbox_policy_for_cwd tmp_pointer_machine (WorkspaceWrite [] False False False) (lit ''/ws''))
     (lit ''/tmp/g/x'') (lit ''/ws'') \<and>
   \<not> (\<exists>r\<in>set (sp_get_writable_roots_with_cwd tmp_pointer_machine (WorkspaceWrite [] False False False) (lit ''/ws'')).
        is_path_writable r (lit ''/tmp/g/x''))"
proof
  show "can_write_path_with_cwd tmp_pointer_machine
     (from_legacy_sandbox_policy_for_cwd tmp_pointer_machine (WorkspaceWrite [] False False False) (lit ''/ws''))
     (lit ''/tmp/g/x'') (lit ''/ws'')" by code_simp
  have folders: "workspace_folders tmp_pointer_machine [] False False (lit ''/ws'') = [lit ''/ws'', lit ''/tmp'']" by code_simp
  have root: "(case to_absolute tmp_pointer_machine (lit ''/ws'') of Some c \<Rightarrow> path_eq c (lit ''/tmp'') | None \<Rightarrow> False) = False"
    by code_simp
  have tmp: "legacy_root_of tmp_pointer_machine (lit ''/ws'') (lit ''/tmp'') = \<lparr>wr_root = lit ''/tmp'',
      wr_read_only_subpaths = [lit ''/tmp/g'', lit ''/tmp/.git''], wr_protected_metadata_names = []\<rparr>"
    unfolding legacy_root_of_def root Let_def tmp_pointer_default ..
  have below: "path_starts_with (lit ''/tmp/g/x'') (lit ''/tmp/g'')" "\<not> path_starts_with (lit ''/tmp/g/x'') (lit ''/ws'')"
    by code_simp+
  have "\<not> is_path_writable (legacy_root_of tmp_pointer_machine (lit ''/ws'') (lit ''/tmp'')) (lit ''/tmp/g/x'')"
    unfolding tmp is_path_writable_def using below(1) by (simp del: lit_Cons)
  moreover have "\<not> is_path_writable (legacy_root_of tmp_pointer_machine (lit ''/ws'') (lit ''/ws'')) (lit ''/tmp/g/x'')"
    unfolding is_path_writable_def legacy_root_of_def Let_def using below(2) by (simp del: lit_Cons)
  ultimately show "\<not> (\<exists>r\<in>set (sp_get_writable_roots_with_cwd tmp_pointer_machine (WorkspaceWrite [] False False False) (lit ''/ws'')).
        is_path_writable r (lit ''/tmp/g/x''))"
    unfolding sp_get_writable_roots_with_cwd_def sandbox_policy.case folders list.map by (simp del: lit_Cons)
qed

section \<open>Denied reads\<close>

lemma candidates_no_links:
  assumes "no_links env" and "abs_normal p"
  shows "normalized_and_canonical_candidates env p = [p]"
proof -
  have "to_absolute env p = Some p" using assms(2) by (simp add: to_absolute_absolute abs_normal_absolute normalize_normal)
  moreover have "pe_canonicalize env p = None \<or> pe_canonicalize env p = Some p"
    using assms by (cases "pe_canonicalize env p") (auto simp: no_links_def)
  ultimately show ?thesis by (auto simp: normalized_and_canonical_candidates_def Let_def push_unique_def path_eq_def)
qed

lemma deny_entry_at_its_place:
  assumes kind: "fsp_kind policy = Restricted" and e: "e \<in> set (resolved_entries_with_cwd env policy cwd)"
    "res_access e = Access_None" "abs_normal (res_path e)"
  shows "\<not> can_read_path_with_cwd env policy (res_path e) cwd"
proof -
  have "resolve_candidate_path env (res_path e) cwd = Some (res_path e)"
    using e(3) by (simp add: resolve_candidate_path_def to_absolute_absolute normalize_normal abs_normal_absolute)
  from deny_entry_decides [OF kind this e(1,2)] show ?thesis by (simp add: can_read_path_with_cwd_def can_read_def)
qed

lemma unreadable_roots:
  assumes env: "wf_machine env" "no_links env" and wf: "\<forall>entry\<in>set (fsp_entries policy). wf_entry_path (entry_path entry)"
    and kind: "fsp_kind policy = Restricted" and cwd: "is_absolute cwd"
  shows "set (get_unreadable_roots_with_cwd env policy cwd) =
    {res_path e |e. e \<in> set (resolved_entries_with_cwd env policy cwd) \<and> res_access e = Access_None \<and> res_path e \<noteq> [SLASH]}"
proof -
  let ?es = "resolved_entries_with_cwd env policy cwd"
  have normal: "abs_normal (res_path e)" if "e \<in> set ?es" for e using resolved_normal [OF env(1) wf that] .
  obtain c where c: "to_absolute env cwd = Some c" "abs_normal c"
    using cwd by (simp add: to_absolute_absolute abs_normal_normalize)
  have root: "path_eq [SLASH] (res_path e) \<longleftrightarrow> res_path e = [SLASH]" if "e \<in> set ?es" for e
    using normal_components_eq [OF _ normal [OF that], of "[SLASH]"] by (auto simp: path_eq_def abs_normal_def)
  define ps where "ps = map res_path (filter (\<lambda>e. \<not> path_eq [SLASH] (res_path e))
    (filter (\<lambda>e. \<not> can_read_path_with_cwd env policy (res_path e) cwd) (filter (\<lambda>e. res_access e = Access_None) ?es)))"
  have ps: "set ps = {res_path e |e. e \<in> set ?es \<and> res_access e = Access_None \<and> res_path e \<noteq> [SLASH]}"
    using root deny_entry_at_its_place [OF kind _ _ normal] by (auto simp: ps_def)
  then have all: "list_all abs_normal ps" using normal by (auto simp: list_all_iff)
  then have "map (normalize_effective_absolute_path env) ps = ps"
    using effective_no_links [OF env(2)] by (auto simp: list_all_iff intro: map_idI)
  then have "dedup_absolute_paths env ps True = dedup_absolute_paths env ps False" by (simp add: dedup_absolute_paths_def)
  moreover have "get_unreadable_roots_with_cwd env policy cwd = dedup_absolute_paths env ps True"
    unfolding get_unreadable_roots_with_cwd_def ps_def by (simp add: kind c absolute_root)
  ultimately show ?thesis using set_dedup_normal [OF all] ps by simp
qed

lemma any_pattern:
  "(\<exists>g\<in>set gs. build g = None) \<or> (\<exists>f\<in>set (List.map_filter build gs). f p) \<longleftrightarrow>
   (\<exists>g\<in>set gs. case build g of None \<Rightarrow> True | Some matches \<Rightarrow> matches p)"
proof (induction gs)
  case (Cons g gs)
  show ?case
  proof (cases "build g")
    case (Some f)
    show ?thesis
      using Cons.IH by (simp only: map_filter_simps list.set bex_simps Some option.case option.distinct) blast
  qed (simp add: map_filter_simps)
qed (simp add: map_filter_simps)

text \<open>
  C19 (equivalence): without symbolic links, the matcher made of a policy denies to read exactly the paths
  below a deny entry, whatever narrower entries say, and those that a deny pattern matches; when one of the
  patterns does not compile it denies everything. Only a deny entry for the root of the file system is not
  enforced by the matcher.
\<close>

theorem read_deny_matcher_exact:
  assumes env: "wf_machine env" "no_links env" and wf: "\<forall>entry\<in>set (fsp_entries policy). wf_entry_path (entry_path entry)"
    and cwd: "is_absolute cwd" and new: "read_deny_matcher_new env globset policy cwd = Some matcher" and p: "abs_normal p"
  shows "is_read_denied env matcher p \<longleftrightarrow>
    (\<exists>e\<in>set (resolved_entries_with_cwd env policy cwd).
       res_access e = Access_None \<and> res_path e \<noteq> [SLASH] \<and> path_starts_with p (res_path e)) \<or>
    (\<exists>pattern\<in>set (get_unreadable_globs_with_cwd env policy cwd).
       case build_glob_matcher globset pattern of None \<Rightarrow> True | Some matches \<Rightarrow> matches p)"
proof -
  let ?roots = "get_unreadable_roots_with_cwd env policy cwd"
  have kind: "fsp_kind policy = Restricted"
    using new by (auto simp: read_deny_matcher_new_def has_denied_read_restrictions_def split: if_splits)
  note roots = unreadable_roots [OF env wf kind cwd]
  have normal: "abs_normal r" if "r \<in> set ?roots" for r
    using that resolved_normal [OF env(1) wf] unfolding roots by blast
  then have denied: "map (normalized_and_canonical_candidates env) ?roots = map (\<lambda>r. [r]) ?roots"
    using candidates_no_links [OF env(2)] by simp
  let ?globs = "get_unreadable_globs_with_cwd env policy cwd"
  have matcher: "matcher = \<lparr>denied_candidates = map (\<lambda>r. [r]) ?roots, deny_read_matchers = List.map_filter (build_glob_matcher globset) ?globs,
      invalid_pattern = list_ex (\<lambda>pattern. build_glob_matcher globset pattern = None) ?globs\<rparr>"
    using new unfolding read_deny_matcher_new_def Let_def denied by (auto split: if_splits)
  have "(\<exists>r\<in>set ?roots. path_eq p r \<or> path_starts_with p r) \<longleftrightarrow>
    (\<exists>e\<in>set (resolved_entries_with_cwd env policy cwd). res_access e = Access_None \<and> res_path e \<noteq> [SLASH] \<and> path_starts_with p (res_path e))"
    unfolding roots by (auto simp: path_eq_def path_starts_with_def starts_with_iff_prefix)
  then show ?thesis
    unfolding any_pattern [symmetric] by (auto simp: is_read_denied_def matcher candidates_no_links [OF env(2) p] list_ex_iff)
qed

theorem read_deny_matcher_exact_witness:
  "\<exists>matcher. read_deny_matcher_new bare_machine (\<lambda>_ pattern. Some (\<lambda>p. ends_with p (lit ''.env'')))
       (fsp_restricted [path_entry ''/'' Access_Read, path_entry ''/ws/sec'' Access_None, path_entry ''/ws/sec/pub'' Access_Read,
          \<lparr>entry_path = FsGlobPattern (lit ''**/*.env''), entry_access = Access_None\<rparr>]) (lit ''/ws'') = Some matcher \<and>
     is_read_denied bare_machine matcher (lit ''/ws/sec/pub/x'') \<and> is_read_denied bare_machine matcher (lit ''/ws/a.env'') \<and>
     \<not> is_read_denied bare_machine matcher (lit ''/ws/x'')"
proof -
  let ?p = "fsp_restricted [path_entry ''/'' Access_Read, path_entry ''/ws/sec'' Access_None, path_entry ''/ws/sec/pub'' Access_Read,
          \<lparr>entry_path = FsGlobPattern (lit ''**/*.env''), entry_access = Access_None\<rparr>]"
  let ?b = "\<lambda>_ pattern. Some (\<lambda>p. ends_with p (lit ''.env''))"
  have env: "wf_machine bare_machine" "no_links bare_machine" by (simp_all add: wf_machine_def no_links_def bare_machine_def)
  have wf: "\<forall>entry\<in>set (fsp_entries ?p). wf_entry_path (entry_path entry)" by code_simp
  have cwd: "is_absolute (lit ''/ws'')" by code_simp
  obtain m where m: "read_deny_matcher_new bare_machine ?b ?p (lit ''/ws'') = Some m"
    by (simp add: read_deny_matcher_new_def has_denied_read_restrictions_def fsp_restricted_def Let_def)
  note exact = read_deny_matcher_exact [OF env wf cwd m]
  have entries: "resolved_entries_with_cwd bare_machine ?p (lit ''/ws'') = [\<lparr>res_path = lit ''/'', res_access = Access_Read\<rparr>,
      \<lparr>res_path = lit ''/ws/sec'', res_access = Access_None\<rparr>, \<lparr>res_path = lit ''/ws/sec/pub'', res_access = Access_Read\<rparr>]"
    by code_simp
  have globs: "get_unreadable_globs_with_cwd bare_machine ?p (lit ''/ws'') = [lit ''/ws/**/*.env'']" by code_simp
  have starts: "path_starts_with (lit ''/ws/sec/pub/x'') (lit ''/ws/sec'')" "\<not> path_starts_with (lit ''/ws/x'') (lit ''/ws/sec'')"
    "ends_with (lit ''/ws/a.env'') (lit ''.env'')" "\<not> ends_with (lit ''/ws/x'') (lit ''.env'')" by code_simp+
  have normal: "abs_normal (lit ''/ws/sec/pub/x'')" "abs_normal (lit ''/ws/a.env'')" "abs_normal (lit ''/ws/x'')" by code_simp+
  have "is_read_denied bare_machine m (lit ''/ws/sec/pub/x'')" "is_read_denied bare_machine m (lit ''/ws/a.env'')"
    "\<not> is_read_denied bare_machine m (lit ''/ws/x'')"
    unfolding exact [OF normal(1)] exact [OF normal(2)] exact [OF normal(3)] entries globs build_glob_matcher_def using starts by simp_all
  then show ?thesis using m by blast
qed

end
