(* ===== verification/Permission_Profiles_Correct.thy ===== *)
theory Permission_Profiles_Correct
  imports Permission_Profiles Legacy_Sandbox_Correct
begin

text \<open>
  Theorems about additional permissions: what the intersection of a request and a grant lets be read, and
  what the effective policy of a command keeps.
\<close>

section \<open>Entries and their places\<close>

lemma push_new_fold:
  "set es \<subseteq> set (foldl push_new es ds)" "d \<in> set ds \<Longrightarrow> \<exists>e\<in>set (foldl push_new es ds). entry_same e d"
  "set (foldl push_new es ds) \<subseteq> set es \<union> set ds"
proof -
  have eq: "push_new = (\<lambda>es d. if list_ex (\<lambda>entry. entry_same entry d) es then es else es @ [d])"
    by (intro ext) (simp add: push_new_def entries_contain_def)
  show "set es \<subseteq> set (foldl push_new es ds)" unfolding eq by (rule push_new_keeps(1))
  show "d \<in> set ds \<Longrightarrow> \<exists>e\<in>set (foldl push_new es ds). entry_same e d" unfolding eq by (rule push_new_keeps(2))
  show "set (foldl push_new es ds) \<subseteq> set es \<union> set ds" unfolding eq by (rule push_new_keeps(3))
qed

lemma resolve_permission_path_same:
  assumes "abs_normal cwd"
  shows "resolve_permission_path env p cwd = resolve_entry_path env p (Some cwd)"
proof -
  have cwd: "to_absolute env cwd = Some cwd" using assms by (simp add: to_absolute_absolute abs_normal_absolute normalize_normal)
  have tmp: "option_filter (pe_is_dir env) (to_absolute env (lit ''/tmp'')) = slash_tmp_folder env"
    by (auto simp: option_filter_def slash_tmp_folder_def split: option.split)
  show ?thesis
    unfolding resolve_permission_path_def resolve_entry_path_def resolve_file_system_path_def tmp cwd
      slash_tmp_same [of env "Some cwd", symmetric]
    by (auto simp: absolute_root_path_for_cwd_def resolve_file_system_special_path_def
        split: file_system_path.split file_system_special_path.split option.split)
qed

lemma materialize_cwd_access: "entry_access (materialize_cwd_dependent_entry env cwd e) = entry_access e"
  by (simp add: materialize_cwd_dependent_entry_def split: file_system_path.split file_system_special_path.split option.split)

lemma materialize_cwd_place:
  assumes "abs_normal cwd"
  shows "resolve_entry_path env (entry_path (materialize_cwd_dependent_entry env cwd e)) (Some cwd) =
    resolve_entry_path env (entry_path e) (Some cwd)"
  by (auto simp: materialize_cwd_dependent_entry_def resolve_permission_path_same [OF assms]
      resolve_entry_path_def resolve_file_system_path_def split: file_system_path.split file_system_special_path.split option.split)

lemma materialize_cwd_wf:
  assumes "wf_machine env" and "abs_normal cwd" and "wf_entry_path (entry_path e)"
  shows "wf_entry_path (entry_path (materialize_cwd_dependent_entry env cwd e))"
proof -
  have "abs_normal q" if "resolve_permission_path env (FsSpecial (Special_ProjectRoots s)) cwd = Some q" for s q
    using that assms(2) to_absolute_wf [OF assms(1)] abs_normal_absolute
    by (auto simp: resolve_permission_path_def intro: resolve_path_normal split: option.splits)
  then show ?thesis
    using assms(3) by (auto simp: materialize_cwd_dependent_entry_def wf_entry_path_def
        split: file_system_path.splits file_system_special_path.splits option.splits)
qed

text \<open>The places of a list of entries, with their accesses.\<close>

abbreviation places :: "perm_env \<Rightarrow> path \<Rightarrow> file_system_sandbox_entry list \<Rightarrow> resolved_file_system_entry set" where
  "places env cwd es \<equiv> set (resolved_entries_with_cwd env (fsp_restricted es) cwd)"

abbreviation access_at :: "perm_env \<Rightarrow> path \<Rightarrow> file_system_sandbox_entry list \<Rightarrow> path \<Rightarrow> file_system_access_mode" where
  "access_at env cwd es p \<equiv> resolve_access_with_cwd env (fsp_restricted es) p cwd"

lemma in_places:
  assumes "abs_normal cwd"
  shows "x \<in> places env cwd es \<longleftrightarrow>
    (\<exists>e\<in>set es. resolve_entry_path env (entry_path e) (Some cwd) = Some (res_path x) \<and> res_access x = entry_access e)"
  using assms by (simp add: in_resolved_entries fsp_restricted_def to_absolute_absolute abs_normal_absolute normalize_normal)

lemma place_of_same:
  assumes cwd: "abs_normal cwd" and "e \<in> set es" "entry_same e d"
    and "wf_entry_path (entry_path e)" "wf_entry_path (entry_path d)"
    and "resolve_entry_path env (entry_path d) (Some cwd) = Some q"
  shows "\<exists>x\<in>places env cwd es. components (res_path x) = components q \<and> res_access x = entry_access d"
proof -
  obtain r where r: "resolve_entry_path env (entry_path e) (Some cwd) = Some r" "components r = components q"
    using entry_same_place [OF assms(3) cwd assms(4-6)] by blast
  then show ?thesis
    using assms(2,3) by (intro bexI [of _ "\<lparr>res_path = r, res_access = entry_access e\<rparr>"])
      (auto simp: in_places [OF cwd] entry_same_def)
qed

section \<open>The intersection of a request and a grant\<close>

definition intersected :: "perm_env \<Rightarrow> glob_compiler \<Rightarrow> file_system_permissions \<Rightarrow> file_system_permissions \<Rightarrow> path \<Rightarrow>
    file_system_sandbox_entry list" where
  "intersected env globset requested granted cwd =
     perm_entries (intersect_file_system_permissions env globset requested granted cwd)"

definition retained :: "perm_env \<Rightarrow> glob_compiler \<Rightarrow> file_system_permissions \<Rightarrow> file_system_permissions \<Rightarrow> path \<Rightarrow>
    file_system_sandbox_entry list \<Rightarrow> file_system_sandbox_entry list" where
  "retained env globset requested granted cwd source =
     map (materialize_cwd_dependent_entry env cwd)
       (filter (\<lambda>e. deny_entry_constrains_accepted_grant env e (accepted_entries env globset requested granted cwd) cwd)
          (filter (\<lambda>e. entry_access e = Access_None) source))"

lemma intersected_entries:
  "intersected env globset requested granted cwd =
   foldl push_new (foldl push_new (accepted_entries env globset requested granted cwd)
     (retained env globset requested granted cwd (perm_entries requested)))
     (retained env globset requested granted cwd (perm_entries granted))"
  by (simp add: intersected_def intersect_file_system_permissions_def Let_def retain_constraining_deny_entries_def retained_def)

lemma accepted_within:
  assumes "a \<in> set (accepted_entries env globset requested granted cwd)"
  shows "\<exists>g\<in>set (perm_entries granted). a = materialize_cwd_dependent_entry env cwd g \<and>
    granted_file_system_entry_within_request env requested (fsp_restricted (perm_entries requested))
      (read_deny_matcher_new env globset (fsp_restricted (perm_entries requested)) cwd) g cwd"
  using assms push_new_fold(3) [of "[]"] by (fastforce simp: accepted_entries_def Let_def)

lemma intersected_cases:
  assumes "e \<in> set (intersected env globset requested granted cwd)"
  shows "e \<in> set (accepted_entries env globset requested granted cwd) \<or>
    (\<exists>d\<in>set (perm_entries requested) \<union> set (perm_entries granted).
       e = materialize_cwd_dependent_entry env cwd d \<and> entry_access e = Access_None)"
proof -
  let ?acc = "accepted_entries env globset requested granted cwd" and ?ret = "retained env globset requested granted cwd"
  have "e \<in> set ?acc \<union> set (?ret (perm_entries requested)) \<union> set (?ret (perm_entries granted))"
    using assms push_new_fold(3) [of "foldl push_new ?acc (?ret (perm_entries requested))" "?ret (perm_entries granted)"]
      push_new_fold(3) [of ?acc "?ret (perm_entries requested)"] unfolding intersected_entries by blast
  then show ?thesis by (auto simp: retained_def materialize_cwd_access)
qed

lemma intersected_wf:
  assumes "wf_machine env" "abs_normal cwd" and "e \<in> set (intersected env globset requested granted cwd)"
    and "\<forall>e\<in>set (perm_entries requested) \<union> set (perm_entries granted). wf_entry_path (entry_path e)"
  shows "wf_entry_path (entry_path e)"
  using intersected_cases [OF assms(3)] accepted_within [of e env globset requested granted cwd]
    materialize_cwd_wf [OF assms(1,2)] assms(4) by blast

text \<open>A place of the intersection that is not denied is one of the grant, and the request covers it.\<close>

lemma granted_place:
  assumes cwd: "abs_normal cwd" and x: "x \<in> places env cwd (intersected env globset requested granted cwd)" "can_read (res_access x)"
  shows "x \<in> places env cwd (accepted_entries env globset requested granted cwd)" "x \<in> places env cwd (perm_entries granted)"
    "access_covers (access_at env cwd (perm_entries requested) (res_path x)) (res_access x)"
proof -
  obtain e where e: "e \<in> set (intersected env globset requested granted cwd)"
    "resolve_entry_path env (entry_path e) (Some cwd) = Some (res_path x)" "res_access x = entry_access e"
    using x(1) by (auto simp: in_places [OF cwd])
  then have acc: "e \<in> set (accepted_entries env globset requested granted cwd)"
    using intersected_cases x(2) by (fastforce simp: can_read_def)
  then obtain g where g: "g \<in> set (perm_entries granted)" "e = materialize_cwd_dependent_entry env cwd g"
    "granted_file_system_entry_within_request env requested (fsp_restricted (perm_entries requested))
      (read_deny_matcher_new env globset (fsp_restricted (perm_entries requested)) cwd) g cwd"
    using accepted_within by blast
  have place: "resolve_entry_path env (entry_path g) (Some cwd) = Some (res_path x)" "entry_access g = res_access x"
    using e(2,3) by (simp_all add: g(2) materialize_cwd_place [OF cwd] materialize_cwd_access)
  show "x \<in> places env cwd (accepted_entries env globset requested granted cwd)" using acc e by (auto simp: in_places [OF cwd])
  show "x \<in> places env cwd (perm_entries granted)" using g(1) place by (auto simp: in_places [OF cwd])
  show "access_covers (access_at env cwd (perm_entries requested) (res_path x)) (res_access x)"
    using g(3) place by (auto simp: granted_file_system_entry_within_request_def resolve_permission_path_same [OF cwd]
        split: if_splits)
qed

text \<open>A deny entry of the request or the grant that lies below a grant is kept.\<close>

lemma overlapping_deny_kept:
  assumes env: "wf_machine env" and cwd: "abs_normal cwd"
    and wf: "\<forall>e\<in>set (perm_entries requested) \<union> set (perm_entries granted). wf_entry_path (entry_path e)"
    and d: "d \<in> places env cwd (perm_entries requested) \<union> places env cwd (perm_entries granted)" "res_access d = Access_None"
    and a: "a \<in> places env cwd (accepted_entries env globset requested granted cwd)" "can_read (res_access a)"
    and over: "path_starts_with (res_path d) (res_path a)"
  shows "\<exists>x\<in>places env cwd (intersected env globset requested granted cwd).
    components (res_path x) = components (res_path d) \<and> res_access x = Access_None"
proof -
  let ?acc = "accepted_entries env globset requested granted cwd" and ?ret = "retained env globset requested granted cwd"
  obtain source where source: "source \<in> {perm_entries requested, perm_entries granted}" "d \<in> places env cwd source"
    using d(1) by blast
  obtain e where e: "e \<in> set source" "resolve_entry_path env (entry_path e) (Some cwd) = Some (res_path d)"
    "entry_access e = Access_None"
    using source(2) d(2) by (auto simp: in_places [OF cwd])
  obtain b where b: "b \<in> set ?acc" "resolve_entry_path env (entry_path b) (Some cwd) = Some (res_path a)"
    "entry_access b = res_access a"
    using a(1) by (auto simp: in_places [OF cwd])
  have "deny_entry_constrains_accepted_grant env e ?acc cwd"
  proof -
    have "(case entry_path e of FsGlobPattern pattern \<Rightarrow> glob_static_prefix_path env pattern cwd
        | p \<Rightarrow> resolve_permission_path env p cwd) = Some (res_path d)"
      using e(2) by (auto simp: resolve_permission_path_same [OF cwd] resolve_entry_path_def resolve_file_system_path_def
          split: file_system_path.splits)
    then show ?thesis
      using b a(2) over by (auto simp: deny_entry_constrains_accepted_grant_def list_ex_iff resolve_permission_path_same [OF cwd]
          paths_overlap_def intro!: bexI [of _ b])
  qed
  then have kept: "materialize_cwd_dependent_entry env cwd e \<in> set (?ret source)" using e(1,3) by (auto simp: retained_def)
  have "\<exists>e'\<in>set (intersected env globset requested granted cwd). entry_same e' (materialize_cwd_dependent_entry env cwd e)"
  proof (cases "source = perm_entries granted")
    case True
    then show ?thesis using kept push_new_fold(2) unfolding intersected_entries by blast
  next
    case False
    then have "\<exists>e'\<in>set (foldl push_new ?acc (?ret (perm_entries requested))). entry_same e' (materialize_cwd_dependent_entry env cwd e)"
      using kept source(1) push_new_fold(2) by blast
    then show ?thesis using push_new_fold(1) unfolding intersected_entries by blast
  qed
  then obtain e' where e': "e' \<in> set (intersected env globset requested granted cwd)"
    "entry_same e' (materialize_cwd_dependent_entry env cwd e)" by blast
  have "wf_entry_path (entry_path e)" using wf e(1) source(1) by blast
  from place_of_same [OF cwd e' intersected_wf [OF env cwd e'(1) wf] materialize_cwd_wf [OF env cwd this]]
  show ?thesis using e(2,3) by (simp add: materialize_cwd_place [OF cwd] materialize_cwd_access)
qed

lemma intersection_reads:
  assumes env: "wf_machine env" and cwd: "abs_normal cwd"
    and wf: "\<forall>e\<in>set (perm_entries requested) \<union> set (perm_entries granted). wf_entry_path (entry_path e)"
    and target: "resolve_candidate_path env p cwd = Some target"
    and read: "can_read (access_at env cwd (intersected env globset requested granted cwd) p)"
  shows "can_read (access_at env cwd (perm_entries requested) p) \<and> can_read (access_at env cwd (perm_entries granted) p)"
proof -
  let ?I = "places env cwd (intersected env globset requested granted cwd)" and ?R = "places env cwd (perm_entries requested)"
    and ?G = "places env cwd (perm_entries granted)"
  have kind: "fsp_kind (fsp_restricted es) = Restricted" for es :: "file_system_sandbox_entry list" by (simp add: fsp_restricted_def)
  note decide = deciding_entry [OF kind]
  have none: "access_at env cwd es q = Access_None"
    if "resolve_candidate_path env q cwd = Some t" "\<not> (\<exists>x\<in>places env cwd es. path_starts_with t (res_path x))" for es q t
  proof -
    have "filter (\<lambda>x. path_starts_with t (res_path x)) (resolved_entries_with_cwd env (fsp_restricted es) cwd) = []"
      using that(2) by (auto simp: filter_empty_conv)
    then show ?thesis
      using that(1) max_by_key_None [of resolved_entry_precedence "[]"] by (simp add: resolve_access_with_cwd_def kind)
  qed
  obtain x0 where "x0 \<in> ?I" "path_starts_with target (res_path x0)"
    using none [OF target, of "intersected env globset requested granted cwd"] read by (auto simp: can_read_def)
  then obtain m where m: "m \<in> ?I" "path_starts_with target (res_path m)" "can_read (res_access m)"
    and max: "\<And>x. x \<in> ?I \<Longrightarrow> path_starts_with target (res_path x) \<Longrightarrow> resolved_entry_precedence x \<le> resolved_entry_precedence m"
    using decide [OF target] read by metis
  note grant = granted_place [OF cwd m(1,3)]
  have deeper: "False"
    if d: "d \<in> ?R \<union> ?G" "res_access d = Access_None" "path_starts_with target (res_path d)" "path_starts_with (res_path d) (res_path m)" for d
  proof -
    obtain x where x: "x \<in> ?I" "components (res_path x) = components (res_path d)" "res_access x = Access_None"
      using overlapping_deny_kept [OF env cwd wf d(1,2) grant(1) m(3) d(4)] by blast
    have "length (components (res_path m)) \<le> length (components (res_path d))"
      using d(4) by (auto simp: path_starts_with_def starts_with_iff_prefix dest: prefix_length_le)
    then show False
      using max [OF x(1)] x(2,3) d(3) m(3)
      by (auto simp: path_starts_with_def resolved_entry_precedence_def less_eq_prod_def access_le_None can_read_def)
  qed
  have granted: "can_read (access_at env cwd (perm_entries granted) p)"
  proof (rule ccontr)
    assume "\<not> can_read (access_at env cwd (perm_entries granted) p)"
    moreover obtain r where r: "r \<in> ?G" "path_starts_with target (res_path r)"
      "access_at env cwd (perm_entries granted) p = res_access r" "resolved_entry_precedence m \<le> resolved_entry_precedence r"
      using decide [OF target grant(2) m(2)] grant(2) m(2) by metis
    ultimately have "res_access r = Access_None" by (simp add: can_read_def)
    moreover have "path_starts_with (res_path r) (res_path m)"
      using nested_places [OF m(2) r(2)] r(4) by (auto simp: resolved_entry_precedence_def less_eq_prod_def)
    ultimately show False using deeper [of r] r(1,2) by blast
  qed
  have requested: "can_read (access_at env cwd (perm_entries requested) p)"
  proof (rule ccontr)
    assume no: "\<not> can_read (access_at env cwd (perm_entries requested) p)"
    have normal: "abs_normal (res_path m)"
      by (rule resolved_normal [OF env _ m(1)]) (use intersected_wf [OF env cwd _ wf] in \<open>auto simp: fsp_restricted_def\<close>)
    then have cand: "resolve_candidate_path env (res_path m) cwd = Some (res_path m)"
      by (simp add: resolve_candidate_path_def to_absolute_absolute normalize_normal abs_normal_absolute)
    have covers: "can_read (access_at env cwd (perm_entries requested) (res_path m))"
      using grant(3) by (auto simp: access_covers_def can_read_def can_write_def split: file_system_access_mode.splits)
    obtain y where "y \<in> ?R" "path_starts_with (res_path m) (res_path y)"
      using none [OF cand, of "perm_entries requested"] covers by (auto simp: can_read_def)
    then obtain r0 where r0: "r0 \<in> ?R" "path_starts_with (res_path m) (res_path r0)" "can_read (res_access r0)"
      and max0: "\<And>x. x \<in> ?R \<Longrightarrow> path_starts_with (res_path m) (res_path x) \<Longrightarrow> resolved_entry_precedence x \<le> resolved_entry_precedence r0"
      using decide [OF cand] covers by metis
    have cover0: "path_starts_with target (res_path r0)"
      using m(2) r0(2) by (auto simp: path_starts_with_def starts_with_iff_prefix intro: prefix_order.trans)
    then obtain r where r: "r \<in> ?R" "path_starts_with target (res_path r)"
      "access_at env cwd (perm_entries requested) p = res_access r" "resolved_entry_precedence r0 \<le> resolved_entry_precedence r"
      using decide [OF target r0(1)] r0(1) by metis
    have deny: "res_access r = Access_None" using no r(3) by (simp add: can_read_def)
    show False
    proof (cases "length (components (res_path r)) \<le> length (components (res_path m))")
      case True
      then have "resolved_entry_precedence r = resolved_entry_precedence r0"
        using max0 [OF r(1) nested_places [OF r(2) m(2)]] r(4) by simp
      then show False using deny r0(3) by (simp add: resolved_entry_precedence_def can_read_def)
    next
      case False
      then show False using deeper [of r] r(1,2) deny nested_places [OF m(2) r(2)] by simp
    qed
  qed
  show ?thesis using granted requested by blast
qed

text \<open>
  C5 (safety): what the user grants and what was asked for bound what a command gets. A path that can be read
  under the intersection of a request and a grant can be read under the request and under the grant, whatever
  the order of the entries and the deny entries of either side; the network is open only when both ask
  for it.
\<close>

theorem intersection_within_request_and_grant:
  assumes env: "wf_machine env" and cwd: "abs_normal cwd"
    and req: "add_file_system requested = Some r" and gr: "add_file_system granted = Some g"
    and both: "add_file_system (intersect_permission_profiles env globset requested granted cwd) = Some i"
    and wf: "\<forall>e\<in>set (perm_entries r) \<union> set (perm_entries g). wf_entry_path (entry_path e)"
    and target: "resolve_candidate_path env p cwd = Some target"
    and read: "can_read_path_with_cwd env (policy_from_permissions i) p cwd"
  shows "can_read_path_with_cwd env (policy_from_permissions r) p cwd \<and>
    can_read_path_with_cwd env (policy_from_permissions g) p cwd \<and>
    (enables_network (add_network (intersect_permission_profiles env globset requested granted cwd)) \<longrightarrow>
       enables_network (add_network requested) \<and> enables_network (add_network granted))"
proof -
  have depth: "resolve_access_with_cwd env (policy_from_permissions x) p cwd = access_at env cwd (perm_entries x) p" for x
  proof -
    have same: "resolved_entries_with_cwd env (policy_from_permissions x) cwd = resolved_entries_with_cwd env (fsp_restricted (perm_entries x)) cwd"
      "fsp_kind (policy_from_permissions x) = fsp_kind (fsp_restricted (perm_entries x))"
      by (simp_all add: policy_from_permissions_def fsp_restricted_def resolved_entries_with_cwd_def)
    show ?thesis unfolding resolve_access_with_cwd_def same ..
  qed
  have "i = intersect_file_system_permissions env globset r g cwd"
    using both by (auto simp: intersect_permission_profiles_def req gr option_filter_def split: if_splits)
  then have "can_read (access_at env cwd (intersected env globset r g cwd) p)"
    using read by (simp add: can_read_path_with_cwd_def depth intersected_def)
  from intersection_reads [OF env cwd wf target this] show ?thesis
    by (auto simp: can_read_path_with_cwd_def depth intersect_permission_profiles_def enables_network_def split: if_splits)
qed

definition both_permissions :: "file_system_permissions \<times> file_system_permissions" where
  "both_permissions =
     (\<lparr>perm_entries = [path_entry ''/data'' Access_Read, path_entry ''/data/key'' Access_None], perm_glob_scan_max_depth = None\<rparr>,
      \<lparr>perm_entries = [path_entry ''/data'' Access_Read, path_entry ''/etc'' Access_Read], perm_glob_scan_max_depth = None\<rparr>)"

theorem intersection_within_request_and_grant_witness:
  "let requested = \<lparr>add_network = None, add_file_system = Some (fst both_permissions)\<rparr>;
       granted = \<lparr>add_network = None, add_file_system = Some (snd both_permissions)\<rparr>;
       i = \<lparr>perm_entries = [path_entry ''/data'' Access_Read, path_entry ''/data/key'' Access_None], perm_glob_scan_max_depth = None\<rparr>
   in add_file_system (intersect_permission_profiles bare_machine (\<lambda>_ _. None) requested granted (lit ''/ws'')) = Some i \<and>
      can_read_path_with_cwd bare_machine (policy_from_permissions (fst both_permissions)) (lit ''/data/x'') (lit ''/ws'')"
proof -
  let ?r = "\<lparr>add_network = None, add_file_system = Some (fst both_permissions)\<rparr>"
  let ?g = "\<lparr>add_network = None, add_file_system = Some (snd both_permissions)\<rparr>"
  let ?i = "\<lparr>perm_entries = [path_entry ''/data'' Access_Read, path_entry ''/data/key'' Access_None], perm_glob_scan_max_depth = None\<rparr>"
  have env: "wf_machine bare_machine" by (simp add: wf_machine_def bare_machine_def)
  have cwd: "abs_normal (lit ''/ws'')" by code_simp
  have both: "add_file_system (intersect_permission_profiles bare_machine (\<lambda>_ _. None) ?r ?g (lit ''/ws'')) = Some ?i" by code_simp
  have wf: "\<forall>e\<in>set (perm_entries (fst both_permissions)) \<union> set (perm_entries (snd both_permissions)). wf_entry_path (entry_path e)"
    by code_simp
  have target: "resolve_candidate_path bare_machine (lit ''/data/x'') (lit ''/ws'') = Some (lit ''/data/x'')" by code_simp
  have read: "can_read_path_with_cwd bare_machine (policy_from_permissions ?i) (lit ''/data/x'') (lit ''/ws'')" by code_simp
  from intersection_within_request_and_grant [OF env cwd _ _ both wf target read] both show ?thesis by (simp add: Let_def)
qed

text \<open>
  For writing this fails: a narrower read entry of the request is no constraint, so a grant of the whole folder
  opens what was asked to stay read-only.
\<close>

lemma grant_writes_read_only_request:
  "let requested = \<lparr>perm_entries = [path_entry ''/data'' Access_Write, path_entry ''/data/ref'' Access_Read], perm_glob_scan_max_depth = None\<rparr>;
       granted = \<lparr>perm_entries = [path_entry ''/data'' Access_Write], perm_glob_scan_max_depth = None\<rparr>;
       i = intersect_file_system_permissions bare_machine (\<lambda>_ _. None) requested granted (lit ''/ws'')
   in can_write_path_with_cwd bare_machine (policy_from_permissions i) (lit ''/data/ref/x'') (lit ''/ws'') \<and>
      \<not> can_write_path_with_cwd bare_machine (policy_from_permissions requested) (lit ''/data/ref/x'') (lit ''/ws'')"
  by code_simp

section \<open>Effective permissions\<close>

text \<open>Merging permissions into a policy keeps its denials at their places, and never fails.\<close>

lemma effective_policy_keeps_denials:
  assumes cwd: "is_absolute cwd" and kind: "fsp_kind policy = Restricted"
    and e: "e \<in> set (resolved_entries_with_cwd env policy cwd)" "res_access e = Access_None" "abs_normal (res_path e)"
  shows "resolve_access_with_cwd env (effective_file_system_sandbox_policy policy extra) (res_path e) cwd = Access_None"
proof -
  let ?eff = "effective_file_system_sandbox_policy policy extra"
  have "set (fsp_entries policy) \<subseteq> set (fsp_entries ?eff)" "fsp_kind ?eff = Restricted"
    using push_new_fold(1) kind
    by (auto simp: effective_file_system_sandbox_policy_def merge_file_system_policy_with_additional_permissions_def
        split: option.splits)
  then have "e \<in> set (resolved_entries_with_cwd env ?eff cwd)" "fsp_kind ?eff = Restricted"
    using e(1) by (auto simp: in_resolved_entries)
  moreover have "resolve_candidate_path env (res_path e) cwd = Some (res_path e)"
    using e(3) by (simp add: resolve_candidate_path_def to_absolute_absolute normalize_normal abs_normal_absolute)
  ultimately show ?thesis using deny_entry_decides [OF _ _ _ e(2)] by blast
qed

lemma from_runtime_permissions_returns: "\<exists>prof. from_runtime_permissions_with_enforcement enforcement policy network = Some prof"
  by (cases "fsp_kind policy") (auto simp: from_runtime_permissions_with_enforcement_def managed_from_sandbox_policy_def)

text \<open>A depth is never zero in a profile.\<close>

fun wf_profile :: "profile \<Rightarrow> bool" where
  "wf_profile (ProfileManaged (Managed_Restricted _ depth) _) \<longleftrightarrow> depth \<noteq> Some 0"
| "wf_profile _ = True"

text \<open>
  A permission profile is determined by what it makes the runtime do: its two policies and its
  enforcement give the profile back, and without additional permissions the effective profile is the profile
  itself. The constructor of profiles never hits its unreachable case.
\<close>

theorem permission_profile_round_trip:
  assumes "wf_profile prof"
  shows "from_runtime_permissions_with_enforcement (profile_enforcement prof) (fst (to_runtime_permissions prof))
           (snd (to_runtime_permissions prof)) = Some prof \<and>
    effective_permission_profile prof None = Some prof"
proof -
  have "from_runtime_permissions_with_enforcement (profile_enforcement prof) (fst (to_runtime_permissions prof))
           (snd (to_runtime_permissions prof)) = Some prof"
  proof (cases prof)
    case (ProfileManaged fs net)
    have "Option.bind d non_zero = d" if "d \<noteq> Some 0" for d using that by (cases d) (auto simp: non_zero_def)
    then show ?thesis
      using assms by (cases fs) (simp_all add: ProfileManaged from_runtime_permissions_with_enforcement_def to_runtime_permissions_def
          managed_to_sandbox_policy_def managed_from_sandbox_policy_def fsp_unrestricted_def)
  qed (simp_all add: from_runtime_permissions_with_enforcement_def to_runtime_permissions_def fsp_unrestricted_def fsp_external_sandbox_def)
  then show ?thesis
    by (simp add: effective_permission_profile_def effective_file_system_sandbox_policy_def effective_network_sandbox_policy_def
        case_prod_unfold)
qed

theorem permission_profile_round_trip_witness:
  "effective_permission_profile profile_read_only None = Some profile_read_only"
  using permission_profile_round_trip [of profile_read_only] by (simp add: profile_read_only_def)

end
