(* ===== verification/Host_Policy.thy ===== *)
theory Host_Policy
  imports Prelude "HOL-Library.Word"
begin

text \<open>
  \<^verbatim>\<open>codex-rs/network-proxy/src/policy.rs\<close>: hosts, addresses and domain patterns of the network proxy.
  An IPv4 address is a 32-bit word, an IPv6 address its eight 16-bit segments. Parsing of addresses is
  that of \<^verbatim>\<open>std::net\<close>; what the source takes from other crates, the matcher of globs (\<^verbatim>\<open>globset\<close>) and the
  host parser of \<^verbatim>\<open>url\<close>, is a record of functions.
\<close>

unbundle bit_operations_syntax

section \<open>Addresses of the standard library\<close>

type_synonym ipv4 = "32 word"
type_synonym ipv6 = "16 word list"

datatype ip_addr = V4 ipv4 | V6 ipv6

text \<open>A parser takes a string and returns what it read with the rest; a failed one reads nothing.\<close>

definition to_digit :: "nat \<Rightarrow> uchar \<Rightarrow> nat option" where
  "to_digit radix c =
     (let d = (if 48 \<le> c \<and> c \<le> 57 then Some (c - 48)
               else if 97 \<le> c \<and> c \<le> 122 then Some (c - 97 + 10)
               else if 65 \<le> c \<and> c \<le> 90 then Some (c - 65 + 10) else None)
      in case d of Some n \<Rightarrow> if n < radix then Some n else None | None \<Rightarrow> None)"

fun read_digits :: "nat \<Rightarrow> rstr \<Rightarrow> nat list \<times> rstr" where
  "read_digits radix [] = ([], [])"
| "read_digits radix (c # cs) =
     (case to_digit radix c of
        None \<Rightarrow> ([], c # cs)
      | Some d \<Rightarrow> (let (ds, rest) = read_digits radix cs in (d # ds, rest)))"

definition digits_value :: "nat \<Rightarrow> nat list \<Rightarrow> nat" where
  "digits_value radix ds = foldl (\<lambda>n d. n * radix + d) 0 ds"

text \<open>\<^verbatim>\<open>Parser::read_number\<close>: at most \<open>max_digits\<close> digits, a value below \<open>bound\<close> (the type), and no
  zero in front unless allowed.\<close>

definition read_number :: "nat \<Rightarrow> nat \<Rightarrow> nat \<Rightarrow> bool \<Rightarrow> rstr \<Rightarrow> (nat \<times> rstr) option" where
  "read_number radix max_digits bound allow_zero_prefix s =
     (let (ds, rest) = read_digits radix s in
      if ds = [] \<or> length ds > max_digits \<or> digits_value radix ds \<ge> bound \<or>
         (\<not> allow_zero_prefix \<and> hd ds = 0 \<and> length ds > 1)
      then None else Some (digits_value radix ds, rest))"

definition read_separator :: "uchar \<Rightarrow> nat \<Rightarrow> (rstr \<Rightarrow> ('a \<times> rstr) option) \<Rightarrow> rstr \<Rightarrow> ('a \<times> rstr) option" where
  "read_separator sep index inner s =
     (if index = 0 then inner s
      else (case s of c # cs \<Rightarrow> if c = sep then inner cs else None | [] \<Rightarrow> None))"

definition ipv4_of_octets :: "nat \<Rightarrow> nat \<Rightarrow> nat \<Rightarrow> nat \<Rightarrow> ipv4" where
  "ipv4_of_octets a b c d = of_nat a * 2 ^ 24 + of_nat b * 2 ^ 16 + of_nat c * 2 ^ 8 + of_nat d"

definition read_ipv4_octets :: "rstr \<Rightarrow> ((nat \<times> nat \<times> nat \<times> nat) \<times> rstr) option" where
  "read_ipv4_octets s =
     (let octet = read_number 10 3 256 False in
      case read_separator 46 0 octet s of None \<Rightarrow> None | Some (a, s1) \<Rightarrow>
      (case read_separator 46 1 octet s1 of None \<Rightarrow> None | Some (b, s2) \<Rightarrow>
      (case read_separator 46 2 octet s2 of None \<Rightarrow> None | Some (c, s3) \<Rightarrow>
      (case read_separator 46 3 octet s3 of None \<Rightarrow> None | Some (d, s4) \<Rightarrow>
       Some ((a, b, c, d), s4)))))"

text \<open>\<open>index\<close> groups were read before, \<open>n\<close> may follow; the flag is set when the last two came from an
  embedded IPv4 address.\<close>

fun read_groups :: "nat \<Rightarrow> nat \<Rightarrow> rstr \<Rightarrow> 16 word list \<times> bool \<times> rstr" where
  "read_groups index 0 s = ([], False, s)"
| "read_groups index (Suc n) s =
     (case (if n \<ge> 1 then read_separator 58 index read_ipv4_octets s else None) of
        Some ((a, b, c, d), rest) \<Rightarrow> ([of_nat a * 2 ^ 8 + of_nat b, of_nat c * 2 ^ 8 + of_nat d], True, rest)
      | None \<Rightarrow>
          (case read_separator 58 index (read_number 16 4 65536 True) s of
             None \<Rightarrow> ([], False, s)
           | Some (g, rest) \<Rightarrow>
               (let (gs, v4, r) = read_groups (Suc index) n rest in (of_nat g # gs, v4, r))))"

definition read_ipv6_addr :: "rstr \<Rightarrow> (ipv6 \<times> rstr) option" where
  "read_ipv6_addr s =
     (let (head, head_ipv4, s1) = read_groups 0 8 s in
      if length head = 8 then Some (head, s1)
      else if head_ipv4 then None
      else (case strip_prefix (lit ''::'') s1 of
              None \<Rightarrow> None
            | Some s2 \<Rightarrow>
                (let (tail, _, s3) = read_groups 0 (8 - (length head + 1)) s2 in
                 Some (head @ replicate (8 - length head - length tail) 0 @ tail, s3))))"

definition read_ip_addr :: "rstr \<Rightarrow> (ip_addr \<times> rstr) option" where
  "read_ip_addr s =
     (case read_ipv4_octets s of
        Some ((a, b, c, d), rest) \<Rightarrow> Some (V4 (ipv4_of_octets a b c d), rest)
      | None \<Rightarrow> map_option (apfst V6) (read_ipv6_addr s))"

text \<open>\<^verbatim>\<open>str::parse::<IpAddr>\<close>: the whole string is read.\<close>

definition parse_ip :: "rstr \<Rightarrow> ip_addr option" where
  "parse_ip s = (case read_ip_addr s of Some (ip, []) \<Rightarrow> Some ip | _ \<Rightarrow> None)"

text \<open>The classes of \<^verbatim>\<open>Ipv4Addr\<close> and \<^verbatim>\<open>Ipv6Addr\<close>, by their octets and segments.\<close>

definition octet :: "nat \<Rightarrow> ipv4 \<Rightarrow> nat" where
  "octet i ip = unat (drop_bit (8 * (3 - i)) ip AND 255)"

definition v4_is_loopback :: "ipv4 \<Rightarrow> bool" where
  "v4_is_loopback ip \<longleftrightarrow> octet 0 ip = 127"

definition v4_is_private :: "ipv4 \<Rightarrow> bool" where
  "v4_is_private ip \<longleftrightarrow> octet 0 ip = 10 \<or> (octet 0 ip = 172 \<and> 16 \<le> octet 1 ip \<and> octet 1 ip \<le> 31) \<or>
     (octet 0 ip = 192 \<and> octet 1 ip = 168)"

definition v4_is_link_local :: "ipv4 \<Rightarrow> bool" where
  "v4_is_link_local ip \<longleftrightarrow> octet 0 ip = 169 \<and> octet 1 ip = 254"

definition v4_is_unspecified :: "ipv4 \<Rightarrow> bool" where
  "v4_is_unspecified ip \<longleftrightarrow> ip = 0"

definition v4_is_multicast :: "ipv4 \<Rightarrow> bool" where
  "v4_is_multicast ip \<longleftrightarrow> 224 \<le> octet 0 ip \<and> octet 0 ip \<le> 239"

definition v4_is_broadcast :: "ipv4 \<Rightarrow> bool" where
  "v4_is_broadcast ip \<longleftrightarrow> ip = ipv4_of_octets 255 255 255 255"

definition v6_is_loopback :: "ipv6 \<Rightarrow> bool" where
  "v6_is_loopback ip \<longleftrightarrow> ip = [0, 0, 0, 0, 0, 0, 0, 1]"

definition v6_is_unspecified :: "ipv6 \<Rightarrow> bool" where
  "v6_is_unspecified ip \<longleftrightarrow> ip = [0, 0, 0, 0, 0, 0, 0, 0]"

definition v6_is_multicast :: "ipv6 \<Rightarrow> bool" where
  "v6_is_multicast ip \<longleftrightarrow> hd ip AND 0xff00 = 0xff00"

definition v6_is_unique_local :: "ipv6 \<Rightarrow> bool" where
  "v6_is_unique_local ip \<longleftrightarrow> hd ip AND 0xfe00 = 0xfc00"

definition v6_is_unicast_link_local :: "ipv6 \<Rightarrow> bool" where
  "v6_is_unicast_link_local ip \<longleftrightarrow> hd ip AND 0xffc0 = 0xfe80"

text \<open>\<^verbatim>\<open>Ipv6Addr::to_ipv4\<close>: the compatible and the mapped addresses.\<close>

definition v6_to_ipv4 :: "ipv6 \<Rightarrow> ipv4 option" where
  "v6_to_ipv4 ip =
     (case ip of
        [a, b, c, d, e, f, ab, cd] \<Rightarrow>
          if a = 0 \<and> b = 0 \<and> c = 0 \<and> d = 0 \<and> e = 0 \<and> (f = 0 \<or> f = 0xffff)
          then Some (ucast ab * 2 ^ 16 + ucast cd) else None
      | _ \<Rightarrow> None)"

definition ip_is_loopback :: "ip_addr \<Rightarrow> bool" where
  "ip_is_loopback ip = (case ip of V4 a \<Rightarrow> v4_is_loopback a | V6 a \<Rightarrow> v6_is_loopback a)"

section \<open>Public addresses\<close>

text \<open>The shift of the mask is on 32-bit words.\<close>

definition ipv4_in_cidr :: "ipv4 \<Rightarrow> ipv4 \<Rightarrow> nat \<Rightarrow> bool" where
  "ipv4_in_cidr ip base pre =
     (let mask = (if pre = 0 then 0 else push_bit (32 - pre) (- 1)) in ip AND mask = base AND mask)"

definition is_non_public_ipv4 :: "ipv4 \<Rightarrow> bool" where
  "is_non_public_ipv4 ip \<longleftrightarrow>
     v4_is_loopback ip \<or> v4_is_private ip \<or> v4_is_link_local ip \<or> v4_is_unspecified ip \<or>
     v4_is_multicast ip \<or> v4_is_broadcast ip \<or>
     ipv4_in_cidr ip (ipv4_of_octets 0 0 0 0) 8 \<or> ipv4_in_cidr ip (ipv4_of_octets 100 64 0 0) 10 \<or>
     ipv4_in_cidr ip (ipv4_of_octets 192 0 0 0) 24 \<or> ipv4_in_cidr ip (ipv4_of_octets 192 0 2 0) 24 \<or>
     ipv4_in_cidr ip (ipv4_of_octets 198 18 0 0) 15 \<or> ipv4_in_cidr ip (ipv4_of_octets 198 51 100 0) 24 \<or>
     ipv4_in_cidr ip (ipv4_of_octets 203 0 113 0) 24 \<or> ipv4_in_cidr ip (ipv4_of_octets 240 0 0 0) 4"

definition is_non_public_ipv6 :: "ipv6 \<Rightarrow> bool" where
  "is_non_public_ipv6 ip =
     (case v6_to_ipv4 ip of
        Some v4 \<Rightarrow> is_non_public_ipv4 v4 \<or> v6_is_loopback ip
      | None \<Rightarrow> v6_is_loopback ip \<or> v6_is_unspecified ip \<or> v6_is_multicast ip \<or>
                 v6_is_unique_local ip \<or> v6_is_unicast_link_local ip)"

definition is_non_public_ip :: "ip_addr \<Rightarrow> bool" where
  "is_non_public_ip ip = (case ip of V4 a \<Rightarrow> is_non_public_ipv4 a | V6 a \<Rightarrow> is_non_public_ipv6 a)"

section \<open>Hosts\<close>

text \<open>\<^verbatim>\<open>str::split_once\<close> of a string.\<close>

definition split_once_str :: "rstr \<Rightarrow> rstr \<Rightarrow> (rstr \<times> rstr) option" where
  "split_once_str d s = map_option (\<lambda>i. (take i s, drop (i + length d) s)) (find_str d s)"

definition unscoped_ip_literal :: "rstr \<Rightarrow> rstr option" where
  "unscoped_ip_literal host =
     (case split_once 37 host of
        None \<Rightarrow> None
      | Some (ip, _) \<Rightarrow> if parse_ip ip = None then None else Some ip)"

fun normalize_scoped :: "rstr \<Rightarrow> rstr list \<Rightarrow> rstr option" where
  "normalize_scoped host [] = None"
| "normalize_scoped host (delimiter # rest) =
     (case split_once_str delimiter host of
        Some (ip, scope) \<Rightarrow>
          if parse_ip ip \<noteq> None then Some (ip @ lit ''%'' @ scope) else normalize_scoped host rest
      | None \<Rightarrow> normalize_scoped host rest)"

definition normalize_ip_literal :: "rstr \<Rightarrow> rstr option" where
  "normalize_ip_literal host =
     (if parse_ip host \<noteq> None then Some host else normalize_scoped host [lit ''%25'', lit ''%''])"

definition normalize_dns_host_or_ip_literal :: "rstr \<Rightarrow> rstr" where
  "normalize_dns_host_or_ip_literal host =
     (let h = trim_end_matches 46 (to_ascii_lowercase host) in
      case normalize_ip_literal h of Some ip \<Rightarrow> ip | None \<Rightarrow> h)"

definition normalize_host :: "rstr \<Rightarrow> rstr" where
  "normalize_host host0 =
     (let host = trim host0 in
      if starts_with host (lit ''['') \<and> 93 \<in> set host
      then normalize_dns_host_or_ip_literal (takeWhile (\<lambda>c. c \<noteq> 93) (tl host))
      else if length (filter (\<lambda>b. b = 58) host) = 1
      then normalize_dns_host_or_ip_literal (takeWhile (\<lambda>c. c \<noteq> 58) host)
      else normalize_dns_host_or_ip_literal host)"

definition host_parse :: "rstr \<Rightarrow> rstr option" where
  "host_parse input = (let normalized = normalize_host input in if normalized = [] then None else Some normalized)"

definition is_loopback_host :: "rstr \<Rightarrow> bool" where
  "is_loopback_host host =
     (let h = (case unscoped_ip_literal host of Some ip \<Rightarrow> ip | None \<Rightarrow> host) in
      if h = lit ''localhost'' then True
      else (case parse_ip h of Some ip \<Rightarrow> ip_is_loopback ip | None \<Rightarrow> False))"

section \<open>Domain patterns\<close>

text \<open>
  Of other crates: whether a glob is well-formed, the matcher of a set of globs (without regard to case)
  or an error, and the text of a host parsed by \<^verbatim>\<open>url::Host\<close>.
\<close>

record glob_env =
  glob_valid :: "rstr \<Rightarrow> bool"
  globset_build :: "rstr list \<Rightarrow> (rstr \<Rightarrow> bool, rstr) result"
  url_host_parse :: "rstr \<Rightarrow> rstr option"

definition normalize_pattern :: "rstr \<Rightarrow> rstr" where
  "normalize_pattern pattern0 =
     (let pattern = trim pattern0 in
      if pattern = lit ''*'' then lit ''*''
      else
        (let (pre, remainder) =
           (case strip_prefix (lit ''**.'') pattern of
              Some domain \<Rightarrow> (lit ''**.'', domain)
            | None \<Rightarrow>
                (case strip_prefix (lit ''*.'') pattern of
                   Some domain \<Rightarrow> (lit ''*.'', domain)
                 | None \<Rightarrow> ([], pattern)))
         in pre @ normalize_host remainder))"

datatype domain_pattern =
    ApexAndSubdomains rstr
  | SubdomainsOnly rstr
  | ExactDomain rstr

definition parse_domain :: "rstr \<Rightarrow> (rstr \<Rightarrow> domain_pattern) \<Rightarrow> domain_pattern" where
  "parse_domain domain0 build = (let domain = trim domain0 in if domain = [] then ExactDomain [] else build domain)"

definition domain_pattern_parse :: "rstr \<Rightarrow> domain_pattern" where
  "domain_pattern_parse input0 =
     (let input = trim input0 in
      if input = [] then ExactDomain []
      else
        (case strip_prefix (lit ''**.'') input of
           Some domain \<Rightarrow> parse_domain domain ApexAndSubdomains
         | None \<Rightarrow>
             (case strip_prefix (lit ''*.'') input of
                Some domain \<Rightarrow> parse_domain domain SubdomainsOnly
              | None \<Rightarrow> ExactDomain input)))"

definition parse_domain_for_constraints :: "glob_env \<Rightarrow> rstr \<Rightarrow> rstr" where
  "parse_domain_for_constraints ge domain0 =
     (let domain = trim_end_matches 46 (trim domain0) in
      if domain = [] then []
      else
        (let host = (if starts_with domain (lit ''['') \<and> ends_with domain (lit '']'') then butlast (tl domain) else domain)
         in if 42 \<in> set host \<or> 63 \<in> set host \<or> 37 \<in> set host then domain
            else (case url_host_parse ge host of Some h \<Rightarrow> h | None \<Rightarrow> [])))"

definition parse_for_constraints :: "glob_env \<Rightarrow> rstr \<Rightarrow> domain_pattern" where
  "parse_for_constraints ge input0 =
     (let input = trim input0 in
      if input = [] then ExactDomain []
      else
        (case strip_prefix (lit ''**.'') input of
           Some domain \<Rightarrow> ApexAndSubdomains (parse_domain_for_constraints ge domain)
         | None \<Rightarrow>
             (case strip_prefix (lit ''*.'') input of
                Some domain \<Rightarrow> SubdomainsOnly (parse_domain_for_constraints ge domain)
              | None \<Rightarrow> ExactDomain (parse_domain_for_constraints ge input))))"

definition normalize_domain :: "rstr \<Rightarrow> rstr" where
  "normalize_domain domain = to_ascii_lowercase (trim_end_matches 46 domain)"

definition domain_eq :: "rstr \<Rightarrow> rstr \<Rightarrow> bool" where
  "domain_eq left right \<longleftrightarrow> normalize_domain left = normalize_domain right"

definition is_subdomain_or_equal :: "rstr \<Rightarrow> rstr \<Rightarrow> bool" where
  "is_subdomain_or_equal child0 parent0 =
     (let child = normalize_domain child0; parent = normalize_domain parent0
      in if child = parent then True else ends_with child (lit ''.'' @ parent))"

definition is_strict_subdomain :: "rstr \<Rightarrow> rstr \<Rightarrow> bool" where
  "is_strict_subdomain child0 parent0 \<longleftrightarrow>
     (let child = normalize_domain child0; parent = normalize_domain parent0
      in child \<noteq> parent \<and> ends_with child (lit ''.'' @ parent))"

fun domain_pattern_allows :: "domain_pattern \<Rightarrow> domain_pattern \<Rightarrow> bool" where
  "domain_pattern_allows (ExactDomain domain) (ExactDomain candidate) = domain_eq candidate domain"
| "domain_pattern_allows (ExactDomain domain) _ = False"
| "domain_pattern_allows (SubdomainsOnly domain) (ExactDomain candidate) = is_strict_subdomain candidate domain"
| "domain_pattern_allows (SubdomainsOnly domain) (SubdomainsOnly candidate) = is_subdomain_or_equal candidate domain"
| "domain_pattern_allows (SubdomainsOnly domain) (ApexAndSubdomains candidate) = is_strict_subdomain candidate domain"
| "domain_pattern_allows (ApexAndSubdomains domain) (ExactDomain candidate) = is_subdomain_or_equal candidate domain"
| "domain_pattern_allows (ApexAndSubdomains domain) (SubdomainsOnly candidate) = is_subdomain_or_equal candidate domain"
| "domain_pattern_allows (ApexAndSubdomains domain) (ApexAndSubdomains candidate) = is_subdomain_or_equal candidate domain"

definition expand_domain_pattern :: "rstr \<Rightarrow> rstr list" where
  "expand_domain_pattern pattern =
     (case domain_pattern_parse pattern of
        ExactDomain domain \<Rightarrow> [domain]
      | SubdomainsOnly domain \<Rightarrow> [lit ''?*.'' @ domain]
      | ApexAndSubdomains domain \<Rightarrow> [domain, lit ''?*.'' @ domain])"

definition is_global_wildcard_domain_pattern :: "rstr \<Rightarrow> bool" where
  "is_global_wildcard_domain_pattern pattern \<longleftrightarrow>
     lit ''*'' \<in> set (expand_domain_pattern (normalize_pattern pattern))"

section \<open>Sets of globs\<close>

datatype global_wildcard = Wildcard_Allow | Wildcard_Reject

definition MSG_GLOBAL_WILDCARD :: rstr where
  "MSG_GLOBAL_WILDCARD = lit ''unsupported global wildcard domain pattern '' @ [34] @ lit ''*'' @ [34] @
     lit ''; use exact hosts or scoped wildcards like *.example.com or **.example.com''"

text \<open>The inner loop over the candidates of a pattern, with the set of those seen and the globs added.\<close>

fun add_candidates :: "glob_env \<Rightarrow> rstr list \<Rightarrow> rstr list \<Rightarrow> (rstr list, rstr) result" where
  "add_candidates ge [] seen = Inr seen"
| "add_candidates ge (candidate # rest) seen =
     (if candidate \<in> set seen then add_candidates ge rest seen
      else if \<not> glob_valid ge candidate then Inl (lit ''invalid glob pattern: '' @ candidate)
      else add_candidates ge rest (seen @ [candidate]))"

fun add_patterns :: "glob_env \<Rightarrow> global_wildcard \<Rightarrow> rstr list \<Rightarrow> rstr list \<Rightarrow> (rstr list, rstr) result" where
  "add_patterns ge gw [] seen = Inr seen"
| "add_patterns ge gw (pattern # patterns) seen =
     (if gw = Wildcard_Reject \<and> is_global_wildcard_domain_pattern pattern then Inl MSG_GLOBAL_WILDCARD
      else
        (case add_candidates ge (expand_domain_pattern (normalize_pattern pattern)) seen of
           Inl e \<Rightarrow> Inl e
         | Inr seen' \<Rightarrow> add_patterns ge gw patterns seen'))"

definition compile_globset_with_policy ::
    "glob_env \<Rightarrow> rstr list \<Rightarrow> global_wildcard \<Rightarrow> (rstr \<Rightarrow> bool, rstr) result" where
  "compile_globset_with_policy ge patterns gw =
     (case add_patterns ge gw patterns [] of
        Inl e \<Rightarrow> Inl e
      | Inr globs \<Rightarrow> globset_build ge globs)"

definition compile_allowlist_globset :: "glob_env \<Rightarrow> rstr list \<Rightarrow> (rstr \<Rightarrow> bool, rstr) result" where
  "compile_allowlist_globset ge patterns = compile_globset_with_policy ge patterns Wildcard_Allow"

definition compile_denylist_globset :: "glob_env \<Rightarrow> rstr list \<Rightarrow> (rstr \<Rightarrow> bool, rstr) result" where
  "compile_denylist_globset ge patterns = compile_globset_with_policy ge patterns Wildcard_Reject"

end
