(* ===== verification/Network_Config.thy ===== *)
theory Network_Config
  imports Host_Policy Paths "HOL-Library.List_Lexorder"
begin

text \<open>
  \<^verbatim>\<open>codex-rs/network-proxy/src/config.rs\<close>: the settings of the network proxy, the domains they allow and
  deny, and the addresses the proxy listens on. The parser of URLs is a parameter. A \<^verbatim>\<open>BTreeMap\<close> is the list
  of its entries in the order of the keys.
\<close>

section \<open>Settings\<close>

datatype network_domain_permission = Perm_None | Perm_Allow | Perm_Deny

text \<open>The declaration order is the precedence.\<close>

fun permission_rank :: "network_domain_permission \<Rightarrow> nat" where
  "permission_rank Perm_None = 0"
| "permission_rank Perm_Allow = 1"
| "permission_rank Perm_Deny = 2"

instantiation network_domain_permission :: linorder
begin
definition less_eq_network_domain_permission :: "network_domain_permission \<Rightarrow> network_domain_permission \<Rightarrow> bool" where
  "less_eq_network_domain_permission a b \<longleftrightarrow> permission_rank a \<le> permission_rank b"
definition less_network_domain_permission :: "network_domain_permission \<Rightarrow> network_domain_permission \<Rightarrow> bool" where
  "less_network_domain_permission a b \<longleftrightarrow> permission_rank a < permission_rank b"
instance
proof
  fix x y z :: network_domain_permission
  show "x \<le> y \<Longrightarrow> y \<le> x \<Longrightarrow> x = y"
    by (cases x; cases y) (simp_all add: less_eq_network_domain_permission_def)
qed (auto simp: less_eq_network_domain_permission_def less_network_domain_permission_def)
end

record domain_entry =
  dom_pattern :: rstr
  dom_permission :: network_domain_permission

datatype network_unix_socket_permission = Socket_Allow | Socket_None

datatype network_mode = Mode_Limited | Mode_Full

record network_settings =
  net_enabled :: bool
  net_proxy_url :: rstr
  net_enable_socks5 :: bool
  net_socks_url :: rstr
  net_enable_socks5_udp :: bool
  net_allow_upstream_proxy :: bool
  net_allow_non_loopback_proxy :: bool
  net_allow_all_unix_sockets :: bool
  net_mode :: network_mode
  net_domains :: "domain_entry list option"
  net_unix_sockets :: "(rstr \<times> network_unix_socket_permission) list option"
  net_allow_local_binding :: bool
  net_mitm :: bool

definition default_settings :: network_settings where
  "default_settings = \<lparr>net_enabled = False, net_proxy_url = lit ''http://127.0.0.1:3128'', net_enable_socks5 = True,
     net_socks_url = lit ''http://127.0.0.1:8081'', net_enable_socks5_udp = True, net_allow_upstream_proxy = True,
     net_allow_non_loopback_proxy = False, net_allow_all_unix_sockets = False, net_mode = Mode_Full,
     net_domains = None, net_unix_sockets = None, net_allow_local_binding = False, net_mitm = False\<rparr>"

section \<open>Effective permissions\<close>

fun effective_loop ::
    "domain_entry list \<Rightarrow> rstr list \<Rightarrow> (rstr \<rightharpoonup> network_domain_permission) \<Rightarrow>
     rstr list \<times> (rstr \<rightharpoonup> network_domain_permission)" where
  "effective_loop [] order effective_permissions = (order, effective_permissions)"
| "effective_loop (entry # entries) order effective_permissions =
     (let p = dom_pattern entry;
          order' = (if effective_permissions p = None then order @ [p] else order);
          permission = (case effective_permissions p of Some q \<Rightarrow> q | None \<Rightarrow> dom_permission entry);
          permission' = (if dom_permission entry > permission then dom_permission entry else permission)
      in effective_loop entries order' (effective_permissions(p \<mapsto> permission')))"

fun take_in_order ::
    "rstr list \<Rightarrow> (rstr \<rightharpoonup> network_domain_permission) \<Rightarrow> domain_entry list" where
  "take_in_order [] m = []"
| "take_in_order (p # ps) m =
     (case m p of
        Some permission \<Rightarrow> \<lparr>dom_pattern = p, dom_permission = permission\<rparr> # take_in_order ps (m(p := None))
      | None \<Rightarrow> take_in_order ps m)"

definition effective_entries :: "domain_entry list \<Rightarrow> domain_entry list" where
  "effective_entries entries = (case effective_loop entries [] Map.empty of (order, m) \<Rightarrow> take_in_order order m)"

definition domain_entries :: "network_settings \<Rightarrow> network_domain_permission \<Rightarrow> rstr list option" where
  "domain_entries s permission =
     (case net_domains s of
        None \<Rightarrow> None
      | Some domains \<Rightarrow>
          (let entries = map dom_pattern (filter (\<lambda>e. dom_permission e = permission) (effective_entries domains))
           in if entries = [] then None else Some entries))"

definition allowed_domains :: "network_settings \<Rightarrow> rstr list option" where
  "allowed_domains s = domain_entries s Perm_Allow"

definition denied_domains :: "network_settings \<Rightarrow> rstr list option" where
  "denied_domains s = domain_entries s Perm_Deny"

definition unwrap_or_default :: "'a list option \<Rightarrow> 'a list" where
  "unwrap_or_default x = (case x of Some v \<Rightarrow> v | None \<Rightarrow> [])"

definition allow_unix_sockets :: "network_settings \<Rightarrow> rstr list" where
  "allow_unix_sockets s =
     (case net_unix_sockets s of
        None \<Rightarrow> []
      | Some entries \<Rightarrow> map fst (filter (\<lambda>(_, permission). permission = Socket_Allow) entries))"

definition some_if_any :: "'a list \<Rightarrow> 'a list option" where
  "some_if_any xs = (if xs = [] then None else Some xs)"

definition upsert_domain_permission ::
    "network_settings \<Rightarrow> rstr \<Rightarrow> network_domain_permission \<Rightarrow> (rstr \<Rightarrow> rstr) \<Rightarrow> network_settings" where
  "upsert_domain_permission s host permission norm =
     (let domains = unwrap_or_default (net_domains s);
          normalized_host = norm host;
          kept = filter (\<lambda>entry. norm (dom_pattern entry) \<noteq> normalized_host) domains
      in s\<lparr>net_domains := some_if_any (kept @ [\<lparr>dom_pattern = host, dom_permission = permission\<rparr>])\<rparr>)"

definition set_domain_entries :: "network_settings \<Rightarrow> rstr list \<Rightarrow> network_domain_permission \<Rightarrow> network_settings" where
  "set_domain_entries s entries permission =
     (let domains = filter (\<lambda>entry. dom_permission entry \<noteq> permission) (unwrap_or_default (net_domains s));
          pushed = foldl (\<lambda>ds entry.
             if list_ex (\<lambda>existing. dom_pattern existing = entry \<and> dom_permission existing = permission) ds then ds
             else ds @ [\<lparr>dom_pattern = entry, dom_permission = permission\<rparr>]) domains entries
      in s\<lparr>net_domains := some_if_any pushed\<rparr>)"

definition set_allowed_domains :: "network_settings \<Rightarrow> rstr list \<Rightarrow> network_settings" where
  "set_allowed_domains s domains = set_domain_entries s domains Perm_Allow"

definition set_denied_domains :: "network_settings \<Rightarrow> rstr list \<Rightarrow> network_settings" where
  "set_denied_domains s domains = set_domain_entries s domains Perm_Deny"

fun btree_insert :: "rstr \<Rightarrow> 'v \<Rightarrow> (rstr \<times> 'v) list \<Rightarrow> (rstr \<times> 'v) list" where
  "btree_insert k v [] = [(k, v)]"
| "btree_insert k v ((k', v') # rest) =
     (if k = k' then (k, v) # rest
      else if k < k' then (k, v) # (k', v') # rest
      else (k', v') # btree_insert k v rest)"

definition set_unix_socket_entries ::
    "network_settings \<Rightarrow> rstr list \<Rightarrow> network_unix_socket_permission \<Rightarrow> network_settings" where
  "set_unix_socket_entries s entries permission =
     (let kept = filter (\<lambda>(_, existing). existing \<noteq> permission) (unwrap_or_default (net_unix_sockets s))
      in s\<lparr>net_unix_sockets := some_if_any (foldl (\<lambda>m entry. btree_insert entry permission m) kept entries)\<rparr>)"

definition set_allow_unix_sockets :: "network_settings \<Rightarrow> rstr list \<Rightarrow> network_settings" where
  "set_allow_unix_sockets s sockets = set_unix_socket_entries s sockets Socket_Allow"

definition allows_method :: "network_mode \<Rightarrow> rstr \<Rightarrow> bool" where
  "allows_method mode method =
     (case mode of
        Mode_Full \<Rightarrow> True
      | Mode_Limited \<Rightarrow> method \<in> {lit ''GET'', lit ''HEAD'', lit ''OPTIONS''})"

section \<open>Addresses to listen on\<close>

type_synonym port = "16 word"

record socket_addr =
  sock_ip :: ip_addr
  sock_port :: port

abbreviation loopback_ip :: ip_addr where
  "loopback_ip \<equiv> V4 (ipv4_of_octets 127 0 0 1)"

definition clamp_non_loopback :: "socket_addr \<Rightarrow> bool \<Rightarrow> socket_addr" where
  "clamp_non_loopback addr allow_non_loopback =
     (if ip_is_loopback (sock_ip addr) then addr
      else if allow_non_loopback then addr
      else \<lparr>sock_ip = loopback_ip, sock_port = sock_port addr\<rparr>)"

definition clamp_bind_addrs ::
    "socket_addr \<Rightarrow> socket_addr \<Rightarrow> network_settings \<Rightarrow> socket_addr \<times> socket_addr" where
  "clamp_bind_addrs http0 socks0 cfg =
     (let http_addr = clamp_non_loopback http0 (net_allow_non_loopback_proxy cfg);
          socks_addr = clamp_non_loopback socks0 (net_allow_non_loopback_proxy cfg)
      in if allow_unix_sockets cfg = [] \<and> \<not> net_allow_all_unix_sockets cfg then (http_addr, socks_addr)
         else (\<lparr>sock_ip = loopback_ip, sock_port = sock_port http_addr\<rparr>,
               \<lparr>sock_ip = loopback_ip, sock_port = sock_port socks_addr\<rparr>))"

text \<open>\<^verbatim>\<open>str::parse::<u16>\<close>: an optional plus, at least one digit, and no overflow.\<close>

definition parse_u16 :: "rstr \<Rightarrow> port option" where
  "parse_u16 s =
     (let digits = (case strip_prefix (lit ''+'') s of Some d \<Rightarrow> d | None \<Rightarrow> s) in
      case read_digits 10 digits of
        (ds, []) \<Rightarrow> if ds = [] \<or> digits_value 10 ds \<ge> 65536 then None else Some (of_nat (digits_value 10 ds))
      | _ \<Rightarrow> None)"

record socket_address_parts =
  part_host :: rstr
  part_port :: port

text \<open>The error is the missing host, with the text it is reported for.\<close>

datatype address_error = MissingHost rstr

definition parse_host_port_fallback :: "rstr \<Rightarrow> port \<Rightarrow> (socket_address_parts, address_error) result" where
  "parse_host_port_fallback input default_port =
     (let without_scheme = (case split_once_str (lit ''://'') input of Some (_, rest) \<Rightarrow> rest | None \<Rightarrow> input);
          host_port0 = takeWhile (\<lambda>c. c \<noteq> 47) without_scheme;
          host_port = (case rsplit_once 64 host_port0 of Some (_, rest) \<Rightarrow> rest | None \<Rightarrow> host_port0)
      in if starts_with host_port (lit ''['') \<and> 93 \<in> set host_port
         then
           (let host = takeWhile (\<lambda>c. c \<noteq> 93) (tl host_port);
                after = tl (dropWhile (\<lambda>c. c \<noteq> 93) host_port);
                port = (case Option.bind (strip_prefix (lit '':'') after) parse_u16 of Some p \<Rightarrow> p | None \<Rightarrow> default_port)
            in if host = [] then Inl (MissingHost input) else Inr \<lparr>part_host = host, part_port = port\<rparr>)
         else if length (filter (\<lambda>b. b = 58) host_port) = 1
         then
           (case rsplit_once 58 host_port of
              Some (host, port) \<Rightarrow>
                if host = [] then Inl (MissingHost input)
                else Inr \<lparr>part_host = host, part_port = (case parse_u16 port of Some p \<Rightarrow> p | None \<Rightarrow> default_port)\<rparr>
            | None \<Rightarrow>
                if host_port = [] then Inl (MissingHost input)
                else Inr \<lparr>part_host = host_port, part_port = default_port\<rparr>)
         else if host_port = [] then Inl (MissingHost input)
         else Inr \<lparr>part_host = host_port, part_port = default_port\<rparr>)"

text \<open>\<^verbatim>\<open>Url::parse\<close>, with \<^verbatim>\<open>host_str\<close> and \<^verbatim>\<open>port\<close> of the result.\<close>

type_synonym url_parser = "rstr \<Rightarrow> (rstr option \<times> port option) option"

definition trim_brackets :: "rstr \<Rightarrow> rstr" where
  "trim_brackets s =
     rev (dropWhile (\<lambda>c. c = 91 \<or> c = 93) (rev (dropWhile (\<lambda>c. c = 91 \<or> c = 93) s)))"

definition parse_host_port :: "url_parser \<Rightarrow> rstr \<Rightarrow> port \<Rightarrow> (socket_address_parts, address_error) result" where
  "parse_host_port url_parse url default_port =
     (let trimmed = trim url in
      if trimmed = [] then Inl (MissingHost url)
      else if (case parse_ip trimmed of Some (V6 _) \<Rightarrow> True | _ \<Rightarrow> False) \<and> \<not> starts_with trimmed (lit ''['')
      then Inr \<lparr>part_host = trimmed, part_port = default_port\<rparr>
      else
        (let candidate = (if contains_str trimmed (lit ''://'') then trimmed else lit ''http://'' @ trimmed) in
         case url_parse candidate of
           Some (Some host0, port) \<Rightarrow>
             (let host = trim_brackets host0 in
              if host = [] then Inl (MissingHost url)
              else Inr \<lparr>part_host = host, part_port = (case port of Some p \<Rightarrow> p | None \<Rightarrow> default_port)\<rparr>)
         | _ \<Rightarrow> parse_host_port_fallback trimmed default_port))"

definition resolve_addr :: "url_parser \<Rightarrow> rstr \<Rightarrow> port \<Rightarrow> (socket_addr, address_error) result" where
  "resolve_addr url_parse url default_port =
     (case parse_host_port url_parse url default_port of
        Inl e \<Rightarrow> Inl e
      | Inr addr_parts \<Rightarrow>
          (let host = (if eq_ignore_ascii_case (part_host addr_parts) (lit ''localhost'') then lit ''127.0.0.1''
                       else part_host addr_parts)
           in case parse_ip host of
                Some ip \<Rightarrow> Inr \<lparr>sock_ip = ip, sock_port = part_port addr_parts\<rparr>
              | None \<Rightarrow> Inr \<lparr>sock_ip = loopback_ip, sock_port = part_port addr_parts\<rparr>))"

definition format_host_and_port :: "rstr \<Rightarrow> port \<Rightarrow> rstr" where
  "format_host_and_port host port =
     (if 58 \<in> set host then lit ''['' @ host @ lit '']:'' @ show_nat (unat port)
      else host @ lit '':'' @ show_nat (unat port))"

definition host_and_port_from_network_addr :: "url_parser \<Rightarrow> rstr \<Rightarrow> port \<Rightarrow> rstr" where
  "host_and_port_from_network_addr url_parse value default_port =
     (let trimmed = trim value in
      if trimmed = [] then lit ''<missing>''
      else
        (case parse_host_port url_parse trimmed default_port of
           Inr parts \<Rightarrow> format_host_and_port (part_host parts) (part_port parts)
         | Inl _ \<Rightarrow> format_host_and_port trimmed default_port))"

section \<open>Unix sockets\<close>

text \<open>On Unix the native branch takes every absolute path, so the second one is never reached.\<close>

datatype validated_unix_socket_path = Socket_Native path | Socket_UnixStyleAbsolute rstr

definition validated_unix_socket_path_parse ::
    "path option \<Rightarrow> (path, 'e) result \<Rightarrow> rstr \<Rightarrow> validated_unix_socket_path option" where
  "validated_unix_socket_path_parse home cwd socket_path =
     (if is_absolute socket_path
      then (case from_absolute_path home cwd socket_path of Inr p \<Rightarrow> Some (Socket_Native p) | Inl _ \<Rightarrow> None)
      else if starts_with socket_path (lit ''/'') then Some (Socket_UnixStyleAbsolute socket_path)
      else None)"

text \<open>The index of the first entry that is not valid.\<close>

definition validate_unix_socket_allowlist_paths ::
    "path option \<Rightarrow> (path, 'e) result \<Rightarrow> network_settings \<Rightarrow> (unit, nat) result" where
  "validate_unix_socket_allowlist_paths home cwd cfg =
     (case find (\<lambda>(_, p). validated_unix_socket_path_parse home cwd p = None)
             (enumerate 0 (allow_unix_sockets cfg)) of
        Some (index, _) \<Rightarrow> Inl index
      | None \<Rightarrow> Inr ())"

datatype runtime_error = BadSocket nat | BadProxyUrl address_error | BadSocksUrl address_error

definition resolve_runtime ::
    "url_parser \<Rightarrow> path option \<Rightarrow> (path, 'e) result \<Rightarrow> network_settings \<Rightarrow>
     (socket_addr \<times> socket_addr, runtime_error) result" where
  "resolve_runtime url_parse home cwd cfg =
     (case validate_unix_socket_allowlist_paths home cwd cfg of
        Inl i \<Rightarrow> Inl (BadSocket i)
      | Inr _ \<Rightarrow>
          (case resolve_addr url_parse (net_proxy_url cfg) 3128 of
             Inl e \<Rightarrow> Inl (BadProxyUrl e)
           | Inr http_addr \<Rightarrow>
               (case resolve_addr url_parse (net_socks_url cfg) 8081 of
                  Inl e \<Rightarrow> Inl (BadSocksUrl e)
                | Inr socks_addr \<Rightarrow> Inr (clamp_bind_addrs http_addr socks_addr cfg))))"

end
