(* ===== verification/Network_State.thy ===== *)
theory Network_State
  imports Network_Config
begin

text \<open>
  \<^verbatim>\<open>codex-rs/network-proxy/src/state.rs\<close> and \<^verbatim>\<open>runtime.rs\<close>: the state of the network proxy, the constraints of a
  managed configuration, the decision about a host, and the operations that change the state. What the
  operations ask of the outside (the reloader, DNS, the other crates) is given by arguments. An operation
  that reads the shared state, computes and then takes the lock to write is given the state at both times.
\<close>

section \<open>State\<close>

record network_constraints =
  con_enabled :: "bool option"
  con_mode :: "network_mode option"
  con_allow_upstream_proxy :: "bool option"
  con_allow_non_loopback_proxy :: "bool option"
  con_allow_all_unix_sockets :: "bool option"
  con_allowed_domains :: "rstr list option"
  con_allowlist_expansion_enabled :: "bool option"
  con_denied_domains :: "rstr list option"
  con_denylist_expansion_enabled :: "bool option"
  con_allow_unix_sockets :: "rstr list option"
  con_allow_local_binding :: "bool option"

text \<open>The requests that were blocked are of any type; \<open>'m\<close> is the state of the interception of TLS.\<close>

record ('b, 'm) config_state =
  cs_config :: network_settings
  cs_allow_set :: "rstr \<Rightarrow> bool"
  cs_deny_set :: "rstr \<Rightarrow> bool"
  cs_mitm :: "'m option"
  cs_constraints :: network_constraints
  cs_blocked :: "'b list"
  cs_blocked_total :: nat

text \<open>The texts of an error; a list is what \<^verbatim>\<open>Debug\<close> renders, in no order where it comes from a hash set.\<close>

datatype constraint_text = Txt rstr | Listed "rstr list"

datatype constraint_error = InvalidValue rstr constraint_text constraint_text

section \<open>Constraints\<close>

definition network_mode_rank :: "network_mode \<Rightarrow> nat" where
  "network_mode_rank mode = (case mode of Mode_Limited \<Rightarrow> 0 | Mode_Full \<Rightarrow> 1)"

definition show_mode :: "network_mode \<Rightarrow> rstr" where
  "show_mode mode = (case mode of Mode_Limited \<Rightarrow> lit ''Limited'' | Mode_Full \<Rightarrow> lit ''Full'')"

definition then_check :: "(unit, 'e) result \<Rightarrow> (unit, 'e) result \<Rightarrow> (unit, 'e) result" where
  "then_check a b = (case a of Inl e \<Rightarrow> Inl e | Inr _ \<Rightarrow> b)"

definition disabled_by_managed :: "rstr \<Rightarrow> constraint_error" where
  "disabled_by_managed field_name =
     InvalidValue field_name (Txt (lit ''true'')) (Txt (lit ''false (disabled by managed config)''))"

definition validate_non_global_wildcard_domain_patterns ::
    "rstr \<Rightarrow> rstr list \<Rightarrow> (unit, constraint_error) result" where
  "validate_non_global_wildcard_domain_patterns field_name patterns =
     (case find is_global_wildcard_domain_pattern patterns of
        Some pattern \<Rightarrow>
          Inl (InvalidValue field_name (Txt (trim pattern))
                 (Txt (lit ''exact hosts or scoped wildcards like *.example.com or **.example.com'')))
      | None \<Rightarrow> Inr ())"

definition check_enabled :: "network_settings \<Rightarrow> network_constraints \<Rightarrow> (unit, constraint_error) result" where
  "check_enabled cfg con =
     (case con_enabled con of
        Some max_enabled \<Rightarrow>
          if net_enabled cfg \<and> \<not> max_enabled then Inl (disabled_by_managed (lit ''network.enabled'')) else Inr ()
      | None \<Rightarrow> Inr ())"

definition check_mode :: "network_settings \<Rightarrow> network_constraints \<Rightarrow> (unit, constraint_error) result" where
  "check_mode cfg con =
     (case con_mode con of
        Some max_mode \<Rightarrow>
          if network_mode_rank (net_mode cfg) > network_mode_rank max_mode
          then Inl (InvalidValue (lit ''network.mode'') (Txt (show_mode (net_mode cfg)))
                      (Txt (show_mode max_mode @ lit '' or more restrictive'')))
          else Inr ()
      | None \<Rightarrow> Inr ())"

definition check_flag :: "rstr \<Rightarrow> bool \<Rightarrow> bool option \<Rightarrow> (unit, constraint_error) result" where
  "check_flag field_name candidate allow =
     (case allow of
        Some False \<Rightarrow> if candidate then Inl (disabled_by_managed field_name) else Inr ()
      | _ \<Rightarrow> Inr ())"

definition check_all_unix_sockets :: "network_settings \<Rightarrow> network_constraints \<Rightarrow> (unit, constraint_error) result" where
  "check_all_unix_sockets cfg con =
     (let allow = (case con_allow_all_unix_sockets con of Some b \<Rightarrow> b | None \<Rightarrow> con_allow_unix_sockets con = None)
      in if net_allow_all_unix_sockets cfg \<and> \<not> allow
         then Inl (disabled_by_managed (lit ''network.dangerously_allow_all_unix_sockets'')) else Inr ())"

definition lower_set :: "rstr list \<Rightarrow> rstr set" where
  "lower_set xs = set (map to_ascii_lowercase xs)"

definition check_allowed_domains ::
    "glob_env \<Rightarrow> network_settings \<Rightarrow> network_constraints \<Rightarrow> (unit, constraint_error) result" where
  "check_allowed_domains ge cfg con =
     (case con_allowed_domains con of
        None \<Rightarrow> Inr ()
      | Some managed \<Rightarrow>
          (let field = lit ''network.allowed_domains'';
               candidate = unwrap_or_default (allowed_domains cfg);
               denied_domain_overrides = lower_set (unwrap_or_default (denied_domains cfg))
           in then_check (validate_non_global_wildcard_domain_patterns field managed)
                (case con_allowlist_expansion_enabled con of
                   Some True \<Rightarrow>
                     (let missing = filter (\<lambda>entry. entry \<notin> lower_set candidate \<and> entry \<notin> denied_domain_overrides)
                                      (map to_ascii_lowercase managed)
                      in if missing = [] then Inr ()
                         else Inl (InvalidValue field (Txt (lit ''missing managed allowed_domains entries''))
                                     (Listed (remdups missing))))
                 | Some False \<Rightarrow>
                     if lower_set candidate = lower_set managed - denied_domain_overrides then Inr ()
                     else Inl (InvalidValue field (Listed candidate) (Txt (lit ''must match managed allowed_domains'')))
                 | None \<Rightarrow>
                     (let invalid = filter (\<lambda>entry. \<not> list_ex (\<lambda>m. domain_pattern_allows (parse_for_constraints ge m)
                                                                     (parse_for_constraints ge entry)) managed) candidate
                      in if invalid = [] then Inr ()
                         else Inl (InvalidValue field (Listed invalid)
                                     (Txt (lit ''subset of managed allowed_domains'')))))))"

definition check_denied_domains :: "network_settings \<Rightarrow> network_constraints \<Rightarrow> (unit, constraint_error) result" where
  "check_denied_domains cfg con =
     (case con_denied_domains con of
        None \<Rightarrow> Inr ()
      | Some managed \<Rightarrow>
          (let field = lit ''network.denied_domains'';
               candidate = unwrap_or_default (denied_domains cfg)
           in then_check (validate_non_global_wildcard_domain_patterns field managed)
                (if con_denylist_expansion_enabled con = Some False
                 then
                   (if lower_set candidate = lower_set managed then Inr ()
                    else Inl (InvalidValue field (Listed candidate) (Txt (lit ''must match managed denied_domains''))))
                 else
                   (let missing = filter (\<lambda>entry. entry \<notin> lower_set candidate) (map to_ascii_lowercase managed)
                    in if missing = [] then Inr ()
                       else Inl (InvalidValue field (Txt (lit ''missing managed denied_domains entries''))
                                   (Listed (remdups missing)))))))"

definition check_unix_sockets :: "network_settings \<Rightarrow> network_constraints \<Rightarrow> (unit, constraint_error) result" where
  "check_unix_sockets cfg con =
     (case con_allow_unix_sockets con of
        None \<Rightarrow> Inr ()
      | Some allowed \<Rightarrow>
          (let invalid = filter (\<lambda>entry. to_ascii_lowercase entry \<notin> lower_set allowed) (allow_unix_sockets cfg)
           in if invalid = [] then Inr ()
              else Inl (InvalidValue (lit ''network.allow_unix_sockets'') (Listed invalid)
                          (Txt (lit ''subset of managed allow_unix_sockets'')))))"

definition validate_policy_against_constraints ::
    "glob_env \<Rightarrow> network_settings \<Rightarrow> network_constraints \<Rightarrow> (unit, constraint_error) result" where
  "validate_policy_against_constraints ge cfg con =
     then_check (validate_non_global_wildcard_domain_patterns (lit ''network.denied_domains'')
                   (unwrap_or_default (denied_domains cfg)))
    (then_check (check_enabled cfg con)
    (then_check (check_mode cfg con)
    (then_check (check_flag (lit ''network.allow_upstream_proxy'') (net_allow_upstream_proxy cfg)
                   (con_allow_upstream_proxy con))
    (then_check (check_flag (lit ''network.dangerously_allow_non_loopback_proxy'') (net_allow_non_loopback_proxy cfg)
                   (con_allow_non_loopback_proxy con))
    (then_check (check_all_unix_sockets cfg con)
    (then_check (check_flag (lit ''network.allow_local_binding'') (net_allow_local_binding cfg)
                   (con_allow_local_binding con))
    (then_check (check_allowed_domains ge cfg con)
    (then_check (check_denied_domains cfg con)
                (check_unix_sockets cfg con)))))))))"

section \<open>Building the state\<close>

text \<open>What building needs of the outside; \<open>ne_mitm\<close> makes the interception from the two flags it is given.\<close>

record 'm net_env =
  ne_globs :: glob_env
  ne_home :: "path option"
  ne_current_dir :: "(path, unit) result"
  ne_mitm :: "bool \<Rightarrow> bool \<Rightarrow> ('m, rstr) result"
  ne_canonicalize :: "path \<Rightarrow> path option"
  ne_unix_sockets_supported :: bool

datatype build_error =
    Build_Socket nat
  | Build_Constraint constraint_error
  | Build_Globs rstr
  | Build_Mitm rstr

definition build_config_state ::
    "'m net_env \<Rightarrow> network_settings \<Rightarrow> network_constraints \<Rightarrow> (('b, 'm) config_state, build_error) result" where
  "build_config_state ne config constraints =
     (case validate_unix_socket_allowlist_paths (ne_home ne) (ne_current_dir ne) config of
        Inl i \<Rightarrow> Inl (Build_Socket i)
      | Inr _ \<Rightarrow>
          (let allowed = unwrap_or_default (allowed_domains config); denied = unwrap_or_default (denied_domains config) in
           case validate_non_global_wildcard_domain_patterns (lit ''network.denied_domains'') denied of
             Inl e \<Rightarrow> Inl (Build_Constraint e)
           | Inr _ \<Rightarrow>
               (case compile_denylist_globset (ne_globs ne) denied of
                  Inl e \<Rightarrow> Inl (Build_Globs e)
                | Inr deny_set \<Rightarrow>
                    (case compile_allowlist_globset (ne_globs ne) allowed of
                       Inl e \<Rightarrow> Inl (Build_Globs e)
                     | Inr allow_set \<Rightarrow>
                         (case (if net_mitm config
                                then map_sum id Some (ne_mitm ne (net_allow_upstream_proxy config) (net_allow_local_binding config))
                                else Inr None) of
                            Inl e \<Rightarrow> Inl (Build_Mitm e)
                          | Inr mitm \<Rightarrow>
                              Inr \<lparr>cs_config = config, cs_allow_set = allow_set, cs_deny_set = deny_set, cs_mitm = mitm,
                                   cs_constraints = constraints, cs_blocked = [], cs_blocked_total = 0\<rparr>)))))"

section \<open>Reloading\<close>

text \<open>The blocked requests of \<open>snapshot\<close>, the state when it was read, go into the new state.\<close>

definition reload_if_needed ::
    "(('b, 'm) config_state option, rstr) result \<Rightarrow> ('b, 'm) config_state \<Rightarrow> ('b, 'm) config_state \<Rightarrow>
     (unit, rstr) result \<times> ('b, 'm) config_state" where
  "reload_if_needed reloaded snapshot guard =
     (case reloaded of
        Inl e \<Rightarrow> (Inl e, guard)
      | Inr None \<Rightarrow> (Inr (), guard)
      | Inr (Some new_state) \<Rightarrow>
          (Inr (), new_state\<lparr>cs_blocked := cs_blocked snapshot, cs_blocked_total := cs_blocked_total snapshot\<rparr>))"

definition force_reload ::
    "(('b, 'm) config_state, rstr) result \<Rightarrow> ('b, 'm) config_state \<Rightarrow> (unit, rstr) result \<times> ('b, 'm) config_state" where
  "force_reload reloaded guard =
     (case reloaded of
        Inr new_state \<Rightarrow> (Inr (), new_state\<lparr>cs_blocked := cs_blocked guard\<rparr>)
      | Inl err \<Rightarrow> (Inl err, guard))"

definition replace_config_state :: "('b, 'm) config_state \<Rightarrow> ('b, 'm) config_state \<Rightarrow> ('b, 'm) config_state" where
  "replace_config_state new_state guard =
     new_state\<lparr>cs_blocked := cs_blocked guard, cs_blocked_total := cs_blocked_total guard\<rparr>"

section \<open>The decision about a host\<close>

datatype host_block_reason = Reason_Denied | Reason_NotAllowed | Reason_NotAllowedLocal

datatype host_block_decision = Host_Allowed | Host_Blocked host_block_reason

datatype dns_answer = Dns_Addrs "ip_addr list" | Dns_Error | Dns_Timeout

definition host_resolves_to_non_public_ip :: "rstr \<Rightarrow> dns_answer \<Rightarrow> bool" where
  "host_resolves_to_non_public_ip host answer =
     (case parse_ip host of
        Some ip \<Rightarrow> is_non_public_ip ip
      | None \<Rightarrow>
          (case answer of
             Dns_Addrs addrs \<Rightarrow> list_ex is_non_public_ip addrs
           | Dns_Error \<Rightarrow> True
           | Dns_Timeout \<Rightarrow> True))"

definition globset_matches_host_or_unscoped :: "(rstr \<Rightarrow> bool) \<Rightarrow> rstr \<Rightarrow> bool" where
  "globset_matches_host_or_unscoped m host \<longleftrightarrow>
     m host \<or> (case unscoped_ip_literal host of Some ip \<Rightarrow> m ip | None \<Rightarrow> False)"

definition is_explicit_local_allowlisted :: "rstr list \<Rightarrow> rstr \<Rightarrow> bool" where
  "is_explicit_local_allowlisted domains host =
     list_ex (\<lambda>pattern0.
        let pattern = trim pattern0 in
        if pattern = lit ''*'' \<or> starts_with pattern (lit ''*.'') \<or> starts_with pattern (lit ''**.'') then False
        else if 42 \<in> set pattern \<or> 63 \<in> set pattern then False
        else
          (let normalized_pattern = normalize_host pattern in
           normalized_pattern = host \<or>
           (case unscoped_ip_literal host of Some ip \<Rightarrow> normalized_pattern = ip | None \<Rightarrow> False))) domains"

definition is_local_literal :: "rstr \<Rightarrow> bool" where
  "is_local_literal host =
     (let host_no_scope = (case unscoped_ip_literal host of Some ip \<Rightarrow> ip | None \<Rightarrow> host) in
      if is_loopback_host host then True
      else (case parse_ip host_no_scope of Some ip \<Rightarrow> is_non_public_ip ip | None \<Rightarrow> False))"

text \<open>The decision in a state that needs no reload; \<open>dns\<close> is asked for the host and the port.\<close>

definition host_blocked ::
    "(rstr \<Rightarrow> port \<Rightarrow> dns_answer) \<Rightarrow> ('b, 'm) config_state \<Rightarrow> rstr \<Rightarrow> port \<Rightarrow> host_block_decision" where
  "host_blocked dns st host0 port =
     (case host_parse host0 of
        None \<Rightarrow> Host_Blocked Reason_NotAllowed
      | Some host \<Rightarrow>
          (let allowed = allowed_domains (cs_config st);
               is_allowlisted = globset_matches_host_or_unscoped (cs_allow_set st) host;
               by_allowlist = (if allowed = None \<or> \<not> is_allowlisted then Host_Blocked Reason_NotAllowed else Host_Allowed)
           in if globset_matches_host_or_unscoped (cs_deny_set st) host then Host_Blocked Reason_Denied
              else if \<not> net_allow_local_binding (cs_config st) then
                (if is_local_literal host then
                   (if \<not> is_explicit_local_allowlisted (unwrap_or_default allowed) host
                    then Host_Blocked Reason_NotAllowedLocal else by_allowlist)
                 else if host_resolves_to_non_public_ip host (dns host port) then Host_Blocked Reason_NotAllowedLocal
                 else by_allowlist)
              else by_allowlist))"

section \<open>Blocked requests\<close>

definition MAX_BLOCKED_EVENTS :: nat where
  "MAX_BLOCKED_EVENTS = 200"

text \<open>\<^verbatim>\<open>while len > MAX { pop_front }\<close>\<close>

fun pop_front_loop :: "'b list \<Rightarrow> 'b list" where
  "pop_front_loop [] = []"
| "pop_front_loop (x # xs) = (if length (x # xs) > MAX_BLOCKED_EVENTS then pop_front_loop xs else x # xs)"

definition record_blocked :: "'b \<Rightarrow> ('b, 'm) config_state \<Rightarrow> ('b, 'm) config_state" where
  "record_blocked entry guard =
     guard\<lparr>cs_blocked := pop_front_loop (cs_blocked guard @ [entry]),
           cs_blocked_total := sat_add (cs_blocked_total guard) 1\<rparr>"

definition blocked_snapshot :: "('b, 'm) config_state \<Rightarrow> 'b list" where
  "blocked_snapshot guard = cs_blocked guard"

definition drain_blocked :: "('b, 'm) config_state \<Rightarrow> 'b list \<times> ('b, 'm) config_state" where
  "drain_blocked guard = (cs_blocked guard, guard\<lparr>cs_blocked := []\<rparr>)"

section \<open>Unix sockets\<close>

definition is_unix_socket_allowed :: "'m net_env \<Rightarrow> ('b, 'm) config_state \<Rightarrow> rstr \<Rightarrow> bool" where
  "is_unix_socket_allowed ne guard p =
     (if \<not> ne_unix_sockets_supported ne then False
      else if \<not> is_absolute p then False
      else if net_allow_all_unix_sockets (cs_config guard) then True
      else
        (case from_absolute_path (ne_home ne) (ne_current_dir ne) p of
           Inl _ \<Rightarrow> False
         | Inr requested_abs \<Rightarrow>
             (let requested_canonical = ne_canonicalize ne requested_abs in
              list_ex (\<lambda>allowed.
                 case validated_unix_socket_path_parse (ne_home ne) (ne_current_dir ne) allowed of
                   Some (Socket_Native allowed_path) \<Rightarrow>
                     components allowed_path = components requested_abs \<or>
                     (case (requested_canonical, ne_canonicalize ne allowed_path) of
                        (Some r, Some a) \<Rightarrow> components a = components r
                      | _ \<Rightarrow> False)
                 | _ \<Rightarrow> False) (allow_unix_sockets (cs_config guard)))))"

section \<open>Changing the mode and the domain lists\<close>

text \<open>
  One round of the loops that read the state (\<open>seen\<close>), compute, and take the lock to write (\<open>guard\<close>):
  the result with the state after it, or another round when the state has changed meanwhile.
\<close>

datatype ('e, 's) attempt = Finished "(unit, 'e) result" 's | Retry

datatype network_error = Net_InvalidHost | Net_Constraint rstr constraint_error | Net_Build build_error

definition set_network_mode_attempt ::
    "glob_env \<Rightarrow> network_mode \<Rightarrow> ('b, 'm) config_state \<Rightarrow> ('b, 'm) config_state \<Rightarrow>
     (network_error, ('b, 'm) config_state) attempt" where
  "set_network_mode_attempt ge mode seen guard =
     (let candidate = (cs_config seen)\<lparr>net_mode := mode\<rparr> in
      case validate_policy_against_constraints ge candidate (cs_constraints seen) of
        Inl e \<Rightarrow> Finished (Inl (Net_Constraint (lit ''network.mode'') e)) guard
      | Inr _ \<Rightarrow>
          if cs_constraints guard \<noteq> cs_constraints seen then Retry
          else Finished (Inr ()) (guard\<lparr>cs_config := (cs_config guard)\<lparr>net_mode := mode\<rparr>\<rparr>))"

datatype domain_list_kind = List_Allow | List_Deny

definition constraint_field :: "domain_list_kind \<Rightarrow> rstr" where
  "constraint_field k = (case k of List_Allow \<Rightarrow> lit ''network.allowed_domains'' | List_Deny \<Rightarrow> lit ''network.denied_domains'')"

definition list_permission :: "domain_list_kind \<Rightarrow> network_domain_permission" where
  "list_permission k = (case k of List_Allow \<Rightarrow> Perm_Allow | List_Deny \<Rightarrow> Perm_Deny)"

definition list_entries :: "domain_list_kind \<Rightarrow> network_settings \<Rightarrow> rstr list" where
  "list_entries k network =
     unwrap_or_default (case k of List_Allow \<Rightarrow> allowed_domains network | List_Deny \<Rightarrow> denied_domains network)"

definition list_opposite_entries :: "domain_list_kind \<Rightarrow> network_settings \<Rightarrow> rstr list" where
  "list_opposite_entries k network =
     unwrap_or_default (case k of List_Allow \<Rightarrow> denied_domains network | List_Deny \<Rightarrow> allowed_domains network)"

definition update_domain_list_attempt ::
    "'m net_env \<Rightarrow> rstr \<Rightarrow> domain_list_kind \<Rightarrow> ('b, 'm) config_state \<Rightarrow> ('b, 'm) config_state \<Rightarrow>
     (network_error, ('b, 'm) config_state) attempt" where
  "update_domain_list_attempt ne normalized_host k seen guard =
     (let target_contains = list_ex (\<lambda>entry. normalize_host entry = normalized_host) (list_entries k (cs_config seen));
          opposite_contains =
            list_ex (\<lambda>entry. normalize_host entry = normalized_host) (list_opposite_entries k (cs_config seen));
          candidate = upsert_domain_permission (cs_config seen) normalized_host (list_permission k) normalize_host
      in if target_contains \<and> \<not> opposite_contains then Finished (Inr ()) guard
         else
           (case validate_policy_against_constraints (ne_globs ne) candidate (cs_constraints seen) of
              Inl e \<Rightarrow> Finished (Inl (Net_Constraint (constraint_field k) e)) guard
            | Inr _ \<Rightarrow>
                (case build_config_state ne candidate (cs_constraints seen) of
                   Inl e \<Rightarrow> Finished (Inl (Net_Build e)) guard
                 | Inr new_state \<Rightarrow>
                     if cs_constraints guard \<noteq> cs_constraints seen \<or> cs_config guard \<noteq> cs_config seen then Retry
                     else Finished (Inr ()) (new_state\<lparr>cs_blocked := cs_blocked seen,
                                                       cs_blocked_total := cs_blocked_total seen\<rparr>))))"

text \<open>The loop, over the states each round meets; \<open>None\<close> when it is still running after all of them.\<close>

fun update_domain_list ::
    "'m net_env \<Rightarrow> rstr \<Rightarrow> domain_list_kind \<Rightarrow> (('b, 'm) config_state \<times> ('b, 'm) config_state) list \<Rightarrow>
     ((unit, network_error) result \<times> ('b, 'm) config_state option) option" where
  "update_domain_list ne host k rounds =
     (case host_parse host of
        None \<Rightarrow> Some (Inl Net_InvalidHost, None)
      | Some normalized_host \<Rightarrow>
          (case rounds of
             [] \<Rightarrow> None
           | (seen, guard) # rest \<Rightarrow>
               (case update_domain_list_attempt ne normalized_host k seen guard of
                  Finished r st \<Rightarrow> Some (r, Some st)
                | Retry \<Rightarrow> update_domain_list ne host k rest)))"

declare update_domain_list.simps [simp del]

section \<open>Requests\<close>

text \<open>
  The methods of the shared state first look for a newer configuration, then act on the state they find.
  Here a method runs alone; the operations above, with the states of both times, cover what happens
  between the two locks.
\<close>

definition after_reload ::
    "(('b, 'm) config_state option, rstr) result \<Rightarrow> (('b, 'm) config_state \<Rightarrow> 'a \<times> ('b, 'm) config_state) \<Rightarrow>
     ('b, 'm) config_state \<Rightarrow> ('a, rstr) result \<times> ('b, 'm) config_state" where
  "after_reload reloaded f guard =
     (case reload_if_needed reloaded guard guard of
        (Inl e, st) \<Rightarrow> (Inl e, st)
      | (Inr _, st) \<Rightarrow> (case f st of (a, st') \<Rightarrow> (Inr a, st')))"

definition current_cfg where
  "current_cfg reloaded = after_reload reloaded (\<lambda>st. (cs_config st, st))"

definition current_patterns where
  "current_patterns reloaded =
     after_reload reloaded (\<lambda>st. ((unwrap_or_default (allowed_domains (cs_config st)),
                                   unwrap_or_default (denied_domains (cs_config st))), st))"

definition network_enabled where
  "network_enabled reloaded = after_reload reloaded (\<lambda>st. (net_enabled (cs_config st), st))"

definition replace_config_state_request where
  "replace_config_state_request reloaded new_state = after_reload reloaded (\<lambda>st. ((), replace_config_state new_state st))"

definition host_blocked_request where
  "host_blocked_request dns reloaded host port = after_reload reloaded (\<lambda>st. (host_blocked dns st host port, st))"

definition record_blocked_request where
  "record_blocked_request reloaded entry = after_reload reloaded (\<lambda>st. ((), record_blocked entry st))"

definition blocked_snapshot_request where
  "blocked_snapshot_request reloaded = after_reload reloaded (\<lambda>st. (blocked_snapshot st, st))"

definition drain_blocked_request where
  "drain_blocked_request reloaded = after_reload reloaded drain_blocked"

definition is_unix_socket_allowed_request where
  "is_unix_socket_allowed_request ne reloaded p = after_reload reloaded (\<lambda>st. (is_unix_socket_allowed ne st p, st))"

definition method_allowed where
  "method_allowed reloaded method = after_reload reloaded (\<lambda>st. (allows_method (net_mode (cs_config st)) method, st))"

definition allow_upstream_proxy where
  "allow_upstream_proxy reloaded = after_reload reloaded (\<lambda>st. (net_allow_upstream_proxy (cs_config st), st))"

definition allow_local_binding where
  "allow_local_binding reloaded = after_reload reloaded (\<lambda>st. (net_allow_local_binding (cs_config st), st))"

definition current_network_mode where
  "current_network_mode reloaded = after_reload reloaded (\<lambda>st. (net_mode (cs_config st), st))"

definition mitm_state where
  "mitm_state reloaded = after_reload reloaded (\<lambda>st. (cs_mitm st, st))"

end
