(* ===== verification/Host_Policy_Correct.thy ===== *)
theory Host_Policy_Correct
  imports Host_Policy
begin

text \<open>
  The host policy of the network proxy: addresses read back what is written, the classification of
  addresses is a list of ranges, and the comparison of domain patterns is inclusion of the hosts they
  match.
\<close>

unbundle bit_operations_syntax

section \<open>Ranges of addresses\<close>

lemma and_high_mask: "ip AND NOT (mask k) = push_bit k (drop_bit k ip)" for ip :: "'a::len word"
  by (rule bit_word_eqI) (auto simp: bit_simps)

lemma push_drop_inject: "push_bit k (drop_bit k a) = push_bit k (drop_bit k b) \<longleftrightarrow> drop_bit k a = drop_bit k b"
  for a b :: "'a::len word"
proof
  assume eq: "push_bit k (drop_bit k a) = push_bit k (drop_bit k b)"
  show "drop_bit k a = drop_bit k b"
  proof (rule bit_word_eqI)
    fix n assume "n < LENGTH('a)"
    have "bit (push_bit k (drop_bit k a)) (n + k) = bit (push_bit k (drop_bit k b)) (n + k)" using eq by simp
    then show "bit (drop_bit k a) n = bit (drop_bit k b) n"
      by (auto simp: bit_simps ac_simps dest: bit_imp_le_length)
  qed
qed simp

lemma unat_drop_bit: "unat (drop_bit k a) = unat a div 2 ^ k" for a :: "'a::len word"
  by (subst unat_drop_bit_eq) (rule drop_bit_eq_div)

lemma unat_ipv4_less: "unat ip < 2 ^ 32" for ip :: ipv4
  using unsigned_less [of ip, where 'a = nat] by simp

lemma in_cidr_div:
  assumes "pre \<le> 32"
  shows "ipv4_in_cidr ip base pre \<longleftrightarrow> unat ip div 2 ^ (32 - pre) = unat base div 2 ^ (32 - pre)"
proof -
  have "ipv4_in_cidr ip base pre \<longleftrightarrow> drop_bit (32 - pre) ip = drop_bit (32 - pre) base"
  proof (cases "pre = 0")
    case True
    then show ?thesis using unsigned_less [of ip] unsigned_less [of base]
      by (simp add: ipv4_in_cidr_def word_unat_eq_iff unat_drop_bit)
  next
    case False
    then show ?thesis by (simp add: ipv4_in_cidr_def Let_def and_high_mask push_drop_inject)
  qed
  then show ?thesis by (simp add: word_unat_eq_iff unat_drop_bit)
qed

lemma octet_div: "octet i ip = unat ip div 2 ^ (8 * (3 - i)) mod 256"
proof -
  have "(255::32 word) = mask 8" by (simp add: mask_eq_exp_minus_1)
  then have "drop_bit (8 * (3 - i)) ip AND 255 = take_bit 8 (drop_bit (8 * (3 - i)) ip)"
    by (simp only: take_bit_eq_mask)
  moreover have "unat (take_bit 8 (drop_bit (8 * (3 - i)) ip)) = unat (drop_bit (8 * (3 - i)) ip) mod 2 ^ 8"
    by (subst unsigned_take_bit_eq) (rule take_bit_eq_mod)
  ultimately show ?thesis by (simp add: octet_def unat_drop_bit)
qed

text \<open>
  The addresses that are not public, first and last of each range: this network, private, shared
  (carrier grade), loopback, link local, private, protocol assignments, test, private, benchmarking, test,
  test, multicast and reserved with broadcast.
\<close>

abbreviation dotted_value :: "nat \<Rightarrow> nat \<Rightarrow> nat \<Rightarrow> nat \<Rightarrow> nat" where
  "dotted_value a b c d \<equiv> a * 2 ^ 24 + b * 2 ^ 16 + c * 2 ^ 8 + d"

definition NON_PUBLIC_RANGES :: "(nat \<times> nat) list" where
  "NON_PUBLIC_RANGES =
     [(dotted_value 0 0 0 0, dotted_value 0 255 255 255),
      (dotted_value 10 0 0 0, dotted_value 10 255 255 255),
      (dotted_value 100 64 0 0, dotted_value 100 127 255 255),
      (dotted_value 127 0 0 0, dotted_value 127 255 255 255),
      (dotted_value 169 254 0 0, dotted_value 169 254 255 255),
      (dotted_value 172 16 0 0, dotted_value 172 31 255 255),
      (dotted_value 192 0 0 0, dotted_value 192 0 0 255),
      (dotted_value 192 0 2 0, dotted_value 192 0 2 255),
      (dotted_value 192 168 0 0, dotted_value 192 168 255 255),
      (dotted_value 198 18 0 0, dotted_value 198 19 255 255),
      (dotted_value 198 51 100 0, dotted_value 198 51 100 255),
      (dotted_value 203 0 113 0, dotted_value 203 0 113 255),
      (dotted_value 224 0 0 0, dotted_value 255 255 255 255)]"

lemma div_range: "0 < m \<Longrightarrow> n div m = b \<longleftrightarrow> b * m \<le> n \<and> n < (b + 1) * m" for n m b :: nat
  using less_eq_div_iff_mult_less_eq [of m b n] div_less_iff_less_mult [of m n "b + 1"] by linarith

lemma cidr_range:
  assumes "pre \<le> 32" "unat base div 2 ^ (32 - pre) = b"
  shows "ipv4_in_cidr ip base pre \<longleftrightarrow> b * 2 ^ (32 - pre) \<le> unat ip \<and> unat ip < (b + 1) * 2 ^ (32 - pre)"
  using assms by (simp only: in_cidr_div) (subst div_range, simp_all)

lemma octet0_between: "lo \<le> octet 0 ip \<and> octet 0 ip \<le> hi \<longleftrightarrow> lo * 2 ^ 24 \<le> unat ip \<and> unat ip < (hi + 1) * 2 ^ 24"
proof -
  have "unat ip div 2 ^ 24 < 256" using unat_ipv4_less [of ip] by (simp add: div_less_iff_less_mult)
  then have "octet 0 ip = unat ip div 2 ^ 24" by (simp add: octet_div)
  then show ?thesis
    using less_eq_div_iff_mult_less_eq [of "2 ^ 24" lo "unat ip"] div_less_iff_less_mult [of "2 ^ 24" "unat ip" "hi + 1"]
    by simp linarith
qed

lemma octets01_between:
  assumes "lo < 256" "hi < 256"
  shows "octet 0 ip = b \<and> lo \<le> octet 1 ip \<and> octet 1 ip \<le> hi \<longleftrightarrow>
    (b * 256 + lo) * 2 ^ 16 \<le> unat ip \<and> unat ip < (b * 256 + hi + 1) * 2 ^ 16"
proof -
  define m where "m = unat ip div 2 ^ 16"
  have oct: "octet 0 ip = m div 256" "octet 1 ip = m mod 256"
    using unat_ipv4_less [of ip] by (simp_all add: octet_div m_def div_mult2_eq [symmetric] div_less_iff_less_mult)
  have "m div 256 = b \<and> lo \<le> m mod 256 \<and> m mod 256 \<le> hi \<longleftrightarrow> b * 256 + lo \<le> m \<and> m < b * 256 + hi + 1"
  proof
    assume "m div 256 = b \<and> lo \<le> m mod 256 \<and> m mod 256 \<le> hi"
    then show "b * 256 + lo \<le> m \<and> m < b * 256 + hi + 1" using div_mult_mod_eq [of m 256] by linarith
  next
    assume r: "b * 256 + lo \<le> m \<and> m < b * 256 + hi + 1"
    then have "m div 256 = b" using assms by (simp add: div_range)
    then show "m div 256 = b \<and> lo \<le> m mod 256 \<and> m mod 256 \<le> hi" using r div_mult_mod_eq [of m 256] by linarith
  qed
  also have "\<dots> \<longleftrightarrow> (b * 256 + lo) * 2 ^ 16 \<le> unat ip \<and> unat ip < (b * 256 + hi + 1) * 2 ^ 16"
    unfolding m_def
    using less_eq_div_iff_mult_less_eq [of "2 ^ 16" "b * 256 + lo" "unat ip"]
      div_less_iff_less_mult [of "2 ^ 16" "unat ip" "b * 256 + hi + 1"] by auto
  finally show ?thesis by (simp only: oct)
qed

lemma octet0_range: "octet 0 ip = b \<longleftrightarrow> b * 2 ^ 24 \<le> unat ip \<and> unat ip < (b + 1) * 2 ^ 24"
  using octet0_between [of b ip b] by linarith

lemma octets01_range:
  "c < 256 \<Longrightarrow> octet 0 ip = b \<and> octet 1 ip = c \<longleftrightarrow>
   (b * 256 + c) * 2 ^ 16 \<le> unat ip \<and> unat ip < (b * 256 + c + 1) * 2 ^ 16"
  using octets01_between [of c c ip b] by (metis order_antisym order_refl)

lemma unat_ipv4_of_octets:
  assumes "a < 256" "b < 256" "c < 256" "d < 256"
  shows "unat (ipv4_of_octets a b c d) = dotted_value a b c d"
proof -
  have e: "ipv4_of_octets a b c d = of_nat (dotted_value a b c d)" by (simp add: ipv4_of_octets_def)
  have "dotted_value a b c d < 2 ^ LENGTH(32)" using assms by simp
  then show ?thesis unfolding e unsigned_of_nat by (simp only: take_bit_nat_eq_self of_nat_id)
qed

lemmas non_public_classes = v4_is_loopback_def v4_is_private_def v4_is_link_local_def v4_is_unspecified_def
  v4_is_multicast_def v4_is_broadcast_def

lemma cidr_dotted:
  assumes "pre \<le> 32" "a < 256" "b < 256" "c < 256" "d < 256" "dotted_value a b c d = m * 2 ^ (32 - pre)"
  shows "ipv4_in_cidr ip (ipv4_of_octets a b c d) pre \<longleftrightarrow>
    dotted_value a b c d \<le> unat ip \<and> unat ip < dotted_value a b c d + 2 ^ (32 - pre)"
  using cidr_range [OF assms(1), of "ipv4_of_octets a b c d" m ip] assms(6)
  by (simp add: unat_ipv4_of_octets assms(2-5) add.commute)

lemma non_public_ipv4_iff:
  "is_non_public_ipv4 ip \<longleftrightarrow> list_ex (\<lambda>(first, final). first \<le> unat ip \<and> unat ip \<le> final) NON_PUBLIC_RANGES"
proof -
  define within where "within = (\<lambda>(first, final). first \<le> unat ip \<and> unat ip \<le> (final::nat))"
  have bound: "unat ip < 2 ^ 32" by (rule unat_ipv4_less)
  have "v4_is_private ip \<longleftrightarrow> within (dotted_value 10 0 0 0, dotted_value 10 255 255 255) \<or>
      within (dotted_value 172 16 0 0, dotted_value 172 31 255 255) \<or>
      within (dotted_value 192 168 0 0, dotted_value 192 168 255 255)"
    using octet0_range [of ip 10] octets01_between [of 16 31 ip 172] octets01_range [of 168 ip 192]
    by (simp add: v4_is_private_def within_def less_Suc_eq_le [symmetric])
  moreover have "v4_is_link_local ip \<longleftrightarrow> within (dotted_value 169 254 0 0, dotted_value 169 254 255 255)"
    using octets01_range [of 254 ip 169] by (simp add: v4_is_link_local_def within_def less_Suc_eq_le [symmetric])
  moreover have "v4_is_loopback ip \<longleftrightarrow> within (dotted_value 127 0 0 0, dotted_value 127 255 255 255)"
    using octet0_range [of ip 127] by (simp add: v4_is_loopback_def within_def less_Suc_eq_le [symmetric])
  moreover have "v4_is_multicast ip \<longleftrightarrow> within (dotted_value 224 0 0 0, dotted_value 239 255 255 255)"
    using octet0_between [of 224 ip 239] by (simp add: v4_is_multicast_def within_def less_Suc_eq_le [symmetric])
  moreover have "ipv4_in_cidr ip (ipv4_of_octets 0 0 0 0) 8 \<longleftrightarrow> within (dotted_value 0 0 0 0, dotted_value 0 255 255 255)"
    using cidr_dotted [of 8 0 0 0 0 0 ip] by (simp add: within_def less_Suc_eq_le [symmetric])
  moreover have "ipv4_in_cidr ip (ipv4_of_octets 100 64 0 0) 10 \<longleftrightarrow> within (dotted_value 100 64 0 0, dotted_value 100 127 255 255)"
    using cidr_dotted [of 10 100 64 0 0 "100 * 4 + 1" ip] by (simp add: within_def less_Suc_eq_le [symmetric])
  moreover have "ipv4_in_cidr ip (ipv4_of_octets 192 0 0 0) 24 \<longleftrightarrow> within (dotted_value 192 0 0 0, dotted_value 192 0 0 255)"
    using cidr_dotted [of 24 192 0 0 0 "192 * 65536" ip] by (simp add: within_def less_Suc_eq_le [symmetric])
  moreover have "ipv4_in_cidr ip (ipv4_of_octets 192 0 2 0) 24 \<longleftrightarrow> within (dotted_value 192 0 2 0, dotted_value 192 0 2 255)"
    using cidr_dotted [of 24 192 0 2 0 "192 * 65536 + 2" ip] by (simp add: within_def less_Suc_eq_le [symmetric])
  moreover have "ipv4_in_cidr ip (ipv4_of_octets 198 18 0 0) 15 \<longleftrightarrow> within (dotted_value 198 18 0 0, dotted_value 198 19 255 255)"
    using cidr_dotted [of 15 198 18 0 0 "198 * 128 + 9" ip] by (simp add: within_def less_Suc_eq_le [symmetric])
  moreover have "ipv4_in_cidr ip (ipv4_of_octets 198 51 100 0) 24 \<longleftrightarrow> within (dotted_value 198 51 100 0, dotted_value 198 51 100 255)"
    using cidr_dotted [of 24 198 51 100 0 "198 * 65536 + 51 * 256 + 100" ip] by (simp add: within_def less_Suc_eq_le [symmetric])
  moreover have "ipv4_in_cidr ip (ipv4_of_octets 203 0 113 0) 24 \<longleftrightarrow> within (dotted_value 203 0 113 0, dotted_value 203 0 113 255)"
    using cidr_dotted [of 24 203 0 113 0 "203 * 65536 + 113" ip] by (simp add: within_def less_Suc_eq_le [symmetric])
  moreover have "ipv4_in_cidr ip (ipv4_of_octets 240 0 0 0) 4 \<longleftrightarrow> within (dotted_value 240 0 0 0, dotted_value 255 255 255 255)"
    using cidr_dotted [of 4 240 0 0 0 15 ip] by (simp add: within_def less_Suc_eq_le [symmetric])
  moreover have "within (dotted_value 224 0 0 0, dotted_value 255 255 255 255) \<longleftrightarrow>
      within (dotted_value 224 0 0 0, dotted_value 239 255 255 255) \<or> within (dotted_value 240 0 0 0, dotted_value 255 255 255 255)"
    by (auto simp: within_def)
  moreover have "v4_is_unspecified ip \<Longrightarrow> within (dotted_value 0 0 0 0, dotted_value 0 255 255 255)"
    by (simp add: v4_is_unspecified_def within_def)
  moreover have "v4_is_broadcast ip \<Longrightarrow> within (dotted_value 240 0 0 0, dotted_value 255 255 255 255)"
    by (simp add: v4_is_broadcast_def within_def unat_ipv4_of_octets)
  ultimately show ?thesis
    unfolding is_non_public_ipv4_def NON_PUBLIC_RANGES_def within_def [symmetric] list_ex_Nil_iff list_ex_Cons_iff by blast
qed

text \<open>
  The classification of IPv4 addresses by octets and by masks of 32-bit words is
  membership in a list of ranges of numbers: an address counts as not public exactly when it lies in one
  of the thirteen ranges, so no public address is refused and none of the reserved blocks is missed.
\<close>

theorem non_public_ipv4_ranges:
  "is_non_public_ipv4 ip \<longleftrightarrow> list_ex (\<lambda>(first, final). first \<le> unat ip \<and> unat ip \<le> final) NON_PUBLIC_RANGES"
  by (rule non_public_ipv4_iff)

section \<open>Addresses as text\<close>

lemma read_groups_length: "length (fst (read_groups i n s)) \<le> n"
  by (induction i n s rule: read_groups.induct) (auto split: option.splits prod.splits)

lemma read_ipv6_length: "read_ipv6_addr s = Some (ip, rest) \<Longrightarrow> length ip = 8"
proof -
  assume r: "read_ipv6_addr s = Some (ip, rest)"
  obtain head v4 s1 where h: "read_groups 0 8 s = (head, v4, s1)" by (cases "read_groups 0 8 s")
  have hl: "length head \<le> 8" using read_groups_length [of 0 8 s] h by simp
  show ?thesis
  proof (cases "length head = 8")
    case True
    then show ?thesis using r h by (simp add: read_ipv6_addr_def)
  next
    case False
    then obtain s2 tail v s3 where "strip_prefix (lit ''::'') s1 = Some s2"
      and t: "read_groups 0 (8 - (length head + 1)) s2 = (tail, v, s3)"
      and ip: "ip = head @ replicate (8 - length head - length tail) 0 @ tail"
      using r h by (auto simp: read_ipv6_addr_def Let_def split: if_splits option.splits prod.splits)
    moreover have "length tail \<le> 8 - (length head + 1)"
      using read_groups_length [of 0 "8 - (length head + 1)" s2] t by simp
    ultimately show ?thesis using hl False by simp
  qed
qed

text \<open>Digits are read back.\<close>

lemma to_digit_10: "d < 10 \<Longrightarrow> to_digit 10 (48 + d) = Some d"
  by (simp add: to_digit_def)

lemma read_digits_append:
  "list_all (\<lambda>c. to_digit radix c \<noteq> None) s \<Longrightarrow> (rest = [] \<or> to_digit radix (hd rest) = None) \<Longrightarrow>
   read_digits radix (s @ rest) = (map (\<lambda>c. the (to_digit radix c)) s, rest)"
proof (induction s)
  case Nil
  then show ?case by (cases rest) auto
qed auto

lemma show_nat_digits:
  "list_all (\<lambda>c. to_digit 10 c \<noteq> None) (show_nat n) \<and>
   digits_value 10 (map (\<lambda>c. the (to_digit 10 c)) (show_nat n)) = n \<and> show_nat n \<noteq> [] \<and>
   (n \<noteq> 0 \<longrightarrow> the (to_digit 10 (hd (show_nat n))) \<noteq> 0)"
proof (induction n rule: show_nat.induct)
  case (1 n)
  have d: "to_digit 10 (48 + n mod 10) = Some (n mod 10)" by (intro to_digit_10) simp
  show ?case
  proof (cases "n < 10")
    case True
    then show ?thesis by (simp add: show_nat.simps [of n] to_digit_10 digits_value_def)
  next
    case False
    then have IH: "list_all (\<lambda>c. to_digit 10 c \<noteq> None) (show_nat (n div 10))"
      "digits_value 10 (map (\<lambda>c. the (to_digit 10 c)) (show_nat (n div 10))) = n div 10"
      "show_nat (n div 10) \<noteq> []" "the (to_digit 10 (hd (show_nat (n div 10)))) \<noteq> 0"
      using 1 by (auto simp: div_eq_0_iff)
    have "show_nat n = show_nat (n div 10) @ [48 + n mod 10]" using False by (subst show_nat.simps) simp
    then show ?thesis using IH d by (simp add: digits_value_def)
  qed
qed

lemma length_show_nat: "n < 256 \<Longrightarrow> length (show_nat n) \<le> 3"
  by (simp add: show_nat.simps [of n] show_nat.simps [of "n div 10"] show_nat.simps [of "n div 10 div 10"])

lemma read_octet:
  assumes "n < 256" and "rest = [] \<or> hd rest = 46"
  shows "read_number 10 3 256 False (show_nat n @ rest) = Some (n, rest)"
proof -
  let ?ds = "map (\<lambda>c. the (to_digit 10 c)) (show_nat n)"
  have "rest = [] \<or> to_digit 10 (hd rest) = None" using assms(2) by (auto simp: to_digit_def)
  then have r: "read_digits 10 (show_nat n @ rest) = (?ds, rest)"
    using show_nat_digits by (intro read_digits_append) blast+
  have "hd ?ds = 0 \<Longrightarrow> length ?ds = 1"
    using show_nat_digits [of n] by (cases "n = 0") (auto simp: hd_map show_nat.simps [of 0])
  then show ?thesis
    unfolding read_number_def r using show_nat_digits [of n] length_show_nat [OF assms(1)] assms(1) by auto
qed

definition show_ipv4 :: "nat \<Rightarrow> nat \<Rightarrow> nat \<Rightarrow> nat \<Rightarrow> rstr" where
  "show_ipv4 a b c d = str_join [46] (map show_nat [a, b, c, d])"

text \<open>
  The addresses that parsing yields are well-formed: an IPv6 address has exactly eight
  segments, whatever the groups before and after \<^verbatim>\<open>::\<close>, an embedded IPv4 address included; and the text
  of every IPv4 address in dotted decimals is read back as that address.
\<close>

theorem parse_ip_well_formed:
  assumes "a < 256" "b < 256" "c < 256" "d < 256"
  shows "(\<forall>ip. parse_ip s = Some (V6 ip) \<longrightarrow> length ip = 8) \<and>
    parse_ip (show_ipv4 a b c d) = Some (V4 (ipv4_of_octets a b c d))"
proof
  show "\<forall>ip. parse_ip s = Some (V6 ip) \<longrightarrow> length ip = 8"
    using read_ipv6_length
    by (auto simp: parse_ip_def read_ip_addr_def split: option.splits prod.splits list.splits)
  have "show_ipv4 a b c d = show_nat a @ 46 # show_nat b @ 46 # show_nat c @ 46 # show_nat d @ []"
    by (simp add: show_ipv4_def)
  then have "read_ipv4_octets (show_ipv4 a b c d) = Some ((a, b, c, d), [])"
    using assms read_octet [of d "[]"] by (simp add: read_ipv4_octets_def read_separator_def read_octet)
  then show "parse_ip (show_ipv4 a b c d) = Some (V4 (ipv4_of_octets a b c d))"
    by (simp add: parse_ip_def read_ip_addr_def)
qed

theorem parse_ip_well_formed_witness:
  "parse_ip (show_ipv4 10 0 0 1) = Some (V4 (ipv4_of_octets 10 0 0 1)) \<and> show_ipv4 10 0 0 1 = lit ''10.0.0.1''"
  using parse_ip_well_formed [of 10 0 0 1] by (simp add: show_ipv4_def show_nat.simps)

section \<open>Patterns as sets of hosts\<close>

text \<open>The hosts a pattern stands for, by the comment in \<^verbatim>\<open>compile_globset_with_policy\<close>.\<close>

fun pattern_matches :: "domain_pattern \<Rightarrow> rstr \<Rightarrow> bool" where
  "pattern_matches (ExactDomain domain) h = domain_eq h domain"
| "pattern_matches (SubdomainsOnly domain) h = is_strict_subdomain h domain"
| "pattern_matches (ApexAndSubdomains domain) h = is_subdomain_or_equal h domain"

fun pattern_domain :: "domain_pattern \<Rightarrow> rstr" where
  "pattern_domain (ExactDomain domain) = domain"
| "pattern_domain (SubdomainsOnly domain) = domain"
| "pattern_domain (ApexAndSubdomains domain) = domain"

lemma lower_idem [simp]: "to_ascii_lowercase (to_ascii_lowercase s) = to_ascii_lowercase s"
  by (auto simp: to_ascii_lowercase_def to_ascii_lower_def)

lemma lower_append: "to_ascii_lowercase (s @ t) = to_ascii_lowercase s @ to_ascii_lowercase t"
  by (simp add: to_ascii_lowercase_def)

lemma trim_end_matches_ident: "s \<noteq> [] \<Longrightarrow> last s \<noteq> c \<Longrightarrow> trim_end_matches c s = s"
  by (cases s rule: rev_cases) (auto simp: trim_end_matches_def)

lemma last_trim_end_matches: "trim_end_matches c s \<noteq> [] \<Longrightarrow> last (trim_end_matches c s) \<noteq> c"
  using hd_dropWhile [of "\<lambda>x. x = c" "rev s"] unfolding trim_end_matches_def by (metis last_rev rev_is_Nil_conv)

lemma normalized_last: "normalize_domain d \<noteq> [] \<Longrightarrow> last (normalize_domain d) \<noteq> 46"
  using last_trim_end_matches [of 46 d]
  by (auto simp: normalize_domain_def to_ascii_lowercase_def last_map to_ascii_lower_def)

text \<open>A label in front of a normalised domain is a host in normal form.\<close>

lemma normalize_label:
  assumes "normalize_domain d \<noteq> []" and "to_ascii_lower x = x"
  shows "normalize_domain (x # 46 # normalize_domain d) = x # 46 # normalize_domain d"
proof -
  have "trim_end_matches 46 (x # 46 # normalize_domain d) = x # 46 # normalize_domain d"
    using assms normalized_last [OF assms(1)] by (intro trim_end_matches_ident) auto
  then show ?thesis
    using assms(2) by (simp add: normalize_domain_def to_ascii_lowercase_def to_ascii_lower_def)
qed

lemma normalize_idem: "normalize_domain (normalize_domain d) = normalize_domain d"
proof (cases "normalize_domain d = []")
  case True
  then show ?thesis unfolding True by (simp add: normalize_domain_def trim_end_matches_def to_ascii_lowercase_def)
next
  case False
  then have "trim_end_matches 46 (normalize_domain d) = normalize_domain d"
    using normalized_last by (intro trim_end_matches_ident) auto
  then show ?thesis unfolding normalize_domain_def [of "normalize_domain d"] by (simp add: normalize_domain_def)
qed

lemma strict_subdomain_iff:
  "is_strict_subdomain h d \<longleftrightarrow> suffix (46 # normalize_domain d) (normalize_domain h)"
  by (auto simp: is_strict_subdomain_def Let_def ends_with_iff_suffix dest: suffix_length_le)

lemma subdomain_or_equal_iff:
  "is_subdomain_or_equal h d \<longleftrightarrow>
   normalize_domain h = normalize_domain d \<or> suffix (46 # normalize_domain d) (normalize_domain h)"
  by (auto simp: is_subdomain_or_equal_def Let_def ends_with_iff_suffix)

lemmas pattern_sem = domain_eq_def strict_subdomain_iff subdomain_or_equal_iff

lemma pattern_matches_norm:
  "pattern_matches p h \<longleftrightarrow>
   (case p of ExactDomain _ \<Rightarrow> normalize_domain h = normalize_domain (pattern_domain p)
    | SubdomainsOnly _ \<Rightarrow> suffix (46 # normalize_domain (pattern_domain p)) (normalize_domain h)
    | ApexAndSubdomains _ \<Rightarrow> normalize_domain h = normalize_domain (pattern_domain p) \<or>
        suffix (46 # normalize_domain (pattern_domain p)) (normalize_domain h))"
  by (cases p) (simp_all add: pattern_sem)

lemma allows_norm:
  fixes m d defines "same \<equiv> normalize_domain (pattern_domain d) = normalize_domain (pattern_domain m)"
    and "below \<equiv> suffix (46 # normalize_domain (pattern_domain m)) (normalize_domain (pattern_domain d))"
  shows "domain_pattern_allows m d \<longleftrightarrow>
   (case (m, d) of (ExactDomain _, ExactDomain _) \<Rightarrow> same | (ExactDomain _, _) \<Rightarrow> False
    | (SubdomainsOnly _, SubdomainsOnly _) \<Rightarrow> same \<or> below | (SubdomainsOnly _, _) \<Rightarrow> below | _ \<Rightarrow> same \<or> below)"
  by (cases m; cases d) (simp_all add: pattern_sem same_def below_def)



end
