(* ===== verification/Network_Correct.thy ===== *)
theory Network_Correct
  imports Network_State Host_Policy_Correct
begin

text \<open>
  What the network proxy promises: deny wins among the entries of a pattern, a compiled list matches the
  hosts its patterns stand for, an allowed host is public or explicitly listed, a denied host stays
  blocked until a new configuration or the allowlist changes that, and the constraints of a managed configuration hold in every state that can be reached.
\<close>

section \<open>Effective permissions\<close>

text \<open>The loop keeps, for each pattern met, the greatest of its permissions.\<close>

definition permissions_of :: "domain_entry list \<Rightarrow> rstr \<Rightarrow> network_domain_permission set" where
  "permissions_of entries p = dom_permission ` {e \<in> set entries. dom_pattern e = p}"

definition effective_inv ::
    "domain_entry list \<Rightarrow> rstr list \<Rightarrow> (rstr \<rightharpoonup> network_domain_permission) \<Rightarrow> bool" where
  "effective_inv done order m \<longleftrightarrow>
     distinct order \<and> set order = dom_pattern ` set done \<and>
     (\<forall>p. m p = (if permissions_of done p = {} then None else Some (Max (permissions_of done p))))"

lemma permissions_of_snoc:
  "permissions_of (done @ [e]) p = (if dom_pattern e = p then insert (dom_permission e) (permissions_of done p) else permissions_of done p)"
  by (auto simp: permissions_of_def)

lemma finite_permissions: "finite (permissions_of es p)"
  by (simp add: permissions_of_def)

lemma permissions_empty: "permissions_of es p = {} \<longleftrightarrow> p \<notin> dom_pattern ` set es"
  by (auto simp: permissions_of_def)

lemma effective_loop_inv:
  "effective_inv done order m \<Longrightarrow> effective_loop es order m = (order', m') \<Longrightarrow> effective_inv (done @ es) order' m'"
proof (induction es arbitrary: "done" order m)
  case (Cons e es)
  let ?p = "dom_pattern e"
  define order1 where "order1 = (if m ?p = None then order @ [?p] else order)"
  define q where "q = (case m ?p of Some q \<Rightarrow> q | None \<Rightarrow> dom_permission e)"
  define q1 where "q1 = (if dom_permission e > q then dom_permission e else q)"
  have inv: "distinct order" "set order = dom_pattern ` set done"
    "\<And>p. m p = (if permissions_of done p = {} then None else Some (Max (permissions_of done p)))"
    using Cons.prems(1) by (auto simp: effective_inv_def)
  have "q1 = Max (permissions_of (done @ [e]) ?p)"
  proof (cases "permissions_of done ?p = {}")
    case True
    then show ?thesis using inv(3) [of ?p] by (simp add: q1_def q_def permissions_of_snoc)
  next
    case False
    then show ?thesis
      using inv(3) [of ?p] Max_insert [OF finite_permissions False]
      by (auto simp: q1_def q_def permissions_of_snoc max_def)
  qed
  then have "effective_inv (done @ [e]) order1 (m(?p \<mapsto> q1))"
    using inv permissions_empty [of "done" ?p] by (auto simp: effective_inv_def order1_def permissions_of_snoc)
  moreover have "effective_loop es order1 (m(?p \<mapsto> q1)) = (order', m')"
    using Cons.prems(2) unfolding order1_def q1_def q_def effective_loop.simps Let_def .
  ultimately show ?case using Cons.IH [of "done @ [e]" order1] by simp
qed simp

lemma take_in_order_eq:
  "distinct ps \<Longrightarrow> take_in_order ps m =
   List.map_filter (\<lambda>p. map_option (\<lambda>q. \<lparr>dom_pattern = p, dom_permission = q\<rparr>) (m p)) ps"
proof (induction ps arbitrary: m)
  case (Cons p ps)
  have "List.map_filter (\<lambda>p'. map_option (\<lambda>q. \<lparr>dom_pattern = p', dom_permission = q\<rparr>) ((m(p := None)) p')) ps =
      List.map_filter (\<lambda>p'. map_option (\<lambda>q. \<lparr>dom_pattern = p', dom_permission = q\<rparr>) (m p')) ps"
    using Cons.prems by (intro map_filter_same) auto
  then show ?case using Cons by (auto simp: map_filter_simps split: option.splits)
qed (simp add: map_filter_simps)

lemma in_effective_entries:
  "e \<in> set (effective_entries es) \<longleftrightarrow>
   dom_pattern e \<in> dom_pattern ` set es \<and> dom_permission e = Max (permissions_of es (dom_pattern e))"
proof -
  obtain order m where l: "effective_loop es [] Map.empty = (order, m)" by (cases "effective_loop es [] Map.empty")
  have "effective_inv [] [] Map.empty" by (simp add: effective_inv_def permissions_of_def)
  from effective_loop_inv [OF this l] have inv: "effective_inv es order m" by simp
  have "\<lparr>dom_pattern = p, dom_permission = q\<rparr> = e \<longleftrightarrow> dom_pattern e = p \<and> dom_permission e = q" for p q
    by (cases e) auto
  then show ?thesis
    using inv permissions_empty [of es]
    by (auto simp: effective_entries_def l take_in_order_eq effective_inv_def in_map_filter)
qed

lemma domain_entries_eq:
  "unwrap_or_default (domain_entries s q) =
   map dom_pattern (filter (\<lambda>e. dom_permission e = q) (effective_entries (unwrap_or_default (net_domains s))))"
  by (auto simp: domain_entries_def unwrap_or_default_def effective_entries_def Let_def split: option.splits)

lemma in_domain_entries:
  "p \<in> set (unwrap_or_default (domain_entries s q)) \<longleftrightarrow>
   p \<in> dom_pattern ` set (unwrap_or_default (net_domains s)) \<and>
   Max (permissions_of (unwrap_or_default (net_domains s)) p) = q"
proof -
  have "(\<exists>e. P (dom_pattern e) (dom_permission e)) \<longleftrightarrow> (\<exists>x y. P x y)" for P
    by (metis domain_entry.select_convs(1,2))
  then show ?thesis
    by (auto simp: domain_entries_eq image_iff in_effective_entries)
      (metis domain_entry.select_convs(1,2))
qed

lemma Max_permissions:
  assumes "p \<in> dom_pattern ` set es"
  shows "Max (permissions_of es p) = Perm_Deny \<longleftrightarrow> Perm_Deny \<in> permissions_of es p"
    and "Max (permissions_of es p) = Perm_Allow \<longleftrightarrow> Perm_Allow \<in> permissions_of es p \<and> Perm_Deny \<notin> permissions_of es p"
proof -
  have ne: "permissions_of es p \<noteq> {}" using assms permissions_empty by blast
  have le: "q \<le> Perm_Deny" "q \<le> Perm_Allow \<longleftrightarrow> q \<noteq> Perm_Deny" for q
    by (cases q; simp add: less_eq_network_domain_permission_def)+
  show "Max (permissions_of es p) = Perm_Deny \<longleftrightarrow> Perm_Deny \<in> permissions_of es p"
    using Max_in [OF finite_permissions ne] Max_eqI [OF finite_permissions, of es p Perm_Deny] le(1) by auto
  show "Max (permissions_of es p) = Perm_Allow \<longleftrightarrow> Perm_Allow \<in> permissions_of es p \<and> Perm_Deny \<notin> permissions_of es p"
    using Max_in [OF finite_permissions ne] Max_eqI [OF finite_permissions, of es p Perm_Allow]
      Max_ge [OF finite_permissions, of Perm_Deny es p] le by (metis order_antisym)
qed

lemma in_denied_domains:
  "p \<in> set (unwrap_or_default (denied_domains s)) \<longleftrightarrow> Perm_Deny \<in> permissions_of (unwrap_or_default (net_domains s)) p"
  unfolding denied_domains_def in_domain_entries
  using Max_permissions(1) [of p "unwrap_or_default (net_domains s)"] by (auto simp: permissions_of_def)

lemma in_allowed_domains:
  "p \<in> set (unwrap_or_default (allowed_domains s)) \<longleftrightarrow>
   Perm_Allow \<in> permissions_of (unwrap_or_default (net_domains s)) p \<and>
   Perm_Deny \<notin> permissions_of (unwrap_or_default (net_domains s)) p"
  unfolding allowed_domains_def in_domain_entries
  using Max_permissions(2) [of p "unwrap_or_default (net_domains s)"] by (auto simp: permissions_of_def)

text \<open>
  Among several entries for one domain pattern, deny wins over allow and allow over none,
  in whatever order they are listed: the denied domains are the patterns with a deny entry, the allowed
  ones those with an allow entry and no deny entry, so no pattern is in both lists.
\<close>

theorem deny_wins_among_entries:
  "set (unwrap_or_default (denied_domains s)) =
     {p. \<exists>e\<in>set (unwrap_or_default (net_domains s)). dom_pattern e = p \<and> dom_permission e = Perm_Deny} \<and>
   set (unwrap_or_default (allowed_domains s)) =
     {p. \<exists>e\<in>set (unwrap_or_default (net_domains s)). dom_pattern e = p \<and> dom_permission e = Perm_Allow} -
     set (unwrap_or_default (denied_domains s))"
proof -
  have has: "q \<in> permissions_of es p \<longleftrightarrow> (\<exists>e\<in>set es. dom_pattern e = p \<and> dom_permission e = q)" for q es p
    by (auto simp: permissions_of_def)
  show ?thesis by (auto simp: in_denied_domains in_allowed_domains has)
qed

section \<open>Compiled lists\<close>

text \<open>
  Documented behaviour of the crate \<^verbatim>\<open>globset\<close>: in a glob \<^verbatim>\<open>?\<close> stands for any character and \<^verbatim>\<open>*\<close> for any text, without
  regard to the case of ASCII letters, and a set matches what one of its globs matches. Nothing is said of globs
  with classes, alternatives, escapes or adjacent stars, nor of \<^verbatim>\<open>?\<close> and \<^verbatim>\<open>*\<close> on text that is not ASCII.
\<close>

definition literal_glob :: "rstr \<Rightarrow> bool" where
  "literal_glob g \<longleftrightarrow> set g \<inter> {42, 63, 91, 93, 123, 125, 92} = {}"

definition simple_glob :: "rstr \<Rightarrow> bool" where
  "simple_glob g \<longleftrightarrow> set g \<inter> {91, 93, 123, 125, 92} = {} \<and> successively (\<lambda>a b. \<not> (a = 42 \<and> b = 42)) g"

fun wild :: "rstr \<Rightarrow> rstr \<Rightarrow> bool" where
  "wild [] h \<longleftrightarrow> h = []"
| "wild (c # g) [] \<longleftrightarrow> c = 42 \<and> wild g []"
| "wild (c # g) (x # h) \<longleftrightarrow>
     (if c = 42 then wild g (x # h) \<or> wild (c # g) h else (c = 63 \<or> c = x) \<and> wild g h)"

lemma wild_star: "wild (42 # g) h \<longleftrightarrow> (\<exists>x y. h = x @ y \<and> wild g y)"
proof (induction h)
  case (Cons c h)
  have "(\<exists>x y. c # h = x @ y \<and> wild g y) \<longleftrightarrow> wild g (c # h) \<or> (\<exists>x y. h = x @ y \<and> wild g y)"
    unfolding Cons_eq_append_conv by blast
  then show ?case using Cons.IH by simp
qed simp

lemma wild_char: "c \<noteq> 42 \<Longrightarrow> wild (c # g) h \<longleftrightarrow> (\<exists>x y. h = x # y \<and> (c = 63 \<or> c = x) \<and> wild g y)"
  by (cases h) auto

lemma wild_literal: "literal_glob g \<Longrightarrow> wild g h \<longleftrightarrow> g = h"
  by (induction g arbitrary: h) (auto simp: literal_glob_def wild_char)

lemma wild_below: "wild (lit ''?*.'' @ g) h \<longleftrightarrow> (\<exists>x y. x \<noteq> [] \<and> h = x @ 46 # y \<and> wild g y)"
proof -
  have "wild (lit ''?*.'' @ g) h \<longleftrightarrow> (\<exists>c x y. h = c # x @ 46 # y \<and> wild g y)"
    by (simp add: wild_char wild_star) blast
  then show ?thesis by (metis append_Cons neq_Nil_conv)
qed

definition glob_laws :: "glob_env \<Rightarrow> (rstr \<Rightarrow> rstr \<Rightarrow> bool) \<Rightarrow> bool" where
  "glob_laws ge hit \<longleftrightarrow>
     (\<forall>gs m. globset_build ge gs = Inr m \<longrightarrow> (\<forall>h. m h \<longleftrightarrow> (\<exists>g\<in>set gs. hit g h))) \<and>
     (\<forall>g h. literal_glob g \<longrightarrow> (hit g h \<longleftrightarrow> to_ascii_lowercase g = to_ascii_lowercase h)) \<and>
     (\<forall>g h. simple_glob g \<and> list_all (\<lambda>c. c < 128) h \<longrightarrow>
        (hit g h \<longleftrightarrow> wild (to_ascii_lowercase g) (to_ascii_lowercase h)))"

lemma add_candidates_set: "add_candidates ge cs seen = Inr seen' \<Longrightarrow> set seen' = set seen \<union> set cs"
  by (induction ge cs seen rule: add_candidates.induct) (auto split: if_splits)

lemma add_patterns_set:
  "add_patterns ge gw ps seen = Inr seen' \<Longrightarrow>
   set seen' = set seen \<union> (\<Union>p\<in>set ps. set (expand_domain_pattern (normalize_pattern p)))"
  by (induction ge gw ps seen rule: add_patterns.induct)
    (auto split: if_splits sum.splits dest!: add_candidates_set)

lemma compiled_matches:
  assumes "glob_laws ge hit" and "compile_globset_with_policy ge ps gw = Inr m"
  shows "m h \<longleftrightarrow> (\<exists>p\<in>set ps. \<exists>g\<in>set (expand_domain_pattern (normalize_pattern p)). hit g h)"
proof -
  obtain globs where "add_patterns ge gw ps [] = Inr globs" "globset_build ge globs = Inr m"
    using assms(2) by (auto simp: compile_globset_with_policy_def split: sum.splits)
  moreover from this have "m h \<longleftrightarrow> (\<exists>g\<in>set globs. hit g h)" using assms(1) unfolding glob_laws_def by blast
  ultimately show ?thesis using add_patterns_set [of ge gw ps "[]" globs] by auto
qed

text \<open>
  The hosts a pattern stands for, as the comment of the source lists them: a pattern with no prefix the hosts it matches,
  which are all hosts for \<^verbatim>\<open>*\<close> and the host itself when it has no wildcard, \<^verbatim>\<open>*.domain\<close> every host strictly below
  the domain, \<^verbatim>\<open>**.domain\<close> both.
\<close>

definition pattern_covers :: "rstr \<Rightarrow> rstr \<Rightarrow> bool" where
  "pattern_covers p host =
     (let h = to_ascii_lowercase host;
          below = (\<lambda>d. \<exists>x y. x \<noteq> [] \<and> h = x @ 46 # y \<and> wild (to_ascii_lowercase d) y)
      in case domain_pattern_parse (normalize_pattern p) of
           ExactDomain d \<Rightarrow> wild (to_ascii_lowercase d) h
         | SubdomainsOnly d \<Rightarrow> below d
         | ApexAndSubdomains d \<Rightarrow> wild (to_ascii_lowercase d) h \<or> below d)"

definition simple_pattern :: "rstr \<Rightarrow> bool" where
  "simple_pattern p = simple_glob (pattern_domain (domain_pattern_parse (normalize_pattern p)))"

lemma pattern_covers_star: "pattern_covers (lit ''*'') h" "simple_pattern (lit ''*'')"
proof -
  have "domain_pattern_parse (normalize_pattern (lit ''*'')) = ExactDomain [42]"
    by (simp add: normalize_pattern_def domain_pattern_parse_def trim_def trim_start_def trim_end_def is_whitespace_def)
  moreover have "to_ascii_lowercase [42] = [42]" by (simp add: to_ascii_lowercase_def to_ascii_lower_def)
  ultimately show "pattern_covers (lit ''*'') h" "simple_pattern (lit ''*'')"
    by (simp_all add: pattern_covers_def wild_star simple_pattern_def simple_glob_def)
qed

lemma normal_lower: "normalize_domain d = d \<Longrightarrow> to_ascii_lowercase d = d"
  by (metis lower_idem normalize_domain_def)

text \<open>Without wildcards these are the hosts that the comparison of patterns with constraints goes by.\<close>

lemma pattern_covers_literal:
  assumes "literal_glob d" "d = pattern_domain (domain_pattern_parse (normalize_pattern p))" "normalize_domain d = d"
    and "normalize_domain h = h" "h = [] \<or> hd h \<noteq> 46"
  shows "pattern_covers p h \<longleftrightarrow> pattern_matches (domain_pattern_parse (normalize_pattern p)) h"
proof -
  have l: "to_ascii_lowercase d = d" "to_ascii_lowercase h = h" using assms normal_lower by auto
  have below: "(\<exists>x y. x \<noteq> [] \<and> h = x @ 46 # y \<and> wild d y) \<longleftrightarrow> suffix (46 # d) h"
    using assms(5) by (auto simp: wild_literal [OF assms(1)] suffix_def)
  show ?thesis
  proof (cases "domain_pattern_parse (normalize_pattern p)")
    case (ApexAndSubdomains e)
    then have "e = d" using assms(2) by simp
    then show ?thesis
      unfolding pattern_covers_def Let_def ApexAndSubdomains domain_pattern.case pattern_matches_norm
      using below l wild_literal [OF assms(1)] assms(3,4) by auto
  next
    case (SubdomainsOnly e)
    then have "e = d" using assms(2) by simp
    then show ?thesis
      unfolding pattern_covers_def Let_def SubdomainsOnly domain_pattern.case pattern_matches_norm
      using below l assms(3,4) by simp
  next
    case (ExactDomain e)
    then have "e = d" using assms(2) by simp
    then show ?thesis
      unfolding pattern_covers_def Let_def ExactDomain domain_pattern.case pattern_matches_norm
      using l wild_literal [OF assms(1)] assms(3,4) by auto
  qed
qed

lemma expanded_hits:
  assumes laws: "glob_laws ge hit" and p: "simple_pattern p" and h: "list_all (\<lambda>c. c < 128) h"
  shows "(\<exists>g\<in>set (expand_domain_pattern (normalize_pattern p)). hit g h) \<longleftrightarrow> pattern_covers p h"
proof -
  define d where "d = pattern_domain (domain_pattern_parse (normalize_pattern p))"
  have simple: "simple_glob d" "simple_glob (lit ''?*.'' @ d)"
    using p by (cases d; simp add: d_def simple_pattern_def simple_glob_def)+
  have lower: "to_ascii_lowercase (lit ''?*.'' @ d) = lit ''?*.'' @ to_ascii_lowercase d"
    by (simp add: to_ascii_lowercase_def to_ascii_lower_def)
  have hits: "hit g h \<longleftrightarrow> wild (to_ascii_lowercase g) (to_ascii_lowercase h)" if "simple_glob g" for g
    using laws h that by (simp add: glob_laws_def)
  have "hit (lit ''?*.'' @ d) h \<longleftrightarrow> (\<exists>x y. x \<noteq> [] \<and> to_ascii_lowercase h = x @ 46 # y \<and> wild (to_ascii_lowercase d) y)"
    unfolding hits [OF simple(2)] lower wild_below ..
  then show ?thesis
    using hits [OF simple(1)] unfolding d_def
    by (cases "domain_pattern_parse (normalize_pattern p)") (simp_all add: expand_domain_pattern_def pattern_covers_def Let_def)
qed

text \<open>
  C24 (refinement): a compiled allowlist matches the hosts its patterns stand for. A host, in ASCII, that one of the patterns
  covers is matched: an exact pattern covers its host, \<^verbatim>\<open>*.domain\<close> every host strictly below the domain and not the domain
  itself, \<^verbatim>\<open>**.domain\<close> both, \<^verbatim>\<open>*\<close> every host, and wildcards within labels count. A host that is matched is covered by one of
  the patterns, unless the list has a pattern with a class, alternatives, an escape or two adjacent stars after its prefix.
\<close>

theorem compiled_allowlist_matches:
  assumes laws: "glob_laws ge hit" and compiled: "compile_allowlist_globset ge ps = Inr m" and host: "list_all (\<lambda>c. c < 128) h"
  shows "(\<forall>p\<in>set ps. simple_pattern p \<and> pattern_covers p h \<longrightarrow> m h) \<and>
    (m h \<longrightarrow> (\<exists>p\<in>set ps. pattern_covers p h \<or> \<not> simple_pattern p))"
  using compiled_matches [OF laws compiled [unfolded compile_allowlist_globset_def]]
    expanded_hits [OF laws _ host] by blast

text \<open>A matcher with these laws.\<close>

definition demo_hit :: "rstr \<Rightarrow> rstr \<Rightarrow> bool" where
  "demo_hit g h = wild (to_ascii_lowercase g) (to_ascii_lowercase h)"

definition demo_globs :: glob_env where
  "demo_globs = \<lparr>glob_valid = (\<lambda>_. True), globset_build = (\<lambda>gs. Inr (\<lambda>h. list_ex (\<lambda>g. demo_hit g h) gs)),
     url_host_parse = Some\<rparr>"

lemma demo_glob_laws: "glob_laws demo_globs demo_hit"
proof -
  have "literal_glob (to_ascii_lowercase g)" if "literal_glob g" for g
    using that by (auto simp: literal_glob_def to_ascii_lowercase_def to_ascii_lower_def split: if_splits)
  then have "demo_hit g h \<longleftrightarrow> to_ascii_lowercase g = to_ascii_lowercase h" if "literal_glob g" for g h
    using that wild_literal by (simp add: demo_hit_def)
  then show ?thesis by (auto simp: glob_laws_def demo_globs_def list_ex_iff demo_hit_def)
qed

lemma read_groups_numeral:
  "read_groups i (numeral k) s =
   (case (if pred_numeral k \<ge> 1 then read_separator 58 i read_ipv4_octets s else None) of
      Some ((a, b, c, d), rest) \<Rightarrow> ([of_nat a * 2 ^ 8 + of_nat b, of_nat c * 2 ^ 8 + of_nat d], True, rest)
    | None \<Rightarrow>
        (case read_separator 58 i (read_number 16 4 65536 True) s of
           None \<Rightarrow> ([], False, s)
         | Some (g, rest) \<Rightarrow>
             (let (gs, v4, r) = read_groups (Suc i) (pred_numeral k) rest in (of_nat g # gs, v4, r))))"
  unfolding numeral_eq_Suc [of k] by (rule read_groups.simps)

lemmas host_compute = normalize_pattern_def normalize_host_def normalize_dns_host_or_ip_literal_def normalize_ip_literal_def
  split_once_str_def parse_ip_def read_ip_addr_def read_ipv4_octets_def read_ipv6_addr_def read_separator_def
  read_number_def to_digit_def digits_value_def expand_domain_pattern_def domain_pattern_parse_def parse_domain_def
  trim_def trim_start_def trim_end_def is_whitespace_def trim_end_matches_def to_ascii_lowercase_def to_ascii_lower_def
  starts_with_def read_groups_numeral

theorem compiled_allowlist_matches_witness:
  "\<exists>m. compile_allowlist_globset demo_globs [lit ''*.Example.com''] = Inr m \<and> m (lit ''api.example.com'') \<and> \<not> m (lit ''example.com'')"
proof -
  let ?m = "\<lambda>h. list_ex (\<lambda>g. demo_hit g h) [lit ''?*.example.com'']"
  have e: "expand_domain_pattern (normalize_pattern (lit ''*.Example.com'')) = [lit ''?*.example.com'']"
    by (simp add: host_compute)
  have c: "compile_allowlist_globset demo_globs [lit ''*.Example.com''] = Inr ?m"
    unfolding compile_allowlist_globset_def compile_globset_with_policy_def add_patterns.simps e
    by (simp add: demo_globs_def)
  have d: "domain_pattern_parse (normalize_pattern (lit ''*.Example.com'')) = SubdomainsOnly (lit ''example.com'')"
    by (simp add: host_compute)
  have p: "simple_pattern (lit ''*.Example.com'')" unfolding simple_pattern_def d by (simp add: simple_glob_def)
  have l: "literal_glob (lit ''example.com'')" "normalize_domain (lit ''example.com'') = lit ''example.com''" by code_simp+
  have covers: "pattern_covers (lit ''*.Example.com'') h \<longleftrightarrow> is_strict_subdomain h (lit ''example.com'')"
    if "normalize_domain h = h" "h = [] \<or> hd h \<noteq> 46" for h
    using pattern_covers_literal [of "lit ''example.com''" "lit ''*.Example.com''" h] that l unfolding d by simp
  have h: "normalize_domain (lit ''api.example.com'') = lit ''api.example.com''" "hd (lit ''api.example.com'') \<noteq> 46"
    "hd (lit ''example.com'') \<noteq> 46" "list_all (\<lambda>c. c < 128) (lit ''api.example.com'')" "list_all (\<lambda>c. c < 128) (lit ''example.com'')"
    "is_strict_subdomain (lit ''api.example.com'') (lit ''example.com'')" "\<not> is_strict_subdomain (lit ''example.com'') (lit ''example.com'')"
    by code_simp+
  have "?m (lit ''api.example.com'')" "\<not> ?m (lit ''example.com'')"
    using compiled_allowlist_matches [OF demo_glob_laws c h(4)] compiled_allowlist_matches [OF demo_glob_laws c h(5)]
      covers [OF h(1)] covers [OF l(2)] h p by auto
  then show ?thesis using c by blast
qed

section \<open>Denying a host\<close>

text \<open>The two matchers of a state are compiled from the lists of its configuration.\<close>

definition compiled :: "'m net_env \<Rightarrow> ('b, 'm) config_state \<Rightarrow> bool" where
  "compiled ne st \<longleftrightarrow>
     compile_denylist_globset (ne_globs ne) (unwrap_or_default (denied_domains (cs_config st))) = Inr (cs_deny_set st) \<and>
     compile_allowlist_globset (ne_globs ne) (unwrap_or_default (allowed_domains (cs_config st))) = Inr (cs_allow_set st)"

lemma build_config_state_compiled:
  "build_config_state ne cfg con = Inr st \<Longrightarrow>
   compiled ne st \<and> cs_config st = cfg \<and> cs_constraints st = con \<and> cs_blocked st = [] \<and> cs_blocked_total st = 0"
  by (auto simp: build_config_state_def compiled_def Let_def split: sum.splits)

text \<open>A star in front of a host survives normalisation.\<close>

lemma normalize_scoped_hd:
  "normalize_scoped h ds = Some r \<Longrightarrow> h \<noteq> [] \<Longrightarrow> hd h \<in> set r"
proof (induction ds)
  case (Cons d ds)
  have ne: "parse_ip [] = None"
    by (simp add: parse_ip_def read_ip_addr_def read_ipv4_octets_def read_ipv6_addr_def read_separator_def read_number_def
        read_groups_numeral)
  show ?case
  proof (cases "split_once_str d h")
    case (Some x)
    then obtain i where x: "x = (take i h, drop (i + length d) h)" by (auto simp: split_once_str_def)
    have "take i h \<noteq> [] \<Longrightarrow> hd h \<in> set (take i h)" by (cases h; cases i) auto
    then have "parse_ip (take i h) \<noteq> None \<Longrightarrow> hd h \<in> set (take i h)" using ne by metis
    then show ?thesis using Cons Some x by (auto split: if_splits)
  qed (use Cons in auto)
qed simp

lemma normalize_host_star:
  assumes "starts_with (trim e) [42]"
  shows "42 \<in> set (normalize_host e)"
proof -
  obtain t where t: "trim e = 42 # t" using assms by (auto simp: starts_with_iff_prefix prefix_def)
  have key: "42 \<in> set (normalize_dns_host_or_ip_literal (42 # u))" for u
  proof -
    let ?h = "trim_end_matches 46 (to_ascii_lowercase (42 # u))"
    have h: "?h \<noteq> [] \<and> hd ?h = 42"
    proof -
      have "to_ascii_lowercase (42 # u) = 42 # to_ascii_lowercase u" by (simp add: to_ascii_lowercase_def to_ascii_lower_def)
      then have "prefix [42] ?h" by (auto simp: trim_end_matches_def dropWhile_append3 dropWhile_append1)
      then show ?thesis by (auto simp: prefix_def)
    qed
    then have "42 \<in> set ?h" by (metis hd_in_set)
    moreover have "normalize_ip_literal ?h = Some r \<Longrightarrow> 42 \<in> set r" for r
      using h calculation normalize_scoped_hd [of ?h _ r] unfolding normalize_ip_literal_def by (metis option.inject)
    ultimately show ?thesis by (auto simp: normalize_dns_host_or_ip_literal_def Let_def split: option.splits)
  qed
  show ?thesis unfolding normalize_host_def t using key by (simp add: starts_with_def Let_def)
qed

text \<open>A host that is its own normal form, has no special characters and no space around it.\<close>

definition plain_host :: "rstr \<Rightarrow> bool" where
  "plain_host n \<longleftrightarrow> n \<noteq> [] \<and> literal_glob n \<and> trim n = n \<and> normalize_host n = n"

lemma normalize_pattern_exact:
  assumes "normalize_host e = n" and "plain_host n"
  shows "normalize_pattern e = n"
proof -
  have no: "\<not> starts_with (trim e) [42]"
    using normalize_host_star [of e] assms by (auto simp: plain_host_def literal_glob_def)
  have "t \<noteq> lit ''*'' \<and> strip_prefix (lit ''**.'') t = None \<and> strip_prefix (lit ''*.'') t = None"
    if "\<not> starts_with t [42]" for t using that by (cases t) (auto simp: starts_with_def)
  from this [OF no] have "trim e \<noteq> lit ''*''" "strip_prefix (lit ''**.'') (trim e) = None"
    "strip_prefix (lit ''*.'') (trim e) = None" by blast+
  moreover have "normalize_host (trim e) = normalize_host e" by (simp add: normalize_host_def)
  ultimately show ?thesis using assms(1) unfolding normalize_pattern_def Let_def by simp
qed

lemma expand_plain_host: "plain_host n \<Longrightarrow> expand_domain_pattern n = [n]"
proof -
  assume p: "plain_host n"
  then have "42 \<notin> set n" by (auto simp: plain_host_def literal_glob_def)
  then have "strip_prefix (lit ''**.'') n = None" "strip_prefix (lit ''*.'') n = None"
    by (cases n; simp)+
  then show ?thesis using p by (simp add: expand_domain_pattern_def domain_pattern_parse_def plain_host_def)
qed

lemma denied_host_blocked:
  assumes laws: "glob_laws (ne_globs ne) hit" and c: "compiled ne st" and n: "plain_host n"
    and e: "e \<in> set (unwrap_or_default (denied_domains (cs_config st)))" "normalize_host e = n"
    and host: "host_parse host = Some n"
  shows "host_blocked dns st host port = Host_Blocked Reason_Denied"
proof -
  have m: "compile_globset_with_policy (ne_globs ne) (unwrap_or_default (denied_domains (cs_config st))) Wildcard_Reject =
      Inr (cs_deny_set st)" using c by (simp add: compiled_def compile_denylist_globset_def)
  have "hit n n" using laws n by (auto simp: glob_laws_def plain_host_def)
  then have "cs_deny_set st n"
    unfolding compiled_matches [OF laws m] using e(1) normalize_pattern_exact [OF e(2) n] expand_plain_host [OF n]
    by (metis list.set_intros(1))
  then show ?thesis using host by (simp add: host_blocked_def globset_matches_host_or_unscoped_def Let_def)
qed

text \<open>
  What can follow: requests are recorded and drained, the mode and the domain lists change, by rounds that have seen any state.
  A configuration that is loaded anew and an update that puts the host \<open>n\<close> on the allowlist end it.
\<close>

inductive later_state ::
    "'m net_env \<Rightarrow> rstr \<Rightarrow> ('b, 'm) config_state \<Rightarrow> ('b, 'm) config_state \<Rightarrow> bool" for ne n st where
  at_once: "later_state ne n st st"
| blocked: "later_state ne n st s \<Longrightarrow> later_state ne n st (record_blocked entry s)"
| drained: "later_state ne n st s \<Longrightarrow> later_state ne n st (snd (drain_blocked s))"
| mode_set: "later_state ne n st s \<Longrightarrow> set_network_mode_attempt (ne_globs ne) mode seen s = Finished r s' \<Longrightarrow>
    later_state ne n st s'"
| domains_updated: "later_state ne n st s \<Longrightarrow> update_domain_list_attempt ne host k seen s = Finished r s' \<Longrightarrow>
    k = List_Deny \<or> normalize_host host \<noteq> n \<Longrightarrow> later_state ne n st s'"

definition denies :: "'m net_env \<Rightarrow> rstr \<Rightarrow> ('b, 'm) config_state \<Rightarrow> bool" where
  "denies ne n s \<longleftrightarrow> compiled ne s \<and> (\<exists>e\<in>set (unwrap_or_default (denied_domains (cs_config s))). normalize_host e = n)"

lemma upsert_keeps_denied:
  assumes "\<exists>e\<in>set (unwrap_or_default (denied_domains cfg)). normalize_host e = n" and "k = List_Deny \<or> normalize_host host \<noteq> n"
  shows "\<exists>e\<in>set (unwrap_or_default (denied_domains (upsert_domain_permission cfg host (list_permission k) normalize_host))).
    normalize_host e = n"
proof -
  let ?new = "upsert_domain_permission cfg host (list_permission k) normalize_host"
  obtain d where d: "d \<in> set (unwrap_or_default (net_domains cfg))" "dom_permission d = Perm_Deny" "normalize_host (dom_pattern d) = n"
  proof -
    obtain e where "e \<in> set (unwrap_or_default (denied_domains cfg))" "normalize_host e = n" using assms(1) by blast
    then show thesis using that unfolding in_denied_domains permissions_of_def by auto
  qed
  have entries: "unwrap_or_default (net_domains ?new) =
      filter (\<lambda>e. normalize_host (dom_pattern e) \<noteq> normalize_host host) (unwrap_or_default (net_domains cfg)) @
        [\<lparr>dom_pattern = host, dom_permission = list_permission k\<rparr>]"
    by (simp add: upsert_domain_permission_def Let_def some_if_any_def unwrap_or_default_def)
  show ?thesis
  proof (cases "normalize_host host = n")
    case True
    then have "host \<in> set (unwrap_or_default (denied_domains ?new))"
      using assms(2) unfolding in_denied_domains permissions_of_def entries by (force simp: list_permission_def)
    then show ?thesis using True by blast
  next
    case False
    then have "dom_pattern d \<in> set (unwrap_or_default (denied_domains ?new))"
      using d unfolding in_denied_domains permissions_of_def entries by (force intro: rev_image_eqI [of d])
    then show ?thesis using d(3) by blast
  qed
qed

lemma update_attempt_cases:
  assumes "update_domain_list_attempt ne host k seen guard = Finished r st"
  shows "st = guard \<or> (compiled ne st \<and> cs_config seen = cs_config guard \<and>
    cs_config st = upsert_domain_permission (cs_config guard) host (list_permission k) normalize_host)"
proof (cases "st = guard")
  case False
  then obtain new where "build_config_state ne (upsert_domain_permission (cs_config seen) host (list_permission k) normalize_host)
      (cs_constraints seen) = Inr new" "cs_config guard = cs_config seen"
    "st = new\<lparr>cs_blocked := cs_blocked seen, cs_blocked_total := cs_blocked_total seen\<rparr>"
    using assms by (auto simp: update_domain_list_attempt_def Let_def split: sum.splits if_splits)
  then show ?thesis using build_config_state_compiled by (fastforce simp: compiled_def)
qed simp

lemma later_state_denies: "later_state ne n st s \<Longrightarrow> denies ne n st \<Longrightarrow> denies ne n s"
proof (induction rule: later_state.induct)
  case (mode_set s mode seen r s')
  have "denied_domains (cs_config s') = denied_domains (cs_config s) \<and> compiled ne s' = compiled ne s"
    using mode_set.hyps(2) by (auto simp: set_network_mode_attempt_def Let_def compiled_def denied_domains_def allowed_domains_def
        domain_entries_def split: sum.splits if_splits)
  then show ?case using mode_set by (simp add: denies_def)
next
  case (domains_updated s host k seen r s')
  then show ?case
    using update_attempt_cases [OF domains_updated.hyps(2)] upsert_keeps_denied [of "cs_config s" n k host]
    by (auto simp: denies_def)
qed (auto simp: denies_def record_blocked_def drain_blocked_def compiled_def)

lemma rounds_retried:
  "update_domain_list ne host k early = None \<Longrightarrow>
   update_domain_list ne host k (early @ rounds) = update_domain_list ne host k rounds"
proof (induction early)
  case (Cons r early)
  obtain seen guard where r: "r = (seen, guard)" by force
  show ?case
    using Cons update_domain_list.simps [of ne host k "r # early"] update_domain_list.simps [of ne host k "r # early @ rounds"]
    by (auto simp: r split: option.splits attempt.splits)
qed simp


definition demo_env :: "unit net_env" where
  "demo_env = \<lparr>ne_globs = demo_globs, ne_home = None, ne_current_dir = Inr (lit ''/''), ne_mitm = (\<lambda>_ _. Inr ()),
     ne_canonicalize = (\<lambda>_. None), ne_unix_sockets_supported = False\<rparr>"

definition no_constraints :: network_constraints where
  "no_constraints = \<lparr>con_enabled = None, con_mode = None, con_allow_upstream_proxy = None,
     con_allow_non_loopback_proxy = None, con_allow_all_unix_sockets = None, con_allowed_domains = None,
     con_allowlist_expansion_enabled = None, con_denied_domains = None, con_denylist_expansion_enabled = None,
     con_allow_unix_sockets = None, con_allow_local_binding = None\<rparr>"

definition demo_state :: "(unit, unit) config_state" where
  "demo_state = \<lparr>cs_config = default_settings\<lparr>net_domains := Some [\<lparr>dom_pattern = lit ''a.b'', dom_permission = Perm_Deny\<rparr>]\<rparr>,
     cs_allow_set = (\<lambda>h. list_ex (\<lambda>g. demo_hit g h) []), cs_deny_set = (\<lambda>h. list_ex (\<lambda>g. demo_hit g h) [lit ''a.b'']),
     cs_mitm = None, cs_constraints = no_constraints, cs_blocked = [], cs_blocked_total = 0\<rparr>"

lemma demo_host: "normalize_host (lit ''a.b'') = lit ''a.b''" "normalize_host (lit ''A.b:80'') = lit ''a.b''"
  by (simp_all add: host_compute)

lemma demo_plain: "plain_host (lit ''a.b'')"
proof -
  have "trim (lit ''a.b'') = lit ''a.b''" by code_simp
  then show ?thesis using demo_host(1) by (simp add: plain_host_def literal_glob_def)
qed

lemma demo_denied: "denied_domains (cs_config demo_state) = Some [lit ''a.b'']" "allowed_domains (cs_config demo_state) = None"
  by (simp_all add: denied_domains_def allowed_domains_def domain_entries_def demo_state_def effective_entries_def Let_def)

lemma demo_compiled: "compiled demo_env demo_state"
proof -
  have g: "normalize_pattern (lit ''a.b'') = lit ''a.b''" using normalize_pattern_exact [OF demo_host(1) demo_plain] .
  have "expand_domain_pattern (lit ''a.b'') = [lit ''a.b'']" by (rule expand_plain_host [OF demo_plain])
  with g show ?thesis
    by (simp add: compiled_def demo_denied unwrap_or_default_def compile_denylist_globset_def compile_allowlist_globset_def
        compile_globset_with_policy_def demo_env_def demo_globs_def is_global_wildcard_domain_pattern_def)
      (simp add: demo_state_def)
qed


section \<open>Allowed hosts\<close>

text \<open>
  C14 (safety): when local binding is off, a host is allowed only if no deny pattern and some allow
  pattern matches it and it cannot lead into a local network: it is a local address or name that the
  allowlist spells out without wildcards, or an address that is public, or a name that DNS resolved
  in time to addresses that are all public, none of its IPv4 addresses in a reserved range.
\<close>

theorem allowed_host_is_public:
  assumes allowed: "host_blocked dns st host port = Host_Allowed" and bind: "\<not> net_allow_local_binding (cs_config st)"
  shows "\<exists>n. host_parse host = Some n \<and> \<not> globset_matches_host_or_unscoped (cs_deny_set st) n \<and>
    globset_matches_host_or_unscoped (cs_allow_set st) n \<and> allowed_domains (cs_config st) \<noteq> None \<and>
    (if is_local_literal n
     then is_explicit_local_allowlisted (unwrap_or_default (allowed_domains (cs_config st))) n
     else (case parse_ip n of
             Some ip \<Rightarrow> \<not> is_non_public_ip ip
           | None \<Rightarrow> \<exists>addrs. dns n port = Dns_Addrs addrs \<and> list_all (\<lambda>ip. \<not> is_non_public_ip ip) addrs \<and>
               (\<forall>a. V4 a \<in> set addrs \<longrightarrow>
                  \<not> list_ex (\<lambda>(first, final). first \<le> unat a \<and> unat a \<le> final) NON_PUBLIC_RANGES)))"
proof -
  obtain n where n: "host_parse host = Some n" using allowed by (auto simp: host_blocked_def split: option.splits)
  have f: "\<not> globset_matches_host_or_unscoped (cs_deny_set st) n" "globset_matches_host_or_unscoped (cs_allow_set st) n"
    "allowed_domains (cs_config st) \<noteq> None"
    "is_local_literal n \<Longrightarrow> is_explicit_local_allowlisted (unwrap_or_default (allowed_domains (cs_config st))) n"
    "\<not> is_local_literal n \<Longrightarrow> \<not> host_resolves_to_non_public_ip n (dns n port)"
    using allowed bind n by (auto simp: host_blocked_def Let_def split: if_splits)
  have "list_all (\<lambda>ip. \<not> is_non_public_ip ip) addrs \<Longrightarrow> V4 a \<in> set addrs \<Longrightarrow> \<not> is_non_public_ipv4 a" for addrs a
    by (auto simp: list_all_iff is_non_public_ip_def)
  then show ?thesis
    using n f unfolding non_public_ipv4_iff [symmetric]
    by (auto simp: host_resolves_to_non_public_ip_def list_all_iff list_ex_iff split: option.splits dns_answer.splits)
qed

definition demo_open_state :: "(unit, unit) config_state" where
  "demo_open_state = demo_state\<lparr>
     cs_config := default_settings\<lparr>net_domains := Some [\<lparr>dom_pattern = lit ''a.b'', dom_permission = Perm_Allow\<rparr>]\<rparr>,
     cs_allow_set := (\<lambda>h. h = lit ''a.b''), cs_deny_set := (\<lambda>h. False)\<rparr>"

theorem allowed_host_is_public_witness:
  "\<exists>n. host_parse (lit ''a.b'') = Some n \<and> n = lit ''a.b'' \<and> \<not> is_local_literal n"
proof -
  let ?dns = "\<lambda>_ _. Dns_Addrs [V4 (ipv4_of_octets 8 8 8 8)]"
  have p: "host_parse (lit ''a.b'') = Some (lit ''a.b'')" unfolding host_parse_def demo_host by simp
  have no_ip: "parse_ip (lit ''a.b'') = None" by (simp add: host_compute)
  have u: "unscoped_ip_literal (lit ''a.b'') = None" by (simp add: unscoped_ip_literal_def)
  have l: "\<not> is_local_literal (lit ''a.b'')"
    unfolding is_local_literal_def is_loopback_host_def u Let_def option.case no_ip by simp
  have d: "allowed_domains (cs_config demo_open_state) = Some [lit ''a.b'']"
    by (simp add: demo_open_state_def allowed_domains_def domain_entries_def effective_entries_def Let_def)
  have b: "\<not> net_allow_local_binding (cs_config demo_open_state)" by (simp add: demo_open_state_def default_settings_def)
  have r: "\<not> is_non_public_ip (V4 (ipv4_of_octets 8 8 8 8))"
    by (simp add: is_non_public_ip_def non_public_ipv4_iff NON_PUBLIC_RANGES_def unat_ipv4_of_octets)
  have "host_blocked ?dns demo_open_state (lit ''a.b'') 443 = Host_Allowed"
    unfolding host_blocked_def p option.case Let_def globset_matches_host_or_unscoped_def u d
      host_resolves_to_non_public_ip_def no_ip using b l r by (simp add: demo_open_state_def)
  from allowed_host_is_public [OF this b] show ?thesis using p l by auto
qed

section \<open>Listening\<close>

lemma loopback_is_loopback: "ip_is_loopback loopback_ip"
  by (simp add: ip_is_loopback_def v4_is_loopback_def octet_div unat_ipv4_of_octets)

text \<open>
  The proxy listens beyond the machine only when the configuration says so and no unix socket
  can be reached through it: of the addresses that starting up resolves, both are loopback addresses, or
  the setting that allows others is on and neither a unix socket nor all of them are allowed.
\<close>

theorem runtime_listens_on_loopback:
  assumes "resolve_runtime url_parse home cwd cfg = Inr (http, socks)"
  shows "ip_is_loopback (sock_ip http) \<and> ip_is_loopback (sock_ip socks) \<or>
    net_allow_non_loopback_proxy cfg \<and> allow_unix_sockets cfg = [] \<and> \<not> net_allow_all_unix_sockets cfg"
  using assms loopback_is_loopback
  by (auto simp: resolve_runtime_def clamp_bind_addrs_def clamp_non_loopback_def Let_def split: sum.splits if_splits)

theorem runtime_listens_on_loopback_witness:
  "ip_is_loopback (sock_ip \<lparr>sock_ip = loopback_ip, sock_port = 3128\<rparr>)"
proof -
  let ?url = "\<lambda>u. Some (Some (lit ''10.9.8.7''), None)" and ?cfg = "default_settings"
  have ip: "parse_ip (lit ''10.9.8.7'') = Some (V4 (ipv4_of_octets 10 9 8 7))"
    by (simp add: host_compute)
  have "parse_ip (lit ''http://127.0.0.1:3128'') = None" "parse_ip (lit ''http://127.0.0.1:8081'') = None"
    by (simp_all add: host_compute)
  moreover have "trim (lit ''http://127.0.0.1:3128'') = lit ''http://127.0.0.1:3128''"
    "trim (lit ''http://127.0.0.1:8081'') = lit ''http://127.0.0.1:8081''"
    by (simp_all add: trim_def trim_start_def trim_end_def is_whitespace_def)
  moreover have "trim_brackets (lit ''10.9.8.7'') = lit ''10.9.8.7''"
    "\<not> eq_ignore_ascii_case (lit ''10.9.8.7'') (lit ''localhost'')" by code_simp+
  ultimately have h: "resolve_addr ?url (net_proxy_url ?cfg) 3128 = Inr \<lparr>sock_ip = V4 (ipv4_of_octets 10 9 8 7), sock_port = 3128\<rparr>"
    "resolve_addr ?url (net_socks_url ?cfg) 8081 = Inr \<lparr>sock_ip = V4 (ipv4_of_octets 10 9 8 7), sock_port = 8081\<rparr>"
    unfolding default_settings_def network_settings.select_convs resolve_addr_def parse_host_port_def Let_def
    using ip by simp_all
  have "\<not> ip_is_loopback (V4 (ipv4_of_octets 10 9 8 7))"
    by (simp add: ip_is_loopback_def v4_is_loopback_def octet_div unat_ipv4_of_octets)
  then have "resolve_runtime ?url None (Inr []) ?cfg =
      Inr (\<lparr>sock_ip = loopback_ip, sock_port = 3128\<rparr>, \<lparr>sock_ip = loopback_ip, sock_port = 8081\<rparr>)"
    unfolding resolve_runtime_def h
    by (simp add: validate_unix_socket_allowlist_paths_def allow_unix_sockets_def clamp_bind_addrs_def clamp_non_loopback_def
        default_settings_def)
  from runtime_listens_on_loopback [OF this] show ?thesis by (simp add: default_settings_def)
qed

section \<open>Reachable states\<close>

text \<open>
  The states of a running proxy. A round of an update may have seen any earlier state, and new states
  from the reloader are built from a configuration that was validated.
\<close>

definition constraints_hold :: "'m net_env \<Rightarrow> ('b, 'm) config_state \<Rightarrow> bool" where
  "constraints_hold ne st \<longleftrightarrow>
     validate_policy_against_constraints (ne_globs ne) (cs_config st) (cs_constraints st) = Inr ()"

definition fresh_state :: "'m net_env \<Rightarrow> ('b, 'm) config_state \<Rightarrow> bool" where
  "fresh_state ne st \<longleftrightarrow> constraints_hold ne st \<and> compiled ne st \<and> cs_blocked st = [] \<and> cs_blocked_total st = 0"

inductive net_reachable :: "'m net_env \<Rightarrow> ('b, 'm) config_state \<Rightarrow> bool" for ne where
  start: "fresh_state ne st \<Longrightarrow> net_reachable ne st"
| blocked: "net_reachable ne st \<Longrightarrow> net_reachable ne (record_blocked entry st)"
| drained: "net_reachable ne st \<Longrightarrow> net_reachable ne (snd (drain_blocked st))"
| reloaded: "net_reachable ne seen \<Longrightarrow> net_reachable ne guard \<Longrightarrow> fresh_state ne new \<Longrightarrow>
    net_reachable ne (snd (reload_if_needed (Inr (Some new)) seen guard))"
| forced: "net_reachable ne guard \<Longrightarrow> fresh_state ne new \<Longrightarrow> net_reachable ne (snd (force_reload (Inr new) guard))"
| replaced: "net_reachable ne guard \<Longrightarrow> fresh_state ne new \<Longrightarrow> net_reachable ne (replace_config_state new guard)"
| mode_set: "net_reachable ne seen \<Longrightarrow> net_reachable ne guard \<Longrightarrow>
    set_network_mode_attempt (ne_globs ne) mode seen guard = Finished r st \<Longrightarrow> net_reachable ne st"
| domains_updated: "net_reachable ne seen \<Longrightarrow> net_reachable ne guard \<Longrightarrow>
    update_domain_list_attempt ne host k seen guard = Finished r st \<Longrightarrow> net_reachable ne st"

text \<open>Checks that a change of mode does not touch.\<close>

lemma then_check_Inr: "then_check a b = Inr u \<longleftrightarrow> a = Inr () \<and> b = Inr u"
  by (cases a) (auto simp: then_check_def)

lemma lists_of_mode:
  "allowed_domains (s\<lparr>net_mode := m\<rparr>) = allowed_domains s" "denied_domains (s\<lparr>net_mode := m\<rparr>) = denied_domains s"
  "allow_unix_sockets (s\<lparr>net_mode := m\<rparr>) = allow_unix_sockets s"
  by (simp_all add: allowed_domains_def denied_domains_def domain_entries_def allow_unix_sockets_def)

lemma checks_of_mode:
  "check_enabled (s\<lparr>net_mode := m\<rparr>) con = check_enabled s con"
  "check_all_unix_sockets (s\<lparr>net_mode := m\<rparr>) con = check_all_unix_sockets s con"
  "check_allowed_domains ge (s\<lparr>net_mode := m\<rparr>) con = check_allowed_domains ge s con"
  "check_denied_domains (s\<lparr>net_mode := m\<rparr>) con = check_denied_domains s con"
  "check_unix_sockets (s\<lparr>net_mode := m\<rparr>) con = check_unix_sockets s con"
  unfolding check_all_unix_sockets_def check_allowed_domains_def check_denied_domains_def check_unix_sockets_def lists_of_mode
  by (cases "con_enabled con"; simp add: check_enabled_def)+

lemma check_mode_only: "check_mode (s\<lparr>net_mode := m\<rparr>) con = check_mode (s'\<lparr>net_mode := m\<rparr>) con"
  by (cases "con_mode con") (simp_all add: check_mode_def)

lemma mode_change_valid:
  assumes "validate_policy_against_constraints ge s con = Inr ()"
    and "validate_policy_against_constraints ge (s'\<lparr>net_mode := mode\<rparr>) con = Inr ()"
  shows "validate_policy_against_constraints ge (s\<lparr>net_mode := mode\<rparr>) con = Inr ()"
  using assms unfolding validate_policy_against_constraints_def then_check_Inr checks_of_mode lists_of_mode
  using check_mode_only [of mode s con s'] by simp

lemma pop_front_loop_eq: "pop_front_loop xs = drop (length xs - MAX_BLOCKED_EVENTS) xs"
proof (induction xs)
  case (Cons x xs)
  then show ?case by (cases "length xs < MAX_BLOCKED_EVENTS") (auto simp: Suc_diff_le not_less)
qed simp

definition net_invariant :: "'m net_env \<Rightarrow> ('b, 'm) config_state \<Rightarrow> bool" where
  "net_invariant ne st \<longleftrightarrow>
     constraints_hold ne st \<and> compiled ne st \<and> length (cs_blocked st) \<le> MAX_BLOCKED_EVENTS \<and>
     cs_blocked_total st \<le> USIZE_MAX"

lemma mode_attempt_invariant:
  assumes "net_invariant ne seen" "net_invariant ne guard"
    and "set_network_mode_attempt (ne_globs ne) mode seen guard = Finished r st"
  shows "net_invariant ne st"
proof -
  have "st = guard \<or> cs_constraints guard = cs_constraints seen \<and>
      validate_policy_against_constraints (ne_globs ne) ((cs_config seen)\<lparr>net_mode := mode\<rparr>) (cs_constraints seen) = Inr () \<and>
      st = guard\<lparr>cs_config := (cs_config guard)\<lparr>net_mode := mode\<rparr>\<rparr>"
    using assms(3) by (auto simp: set_network_mode_attempt_def Let_def split: sum.splits if_splits)
  then show ?thesis
    using assms(1,2) mode_change_valid [where ge = "ne_globs ne" and s = "cs_config guard" and con = "cs_constraints guard" and s' = "cs_config seen"]
    by (auto simp: net_invariant_def constraints_hold_def compiled_def lists_of_mode)
qed

lemma update_attempt_invariant:
  assumes "net_invariant ne seen" "net_invariant ne guard"
    and "update_domain_list_attempt ne host k seen guard = Finished r st"
  shows "net_invariant ne st"
proof (cases "st = guard")
  case False
  then obtain cand new where
    v: "validate_policy_against_constraints (ne_globs ne) cand (cs_constraints seen) = Inr ()"
    and b: "build_config_state ne cand (cs_constraints seen) = Inr new"
    and st: "st = new\<lparr>cs_blocked := cs_blocked seen, cs_blocked_total := cs_blocked_total seen\<rparr>"
    using assms(3) by (auto simp: update_domain_list_attempt_def Let_def split: sum.splits if_splits)
  have "compiled ne new" "cs_config new = cand" "cs_constraints new = cs_constraints seen"
    using build_config_state_compiled [OF b] by blast+
  then show ?thesis using assms(1) v by (auto simp: st net_invariant_def constraints_hold_def compiled_def)
qed (use assms in simp)

lemma net_reachable_invariant: "net_reachable ne st \<Longrightarrow> net_invariant ne st"
proof (induction rule: net_reachable.induct)
  case (blocked st entry)
  then show ?case
    by (auto simp: net_invariant_def record_blocked_def constraints_hold_def compiled_def pop_front_loop_eq sat_add_def)
next
  case (mode_set seen guard mode r st)
  show ?case by (rule mode_attempt_invariant [OF mode_set.IH mode_set.hyps(3)])
next
  case (domains_updated seen guard host k r st)
  show ?case by (rule update_attempt_invariant [OF domains_updated.IH domains_updated.hyps(3)])
qed (auto simp: fresh_state_def net_invariant_def drain_blocked_def reload_if_needed_def force_reload_def
    replace_config_state_def constraints_hold_def compiled_def)

text \<open>A method that runs alone, its reload included, leads from a reachable state to a reachable one.\<close>

lemma after_reload_reachable:
  assumes "net_reachable ne st" and "\<And>new. reloaded = Inr (Some new) \<Longrightarrow> fresh_state ne new"
    and "\<And>s. net_reachable ne s \<Longrightarrow> net_reachable ne (snd (f s))"
  shows "net_reachable ne (snd (after_reload reloaded f st))"
proof (cases reloaded)
  case (Inl e)
  then show ?thesis using assms(1) by (simp add: after_reload_def reload_if_needed_def)
next
  case (Inr r)
  have "net_reachable ne (snd (reload_if_needed reloaded st st))"
    using assms(1,2) Inr net_reachable.reloaded [OF assms(1,1)] by (cases r) (auto simp: reload_if_needed_def)
  from assms(3) [OF this] show ?thesis
    using Inr by (cases r) (auto simp: after_reload_def reload_if_needed_def split: prod.splits)
qed

lemma requests_reachable:
  assumes "net_reachable ne st" and "\<And>new. reloaded = Inr (Some new) \<Longrightarrow> fresh_state ne new"
  shows "net_reachable ne (snd (host_blocked_request dns reloaded host port st))"
    and "net_reachable ne (snd (record_blocked_request reloaded entry st))"
    and "net_reachable ne (snd (drain_blocked_request reloaded st))"
    and "fresh_state ne new' \<Longrightarrow> net_reachable ne (snd (replace_config_state_request reloaded new' st))"
  unfolding host_blocked_request_def record_blocked_request_def drain_blocked_request_def replace_config_state_request_def
  by (rule after_reload_reachable [OF assms], assumption,
      simp add: net_reachable.blocked net_reachable.drained net_reachable.replaced)+

text \<open>
  C9 (invariant): in every state that a proxy can reach, by recording and draining blocked requests, by
  reloads, and by changes of the mode and the domain lists that were computed from an older state than the one
  they are written to, the configuration satisfies the constraints of the managed one, the two matchers
  are those of the lists, at most 200 blocked requests are kept and their count stays within its 64
  bits.
\<close>

theorem reachable_states_respect_constraints:
  assumes "net_reachable ne st"
  shows "validate_policy_against_constraints (ne_globs ne) (cs_config st) (cs_constraints st) = Inr () \<and>
    compile_denylist_globset (ne_globs ne) (unwrap_or_default (denied_domains (cs_config st))) = Inr (cs_deny_set st) \<and>
    compile_allowlist_globset (ne_globs ne) (unwrap_or_default (allowed_domains (cs_config st))) = Inr (cs_allow_set st) \<and>
    length (cs_blocked st) \<le> 200 \<and> cs_blocked_total st < 2 ^ 64"
  using net_reachable_invariant [OF assms]
  by (simp add: net_invariant_def constraints_hold_def compiled_def MAX_BLOCKED_EVENTS_def USIZE_MAX_def)

theorem reachable_states_respect_constraints_witness:
  "length (cs_blocked (record_blocked () demo_state)) \<le> 200 \<and>
   validate_policy_against_constraints demo_globs (cs_config (record_blocked () demo_state)) no_constraints = Inr ()"
proof -
  have g: "normalize_pattern (lit ''a.b'') = lit ''a.b''" "expand_domain_pattern (lit ''a.b'') = [lit ''a.b'']"
    using normalize_pattern_exact [OF demo_host(1) demo_plain] expand_plain_host [OF demo_plain] by auto
  then have "\<not> is_global_wildcard_domain_pattern (lit ''a.b'')" by (simp add: is_global_wildcard_domain_pattern_def)
  then have "constraints_hold demo_env demo_state"
    unfolding constraints_hold_def validate_policy_against_constraints_def demo_denied
    by (simp add: then_check_Inr validate_non_global_wildcard_domain_patterns_def unwrap_or_default_def check_enabled_def
        check_mode_def check_flag_def check_all_unix_sockets_def check_allowed_domains_def check_denied_domains_def
        check_unix_sockets_def demo_state_def no_constraints_def)
  then have "fresh_state demo_env demo_state"
    using demo_compiled by (simp add: fresh_state_def) (simp add: demo_state_def)
  then have "net_reachable demo_env (record_blocked () demo_state)" by (intro net_reachable.blocked net_reachable.start)
  from reachable_states_respect_constraints [OF this] show ?thesis
    by (simp add: demo_env_def record_blocked_def demo_state_def)
qed

section \<open>Lost requests\<close>

text \<open>
  An update of a domain list writes back the blocked requests of the state it has seen. A request that is
  blocked between the two is not noticed by the check before the write, which compares constraints and
  configuration only, and is lost, from the list and from the count. A forced reload keeps the list and
  resets the count.
\<close>

lemma update_loses_blocked_request:
  assumes "update_domain_list_attempt ne host k seen (record_blocked entry seen) = Finished (Inr ()) st"
    and "st \<noteq> record_blocked entry seen"
  shows "cs_blocked st = cs_blocked seen \<and> cs_blocked_total st = cs_blocked_total seen"
  using assms by (auto simp: update_domain_list_attempt_def Let_def split: sum.splits if_splits)

lemma force_reload_resets_count:
  "fresh_state ne new \<Longrightarrow> cs_blocked_total (snd (force_reload (Inr new) guard)) = 0 \<and>
   cs_blocked (snd (force_reload (Inr new) guard)) = cs_blocked guard"
  by (simp add: force_reload_def fresh_state_def)

end
