(* ===== verification/Legacy_Policy.thy ===== *)
theory Legacy_Policy
  imports Paths "HOL-Library.List_Lexorder"
begin

text \<open>
  \<^verbatim>\<open>codex-rs/execpolicy-legacy\<close>: the older policy checker. A policy lists programs with the options and the
  patterns of arguments they may have; a call is matched against them, and the files it names are then
  compared with the folders the caller lets it read and write. Regular expressions, the container of the
  programs, the crate that makes paths absolute and the file system are arguments; Starlark, which runs a
  policy file, calls the functions of the last section. Where the source indexes a slice, \<open>None\<close> is its panic.
\<close>

section \<open>Types of arguments\<close>

datatype arg_type =
    Ty_Literal rstr
  | Ty_OpaqueNonFile
  | Ty_ReadableFile
  | Ty_WriteableFile
  | Ty_PositiveInteger
  | Ty_SedCommand
  | Ty_Unknown

datatype arg_matcher =
    M_Literal rstr
  | M_OpaqueNonFile
  | M_ReadableFile
  | M_WriteableFile
  | M_ReadableFiles
  | M_ReadableFilesOrCwd
  | M_PositiveInteger
  | M_SedCommand
  | M_UnverifiedVarargs

datatype arg_matcher_cardinality = Card_One | Card_AtLeastOne | Card_ZeroOrMore

record positional_arg =
  pos_index :: nat
  pos_value :: rstr

record matched_arg =
  marg_index :: nat
  marg_type :: arg_type
  marg_value :: rstr

text \<open>The kind of an I/O error is its name.\<close>

type_synonym io_kind = rstr

datatype legacy_error =
    NoSpecForProgram rstr
  | OptionMissingValue rstr rstr
  | OptionFollowedByOptionInsteadOfValue rstr rstr rstr
  | UnknownOption rstr rstr
  | UnexpectedArguments rstr "positional_arg list"
  | DoubleDashNotSupportedYet rstr
  | MultipleVarargPatterns rstr arg_matcher arg_matcher
  | RangeStartExceedsEnd nat nat
  | RangeEndOutOfBounds nat nat
  | PrefixOverlapsSuffix
  | NotEnoughArgs rstr "positional_arg list" "arg_matcher list"
  | InternalInvariantViolation rstr
  | VarargMatcherDidNotMatchAnything rstr arg_matcher
  | EmptyFileName
  | LiteralValueDidNotMatch rstr rstr
  | InvalidPositiveInteger rstr
  | MissingRequiredOptions rstr "rstr list"
  | SedCommandNotProvablySafe rstr
  | ReadablePathNotInReadableFolders path "path list"
  | WriteablePathNotInWriteableFolders path "path list"
  | CannotCheckRelativePath path
  | CannotCanonicalizePath rstr io_kind

text \<open>\<^verbatim>\<open>str::parse::<u64>\<close>: an optional plus, at least one digit, and no overflow.\<close>

definition parse_u64 :: "rstr \<Rightarrow> nat option" where
  "parse_u64 s =
     (let digits = (case strip_prefix (lit ''+'') s of Some d \<Rightarrow> d | None \<Rightarrow> s);
          v = foldl (\<lambda>n c. 10 * n + (c - 48)) 0 digits
      in if digits = [] \<or> \<not> list_all is_ascii_digit digits \<or> v \<ge> 2 ^ 64 then None else Some v)"

text \<open>\<^verbatim>\<open>sed_command.rs\<close>.\<close>

definition parse_sed_command :: "rstr \<Rightarrow> (unit, legacy_error) result" where
  "parse_sed_command sed_command =
     (case strip_suffix (lit ''p'') sed_command of
        None \<Rightarrow> Inl (SedCommandNotProvablySafe sed_command)
      | Some stripped \<Rightarrow>
          (case split_once 44 stripped of
             None \<Rightarrow> Inl (SedCommandNotProvablySafe sed_command)
           | Some (first, rest) \<Rightarrow>
               if parse_u64 first \<noteq> None \<and> parse_u64 rest \<noteq> None then Inr ()
               else Inl (SedCommandNotProvablySafe sed_command)))"

text \<open>\<^verbatim>\<open>arg_type.rs\<close>.\<close>

definition arg_validate :: "arg_type \<Rightarrow> rstr \<Rightarrow> (unit, legacy_error) result" where
  "arg_validate ty value =
     (case ty of
        Ty_Literal literal_value \<Rightarrow>
          if value \<noteq> literal_value then Inl (LiteralValueDidNotMatch literal_value value) else Inr ()
      | Ty_ReadableFile \<Rightarrow> if value = [] then Inl EmptyFileName else Inr ()
      | Ty_WriteableFile \<Rightarrow> if value = [] then Inl EmptyFileName else Inr ()
      | Ty_OpaqueNonFile \<Rightarrow> Inr ()
      | Ty_Unknown \<Rightarrow> Inr ()
      | Ty_PositiveInteger \<Rightarrow>
          (case parse_u64 value of
             Some n \<Rightarrow> if n = 0 then Inl (InvalidPositiveInteger value) else Inr ()
           | None \<Rightarrow> Inl (InvalidPositiveInteger value))
      | Ty_SedCommand \<Rightarrow> parse_sed_command value)"

fun might_write_file :: "arg_type \<Rightarrow> bool" where
  "might_write_file Ty_WriteableFile = True"
| "might_write_file Ty_Unknown = True"
| "might_write_file _ = False"

text \<open>\<^verbatim>\<open>arg_matcher.rs\<close>.\<close>

fun cardinality :: "arg_matcher \<Rightarrow> arg_matcher_cardinality" where
  "cardinality M_ReadableFiles = Card_AtLeastOne"
| "cardinality M_ReadableFilesOrCwd = Card_ZeroOrMore"
| "cardinality M_UnverifiedVarargs = Card_ZeroOrMore"
| "cardinality _ = Card_One"

fun matcher_arg_type :: "arg_matcher \<Rightarrow> arg_type" where
  "matcher_arg_type (M_Literal value) = Ty_Literal value"
| "matcher_arg_type M_OpaqueNonFile = Ty_OpaqueNonFile"
| "matcher_arg_type M_ReadableFile = Ty_ReadableFile"
| "matcher_arg_type M_WriteableFile = Ty_WriteableFile"
| "matcher_arg_type M_ReadableFiles = Ty_ReadableFile"
| "matcher_arg_type M_ReadableFilesOrCwd = Ty_ReadableFile"
| "matcher_arg_type M_PositiveInteger = Ty_PositiveInteger"
| "matcher_arg_type M_SedCommand = Ty_SedCommand"
| "matcher_arg_type M_UnverifiedVarargs = Ty_Unknown"

fun is_exact :: "arg_matcher_cardinality \<Rightarrow> nat option" where
  "is_exact Card_One = Some 1"
| "is_exact Card_AtLeastOne = None"
| "is_exact Card_ZeroOrMore = None"

section \<open>Matching positional arguments\<close>

text \<open>A computation that may fail with an error and may panic.\<close>

definition run_bind ::
    "('a, 'e) result option \<Rightarrow> ('a \<Rightarrow> ('b, 'e) result option) \<Rightarrow> ('b, 'e) result option" where
  "run_bind m f =
     (case m of None \<Rightarrow> None | Some (Inl e) \<Rightarrow> Some (Inl e) | Some (Inr a) \<Rightarrow> f a)"

definition matched_arg_new :: "nat \<Rightarrow> arg_type \<Rightarrow> rstr \<Rightarrow> (matched_arg, legacy_error) result" where
  "matched_arg_new index ty value =
     (case arg_validate ty value of
        Inl e \<Rightarrow> Inl e
      | Inr _ \<Rightarrow> Inr \<lparr>marg_index = index, marg_type = ty, marg_value = value\<rparr>)"

fun push_matched ::
    "arg_type \<Rightarrow> positional_arg list \<Rightarrow> matched_arg list \<Rightarrow> (matched_arg list, legacy_error) result" where
  "push_matched ty [] matched_args = Inr matched_args"
| "push_matched ty (a # as) matched_args =
     (case matched_arg_new (pos_index a) ty (pos_value a) of
        Inl e \<Rightarrow> Inl e
      | Inr m \<Rightarrow> push_matched ty as (matched_args @ [m]))"

text \<open>The loop over patterns that match one argument each.\<close>

fun match_exact ::
    "positional_arg list \<Rightarrow> arg_matcher list \<Rightarrow> nat \<Rightarrow> matched_arg list \<Rightarrow>
     (matched_arg list \<times> nat, legacy_error) result option" where
  "match_exact args [] i matched_args = Some (Inr (matched_args, i))"
| "match_exact args (pattern # patterns) i matched_args =
     (case is_exact (cardinality pattern) of
        None \<Rightarrow> Some (Inl (InternalInvariantViolation (lit ''expected exact cardinality'')))
      | Some n \<Rightarrow>
          if i + n > length args then None
          else
            (case push_matched (matcher_arg_type pattern) (take n (drop i args)) matched_args of
               Inl e \<Rightarrow> Some (Inl e)
             | Inr matched_args' \<Rightarrow> match_exact args patterns (i + n) matched_args'))"

record partitioned_args =
  num_prefix_args :: nat
  num_suffix_args :: nat
  prefix_patterns :: "arg_matcher list"
  suffix_patterns :: "arg_matcher list"
  vararg_pattern :: "arg_matcher option"

fun partition_loop ::
    "rstr \<Rightarrow> arg_matcher list \<Rightarrow> bool \<Rightarrow> partitioned_args \<Rightarrow> (partitioned_args, legacy_error) result" where
  "partition_loop program [] in_prefix parts = Inr parts"
| "partition_loop program (pattern # patterns) in_prefix parts =
     (case is_exact (cardinality pattern) of
        Some n \<Rightarrow>
          if in_prefix
          then partition_loop program patterns in_prefix
                 (parts\<lparr>prefix_patterns := prefix_patterns parts @ [pattern], num_prefix_args := num_prefix_args parts + n\<rparr>)
          else partition_loop program patterns in_prefix
                 (parts\<lparr>suffix_patterns := suffix_patterns parts @ [pattern], num_suffix_args := num_suffix_args parts + n\<rparr>)
      | None \<Rightarrow>
          (case vararg_pattern parts of
             None \<Rightarrow> partition_loop program patterns False (parts\<lparr>vararg_pattern := Some pattern\<rparr>)
           | Some existing_pattern \<Rightarrow> Inl (MultipleVarargPatterns program existing_pattern pattern)))"

definition partition_args :: "rstr \<Rightarrow> arg_matcher list \<Rightarrow> (partitioned_args, legacy_error) result" where
  "partition_args program arg_patterns =
     partition_loop program arg_patterns True
       \<lparr>num_prefix_args = 0, num_suffix_args = 0, prefix_patterns = [], suffix_patterns = [], vararg_pattern = None\<rparr>"

definition get_range_checked :: "'a list \<Rightarrow> nat \<Rightarrow> nat \<Rightarrow> ('a list, legacy_error) result" where
  "get_range_checked vec start stop =
     (if start > stop then Inl (RangeStartExceedsEnd start stop)
      else if stop > length vec then Inl (RangeEndOutOfBounds stop (length vec))
      else Inr (take (stop - start) (drop start vec)))"

definition match_vararg ::
    "rstr \<Rightarrow> positional_arg list \<Rightarrow> nat \<Rightarrow> nat \<Rightarrow> arg_matcher option \<Rightarrow> matched_arg list \<Rightarrow>
     (matched_arg list, legacy_error) result" where
  "match_vararg program args prefix_arg_index initial_suffix_args_index vararg matched_args =
     (case vararg of
        None \<Rightarrow> Inr matched_args
      | Some pattern \<Rightarrow>
          (case get_range_checked args prefix_arg_index initial_suffix_args_index of
             Inl e \<Rightarrow> Inl e
           | Inr values \<Rightarrow>
               (case cardinality pattern of
                  Card_One \<Rightarrow>
                    Inl (InternalInvariantViolation (lit ''vararg pattern should not have cardinality of one''))
                | Card_AtLeastOne \<Rightarrow>
                    if values = [] then Inl (VarargMatcherDidNotMatchAnything program pattern)
                    else push_matched (matcher_arg_type pattern) values matched_args
                | Card_ZeroOrMore \<Rightarrow> push_matched (matcher_arg_type pattern) values matched_args)))"

definition resolve_observed_args_with_patterns ::
    "rstr \<Rightarrow> positional_arg list \<Rightarrow> arg_matcher list \<Rightarrow> (matched_arg list, legacy_error) result option" where
  "resolve_observed_args_with_patterns program args arg_patterns =
     run_bind (Some (partition_args program arg_patterns)) (\<lambda>parts.
     run_bind (Some (get_range_checked args 0 (num_prefix_args parts))) (\<lambda>pre.
     run_bind (match_exact pre (prefix_patterns parts) 0 []) (\<lambda>(matched_args, prefix_arg_index).
       if num_suffix_args parts > length args then Some (Inl (NotEnoughArgs program args arg_patterns))
       else
         (let initial_suffix_args_index = length args - num_suffix_args parts in
          if prefix_arg_index > initial_suffix_args_index then Some (Inl PrefixOverlapsSuffix)
          else
            run_bind (Some (match_vararg program args prefix_arg_index initial_suffix_args_index
                              (vararg_pattern parts) matched_args)) (\<lambda>matched_args.
            run_bind (Some (get_range_checked args initial_suffix_args_index (length args))) (\<lambda>suf.
            run_bind (match_exact suf (suffix_patterns parts) 0 matched_args) (\<lambda>(matched_args, _).
              if length matched_args < length args then
                run_bind (Some (get_range_checked args (length matched_args) (length args)))
                  (\<lambda>extra_args. Some (Inl (UnexpectedArguments program extra_args)))
              else Some (Inr matched_args))))))))"

section \<open>Programs\<close>

record exec_call =
  call_program :: rstr
  call_args :: "rstr list"

record matched_opt =
  mopt_name :: rstr
  mopt_value :: rstr
  mopt_type :: arg_type

text \<open>A matched flag is its name.\<close>

record valid_exec =
  ve_program :: rstr
  ve_flags :: "rstr list"
  ve_opts :: "matched_opt list"
  ve_args :: "matched_arg list"
  ve_system_path :: "rstr list"

definition might_write_files :: "valid_exec \<Rightarrow> bool" where
  "might_write_files e \<longleftrightarrow>
     list_ex (\<lambda>opt. might_write_file (mopt_type opt)) (ve_opts e) \<or>
     list_ex (\<lambda>arg. might_write_file (marg_type arg)) (ve_args e)"

definition matched_opt_new :: "rstr \<Rightarrow> rstr \<Rightarrow> arg_type \<Rightarrow> (matched_opt, legacy_error) result" where
  "matched_opt_new name value ty =
     (case arg_validate ty value of
        Inl e \<Rightarrow> Inl e
      | Inr _ \<Rightarrow> Inr \<lparr>mopt_name = name, mopt_value = value, mopt_type = ty\<rparr>)"

datatype opt_meta = Meta_Flag | Meta_Value arg_type

record cmd_opt =
  opt_name :: rstr
  opt_meta :: opt_meta
  opt_required :: bool

text \<open>The hash map of the options is a list of pairs, one per name.\<close>

record program_spec =
  spec_program :: rstr
  spec_system_path :: "rstr list"
  spec_option_bundling :: bool
  spec_combined_format :: bool
  spec_allowed_options :: "(rstr \<times> cmd_opt) list"
  spec_arg_patterns :: "arg_matcher list"
  spec_forbidden :: "rstr option"
  spec_required_options :: "rstr list"
  spec_should_match :: "rstr list list"
  spec_should_not_match :: "rstr list list"

definition program_spec_new ::
    "rstr \<Rightarrow> rstr list \<Rightarrow> bool \<Rightarrow> bool \<Rightarrow> (rstr \<times> cmd_opt) list \<Rightarrow> arg_matcher list \<Rightarrow> rstr option \<Rightarrow>
     rstr list list \<Rightarrow> rstr list list \<Rightarrow> program_spec" where
  "program_spec_new program system_path option_bundling combined_format allowed_options arg_patterns forbidden
       should_match should_not_match =
     \<lparr>spec_program = program, spec_system_path = system_path, spec_option_bundling = option_bundling,
      spec_combined_format = combined_format, spec_allowed_options = allowed_options,
      spec_arg_patterns = arg_patterns, spec_forbidden = forbidden,
      spec_required_options = map fst (filter (\<lambda>(name, opt). opt_required opt) allowed_options),
      spec_should_match = should_match, spec_should_not_match = should_not_match\<rparr>"

datatype forbidden =
    Forbidden_Program rstr exec_call
  | Forbidden_Arg rstr exec_call
  | Forbidden_Exec valid_exec

datatype matched_exec = Exec_Match valid_exec | Exec_Forbidden forbidden rstr

record check_state =
  expecting_option_value :: "(rstr \<times> arg_type) option"
  st_args :: "positional_arg list"
  st_flags :: "rstr list"
  st_opts :: "matched_opt list"

fun check_args_loop ::
    "program_spec \<Rightarrow> nat \<Rightarrow> rstr list \<Rightarrow> check_state \<Rightarrow> (check_state, legacy_error) result" where
  "check_args_loop spec index [] st = Inr st"
| "check_args_loop spec index (arg # args) st =
     (case expecting_option_value st of
        Some (name, ty) \<Rightarrow>
          if starts_with arg (lit ''-'')
          then Inl (OptionFollowedByOptionInsteadOfValue (spec_program spec) name arg)
          else
            (case matched_opt_new name arg ty of
               Inl e \<Rightarrow> Inl e
             | Inr m \<Rightarrow> check_args_loop spec (index + 1) args
                          (st\<lparr>st_opts := st_opts st @ [m], expecting_option_value := None\<rparr>))
      | None \<Rightarrow>
          if arg = lit ''--'' then Inl (DoubleDashNotSupportedYet (spec_program spec))
          else if starts_with arg (lit ''-'') then
            (case map_of (spec_allowed_options spec) arg of
               Some opt \<Rightarrow>
                 (case opt_meta opt of
                    Meta_Flag \<Rightarrow> check_args_loop spec (index + 1) args (st\<lparr>st_flags := st_flags st @ [arg]\<rparr>)
                  | Meta_Value ty \<Rightarrow>
                      check_args_loop spec (index + 1) args (st\<lparr>expecting_option_value := Some (arg, ty)\<rparr>))
             | None \<Rightarrow> Inl (UnknownOption (spec_program spec) arg))
          else check_args_loop spec (index + 1) args
                 (st\<lparr>st_args := st_args st @ [\<lparr>pos_index = index, pos_value = arg\<rparr>]\<rparr>))"

definition spec_check :: "program_spec \<Rightarrow> exec_call \<Rightarrow> (matched_exec, legacy_error) result option" where
  "spec_check self call =
     run_bind (Some (check_args_loop self 0 (call_args call)
                       \<lparr>expecting_option_value = None, st_args = [], st_flags = [], st_opts = []\<rparr>)) (\<lambda>st.
       case expecting_option_value st of
         Some (name, _) \<Rightarrow> Some (Inl (OptionMissingValue (spec_program self) name))
       | None \<Rightarrow>
           run_bind (resolve_observed_args_with_patterns (spec_program self) (st_args st) (spec_arg_patterns self))
             (\<lambda>matched_args.
               let matched_opt_names = map mopt_name (st_opts st);
                   missing = filter (\<lambda>name. name \<notin> set matched_opt_names) (spec_required_options self)
               in if missing \<noteq> [] then Some (Inl (MissingRequiredOptions (spec_program self) (sort missing)))
                  else
                    (let exec = \<lparr>ve_program = spec_program self, ve_flags = st_flags st, ve_opts = st_opts st,
                                 ve_args = matched_args, ve_system_path = spec_system_path self\<rparr>
                     in Some (Inr (case spec_forbidden self of
                                     Some reason \<Rightarrow> Exec_Forbidden (Forbidden_Exec exec) reason
                                   | None \<Rightarrow> Exec_Match exec)))))"

record positive_example_failed =
  pef_program :: rstr
  pef_args :: "rstr list"
  pef_error :: "legacy_error"

record negative_example_passed =
  nep_program :: rstr
  nep_args :: "rstr list"

definition verify_should_match_list :: "program_spec \<Rightarrow> positive_example_failed list option" where
  "verify_should_match_list self =
     foldl (\<lambda>violations good.
        case (violations, spec_check self \<lparr>call_program = spec_program self, call_args = good\<rparr>) of
          (Some vs, Some (Inr _)) \<Rightarrow> Some vs
        | (Some vs, Some (Inl e)) \<Rightarrow>
            Some (vs @ [\<lparr>pef_program = spec_program self, pef_args = good, pef_error = e\<rparr>])
        | _ \<Rightarrow> None)
       (Some []) (spec_should_match self)"

definition verify_should_not_match_list :: "program_spec \<Rightarrow> negative_example_passed list option" where
  "verify_should_not_match_list self =
     foldl (\<lambda>violations bad.
        case (violations, spec_check self \<lparr>call_program = spec_program self, call_args = bad\<rparr>) of
          (Some vs, Some (Inr _)) \<Rightarrow> Some (vs @ [\<lparr>nep_program = spec_program self, nep_args = bad\<rparr>])
        | (Some vs, Some (Inl _)) \<Rightarrow> Some vs
        | _ \<Rightarrow> None)
       (Some []) (spec_should_not_match self)"

section \<open>Policies\<close>

text \<open>
  \<^verbatim>\<open>MultiMap\<close> of the crate \<^verbatim>\<open>multimap\<close>, and regular expressions of \<^verbatim>\<open>regex_lite\<close>: a compiled one is the
  set of strings it matches.
\<close>

record 'm spec_map =
  sm_new :: 'm
  sm_insert :: "rstr \<Rightarrow> program_spec \<Rightarrow> 'm \<Rightarrow> 'm"
  sm_get_vec :: "'m \<Rightarrow> rstr \<Rightarrow> program_spec list option"
  sm_flat_iter :: "'m \<Rightarrow> (rstr \<times> program_spec) list"

record 're regex_env =
  re_escape :: "rstr \<Rightarrow> rstr"
  re_new :: "rstr \<Rightarrow> (rstr \<Rightarrow> bool, 're) result"

record forbidden_program_regex =
  fpr_regex :: "rstr \<Rightarrow> bool"
  fpr_reason :: rstr

record 'm legacy_policy =
  lp_programs :: 'm
  lp_forbidden_program_regexes :: "forbidden_program_regex list"
  lp_forbidden_substrings_pattern :: "(rstr \<Rightarrow> bool) option"

definition legacy_policy_new ::
    "'re regex_env \<Rightarrow> 'm \<Rightarrow> forbidden_program_regex list \<Rightarrow> rstr list \<Rightarrow> ('m legacy_policy, 're) result" where
  "legacy_policy_new re programs regexes forbidden_substrings =
     (let mk = (\<lambda>pat. \<lparr>lp_programs = programs, lp_forbidden_program_regexes = regexes,
                        lp_forbidden_substrings_pattern = pat\<rparr>)
      in if forbidden_substrings = [] then Inr (mk None)
         else
           (let escaped_substrings = str_join (lit ''|'') (map (re_escape re) forbidden_substrings) in
            case re_new re (lit ''('' @ escaped_substrings @ lit '')'') of
              Inl e \<Rightarrow> Inl e
            | Inr r \<Rightarrow> Inr (mk (Some r))))"

fun check_specs ::
    "program_spec list \<Rightarrow> exec_call \<Rightarrow> legacy_error \<Rightarrow> (matched_exec, legacy_error) result option" where
  "check_specs [] call last_err = Some (Inl last_err)"
| "check_specs (spec # specs) call last_err =
     (case spec_check spec call of
        None \<Rightarrow> None
      | Some (Inr matched_exec) \<Rightarrow> Some (Inr matched_exec)
      | Some (Inl err) \<Rightarrow> check_specs specs call err)"

definition legacy_policy_check ::
    "'m spec_map \<Rightarrow> 'm legacy_policy \<Rightarrow> exec_call \<Rightarrow> (matched_exec, legacy_error) result option" where
  "legacy_policy_check sm self call =
     (case find (\<lambda>r. fpr_regex r (call_program call)) (lp_forbidden_program_regexes self) of
        Some r \<Rightarrow> Some (Inr (Exec_Forbidden (Forbidden_Program (call_program call) call) (fpr_reason r)))
      | None \<Rightarrow>
          (case find (\<lambda>arg. case lp_forbidden_substrings_pattern self of Some m \<Rightarrow> m arg | None \<Rightarrow> False)
                  (call_args call) of
             Some arg \<Rightarrow>
               Some (Inr (Exec_Forbidden (Forbidden_Arg arg call)
                            (lit ''arg `'' @ arg @ lit ''` contains forbidden substring'')))
           | None \<Rightarrow>
               check_specs (case sm_get_vec sm (lp_programs self) (call_program call) of
                              Some spec_list \<Rightarrow> spec_list | None \<Rightarrow> [])
                 call (NoSpecForProgram (call_program call))))"

text \<open>The examples of all programs, in the order of the container; the first panic ends the run.\<close>

definition extend_all :: "('a \<Rightarrow> 'b list option) \<Rightarrow> 'a list \<Rightarrow> 'b list option" where
  "extend_all f xs =
     foldl (\<lambda>acc x. case (acc, f x) of (Some vs, Some ws) \<Rightarrow> Some (vs @ ws) | _ \<Rightarrow> None) (Some []) xs"

definition check_each_good_list_individually ::
    "'m spec_map \<Rightarrow> 'm legacy_policy \<Rightarrow> positive_example_failed list option" where
  "check_each_good_list_individually sm self =
     extend_all (\<lambda>(_, spec). verify_should_match_list spec) (sm_flat_iter sm (lp_programs self))"

definition check_each_bad_list_individually ::
    "'m spec_map \<Rightarrow> 'm legacy_policy \<Rightarrow> negative_example_passed list option" where
  "check_each_bad_list_individually sm self =
     extend_all (\<lambda>(_, spec). verify_should_not_match_list spec) (sm_flat_iter sm (lp_programs self))"

section \<open>Checking the files of a call\<close>

text \<open>\<^verbatim>\<open>path_absolutize\<close> and the modes of files.\<close>

record execv_env =
  ee_absolutize_from :: "path \<Rightarrow> path \<Rightarrow> (path, io_kind) result"
  ee_absolutize :: "path \<Rightarrow> (path, io_kind) result"
  ee_metadata :: "path \<Rightarrow> (bool \<times> nat) option"

definition ensure_absolute_path :: "execv_env \<Rightarrow> rstr \<Rightarrow> path option \<Rightarrow> (path, legacy_error) result" where
  "ensure_absolute_path ee p cwd =
     (if \<not> is_absolute p
      then (case cwd of
              None \<Rightarrow> Inl (CannotCheckRelativePath p)
            | Some c \<Rightarrow> map_sum (CannotCanonicalizePath p) id (ee_absolutize_from ee p c))
      else map_sum (CannotCanonicalizePath p) id (ee_absolutize ee p))"

text \<open>\<^verbatim>\<open>Path::starts_with\<close> compares components.\<close>

definition in_folders :: "path \<Rightarrow> path list \<Rightarrow> bool" where
  "in_folders file folders = list_ex (\<lambda>folder. starts_with (components file) (components folder)) folders"

fun check_files_loop ::
    "execv_env \<Rightarrow> path option \<Rightarrow> path list \<Rightarrow> path list \<Rightarrow> (arg_type \<times> rstr) list \<Rightarrow> (unit, legacy_error) result" where
  "check_files_loop ee cwd readable_folders writeable_folders [] = Inr ()"
| "check_files_loop ee cwd readable_folders writeable_folders ((ty, value) # rest) =
     (case ty of
        Ty_ReadableFile \<Rightarrow>
          (case ensure_absolute_path ee value cwd of
             Inl e \<Rightarrow> Inl e
           | Inr file \<Rightarrow>
               if \<not> in_folders file readable_folders then Inl (ReadablePathNotInReadableFolders file readable_folders)
               else check_files_loop ee cwd readable_folders writeable_folders rest)
      | Ty_WriteableFile \<Rightarrow>
          (case ensure_absolute_path ee value cwd of
             Inl e \<Rightarrow> Inl e
           | Inr file \<Rightarrow>
               if \<not> in_folders file writeable_folders then Inl (WriteablePathNotInWriteableFolders file writeable_folders)
               else check_files_loop ee cwd readable_folders writeable_folders rest)
      | _ \<Rightarrow> check_files_loop ee cwd readable_folders writeable_folders rest)"

text \<open>A regular file with an executable bit; the bits of the mode are those of \<^verbatim>\<open>0o111\<close>.\<close>

definition is_executable_file :: "execv_env \<Rightarrow> path \<Rightarrow> bool" where
  "is_executable_file ee p =
     (case ee_metadata ee p of
        Some (is_file, mode) \<Rightarrow> is_file \<and> (odd mode \<or> odd (mode div 8) \<or> odd (mode div 64))
      | None \<Rightarrow> False)"

definition execv_check ::
    "execv_env \<Rightarrow> valid_exec \<Rightarrow> path option \<Rightarrow> path list \<Rightarrow> path list \<Rightarrow> (rstr, legacy_error) result" where
  "execv_check ee exec cwd readable_folders writeable_folders =
     (case check_files_loop ee cwd readable_folders writeable_folders
             (map (\<lambda>arg. (marg_type arg, marg_value arg)) (ve_args exec) @
              map (\<lambda>opt. (mopt_type opt, mopt_value opt)) (ve_opts exec)) of
        Inl e \<Rightarrow> Inl e
      | Inr _ \<Rightarrow>
          (case find (is_executable_file ee) (ve_system_path exec) of
             Some system_path \<Rightarrow> Inr system_path
           | None \<Rightarrow> Inr (ve_program exec)))"

section \<open>Building a policy\<close>

record 'm policy_builder =
  pb_programs :: 'm
  pb_forbidden_program_regexes :: "forbidden_program_regex list"
  pb_forbidden_substrings :: "rstr list"

definition policy_builder_new :: "'m spec_map \<Rightarrow> 'm policy_builder" where
  "policy_builder_new sm = \<lparr>pb_programs = sm_new sm, pb_forbidden_program_regexes = [], pb_forbidden_substrings = []\<rparr>"

definition policy_builder_build :: "'re regex_env \<Rightarrow> 'm policy_builder \<Rightarrow> ('m legacy_policy, 're) result" where
  "policy_builder_build re b =
     legacy_policy_new re (pb_programs b) (pb_forbidden_program_regexes b) (pb_forbidden_substrings b)"

definition add_program_spec :: "'m spec_map \<Rightarrow> program_spec \<Rightarrow> 'm policy_builder \<Rightarrow> 'm policy_builder" where
  "add_program_spec sm spec b = b\<lparr>pb_programs := sm_insert sm (spec_program spec) spec (pb_programs b)\<rparr>"

definition add_forbidden_substrings :: "rstr list \<Rightarrow> 'm policy_builder \<Rightarrow> 'm policy_builder" where
  "add_forbidden_substrings substrings b = b\<lparr>pb_forbidden_substrings := pb_forbidden_substrings b @ substrings\<rparr>"

definition add_forbidden_program_regex :: "(rstr \<Rightarrow> bool) \<Rightarrow> rstr \<Rightarrow> 'm policy_builder \<Rightarrow> 'm policy_builder" where
  "add_forbidden_program_regex regex reason b =
     b\<lparr>pb_forbidden_program_regexes := pb_forbidden_program_regexes b @ [\<lparr>fpr_regex = regex, fpr_reason = reason\<rparr>]\<rparr>"

fun collect_options :: "cmd_opt list \<Rightarrow> (rstr \<times> cmd_opt) list \<Rightarrow> ((rstr \<times> cmd_opt) list, rstr) result" where
  "collect_options [] allowed = Inr allowed"
| "collect_options (opt # opts) allowed =
     (if map_of allowed (opt_name opt) \<noteq> None then Inl (lit ''duplicate flag: '' @ opt_name opt)
      else collect_options opts (allowed @ [(opt_name opt, opt)]))"

text \<open>The builtins of a policy file; an optional argument that is not given has its default.\<close>

definition unwrap_list :: "'a list option \<Rightarrow> 'a list" where
  "unwrap_list x = (case x of Some xs \<Rightarrow> xs | None \<Rightarrow> [])"

definition unwrap_flag :: "bool option \<Rightarrow> bool" where
  "unwrap_flag x = (case x of Some v \<Rightarrow> v | None \<Rightarrow> False)"

definition define_program ::
    "'m spec_map \<Rightarrow> rstr \<Rightarrow> rstr list option \<Rightarrow> bool option \<Rightarrow> bool option \<Rightarrow> cmd_opt list option \<Rightarrow> arg_matcher list option \<Rightarrow>
     rstr option \<Rightarrow> rstr list list option \<Rightarrow> rstr list list option \<Rightarrow> 'm policy_builder \<Rightarrow> ('m policy_builder, rstr) result" where
  "define_program sm program system_path option_bundling combined_format options args forbidden should_match
       should_not_match b =
     (case collect_options (unwrap_list options) [] of
        Inl e \<Rightarrow> Inl e
      | Inr allowed_options \<Rightarrow>
          Inr (add_program_spec sm
                 (program_spec_new program (unwrap_list system_path) (unwrap_flag option_bundling)
                    (unwrap_flag combined_format) allowed_options (unwrap_list args) forbidden
                    (unwrap_list should_match) (unwrap_list should_not_match)) b))"

definition forbid_substrings :: "rstr list \<Rightarrow> 'm policy_builder \<Rightarrow> 'm policy_builder" where
  "forbid_substrings strings b = add_forbidden_substrings strings b"

definition forbid_program_regex ::
    "'re regex_env \<Rightarrow> rstr \<Rightarrow> rstr \<Rightarrow> 'm policy_builder \<Rightarrow> ('m policy_builder, 're) result" where
  "forbid_program_regex re regex reason b =
     (case re_new re regex of Inl e \<Rightarrow> Inl e | Inr r \<Rightarrow> Inr (add_forbidden_program_regex r reason b))"

definition opt_builtin :: "rstr \<Rightarrow> arg_matcher \<Rightarrow> bool option \<Rightarrow> cmd_opt" where
  "opt_builtin name ty required =
     \<lparr>opt_name = name, opt_meta = Meta_Value (matcher_arg_type ty), opt_required = unwrap_flag required\<rparr>"

definition flag_builtin :: "rstr \<Rightarrow> cmd_opt" where
  "flag_builtin name = \<lparr>opt_name = name, opt_meta = Meta_Flag, opt_required = False\<rparr>"

end
