(* ===== verification/Legacy_Policy_Correct.thy ===== *)
theory Legacy_Policy_Correct
  imports Legacy_Policy
begin

text \<open>
  What the older policy checker promises: positional arguments are matched as by a regular expression over
  their types, a program matches exactly the calls its options and patterns describe, and every argument
  of a call that passes is checked for its type, the files among them for the folders.
\<close>

section \<open>Positional arguments\<close>

text \<open>
  The reference: a list of patterns stands for a set of lists of types, one for each argument, in which a
  pattern for several files may be repeated.
\<close>

inductive expands :: "arg_matcher list \<Rightarrow> arg_type list \<Rightarrow> bool" where
  none: "expands [] []"
| one: "cardinality p = Card_One \<Longrightarrow> expands ps tys \<Longrightarrow> expands (p # ps) (matcher_arg_type p # tys)"
| some: "cardinality p = Card_AtLeastOne \<Longrightarrow> expands ps tys \<Longrightarrow> expands (p # ps) (replicate (Suc k) (matcher_arg_type p) @ tys)"
| any: "cardinality p = Card_ZeroOrMore \<Longrightarrow> expands ps tys \<Longrightarrow> expands (p # ps) (replicate k (matcher_arg_type p) @ tys)"

inductive_cases expands_NilE: "expands [] tys"
inductive_cases expands_ConsE: "expands (p # ps) tys"

definition assigned :: "positional_arg list \<Rightarrow> arg_type list \<Rightarrow> matched_arg list \<Rightarrow> bool" where
  "assigned args tys ms \<longleftrightarrow> length tys = length args \<and>
     ms = map2 (\<lambda>a ty. \<lparr>marg_index = pos_index a, marg_type = ty, marg_value = pos_value a\<rparr>) args tys \<and>
     (\<forall>(a, ty)\<in>set (zip args tys). arg_validate ty (pos_value a) = Inr ())"

definition exact :: "arg_matcher \<Rightarrow> bool" where
  "exact p \<longleftrightarrow> cardinality p = Card_One"

lemma is_exact_cases: "is_exact (cardinality p) = (if exact p then Some 1 else None)"
  by (cases "cardinality p") (auto simp: exact_def)

lemma assigned_Nil [simp]: "assigned [] [] ms \<longleftrightarrow> ms = []"
  by (auto simp: assigned_def)

lemma assigned_length: "assigned args tys ms \<Longrightarrow> length ms = length args \<and> length tys = length args"
  by (auto simp: assigned_def)

lemma assigned_append:
  assumes "length as = length ts"
  shows "assigned (as @ bs) (ts @ us) ms \<longleftrightarrow> (\<exists>ms1 ms2. ms = ms1 @ ms2 \<and> assigned as ts ms1 \<and> assigned bs us ms2)"
  using assms by (auto simp: assigned_def)

lemma arg_validate_unit: "arg_validate ty v = Inr u \<longleftrightarrow> arg_validate ty v = Inr ()"
  by (cases u) simp

lemma assigned_Cons:
  "assigned (a # as) (ty # tys) ms \<longleftrightarrow> (\<exists>m ms'. ms = m # ms' \<and> matched_arg_new (pos_index a) ty (pos_value a) = Inr m \<and> assigned as tys ms')"
  by (auto simp: assigned_def matched_arg_new_def split: sum.splits)

lemma push_matched_iff:
  "push_matched ty as acc = Inr acc' \<longleftrightarrow> (\<exists>ms. acc' = acc @ ms \<and> assigned as (replicate (length as) ty) ms)"
proof (induction as arbitrary: acc)
  case (Cons a as)
  show ?case
    by (cases "matched_arg_new (pos_index a) ty (pos_value a)") (auto simp: assigned_Cons Cons.IH)
qed auto

text \<open>The loop over patterns of one argument each, on a slice of exactly as many arguments.\<close>

lemma match_exact_iff:
  assumes "list_all exact ps" and "i + length ps = length args"
  shows "match_exact args ps i acc \<noteq> None"
    and "match_exact args ps i acc = Some (Inr r) \<longleftrightarrow>
      (\<exists>ms. r = (acc @ ms, length args) \<and> assigned (drop i args) (map matcher_arg_type ps) ms)"
proof -
  have "match_exact args ps i acc \<noteq> None \<and> (match_exact args ps i acc = Some (Inr r) \<longleftrightarrow>
      (\<exists>ms. r = (acc @ ms, length args) \<and> assigned (drop i args) (map matcher_arg_type ps) ms))"
    using assms
  proof (induction ps arbitrary: i acc)
    case (Cons p ps)
    then have i: "i < length args" "Suc i + length ps = length args" and e: "exact p" "list_all exact ps" by auto
    have step: "match_exact args (p # ps) i acc =
        (case matched_arg_new (pos_index (args ! i)) (matcher_arg_type p) (pos_value (args ! i)) of
           Inl e \<Rightarrow> Some (Inl e) | Inr m \<Rightarrow> match_exact args ps (Suc i) (acc @ [m]))"
    proof -
      have "take 1 (drop i args) = [args ! i]" using i(1) by (simp add: hd_drop_conv_nth take_Suc)
      then show ?thesis using i e(1) by (simp add: is_exact_cases split: sum.split)
    qed
    have d: "drop i args = args ! i # drop (Suc i) args" using i(1) by (simp add: Cons_nth_drop_Suc)
    show ?case
    proof (cases "matched_arg_new (pos_index (args ! i)) (matcher_arg_type p) (pos_value (args ! i))")
      case (Inl e)
      then show ?thesis unfolding step d by (simp add: assigned_Cons)
    next
      case (Inr m)
      then show ?thesis unfolding step d using Cons.IH [OF e(2) i(2), of "acc @ [m]"] by (simp add: assigned_Cons) blast
    qed
  qed auto
  then show "match_exact args ps i acc \<noteq> None"
    and "match_exact args ps i acc = Some (Inr r) \<longleftrightarrow>
      (\<exists>ms. r = (acc @ ms, length args) \<and> assigned (drop i args) (map matcher_arg_type ps) ms)" by blast+
qed

lemma expands_exact: "list_all exact ps \<Longrightarrow> expands ps tys \<longleftrightarrow> tys = map matcher_arg_type ps"
proof (induction ps arbitrary: tys)
  case (Cons p ps)
  then have p: "cardinality p = Card_One" by (simp add: exact_def)
  have "expands (p # ps) tys \<longleftrightarrow> (\<exists>tys'. tys = matcher_arg_type p # tys' \<and> expands ps tys')"
    using p by (auto elim: expands_ConsE intro: expands.one)
  then show ?case using Cons by simp
qed (auto elim: expands_NilE intro: expands.none)

lemma expands_vararg:
  assumes "list_all exact pre" "list_all exact suf" "\<not> exact v"
  shows "expands (pre @ v # suf) tys \<longleftrightarrow>
    (\<exists>k. tys = map matcher_arg_type pre @ replicate k (matcher_arg_type v) @ map matcher_arg_type suf \<and>
         (cardinality v = Card_AtLeastOne \<longrightarrow> 0 < k))"
  using assms(1)
proof (induction pre arbitrary: tys)
  case Nil
  have "expands (v # suf) tys \<longleftrightarrow> (\<exists>k tys'. tys = replicate k (matcher_arg_type v) @ tys' \<and> expands suf tys' \<and>
      (cardinality v = Card_AtLeastOne \<longrightarrow> 0 < k))" (is "?l \<longleftrightarrow> ?r")
  proof
    assume ?l
    then show ?r
    proof (cases rule: expands.cases)
      case (some tys' k)
      then show ?thesis by (intro exI [of _ "Suc k"] exI [of _ tys']) simp
    next
      case (any tys' k)
      then show ?thesis by (intro exI [of _ k] exI [of _ tys']) simp
    qed (use assms(3) in \<open>auto simp: exact_def\<close>)
  next
    assume ?r
    then obtain k tys' where k: "tys = replicate k (matcher_arg_type v) @ tys'" "expands suf tys'"
      "cardinality v = Card_AtLeastOne \<longrightarrow> 0 < k" by blast
    show ?l
    proof (cases "cardinality v")
      case Card_AtLeastOne
      then show ?thesis using k expands.some [of v suf tys' "k - 1"] by simp
    qed (use assms(3) k expands.any in \<open>auto simp: exact_def\<close>)
  qed
  then show ?case using expands_exact [OF assms(2)] by simp
next
  case (Cons p pre)
  then have p: "cardinality p = Card_One" by (simp add: exact_def)
  have "expands ((p # pre) @ v # suf) tys \<longleftrightarrow> (\<exists>tys'. tys = matcher_arg_type p # tys' \<and> expands (pre @ v # suf) tys')"
    using p by (auto elim: expands_ConsE intro: expands.one)
  then show ?case using Cons by auto
qed

text \<open>How the patterns are parted.\<close>

abbreviation no_parts :: partitioned_args where
  "no_parts \<equiv> \<lparr>num_prefix_args = 0, num_suffix_args = 0, prefix_patterns = [], suffix_patterns = [], vararg_pattern = None\<rparr>"

lemma partition_exact:
  "list_all exact ps \<Longrightarrow> partition_loop program (ps @ rest) True parts =
     partition_loop program rest True
       (parts\<lparr>prefix_patterns := prefix_patterns parts @ ps, num_prefix_args := num_prefix_args parts + length ps\<rparr>)"
  "list_all exact ps \<Longrightarrow> partition_loop program (ps @ rest) False parts =
     partition_loop program rest False
       (parts\<lparr>suffix_patterns := suffix_patterns parts @ ps, num_suffix_args := num_suffix_args parts + length ps\<rparr>)"
  by (induction ps arbitrary: parts) (simp_all add: is_exact_cases)

lemma split_at_vararg:
  "\<not> list_all exact ps \<Longrightarrow> \<exists>pre v rest. ps = pre @ v # rest \<and> list_all exact pre \<and> \<not> exact v"
  using split_list_first_prop [of ps "\<lambda>p. \<not> exact p"] by (auto simp: list_all_iff)

lemma partition_cases:
  assumes "list_all exact pre" "\<not> exact v"
  shows "partition_args program pre = Inr (no_parts\<lparr>prefix_patterns := pre, num_prefix_args := length pre\<rparr>)"
    and "list_all exact suf \<Longrightarrow> partition_args program (pre @ v # suf) =
      Inr \<lparr>num_prefix_args = length pre, num_suffix_args = length suf, prefix_patterns = pre, suffix_patterns = suf,
           vararg_pattern = Some v\<rparr>"
    and "\<not> list_all exact suf \<Longrightarrow> \<exists>w. partition_args program (pre @ v # suf) = Inl (MultipleVarargPatterns program v w)"
proof -
  show "partition_args program pre = Inr (no_parts\<lparr>prefix_patterns := pre, num_prefix_args := length pre\<rparr>)"
    using partition_exact(1) [OF assms(1), of program "[]"] by (simp add: partition_args_def)
  have step: "partition_args program (pre @ v # suf) = partition_loop program suf False
      (no_parts\<lparr>prefix_patterns := pre, num_prefix_args := length pre, vararg_pattern := Some v\<rparr>)" for suf
    using assms by (simp add: partition_args_def partition_exact(1) is_exact_cases)
  show "list_all exact suf \<Longrightarrow> partition_args program (pre @ v # suf) =
      Inr \<lparr>num_prefix_args = length pre, num_suffix_args = length suf, prefix_patterns = pre, suffix_patterns = suf,
           vararg_pattern = Some v\<rparr>"
    using partition_exact(2) [of suf program "[]"] by (simp add: step)
  assume "\<not> list_all exact suf"
  then obtain pre' w rest where "suf = pre' @ w # rest" "list_all exact pre'" "\<not> exact w" using split_at_vararg by blast
  then show "\<exists>w. partition_args program (pre @ v # suf) = Inl (MultipleVarargPatterns program v w)"
    by (auto simp: step partition_exact(2) is_exact_cases)
qed

lemma run_bind_simps [simp]:
  "run_bind None f = None" "run_bind (Some (Inl e)) f = Some (Inl e)" "run_bind (Some (Inr a)) f = f a"
  by (simp_all add: run_bind_def)

lemma resolve_exact:
  assumes "list_all exact ps"
  shows "resolve_observed_args_with_patterns program args ps \<noteq> None \<and>
    (resolve_observed_args_with_patterns program args ps = Some (Inr ms) \<longleftrightarrow> assigned args (map matcher_arg_type ps) ms)"
proof -
  note parts = partition_cases(1) [OF assms, of M_ReadableFiles]
  have v: "\<not> exact M_ReadableFiles" by (simp add: exact_def)
  show ?thesis
  proof (cases "length ps \<le> length args")
    case False
    then show ?thesis
      by (auto simp: resolve_observed_args_with_patterns_def parts [OF v] get_range_checked_def dest: assigned_length)
  next
    case True
    let ?m = "match_exact (take (length ps) args) ps 0 []"
    have m: "?m \<noteq> None" "?m = Some (Inr r) \<longleftrightarrow> (\<exists>ms. r = (ms, length ps) \<and> assigned (take (length ps) args) (map matcher_arg_type ps) ms)" for r
      using match_exact_iff [of ps 0 "take (length ps) args" "[]"] assms True by auto
    have short: "length args = length ps" if "assigned args (map matcher_arg_type ps) ms" using assigned_length [OF that] by simp
    obtain res where res: "?m = Some res" using m(1) by blast
    show ?thesis
    proof (cases res)
      case (Inl e)
      then show ?thesis
        using res True m(2) short
        by (auto simp: resolve_observed_args_with_patterns_def parts [OF v] get_range_checked_def)
    next
      case (Inr r)
      then obtain ms' where r: "r = (ms', length ps)" "assigned (take (length ps) args) (map matcher_arg_type ps) ms'"
        using res m(2) [of r] by auto
      have "ms = ms'" if "assigned args (map matcher_arg_type ps) ms" "length args = length ps"
        using that r(2) by (simp add: assigned_def)
      moreover have "resolve_observed_args_with_patterns program args ps =
          (if length ps < length args then Some (Inl (UnexpectedArguments program (drop (length ps) args))) else Some (Inr ms'))"
        using res Inr r True assigned_length [OF r(2)]
        by (simp add: resolve_observed_args_with_patterns_def parts [OF v] get_range_checked_def match_vararg_def Let_def)
      ultimately show ?thesis using True short r(2) by auto
    qed
  qed
qed

text \<open>The three slices that a vararg pattern cuts the arguments into.\<close>

definition match_rest ::
    "rstr \<Rightarrow> positional_arg list \<Rightarrow> arg_matcher \<Rightarrow> arg_matcher list \<Rightarrow> matched_arg list \<times> nat \<Rightarrow>
     (matched_arg list, legacy_error) result option" where
  "match_rest program args v suf = (\<lambda>(matched_args, i).
     run_bind (Some (match_vararg program args i (length args - length suf) (Some v) matched_args)) (\<lambda>matched_args.
     run_bind (Some (get_range_checked args (length args - length suf) (length args))) (\<lambda>sf.
     run_bind (match_exact sf suf 0 matched_args) (\<lambda>(matched_args, _).
       if length matched_args < length args then
         run_bind (Some (get_range_checked args (length matched_args) (length args)))
           (\<lambda>extra_args. Some (Inl (UnexpectedArguments program extra_args)))
       else Some (Inr matched_args)))))"

lemma resolve_vararg_unfold:
  assumes "list_all exact pre" "list_all exact suf" "\<not> exact v"
  shows "resolve_observed_args_with_patterns program args (pre @ v # suf) =
    run_bind (Some (get_range_checked args 0 (length pre))) (\<lambda>pr.
    run_bind (match_exact pr pre 0 []) (\<lambda>r.
      if length suf > length args then Some (Inl (NotEnoughArgs program args (pre @ v # suf)))
      else if snd r > length args - length suf then Some (Inl PrefixOverlapsSuffix)
      else match_rest program args v suf r))"
  unfolding resolve_observed_args_with_patterns_def partition_cases(2) [OF assms(1,3,2)] run_bind_simps
    partitioned_args.select_convs match_rest_def Let_def case_prod_unfold by (rule refl)

lemma match_rest_iff:
  assumes suf: "list_all exact suf" and v: "\<not> exact v" and as: "length as = length acc"
    and cs: "length cs = length suf"
  shows "match_rest program (as @ bs @ cs) v suf (acc, length acc) \<noteq> None \<and>
    (match_rest program (as @ bs @ cs) v suf (acc, length acc) = Some (Inr ms) \<longleftrightarrow>
      (\<exists>ms2 ms3. ms = acc @ ms2 @ ms3 \<and> (cardinality v = Card_AtLeastOne \<longrightarrow> bs \<noteq> []) \<and>
         assigned bs (replicate (length bs) (matcher_arg_type v)) ms2 \<and> assigned cs (map matcher_arg_type suf) ms3))"
proof -
  let ?args = "as @ bs @ cs"
  have r1: "get_range_checked ?args (length acc) (length ?args - length suf) = Inr bs"
    and r2: "get_range_checked ?args (length ?args - length suf) (length ?args) = Inr cs"
    using as cs by (simp_all add: get_range_checked_def)
  have vr: "match_vararg program ?args (length acc) (length ?args - length suf) (Some v) acc =
      (if cardinality v = Card_AtLeastOne \<and> bs = [] then Inl (VarargMatcherDidNotMatchAnything program v)
       else push_matched (matcher_arg_type v) bs acc)"
    using v unfolding match_vararg_def option.case r1 by (cases "cardinality v") (auto simp: exact_def)
  show ?thesis
  proof (cases "match_vararg program ?args (length acc) (length ?args - length suf) (Some v) acc")
    case (Inl e)
    have False if "cardinality v = Card_AtLeastOne \<longrightarrow> bs \<noteq> []"
        "assigned bs (replicate (length bs) (matcher_arg_type v)) ms2" for ms2
    proof -
      have "push_matched (matcher_arg_type v) bs acc = Inr (acc @ ms2)" using that(2) by (subst push_matched_iff) blast
      then show False using vr Inl that(1) by auto
    qed
    then show ?thesis unfolding match_rest_def prod.case Inl run_bind_simps by auto
  next
    case (Inr acc2)
    note vararg = this
    obtain ms2 where ms2: "acc2 = acc @ ms2" "assigned bs (replicate (length bs) (matcher_arg_type v)) ms2"
      and some: "cardinality v = Card_AtLeastOne \<longrightarrow> bs \<noteq> []"
      using vararg vr push_matched_iff [of "matcher_arg_type v" bs acc acc2] by (auto split: if_splits)
    have u: "ms2' = ms2" if "assigned bs (replicate (length bs) (matcher_arg_type v)) ms2'" for ms2'
      using that ms2(2) by (simp add: assigned_def)
    have m: "match_exact cs suf 0 acc2 \<noteq> None"
      "\<And>r. match_exact cs suf 0 acc2 = Some (Inr r) \<longleftrightarrow> (\<exists>ms. r = (acc2 @ ms, length cs) \<and> assigned cs (map matcher_arg_type suf) ms)"
      using match_exact_iff [OF suf, of 0 cs acc2] cs by auto
    then obtain res where res: "match_exact cs suf 0 acc2 = Some res" by blast
    show ?thesis
    proof (cases res)
      case (Inl e)
      then have no: "\<not> assigned cs (map matcher_arg_type suf) ms3" for ms3 using m(2) res by auto
      then show ?thesis
        unfolding match_rest_def prod.case vararg run_bind_simps r2 res Inl by simp
    next
      case (Inr r)
      then obtain ms3 where ms3: "r = (acc2 @ ms3, length cs)" "assigned cs (map matcher_arg_type suf) ms3"
        using m(2) [of r] res by auto
      have u3: "ms3' = ms3" if "assigned cs (map matcher_arg_type suf) ms3'" for ms3' using that ms3(2) by (simp add: assigned_def)
      have "length (acc2 @ ms3) = length ?args"
        using ms2 ms3 as cs assigned_length [OF ms2(2)] assigned_length [OF ms3(2)] by simp
      then have "match_rest program ?args v suf (acc, length acc) = Some (Inr (acc2 @ ms3))"
        unfolding match_rest_def prod.case vararg run_bind_simps r2 res Inr ms3(1) by simp
      moreover have "(\<exists>ms2' ms3'. ms = acc @ ms2' @ ms3' \<and> (cardinality v = Card_AtLeastOne \<longrightarrow> bs \<noteq> []) \<and>
          assigned bs (replicate (length bs) (matcher_arg_type v)) ms2' \<and> assigned cs (map matcher_arg_type suf) ms3') \<longleftrightarrow>
          acc @ ms2 @ ms3 = ms"
        using u u3 ms2(2) ms3(2) some by blast
      ultimately show ?thesis by (simp add: ms2(1))
    qed
  qed
qed

lemma resolve_vararg:
  assumes pre: "list_all exact pre" and suf: "list_all exact suf" and v: "\<not> exact v"
  shows "resolve_observed_args_with_patterns program args (pre @ v # suf) \<noteq> None \<and>
    (resolve_observed_args_with_patterns program args (pre @ v # suf) = Some (Inr ms) \<longleftrightarrow>
     (\<exists>k. (cardinality v = Card_AtLeastOne \<longrightarrow> 0 < k) \<and>
        assigned args (map matcher_arg_type pre @ replicate k (matcher_arg_type v) @ map matcher_arg_type suf) ms))"
    (is "?R \<noteq> None \<and> (?R = _ \<longleftrightarrow> ?A)")
proof (cases "length pre \<le> length args")
  case False
  then have "\<not> ?A" by (auto dest: assigned_length)
  then show ?thesis using False by (simp add: resolve_vararg_unfold [OF assms] get_range_checked_def)
next
  case True
  define as where "as = take (length pre) args"
  have m: "match_exact as pre 0 [] \<noteq> None"
    "\<And>r. match_exact as pre 0 [] = Some (Inr r) \<longleftrightarrow> (\<exists>ms. r = (ms, length pre) \<and> assigned as (map matcher_arg_type pre) ms)"
    using match_exact_iff [OF pre, of 0 as "[]"] True by (auto simp: as_def)
  have R: "?R = run_bind (match_exact as pre 0 []) (\<lambda>r.
      if length suf > length args then Some (Inl (NotEnoughArgs program args (pre @ v # suf)))
      else if snd r > length args - length suf then Some (Inl PrefixOverlapsSuffix)
      else match_rest program args v suf r)"
    using True by (simp add: resolve_vararg_unfold [OF assms] get_range_checked_def as_def)
  obtain res where res: "match_exact as pre 0 [] = Some res" using m(1) by blast
  have part: "?A \<longleftrightarrow> (\<exists>bs cs ms1 ms2 ms3. args = as @ bs @ cs \<and> length cs = length suf \<and> ms = ms1 @ ms2 @ ms3 \<and>
      assigned as (map matcher_arg_type pre) ms1 \<and> (cardinality v = Card_AtLeastOne \<longrightarrow> bs \<noteq> []) \<and>
      assigned bs (replicate (length bs) (matcher_arg_type v)) ms2 \<and> assigned cs (map matcher_arg_type suf) ms3)" (is "_ \<longleftrightarrow> ?P")
  proof
    assume ?A
    then obtain k where k: "cardinality v = Card_AtLeastOne \<longrightarrow> 0 < k"
      and a: "assigned args (map matcher_arg_type pre @ replicate k (matcher_arg_type v) @ map matcher_arg_type suf) ms" by blast
    define bs cs where "bs = take k (drop (length pre) args)" and "cs = drop k (drop (length pre) args)"
    have args: "args = as @ bs @ cs" by (simp only: as_def bs_def cs_def append_take_drop_id)
    have len: "length as = length pre" "length bs = k" "length cs = length suf"
      using assigned_length [OF a] by (auto simp: as_def bs_def cs_def)
    obtain ms1 ms2 ms3 where "ms = ms1 @ ms2 @ ms3" "assigned as (map matcher_arg_type pre) ms1"
      "assigned bs (replicate (length bs) (matcher_arg_type v)) ms2" "assigned cs (map matcher_arg_type suf) ms3"
      using a len unfolding args by (auto simp: assigned_append)
    moreover have "cardinality v = Card_AtLeastOne \<longrightarrow> bs \<noteq> []" using k len(2) by auto
    ultimately show ?P using args len(3) by blast
  next
    assume ?P
    then obtain bs cs ms1 ms2 ms3 where args: "args = as @ bs @ cs" and p: "length cs = length suf" "ms = ms1 @ ms2 @ ms3"
      "assigned as (map matcher_arg_type pre) ms1" "cardinality v = Card_AtLeastOne \<longrightarrow> bs \<noteq> []"
      "assigned bs (replicate (length bs) (matcher_arg_type v)) ms2" "assigned cs (map matcher_arg_type suf) ms3" by blast
    have "length as = length pre" using assigned_length [OF p(3)] by simp
    then show ?A using p unfolding args by (intro exI [of _ "length bs"]) (auto simp: assigned_append)
  qed
  show ?thesis
  proof (cases res)
    case (Inl e)
    then show ?thesis unfolding R part using res m(2) by auto
  next
    case (Inr r)
    then obtain ms1 where r: "r = (ms1, length pre)" and ms1: "assigned as (map matcher_arg_type pre) ms1"
      using res m(2) [of r] by auto
    have u: "ms1' = ms1" if "assigned as (map matcher_arg_type pre) ms1'" for ms1' using that ms1 by (simp add: assigned_def)
    have l: "length ms1 = length pre" "length as = length pre" using assigned_length [OF ms1] by simp_all
    show ?thesis
    proof (cases "length pre + length suf \<le> length args")
      case False
      then have "\<not> ?P" using l by auto
      then show ?thesis unfolding R part using res Inr r False by auto
    next
      case True
      define bs cs where "bs = take (length args - length pre - length suf) (drop (length pre) args)"
        and "cs = drop (length args - length pre - length suf) (drop (length pre) args)"
      have args: "args = as @ bs @ cs" by (simp only: as_def bs_def cs_def append_take_drop_id)
      have cs: "length cs = length suf" using True by (simp add: cs_def)
      have uniq: "bs' = bs \<and> cs' = cs" if "args = as @ bs' @ cs'" "length cs' = length suf" for bs' cs'
        using that args cs by simp
      have "?R = match_rest program (as @ bs @ cs) v suf (ms1, length ms1)"
        unfolding R using res Inr r True l args by auto
      moreover have "?P \<longleftrightarrow> (\<exists>ms2 ms3. ms = ms1 @ ms2 @ ms3 \<and> (cardinality v = Card_AtLeastOne \<longrightarrow> bs \<noteq> []) \<and>
          assigned bs (replicate (length bs) (matcher_arg_type v)) ms2 \<and> assigned cs (map matcher_arg_type suf) ms3)"
        using args cs uniq u ms1 by metis
      ultimately show ?thesis
        unfolding part using match_rest_iff [OF suf v _ cs, of as ms1 program bs ms] l by simp
    qed
  qed
qed

lemma resolve_regular:
  "resolve_observed_args_with_patterns program args patterns \<noteq> None \<and>
   (resolve_observed_args_with_patterns program args patterns = Some (Inr ms) \<longleftrightarrow>
      length (filter (\<lambda>p. cardinality p \<noteq> Card_One) patterns) \<le> 1 \<and>
      (\<exists>tys. expands patterns tys \<and> assigned args tys ms))"
proof (cases "list_all exact patterns")
  case True
  then have "filter (\<lambda>p. cardinality p \<noteq> Card_One) patterns = []" by (auto simp: list_all_iff exact_def filter_empty_conv)
  then show ?thesis using resolve_exact [OF True] expands_exact [OF True] by auto
next
  case False
  then obtain pre v suf where ps: "patterns = pre @ v # suf" and pre: "list_all exact pre" and v: "\<not> exact v"
    using split_at_vararg by blast
  have pre0: "filter (\<lambda>p. cardinality p \<noteq> Card_One) pre = []" using pre by (auto simp: list_all_iff exact_def filter_empty_conv)
  show ?thesis
  proof (cases "list_all exact suf")
    case True
    then have "filter (\<lambda>p. cardinality p \<noteq> Card_One) suf = []" by (auto simp: list_all_iff exact_def filter_empty_conv)
    then show ?thesis
      using resolve_vararg [OF pre True v] expands_vararg [OF pre True v] pre0 v unfolding ps by (auto simp: exact_def)
  next
    case suf: False
    then have "filter (\<lambda>p. cardinality p \<noteq> Card_One) suf \<noteq> []" by (auto simp: list_all_iff exact_def filter_empty_conv)
    then have "\<not> length (filter (\<lambda>p. cardinality p \<noteq> Card_One) patterns) \<le> 1"
      using v pre0 by (simp add: ps exact_def)
    moreover obtain w where "partition_args program patterns = Inl (MultipleVarargPatterns program v w)"
      using partition_cases(3) [OF pre v suf] ps by blast
    ultimately show ?thesis by (simp add: resolve_observed_args_with_patterns_def)
  qed
qed

text \<open>
  C16 (equivalence): matching positional arguments never panics, and it accepts exactly when at most one
  pattern stands for several arguments and the patterns, read as a regular expression over types of
  arguments, have a list of types that fits the arguments: as many, and each argument valid for its type. The
  matches then carry the arguments in order with these types. The source parts the patterns into prefix,
  vararg and suffix and cuts the arguments by counting.
\<close>

theorem resolve_args_regular:
  "resolve_observed_args_with_patterns program args patterns \<noteq> None \<and>
   (resolve_observed_args_with_patterns program args patterns = Some (Inr ms) \<longleftrightarrow>
      length (filter (\<lambda>p. cardinality p \<noteq> Card_One) patterns) \<le> 1 \<and>
      (\<exists>tys. expands patterns tys \<and> assigned args tys ms))"
  by (rule resolve_regular)

section \<open>Programs\<close>

text \<open>
  The reference: a call is a sequence of flags, options with their values and positional arguments, as the
  program describes them.
\<close>

datatype call_item = Item_Flag rstr | Item_Opt rstr rstr arg_type | Item_Arg rstr

fun item_words :: "call_item \<Rightarrow> rstr list" where
  "item_words (Item_Flag name) = [name]"
| "item_words (Item_Opt name val ty) = [name, val]"
| "item_words (Item_Arg val) = [val]"

abbreviation dashed :: "rstr \<Rightarrow> bool" where
  "dashed s \<equiv> starts_with s (lit ''-'')"

definition option_of :: "program_spec \<Rightarrow> rstr \<Rightarrow> opt_meta option" where
  "option_of spec name =
     (if dashed name \<and> name \<noteq> lit ''--'' then map_option opt_meta (map_of (spec_allowed_options spec) name) else None)"

fun item_ok :: "program_spec \<Rightarrow> call_item \<Rightarrow> bool" where
  "item_ok spec (Item_Flag name) \<longleftrightarrow> option_of spec name = Some Meta_Flag"
| "item_ok spec (Item_Opt name val ty) \<longleftrightarrow>
     option_of spec name = Some (Meta_Value ty) \<and> \<not> dashed val \<and> arg_validate ty val = Inr ()"
| "item_ok spec (Item_Arg val) \<longleftrightarrow> \<not> dashed val"

fun item_flags :: "call_item list \<Rightarrow> rstr list" where
  "item_flags [] = []"
| "item_flags (Item_Flag name # items) = name # item_flags items"
| "item_flags (_ # items) = item_flags items"

fun item_opts :: "call_item list \<Rightarrow> matched_opt list" where
  "item_opts [] = []"
| "item_opts (Item_Opt name val ty # items) = \<lparr>mopt_name = name, mopt_value = val, mopt_type = ty\<rparr> # item_opts items"
| "item_opts (_ # items) = item_opts items"

fun item_args :: "nat \<Rightarrow> call_item list \<Rightarrow> positional_arg list" where
  "item_args i [] = []"
| "item_args i (Item_Arg val # items) = \<lparr>pos_index = i, pos_value = val\<rparr> # item_args (i + 1) items"
| "item_args i (item # items) = item_args (i + length (item_words item)) items"

definition add_items :: "nat \<Rightarrow> call_item list \<Rightarrow> check_state \<Rightarrow> check_state" where
  "add_items i items st = st\<lparr>st_args := st_args st @ item_args i items, st_flags := st_flags st @ item_flags items,
     st_opts := st_opts st @ item_opts items\<rparr>"

lemma matched_opt_new_iff:
  "matched_opt_new name val ty = Inr m \<longleftrightarrow>
   arg_validate ty val = Inr () \<and> m = \<lparr>mopt_name = name, mopt_value = val, mopt_type = ty\<rparr>"
  by (auto simp: matched_opt_new_def split: sum.splits)

lemma check_args_items:
  "check_args_loop spec i (concat (map item_words items)) st = Inr (add_items i items st)"
  if "list_all (item_ok spec) items" "expecting_option_value st = None"
  using that
proof (induction items arbitrary: i st)
  case (Cons item items)
  show ?case
  proof (cases item)
    case (Item_Opt name val ty)
    then have o: "option_of spec name = Some (Meta_Value ty)" "\<not> dashed val" "arg_validate ty val = Inr ()"
      using Cons.prems by auto
    then show ?thesis
      using Cons Item_Opt
      by (auto simp: option_of_def matched_opt_new_def add_items_def split: if_splits)
  qed (use Cons in \<open>auto simp: option_of_def add_items_def starts_with_def split: if_splits\<close>)
qed (simp add: add_items_def)

lemma check_args_sound:
  "check_args_loop spec i args st = Inr st' \<Longrightarrow> expecting_option_value st = None \<Longrightarrow> expecting_option_value st' = None \<Longrightarrow>
   \<exists>items. args = concat (map item_words items) \<and> list_all (item_ok spec) items \<and> st' = add_items i items st"
proof (induction "length args" arbitrary: i args st rule: less_induct)
  case less
  show ?case
  proof (cases args)
    case Nil
    then show ?thesis using less.prems by (intro exI [of _ "[]"]) (simp add: add_items_def)
  next
    case (Cons arg rest)
    consider (arg) "\<not> dashed arg"
      | (flag) "option_of spec arg = Some Meta_Flag"
      | (opt) ty where "option_of spec arg = Some (Meta_Value ty)"
      using less.prems(1,2) Cons
      by (auto simp: option_of_def split: if_splits option.splits opt_meta.splits)
    then show ?thesis
    proof cases
      case arg
      let ?st = "st\<lparr>st_args := st_args st @ [\<lparr>pos_index = i, pos_value = arg\<rparr>]\<rparr>"
      have "arg \<noteq> lit ''--''" using arg by (auto simp: starts_with_def)
      then have "check_args_loop spec (i + 1) rest ?st = Inr st'" using less.prems Cons arg by simp
      from less.hyps [OF _ this] less.prems Cons obtain items where "rest = concat (map item_words items)"
        "list_all (item_ok spec) items" "st' = add_items (i + 1) items ?st" by auto
      then show ?thesis using Cons arg by (intro exI [of _ "Item_Arg arg # items"]) (simp add: add_items_def)
    next
      case flag
      let ?st = "st\<lparr>st_flags := st_flags st @ [arg]\<rparr>"
      have "check_args_loop spec (i + 1) rest ?st = Inr st'"
        using less.prems Cons flag by (auto simp: option_of_def split: if_splits option.splits)
      from less.hyps [OF _ this] less.prems Cons obtain items where "rest = concat (map item_words items)"
        "list_all (item_ok spec) items" "st' = add_items (i + 1) items ?st" by auto
      then show ?thesis using Cons flag by (intro exI [of _ "Item_Flag arg # items"]) (simp add: add_items_def)
    next
      case opt
      have step: "check_args_loop spec (i + 1) rest (st\<lparr>expecting_option_value := Some (arg, ty)\<rparr>) = Inr st'"
        using less.prems Cons opt by (auto simp: option_of_def split: if_splits option.splits)
      then obtain val rest' where rest: "rest = val # rest'" using less.prems(3) by (cases rest) auto
      let ?m = "\<lparr>mopt_name = arg, mopt_value = val, mopt_type = ty\<rparr>"
      let ?st = "st\<lparr>st_opts := st_opts st @ [?m], expecting_option_value := None\<rparr>"
      have v: "\<not> dashed val" "arg_validate ty val = Inr ()" and "check_args_loop spec (i + 2) rest' ?st = Inr st'"
        using step rest by (auto simp: matched_opt_new_iff split: if_splits sum.splits)
      from less.hyps [OF _ this(3)] less.prems Cons rest obtain items where "rest' = concat (map item_words items)"
        "list_all (item_ok spec) items" "st' = add_items (i + 2) items ?st" by auto
      then show ?thesis using Cons rest opt v less.prems(2)
        by (intro exI [of _ "Item_Opt arg val ty # items"]) (simp add: add_items_def)
    qed
  qed
qed

text \<open>What a program makes of a call that it describes.\<close>

definition outcome :: "program_spec \<Rightarrow> call_item list \<Rightarrow> matched_arg list \<Rightarrow> matched_exec" where
  "outcome spec items ms =
     (let exec = \<lparr>ve_program = spec_program spec, ve_flags = item_flags items, ve_opts = item_opts items, ve_args = ms,
                  ve_system_path = spec_system_path spec\<rparr>
      in case spec_forbidden spec of Some reason \<Rightarrow> Exec_Forbidden (Forbidden_Exec exec) reason | None \<Rightarrow> Exec_Match exec)"

definition described :: "program_spec \<Rightarrow> rstr list \<Rightarrow> call_item list \<Rightarrow> matched_arg list \<Rightarrow> bool" where
  "described spec args items ms \<longleftrightarrow>
     args = concat (map item_words items) \<and> list_all (item_ok spec) items \<and>
     set (spec_required_options spec) \<subseteq> mopt_name ` set (item_opts items) \<and>
     length (filter (\<lambda>p. cardinality p \<noteq> Card_One) (spec_arg_patterns spec)) \<le> 1 \<and>
     (\<exists>tys. expands (spec_arg_patterns spec) tys \<and> assigned (item_args 0 items) tys ms)"

abbreviation start_state :: check_state where
  "start_state \<equiv> \<lparr>expecting_option_value = None, st_args = [], st_flags = [], st_opts = []\<rparr>"

lemma resolve_never_panics: "resolve_observed_args_with_patterns program args patterns \<noteq> None"
  and resolve_ok_iff: "resolve_observed_args_with_patterns program args patterns = Some (Inr ms) \<longleftrightarrow>
      length (filter (\<lambda>p. cardinality p \<noteq> Card_One) patterns) \<le> 1 \<and>
      (\<exists>tys. expands patterns tys \<and> assigned args tys ms)"
  using resolve_regular [of program args patterns ms] by auto

lemma spec_check_iff:
  "spec_check spec call \<noteq> None \<and>
   (spec_check spec call = Some (Inr m) \<longleftrightarrow> (\<exists>items ms. described spec (call_args call) items ms \<and> m = outcome spec items ms))"
proof (cases "check_args_loop spec 0 (call_args call) start_state")
  case (Inl e)
  have "\<not> described spec (call_args call) items ms" for items ms
    using Inl check_args_items [of spec items start_state 0] by (auto simp: described_def)
  then show ?thesis using Inl by (simp add: spec_check_def)
next
  case (Inr st)
  show ?thesis
  proof (cases "expecting_option_value st")
    case (Some e)
    have "\<not> described spec (call_args call) items ms" for items ms
      using Inr Some check_args_items [of spec items start_state 0] by (auto simp: described_def add_items_def)
    then show ?thesis using Inr Some by (cases e) (simp add: spec_check_def)
  next
    case None
    from check_args_sound [OF Inr _ None] obtain items where items: "call_args call = concat (map item_words items)"
      "list_all (item_ok spec) items" "st = add_items 0 items start_state" by auto
    have st: "st_args st = item_args 0 items" "st_flags st = item_flags items" "st_opts st = item_opts items"
      by (simp_all add: items(3) add_items_def)
    have same: "item_args 0 items' = item_args 0 items \<and> item_flags items' = item_flags items \<and> item_opts items' = item_opts items"
      if "described spec (call_args call) items' ms" for items' ms
      using that Inr check_args_items [of spec items' start_state 0] st by (auto simp: described_def add_items_def)
    let ?missing = "filter (\<lambda>name. name \<notin> set (map mopt_name (item_opts items))) (spec_required_options spec)"
    have req: "?missing = [] \<longleftrightarrow> set (spec_required_options spec) \<subseteq> mopt_name ` set (item_opts items)"
      by (auto simp: filter_empty_conv)
    have desc: "described spec (call_args call) items ms \<longleftrightarrow> ?missing = [] \<and>
        resolve_observed_args_with_patterns (spec_program spec) (item_args 0 items) (spec_arg_patterns spec) = Some (Inr ms)" for ms
      unfolding described_def resolve_ok_iff req using items by auto
    have eq: "spec_check spec call =
        run_bind (resolve_observed_args_with_patterns (spec_program spec) (item_args 0 items) (spec_arg_patterns spec))
          (\<lambda>ms. if ?missing \<noteq> [] then Some (Inl (MissingRequiredOptions (spec_program spec) (sort ?missing)))
                else Some (Inr (outcome spec items ms)))"
      unfolding spec_check_def Inr run_bind_simps None option.case st outcome_def Let_def by (rule refl)
    obtain r where r: "resolve_observed_args_with_patterns (spec_program spec) (item_args 0 items) (spec_arg_patterns spec) = Some r"
      using resolve_never_panics by blast
    have ex: "(\<exists>items ms. described spec (call_args call) items ms \<and> m = outcome spec items ms) \<longleftrightarrow>
        (\<exists>ms. described spec (call_args call) items ms \<and> m = outcome spec items ms)"
    proof
      assume "\<exists>items ms. described spec (call_args call) items ms \<and> m = outcome spec items ms"
      then obtain items' ms where d: "described spec (call_args call) items' ms" "m = outcome spec items' ms" by blast
      have "described spec (call_args call) items ms" "m = outcome spec items ms"
        using d same [OF d(1)] items by (simp_all add: described_def outcome_def)
      then show "\<exists>ms. described spec (call_args call) items ms \<and> m = outcome spec items ms" by blast
    qed blast
    show ?thesis unfolding ex desc eq r by (cases r) auto
  qed
qed

text \<open>
  A program accepts a call exactly when the call is a sequence of its flags, of its options each
  with a valid value that does not start with a dash, and of positional arguments without a dash that
  fit its patterns, and every required option is there; the match lists the flags, options and arguments
  in order. The check never panics.
\<close>

theorem spec_check_describes:
  "spec_check spec call \<noteq> None \<and>
   (spec_check spec call = Some (Inr m) \<longleftrightarrow> (\<exists>items ms. described spec (call_args call) items ms \<and> m = outcome spec items ms))"
  by (rule spec_check_iff)

section \<open>From a policy file to the folders\<close>

text \<open>What the alternatives of escaped strings match (\<^verbatim>\<open>regex_lite\<close>).\<close>

definition regex_laws :: "'re regex_env \<Rightarrow> bool" where
  "regex_laws re \<longleftrightarrow> (\<forall>ss m arg. ss \<noteq> [] \<longrightarrow>
     re_new re (lit ''('' @ str_join (lit ''|'') (map (re_escape re) ss) @ lit '')'') = Inr m \<longrightarrow>
     m arg = list_ex (contains_str arg) ss)"

lemma forbidden_pattern:
  assumes "regex_laws re" and "policy_builder_build re b = Inr policy"
  shows "(case lp_forbidden_substrings_pattern policy of Some m \<Rightarrow> m arg | None \<Rightarrow> False) \<longleftrightarrow>
    list_ex (contains_str arg) (pb_forbidden_substrings b)"
  using assms by (auto simp: policy_builder_build_def legacy_policy_new_def regex_laws_def Let_def split: if_splits sum.splits)

lemma built_parts:
  "policy_builder_build re b = Inr policy \<Longrightarrow> lp_programs policy = pb_programs b \<and>
   lp_forbidden_program_regexes policy = pb_forbidden_program_regexes b"
  by (auto simp: policy_builder_build_def legacy_policy_new_def Let_def split: if_splits sum.splits)

lemma check_specs_Inr:
  "check_specs specs call e = Some (Inr m) \<Longrightarrow> \<exists>spec\<in>set specs. spec_check spec call = Some (Inr m)"
  by (induction specs call e rule: check_specs.induct) (auto split: option.splits sum.splits)

lemma outcome_match:
  "outcome spec items ms = Exec_Match exec \<longleftrightarrow> spec_forbidden spec = None \<and>
   exec = \<lparr>ve_program = spec_program spec, ve_flags = item_flags items, ve_opts = item_opts items, ve_args = ms,
           ve_system_path = spec_system_path spec\<rparr>"
  by (auto simp: outcome_def Let_def split: option.splits)

lemma check_files_Inr:
  "check_files_loop ee cwd rd wr xs = Inr u \<Longrightarrow> (ty, v) \<in> set xs \<Longrightarrow>
   (ty = Ty_ReadableFile \<longrightarrow> (\<exists>file. ensure_absolute_path ee v cwd = Inr file \<and> in_folders file rd)) \<and>
   (ty = Ty_WriteableFile \<longrightarrow> (\<exists>file. ensure_absolute_path ee v cwd = Inr file \<and> in_folders file wr))"
  by (induction ee cwd rd wr xs rule: check_files_loop.induct) (auto split: arg_type.splits sum.splits if_splits)

text \<open>The types and values that a call was accepted with.\<close>

definition typed_values :: "valid_exec \<Rightarrow> (arg_type \<times> rstr) set" where
  "typed_values exec =
     (\<lambda>a. (marg_type a, marg_value a)) ` set (ve_args exec) \<union> (\<lambda>opt. (mopt_type opt, mopt_value opt)) ` set (ve_opts exec)"

definition file_allowed :: "execv_env \<Rightarrow> path option \<Rightarrow> rstr \<Rightarrow> path list \<Rightarrow> bool" where
  "file_allowed ee cwd v folders \<longleftrightarrow> (\<exists>file. ensure_absolute_path ee v cwd = Inr file \<and> in_folders file folders)"

lemma word_of_item:
  "word \<in> set (concat (map item_words items)) \<Longrightarrow>
   word \<in> set (item_flags items) \<or> word \<in> mopt_name ` set (item_opts items) \<or> word \<in> mopt_value ` set (item_opts items) \<or>
   word \<in> pos_value ` set (item_args i items)"
proof (induction items arbitrary: i)
  case (Cons item items)
  show ?case
  proof (cases item)
    case (Item_Arg val)
    then show ?thesis using Cons.prems Cons.IH [of "i + 1"] by auto
  qed (use Cons.prems Cons.IH [of "i + length (item_words item)"] in auto)
qed simp

lemma opt_of_item: "m \<in> set (item_opts items) \<Longrightarrow> Item_Opt (mopt_name m) (mopt_value m) (mopt_type m) \<in> set items"
proof (induction items)
  case (Cons item items)
  then show ?case by (cases item) auto
qed simp

lemma assigned_value:
  assumes "assigned args tys ms" and "v \<in> pos_value ` set args"
  shows "\<exists>m\<in>set ms. marg_value m = v \<and> arg_validate (marg_type m) v = Inr ()"
proof -
  obtain k where k: "k < length args" "v = pos_value (args ! k)" using assms(2) by (auto simp: in_set_conv_nth)
  then have "(args ! k, tys ! k) \<in> set (zip args tys)" using assms(1) by (force simp: assigned_def in_set_zip)
  then show ?thesis
    using assms(1) k by (auto simp: assigned_def intro!: bexI [of _ "(args ! k, tys ! k)"])
qed

text \<open>Every word of a call that a program describes is a flag, the name of an option, or a value with a type that it is valid for.\<close>

lemma described_words:
  assumes d: "described spec args items ms" and word: "word \<in> set args"
  shows "word \<in> set (item_flags items) \<or> word \<in> mopt_name ` set (item_opts items) \<or>
    (\<exists>ty. arg_validate ty word = Inr () \<and>
       ((\<exists>m\<in>set ms. marg_type m = ty \<and> marg_value m = word) \<or> (\<exists>m\<in>set (item_opts items). mopt_type m = ty \<and> mopt_value m = word)))"
proof -
  have opt: "arg_validate (mopt_type m) (mopt_value m) = Inr ()" if "m \<in> set (item_opts items)" for m
    using opt_of_item [OF that] d by (auto simp: described_def list_all_iff)
  obtain tys where "assigned (item_args 0 items) tys ms" using d by (auto simp: described_def)
  note positional = assigned_value [OF this]
  have "word \<in> set (concat (map item_words items))" using d word by (simp add: described_def)
  from word_of_item [OF this, of 0] show ?thesis using opt positional by blast
qed

text \<open>
  C15 (safety): no argument of an accepted call goes unchecked. When the policy of a file matches a call and its files
  are then accepted, the program matches no forbidden regular expression, no argument contains a forbidden
  substring, some program of that name that is not forbidden describes the whole call, and every argument is one of
  its flags, the name of one of its options, or a value of one of its types that is valid for the type; each value
  that has the type of a file to read or to write lies, made absolute, in a readable or writeable folder. What is run
  is the program or an executable file of its system path. Values of the other types are not looked for in the
  folders, nor is the current directory that a program reads when it is given no file (\<open>cwd_not_checked\<close>).
\<close>

theorem accepted_arguments_checked:
  assumes laws: "regex_laws re" and built: "policy_builder_build re b = Inr policy"
    and matched: "legacy_policy_check sm policy call = Some (Inr (Exec_Match exec))"
    and checked: "execv_check ee exec cwd readable writeable = Inr program"
  shows "list_all (\<lambda>r. \<not> fpr_regex r (call_program call)) (pb_forbidden_program_regexes b) \<and>
    list_all (\<lambda>arg. \<not> list_ex (contains_str arg) (pb_forbidden_substrings b)) (call_args call) \<and>
    (\<exists>specs spec items. sm_get_vec sm (pb_programs b) (call_program call) = Some specs \<and> spec \<in> set specs \<and>
       spec_forbidden spec = None \<and> described spec (call_args call) items (ve_args exec) \<and> ve_opts exec = item_opts items) \<and>
    (\<forall>arg\<in>set (call_args call). arg \<in> set (ve_flags exec) \<or> arg \<in> mopt_name ` set (ve_opts exec) \<or>
       (\<exists>ty. (ty, arg) \<in> typed_values exec \<and> arg_validate ty arg = Inr ())) \<and>
    (\<forall>(ty, v)\<in>typed_values exec.
       (ty = Ty_ReadableFile \<longrightarrow> file_allowed ee cwd v readable) \<and> (ty = Ty_WriteableFile \<longrightarrow> file_allowed ee cwd v writeable)) \<and>
    (program = ve_program exec \<or> program \<in> set (ve_system_path exec) \<and> is_executable_file ee program)"
proof -
  let ?specs = "case sm_get_vec sm (lp_programs policy) (call_program call) of Some spec_list \<Rightarrow> spec_list | None \<Rightarrow> []"
  have no: "find (\<lambda>r. fpr_regex r (call_program call)) (lp_forbidden_program_regexes policy) = None"
    "find (\<lambda>arg. case lp_forbidden_substrings_pattern policy of Some m \<Rightarrow> m arg | None \<Rightarrow> False) (call_args call) = None"
    and specs: "check_specs ?specs call (NoSpecForProgram (call_program call)) = Some (Inr (Exec_Match exec))"
    using matched by (auto simp: legacy_policy_check_def split: option.splits)
  obtain spec where spec: "spec \<in> set ?specs" "spec_check spec call = Some (Inr (Exec_Match exec))"
    using check_specs_Inr [OF specs] by blast
  obtain items ms where d: "described spec (call_args call) items ms" "Exec_Match exec = outcome spec items ms"
    using spec(2) spec_check_iff [of spec call "Exec_Match exec"] by blast
  have o: "spec_forbidden spec = None" "ve_args exec = ms" "ve_opts exec = item_opts items" "ve_flags exec = item_flags items"
    using d(2) [symmetric] by (auto simp: outcome_match)
  obtain specs where "sm_get_vec sm (pb_programs b) (call_program call) = Some specs" "spec \<in> set specs"
    using spec(1) built_parts [OF built] by (cases "sm_get_vec sm (pb_programs b) (call_program call)") auto
  then have found: "\<exists>specs spec items. sm_get_vec sm (pb_programs b) (call_program call) = Some specs \<and> spec \<in> set specs \<and>
      spec_forbidden spec = None \<and> described spec (call_args call) items (ve_args exec) \<and> ve_opts exec = item_opts items"
    using o d(1) by blast
  have words: "\<forall>arg\<in>set (call_args call). arg \<in> set (ve_flags exec) \<or> arg \<in> mopt_name ` set (ve_opts exec) \<or>
      (\<exists>ty. (ty, arg) \<in> typed_values exec \<and> arg_validate ty arg = Inr ())"
    using described_words [OF d(1)] o by (force simp: typed_values_def)
  have files: "check_files_loop ee cwd readable writeable
      (map (\<lambda>arg. (marg_type arg, marg_value arg)) (ve_args exec) @ map (\<lambda>opt. (mopt_type opt, mopt_value opt)) (ve_opts exec)) = Inr ()"
    and run: "program = ve_program exec \<or> find (is_executable_file ee) (ve_system_path exec) = Some program"
    using checked by (auto simp: execv_check_def split: sum.splits option.splits)
  have "program = ve_program exec \<or> program \<in> set (ve_system_path exec) \<and> is_executable_file ee program"
    using run by (auto simp: find_Some_iff)
  moreover have "\<forall>(ty, v)\<in>typed_values exec.
      (ty = Ty_ReadableFile \<longrightarrow> file_allowed ee cwd v readable) \<and> (ty = Ty_WriteableFile \<longrightarrow> file_allowed ee cwd v writeable)"
  proof (clarify)
    fix ty v
    assume "(ty, v) \<in> typed_values exec"
    then have "(ty, v) \<in> set (map (\<lambda>arg. (marg_type arg, marg_value arg)) (ve_args exec) @
        map (\<lambda>opt. (mopt_type opt, mopt_value opt)) (ve_opts exec))" by (simp add: typed_values_def)
    from check_files_Inr [OF files this]
    show "(ty = Ty_ReadableFile \<longrightarrow> file_allowed ee cwd v readable) \<and> (ty = Ty_WriteableFile \<longrightarrow> file_allowed ee cwd v writeable)"
      by (simp add: file_allowed_def)
  qed
  moreover have "list_all (\<lambda>r. \<not> fpr_regex r (call_program call)) (pb_forbidden_program_regexes b)"
    using no(1) built_parts [OF built] by (simp add: find_None_iff list_all_iff)
  moreover have "list_all (\<lambda>arg. \<not> list_ex (contains_str arg) (pb_forbidden_substrings b)) (call_args call)"
    using no(2) unfolding forbidden_pattern [OF laws built] by (simp add: find_None_iff list_all_iff)
  ultimately show ?thesis using found words by blast
qed

text \<open>Regular expressions and a container with which the example runs.\<close>

definition demo_regex :: "unit regex_env" where
  "demo_regex = \<lparr>re_escape = map (\<lambda>c. c + 200),
     re_new = (\<lambda>p. Inr (\<lambda>arg. list_ex (contains_str arg) (map (map (\<lambda>c. c - 200)) (split_on 124 (butlast (tl p))))))\<rparr>"

lemma demo_regex_laws: "regex_laws demo_regex"
proof -
  have "split_on 124 (str_join [124] (map (map (\<lambda>c. c + 200)) ss)) = map (map (\<lambda>c. c + 200)) (ss :: rstr list)" if "ss \<noteq> []" for ss
    using that by (intro split_on_join) auto
  moreover have "map (map (\<lambda>c. c - 200)) (map (map (\<lambda>c. c + 200)) ss) = (ss :: rstr list)" for ss
    by (induction ss) (simp_all add: comp_def)
  ultimately show ?thesis by (auto simp: regex_laws_def demo_regex_def butlast_append)
qed

definition demo_specs :: "(rstr \<times> program_spec) list spec_map" where
  "demo_specs = \<lparr>sm_new = [], sm_insert = (\<lambda>k v m. m @ [(k, v)]),
     sm_get_vec = (\<lambda>m k. case map snd (filter (\<lambda>(k', _). k' = k) m) of [] \<Rightarrow> None | vs \<Rightarrow> Some vs), sm_flat_iter = (\<lambda>m. m)\<rparr>"

definition cp_builder :: "(rstr \<times> program_spec) list policy_builder" where
  "cp_builder = forbid_substrings [lit ''$('']
     (case define_program demo_specs (lit ''cp'') (Some [lit ''/bin/cp'']) None None (Some [flag_builtin (lit ''-v'')])
             (Some [M_ReadableFiles, M_WriteableFile]) None None None (policy_builder_new demo_specs) of
        Inr b \<Rightarrow> b)"

definition cp_policy :: "(rstr \<times> program_spec) list legacy_policy" where
  "cp_policy = (case policy_builder_build demo_regex cp_builder of Inr p \<Rightarrow> p)"

definition demo_execv :: execv_env where
  "demo_execv = \<lparr>ee_absolutize_from = (\<lambda>p d. Inr (absolutize_from p d)), ee_absolutize = (\<lambda>p. Inr (normalize_path p)),
     ee_metadata = (\<lambda>p. if p = lit ''/bin/cp'' then Some (True, 73) else None)\<rparr>"

definition cp_call :: exec_call where
  "cp_call = \<lparr>call_program = lit ''cp'', call_args = [lit ''a'', lit ''-v'', lit ''sub/b'', lit ''/out/c'']\<rparr>"

definition cp_exec :: valid_exec where
  "cp_exec = \<lparr>ve_program = lit ''cp'', ve_flags = [lit ''-v''], ve_opts = [],
     ve_args = [\<lparr>marg_index = 0, marg_type = Ty_ReadableFile, marg_value = lit ''a''\<rparr>,
                \<lparr>marg_index = 2, marg_type = Ty_ReadableFile, marg_value = lit ''sub/b''\<rparr>,
                \<lparr>marg_index = 3, marg_type = Ty_WriteableFile, marg_value = lit ''/out/c''\<rparr>],
     ve_system_path = [lit ''/bin/cp'']\<rparr>"

theorem accepted_arguments_checked_witness:
  "file_allowed demo_execv (Some (lit ''/ws'')) (lit ''/out/c'') [lit ''/out''] \<and>
   legacy_policy_check demo_specs cp_policy cp_call = Some (Inr (Exec_Match cp_exec))"
proof -
  have b: "policy_builder_build demo_regex cp_builder = Inr cp_policy"
    by (simp add: cp_policy_def policy_builder_build_def legacy_policy_new_def demo_regex_def Let_def)
  have m: "legacy_policy_check demo_specs cp_policy cp_call = Some (Inr (Exec_Match cp_exec))" by code_simp
  have c: "execv_check demo_execv cp_exec (Some (lit ''/ws'')) [lit ''/ws''] [lit ''/out''] = Inr (lit ''/bin/cp'')" by code_simp
  have "(Ty_WriteableFile, lit ''/out/c'') \<in> typed_values cp_exec" by (simp add: typed_values_def cp_exec_def)
  then show ?thesis using accepted_arguments_checked [OF demo_regex_laws b m c] m by blast
qed

text \<open>
  A pattern for files or the current directory is documented to imply that the current directory is readable when
  no file is given; the check then asks for no folder at all.
\<close>

lemma cwd_not_checked:
  "\<exists>exec. spec_check (program_spec_new (lit ''ls'') [] False False [] [M_ReadableFilesOrCwd] None [] [])
       \<lparr>call_program = lit ''ls'', call_args = []\<rparr> = Some (Inr (Exec_Match exec)) \<and>
     execv_check ee exec (Some cwd) [] [] = Inr (lit ''ls'')"
  by (simp add: spec_check_def program_spec_new_def resolve_observed_args_with_patterns_def partition_args_def
      get_range_checked_def match_vararg_def execv_check_def)

end
