(* ===== verification/Template.thy ===== *)
theory Template
  imports Prelude "HOL-Library.List_Lexorder"
begin

text \<open>
  \<^verbatim>\<open>codex-rs/utils/template/src/lib.rs\<close>: templates with \<^verbatim>\<open>{{ name }}\<close> placeholders for prompts. A cursor into
  the source is kept as its byte offset together with the text after it (\<open>rest\<close>), and the slice from
  \<^verbatim>\<open>literal_start\<close> to the cursor as the text in between (\<open>pending\<close>). Sets and maps are sorted lists, as they are
  iterated. The last part proves that rendering gives back the pieces of a template.
\<close>

section \<open>Parsing\<close>

datatype template_parse_error =
    EmptyPlaceholder nat
  | NestedPlaceholder nat
  | UnmatchedClosingDelimiter nat
  | UnterminatedPlaceholder nat

datatype template_render_error =
    DuplicateValue rstr
  | ExtraValue rstr
  | MissingValue rstr

datatype template_error = Template_Parse template_parse_error | Template_Render template_render_error

datatype segment = Seg_Literal rstr | Seg_Placeholder rstr

record template =
  tmpl_placeholders :: "rstr list"
  tmpl_segments :: "segment list"

abbreviation OPEN :: rstr where "OPEN \<equiv> [123, 123]"
abbreviation CLOSE :: rstr where "CLOSE \<equiv> [125, 125]"

definition push_literal :: "segment list \<Rightarrow> rstr \<Rightarrow> segment list" where
  "push_literal segments literal =
     (if literal = [] then segments
      else if segments \<noteq> [] then
        (case last segments of
           Seg_Literal existing \<Rightarrow> butlast segments @ [Seg_Literal (existing @ literal)]
         | Seg_Placeholder _ \<Rightarrow> segments @ [Seg_Literal literal])
      else [Seg_Literal literal])"

text \<open>\<open>name\<close> is the slice from the start of the placeholder to the cursor.\<close>

fun placeholder_loop ::
    "nat \<Rightarrow> rstr \<Rightarrow> nat \<Rightarrow> rstr \<Rightarrow> (rstr \<times> nat \<times> rstr, template_parse_error) result" where
  "placeholder_loop start name cursor [] = Inl (UnterminatedPlaceholder start)"
| "placeholder_loop start name cursor (c # cs) =
     (if starts_with (c # cs) OPEN then Inl (NestedPlaceholder start)
      else if starts_with (c # cs) CLOSE then
        (if trim name = [] then Inl (EmptyPlaceholder start)
         else Inr (trim name, cursor + 2, drop 2 (c # cs)))
      else placeholder_loop start (name @ [c]) (cursor + len_utf8 c) cs)"

definition parse_placeholder ::
    "rstr \<Rightarrow> nat \<Rightarrow> (rstr \<times> nat \<times> rstr, template_parse_error) result" where
  "parse_placeholder rest start = placeholder_loop start [] (start + 2) (drop 2 rest)"

definition btree_set_insert :: "'a::linorder \<Rightarrow> 'a list \<Rightarrow> 'a list" where
  "btree_set_insert x s = (if x \<in> set s then s else insort x s)"

lemma placeholder_loop_shorter:
  "placeholder_loop start name cursor rest = Inr (p, cursor', rest') \<Longrightarrow> length rest' < length rest"
  by (induction start name cursor rest rule: placeholder_loop.induct) (auto split: if_splits)

function template_loop ::
    "nat \<Rightarrow> rstr \<Rightarrow> rstr \<Rightarrow> segment list \<Rightarrow> rstr list \<Rightarrow> (template, template_parse_error) result" where
  "template_loop cursor pending rest segments placeholders =
     (if rest = [] then Inr \<lparr>tmpl_placeholders = placeholders, tmpl_segments = push_literal segments pending\<rparr>
      else if starts_with rest (OPEN @ OPEN) then
        template_loop (cursor + 4) [] (drop 4 rest) (push_literal (push_literal segments pending) OPEN) placeholders
      else if starts_with rest (CLOSE @ CLOSE) then
        template_loop (cursor + 4) [] (drop 4 rest) (push_literal (push_literal segments pending) CLOSE) placeholders
      else if starts_with rest OPEN then
        (case parse_placeholder rest cursor of
           Inl e \<Rightarrow> Inl e
         | Inr (placeholder, next_cursor, rest') \<Rightarrow>
             template_loop next_cursor [] rest' (push_literal segments pending @ [Seg_Placeholder placeholder])
               (btree_set_insert placeholder placeholders))
      else if starts_with rest CLOSE then Inl (UnmatchedClosingDelimiter cursor)
      else template_loop (cursor + len_utf8 (hd rest)) (pending @ [hd rest]) (tl rest) segments placeholders)"
  by pat_completeness auto

termination
proof (relation "measure (\<lambda>(cursor, pending, rest, segments, placeholders). length rest)", goal_cases)
  case (4 cursor pending rest segments placeholders r y p c rest')
  then have "length rest' < length (drop 2 rest)"
    using placeholder_loop_shorter [of cursor "[]" "cursor + 2" "drop 2 rest"] by (auto simp: parse_placeholder_def)
  then show ?case by simp
qed auto

declare template_loop.simps [simp del]

definition template_parse :: "rstr \<Rightarrow> (template, template_parse_error) result" where
  "template_parse source = template_loop 0 [] source [] []"

section \<open>Rendering\<close>

fun build_variable_map ::
    "(rstr \<times> rstr) list \<Rightarrow> (rstr \<times> rstr) list \<Rightarrow> ((rstr \<times> rstr) list, template_render_error) result" where
  "build_variable_map [] m = Inr m"
| "build_variable_map ((name, val) # variables) m =
     (if map_of m name \<noteq> None then Inl (DuplicateValue name)
      else build_variable_map variables (insort_key fst (name, val) m))"

fun render_segments :: "(rstr \<times> rstr) list \<Rightarrow> segment list \<Rightarrow> rstr \<Rightarrow> (rstr, template_render_error) result" where
  "render_segments m [] rendered = Inr rendered"
| "render_segments m (Seg_Literal literal # segments) rendered = render_segments m segments (rendered @ literal)"
| "render_segments m (Seg_Placeholder name # segments) rendered =
     (case map_of m name of
        None \<Rightarrow> Inl (MissingValue name)
      | Some val \<Rightarrow> render_segments m segments (rendered @ val))"

definition template_render :: "template \<Rightarrow> (rstr \<times> rstr) list \<Rightarrow> (rstr, template_render_error) result" where
  "template_render self variables =
     (case build_variable_map variables [] of
        Inl e \<Rightarrow> Inl e
      | Inr m \<Rightarrow>
          (case find (\<lambda>placeholder. map_of m placeholder = None) (tmpl_placeholders self) of
             Some placeholder \<Rightarrow> Inl (MissingValue placeholder)
           | None \<Rightarrow>
               (case find (\<lambda>name. name \<notin> set (tmpl_placeholders self)) (map fst m) of
                  Some name \<Rightarrow> Inl (ExtraValue name)
                | None \<Rightarrow> render_segments m (tmpl_segments self) [])))"

definition render :: "rstr \<Rightarrow> (rstr \<times> rstr) list \<Rightarrow> (rstr, template_error) result" where
  "render source variables =
     (case template_parse source of
        Inl e \<Rightarrow> Inl (Template_Parse e)
      | Inr t \<Rightarrow> map_sum Template_Render id (template_render t variables))"

section \<open>Templates made of pieces\<close>

text \<open>
  The text of a template whose pieces are literals and placeholders: a literal has its double braces
  doubled, from left to right, and a placeholder is written with a space on both sides of its name.
\<close>

fun escape_literal :: "rstr \<Rightarrow> rstr" where
  "escape_literal [] = []"
| "escape_literal [c] = [c]"
| "escape_literal (c # d # r) =
     (if [c, d] = OPEN \<or> [c, d] = CLOSE then c # d # c # d # escape_literal r else c # escape_literal (d # r))"

text \<open>Whether a literal ends in a brace that has not been paired.\<close>

fun lone_brace :: "uchar \<Rightarrow> rstr \<Rightarrow> bool" where
  "lone_brace b [] = False"
| "lone_brace b [c] = (c = b)"
| "lone_brace b (c # d # r) =
     (if [c, d] = OPEN \<or> [c, d] = CLOSE then lone_brace b r else lone_brace b (d # r))"

fun print_template :: "(rstr \<times> rstr) list \<Rightarrow> rstr \<Rightarrow> rstr" where
  "print_template [] t = escape_literal t"
| "print_template ((l, n) # ps) t = escape_literal l @ OPEN @ [32] @ n @ [32] @ CLOSE @ print_template ps t"

definition name_ok :: "rstr \<Rightarrow> bool" where
  "name_ok n \<longleftrightarrow> n \<noteq> [] \<and> trim n = n \<and> \<not> contains_str n OPEN \<and> \<not> contains_str n CLOSE"

lemma push_literal_Nil [simp]: "push_literal segs [] = segs"
  by (simp add: push_literal_def)

lemma push_literal_push [simp]: "push_literal (push_literal segs a) b = push_literal segs (a @ b)"
  by (auto simp: push_literal_def split: segment.splits)

lemma starts_with_Cons_iff: "starts_with (c # cs) (p # ps) \<longleftrightarrow> c = p \<and> starts_with cs ps"
  by (simp add: starts_with_def)

lemma starts_with_Nil_iff [simp]: "starts_with s []" "\<not> starts_with [] (p # ps)"
  by (simp_all add: starts_with_def)

lemma hd_escape: "escape_literal (d # r) = d # tl (escape_literal (d # r))"
  by (cases r) auto

text \<open>An escaped literal is read back.\<close>

lemma parse_escaped:
  assumes "lone_brace 123 l \<longrightarrow> \<not> starts_with rest [123]" "lone_brace 125 l \<longrightarrow> \<not> starts_with rest [125]"
  shows "\<exists>cursor' pending' segs'. template_loop cursor pending (escape_literal l @ rest) segs phs = template_loop cursor' pending' rest segs' phs \<and>
    push_literal segs' pending' = push_literal segs (pending @ l)"
  using assms
proof (induction l arbitrary: cursor pending segs rule: escape_literal.induct)
  case (2 c)
  then have "\<not> starts_with (c # rest) OPEN" "\<not> starts_with (c # rest) CLOSE" by (auto simp: starts_with_Cons_iff)
  moreover from this have "\<not> starts_with (c # rest) (OPEN @ OPEN)" "\<not> starts_with (c # rest) (CLOSE @ CLOSE)"
    by (auto simp: starts_with_iff_prefix prefix_def)
  ultimately have "template_loop cursor pending (c # rest) segs phs = template_loop (cursor + len_utf8 c) (pending @ [c]) rest segs phs"
    by (subst template_loop.simps) simp
  then show ?case by (intro exI conjI) auto
next
  case (3 c d r)
  show ?case
  proof (cases "[c, d] = OPEN \<or> [c, d] = CLOSE")
    case True
    have "template_loop cursor pending (escape_literal (c # d # r) @ rest) segs phs =
        template_loop (cursor + 4) [] (escape_literal r @ rest) (push_literal (push_literal segs pending) [c, d]) phs"
      using True by (subst template_loop.simps) (auto simp: starts_with_Cons_iff)
    then show ?thesis
      using 3(1) [OF True, of "cursor + 4" "[]" "push_literal (push_literal segs pending) [c, d]"] 3(3,4) True by auto
  next
    case False
    let ?r = "escape_literal (d # r) @ rest"
    have r: "?r = d # tl (escape_literal (d # r)) @ rest" by (subst hd_escape) simp
    have "\<not> starts_with (c # ?r) OPEN" "\<not> starts_with (c # ?r) CLOSE"
      using False by (subst r, simp add: starts_with_Cons_iff)+
    moreover from this have "\<not> starts_with (c # ?r) (OPEN @ OPEN)" "\<not> starts_with (c # ?r) (CLOSE @ CLOSE)"
      by (auto simp: starts_with_iff_prefix prefix_def)
    ultimately have "template_loop cursor pending (c # ?r) segs phs = template_loop (cursor + len_utf8 c) (pending @ [c]) ?r segs phs"
      by (subst template_loop.simps) simp
    then show ?thesis using 3(2) [OF False, of "cursor + len_utf8 c" "pending @ [c]" segs] 3(3,4) False by auto
  qed
qed auto

text \<open>A placeholder is read back.\<close>

lemma trim_spaces:
  assumes "trim n = n" "n \<noteq> []"
  shows "trim ([32] @ n @ [32]) = n"
proof -
  have w: "is_whitespace 32" by (simp add: is_whitespace_def)
  have le: "length (trim_start n) \<le> length n" "length (trim_end s) \<le> length s" for s
    using length_dropWhile_le [of is_whitespace "rev s"] by (simp_all add: trim_start_def trim_end_def length_dropWhile_le)
  have "length n \<le> length (trim_start n)" using assms(1) le(2) [of "trim_start n"] by (simp add: trim_def)
  then have "\<not> is_whitespace (hd n)"
    using assms(2) length_dropWhile_le [of is_whitespace "tl n"] by (cases n) (auto simp: trim_start_def split: if_splits)
  then have s: "trim_start (n @ x) = n @ x" for x using assms(2) by (cases n) (simp_all add: trim_start_def)
  then have "trim_end n = n" using assms(1) s [of "[]"] by (simp add: trim_def)
  then have "trim_end (n @ [32]) = n" using w by (simp add: trim_end_def)
  moreover have "trim_start ([32] @ n @ [32]) = n @ [32]" using w s by (simp add: trim_start_def)
  ultimately show ?thesis by (simp add: trim_def)
qed

lemma contains_Cons: "\<not> contains_str (c # cs) p \<Longrightarrow> \<not> starts_with (c # cs) p \<and> \<not> contains_str cs p"
  by (auto simp: contains_str_def split: if_splits)

lemma placeholder_name:
  "\<not> contains_str n OPEN \<Longrightarrow> \<not> contains_str n CLOSE \<Longrightarrow> trim (name @ n @ [32]) \<noteq> [] \<Longrightarrow>
   \<exists>cursor'. placeholder_loop start name cursor (n @ [32] @ CLOSE @ rest) = Inr (trim (name @ n @ [32]), cursor', rest)"
proof (induction n arbitrary: name cursor)
  case (Cons c n)
  have "\<not> starts_with (c # n @ [32] @ CLOSE @ rest) OPEN" "\<not> starts_with (c # n @ [32] @ CLOSE @ rest) CLOSE"
    using Cons.prems(1,2) [THEN contains_Cons] by (cases n; simp add: starts_with_Cons_iff)+
  then have step: "placeholder_loop start name cursor ((c # n) @ [32] @ CLOSE @ rest) =
      placeholder_loop start (name @ [c]) (cursor + len_utf8 c) (n @ [32] @ CLOSE @ rest)" by simp
  show ?case unfolding step using Cons.IH [of "name @ [c]"] Cons.prems(1,2) [THEN contains_Cons] Cons.prems(3) by simp
qed (simp add: starts_with_Cons_iff)

lemma parse_named:
  assumes "name_ok n"
  shows "\<exists>cursor'. template_loop cursor pending (OPEN @ [32] @ n @ [32] @ CLOSE @ rest) segs phs =
    template_loop cursor' [] rest (push_literal segs pending @ [Seg_Placeholder n]) (btree_set_insert n phs)"
proof -
  let ?s = "n @ [32] @ CLOSE @ rest"
  have t: "trim ([32] @ n @ [32]) = n" and n: "n \<noteq> []" using assms trim_spaces [of n] by (auto simp: name_ok_def)
  obtain c' where "placeholder_loop cursor [32] (cursor + 2 + len_utf8 32) ?s = Inr (trim ([32] @ n @ [32]), c', rest)"
    using placeholder_name [of n "[32]" cursor "cursor + 2 + len_utf8 32" rest] assms t n unfolding name_ok_def by metis
  then have "placeholder_loop cursor [] (cursor + 2) ([32] @ ?s) = Inr (n, c', rest)"
    using t by (simp add: starts_with_Cons_iff)
  then show ?thesis
    by (intro exI [of _ c'], subst template_loop.simps) (simp add: starts_with_Cons_iff parse_placeholder_def)
qed

fun piece_segments :: "segment list \<Rightarrow> (rstr \<times> rstr) list \<Rightarrow> rstr \<Rightarrow> segment list" where
  "piece_segments segs [] t = push_literal segs t"
| "piece_segments segs ((l, n) # ps) t = piece_segments (push_literal segs l @ [Seg_Placeholder n]) ps t"

definition pieces_ok :: "(rstr \<times> rstr) list \<Rightarrow> bool" where
  "pieces_ok ps \<longleftrightarrow> list_all (\<lambda>(l, n). name_ok n \<and> \<not> lone_brace 123 l) ps"

lemma parse_pieces:
  "pieces_ok ps \<Longrightarrow> template_loop cursor [] (print_template ps t) segs phs =
     Inr \<lparr>tmpl_placeholders = fold btree_set_insert (map snd ps) phs, tmpl_segments = piece_segments segs ps t\<rparr>"
proof (induction ps arbitrary: cursor segs phs)
  case Nil
  obtain cursor' pending' segs' where "template_loop cursor [] (escape_literal t @ []) segs phs = template_loop cursor' pending' [] segs' phs"
    "push_literal segs' pending' = push_literal segs ([] @ t)"
    using parse_escaped [of t "[]" cursor "[]" segs phs] by auto
  then show ?case by (simp add: template_loop.simps [of _ _ "[]"])
next
  case (Cons p ps)
  obtain l n where p: "p = (l, n)" by force
  have ok: "name_ok n" "\<not> lone_brace 123 l" "pieces_ok ps" using Cons.prems by (auto simp: pieces_ok_def p)
  let ?rest = "OPEN @ [32] @ n @ [32] @ CLOSE @ print_template ps t"
  have "lone_brace 125 l \<longrightarrow> \<not> starts_with ?rest [125]" by (simp add: starts_with_Cons_iff)
  then obtain cursor' pending' segs' where esc: "template_loop cursor [] (escape_literal l @ ?rest) segs phs = template_loop cursor' pending' ?rest segs' phs"
    "push_literal segs' pending' = push_literal segs ([] @ l)"
    using parse_escaped [of l ?rest cursor "[]" segs phs] ok(2) by blast
  obtain cursor'' where "template_loop cursor' pending' ?rest segs' phs = template_loop cursor'' [] (print_template ps t)
      (push_literal segs' pending' @ [Seg_Placeholder n]) (btree_set_insert n phs)"
    using parse_named [OF ok(1)] by blast
  then show ?case using Cons.IH [OF ok(3)] esc by (simp add: p)
qed

text \<open>Rendering substitutes.\<close>

fun segment_text :: "(rstr \<times> rstr) list \<Rightarrow> segment \<Rightarrow> rstr" where
  "segment_text m (Seg_Literal l) = l"
| "segment_text m (Seg_Placeholder n) = the (map_of m n)"

definition segments_text :: "(rstr \<times> rstr) list \<Rightarrow> segment list \<Rightarrow> rstr" where
  "segments_text m segs = concat (map (segment_text m) segs)"

lemma render_segments_text:
  "(\<And>n. Seg_Placeholder n \<in> set segs \<Longrightarrow> map_of m n \<noteq> None) \<Longrightarrow>
   render_segments m segs acc = Inr (acc @ segments_text m segs)"
  by (induction m segs acc rule: render_segments.induct) (auto simp: segments_text_def split: option.splits)

lemma segments_text_push: "segments_text m (push_literal segs l) = segments_text m segs @ l"
proof (cases segs rule: rev_cases)
  case (snoc ss s)
  then show ?thesis by (cases s) (auto simp: segments_text_def push_literal_def)
qed (auto simp: segments_text_def push_literal_def)

lemma segments_text_snoc: "segments_text m (segs @ [Seg_Placeholder n]) = segments_text m segs @ the (map_of m n)"
  by (simp add: segments_text_def)

lemma placeholders_push: "Seg_Placeholder n \<in> set (push_literal segs l) \<longleftrightarrow> Seg_Placeholder n \<in> set segs"
proof (cases segs rule: rev_cases)
  case (snoc ss s)
  then show ?thesis by (cases s) (auto simp: push_literal_def)
qed (auto simp: push_literal_def)

lemma piece_segments_text:
  "segments_text m (piece_segments segs ps t) = segments_text m segs @ concat (map (\<lambda>(l, n). l @ the (map_of m n)) ps) @ t"
  by (induction segs ps t rule: piece_segments.induct) (simp_all add: segments_text_push segments_text_snoc)

lemma piece_segments_placeholders:
  "Seg_Placeholder n \<in> set (piece_segments segs ps t) \<longleftrightarrow> Seg_Placeholder n \<in> set segs \<or> n \<in> snd ` set ps"
  by (induction segs ps t rule: piece_segments.induct) (auto simp: placeholders_push)

lemma set_fold_insert: "set (fold btree_set_insert xs s) = set xs \<union> set s"
  by (induction xs arbitrary: s) (auto simp: btree_set_insert_def set_insort_key)

lemma map_of_insort:
  "fst x \<notin> fst ` set m \<Longrightarrow> map_of (insort_key fst x m) = (map_of m)(fst x \<mapsto> snd x)"
  by (induction m) (auto simp: fun_eq_iff)

lemma build_variable_map_distinct:
  "distinct (map fst vars) \<Longrightarrow> fst ` set vars \<inter> fst ` set m = {} \<Longrightarrow>
   \<exists>m'. build_variable_map vars m = Inr m' \<and> map_of m' = map_of m ++ map_of vars \<and> fst ` set m' = fst ` set vars \<union> fst ` set m"
proof (induction vars m rule: build_variable_map.induct)
  case (2 name val vars m)
  then have new: "map_of m name = None" by (simp add: map_of_eq_None_iff)
  obtain m' where m': "build_variable_map vars (insort_key fst (name, val) m) = Inr m'"
    "map_of m' = map_of (insort_key fst (name, val) m) ++ map_of vars"
    "fst ` set m' = fst ` set vars \<union> fst ` set (insort_key fst (name, val) m)"
    using 2 new by (auto simp: set_insort_key)
  have "map_of (insort_key fst (name, val) m) ++ map_of vars = map_of m ++ map_of ((name, val) # vars)"
  proof
    fix x
    have "map_of vars name = None" using 2(2) by (simp add: map_of_eq_None_iff)
    then show "(map_of (insort_key fst (name, val) m) ++ map_of vars) x = (map_of m ++ map_of ((name, val) # vars)) x"
      using 2(3) map_of_insort [of "(name, val)" m] by (simp add: map_add_def split: option.split)
  qed
  with m'(2) have "map_of m' = map_of m ++ map_of ((name, val) # vars)" by (rule trans)
  moreover have "build_variable_map ((name, val) # vars) m = Inr m'" using m'(1) new by simp
  moreover have "fst ` set m' = fst ` set ((name, val) # vars) \<union> fst ` set m" using m'(3) by (auto simp: set_insort_key)
  ultimately show ?case by blast
qed auto

text \<open>
  C38 (roundtrip): a template made of literals and placeholders renders to its literals with the values in between. The
  literals may hold any text, double braces included, except that one right before a placeholder does not
  end in an unpaired opening brace; a name has no space around it and no double brace; and the
  values are given once for exactly the names that occur.
\<close>

theorem render_template_pieces:
  assumes ps: "pieces_ok ps" and vars: "distinct (map fst vars)" "fst ` set vars = snd ` set ps"
  shows "render (print_template ps t) vars = Inr (concat (map (\<lambda>(l, n). l @ the (map_of vars n)) ps) @ t)"
proof -
  let ?t = "\<lparr>tmpl_placeholders = fold btree_set_insert (map snd ps) [], tmpl_segments = piece_segments [] ps t\<rparr>"
  have parse: "template_parse (print_template ps t) = Inr ?t" by (simp add: template_parse_def parse_pieces [OF ps])
  obtain m where m: "build_variable_map vars [] = Inr m" "map_of m = map_of vars" "fst ` set m = fst ` set vars"
    using build_variable_map_distinct [OF vars(1), of "[]"] by auto
  have names: "map_of m n \<noteq> None \<longleftrightarrow> n \<in> snd ` set ps" for n
    unfolding m(2) vars(2) [symmetric] by (simp add: map_of_eq_None_iff)
  have "find (\<lambda>n. map_of m n = None) (tmpl_placeholders ?t) = None"
    using names by (auto simp: find_None_iff set_fold_insert)
  moreover have "find (\<lambda>n. n \<notin> set (tmpl_placeholders ?t)) (map fst m) = None"
    using m(3) vars(2) by (force simp: find_None_iff set_fold_insert)
  moreover have "render_segments m (tmpl_segments ?t) [] = Inr (segments_text m (tmpl_segments ?t))"
    using render_segments_text [of "tmpl_segments ?t" m "[]"] names by (simp add: piece_segments_placeholders)
  ultimately have "template_render ?t vars = Inr (segments_text m (tmpl_segments ?t))" by (simp add: template_render_def m(1))
  then show ?thesis by (simp add: render_def parse piece_segments_text m(2)) (simp add: segments_text_def)
qed

theorem render_template_pieces_witness:
  "render (lit ''a{{{{b {{ x }}}}}}'') [(lit ''x'', lit ''1'')] = Inr (lit ''a{{b 1}}'')"
proof -
  have p: "print_template [(lit ''a{{b '', lit ''x'')] (lit ''}}'') = lit ''a{{{{b {{ x }}}}}}''" by simp
  have "trim (lit ''x'') = lit ''x''" by (simp add: trim_def trim_start_def trim_end_def is_whitespace_def)
  moreover have "\<not> contains_str (lit ''x'') OPEN" "\<not> contains_str (lit ''x'') CLOSE" by code_simp+
  ultimately have "pieces_ok [(lit ''a{{b '', lit ''x'')]" by (simp add: pieces_ok_def name_ok_def)
  from render_template_pieces [OF this, of "[(lit ''x'', lit ''1'')]" "lit ''}}''"] show ?thesis unfolding p by simp
qed

section \<open>Errors\<close>

fun error_position :: "template_parse_error \<Rightarrow> nat" where
  "error_position (EmptyPlaceholder start) = start"
| "error_position (NestedPlaceholder start) = start"
| "error_position (UnmatchedClosingDelimiter start) = start"
| "error_position (UnterminatedPlaceholder start) = start"

fun error_delimiter :: "template_parse_error \<Rightarrow> rstr" where
  "error_delimiter (UnmatchedClosingDelimiter _) = CLOSE"
| "error_delimiter _ = OPEN"

lemma placeholder_loop_error:
  "placeholder_loop start name cursor rest = Inl e \<Longrightarrow> error_position e = start \<and> error_delimiter e = OPEN"
  by (induction start name cursor rest rule: placeholder_loop.induct) (auto split: if_splits)

lemma placeholder_loop_consumes:
  "placeholder_loop start name cursor rest = Inr (p, cursor', rest') \<Longrightarrow> \<exists>pre. rest = pre @ rest' \<and> cursor' = cursor + utf8_len pre"
proof (induction start name cursor rest rule: placeholder_loop.induct)
  case (2 start name cursor c cs)
  show ?case
  proof (cases "starts_with (c # cs) CLOSE")
    case True
    then obtain cs' where cs: "c # cs = CLOSE @ cs'" by (auto simp: starts_with_iff_prefix prefix_def)
    then have "\<not> starts_with (c # cs) OPEN" by (simp add: starts_with_Cons_iff)
    then have "cursor' = cursor + 2" "rest' = cs'" using 2(2) True cs by (auto split: if_splits)
    then show ?thesis using cs by (intro exI [of _ CLOSE]) (simp add: utf8_len_def len_utf8_def)
  next
    case False
    then have no: "\<not> starts_with (c # cs) OPEN"
      and r: "placeholder_loop start (name @ [c]) (cursor + len_utf8 c) cs = Inr (p, cursor', rest')"
      using 2(2) by (auto split: if_splits)
    then obtain pre where "cs = pre @ rest'" "cursor' = cursor + len_utf8 c + utf8_len pre" using 2(1) [OF no False r] by blast
    then show ?thesis by (intro exI [of _ "c # pre"]) (simp add: utf8_len_def)
  qed
qed simp

lemma template_loop_error:
  "template_loop cursor pending rest segs phs = Inl e \<Longrightarrow>
   \<exists>pre post. rest = pre @ error_delimiter e @ post \<and> error_position e = cursor + utf8_len pre"
proof (induction cursor pending rest segs phs rule: template_loop.induct)
  case (1 cursor pending rest segs phs)
  have later: "\<exists>pre post. rest = pre @ error_delimiter e @ post \<and> error_position e = cursor + utf8_len pre"
    if front: "rest = front @ rest'" and ex: "\<exists>pre post. rest' = pre @ error_delimiter e @ post \<and> error_position e = cursor + utf8_len front + utf8_len pre"
    for front rest'
  proof -
    obtain pre post where "rest' = pre @ error_delimiter e @ post" "error_position e = cursor + utf8_len front + utf8_len pre"
      using ex by blast
    then show ?thesis using front by (intro exI [of _ "front @ pre"] exI [of _ post]) simp
  qed
  have four: "rest = OPEN @ OPEN @ drop 4 rest" if "starts_with rest (OPEN @ OPEN)"
    using that by (auto simp: starts_with_iff_prefix prefix_def)
  have four': "rest = CLOSE @ CLOSE @ drop 4 rest" if "starts_with rest (CLOSE @ CLOSE)"
    using that by (auto simp: starts_with_iff_prefix prefix_def)
  have two: "rest = OPEN @ drop 2 rest" if "starts_with rest OPEN"
    using that by (auto simp: starts_with_iff_prefix prefix_def)
  have u: "utf8_len (OPEN @ OPEN) = 4" "utf8_len (CLOSE @ CLOSE) = 4" "utf8_len OPEN = 2" by (simp_all add: utf8_len_def len_utf8_def)
  consider (nil) "rest = []" | (oo) "starts_with rest (OPEN @ OPEN)" | (cc) "\<not> starts_with rest (OPEN @ OPEN)" "starts_with rest (CLOSE @ CLOSE)"
    | (o) "rest \<noteq> []" "\<not> starts_with rest (OPEN @ OPEN)" "\<not> starts_with rest (CLOSE @ CLOSE)" "starts_with rest OPEN"
    | (c) "rest \<noteq> []" "\<not> starts_with rest (OPEN @ OPEN)" "\<not> starts_with rest (CLOSE @ CLOSE)" "\<not> starts_with rest OPEN" "starts_with rest CLOSE"
    | (other) "rest \<noteq> []" "\<not> starts_with rest (OPEN @ OPEN)" "\<not> starts_with rest (CLOSE @ CLOSE)" "\<not> starts_with rest OPEN" "\<not> starts_with rest CLOSE"
    by blast
  then show ?case
  proof cases
    case nil
    then show ?thesis using "1.prems" by (simp add: template_loop.simps)
  next
    case oo
    then have ne: "rest \<noteq> []" by auto
    then have "template_loop (cursor + 4) [] (drop 4 rest) (push_literal (push_literal segs pending) OPEN) phs = Inl e"
      using "1.prems" oo by (subst (asm) template_loop.simps) simp
    from "1.IH"(1) [OF ne oo this] show ?thesis using later [of "OPEN @ OPEN" "drop 4 rest"] four [OF oo] u(1) by simp
  next
    case cc
    then have ne: "rest \<noteq> []" by auto
    then have "template_loop (cursor + 4) [] (drop 4 rest) (push_literal (push_literal segs pending) CLOSE) phs = Inl e"
      using "1.prems" cc by (subst (asm) template_loop.simps) simp
    from "1.IH"(2) [OF ne cc this] show ?thesis using later [of "CLOSE @ CLOSE" "drop 4 rest"] four' [OF cc(2)] u(2) by simp
  next
    case o
    show ?thesis
    proof (cases "parse_placeholder rest cursor")
      case (Inl e')
      then have "e' = e" using "1.prems" o by (subst (asm) template_loop.simps) simp
      then show ?thesis
        using Inl placeholder_loop_error [of cursor "[]" "cursor + 2" "drop 2 rest" e] two [OF o(4)]
        by (intro exI [of _ "[]"] exI [of _ "drop 2 rest"]) (simp add: parse_placeholder_def utf8_len_def)
    next
      case (Inr r)
      obtain n c' rest' where r: "r = (n, c', rest')" by (metis prod_cases3)
      have p: "template_loop c' [] rest' (push_literal segs pending @ [Seg_Placeholder n]) (btree_set_insert n phs) = Inl e"
        using "1.prems" o Inr r by (subst (asm) template_loop.simps) simp
      obtain pre where pre: "drop 2 rest = pre @ rest'" "c' = cursor + 2 + utf8_len pre"
        using placeholder_loop_consumes [of cursor "[]" "cursor + 2" "drop 2 rest"] Inr r by (auto simp: parse_placeholder_def)
      from "1.IH"(3) [OF o Inr r [symmetric] refl p] show ?thesis
        using later [of "OPEN @ pre" rest'] two [OF o(4)] pre by (simp add: len_utf8_def)
    qed
  next
    case c
    then have "e = UnmatchedClosingDelimiter cursor" using "1.prems" by (subst (asm) template_loop.simps) simp
    moreover obtain post where "rest = CLOSE @ post" using c(5) by (auto simp: starts_with_iff_prefix prefix_def)
    ultimately show ?thesis by (intro exI [of _ "[]"] exI [of _ post]) simp
  next
    case other
    then have "template_loop (cursor + len_utf8 (hd rest)) (pending @ [hd rest]) (tl rest) segs phs = Inl e"
      using "1.prems" by (subst (asm) template_loop.simps) simp
    from "1.IH"(4) [OF other this] show ?thesis using later [of "[hd rest]" "tl rest"] other(1) by simp
  qed
qed

text \<open>
  C39 (error): an error of parsing a template names the place of a delimiter: at that byte offset the source has
  an opening delimiter, or a closing one when the error is an unmatched closing delimiter, and the
  offset falls on a char boundary.
\<close>

theorem template_error_position:
  assumes "template_parse source = Inl e"
  shows "\<exists>pre post. source = pre @ error_delimiter e @ post \<and> error_position e = utf8_len pre"
  using template_loop_error [of 0 "[]" source "[]" "[]" e] assms by (simp add: template_parse_def)

theorem template_error_position_witness:
  "\<exists>pre post. lit ''ab}}'' = pre @ CLOSE @ post \<and> 2 = utf8_len pre"
proof -
  have "template_parse (lit ''ab}}'') = Inl (UnmatchedClosingDelimiter 2)"
    by (simp add: template_parse_def template_loop.simps starts_with_def len_utf8_def)
  from template_error_position [OF this] show ?thesis by simp
qed

end
