(* ===== verification/Command_Summary.thy ===== *)
theory Command_Summary
  imports Bash_Script
begin

text \<open>
  \<^verbatim>\<open>codex-rs/shell-command/src/parse_command.rs\<close>: what a command is said to do (read a file, list files,
  search, or unknown) when it is shown to the user, and the script of a PowerShell call
  (\<^verbatim>\<open>powershell.rs\<close>). The crate shlex, which splits and joins words, is a parameter, as is the parser of
  shell scripts.
\<close>

section \<open>Parameters and summaries\<close>

record shlex =
  sh_split :: "rstr \<Rightarrow> rstr list option"
  sh_try_join :: "rstr list \<Rightarrow> rstr option"

datatype parsed_command =
    ReadSummary rstr rstr path
  | ListFilesSummary rstr "rstr option"
  | SearchSummary rstr "rstr option" "rstr option"
  | UnknownSummary rstr

text \<open>The derived \<^verbatim>\<open>PartialEq\<close>; a \<^verbatim>\<open>PathBuf\<close> compares by its components.\<close>

fun parsed_command_same :: "parsed_command \<Rightarrow> parsed_command \<Rightarrow> bool" where
  "parsed_command_same (ReadSummary c n p) (ReadSummary c' n' p') \<longleftrightarrow> c = c' \<and> n = n' \<and> components p = components p'"
| "parsed_command_same a b \<longleftrightarrow> a = b"

definition shlex_join :: "shlex \<Rightarrow> rstr list \<Rightarrow> rstr" where
  "shlex_join sh tokens = (case sh_try_join sh tokens of Some s \<Rightarrow> s | None \<Rightarrow> lit ''<command included NUL byte>'')"

section \<open>PowerShell calls\<close>

definition POWERSHELL_FLAGS :: "rstr list" where
  "POWERSHELL_FLAGS = [lit ''-nologo'', lit ''-noprofile'', lit ''-command'', lit ''-c'']"

definition UTF8_OUTPUT_PREFIX :: rstr where
  "UTF8_OUTPUT_PREFIX = lit ''[Console]::OutputEncoding=[System.Text.Encoding]::UTF8;'' @ [10]"

fun powershell_script_loop :: "rstr list \<Rightarrow> rstr option" where
  "powershell_script_loop (flag # script # rest) =
     (if to_ascii_lowercase flag \<notin> set POWERSHELL_FLAGS then None
      else if eq_ignore_ascii_case flag (lit ''-Command'') \<or> eq_ignore_ascii_case flag (lit ''-c'') then Some script
      else powershell_script_loop (script # rest))"
| "powershell_script_loop _ = None"

definition extract_powershell_command :: "rstr list \<Rightarrow> (rstr \<times> rstr) option" where
  "extract_powershell_command command =
     (if length command < 3 then None
      else if detect_shell_type (hd command) \<noteq> Some PowerShell then None
      else map_option (Pair (hd command)) (powershell_script_loop (tl command)))"

definition prefix_powershell_script_with_utf8 :: "rstr list \<Rightarrow> rstr list" where
  "prefix_powershell_script_with_utf8 command =
     (case extract_powershell_command command of
        None \<Rightarrow> command
      | Some (_, script) \<Rightarrow>
          butlast command @
          [if starts_with (trim_start script) UTF8_OUTPUT_PREFIX then script else UTF8_OUTPUT_PREFIX @ script])"

definition extract_shell_command :: "rstr list \<Rightarrow> (rstr \<times> rstr) option" where
  "extract_shell_command command =
     (case extract_bash_command command of Some r \<Rightarrow> Some r | None \<Rightarrow> extract_powershell_command command)"

section \<open>Arguments\<close>

definition is_connector :: "rstr \<Rightarrow> bool" where
  "is_connector t \<longleftrightarrow> t = lit ''&&'' \<or> t = lit ''||'' \<or> t = lit ''|'' \<or> t = lit '';''"

definition contains_connectors :: "rstr list \<Rightarrow> bool" where
  "contains_connectors tokens \<longleftrightarrow> list_ex is_connector tokens"

fun split_connectors_loop :: "rstr list list \<Rightarrow> rstr list \<Rightarrow> rstr list \<Rightarrow> rstr list list" where
  "split_connectors_loop out cur [] = (if cur \<noteq> [] then out @ [cur] else out)"
| "split_connectors_loop out cur (t # ts) =
     (if is_connector t
      then (if cur \<noteq> [] then split_connectors_loop (out @ [cur]) [] ts else split_connectors_loop out cur ts)
      else split_connectors_loop out (cur @ [t]) ts)"

definition split_on_connectors :: "rstr list \<Rightarrow> rstr list list" where
  "split_on_connectors tokens = split_connectors_loop [] [] tokens"

definition trim_at_connector :: "rstr list \<Rightarrow> rstr list" where
  "trim_at_connector tokens = takeWhile (\<lambda>t. \<not> is_connector t) tokens"

definition is_flag :: "rstr \<Rightarrow> bool" where
  "is_flag a \<longleftrightarrow> starts_with a (lit ''-'')"

definition is_flag_with_value :: "rstr \<Rightarrow> bool" where
  "is_flag_with_value a \<longleftrightarrow> starts_with a (lit ''--'') \<and> 61 \<in> set a"

definition short_display_path :: "rstr \<Rightarrow> rstr" where
  "short_display_path p =
     (let normalized = map (\<lambda>c. if c = 92 then SLASH else c) p;
          trimmed = trim_end_matches SLASH normalized
      in case find (\<lambda>q. q \<noteq> [] \<and> q \<noteq> lit ''build'' \<and> q \<noteq> lit ''dist'' \<and> q \<noteq> lit ''node_modules'' \<and> q \<noteq> lit ''src'')
                (rev (split_on SLASH trimmed)) of
           Some q \<Rightarrow> q
         | None \<Rightarrow> trimmed)"

fun skip_flag_values :: "rstr list \<Rightarrow> rstr list \<Rightarrow> rstr list" where
  "skip_flag_values flags_with_vals [] = []"
| "skip_flag_values flags_with_vals (a # rest) =
     (if a = lit ''--'' then rest
      else if is_flag_with_value a then skip_flag_values flags_with_vals rest
      else if a \<in> set flags_with_vals
      then (case rest of [] \<Rightarrow> [] | _ # rest' \<Rightarrow> skip_flag_values flags_with_vals rest')
      else a # skip_flag_values flags_with_vals rest)"

fun positional_operands :: "rstr list \<Rightarrow> rstr list \<Rightarrow> rstr list" where
  "positional_operands flags_with_vals [] = []"
| "positional_operands flags_with_vals (a # rest) =
     (if a = lit ''--'' then rest
      else if is_flag_with_value a then positional_operands flags_with_vals rest
      else if a \<in> set flags_with_vals
      then (case rest of [] \<Rightarrow> [] | _ # rest' \<Rightarrow> positional_operands flags_with_vals rest')
      else if is_flag a then positional_operands flags_with_vals rest
      else a # positional_operands flags_with_vals rest)"

text \<open>\<^verbatim>\<open>iter().next()\<close> and \<^verbatim>\<open>slice::get\<close>.\<close>

definition get :: "'a list \<Rightarrow> nat \<Rightarrow> 'a option" where
  "get xs i = (if i < length xs then Some (xs ! i) else None)"

definition first_non_flag_operand :: "rstr list \<Rightarrow> rstr list \<Rightarrow> rstr option" where
  "first_non_flag_operand args flags_with_vals = get (positional_operands flags_with_vals args) 0"

definition single_non_flag_operand :: "rstr list \<Rightarrow> rstr list \<Rightarrow> rstr option" where
  "single_non_flag_operand args flags_with_vals =
     (case positional_operands flags_with_vals args of [one] \<Rightarrow> Some one | _ \<Rightarrow> None)"

section \<open>Programs that search and read\<close>

definition GREP_PATTERN_FLAGS :: "rstr list" where
  "GREP_PATTERN_FLAGS = [lit ''-e'', lit ''--regexp'', lit ''-f'', lit ''--file'']"

definition GREP_VALUE_FLAGS :: "rstr list" where
  "GREP_VALUE_FLAGS = [lit ''-m'', lit ''--max-count'', lit ''-C'', lit ''--context'', lit ''-A'', lit ''--after-context'', lit ''-B'', lit ''--before-context'']"

fun grep_loop :: "rstr list \<Rightarrow> rstr list \<Rightarrow> rstr option \<Rightarrow> rstr list \<times> rstr option" where
  "grep_loop [] operands pattern = (operands, pattern)"
| "grep_loop (arg # rest) operands pattern =
     (if arg = lit ''--'' then (operands @ rest, pattern)
      else if arg \<in> set GREP_PATTERN_FLAGS
      then (case rest of
              [] \<Rightarrow> (operands, pattern)
            | pat # rest' \<Rightarrow> grep_loop rest' operands (if pattern = None then Some pat else pattern))
      else if arg \<in> set GREP_VALUE_FLAGS
      then (case rest of [] \<Rightarrow> (operands, pattern) | _ # rest' \<Rightarrow> grep_loop rest' operands pattern)
      else if is_flag arg then grep_loop rest operands pattern
      else grep_loop rest (operands @ [arg]) pattern)"

definition parse_grep_like :: "shlex \<Rightarrow> rstr list \<Rightarrow> rstr list \<Rightarrow> parsed_command" where
  "parse_grep_like sh main_cmd args =
     (let (operands, pattern) = grep_loop (trim_at_connector args) [] None;
          query = (case pattern of Some p \<Rightarrow> Some p | None \<Rightarrow> get operands 0);
          path_index = (if pattern \<noteq> None then 0 else 1)
      in SearchSummary (shlex_join sh main_cmd) query (map_option short_display_path (get operands path_index)))"

definition digits_only :: "rstr \<Rightarrow> bool" where
  "digits_only s \<longleftrightarrow> list_all is_ascii_digit s"

definition is_sed_n_range :: "rstr option \<Rightarrow> bool" where
  "is_sed_n_range arg =
     (case arg of
        None \<Rightarrow> False
      | Some s \<Rightarrow>
          (case strip_suffix [112] s of
             None \<Rightarrow> False
           | Some core \<Rightarrow>
               (case split_on 44 core of
                  [num] \<Rightarrow> num \<noteq> [] \<and> digits_only num
                | [a, b] \<Rightarrow> a \<noteq> [] \<and> b \<noteq> [] \<and> digits_only a \<and> digits_only b
                | _ \<Rightarrow> False)))"

definition SED_EXPRESSION_FLAGS :: "rstr list" where
  "SED_EXPRESSION_FLAGS = [lit ''-e'', lit ''--expression'']"

definition SED_FILE_FLAGS :: "rstr list" where
  "SED_FILE_FLAGS = [lit ''-f'', lit ''--file'']"

fun sed_range_loop :: "rstr list \<Rightarrow> bool" where
  "sed_range_loop [] = False"
| "sed_range_loop (arg # rest) =
     (if arg \<in> set SED_EXPRESSION_FLAGS
      then (case rest of [] \<Rightarrow> False | s # rest' \<Rightarrow> is_sed_n_range (Some s) \<or> sed_range_loop rest')
      else if arg \<in> set SED_FILE_FLAGS
      then (case rest of [] \<Rightarrow> False | _ # rest' \<Rightarrow> sed_range_loop rest')
      else sed_range_loop rest)"

definition sed_read_path :: "rstr list \<Rightarrow> rstr option" where
  "sed_read_path args =
     (let args_no_connector = trim_at_connector args in
      if lit ''-n'' \<notin> set args_no_connector then None
      else if \<not> (sed_range_loop args_no_connector \<or>
                 list_ex (\<lambda>arg. \<not> is_flag arg \<and> is_sed_n_range (Some arg)) args_no_connector)
      then None
      else
        (case filter (\<lambda>arg. \<not> is_flag arg)
                (skip_flag_values [lit ''-e'', lit ''-f'', lit ''--expression'', lit ''--file''] args_no_connector) of
           [] \<Rightarrow> None
         | first # rest \<Rightarrow> if is_sed_n_range (Some first) then get rest 0 else Some first))"

definition awk_data_file_operand :: "rstr list \<Rightarrow> rstr option" where
  "awk_data_file_operand args =
     (if args = [] then None
      else
        (let args_no_connector = trim_at_connector args;
             has_script_file = list_ex (\<lambda>arg. arg = lit ''-f'' \<or> arg = lit ''--file'') args_no_connector;
             non_flags = filter (\<lambda>arg. \<not> is_flag arg)
               (skip_flag_values [lit ''-F'', lit ''-v'', lit ''-f'', lit ''--field-separator'', lit ''--assign'', lit ''--file'']
                  args_no_connector)
         in if has_script_file then get non_flags 0 else get non_flags 1))"

definition PYTHON_FILE_WALKS :: "rstr list" where
  "PYTHON_FILE_WALKS = [lit ''os.walk'', lit ''os.listdir'', lit ''os.scandir'', lit ''glob.glob'', lit ''glob.iglob'', lit ''pathlib.Path'', lit ''.rglob('']"

fun python_script_loop :: "rstr list \<Rightarrow> bool" where
  "python_script_loop [] = False"
| "python_script_loop (arg # rest) =
     (if arg = lit ''-c''
      then (case rest of
              [] \<Rightarrow> False
            | script # _ \<Rightarrow>
                list_ex (contains_str script) PYTHON_FILE_WALKS)
      else python_script_loop rest)"

definition python_walks_files :: "rstr list \<Rightarrow> bool" where
  "python_walks_files args = python_script_loop (trim_at_connector args)"

definition is_python_command :: "rstr \<Rightarrow> bool" where
  "is_python_command cmd \<longleftrightarrow>
     cmd = lit ''python'' \<or> cmd = lit ''python2'' \<or> cmd = lit ''python3'' \<or>
     starts_with cmd (lit ''python2.'') \<or> starts_with cmd (lit ''python3.'')"

fun cd_target_loop :: "rstr option \<Rightarrow> rstr list \<Rightarrow> rstr option" where
  "cd_target_loop target [] = target"
| "cd_target_loop target (arg # rest) =
     (if arg = lit ''--'' then get rest 0
      else if arg = lit ''-L'' \<or> arg = lit ''-P'' then cd_target_loop target rest
      else if is_flag arg then cd_target_loop target rest
      else cd_target_loop (Some arg) rest)"

definition cd_target :: "rstr list \<Rightarrow> rstr option" where
  "cd_target args = (if args = [] then None else cd_target_loop None args)"

definition is_pathish :: "rstr \<Rightarrow> bool" where
  "is_pathish s \<longleftrightarrow>
     s = lit ''.'' \<or> s = lit ''..'' \<or> starts_with s (lit ''./'') \<or> starts_with s (lit ''../'') \<or> SLASH \<in> set s \<or> 92 \<in> set s"

definition parse_fd_query_and_path :: "rstr list \<Rightarrow> rstr option \<times> rstr option" where
  "parse_fd_query_and_path tail =
     (case filter (\<lambda>p. \<not> is_flag p)
             (skip_flag_values [lit ''-t'', lit ''--type'', lit ''-e'', lit ''--extension'', lit ''-E'', lit ''--exclude'',
                lit ''--search-path''] (trim_at_connector tail)) of
        [one] \<Rightarrow> if is_pathish one then (None, Some (short_display_path one)) else (Some one, None)
      | q # p # _ \<Rightarrow> (Some q, Some (short_display_path p))
      | _ \<Rightarrow> (None, None))"

definition FIND_NAME_FLAGS :: "rstr list" where
  "FIND_NAME_FLAGS = [lit ''-name'', lit ''-iname'', lit ''-path'', lit ''-regex'']"

fun find_query_loop :: "rstr list \<Rightarrow> rstr option" where
  "find_query_loop [] = None"
| "find_query_loop (a # rest) =
     (if a \<in> set FIND_NAME_FLAGS then get rest 0 else find_query_loop rest)"

definition parse_find_query_and_path :: "rstr list \<Rightarrow> rstr option \<times> rstr option" where
  "parse_find_query_and_path tail =
     (let args_no_connector = trim_at_connector tail;
          p = map_option short_display_path
                (find (\<lambda>a. \<not> is_flag a \<and> a \<noteq> lit ''!'' \<and> a \<noteq> lit ''('' \<and> a \<noteq> lit '')'') args_no_connector)
      in (find_query_loop args_no_connector, p))"

section \<open>Formatting helpers\<close>

definition XARGS_VALUE_FLAGS :: "rstr list" where
  "XARGS_VALUE_FLAGS = [lit ''-E'', lit ''-e'', lit ''-I'', lit ''-L'', lit ''-n'', lit ''-P'', lit ''-s'']"

fun xargs_loop :: "rstr list \<Rightarrow> rstr list option" where
  "xargs_loop [] = None"
| "xargs_loop (token # rest) =
     (if token = lit ''--'' then (if rest = [] then None else Some rest)
      else if \<not> is_flag token then Some (token # rest)
      else if token \<in> set XARGS_VALUE_FLAGS \<and> utf8_len token = 2
      then (case rest of [] \<Rightarrow> None | _ # rest' \<Rightarrow> xargs_loop rest')
      else xargs_loop rest)"

definition xargs_subcommand :: "rstr list \<Rightarrow> rstr list option" where
  "xargs_subcommand tokens =
     (case tokens of
        [] \<Rightarrow> None
      | first # rest \<Rightarrow> if first \<noteq> lit ''xargs'' then None else xargs_loop rest)"

definition xargs_has_in_place_flag :: "rstr list \<Rightarrow> bool" where
  "xargs_has_in_place_flag tokens \<longleftrightarrow>
     list_ex (\<lambda>token. token = lit ''-i'' \<or> starts_with token (lit ''-i'') \<or> token = lit ''-pi'' \<or> starts_with token (lit ''-pi''))
       tokens"

definition xargs_is_mutating_subcommand :: "rstr list \<Rightarrow> bool" where
  "xargs_is_mutating_subcommand tokens =
     (case tokens of
        [] \<Rightarrow> False
      | head # tail \<Rightarrow>
          if head = lit ''perl'' \<or> head = lit ''ruby'' then xargs_has_in_place_flag tail
          else if head = lit ''sed'' then xargs_has_in_place_flag tail \<or> lit ''--in-place'' \<in> set tail
          else if head = lit ''rg'' then lit ''--replace'' \<in> set tail
          else False)"

definition is_mutating_xargs_command :: "rstr list \<Rightarrow> bool" where
  "is_mutating_xargs_command tokens =
     (case xargs_subcommand tokens of Some sub \<Rightarrow> xargs_is_mutating_subcommand sub | None \<Rightarrow> False)"

definition digits_or_plus_digits :: "rstr \<Rightarrow> bool" where
  "digits_or_plus_digits n \<longleftrightarrow>
     digits_only n \<or> starts_with n (lit ''+'') \<and> digits_only (drop 1 n)"

definition is_small_formatting_command :: "rstr list \<Rightarrow> bool" where
  "is_small_formatting_command tokens =
     (case tokens of
        [] \<Rightarrow> False
      | cmd # args \<Rightarrow>
          if cmd \<in> {lit ''wc'', lit ''tr'', lit ''cut'', lit ''sort'', lit ''uniq'', lit ''tee'', lit ''column'', lit ''yes'',
                     lit ''printf''} then True
          else if cmd = lit ''xargs'' then \<not> is_mutating_xargs_command tokens
          else if cmd = lit ''awk'' then awk_data_file_operand args = None
          else if cmd = lit ''head''
          then (case args of
                  [] \<Rightarrow> True
                | [arg] \<Rightarrow> is_flag arg
                | [flag, n] \<Rightarrow> (flag = lit ''-n'' \<or> flag = lit ''-c'') \<and> digits_only n
                | _ \<Rightarrow> False)
          else if cmd = lit ''tail''
          then (case args of
                  [] \<Rightarrow> True
                | [arg] \<Rightarrow> is_flag arg
                | [flag, n] \<Rightarrow> (flag = lit ''-n'' \<or> flag = lit ''-c'') \<and> digits_or_plus_digits n
                | _ \<Rightarrow> False)
          else if cmd = lit ''sed'' then sed_read_path args = None
          else False)"

definition drop_small_formatting_commands :: "rstr list list \<Rightarrow> rstr list list" where
  "drop_small_formatting_commands commands = filter (\<lambda>tokens. \<not> is_small_formatting_command tokens) commands"

section \<open>The summary of one command\<close>

definition LS_VALUE_FLAGS :: "rstr list" where
  "LS_VALUE_FLAGS =
     [lit ''-I'', lit ''-w'', lit ''--block-size'', lit ''--format'', lit ''--time-style'',
      lit ''--color'', lit ''--quoting-style'']"

definition EZA_VALUE_FLAGS :: "rstr list" where
  "EZA_VALUE_FLAGS =
     [lit ''-I'', lit ''--ignore-glob'', lit ''--color'', lit ''--sort'', lit ''--time-style'',
      lit ''--time'']"

definition TREE_VALUE_FLAGS :: "rstr list" where
  "TREE_VALUE_FLAGS =
     [lit ''-L'', lit ''-P'', lit ''-I'', lit ''--charset'', lit ''--filelimit'', lit ''--sort'']"

definition DU_VALUE_FLAGS :: "rstr list" where
  "DU_VALUE_FLAGS =
     [lit ''-d'', lit ''--max-depth'', lit ''-B'', lit ''--block-size'', lit ''--exclude'',
      lit ''--time-style'']"

definition RG_VALUE_FLAGS :: "rstr list" where
  "RG_VALUE_FLAGS =
     [lit ''-g'', lit ''--glob'', lit ''--iglob'', lit ''-t'', lit ''--type'', lit ''--type-add'',
      lit ''--type-not'', lit ''-m'', lit ''--max-count'', lit ''-A'', lit ''-B'', lit ''-C'',
      lit ''--context'', lit ''--max-depth'']"

definition GIT_LS_FILES_VALUE_FLAGS :: "rstr list" where
  "GIT_LS_FILES_VALUE_FLAGS =
     [lit ''--exclude'', lit ''--exclude-from'', lit ''--pathspec-from-file'']"

definition AG_VALUE_FLAGS :: "rstr list" where
  "AG_VALUE_FLAGS =
     [lit ''-G'', lit ''-g'', lit ''--file-search-regex'', lit ''--ignore-dir'',
      lit ''--ignore-file'', lit ''--path-to-ignore'']"

definition BAT_VALUE_FLAGS :: "rstr list" where
  "BAT_VALUE_FLAGS =
     [lit ''--theme'', lit ''--language'', lit ''--style'', lit ''--terminal-width'',
      lit ''--tabs'', lit ''--line-range'', lit ''--map-syntax'']"

definition LESS_VALUE_FLAGS :: "rstr list" where
  "LESS_VALUE_FLAGS =
     [lit ''-p'', lit ''-P'', lit ''-x'', lit ''-y'', lit ''-z'', lit ''-j'', lit ''--pattern'',
      lit ''--prompt'', lit ''--tabs'', lit ''--shift'', lit ''--jump-target'']"

definition NL_VALUE_FLAGS :: "rstr list" where
  "NL_VALUE_FLAGS =
     [lit ''-s'', lit ''-w'', lit ''-v'', lit ''-i'', lit ''-b'']"

text \<open>The results that the branches share: a list of files with a shortened path, a search, and a read when
  there is a file.\<close>

definition list_files_summary :: "shlex \<Rightarrow> rstr list \<Rightarrow> rstr option \<Rightarrow> parsed_command" where
  "list_files_summary sh main_cmd p = ListFilesSummary (shlex_join sh main_cmd) (map_option short_display_path p)"

definition search_summary :: "shlex \<Rightarrow> rstr list \<Rightarrow> rstr option \<Rightarrow> rstr option \<Rightarrow> parsed_command" where
  "search_summary sh main_cmd query p =
     SearchSummary (shlex_join sh main_cmd) query (map_option short_display_path p)"

definition read_summary :: "shlex \<Rightarrow> rstr list \<Rightarrow> rstr option \<Rightarrow> parsed_command" where
  "read_summary sh main_cmd p =
     (case p of
        Some q \<Rightarrow> ReadSummary (shlex_join sh main_cmd) (short_display_path q) q
      | None \<Rightarrow> UnknownSummary (shlex_join sh main_cmd))"

definition summarize_rg :: "shlex \<Rightarrow> rstr list \<Rightarrow> rstr list \<Rightarrow> parsed_command" where
  "summarize_rg sh main_cmd tail =
     (let args_no_connector = trim_at_connector tail;
          non_flags = filter (\<lambda>p. \<not> is_flag p) (skip_flag_values RG_VALUE_FLAGS args_no_connector)
      in if lit ''--files'' \<in> set args_no_connector then list_files_summary sh main_cmd (get non_flags 0)
         else search_summary sh main_cmd (get non_flags 0) (get non_flags 1))"

definition summarize_git :: "shlex \<Rightarrow> rstr list \<Rightarrow> rstr list \<Rightarrow> parsed_command" where
  "summarize_git sh main_cmd tail =
     (case tail of
        subcmd # sub_tail \<Rightarrow>
          if subcmd = lit ''grep'' then parse_grep_like sh main_cmd sub_tail
          else if subcmd = lit ''ls-files''
          then list_files_summary sh main_cmd (first_non_flag_operand sub_tail GIT_LS_FILES_VALUE_FLAGS)
          else UnknownSummary (shlex_join sh main_cmd)
      | [] \<Rightarrow> UnknownSummary (shlex_join sh main_cmd))"

text \<open>\<^verbatim>\<open>fd\<close> and \<^verbatim>\<open>find\<close>: a search when there is something to search for, else a list of files.\<close>

definition query_or_list :: "shlex \<Rightarrow> rstr list \<Rightarrow> rstr option \<times> rstr option \<Rightarrow> parsed_command" where
  "query_or_list sh main_cmd qp =
     (if fst qp \<noteq> None then SearchSummary (shlex_join sh main_cmd) (fst qp) (snd qp)
      else ListFilesSummary (shlex_join sh main_cmd) (snd qp))"

definition summarize_ag :: "shlex \<Rightarrow> rstr list \<Rightarrow> rstr list \<Rightarrow> parsed_command" where
  "summarize_ag sh main_cmd tail =
     (let non_flags = filter (\<lambda>p. \<not> is_flag p) (skip_flag_values AG_VALUE_FLAGS (trim_at_connector tail))
      in search_summary sh main_cmd (get non_flags 0) (get non_flags 1))"

text \<open>The number of lines of \<^verbatim>\<open>head\<close> and \<^verbatim>\<open>tail\<close>, and the file of a call: with such a number the first word that is
  not a flag, else a single word that is not one.\<close>

definition head_number :: "rstr \<Rightarrow> bool" where
  "head_number n = digits_only n"

definition tail_number :: "rstr \<Rightarrow> bool" where
  "tail_number n =
     (let s = (case strip_prefix (lit ''+'') n of Some r \<Rightarrow> r | None \<Rightarrow> n) in s \<noteq> [] \<and> digits_only s)"

definition has_valid_n :: "(rstr \<Rightarrow> bool) \<Rightarrow> rstr list \<Rightarrow> bool" where
  "has_valid_n number tail =
     (case tail of
        first # rest \<Rightarrow>
          if first = lit ''-n'' then (case rest of n # _ \<Rightarrow> number n | [] \<Rightarrow> False)
          else if starts_with first (lit ''-n'') then number (drop 2 first)
          else False
      | [] \<Rightarrow> False)"

definition n_candidates :: "(rstr \<Rightarrow> bool) \<Rightarrow> rstr list \<Rightarrow> rstr list" where
  "n_candidates number tail =
     (case tail of
        first # n # rest \<Rightarrow> if first = lit ''-n'' \<and> number n then rest else tail
      | _ \<Rightarrow> tail)"

definition lines_file :: "(rstr \<Rightarrow> bool) \<Rightarrow> rstr list \<Rightarrow> rstr option" where
  "lines_file number tail =
     (let single = (case tail of [p] \<Rightarrow> if \<not> is_flag p then Some p else None | _ \<Rightarrow> None) in
      if has_valid_n number tail
      then (case find (\<lambda>p. \<not> is_flag p) (n_candidates number tail) of Some p \<Rightarrow> Some p | None \<Rightarrow> single)
      else single)"

definition summarize_main_tokens :: "shlex \<Rightarrow> rstr list \<Rightarrow> parsed_command" where
  "summarize_main_tokens sh main_cmd =
     (case main_cmd of
        [] \<Rightarrow> UnknownSummary (shlex_join sh main_cmd)
      | head # tail \<Rightarrow>
          if head = lit ''ls'' then list_files_summary sh main_cmd (first_non_flag_operand tail LS_VALUE_FLAGS)
          else if head = lit ''eza'' \<or> head = lit ''exa''
          then list_files_summary sh main_cmd (first_non_flag_operand tail EZA_VALUE_FLAGS)
          else if head = lit ''tree'' then list_files_summary sh main_cmd (first_non_flag_operand tail TREE_VALUE_FLAGS)
          else if head = lit ''du'' then list_files_summary sh main_cmd (first_non_flag_operand tail DU_VALUE_FLAGS)
          else if head = lit ''rg'' \<or> head = lit ''rga'' \<or> head = lit ''ripgrep-all'' then summarize_rg sh main_cmd tail
          else if head = lit ''git'' then summarize_git sh main_cmd tail
          else if head = lit ''fd'' then query_or_list sh main_cmd (parse_fd_query_and_path tail)
          else if head = lit ''find'' then query_or_list sh main_cmd (parse_find_query_and_path tail)
          else if head = lit ''grep'' \<or> head = lit ''egrep'' \<or> head = lit ''fgrep'' then parse_grep_like sh main_cmd tail
          else if head = lit ''ag'' \<or> head = lit ''ack'' \<or> head = lit ''pt'' then summarize_ag sh main_cmd tail
          else if head = lit ''cat'' then read_summary sh main_cmd (single_non_flag_operand tail [])
          else if head = lit ''bat'' \<or> head = lit ''batcat''
          then read_summary sh main_cmd (single_non_flag_operand tail BAT_VALUE_FLAGS)
          else if head = lit ''less'' then read_summary sh main_cmd (single_non_flag_operand tail LESS_VALUE_FLAGS)
          else if head = lit ''more'' then read_summary sh main_cmd (single_non_flag_operand tail [])
          else if head = lit ''head'' then read_summary sh main_cmd (lines_file head_number tail)
          else if head = lit ''tail'' then read_summary sh main_cmd (lines_file tail_number tail)
          else if head = lit ''awk'' then read_summary sh main_cmd (awk_data_file_operand tail)
          else if head = lit ''nl''
          then read_summary sh main_cmd (find (\<lambda>p. \<not> is_flag p) (skip_flag_values NL_VALUE_FLAGS tail))
          else if head = lit ''sed'' then read_summary sh main_cmd (sed_read_path tail)
          else if is_python_command head
          then (if python_walks_files tail then ListFilesSummary (shlex_join sh main_cmd) None
                else UnknownSummary (shlex_join sh main_cmd))
          else UnknownSummary (shlex_join sh main_cmd))"

section \<open>The summary of a sequence\<close>

definition is_ascii_alphabetic :: "uchar \<Rightarrow> bool" where
  "is_ascii_alphabetic c \<longleftrightarrow> 65 \<le> c \<and> c \<le> 90 \<or> 97 \<le> c \<and> c \<le> 122"

definition is_abs_like :: "rstr \<Rightarrow> bool" where
  "is_abs_like p \<longleftrightarrow>
     is_absolute p \<or>
     (case p of
        d # c # b # _ \<Rightarrow> is_ascii_alphabetic d \<and> c = 58 \<and> b = 92 \<or> d = 92 \<and> c = 92
      | [d, c] \<Rightarrow> d = 92 \<and> c = 92
      | _ \<Rightarrow> False)"

definition join_paths :: "rstr \<Rightarrow> rstr \<Rightarrow> rstr" where
  "join_paths base rel = (if is_abs_like rel then rel else if base = [] then rel else path_push base rel)"

fun below_cwd :: "rstr option \<Rightarrow> parsed_command \<Rightarrow> parsed_command" where
  "below_cwd (Some base) (ReadSummary cmd name p) = ReadSummary cmd name (join_paths base p)"
| "below_cwd _ parsed = parsed"

fun summarize_parts :: "shlex \<Rightarrow> rstr option \<Rightarrow> rstr list list \<Rightarrow> parsed_command list" where
  "summarize_parts sh cwd [] = []"
| "summarize_parts sh cwd (tokens # parts) =
     (if tokens \<noteq> [] \<and> hd tokens = lit ''cd''
      then summarize_parts sh
             (case cd_target (tl tokens) of
                Some dir \<Rightarrow> Some (case cwd of Some base \<Rightarrow> join_paths base dir | None \<Rightarrow> dir)
              | None \<Rightarrow> cwd) parts
      else below_cwd cwd (summarize_main_tokens sh tokens) # summarize_parts sh cwd parts)"

fun position :: "('a \<Rightarrow> bool) \<Rightarrow> 'a list \<Rightarrow> nat option" where
  "position P [] = None"
| "position P (x # xs) = (if P x then Some 0 else map_option Suc (position P xs))"

definition remove_at :: "nat \<Rightarrow> 'a list \<Rightarrow> 'a list" where
  "remove_at idx xs = take idx xs @ drop (idx + 1) xs"

fun unknown_starts :: "shlex \<Rightarrow> rstr \<Rightarrow> parsed_command \<Rightarrow> bool" where
  "unknown_starts sh word (UnknownSummary cmd) =
     (case sh_split sh cmd of Some (t # _) \<Rightarrow> t = word | _ \<Rightarrow> False)"
| "unknown_starts sh word _ = False"

fun is_unknown_true :: "parsed_command \<Rightarrow> bool" where
  "is_unknown_true (UnknownSummary cmd) \<longleftrightarrow> cmd = lit ''true''"
| "is_unknown_true _ = False"

fun is_bare_nl :: "shlex \<Rightarrow> parsed_command \<Rightarrow> bool" where
  "is_bare_nl sh (UnknownSummary cmd) =
     (case sh_split sh cmd of Some (t # ts) \<Rightarrow> t = lit ''nl'' \<and> list_all is_flag ts | _ \<Rightarrow> False)"
| "is_bare_nl sh _ = False"

definition simplify_once :: "shlex \<Rightarrow> parsed_command list \<Rightarrow> parsed_command list option" where
  "simplify_once sh commands =
     (if length commands \<le> 1 then None
      else if unknown_starts sh (lit ''echo'') (hd commands) then Some (tl commands)
      else
        (let at_true_or_nl =
           (case position is_unknown_true commands of
              Some idx \<Rightarrow> Some (remove_at idx commands)
            | None \<Rightarrow>
                (case position (is_bare_nl sh) commands of
                   Some idx \<Rightarrow> Some (remove_at idx commands)
                 | None \<Rightarrow> None))
         in case position (unknown_starts sh (lit ''cd'')) commands of
              Some idx \<Rightarrow> if length commands > idx + 1 then Some (remove_at idx commands) else at_true_or_nl
            | None \<Rightarrow> at_true_or_nl))"

lemma position_bound: "position P xs = Some i \<Longrightarrow> i < length xs"
  by (induction xs arbitrary: i) (auto split: if_splits)

lemma remove_at_shorter: "i < length xs \<Longrightarrow> length (remove_at i xs) < length xs"
  by (simp add: remove_at_def)

lemma simplify_once_shorter: "simplify_once sh commands = Some next \<Longrightarrow> length next < length commands"
  by (auto simp: simplify_once_def Let_def split: if_splits option.splits dest!: position_bound intro: remove_at_shorter)

text \<open>The loop \<^verbatim>\<open>while let Some(next) = simplify_once(..)\<close>: every round drops a command.\<close>

function simplify :: "shlex \<Rightarrow> parsed_command list \<Rightarrow> parsed_command list" where
  "simplify sh commands = (case simplify_once sh commands of Some next \<Rightarrow> simplify sh next | None \<Rightarrow> commands)"
  by pat_completeness auto
termination by (relation "measure (\<lambda>(_, commands). length commands)") (auto dest: simplify_once_shorter)

declare simplify.simps [simp del]

definition normalize_tokens :: "shlex \<Rightarrow> rstr list \<Rightarrow> rstr list" where
  "normalize_tokens sh cmd =
     (let shell_script =
        (case cmd of
           [shell, flag, script] \<Rightarrow>
             if (shell = lit ''bash'' \<or> shell = lit ''zsh'') \<and> (flag = lit ''-c'' \<or> flag = lit ''-lc'')
             then (case sh_split sh script of Some ts \<Rightarrow> ts | None \<Rightarrow> [shell, flag, script])
             else cmd
         | _ \<Rightarrow> cmd)
      in case cmd of
           first # pipe # rest \<Rightarrow>
             if (first = lit ''yes'' \<or> first = lit ''y'') \<and> pipe = lit ''|'' then rest
             else if (first = lit ''no'' \<or> first = lit ''n'') \<and> pipe = lit ''|'' then rest
             else shell_script
         | _ \<Rightarrow> shell_script)"

section \<open>Scripts\<close>

text \<open>One command that is left of a script is shown with the whole script, unless the script had connectors.\<close>

definition has_sed_n :: "rstr list \<Rightarrow> bool" where
  "has_sed_n tokens \<longleftrightarrow> list_ex (\<lambda>(a, b). a = lit ''sed'' \<and> b = lit ''-n'') (zip tokens (tl tokens))"

fun attribute_script :: "shlex \<Rightarrow> rstr \<Rightarrow> rstr list \<Rightarrow> bool \<Rightarrow> parsed_command \<Rightarrow> parsed_command" where
  "attribute_script sh script script_tokens had_connectors (ReadSummary cmd name p) =
     (if had_connectors
      then (if lit ''|'' \<in> set script_tokens \<and> has_sed_n script_tokens then ReadSummary script name p
            else ReadSummary cmd name p)
      else ReadSummary (shlex_join sh script_tokens) name p)"
| "attribute_script sh script script_tokens had_connectors (ListFilesSummary cmd p) =
     (if had_connectors then ListFilesSummary cmd p else ListFilesSummary (shlex_join sh script_tokens) p)"
| "attribute_script sh script script_tokens had_connectors (SearchSummary cmd query p) =
     (if had_connectors then SearchSummary cmd query p else SearchSummary (shlex_join sh script_tokens) query p)"
| "attribute_script sh script script_tokens had_connectors (UnknownSummary cmd) = UnknownSummary cmd"

definition summarize_script :: "shlex \<Rightarrow> rstr \<Rightarrow> rstr list list \<Rightarrow> parsed_command list" where
  "summarize_script sh script all_commands =
     (let script_tokens = (case sh_split sh script of Some ts \<Rightarrow> ts | None \<Rightarrow> [script]);
          had_multiple_commands = length all_commands > 1;
          filtered_commands = drop_small_formatting_commands all_commands
      in if filtered_commands = [] then [UnknownSummary script]
         else
           (let commands0 = summarize_parts sh None filtered_commands;
                commands = (if length commands0 > 1
                            then simplify sh (filter (\<lambda>pc. \<not> is_unknown_true pc) commands0) else commands0);
                had_connectors = (had_multiple_commands \<or> contains_connectors script_tokens)
            in if length commands = 1 then map (attribute_script sh script script_tokens had_connectors) commands
               else commands))"

definition parse_shell_lc_commands ::
    "shlex \<Rightarrow> (rstr \<Rightarrow> node option) \<Rightarrow> rstr list \<Rightarrow> parsed_command list option" where
  "parse_shell_lc_commands sh parse original =
     (case extract_bash_command original of
        None \<Rightarrow> None
      | Some (_, script) \<Rightarrow>
          Some (case Option.bind (parse script) (\<lambda>tree. try_parse_word_only_commands_sequence tree script) of
                  Some all_commands \<Rightarrow>
                    if all_commands \<noteq> [] then summarize_script sh script all_commands else [UnknownSummary script]
                | None \<Rightarrow> [UnknownSummary script]))"

definition parse_command_impl :: "shlex \<Rightarrow> (rstr \<Rightarrow> node option) \<Rightarrow> rstr list \<Rightarrow> parsed_command list" where
  "parse_command_impl sh parse command =
     (case parse_shell_lc_commands sh parse command of
        Some commands \<Rightarrow> commands
      | None \<Rightarrow>
          (case extract_powershell_command command of
             Some (_, script) \<Rightarrow> [UnknownSummary script]
           | None \<Rightarrow>
               (let normalized = normalize_tokens sh command;
                    parts = (if contains_connectors normalized then split_on_connectors normalized else [normalized])
                in simplify sh (summarize_parts sh None parts))))"

definition single_unknown_for_command :: "shlex \<Rightarrow> rstr list \<Rightarrow> parsed_command" where
  "single_unknown_for_command sh command =
     (case extract_shell_command command of
        Some (_, shell_command) \<Rightarrow> UnknownSummary shell_command
      | None \<Rightarrow> UnknownSummary (shlex_join sh command))"

definition dedup_consecutive :: "parsed_command list \<Rightarrow> parsed_command list" where
  "dedup_consecutive parsed =
     foldl (\<lambda>deduped cmd. if deduped \<noteq> [] \<and> parsed_command_same (last deduped) cmd then deduped else deduped @ [cmd])
       [] parsed"

fun is_unknown :: "parsed_command \<Rightarrow> bool" where
  "is_unknown (UnknownSummary _) = True"
| "is_unknown _ = False"

definition parse_command :: "shlex \<Rightarrow> (rstr \<Rightarrow> node option) \<Rightarrow> rstr list \<Rightarrow> parsed_command list" where
  "parse_command sh parse command =
     (let deduped = dedup_consecutive (parse_command_impl sh parse command) in
      if list_ex is_unknown deduped then [single_unknown_for_command sh command] else deduped)"

end
