(* ===== verification/Command_Summary_Correct.thy ===== *)
theory Command_Summary_Correct
  imports Command_Summary
begin

text \<open>
  What the summaries of commands say: a part that is not understood is not left out, but for \<^verbatim>\<open>echo\<close>, \<^verbatim>\<open>cd\<close>,
  \<^verbatim>\<open>true\<close> and \<^verbatim>\<open>nl\<close>, what is named was an
  argument, and a search names its query and folder.
\<close>

section \<open>What a summary names\<close>

lemma get_mem: "get xs i = Some x \<Longrightarrow> x \<in> set xs"
  by (auto simp: get_def split: if_splits)

lemma find_mem: "find P xs = Some x \<Longrightarrow> x \<in> set xs"
  by (auto simp: find_Some_iff)

lemma skip_flag_values_sub: "set (skip_flag_values flags args) \<subseteq> set args"
  by (induction flags args rule: skip_flag_values.induct) (auto split: list.splits)

lemma positional_operands_sub: "set (positional_operands flags args) \<subseteq> set args"
  by (induction flags args rule: positional_operands.induct) (auto split: list.splits)

lemma trim_at_connector_sub: "set (trim_at_connector args) \<subseteq> set args"
  by (auto simp: trim_at_connector_def dest: set_takeWhileD)

lemma grep_loop_sub:
  "grep_loop args operands pattern = (operands', pattern') \<Longrightarrow>
   set operands' \<union> set_option pattern' \<subseteq> set args \<union> set operands \<union> set_option pattern"
proof (induction args operands pattern rule: grep_loop.induct)
  case (2 arg rest operands pattern)
  note IH = 2
  show ?case
  proof (cases "arg = lit ''--''")
    case True
    then show ?thesis using IH(5) by auto
  next
    case dash: False
    show ?thesis
    proof (cases "arg \<in> set GREP_PATTERN_FLAGS")
      case True
      then show ?thesis using IH(1) [OF dash True] IH(5) dash by (cases rest) (auto split: if_splits)
    next
      case pat: False
      show ?thesis
      proof (cases "arg \<in> set GREP_VALUE_FLAGS")
        case True
        then show ?thesis using IH(2) [OF dash pat True] IH(5) dash pat by (cases rest) auto
      next
        case val: False
        then show ?thesis
          using IH(3) [OF dash pat val] IH(4) [OF dash pat val] IH(5) dash pat by (cases "is_flag arg") auto
      qed
    qed
  qed
qed auto

definition named :: "rstr list \<Rightarrow> rstr option \<Rightarrow> bool" where
  "named args x \<longleftrightarrow> set_option x \<subseteq> set args"

definition displayed :: "rstr list \<Rightarrow> rstr option \<Rightarrow> bool" where
  "displayed args x \<longleftrightarrow> set_option x \<subseteq> short_display_path ` set args"

lemma named_get: "set xs \<subseteq> set args \<Longrightarrow> named args (get xs i)"
  by (auto simp: named_def dest: get_mem)

lemma named_find: "set xs \<subseteq> set args \<Longrightarrow> named args (find P xs)"
  by (auto simp: named_def dest: find_mem)

lemma displayed_map: "named args x \<Longrightarrow> displayed args (map_option short_display_path x)"
  by (auto simp: named_def displayed_def)

lemma non_flags_sub: "set (filter P (skip_flag_values flags (trim_at_connector args))) \<subseteq> set args"
  using skip_flag_values_sub trim_at_connector_sub by fastforce

lemma operands_named:
  "named args (first_non_flag_operand args flags)" "named args (single_non_flag_operand args flags)"
  using positional_operands_sub [of flags args]
  by (auto simp: first_non_flag_operand_def single_non_flag_operand_def named_def split: list.splits dest!: get_mem)

lemma awk_named: "named args (awk_data_file_operand args)"
proof (cases "args = []")
  case False
  then show ?thesis by (simp only: awk_data_file_operand_def Let_def if_False) (auto intro!: named_get non_flags_sub)
qed (simp add: awk_data_file_operand_def named_def)

lemma sed_named: "named args (sed_read_path args)"
proof (cases "filter (\<lambda>arg. \<not> is_flag arg)
    (skip_flag_values [lit ''-e'', lit ''-f'', lit ''--expression'', lit ''--file''] (trim_at_connector args))")
  case (Cons first rest)
  then have "set (first # rest) \<subseteq> set args" using non_flags_sub by metis
  then show ?thesis
    unfolding sed_read_path_def Let_def Cons list.case
    by (auto simp: named_def dest: get_mem)
qed (simp add: sed_read_path_def Let_def named_def)

lemma lines_named: "named args (lines_file number args)"
proof -
  have "set (n_candidates number args) \<subseteq> set args" by (auto simp: n_candidates_def split: list.splits if_splits)
  then have found: "named args (find (\<lambda>p. \<not> is_flag p) (n_candidates number args))" by (rule named_find)
  have single: "named args (case args of [p] \<Rightarrow> if \<not> is_flag p then Some p else None | _ \<Rightarrow> None)"
    by (auto simp: named_def split: list.split)
  show ?thesis
    using found single by (cases "find (\<lambda>p. \<not> is_flag p) (n_candidates number args)") (simp_all add: lines_file_def Let_def)
qed

lemma fd_named: "named args (fst (parse_fd_query_and_path args)) \<and> displayed args (snd (parse_fd_query_and_path args))"
proof -
  define xs where "xs = filter (\<lambda>p. \<not> is_flag p) (skip_flag_values [lit ''-t'', lit ''--type'', lit ''-e'', lit ''--extension'',
    lit ''-E'', lit ''--exclude'', lit ''--search-path''] (trim_at_connector args))"
  have "set xs \<subseteq> set args" unfolding xs_def by (rule non_flags_sub)
  then show ?thesis
    unfolding parse_fd_query_and_path_def xs_def [symmetric] by (auto simp: named_def displayed_def split: list.split)
qed

lemma find_query_named: "named args (find_query_loop args)"
  by (induction args) (auto simp: named_def dest: get_mem)

lemma find_named: "named args (fst (parse_find_query_and_path args)) \<and> displayed args (snd (parse_find_query_and_path args))"
  using find_query_named [of "trim_at_connector args"] named_find [OF trim_at_connector_sub] trim_at_connector_sub [of args]
  by (auto simp: parse_find_query_and_path_def Let_def intro!: displayed_map) (auto simp: named_def)

text \<open>A summary that names the words of a command, of which the first is left out.\<close>

fun summary_of :: "shlex \<Rightarrow> rstr list \<Rightarrow> parsed_command \<Rightarrow> bool" where
  "summary_of sh ts (ReadSummary cmd name p) \<longleftrightarrow>
     cmd = shlex_join sh ts \<and> p \<in> set (tl ts) \<and> name = short_display_path p"
| "summary_of sh ts (ListFilesSummary cmd p) \<longleftrightarrow> cmd = shlex_join sh ts \<and> displayed (tl ts) p"
| "summary_of sh ts (SearchSummary cmd query p) \<longleftrightarrow>
     cmd = shlex_join sh ts \<and> named (tl ts) query \<and> displayed (tl ts) p"
| "summary_of sh ts (UnknownSummary cmd) \<longleftrightarrow> cmd = shlex_join sh ts"

lemma grep_summary: "set args \<subseteq> set (tl ts) \<Longrightarrow> summary_of sh ts (parse_grep_like sh ts args)"
proof -
  assume args: "set args \<subseteq> set (tl ts)"
  obtain ops pat where loop: "grep_loop (trim_at_connector args) [] None = (ops, pat)" by fastforce
  then have "set ops \<union> set_option pat \<subseteq> set (tl ts)"
    using grep_loop_sub [OF loop] trim_at_connector_sub args by fastforce
  then show ?thesis
    by (cases pat) (auto simp: parse_grep_like_def loop named_def displayed_def dest!: get_mem)
qed

lemma shared_summaries:
  "named (tl ts) p \<Longrightarrow> summary_of sh ts (list_files_summary sh ts p)"
  "named (tl ts) q \<Longrightarrow> named (tl ts) p \<Longrightarrow> summary_of sh ts (search_summary sh ts q p)"
  "named (tl ts) p \<Longrightarrow> summary_of sh ts (read_summary sh ts p)"
  "named (tl ts) (fst qp) \<Longrightarrow> displayed (tl ts) (snd qp) \<Longrightarrow> summary_of sh ts (query_or_list sh ts qp)"
  by (auto simp: list_files_summary_def search_summary_def read_summary_def query_or_list_def displayed_map named_def
      split: option.split)

lemma searches_named:
  "summary_of sh (h # args) (summarize_rg sh (h # args) args)"
  "summary_of sh (h # args) (summarize_ag sh (h # args) args)"
  using named_get [OF non_flags_sub] shared_summaries [of "h # args"]
  by (simp_all add: summarize_rg_def summarize_ag_def Let_def)

lemma summary_if: "summary_of sh ts a \<Longrightarrow> summary_of sh ts b \<Longrightarrow> summary_of sh ts (if c then a else b)"
  by simp

lemma git_named: "summary_of sh (h # args) (summarize_git sh (h # args) args)"
proof (cases args)
  case (Cons sub rest)
  have "named args (first_non_flag_operand rest flags)" for flags
    using operands_named(1) [of rest flags] Cons by (auto simp: named_def)
  then show ?thesis
    using grep_summary [of rest "h # args" sh] shared_summaries [of "h # args"]
    by (auto simp: summarize_git_def Cons)
qed (simp add: summarize_git_def)

lemma summary_names_main: "summary_of sh ts (summarize_main_tokens sh ts)"
proof (cases ts)
  case (Cons h args)
  have nl: "named args (find (\<lambda>p. \<not> is_flag p) (skip_flag_values NL_VALUE_FLAGS args))"
    by (rule named_find [OF skip_flag_values_sub])
  have grep: "summary_of sh (h # args) (parse_grep_like sh (h # args) args)" by (rule grep_summary) simp
  note shared = shared_summaries [of "h # args", unfolded list.sel]
  have unknown: "summary_of sh (h # args) (UnknownSummary (shlex_join sh (h # args)))" by simp
  have listed: "summary_of sh (h # args) (ListFilesSummary (shlex_join sh (h # args)) None)" by (simp add: displayed_def)
  show ?thesis
    unfolding Cons summarize_main_tokens_def list.case
    by (rule summary_if | rule unknown listed grep searches_named git_named
      | rule shared, (rule operands_named awk_named sed_named lines_named nl fd_named [THEN conjunct1] fd_named [THEN conjunct2]
          find_named [THEN conjunct1] find_named [THEN conjunct2])+)+
qed (simp add: summarize_main_tokens_def)

text \<open>
  The summary of one command carries the command itself, and every file, query and folder
  that it names was one of the arguments: a read names the argument as it is, a folder is shortened for
  display.
\<close>

theorem summary_names_arguments: "summary_of sh ts (summarize_main_tokens sh ts)"
  by (rule summary_names_main)

text \<open>A crate for the examples: words without spaces, joined by a space.\<close>

definition plain_shlex :: shlex where
  "plain_shlex = \<lparr>sh_split = (\<lambda>s. Some (filter (\<lambda>w. w \<noteq> []) (split_on 32 s))),
     sh_try_join = (\<lambda>ts. if list_all (\<lambda>t. t \<noteq> [] \<and> 32 \<notin> set t) ts then Some (str_join [32] ts) else None)\<rparr>"

section \<open>The query and the folder of a search\<close>

text \<open>
  The arguments of \<^verbatim>\<open>grep\<close>: options that give a pattern, options with a value, other flags, and operands; after
  \<^verbatim>\<open>--\<close> there are operands only.
\<close>

datatype grep_item = Pattern_Option rstr rstr | Value_Option rstr rstr | Plain_Flag rstr | Operand rstr

fun grep_words :: "grep_item \<Rightarrow> rstr list" where
  "grep_words (Pattern_Option name pat) = [name, pat]"
| "grep_words (Value_Option name val) = [name, val]"
| "grep_words (Plain_Flag name) = [name]"
| "grep_words (Operand w) = [w]"

definition names_pattern :: "rstr \<Rightarrow> bool" where
  "names_pattern name \<longleftrightarrow> name = lit ''-e'' \<or> name = lit ''--regexp'' \<or> name = lit ''-f'' \<or> name = lit ''--file''"

definition names_value :: "rstr \<Rightarrow> bool" where
  "names_value name \<longleftrightarrow>
     name = lit ''-m'' \<or> name = lit ''--max-count'' \<or> name = lit ''-C'' \<or> name = lit ''--context'' \<or>
     name = lit ''-A'' \<or> name = lit ''--after-context'' \<or> name = lit ''-B'' \<or> name = lit ''--before-context''"

fun grep_item_ok :: "grep_item \<Rightarrow> bool" where
  "grep_item_ok (Pattern_Option name _) = names_pattern name"
| "grep_item_ok (Value_Option name _) = names_value name"
| "grep_item_ok (Plain_Flag name) \<longleftrightarrow> is_flag name \<and> name \<noteq> lit ''--'' \<and> \<not> names_pattern name \<and> \<not> names_value name"
| "grep_item_ok (Operand w) \<longleftrightarrow> \<not> is_flag w"

fun grep_patterns :: "grep_item list \<Rightarrow> rstr list" where
  "grep_patterns [] = []"
| "grep_patterns (Pattern_Option _ pat # items) = pat # grep_patterns items"
| "grep_patterns (_ # items) = grep_patterns items"

fun grep_operands :: "grep_item list \<Rightarrow> rstr list" where
  "grep_operands [] = []"
| "grep_operands (Operand w # items) = w # grep_operands items"
| "grep_operands (_ # items) = grep_operands items"

definition grep_arguments :: "grep_item list \<Rightarrow> rstr list option \<Rightarrow> rstr list" where
  "grep_arguments items rest = concat (map grep_words items) @ (case rest of Some ws \<Rightarrow> lit ''--'' # ws | None \<Rightarrow> [])"

lemma grep_flag_names:
  "name \<in> set GREP_PATTERN_FLAGS \<longleftrightarrow> names_pattern name" "name \<in> set GREP_VALUE_FLAGS \<longleftrightarrow> names_value name"
  unfolding GREP_PATTERN_FLAGS_def GREP_VALUE_FLAGS_def names_pattern_def names_value_def list.set insert_iff empty_iff
  by blast+

lemma grep_names_apart:
  "names_pattern name \<Longrightarrow> name \<noteq> lit ''--''" "names_value name \<Longrightarrow> name \<noteq> lit ''--'' \<and> \<not> names_pattern name"
  by (auto simp: names_pattern_def names_value_def)

lemma grep_loop_items:
  "list_all grep_item_ok items \<Longrightarrow>
   grep_loop (grep_arguments items rest) operands pattern =
     (operands @ grep_operands items @ (case rest of Some ws \<Rightarrow> ws | None \<Rightarrow> []),
      case pattern of Some p \<Rightarrow> Some p | None \<Rightarrow> get (grep_patterns items) 0)"
proof (induction items arbitrary: operands pattern)
  case Nil
  show ?case by (cases rest) (auto simp: grep_arguments_def get_def split: option.split simp del: lit_Cons)
next
  case (Cons item items)
  have IH: "grep_loop (grep_arguments items rest) os pat = (os @ grep_operands items @ (case rest of Some ws \<Rightarrow> ws | None \<Rightarrow> []),
      case pat of Some p \<Rightarrow> Some p | None \<Rightarrow> get (grep_patterns items) 0)" for os pat using Cons by simp
  have args: "grep_arguments (item # items) rest = grep_words item @ grep_arguments items rest" by (simp add: grep_arguments_def)
  show ?case
  proof (cases item)
    case (Pattern_Option name pat)
    have name: "names_pattern name" "name \<noteq> lit ''--''" using Cons.prems grep_names_apart(1) by (auto simp: Pattern_Option simp del: lit_Cons)
    show ?thesis
      unfolding args by (cases pattern) (simp_all add: Pattern_Option name grep_flag_names IH get_def del: lit_Cons)
  next
    case (Value_Option name val)
    have name: "names_value name" "name \<noteq> lit ''--''" "\<not> names_pattern name"
      using Cons.prems grep_names_apart(2) by (auto simp: Value_Option simp del: lit_Cons)
    show ?thesis unfolding args by (cases pattern) (simp_all add: Value_Option name grep_flag_names IH del: lit_Cons)
  next
    case (Plain_Flag name)
    then show ?thesis using Cons.prems unfolding args by (cases pattern) (simp_all add: Plain_Flag grep_flag_names IH del: lit_Cons)
  next
    case (Operand w)
    have w: "\<not> is_flag w" using Cons.prems by (simp add: Operand)
    have dash: "is_flag (lit ''--'')" "names_pattern name \<Longrightarrow> is_flag name" "names_value name \<Longrightarrow> is_flag name" for name
      by (auto simp: names_pattern_def names_value_def is_flag_def starts_with_def)
    have "w \<noteq> lit ''--''" "\<not> names_pattern w" "\<not> names_value w" using w dash by metis+
    then show ?thesis using w unfolding args by (cases pattern) (simp_all add: Operand grep_flag_names IH del: lit_Cons)
  qed
qed

lemma summarize_grep:
  "head \<in> {lit ''grep'', lit ''egrep'', lit ''fgrep''} \<Longrightarrow> summarize_main_tokens sh (head # args) = parse_grep_like sh (head # args) args"
proof -
  have "summarize_main_tokens sh (lit ''grep'' # args) = parse_grep_like sh (lit ''grep'' # args) args"
    "summarize_main_tokens sh (lit ''egrep'' # args) = parse_grep_like sh (lit ''egrep'' # args) args"
    "summarize_main_tokens sh (lit ''fgrep'' # args) = parse_grep_like sh (lit ''fgrep'' # args) args"
    by (simp_all add: summarize_main_tokens_def)
  then show "head \<in> {lit ''grep'', lit ''egrep'', lit ''fgrep''} \<Longrightarrow> summarize_main_tokens sh (head # args) = parse_grep_like sh (head # args) args"
    by blast
qed

text \<open>
  C33 (functional): the summary of a \<^verbatim>\<open>grep\<close>, \<^verbatim>\<open>egrep\<close> or \<^verbatim>\<open>fgrep\<close> command whose arguments hold no connector names what is
  searched for and where. For any sequence of options that give a pattern, options with a value, other flags and
  operands, with or without \<^verbatim>\<open>--\<close> and more operands after it, the query is the pattern, or file of patterns, of the first option that gives one, and the folder the first
  operand; without such an option they are the first and the second operand. The folder is shortened for display, the query
  is not, and the values of other options are neither.
\<close>

theorem grep_summary_exact:
  assumes "head \<in> {lit ''grep'', lit ''egrep'', lit ''fgrep''}" and "list_all grep_item_ok items"
    and "list_all (\<lambda>t. \<not> is_connector t) (grep_arguments items rest)"
  shows "summarize_main_tokens sh (head # grep_arguments items rest) =
    (let operands = grep_operands items @ (case rest of Some ws \<Rightarrow> ws | None \<Rightarrow> []);
         (query, folder) =
           (case grep_patterns items of
              pat # _ \<Rightarrow> (Some pat, get operands 0)
            | [] \<Rightarrow> (get operands 0, get operands 1))
     in SearchSummary (shlex_join sh (head # grep_arguments items rest)) query (map_option short_display_path folder))"
proof -
  let ?args = "grep_arguments items rest"
  have "trim_at_connector ?args = ?args" using assms(3) by (simp add: trim_at_connector_def takeWhile_eq_all_conv list_all_iff)
  note loop = grep_loop_items [OF assms(2), of rest "[]" None]
  show ?thesis
    unfolding summarize_grep [OF assms(1)] parse_grep_like_def \<open>trim_at_connector ?args = ?args\<close> loop
    by (cases "grep_patterns items") (simp_all add: get_def Let_def)
qed

theorem grep_summary_exact_witness:
  "summarize_main_tokens plain_shlex [lit ''grep'', lit ''--max-count'', lit ''5'', lit ''-n'', lit ''foo'', lit ''src''] =
   SearchSummary (lit ''grep --max-count 5 -n foo src'') (Some (lit ''foo'')) (Some (lit ''src''))"
proof -
  let ?items = "[Value_Option (lit ''--max-count'') (lit ''5''), Plain_Flag (lit ''-n''), Operand (lit ''foo''), Operand (lit ''src'')]"
  have "list_all grep_item_ok ?items" "list_all (\<lambda>t. \<not> is_connector t) (grep_arguments ?items None)" by code_simp+
  moreover have "short_display_path (lit ''src'') = lit ''src''"
    "shlex_join plain_shlex (lit ''grep'' # grep_arguments ?items None) = lit ''grep --max-count 5 -n foo src''" by code_simp+
  moreover have "grep_arguments ?items None = [lit ''--max-count'', lit ''5'', lit ''-n'', lit ''foo'', lit ''src'']"
    by (simp add: grep_arguments_def del: lit_Cons)
  ultimately show ?thesis
    using grep_summary_exact [of "lit ''grep''" ?items None plain_shlex] by (simp add: get_def Let_def del: lit_Cons)
qed

section \<open>What is not understood is shown\<close>

text \<open>Joined words split into the words again, and a plain word is one word (crate shlex).\<close>

definition shlex_laws :: "shlex \<Rightarrow> bool" where
  "shlex_laws sh \<longleftrightarrow>
     (\<forall>ts j. sh_try_join sh ts = Some j \<longrightarrow> sh_split sh j = Some ts) \<and> sh_split sh (lit ''true'') = Some [lit ''true'']"

text \<open>An unknown command that no simplification takes away.\<close>

definition kept :: "shlex \<Rightarrow> parsed_command \<Rightarrow> bool" where
  "kept sh pc \<longleftrightarrow>
     is_unknown pc \<and> \<not> unknown_starts sh (lit ''echo'') pc \<and> \<not> unknown_starts sh (lit ''cd'') pc \<and>
     \<not> is_unknown_true pc \<and> \<not> is_bare_nl sh pc"

text \<open>
  Stages that a simplification may take away: \<^verbatim>\<open>echo\<close> and \<^verbatim>\<open>cd\<close> with any arguments, \<^verbatim>\<open>true\<close> alone, and \<^verbatim>\<open>nl\<close> without a file.
\<close>

fun droppable :: "rstr list \<Rightarrow> bool" where
  "droppable [] = True"
| "droppable (t # rest) \<longleftrightarrow>
     t = lit ''echo'' \<or> t = lit ''cd'' \<or> t = lit ''true'' \<and> rest = [] \<or> t = lit ''nl'' \<and> list_all is_flag rest"

lemma kept_unknown:
  assumes "shlex_laws sh" and "\<not> droppable ts" and "sh_try_join sh ts \<noteq> None"
  shows "kept sh (UnknownSummary (shlex_join sh ts))"
proof -
  obtain j where j: "sh_try_join sh ts = Some j" using assms(3) by blast
  obtain t rest where t: "ts = t # rest" using assms(2) by (cases ts) auto
  have split: "sh_split sh j = Some (t # rest)" using assms(1) j by (simp add: shlex_laws_def t)
  have ne: "t \<noteq> lit ''echo''" "t \<noteq> lit ''cd''" "\<not> (t = lit ''true'' \<and> rest = [])" "\<not> (t = lit ''nl'' \<and> list_all is_flag rest)"
    using assms(2) unfolding t droppable.simps by blast+
  have "j \<noteq> lit ''true''" using assms(1) split ne(3) unfolding shlex_laws_def by auto
  then show ?thesis
    using ne by (simp only: kept_def shlex_join_def j split option.case unknown_starts.simps is_unknown_true.simps is_bare_nl.simps
        is_unknown.simps list.case) simp
qed

lemma position_remove_keeps: "position P xs = Some i \<Longrightarrow> x \<in> set xs \<Longrightarrow> \<not> P x \<Longrightarrow> x \<in> set (remove_at i xs)"
proof (induction xs arbitrary: i)
  case (Cons y ys)
  then show ?case by (cases "P y") (auto simp: remove_at_def)
qed simp

lemma simplify_once_keeps:
  assumes "kept sh pc" and "pc \<in> set commands" and "simplify_once sh commands = Some next"
  shows "pc \<in> set next"
proof -
  have no: "\<not> unknown_starts sh (lit ''echo'') pc" "\<not> unknown_starts sh (lit ''cd'') pc" "\<not> is_unknown_true pc" "\<not> is_bare_nl sh pc"
    using assms(1) unfolding kept_def by blast+
  note keeps = position_remove_keeps [OF _ assms(2)]
  consider "unknown_starts sh (lit ''echo'') (hd commands)" "next = tl commands"
    | i where "position (unknown_starts sh (lit ''cd'')) commands = Some i" "next = remove_at i commands"
    | i where "position is_unknown_true commands = Some i" "next = remove_at i commands"
    | i where "position (is_bare_nl sh) commands = Some i" "next = remove_at i commands"
    using assms(3) unfolding simplify_once_def Let_def by (auto split: if_splits option.splits simp del: lit_Cons)
  then show ?thesis
  proof cases
    case 1
    then show ?thesis using no(1) assms(2) by (cases commands) auto
  qed (use keeps no in blast)+
qed

lemma simplify_keeps: "kept sh pc \<Longrightarrow> pc \<in> set commands \<Longrightarrow> pc \<in> set (simplify sh commands)"
proof (induction sh commands rule: simplify.induct)
  case (1 sh commands)
  then show ?case
    using simplify_once_keeps [OF 1(2,3)] by (subst simplify.simps) (auto split: option.split)
qed

lemma summarize_parts_keeps:
  "ts \<in> set parts \<Longrightarrow> \<not> (ts \<noteq> [] \<and> hd ts = lit ''cd'') \<Longrightarrow> summarize_main_tokens sh ts = UnknownSummary c \<Longrightarrow>
   UnknownSummary c \<in> set (summarize_parts sh cwd parts)"
proof (induction sh cwd parts rule: summarize_parts.induct)
  case (2 sh cwd tokens parts)
  show ?case
  proof (cases "tokens \<noteq> [] \<and> hd tokens = lit ''cd''")
    case True
    then have "ts \<noteq> tokens" using 2(4) by blast
    then show ?thesis using True 2 by (simp del: lit_Cons)
  next
    case False
    then show ?thesis using 2 by (cases "ts = tokens") (auto simp del: lit_Cons)
  qed
qed simp

lemma dedup_unknown: "list_ex is_unknown (dedup_consecutive xs) \<longleftrightarrow> list_ex is_unknown xs"
proof -
  have same: "is_unknown b \<Longrightarrow> is_unknown a" if "parsed_command_same a b" for a b
    using that by (cases a; cases b) auto
  have "list_ex is_unknown (foldl (\<lambda>d c. if d \<noteq> [] \<and> parsed_command_same (last d) c then d else d @ [c]) acc xs) \<longleftrightarrow>
    list_ex is_unknown acc \<or> list_ex is_unknown xs" for acc
    by (induction xs arbitrary: acc) (auto simp: list_ex_iff dest: same last_in_set)
  from this [of "[]"] show ?thesis by (simp add: dedup_consecutive_def)
qed

lemma unknown_summary_cmd: "is_unknown (summarize_main_tokens sh ts) \<Longrightarrow> summarize_main_tokens sh ts = UnknownSummary (shlex_join sh ts)"
  using summary_names_main [of sh ts] by (cases "summarize_main_tokens sh ts") auto

lemma summarize_script_keeps:
  assumes laws: "shlex_laws sh" and ts: "ts \<in> set cmds" "\<not> is_small_formatting_command ts" "is_unknown (summarize_main_tokens sh ts)"
    and first: "\<not> droppable ts" and join: "sh_try_join sh ts \<noteq> None"
  shows "list_ex is_unknown (summarize_script sh script cmds)"
proof -
  let ?u = "UnknownSummary (shlex_join sh ts)" and ?fs = "drop_small_formatting_commands cmds"
  have kept: "kept sh ?u" using kept_unknown [OF laws first join] .
  have mem: "ts \<in> set ?fs" using ts(1,2) by (simp add: drop_small_formatting_commands_def)
  have "\<not> (ts \<noteq> [] \<and> hd ts = lit ''cd'')" using first by (cases ts) auto
  then have part: "?u \<in> set (summarize_parts sh None ?fs)"
    using summarize_parts_keeps [OF mem _ unknown_summary_cmd [OF ts(3)]] by blast
  define commands where "commands = (if length (summarize_parts sh None ?fs) > 1
    then simplify sh (filter (\<lambda>pc. \<not> is_unknown_true pc) (summarize_parts sh None ?fs)) else summarize_parts sh None ?fs)"
  have u: "?u \<in> set commands"
    using part simplify_keeps [OF kept] kept by (auto simp: commands_def kept_def)
  have "?u \<in> set (map (attribute_script sh script toks b) commands)" for toks b
    using u by (auto intro!: image_eqI [of _ _ ?u])
  then show ?thesis
    using u mem unfolding summarize_script_def Let_def commands_def [symmetric] list_ex_iff
    by (auto intro!: bexI [of _ ?u] simp del: set_map)
qed

text \<open>
  C31 (safety): nothing unknown is hidden. When a stage of a shell script that splits into plain commands is neither a
  formatting helper nor understood, its words can be joined to one line, and it is not \<^verbatim>\<open>echo\<close>, \<^verbatim>\<open>cd\<close>, a bare \<^verbatim>\<open>true\<close> or an \<^verbatim>\<open>nl\<close> without a file, which are left out on purpose, the summary
  is one unknown command that shows the whole script, whatever the other stages are.
\<close>

theorem unknown_stage_shows_script:
  assumes laws: "shlex_laws sh" and script: "extract_bash_command command = Some (shell, script)"
    and tree: "parse script = Some tree" "try_parse_word_only_commands_sequence tree script = Some cmds"
    and ts: "ts \<in> set cmds" "\<not> is_small_formatting_command ts" "is_unknown (summarize_main_tokens sh ts)"
    and first: "\<not> droppable ts" and join: "sh_try_join sh ts \<noteq> None"
  shows "parse_command sh parse command = [UnknownSummary script]"
proof -
  have "cmds \<noteq> []" using ts(1) by auto
  then have "parse_command_impl sh parse command = summarize_script sh script cmds"
    by (simp add: parse_command_impl_def parse_shell_lc_commands_def script tree)
  then show ?thesis
    using summarize_script_keeps [OF laws ts first join]
    by (simp add: parse_command_def dedup_unknown single_unknown_for_command_def extract_shell_command_def script)
qed

lemma plain_shlex_laws: "shlex_laws plain_shlex"
proof -
  have "filter (\<lambda>w. w \<noteq> []) (split_on 32 (str_join [32] ts)) = ts" if "list_all (\<lambda>t. t \<noteq> [] \<and> 32 \<notin> set t) ts" for ts
  proof (cases "ts = []")
    case False
    then have "split_on 32 (str_join [32] ts) = ts" using that by (intro split_on_join) (auto simp: list_all_iff)
    then show ?thesis using that by (auto simp: filter_id_conv list_all_iff)
  qed simp
  then show ?thesis by (auto simp: shlex_laws_def plain_shlex_def split: if_splits)
qed

theorem unknown_stage_shows_script_witness:
  "parse_command plain_shlex (\<lambda>_. Some pipe_tree) [lit ''bash'', lit ''-lc'', lit ''ls|rm''] = [UnknownSummary (lit ''ls|rm'')]"
proof (rule unknown_stage_shows_script [OF plain_shlex_laws, of _ "lit ''bash''" _ _ pipe_tree "[[lit ''ls''], [lit ''rm'']]" "[lit ''rm'']"])
  show "extract_bash_command [lit ''bash'', lit ''-lc'', lit ''ls|rm''] = Some (lit ''bash'', lit ''ls|rm'')" by code_simp
  show "try_parse_word_only_commands_sequence pipe_tree (lit ''ls|rm'') = Some [[lit ''ls''], [lit ''rm'']]" by code_simp
  show "\<not> is_small_formatting_command [lit ''rm'']" by code_simp
  show "is_unknown (summarize_main_tokens plain_shlex [lit ''rm''])" by code_simp
  show "\<not> droppable [lit ''rm'']" by code_simp
  show "sh_try_join plain_shlex [lit ''rm''] \<noteq> None" by (simp add: plain_shlex_def)
qed simp_all

text \<open>A stage that changes files through \<^verbatim>\<open>xargs\<close> is such a stage.\<close>

lemma mutating_xargs_is_unknown:
  assumes "is_mutating_xargs_command ts"
  shows "\<not> is_small_formatting_command ts \<and> is_unknown (summarize_main_tokens sh ts) \<and> \<not> droppable ts"
proof -
  obtain rest where ts: "ts = lit ''xargs'' # rest"
    using assms by (auto simp: is_mutating_xargs_command_def xargs_subcommand_def split: list.splits if_splits option.splits)
  then show ?thesis
    using assms by (simp add: is_small_formatting_command_def summarize_main_tokens_def is_python_command_def
        starts_with_def)
qed

section \<open>The prefix of a PowerShell script\<close>

text \<open>Words after the script: the prefixed script replaces the last of them, and the script itself runs as it was.\<close>

lemma prefix_lost_before_arguments:
  "prefix_powershell_script_with_utf8 [lit ''pwsh'', lit ''-c'', lit ''dir'', lit ''x''] =
   [lit ''pwsh'', lit ''-c'', lit ''dir'', UTF8_OUTPUT_PREFIX @ lit ''dir'']"
proof -
  have "extract_powershell_command [lit ''pwsh'', lit ''-c'', lit ''dir'', lit ''x''] = Some (lit ''pwsh'', lit ''dir'')" by code_simp
  moreover have "\<not> starts_with (trim_start (lit ''dir'')) UTF8_OUTPUT_PREFIX"
    by (simp add: trim_start_def is_whitespace_def UTF8_OUTPUT_PREFIX_def starts_with_def)
  ultimately show ?thesis unfolding prefix_powershell_script_with_utf8_def by simp
qed

end
