(* ===== verification/Spec2Isabelle.thy ===== *)
theory Spec2Isabelle
  imports Seek_Sequence Streaming_Grammar Apply_Delta Assistant_Text Utf8_Stream Exec_Policy_Correct
    Command_Safety_Correct Exec_Approval_Correct Head_Tail_Buffer Rollback Recording Patch_Safety Permission_Profiles_Correct
    Network_Correct Legacy_Policy_Correct Template
    Command_Summary_Correct
begin

text \<open>
  A verification library for the Codex agent (\<^verbatim>\<open>codex-rs\<close>, in Rust).

  \<^bold>\<open>The program.\<close> Codex runs a language model against a user's machine. The model answers with a
  stream of text and with calls of tools: shell commands, patches of files, searches. The parts
  modelled here are those that decide what such an answer may do and what becomes of it:

  \<^item> the patch tool (crate \<^verbatim>\<open>apply-patch\<close>) parses a patch, also while it is still being streamed,
    locates its chunks in the files and edits them, recording what it changed;
  \<^item> the stream parsers (crate \<^verbatim>\<open>utils/stream-parser\<close>) cut hidden tags, citations and proposed plans
    out of the streamed text;
  \<^item> the command checks (crates \<^verbatim>\<open>shell-command\<close>, \<^verbatim>\<open>execpolicy\<close> and \<^verbatim>\<open>core/src/exec_policy.rs\<close>)
    take a shell command apart, look it up in lists of safe and dangerous commands and in the
    rules of the user, and decide whether it runs, is asked about or is refused;
  \<^item> the output of processes is kept in a bounded buffer (\<^verbatim>\<open>core/src/unified_exec\<close>), truncated
    (\<^verbatim>\<open>utils/string\<close>, \<^verbatim>\<open>utils/output-truncation\<close>) and recorded in the conversation history
    (\<^verbatim>\<open>core/src/context_manager\<close>), which is normalised before it goes back to the model and cut
    when the user rolls a turn back;
  \<^item> the permissions of a turn (\<^verbatim>\<open>protocol/src/permissions.rs\<close>) say which paths may be read and
    written; they decide whether a patch is applied without asking (\<^verbatim>\<open>core/src/safety.rs\<close>), also
    when the patch arrives as a shell command (\<^verbatim>\<open>apply-patch/src/invocation.rs\<close>), and which
    folders the sandbox leaves open;
  \<^item> the network proxy (crate \<^verbatim>\<open>network-proxy\<close>) decides for every host whether a request passes,
    from a configuration that is checked against what an administrator allows;
  \<^item> the older policy checker (crate \<^verbatim>\<open>execpolicy-legacy\<close>) matches a call against the declared
    arguments of a program, and \<^verbatim>\<open>utils/template\<close> fills in the texts of prompts.

  \<^bold>\<open>Conventions.\<close> \<open>Prelude\<close> models Rust's strings as lists of code points and the part of
  \<^verbatim>\<open>std::str\<close> that is used. A struct is a record, an enum a datatype, \<^verbatim>\<open>Result\<close> a sum with \<open>Inl\<close> for
  \<^verbatim>\<open>Err\<close>; a function that may panic returns an option, \<open>None\<close> for the panic. Lengths and counters
  of type \<^verbatim>\<open>usize\<close> are natural numbers, with saturation at \<open>USIZE_MAX\<close> written out where the source
  saturates; \<^verbatim>\<open>i64\<close> is an integer with wrap-around or overflow panic written out, and the \<^verbatim>\<open>f64\<close>
  product by which a truncation policy is scaled is computed with its rounding. No loop needs
  fuel: each is a structural recursion or has a measure, so every modelled function is total.
  Theorems that need strings to fit in memory say so (\<open>utf8_len s \<le> USIZE_MAX\<close>).

  \<^bold>\<open>Theories and sources\<close> (paths under \<^verbatim>\<open>src/codex-rs\<close>).

  \<^item> \<open>Seek_Sequence\<close>: \<^verbatim>\<open>apply-patch/src/seek_sequence.rs\<close>. A position found from a start is the
    leftmost at the strictest of the four comparison levels; a search at the end of the file tries
    only its last position.
  \<^item> \<open>Patch_Parser\<close>, \<open>Patch_Grammar\<close>: \<^verbatim>\<open>apply-patch/src/parser.rs\<close>. Parsing the rendering of a patch
    gives the patch back; slices stay in range; a here-document is unwrapped.
  \<^item> \<open>Streaming_Patch\<close>, \<open>Streaming_Grammar\<close>: \<^verbatim>\<open>apply-patch/src/streaming_parser.rs\<close>. The result does not
    depend on the chunks (locale \<open>chunked_parser\<close>) and agrees with the batch parser, white space at
    the end of context headers and move targets apart.
  \<^item> \<open>Paths\<close>: \<^verbatim>\<open>utils/absolute-path\<close>, Unix only.
  \<^item> \<open>Apply_Patch\<close>, \<open>Apply_Patch_Correct\<close>, \<open>Apply_Hunks\<close>, \<open>Apply_Delta\<close>: \<^verbatim>\<open>apply-patch/src/lib.rs\<close> over an
    abstract file system. New contents never panic and are the splice of the located regions; an
    exact delta replays to the files the run left.
  \<^item> \<open>Stream_Interface\<close>, \<open>Inline_Hidden_Tag\<close>, \<open>Citations\<close>, \<open>Tagged_Line\<close>, \<open>Assistant_Text\<close>, \<open>Utf8_Stream\<close>:
    \<^verbatim>\<open>utils/stream-parser\<close>. The trait of the parsers is the locale \<open>text_stream\<close>, interpreted for
    each of them; what they extract does not depend on the chunks, not even when chunks of bytes
    split a code point.
  \<^item> \<open>Exec_Rules\<close>, \<open>Exec_Policy\<close>, \<open>Exec_Policy_Correct\<close>: \<^verbatim>\<open>execpolicy/src\<close>. A decision is the strictest
    of the matching rules, a match covers the command, an overlay never weakens a rule for the
    program as the command writes it, nor one for its base name unless a rule for its path hides it; the container
    of the rules is the locale \<open>multimap\<close>.
  \<^item> \<open>Policy_Amend\<close>: \<^verbatim>\<open>execpolicy/src/amend.rs\<close>. Writing a rule adds its line once.
  \<^item> \<open>Bash_Script\<close>: \<^verbatim>\<open>shell-command/src/bash.rs\<close> and \<^verbatim>\<open>shell_detect.rs\<close>. Which scripts are split into
    plain commands.
  \<^item> \<open>Command_Safety\<close>, \<open>Command_Safety_Correct\<close>: \<^verbatim>\<open>shell-command/src/command_safety\<close>. The safe and the
    dangerous commands are disjoint (locale \<open>command_lists\<close>); what a safe git command, script or
    PowerShell call looks like.
  \<^item> \<open>Command_Summary\<close>, \<open>Command_Summary_Correct\<close>: \<^verbatim>\<open>shell-command/src/parse_command.rs\<close> and the calls of
    PowerShell in \<^verbatim>\<open>powershell.rs\<close>. What the user is told a command does: names are arguments, a search
    names its query and folder, and a stage that is not understood is never left out, but for \<^verbatim>\<open>echo\<close>, \<^verbatim>\<open>cd\<close>,
    \<^verbatim>\<open>true\<close> and \<^verbatim>\<open>nl\<close>.
  \<^item> \<open>Exec_Approval\<close>, \<open>Exec_Approval_Correct\<close>: \<^verbatim>\<open>core/src/exec_policy.rs\<close> and
    \<^verbatim>\<open>core/src/tools/sandboxing.rs\<close>. Rules are respected for every command of a script, the sandbox
    is skipped unasked only by rule or on a request that would be let through anyway, prompts follow the approval policy, dangerous commands never run
    unasked, and an accepted amendment takes effect.
  \<^item> \<open>Head_Tail_Buffer\<close>: \<^verbatim>\<open>core/src/unified_exec/head_tail_buffer.rs\<close>. The buffer refines the first and
    last bytes of the whole output.
  \<^item> \<open>Truncation\<close>: \<^verbatim>\<open>utils/string/src/truncate.rs\<close>, \<^verbatim>\<open>utils/output-truncation/src/lib.rs\<close>. What is kept, and
    that nothing is cut inside a char.
  \<^item> \<open>Response_Items\<close>, \<open>Context_History\<close>, \<open>Context_History_Correct\<close>, \<open>Recording\<close>, \<open>Rollback\<close>:
    \<^verbatim>\<open>core/src/context_manager\<close>, \<^verbatim>\<open>core/src/event_mapping.rs\<close>, \<^verbatim>\<open>core/src/context\<close> and the item types of
    \<^verbatim>\<open>protocol/src/models.rs\<close>. Calls and outputs sent to the model are paired, dropping items keeps
    them so, recording never fails, and a rollback drops whole turns.
  \<^item> \<open>File_Permissions\<close>, \<open>File_Permissions_Correct\<close>, \<open>Writable_Roots\<close>: \<^verbatim>\<open>protocol/src/permissions.rs\<close> and the
    writable roots of \<^verbatim>\<open>protocol/src/protocol.rs\<close>. The most specific entry decides the access of a
    path, metadata folders are guarded, and what a writable root lets through the policy allows
    too.
  \<^item> \<open>Legacy_Sandbox\<close>, \<open>Legacy_Sandbox_Correct\<close>: the older \<^verbatim>\<open>SandboxPolicy\<close> of \<^verbatim>\<open>protocol/src/protocol.rs\<close>, its
    conversions from and to the file system policy, the test for direct enforcement and
    \<^verbatim>\<open>ReadDenyMatcher\<close> (\<^verbatim>\<open>protocol/src/permissions.rs\<close>). Converting never widens what can be written, as long as
    no \<^verbatim>\<open>.git\<close> pointer file or metadata in a temporary folder comes in; there and back the policy means the same, and
    the matcher denies exactly what the deny entries below the root of the file system say.
  \<^item> \<open>Permission_Profiles\<close>, \<open>Permission_Profiles_Correct\<close>: \<^verbatim>\<open>sandboxing/src/policy_transforms.rs\<close> and the
    permission types of \<^verbatim>\<open>protocol/src/models.rs\<close>. The intersection of a request and a grant stays
    within both for reading; a profile and its runtime policies determine each other.
  \<^item> \<open>Patch_Invocation\<close>, \<open>Patch_Safety\<close>: \<^verbatim>\<open>apply-patch/src/invocation.rs\<close>, \<^verbatim>\<open>core/src/safety.rs\<close>. A patch
    that is applied unasked writes only where the policy allows, hard links and moves that a later
    hunk hides apart.
  \<^item> \<open>Host_Policy\<close>, \<open>Host_Policy_Correct\<close>, \<open>Network_Config\<close>, \<open>Network_State\<close>, \<open>Network_Correct\<close>:
    \<^verbatim>\<open>network-proxy/src\<close> (\<^verbatim>\<open>policy.rs\<close>, \<^verbatim>\<open>config.rs\<close>, \<^verbatim>\<open>state.rs\<close>, \<^verbatim>\<open>runtime.rs\<close>). Patterns of hosts and what a
    compiled list of them matches, the decision for a host, that a denied host stays refused until a reload or until
    it is allowed, and that no sequence of requests and reloads leaves the constraints.
  \<^item> \<open>Legacy_Policy\<close>, \<open>Legacy_Policy_Correct\<close>: \<^verbatim>\<open>execpolicy-legacy/src\<close>. Positional arguments are matched
    as a regular pattern, every argument of an accepted call is checked for its type, and files among them
    lie in the folders given.
  \<^item> \<open>Template\<close>: \<^verbatim>\<open>utils/template/src/lib.rs\<close>. Rendering gives literals and values in order; an error
    names a delimiter.

  \<^bold>\<open>Parameters.\<close> Code that is not part of the repository is an argument of the definitions: the
  syntax trees of tree-sitter, the answers of a PowerShell process, the container crate multimap,
  shlex, serde_json, the XML reader of hook prompts, the diff text of the crate similar, image
  decoding, the file systems and the paths of the machine they are on, the glob matcher globset,
  the name resolver, the URL parser, regular expressions and path-absolutize. Where a theorem relies on such code, its laws are a named
  hypothesis or a locale, and a witness instantiates it.

  \<^bold>\<open>Not modelled.\<close> The terminal interface, the app server and its clients, login, storage, model
  providers and sandboxes are I/O, rendering or system calls. Policy files are read by a Starlark
  interpreter, a third-party crate. Of the parts above, Windows-only branches, the loading of
  configuration layers, the conversion of items to client events and the text of rendered
  diffs are left out; of the network proxy, its HTTP, SOCKS and
  certificate-generating servers; of the shell commands, the Windows list of
  dangerous commands. The turn diff
  tracker only renders diffs by an external crate.
\<close>

section \<open>From tool output to prompt\<close>

text \<open>
  C30 (safety): recording a turn whose calls are all answered on a paired history never fails,
  whatever its outputs are truncated to; the history stays paired, grows by the recorded items
  that are not system messages, and goes to the model without an item added or removed, in
  builds with and without debug assertions.
\<close>
theorem recorded_turn_stays_paired:
  assumes "paired (items m)" and "paired (filter is_api_message new)" and "list_all item_fits new"
  shows "\<exists>m'. record_items new policy m = Some m' \<and> paired (items m') \<and>
           take (length (items m)) (items m') = items m \<and>
           length (items m') = length (items m) + length (filter is_api_message new) \<and>
           for_prompt env mods m' = Some (strip_images_when_unsupported mods (items m'))"
proof -
  obtain out where loop: "record_items_loop policy new (items m) = Some (items m @ out)"
    and keys: "list_all2 same_keys (filter is_api_message new) out"
    using record_items_loop_returns[OF assms(3)] by blast
  let ?m = "m\<lparr>items := items m @ out\<rparr>"
  have "paired (items ?m)"
    using paired_append[OF assms(1) paired_same_keys[OF keys assms(2)]] by simp
  moreover have "for_prompt env mods ?m = Some (strip_images_when_unsupported mods (items ?m))"
    using normalize_paired[OF \<open>paired (items ?m)\<close>] by (simp add: for_prompt_bind)
  moreover have "record_items new policy m = Some ?m" by (simp add: record_items_def loop)
  ultimately show ?thesis using list_all2_lengthD[OF keys] by force
qed

theorem recorded_turn_stays_paired_witness:
  "let new = [FunctionCall None (lit ''f'') None [] (lit ''1''), OtherItem,
              FunctionCallOutput (lit ''1'') (payload_from_text (lit ''ok''))]
   in paired (filter is_api_message new) \<and>
      (\<exists>m'. record_items new (Bytes 10) (history_of []) = Some m' \<and> length (items m') = 2 \<and>
            paired (items m' :: unit response_item list))"
proof -
  let ?new = "[FunctionCall None (lit ''f'') None [] (lit ''1''), OtherItem,
               FunctionCallOutput (lit ''1'') (payload_from_text (lit ''ok''))] :: unit response_item list"
  have 1: "paired (items (history_of [] :: (unit, unit) context_manager))"
    by (simp add: history_of_def paired_def)
  have 2: "paired (filter is_api_message ?new)" by (simp add: paired_def)
  have 3: "list_all item_fits ?new"
    by (simp add: body_fits_def payload_from_text_def len_utf8_def USIZE_MAX_def)
  from recorded_turn_stays_paired[OF 1 2 3, where policy = "Bytes 10" and env = "no_env True" and mods = "[]"] 2
  show ?thesis by (auto simp: history_of_def numeral_2_eq_2)
qed

end
